(* ===== verification/Prelude.thy ===== *)
theory Prelude
  imports Main "HOL-Library.Sublist"
begin

text \<open>
  Shared vocabulary of the development: HTTP errors and results, the sequencing of fallible
  steps, the database transaction, and tables of rows with the reads and writes that the
  services issue (\<open>findUnique\<close>, \<open>findFirst\<close>, \<open>update\<close>, \<open>updateMany\<close>, \<open>create\<close>).
  The locale of balance tables states what every table with an integer column and a key
  guarantees to the money movements.
\<close>

named_theorems result_simps \<open>elimination of successful fallible steps\<close>
named_theorems table_simps \<open>reads of a table after a write\<close>

section \<open>Errors and results\<close>

text \<open>Identifiers are the strings \<open>cuid()\<close> returns.\<close>

type_synonym ident = string

text \<open>
  The NestJS exceptions the services throw. A message is kept as a literal; the values that a
  template string interpolates into it are dropped, except in the structured body of the
  insufficient-balance error.
\<close>

datatype http_error =
    BadRequest String.literal
  | NotFound String.literal
  | Forbidden String.literal
  | Unauthorized String.literal
  | Conflict String.literal
  | BadGateway String.literal
  | Internal String.literal
  | InsufficientAvailable int int int int int

type_synonym 'a result = "http_error + 'a"

text \<open>\<open>andThen\<close> runs the rest of a handler unless the step before it threw.\<close>

definition andThen :: "'e + 'a \<Rightarrow> ('a \<Rightarrow> 'e + 'b) \<Rightarrow> 'e + 'b" where
  "andThen r f = (case r of Inl e \<Rightarrow> Inl e | Inr x \<Rightarrow> f x)"

definition require :: "bool \<Rightarrow> 'e \<Rightarrow> 'e + unit" where
  "require b e = (if b then Inr () else Inl e)"

definition require_some :: "'a option \<Rightarrow> 'e \<Rightarrow> 'e + 'a" where
  "require_some x e = (case x of None \<Rightarrow> Inl e | Some v \<Rightarrow> Inr v)"

lemma andThen_Inl [simp]: "andThen (Inl e) f = Inl e"
  by (simp add: andThen_def)

lemma andThen_Inr [simp]: "andThen (Inr x) f = f x"
  by (simp add: andThen_def)

lemma andThen_eq_Inr [result_simps]: "andThen r f = Inr y \<longleftrightarrow> (\<exists>x. r = Inr x \<and> f x = Inr y)"
  by (cases r) auto

lemma andThen_eq_Inl: "andThen r f = Inl e \<longleftrightarrow> r = Inl e \<or> (\<exists>x. r = Inr x \<and> f x = Inl e)"
  by (cases r) auto

lemma require_True [simp]: "require True e = Inr ()"
  by (simp add: require_def)

lemma require_False [simp]: "require False e = Inl e"
  by (simp add: require_def)

lemma require_eq_Inr [result_simps]: "require b e = Inr u \<longleftrightarrow> b"
  by (simp add: require_def)

lemma require_some_Some [simp]: "require_some (Some v) e = Inr v"
  by (simp add: require_some_def)

lemma require_some_None [simp]: "require_some None e = Inl e"
  by (simp add: require_some_def)

lemma require_some_eq_Inr [result_simps]: "require_some x e = Inr v \<longleftrightarrow> x = Some v"
  by (cases x) auto

text \<open>
  \<open>prisma.$transaction(body)\<close>: the writes of a body that throws are rolled back, and the
  exception reaches the caller.
\<close>

definition transaction :: "('s \<Rightarrow> 'e + 'a \<times> 's) \<Rightarrow> 's \<Rightarrow> 's \<times> ('e + 'a)" where
  "transaction body s = (case body s of Inl e \<Rightarrow> (s, Inl e) | Inr (x, s') \<Rightarrow> (s', Inr x))"

lemma transaction_Inl: "transaction body s = (s', Inl e) \<longleftrightarrow> body s = Inl e \<and> s' = s"
  by (auto simp: transaction_def split: sum.splits)

lemma transaction_Inr: "transaction body s = (s', Inr x) \<longleftrightarrow> body s = Inr (x, s')"
  by (auto simp: transaction_def split: sum.splits)

text \<open>An atomic body cannot leave partial writes behind: it either commits or changes nothing.\<close>

lemma transaction_atomic:
  "fst (transaction body s) = s \<or> (\<exists>x. body s = Inr (x, fst (transaction body s)))"
  by (auto simp: transaction_def split: sum.splits)

text \<open>An invariant a body keeps when it succeeds survives the transaction whatever happens.\<close>

lemma transaction_invariant:
  assumes "I s" and "\<And>x s'. body s = Inr (x, s') \<Longrightarrow> I s'"
  shows "I (fst (transaction body s))"
  using assms by (auto simp: transaction_def split: sum.splits)

text \<open>
  \<open>thenDo\<close> sequences steps that have committed writes of their own: when a later step throws, the
  earlier writes stay.
\<close>

definition thenDo :: "'s \<times> ('e + 'a) \<Rightarrow> ('a \<Rightarrow> 's \<Rightarrow> 's \<times> ('e + 'b)) \<Rightarrow> 's \<times> ('e + 'b)" where
  "thenDo r k = (case r of (s, Inl e) \<Rightarrow> (s, Inl e) | (s, Inr x) \<Rightarrow> k x s)"

lemma thenDo_simps [simp]:
  "thenDo (s, Inl e) k = (s, Inl e)"
  "thenDo (s, Inr x) k = k x s"
  by (simp_all add: thenDo_def)

lemma thenDo_eq_Inr [result_simps]:
  "thenDo r k = (s', Inr y) \<longleftrightarrow> (\<exists>s x. r = (s, Inr x) \<and> k x s = (s', Inr y))"
  by (auto simp: thenDo_def split: prod.splits sum.splits)

lemma thenDo_invariant:
  assumes "I (fst r)" and "\<And>s x. r = (s, Inr x) \<Longrightarrow> I s \<Longrightarrow> I (fst (k x s))"
  shows "I (fst (thenDo r k))"
  using assms by (auto simp: thenDo_def split: prod.splits sum.splits)

text \<open>An invariant that every operation keeps holds after every sequence of operations.\<close>

locale kept_invariant =
  fixes step :: "'e \<Rightarrow> 's \<Rightarrow> 's"
    and I :: "'s \<Rightarrow> bool"
  assumes step_keeps: "I s \<Longrightarrow> I (step e s)"
begin

lemma sequence_keeps: "I s \<Longrightarrow> I (fold step es s)"
  by (induction es arbitrary: s) (simp_all add: step_keeps)

end

section \<open>Tables\<close>

text \<open>
  A table is the list of its rows in insertion order. \<open>lookup_by key k\<close> is a read by a unique
  column (\<open>findUnique\<close>); \<open>update_by\<close> writes that row; \<open>update_where\<close> is \<open>updateMany\<close>. A
  \<open>findFirst\<close> without an order is the first match in insertion order.
\<close>

definition lookup_by :: "('r \<Rightarrow> 'k) \<Rightarrow> 'k \<Rightarrow> 'r list \<Rightarrow> 'r option" where
  "lookup_by key k t = find (\<lambda>r. key r = k) t"

definition update_where :: "('r \<Rightarrow> bool) \<Rightarrow> ('r \<Rightarrow> 'r) \<Rightarrow> 'r list \<Rightarrow> 'r list" where
  "update_where P f t = map (\<lambda>r. if P r then f r else r) t"

definition update_by :: "('r \<Rightarrow> 'k) \<Rightarrow> 'k \<Rightarrow> ('r \<Rightarrow> 'r) \<Rightarrow> 'r list \<Rightarrow> 'r list" where
  "update_by key k f t = update_where (\<lambda>r. key r = k) f t"

text \<open>A column that is \<open>undefined\<close> in a \<open>where\<close> is no condition.\<close>

definition where_column :: "'a option \<Rightarrow> 'a \<Rightarrow> bool" where
  "where_column c v = (case c of None \<Rightarrow> True | Some x \<Rightarrow> v = x)"

lemma find_SomeD: "find P xs = Some x \<Longrightarrow> x \<in> set xs \<and> P x"
  by (induction xs) (auto split: if_splits)

lemma lookup_by_Nil [table_simps]: "lookup_by key k [] = None"
  by (simp add: lookup_by_def)

lemma lookup_by_Cons: "lookup_by key k (r # t) = (if key r = k then Some r else lookup_by key k t)"
  by (simp add: lookup_by_def)

lemma lookup_by_append [table_simps]:
  "lookup_by key k (t @ [r]) =
     (case lookup_by key k t of Some x \<Rightarrow> Some x | None \<Rightarrow> if key r = k then Some r else None)"
  by (induction t) (auto simp: lookup_by_Cons lookup_by_Nil)

lemma lookup_by_key [dest]: "lookup_by key k t = Some r \<Longrightarrow> key r = k"
  by (induction t) (auto simp: lookup_by_def split: if_splits)

lemma lookup_by_mem: "lookup_by key k t = Some r \<Longrightarrow> r \<in> set t"
  by (induction t) (auto simp: lookup_by_def split: if_splits)

lemma lookup_by_None: "lookup_by key k t = None \<longleftrightarrow> k \<notin> key ` set t"
  by (induction t) (auto simp: lookup_by_Cons lookup_by_Nil)

lemma lookup_by_distinct: "distinct (map key t) \<Longrightarrow> r \<in> set t \<Longrightarrow> lookup_by key (key r) t = Some r"
  by (induction t) (auto simp: lookup_by_Cons image_iff)

lemma row_by_key: "distinct (map key t) \<Longrightarrow> r \<in> set t \<Longrightarrow> q \<in> set t \<Longrightarrow> key r = key q \<Longrightarrow> r = q"
  by (metis lookup_by_distinct option.inject)

lemma lookup_by_update_by [table_simps]:
  assumes "\<And>r. key (f r) = key r"
  shows "lookup_by key k' (update_by key k f t) =
    (if k' = k then map_option f (lookup_by key k t) else lookup_by key k' t)"
  by (induction t) (auto simp: lookup_by_Cons lookup_by_Nil update_by_def update_where_def assms)

text \<open>Reads by another column see the same row, updated if it was the row written.\<close>

lemma lookup_by_update_by_other:
  assumes "\<And>r. key' (f r) = key' r"
  shows "lookup_by key' k' (update_by key k f t) =
    map_option (\<lambda>r. if key r = k then f r else r) (lookup_by key' k' t)"
  by (induction t) (auto simp: lookup_by_Cons lookup_by_Nil update_by_def update_where_def assms)

lemma lookup_by_update_where:
  assumes "\<And>r. key (f r) = key r"
  shows "lookup_by key k (update_where P f t) = map_option (\<lambda>r. if P r then f r else r) (lookup_by key k t)"
  by (induction t) (auto simp: lookup_by_Cons lookup_by_Nil update_where_def assms)

lemma map_key_update_by [table_simps]:
  "(\<And>r. key' (f r) = key' r) \<Longrightarrow> map key' (update_by key k f t) = map key' t"
  by (auto simp: update_by_def update_where_def)

lemma set_update_by:
  "r \<in> set (update_by key k f t) \<longleftrightarrow> (\<exists>s\<in>set t. r = (if key s = k then f s else s))"
  by (induction t) (auto simp: update_by_def update_where_def)

lemma length_update_by [table_simps]: "length (update_by key k f t) = length t"
  by (simp add: update_by_def update_where_def)

lemma update_by_absent: "lookup_by key k t = None \<Longrightarrow> update_by key k f t = t"
  by (induction t) (auto simp: lookup_by_Cons update_by_def update_where_def split: if_splits)

lemma update_by_append [table_simps]:
  "update_by key k f (t @ [r]) = update_by key k f t @ [if key r = k then f r else r]"
  by (simp add: update_by_def update_where_def)

text \<open>A sum over a table moves by what the written row moves.\<close>

lemma sum_update_by:
  fixes g :: "'r \<Rightarrow> int"
  assumes "distinct (map key t)" and "lookup_by key k t = Some r"
  shows "sum_list (map g (update_by key k f t)) = sum_list (map g t) + (g (f r) - g r)"
  using assms
proof (induction t)
  case Nil
  then show ?case by (simp add: lookup_by_Nil)
next
  case (Cons s t)
  show ?case
  proof (cases "key s = k")
    case True
    with Cons.prems have "s = r" and "k \<notin> key ` set t"
      by (auto simp: lookup_by_Cons)
    then have "update_by key k f t = t"
      by (simp add: update_by_absent lookup_by_None)
    with True \<open>s = r\<close> show ?thesis by (simp add: update_by_def update_where_def)
  next
    case False
    with Cons show ?thesis by (simp add: lookup_by_Cons update_by_def update_where_def)
  qed
qed

section \<open>Balance tables\<close>

text \<open>
  Wallets, ledger accounts and savings goals all carry an integer column that money
  movements rewrite. The interface: a key, a column, and a write of the column that keeps the
  key. \<open>adjust\<close> adds an amount to the column of one row.
\<close>

definition adjust :: "('r \<Rightarrow> 'k) \<Rightarrow> ((int \<Rightarrow> int) \<Rightarrow> 'r \<Rightarrow> 'r) \<Rightarrow> 'k \<Rightarrow> int \<Rightarrow> 'r list \<Rightarrow> 'r list" where
  "adjust key upd k d t = update_by key k (upd (\<lambda>b. b + d)) t"

definition total :: "('r \<Rightarrow> int) \<Rightarrow> 'r list \<Rightarrow> int" where
  "total col t = sum_list (map col t)"

locale balance_table =
  fixes key :: "'r \<Rightarrow> 'k"
    and col :: "'r \<Rightarrow> int"
    and upd :: "(int \<Rightarrow> int) \<Rightarrow> 'r \<Rightarrow> 'r"
  assumes key_upd: "key (upd f r) = key r"
    and col_upd: "col (upd f r) = f (col r)"
begin

lemma lookup_adjust:
  "lookup_by key k' (adjust key upd k d t) =
    (if k' = k then map_option (upd (\<lambda>b. b + d)) (lookup_by key k t) else lookup_by key k' t)"
  by (simp add: adjust_def table_simps key_upd)

lemma col_adjust:
  "map_option col (lookup_by key k' (adjust key upd k d t)) =
    map_option (\<lambda>r. if k' = k then col r + d else col r) (lookup_by key k' t)"
  by (cases "lookup_by key k' t"; cases "k' = k") (auto simp: lookup_adjust col_upd)

lemma keys_adjust: "map key (adjust key upd k d t) = map key t"
  by (simp add: adjust_def table_simps key_upd)

lemma total_adjust:
  assumes "distinct (map key t)" and "lookup_by key k t = Some r"
  shows "total col (adjust key upd k d t) = total col t + d"
  using sum_update_by [OF assms, of col "upd (\<lambda>b. b + d)"] by (simp add: total_def adjust_def col_upd)

text \<open>A transfer between two rows, in either order, keeps the total.\<close>

lemma total_transfer:
  assumes "distinct (map key t)" and "lookup_by key a t = Some ra" and "lookup_by key b t = Some rb"
  shows "total col (adjust key upd b d (adjust key upd a (- d) t)) = total col t"
proof -
  obtain r where "lookup_by key b (adjust key upd a (- d) t) = Some r"
    using assms(2,3) by (cases "b = a") (simp_all add: lookup_adjust)
  then show ?thesis
    using total_adjust [of "adjust key upd a (- d) t" b r d] total_adjust [OF assms(1,2), of "- d"] assms(1)
    by (simp add: keys_adjust)
qed

end

section \<open>Strings\<close>

text \<open>\<open>contains needle hay\<close>: the case-sensitive \<open>contains\<close> filter of a string column.\<close>

fun contains :: "string \<Rightarrow> string \<Rightarrow> bool" where
  "contains needle [] = (needle = [])"
| "contains needle (c # cs) = (prefix needle (c # cs) \<or> contains needle cs)"

lemma contains_sublist: "contains needle hay \<longleftrightarrow> sublist needle hay"
proof (induction hay)
  case Nil
  then show ?case by simp
next
  case (Cons c cs)
  then show ?case by (auto simp: sublist_Cons_right)
qed

lemma contains_same_length: "contains needle hay \<Longrightarrow> length needle = length hay \<Longrightarrow> needle = hay"
  by (auto simp: contains_sublist sublist_def)

lemma contains_self [simp]: "contains s s"
  by (simp add: contains_sublist)

text \<open>A string that is missing or empty is falsy.\<close>

definition nonempty :: "string option \<Rightarrow> string option" where
  "nonempty x = (case x of None \<Rightarrow> None | Some s \<Rightarrow> if s = '''' then None else Some s)"

text \<open>\<open>s.substring(0, n)\<close>.\<close>

definition substring0 :: "nat \<Rightarrow> string \<Rightarrow> string" where
  "substring0 n s = take n s"

end
