(* ===== verification/JsNumber.thy ===== *)
theory JsNumber
  imports Complex_Main "HOL-Library.Log_Nat" Prelude
begin

text \<open>
  JavaScript numbers. The fees are products of a kobo amount and a decimal rate computed in
  IEEE 754 double precision and then rounded by \<open>Math.round\<close>. A double is modelled by the
  rational it denotes; \<open>dbl\<close> is the correctly rounded result (round to nearest, ties to even,
  53 bits) of an exact operation. Amounts stay far below the overflow threshold and results far
  above the subnormal range, so neither is modelled.

  The lemmas: \<open>dbl\<close> is exact on 53-bit integers, monotone, and within a relative error of
  \<open>2 ^ -53\<close>; \<open>Math.round\<close> is monotone and within one half.
\<close>

section \<open>Rounding\<close>

definition round_half_even :: "rat \<Rightarrow> int" where
  "round_half_even y =
     (let f = \<lfloor>y\<rfloor>; d = y - of_int f
      in if d < 1 / 2 then f else if 1 / 2 < d then f + 1 else if even f then f else f + 1)"

text \<open>The binary exponent of a positive rational: \<open>2 ^ e \<le> x < 2 ^ (e + 1)\<close>.\<close>

definition exponent :: "rat \<Rightarrow> int" where
  "exponent x =
     (let (p, q) = quotient_of x; e = bitlen p - bitlen q
      in if 2 powi e \<le> x then e else e - 1)"

definition dbl_pos :: "rat \<Rightarrow> rat" where
  "dbl_pos x = (let u = 2 powi (exponent x - 52) in of_int (round_half_even (x / u)) * u)"

definition dbl :: "rat \<Rightarrow> rat" where
  "dbl x = (if x = 0 then 0 else if 0 < x then dbl_pos x else - dbl_pos (- x))"

text \<open>\<open>Math.round\<close>: to the nearest integer, halves up.\<close>

definition js_round :: "rat \<Rightarrow> int" where
  "js_round x = \<lfloor>x + 1 / 2\<rfloor>"

section \<open>Round to nearest\<close>

lemma round_half_even_error: "\<bar>of_int (round_half_even y) - y\<bar> \<le> 1 / 2"
proof -
  have "of_int \<lfloor>y\<rfloor> \<le> y" and "y < of_int \<lfloor>y\<rfloor> + 1"
    by linarith+
  then show ?thesis by (auto simp: round_half_even_def Let_def)
qed

lemma round_half_even_of_int [simp]: "round_half_even (of_int n) = n"
  by (simp add: round_half_even_def)

lemma round_half_even_mono:
  assumes "x \<le> y"
  shows "round_half_even x \<le> round_half_even y"
proof (cases "\<lfloor>x\<rfloor> = \<lfloor>y\<rfloor>")
  case True
  with assms show ?thesis by (auto simp: round_half_even_def Let_def)
next
  case False
  with assms have "\<lfloor>x\<rfloor> + 1 \<le> \<lfloor>y\<rfloor>"
    using floor_mono [OF assms] by linarith
  moreover have "round_half_even x \<le> \<lfloor>x\<rfloor> + 1" and "\<lfloor>y\<rfloor> \<le> round_half_even y"
    by (auto simp: round_half_even_def Let_def)
  ultimately show ?thesis by linarith
qed

section \<open>The exponent\<close>

lemma bitlen_bracket:
  assumes "0 < n"
  shows "2 powi (bitlen n - 1) \<le> (of_int n :: rat)" and "(of_int n :: rat) < 2 powi bitlen n"
proof -
  have b: "2 ^ nat (bitlen n - 1) \<le> n" "n < 2 ^ nat (bitlen n)"
    using bitlen_bounds [OF assms] by auto
  have pos: "0 < bitlen n" using assms by (metis bitlen_nonneg bitlen_eq_zero_iff less_le not_less)
  have "(of_int (2 ^ nat (bitlen n - 1)) :: rat) \<le> of_int n" using b(1) by (simp only: of_int_le_iff)
  with pos show "2 powi (bitlen n - 1) \<le> (of_int n :: rat)" by (simp add: power_int_def)
  have "(of_int n :: rat) < of_int (2 ^ nat (bitlen n))" using b(2) by (simp only: of_int_less_iff)
  with pos show "(of_int n :: rat) < 2 powi bitlen n" by (simp add: power_int_def)
qed

lemma exponent_bounds:
  assumes "0 < x"
  shows "2 powi exponent x \<le> x" and "x < 2 powi (exponent x + 1)"
proof -
  obtain p q where pq: "quotient_of x = (p, q)" by (cases "quotient_of x")
  have q: "0 < q" using pq by (rule quotient_of_denom_pos)
  have x: "x = of_int p / of_int q" using pq by (rule quotient_of_div)
  with assms q have p: "0 < p" by (simp add: zero_less_divide_iff)
  let ?e = "bitlen p - bitlen q"
  have lo: "2 powi (?e - 1) \<le> x"
  proof -
    have "(2 :: rat) powi (?e - 1) = 2 powi (bitlen p - 1) / 2 powi bitlen q"
      by (simp add: power_int_diff [symmetric] algebra_simps)
    also have "\<dots> \<le> of_int p / of_int q"
      using bitlen_bracket [OF p] bitlen_bracket [OF q] q p by (intro frac_le) auto
    finally show ?thesis using x by simp
  qed
  have hi: "x < 2 powi (?e + 1)"
  proof -
    have "of_int p / of_int q < (2 :: rat) powi bitlen p / 2 powi (bitlen q - 1)"
      using bitlen_bracket [OF p] bitlen_bracket [OF q] q p by (intro frac_less) auto
    also have "\<dots> = 2 powi (?e + 1)"
      by (simp add: power_int_diff [symmetric] algebra_simps)
    finally show ?thesis using x by simp
  qed
  show "2 powi exponent x \<le> x" using lo by (simp add: exponent_def pq Let_def)
  show "x < 2 powi (exponent x + 1)" using hi by (simp add: exponent_def pq Let_def not_le)
qed

lemma exponent_mono:
  assumes "0 < x" and "x \<le> y"
  shows "exponent x \<le> exponent y"
proof (rule ccontr)
  assume "\<not> ?thesis"
  then have "exponent y + 1 \<le> exponent x" by simp
  then have "(2 :: rat) powi (exponent y + 1) \<le> 2 powi exponent x" by (intro power_int_increasing) auto
  with exponent_bounds [of x] exponent_bounds [of y] assms show False by linarith
qed

section \<open>Double rounding\<close>

lemma dbl_0 [simp]: "dbl 0 = 0"
  by (simp add: dbl_def)

lemma dbl_pos_error:
  assumes "0 < x"
  shows "\<bar>dbl_pos x - x\<bar> \<le> x / 2 ^ 53"
proof -
  define u :: rat where "u = 2 powi (exponent x - 52)"
  have u: "0 < u" by (simp add: u_def)
  have "dbl_pos x - x = (of_int (round_half_even (x / u)) - x / u) * u"
    using u by (simp add: dbl_pos_def Let_def u_def [symmetric] field_simps)
  also have "\<bar>\<dots>\<bar> \<le> 1 / 2 * u"
    using u round_half_even_error [of "x / u"] by (simp add: abs_mult del: times_divide_eq_left)
  also have "1 / 2 * u = 2 powi exponent x / 2 ^ 53"
    by (simp add: u_def power_int_diff)
  also have "\<dots> \<le> x / 2 ^ 53"
    using exponent_bounds(1) [OF assms] by (intro divide_right_mono) auto
  finally show ?thesis .
qed

lemma dbl_error: "\<bar>dbl x - x\<bar> \<le> \<bar>x\<bar> / 2 ^ 53"
proof (cases "0 < x")
  case True
  with dbl_pos_error [of x] show ?thesis by (simp add: dbl_def)
next
  case False
  have "\<bar>- dbl_pos (- x) - x\<bar> = \<bar>dbl_pos (- x) - (- x)\<bar>" by simp
  with False dbl_pos_error [of "- x"] show ?thesis by (auto simp: dbl_def)
qed

text \<open>A positive double stays in its binade, the upper end included.\<close>

lemma dbl_pos_bounds:
  assumes "0 < x"
  shows "2 powi exponent x \<le> dbl_pos x" and "dbl_pos x \<le> 2 powi (exponent x + 1)"
proof -
  define u :: rat where "u = 2 powi (exponent x - 52)"
  have u: "0 < u" by (simp add: u_def)
  have e: "2 powi exponent x = 2 ^ 52 * u" "2 powi (exponent x + 1) = 2 ^ 53 * u"
    by (simp_all add: u_def power_int_diff power_int_add)
  have d: "dbl_pos x = of_int (round_half_even (x / u)) * u"
    by (simp add: dbl_pos_def Let_def u_def)
  have "of_int (2 ^ 52) \<le> x / u" and "x / u \<le> of_int (2 ^ 53)"
    using exponent_bounds [OF assms, unfolded e] u by (simp_all add: field_simps)
  then have "2 ^ 52 \<le> round_half_even (x / u)" and "round_half_even (x / u) \<le> 2 ^ 53"
    using round_half_even_mono round_half_even_of_int by metis+
  then have "of_int (2 ^ 52) \<le> (of_int (round_half_even (x / u)) :: rat)"
    and "(of_int (round_half_even (x / u)) :: rat) \<le> of_int (2 ^ 53)"
    by (simp_all only: of_int_le_iff)
  then show "2 powi exponent x \<le> dbl_pos x" and "dbl_pos x \<le> 2 powi (exponent x + 1)"
    using u by (simp_all add: d e)
qed

lemma dbl_pos_mono:
  assumes "0 < x" and "x \<le> y"
  shows "dbl_pos x \<le> dbl_pos y"
proof (cases "exponent x = exponent y")
  case True
  define u :: rat where "u = 2 powi (exponent x - 52)"
  have "0 < u" by (simp add: u_def)
  then have "round_half_even (x / u) \<le> round_half_even (y / u)"
    using assms(2) by (intro round_half_even_mono divide_right_mono) auto
  with \<open>0 < u\<close> True show ?thesis by (simp add: dbl_pos_def Let_def u_def)
next
  case False
  with exponent_mono [OF assms] have "exponent x + 1 \<le> exponent y" by simp
  then have "(2 :: rat) powi (exponent x + 1) \<le> 2 powi exponent y"
    by (intro power_int_increasing) auto
  with dbl_pos_bounds(2) [OF assms(1)] dbl_pos_bounds(1) [of y] assms show ?thesis by linarith
qed

lemma dbl_nonneg: "0 \<le> x \<Longrightarrow> 0 \<le> dbl x"
  using dbl_pos_bounds(1) [of x] by (auto simp: dbl_def intro: order_trans [rotated])

lemma dbl_mono:
  assumes "0 \<le> x" and "x \<le> y"
  shows "dbl x \<le> dbl y"
  using assms dbl_pos_mono [of x y] dbl_nonneg [of y] by (auto simp: dbl_def)

text \<open>Integers of 53 bits are doubles.\<close>

lemma dbl_of_int:
  assumes "\<bar>n\<bar> \<le> 2 ^ 53"
  shows "dbl (of_int n) = of_int n"
proof -
  have pos: "dbl_pos (of_int m) = of_int m" if m: "0 < m" "m \<le> 2 ^ 53" for m
  proof (cases "exponent (of_int m) \<le> 52")
    case True
    define k where "k = nat (52 - exponent (of_int m))"
    have u: "(2 :: rat) powi (exponent (of_int m) - 52) = 1 / 2 ^ k"
      using True by (simp add: k_def power_int_def field_simps)
    have "dbl_pos (of_int m) = of_int (round_half_even (of_int (m * 2 ^ k))) * (1 / 2 ^ k)"
      by (simp add: dbl_pos_def Let_def u)
    then show ?thesis by (simp only: round_half_even_of_int) simp
  next
    case False
    then have "(2 :: rat) powi 53 \<le> 2 powi exponent (of_int m)" by (intro power_int_increasing) auto
    moreover have "(of_int m :: rat) \<le> of_int (2 ^ 53)" using m(2) by (simp only: of_int_le_iff)
    ultimately have e: "2 powi exponent (of_int m :: rat) = (2 :: rat) powi 53" "(of_int m :: rat) = 2 ^ 53"
      using exponent_bounds(1) [of "of_int m"] m(1) by (simp_all add: power_int_def)
    then have "exponent (of_int m :: rat) = 53"
      by (metis one_less_numeral_iff power_int_strict_increasing semiring_norm(76) order_less_irrefl linorder_neqE)
    then have "dbl_pos (of_int m) = of_int (round_half_even (of_int (2 ^ 52))) * 2"
      by (simp add: dbl_pos_def Let_def e(2))
    then show ?thesis by (simp only: round_half_even_of_int) (simp add: e(2))
  qed
  show ?thesis using assms pos [of n] pos [of "- n"] by (auto simp: dbl_def)
qed

section \<open>Math.round\<close>

lemma js_round_mono: "x \<le> y \<Longrightarrow> js_round x \<le> js_round y"
  by (simp add: js_round_def floor_mono)

lemma js_round_of_int [simp]: "js_round (of_int n) = n"
  by (simp add: js_round_def floor_unique)

lemma js_round_0 [simp]: "js_round 0 = 0"
  using js_round_of_int [of 0] by simp

lemma js_round_error: "\<bar>of_int (js_round x) - x\<bar> \<le> 1 / 2"
  unfolding js_round_def by linarith

lemma js_round_nearest: "\<bar>x - of_int n\<bar> < 1 / 2 \<Longrightarrow> js_round x = n"
  unfolding js_round_def by (rule floor_unique) (auto simp: abs_if split: if_splits)

lemma js_round_nonneg: "0 \<le> x \<Longrightarrow> 0 \<le> js_round x"
  using js_round_mono [of 0 x] by simp

end
