(* ===== verification/FinanceDb.thy ===== *)
theory FinanceDb
  imports Prelude
begin

text \<open>
  The relational state the finance services read and write: one record per Prisma model they
  touch (\<open>prisma/schema.prisma\<close>), the enumerations, and the database as the record of its
  tables. Free-text columns that nothing reads back (names, descriptions, bank names), row
  timestamps that nothing reads back and JSON copies of provider payloads are left out.
  Identifiers come from \<open>cuid()\<close>: the database carries the generator and the number of
  identifiers drawn so far.
\<close>

section \<open>Enumerations\<close>

datatype wallet_status = WalletActive | WalletSuspended | WalletClosed
datatype hold_status = HoldActive | HoldReleased | HoldExpired
datatype account_type = ASSET | LIABILITY | EQUITY | REVENUE | EXPENSE
datatype account_category =
    CatCash | CatBank | CatReceivable | CatPayable | CatRevenue | CatExpense | CatEquity | CatEscrow
  | CatSettlement | CatPlatformFee
datatype owner_type = OwnerUser | OwnerOrganization | OwnerPlatform | OwnerSystem
datatype line_type = DEBIT | CREDIT
datatype entry_status = EntryDraft | POSTED | REVERSED | VOIDED
datatype withdrawal_status = WPending | WProcessing | WCompleted | WFailed | WCancelled
datatype withdrawal_kind = UserWithdrawal | OrganizationWithdrawal | PlatformWithdrawal
datatype admin_type =
    PLATFORM_ADMIN | INSTITUTION_ADMIN | FACULTY_ADMIN | DEPARTMENT_ADMIN | ORGANIZATION_ADMIN | CLUB_ADMIN
datatype admin_status = AdminActive | AdminInactive | AdminRevoked
datatype pending_status = PpPending | PpCompleted | PpFailed | PpCancelled | PpExpired
datatype due_status = DueActive | DueInactive | DueCompleted | DueCancelled
datatype goal_status = GoalActive | GoalCompleted | GoalCancelled

section \<open>Rows\<close>

record user =
  us_id :: ident

record organization =
  og_id :: ident
  og_institution :: "ident option"
  og_faculty :: "ident option"
  og_department :: "ident option"

record admin =
  ad_user :: ident
  ad_status :: admin_status
  ad_type :: admin_type
  ad_organization :: "ident option"
  ad_institution :: "ident option"
  ad_faculty :: "ident option"
  ad_department :: "ident option"

record wallet =
  wl_id :: ident
  wl_user :: "ident option"
  wl_organization :: "ident option"
  wl_platform :: bool
  wl_balance :: int
  wl_held :: int
  wl_status :: wallet_status
  wl_account :: "ident option"

record wallet_hold =
  ho_wallet :: ident
  ho_amount :: int
  ho_reason :: string
  ho_expires :: nat
  ho_status :: hold_status
  ho_released :: "nat option"

record ledger_account =
  la_id :: ident
  la_code :: string
  la_type :: account_type
  la_category :: account_category
  la_owner_type :: owner_type
  la_owner :: "ident option"
  la_wallet :: "ident option"
  la_system :: bool
  la_active :: bool
  la_balance :: int

record journal_line =
  jl_account :: ident
  jl_type :: line_type
  jl_amount :: int

record journal_entry =
  je_id :: ident
  je_reference :: string
  je_description :: string
  je_transaction :: "ident option"
  je_payment :: "ident option"
  je_withdrawal :: "ident option"
  je_date :: nat
  je_status :: entry_status
  je_balanced :: bool
  je_created_by :: "ident option"
  je_lines :: "journal_line list"

text \<open>The JSON metadata column of a withdrawal, with the members the code reads.\<close>

record withdrawal_meta =
  wm_type :: withdrawal_kind
  wm_organization :: "ident option"
  wm_destination :: "ident option"
  wm_platform_fee :: "int option"
  wm_provider_fee :: "int option"
  wm_fee_allocated :: "nat option"
  wm_fee_entry :: "ident option"

record withdrawal =
  wd_id :: ident
  wd_user :: ident
  wd_wallet :: ident
  wd_amount :: int
  wd_fee :: int
  wd_status :: withdrawal_status
  wd_reference :: string
  wd_meta :: withdrawal_meta
  wd_processed :: "nat option"
  wd_completed :: "nat option"
  wd_failed :: "nat option"
  wd_entry :: "ident option"
  wd_payout :: "ident option"
  wd_hook_status :: string
  wd_hook_attempts :: nat

record withdrawal_webhook =
  wh_withdrawal :: ident
  wh_event :: String.literal
  wh_status :: String.literal
  wh_amount :: int
  wh_provider_reference :: "ident option"

record transaction_row =
  tr_id :: ident
  tr_wallet :: ident
  tr_type :: line_type
  tr_amount :: int
  tr_fee :: int
  tr_net :: int
  tr_reference :: string
  tr_entry :: "ident option"

record ledger_entry =
  le_account :: ident
  le_transaction :: ident
  le_amount :: int
  le_type :: line_type
  le_before :: int
  le_after :: int

record payment =
  pa_id :: ident
  pa_payer :: ident
  pa_organization :: ident
  pa_transaction :: "ident option"
  pa_amount :: int
  pa_service_fee :: int
  pa_reference :: string
  pa_entry :: "ident option"
  pa_charge :: "string option"

record pending_meta =
  pm_base :: "int option"
  pm_platform_fee :: "int option"
  pm_expected :: "int option"
  pm_retries :: "int option"

record pending_payment =
  pp_id :: ident
  pp_user :: ident
  pp_organization :: ident
  pp_amount :: int
  pp_assignment :: "ident option"
  pp_reference :: string
  pp_status :: pending_status
  pp_checkout :: "ident option"
  pp_charge :: "string option"
  pp_meta :: pending_meta
  pp_created :: nat

record due =
  du_id :: ident
  du_organization :: ident
  du_session :: "ident option"
  du_amount :: int
  du_fresher :: bool
  du_direct_entry :: bool
  du_required :: bool
  du_status :: due_status
  du_deleted :: "nat option"
  du_created :: nat

record due_assignment =
  da_id :: ident
  da_due :: ident
  da_student :: ident
  da_amount :: int
  da_paid :: bool
  da_paid_at :: "nat option"
  da_created :: nat

record due_payment =
  dp_assignment :: ident
  dp_payment :: ident
  dp_amount :: int

record student =
  st_id :: ident
  st_user :: ident
  st_institution :: ident
  st_department :: ident
  st_direct_entry :: bool
  st_level :: "(ident \<times> int) option"

record membership =
  mb_user :: ident
  mb_organization :: ident
  mb_active :: bool

record academic_session =
  se_id :: ident
  se_institution :: ident
  se_institution_scope :: bool
  se_current :: bool
  se_active :: bool

record savings_goal =
  sg_id :: ident
  sg_user :: ident
  sg_target :: int
  sg_current :: int
  sg_status :: goal_status

record bank_account =
  ba_id :: ident
  ba_user :: ident
  ba_bank_name :: string
  ba_number :: string
  ba_code :: "string option"
  ba_default :: bool
  ba_destination :: "ident option"
  ba_destination_status :: "string option"
  ba_deleted :: "nat option"

section \<open>The database\<close>

record db =
  idgen :: "nat \<Rightarrow> ident"
  seq :: nat
  users :: "user list"
  orgs :: "organization list"
  admins :: "admin list"
  wallets :: "wallet list"
  holds :: "wallet_hold list"
  accounts :: "ledger_account list"
  entries :: "journal_entry list"
  withdrawals :: "withdrawal list"
  hooks :: "withdrawal_webhook list"
  txns :: "transaction_row list"
  ledger_entries :: "ledger_entry list"
  payments :: "payment list"
  pendings :: "pending_payment list"
  dues :: "due list"
  assignments :: "due_assignment list"
  due_payments :: "due_payment list"
  students :: "student list"
  memberships :: "membership list"
  sessions :: "academic_session list"
  goals :: "savings_goal list"
  goal_deposits :: "(ident \<times> int) list"
  banks :: "bank_account list"
  activity :: "(ident option \<times> String.literal) list"

definition fresh_id :: "db \<Rightarrow> ident" where
  "fresh_id d = idgen d (seq d)"

definition log_activity :: "ident option \<Rightarrow> String.literal \<Rightarrow> db \<Rightarrow> db" where
  "log_activity u a d = d\<lparr>activity := activity d @ [(u, a)]\<rparr>"

abbreviation get_wallet :: "db \<Rightarrow> ident \<Rightarrow> wallet option" where
  "get_wallet d k \<equiv> lookup_by wl_id k (wallets d)"

abbreviation get_account :: "db \<Rightarrow> ident \<Rightarrow> ledger_account option" where
  "get_account d k \<equiv> lookup_by la_id k (accounts d)"

abbreviation account_by_code :: "db \<Rightarrow> string \<Rightarrow> ledger_account option" where
  "account_by_code d c \<equiv> lookup_by la_code c (accounts d)"

abbreviation get_withdrawal :: "db \<Rightarrow> ident \<Rightarrow> withdrawal option" where
  "get_withdrawal d k \<equiv> lookup_by wd_id k (withdrawals d)"

abbreviation upd_wallet :: "ident \<Rightarrow> (wallet \<Rightarrow> wallet) \<Rightarrow> db \<Rightarrow> db" where
  "upd_wallet k f d \<equiv> d\<lparr>wallets := update_by wl_id k f (wallets d)\<rparr>"

abbreviation upd_account :: "ident \<Rightarrow> (ledger_account \<Rightarrow> ledger_account) \<Rightarrow> db \<Rightarrow> db" where
  "upd_account k f d \<equiv> d\<lparr>accounts := update_by la_id k f (accounts d)\<rparr>"

abbreviation upd_withdrawal :: "ident \<Rightarrow> (withdrawal \<Rightarrow> withdrawal) \<Rightarrow> db \<Rightarrow> db" where
  "upd_withdrawal k f d \<equiv> d\<lparr>withdrawals := update_by wd_id k f (withdrawals d)\<rparr>"

abbreviation upd_entry :: "ident \<Rightarrow> (journal_entry \<Rightarrow> journal_entry) \<Rightarrow> db \<Rightarrow> db" where
  "upd_entry k f d \<equiv> d\<lparr>entries := update_by je_id k f (entries d)\<rparr>"

text \<open>
  \<open>{ balance: { increment: x } }\<close> on a wallet and, when there is one, on a ledger account; the bank
  clearing account is the one with code 1100. The handlers pass identifiers of rows they have read, or that
  a row refers to: nothing deletes them and the foreign keys hold (\<open>links_ok\<close>), so that the P2025 of a missing
  row, for which nothing is written here, does not arise.
\<close>

definition adjust_wallet :: "ident \<Rightarrow> int \<Rightarrow> db \<Rightarrow> db" where
  "adjust_wallet k x d = d\<lparr>wallets := adjust wl_id wl_balance_update k x (wallets d)\<rparr>"

definition adjust_account :: "ident option \<Rightarrow> int \<Rightarrow> db \<Rightarrow> db" where
  "adjust_account a x d =
     (case a of None \<Rightarrow> d | Some i \<Rightarrow> d\<lparr>accounts := adjust la_id la_balance_update i x (accounts d)\<rparr>)"

definition clearing_id :: "db \<Rightarrow> ident option" where
  "clearing_id d = map_option la_id (account_by_code d ''1100'')"

text \<open>\<open>wallet.findFirst({ where: { isPlatformWallet: true } })\<close>.\<close>

abbreviation platform_wallet :: "db \<Rightarrow> wallet option" where
  "platform_wallet d \<equiv> find wl_platform (wallets d)"

text \<open>The amount a withdrawal takes from its wallet: the amount plus the fee.\<close>

abbreviation wd_total :: "withdrawal \<Rightarrow> int" where
  "wd_total w \<equiv> wd_amount w + wd_fee w"

text \<open>The tables with money columns provide the interface of balance tables.\<close>

interpretation wallet_balance: balance_table wl_id wl_balance wl_balance_update
  by unfold_locales simp_all

interpretation wallet_held: balance_table wl_id wl_held wl_held_update
  by unfold_locales simp_all

interpretation account_balance: balance_table la_id la_balance la_balance_update
  by unfold_locales simp_all

interpretation goal_amount: balance_table sg_id sg_current sg_current_update
  by unfold_locales simp_all

section \<open>Well-formed databases\<close>

text \<open>
  What the schema's unique and foreign keys guarantee of the tables the money movements touch:
  keys are unique, identifiers not drawn yet are unused, and a wallet's ledger account exists
  and points back to it.
\<close>

definition fresh_for :: "db \<Rightarrow> ident list \<Rightarrow> bool" where
  "fresh_for d ks \<longleftrightarrow> (\<forall>n. seq d \<le> n \<longrightarrow> idgen d n \<notin> set ks)"

definition keys_ok :: "db \<Rightarrow> bool" where
  "keys_ok d \<longleftrightarrow>
     inj (idgen d) \<and>
     distinct (map wl_id (wallets d)) \<and> fresh_for d (map wl_id (wallets d)) \<and>
     distinct (map la_id (accounts d)) \<and> fresh_for d (map la_id (accounts d)) \<and>
     distinct (map je_id (entries d)) \<and> fresh_for d (map je_id (entries d)) \<and>
     distinct (map wd_id (withdrawals d)) \<and> fresh_for d (map wd_id (withdrawals d))"

definition links_ok :: "db \<Rightarrow> bool" where
  "links_ok d \<longleftrightarrow>
     (\<forall>k w i. get_wallet d k = Some w \<longrightarrow> wl_account w = Some i \<longrightarrow>
        map_option la_wallet (get_account d i) = Some (Some k))"

text \<open>The mirror: a wallet and its ledger account show the same balance.\<close>

definition mirror :: "db \<Rightarrow> bool" where
  "mirror d \<longleftrightarrow>
     (\<forall>k w i. get_wallet d k = Some w \<longrightarrow> wl_account w = Some i \<longrightarrow>
        map_option la_balance (get_account d i) = Some (wl_balance w))"

text \<open>The system accounts (numeric codes) belong to no wallet.\<close>

definition system_codes :: "string list" where
  "system_codes = [''4100'', ''4000'', ''2100'', ''1100'', ''2200'', ''1200'', ''4200'', ''2300'']"

definition system_ok :: "db \<Rightarrow> bool" where
  "system_ok d \<longleftrightarrow>
     (\<forall>c. c \<in> set system_codes \<longrightarrow> map_option la_wallet (account_by_code d c) \<in> {None, Some None})"

text \<open>The trial balance: the sum of all ledger account balances.\<close>

definition trial_balance :: "db \<Rightarrow> int" where
  "trial_balance d = total la_balance (accounts d)"

text \<open>What the pending withdrawals of a wallet have reserved.\<close>

definition reserved :: "db \<Rightarrow> ident \<Rightarrow> int" where
  "reserved d k =
     sum_list (map (\<lambda>w. if wd_wallet w = k \<and> wd_status w = WPending then wd_total w else 0) (withdrawals d))"

definition holds_match :: "db \<Rightarrow> bool" where
  "holds_match d \<longleftrightarrow> (\<forall>k. get_wallet d k \<noteq> None \<longrightarrow> map_option wl_held (get_wallet d k) = Some (reserved d k))"

text \<open>No wallet is overdrawn: what is reserved is covered by the balance.\<close>

definition solvent :: "db \<Rightarrow> bool" where
  "solvent d \<longleftrightarrow> (\<forall>k x. map_option (\<lambda>w. wl_balance w - wl_held w) (get_wallet d k) = Some x \<longrightarrow> 0 \<le> x)"

definition amounts_ok :: "db \<Rightarrow> bool" where
  "amounts_ok d \<longleftrightarrow> list_all (\<lambda>(a, f). 0 \<le> a \<and> 0 \<le> f) (map (\<lambda>w. (wd_amount w, wd_fee w)) (withdrawals d))"

text \<open>The four facts every operation of the finance services keeps.\<close>

definition books_ok :: "db \<Rightarrow> bool" where
  "books_ok d \<longleftrightarrow> keys_ok d \<and> links_ok d \<and> mirror d \<and> system_ok d"

lemma fresh_for_mono:
  "fresh_for d ks \<Longrightarrow> idgen d' = idgen d \<Longrightarrow> seq d \<le> seq d' \<Longrightarrow> fresh_for d' ks"
  by (auto simp: fresh_for_def)

lemma fresh_for_snoc:
  "inj (idgen d) \<Longrightarrow> fresh_for d ks \<Longrightarrow> m < seq d \<Longrightarrow> fresh_for d (ks @ [idgen d m])"
  by (auto simp: fresh_for_def dest: injD)

lemma fresh_id_unused: "fresh_for d ks \<Longrightarrow> fresh_id d \<notin> set ks"
  by (auto simp: fresh_for_def fresh_id_def)

text \<open>
  Keys and links read only the identifiers and link columns: an operation that rewrites other
  columns keeps them.
\<close>

lemma keys_ok_cong:
  assumes "keys_ok d" and "idgen d' = idgen d" and "seq d \<le> seq d'"
    and "map wl_id (wallets d') = map wl_id (wallets d)"
    and "map la_id (accounts d') = map la_id (accounts d)"
    and "map je_id (entries d') = map je_id (entries d)"
    and "map wd_id (withdrawals d') = map wd_id (withdrawals d)"
  shows "keys_ok d'"
proof -
  have "fresh_for d' ks" if "fresh_for d ks" for ks
    using that assms(2,3) by (rule fresh_for_mono)
  with assms(1) show ?thesis
    unfolding keys_ok_def assms(2,4-7) by blast
qed

text \<open>
  The mirror survives a step that moves every wallet and its account by the same amount:
  \<open>f\<close> is what the step adds to a wallet, \<open>g\<close> what it adds to an account.
\<close>

lemma links_okI:
  "(\<And>k w i. get_wallet d k = Some w \<Longrightarrow> wl_account w = Some i \<Longrightarrow>
      map_option la_wallet (get_account d i) = Some (Some k)) \<Longrightarrow> links_ok d"
  unfolding links_ok_def by blast

lemma links_okD:
  "links_ok d \<Longrightarrow> get_wallet d k = Some w \<Longrightarrow> wl_account w = Some i \<Longrightarrow>
     map_option la_wallet (get_account d i) = Some (Some k)"
  unfolding links_ok_def by blast

lemma mirrorI:
  "(\<And>k w i. get_wallet d k = Some w \<Longrightarrow> wl_account w = Some i \<Longrightarrow>
      map_option la_balance (get_account d i) = Some (wl_balance w)) \<Longrightarrow> mirror d"
  unfolding mirror_def by blast

lemma mirrorD:
  "mirror d \<Longrightarrow> get_wallet d k = Some w \<Longrightarrow> wl_account w = Some i \<Longrightarrow>
     map_option la_balance (get_account d i) = Some (wl_balance w)"
  unfolding mirror_def by blast

lemma mirror_shift:
  assumes "links_ok d" and "mirror d"
    and w: "\<And>k. map_option (\<lambda>w. (wl_account w, wl_balance w)) (get_wallet d' k) =
      map_option (\<lambda>w. (wl_account w, wl_balance w + f k)) (get_wallet d k)"
    and a: "\<And>i. map_option la_balance (get_account d' i) =
      map_option (\<lambda>a. la_balance a + g i) (get_account d i)"
    and fg: "\<And>k w i. get_wallet d k = Some w \<Longrightarrow> wl_account w = Some i \<Longrightarrow>
      map_option la_wallet (get_account d i) = Some (Some k) \<Longrightarrow> g i = f k"
  shows "mirror d'"
proof (rule mirrorI)
  fix k w' i
  assume 1: "get_wallet d' k = Some w'" and 2: "wl_account w' = Some i"
  obtain w where w: "get_wallet d k = Some w" "wl_account w = Some i" "wl_balance w' = wl_balance w + f k"
    using w [of k] 1 2 by (cases "get_wallet d k") simp_all
  have "map_option la_wallet (get_account d i) = Some (Some k)"
    by (rule links_okD [OF assms(1) w(1,2)])
  then have "g i = f k" by (rule fg [OF w(1,2)])
  with mirrorD [OF assms(2) w(1,2)] a [of i] w(3)
  show "map_option la_balance (get_account d' i) = Some (wl_balance w')"
    by (cases "get_account d i") simp_all
qed

lemma links_ok_cong:
  assumes "links_ok d"
    and w: "\<And>k. map_option wl_account (get_wallet d' k) = map_option wl_account (get_wallet d k)"
    and a: "\<And>i. map_option la_wallet (get_account d' i) = map_option la_wallet (get_account d i)"
  shows "links_ok d'"
proof (rule links_okI)
  fix k w' i
  assume 1: "get_wallet d' k = Some w'" and 2: "wl_account w' = Some i"
  obtain w where "get_wallet d k = Some w" and "wl_account w = Some i"
    using w [of k] 1 2 by (cases "get_wallet d k") simp_all
  then show "map_option la_wallet (get_account d' i) = Some (Some k)"
    unfolding a by (rule links_okD [OF assms(1)])
qed

lemma system_ok_cong:
  assumes "system_ok d"
    and "\<And>c. map_option la_wallet (account_by_code d' c) = map_option la_wallet (account_by_code d c)"
  shows "system_ok d'"
  using assms unfolding system_ok_def by simp

end
