(* ===== verification/Samples.thy ===== *)
theory Samples
  imports Prelude FinanceDb
begin

text \<open>
  A small concrete database at which the properties are exercised: the platform's wallet, a
  user's and an organization's wallet with their ledger accounts, the bank clearing account that
  balances them, a platform administrator, and the withdrawals a test puts in.
\<close>

definition sample_ids :: "nat \<Rightarrow> ident" where
  "sample_ids n = replicate (n + 3) CHR ''x''"

definition sample_wallet :: "ident \<Rightarrow> ident option \<Rightarrow> ident option \<Rightarrow> bool \<Rightarrow> int \<Rightarrow> int \<Rightarrow> ident \<Rightarrow> wallet" where
  "sample_wallet i u g p balance held a =
     \<lparr>wl_id = i, wl_user = u, wl_organization = g, wl_platform = p, wl_balance = balance, wl_held = held,
      wl_status = WalletActive, wl_account = Some a\<rparr>"

definition sample_account :: "ident \<Rightarrow> string \<Rightarrow> ident option \<Rightarrow> int \<Rightarrow> ledger_account" where
  "sample_account i code w balance =
     \<lparr>la_id = i, la_code = code, la_type = ASSET, la_category = CatCash, la_owner_type = OwnerPlatform,
      la_owner = None, la_wallet = w, la_system = (w = None), la_active = True, la_balance = balance\<rparr>"

definition sample_meta :: "withdrawal_kind \<Rightarrow> withdrawal_meta" where
  "sample_meta kind =
     \<lparr>wm_type = kind, wm_organization = None, wm_destination = Some ''dest'', wm_platform_fee = None,
      wm_provider_fee = None, wm_fee_allocated = None, wm_fee_entry = None\<rparr>"

definition sample_withdrawal :: "ident \<Rightarrow> ident \<Rightarrow> int \<Rightarrow> int \<Rightarrow> withdrawal_status \<Rightarrow> withdrawal" where
  "sample_withdrawal i w amount fee st =
     \<lparr>wd_id = i, wd_user = ''u'', wd_wallet = w, wd_amount = amount, wd_fee = fee, wd_status = st,
      wd_reference = ''R'' @ i, wd_meta = sample_meta UserWithdrawal, wd_processed = None, wd_completed = None,
      wd_failed = None, wd_entry = None, wd_payout = None, wd_hook_status = '''', wd_hook_attempts = 0\<rparr>"

definition sample_hold :: "ident \<Rightarrow> int \<Rightarrow> string \<Rightarrow> wallet_hold" where
  "sample_hold w amount reason =
     \<lparr>ho_wallet = w, ho_amount = amount, ho_reason = reason, ho_expires = 0, ho_status = HoldActive,
      ho_released = None\<rparr>"

text \<open>The user's wallet \<open>w\<close> has the given balance and holds; the rest is fixed.\<close>

definition sample_db :: "int \<Rightarrow> int \<Rightarrow> withdrawal list \<Rightarrow> db" where
  "sample_db balance held wds =
     \<lparr>idgen = sample_ids, seq = 0, users = [\<lparr>us_id = ''u''\<rparr>],
      orgs = [\<lparr>og_id = ''g'', og_institution = Some ''i'', og_faculty = None, og_department = None\<rparr>],
      admins = [\<lparr>ad_user = ''adm'', ad_status = AdminActive, ad_type = PLATFORM_ADMIN, ad_organization = None,
                 ad_institution = None, ad_faculty = None, ad_department = None\<rparr>],
      wallets = [sample_wallet ''p'' None None True 1000 0 ''pa'',
                 sample_wallet ''w'' (Some ''u'') None False balance held ''wa'',
                 sample_wallet ''o'' None (Some ''g'') False 500 0 ''oa''],
      holds = [],
      accounts = [sample_account ''pa'' ''PLATFORM-WALLET-p'' (Some ''p'') 1000,
                  sample_account ''wa'' ''WALLET-USER-w'' (Some ''w'') balance,
                  sample_account ''oa'' ''WALLET-ORG-o'' (Some ''o'') 500,
                  sample_account ''c'' ''1100'' None (- 1500 - balance)],
      entries = [], withdrawals = wds, hooks = [], txns = [], ledger_entries = [], payments = [],
      pendings = [], dues = [], assignments = [], due_payments = [], students = [], memberships = [],
      sessions = [], goals = [], goal_deposits = [], banks = [], activity = []\<rparr>"

lemmas sample_defs = sample_db_def sample_wallet_def sample_account_def sample_withdrawal_def
  sample_meta_def sample_hold_def

lemma sample_ids_inj: "inj sample_ids"
  by (rule injI) (metis sample_ids_def length_replicate add_right_imp_eq)

lemma sample_ids_long [simp]: "length (sample_ids n) = n + 3"
  by (simp add: sample_ids_def)

lemma sample_short [simp]: "length k < 3 \<Longrightarrow> sample_ids n \<noteq> k"
  using sample_ids_long [of n] by auto

text \<open>The sample is well-formed when its withdrawals have short, different identifiers.\<close>

lemma sample_keys_ok:
  assumes "distinct (map wd_id wds)" and "\<And>w. w \<in> set wds \<Longrightarrow> length (wd_id w) < 3"
  shows "keys_ok (sample_db balance held wds)"
proof -
  have "sample_ids n \<notin> wd_id ` set wds" for n using assms(2) by fastforce
  with assms(1) sample_ids_inj show ?thesis
    by (simp add: keys_ok_def fresh_for_def sample_defs)
qed

lemma sample_get [simp]:
  "get_wallet (sample_db balance held wds) k =
     (if k = ''p'' then Some (sample_wallet ''p'' None None True 1000 0 ''pa'')
      else if k = ''w'' then Some (sample_wallet ''w'' (Some ''u'') None False balance held ''wa'')
      else if k = ''o'' then Some (sample_wallet ''o'' None (Some ''g'') False 500 0 ''oa'') else None)"
  "get_account (sample_db balance held wds) i =
     (if i = ''pa'' then Some (sample_account ''pa'' ''PLATFORM-WALLET-p'' (Some ''p'') 1000)
      else if i = ''wa'' then Some (sample_account ''wa'' ''WALLET-USER-w'' (Some ''w'') balance)
      else if i = ''oa'' then Some (sample_account ''oa'' ''WALLET-ORG-o'' (Some ''o'') 500)
      else if i = ''c'' then Some (sample_account ''c'' ''1100'' None (- 1500 - balance)) else None)"
  "get_withdrawal (sample_db balance held wds) j = lookup_by wd_id j wds"
  "entries (sample_db balance held wds) = []" "withdrawals (sample_db balance held wds) = wds"
  "clearing_id (sample_db balance held wds) = Some ''c''"
  by (auto simp: sample_defs lookup_by_Cons lookup_by_Nil clearing_id_def)

lemma sample_books_ok:
  assumes "distinct (map wd_id wds)" and "\<And>w. w \<in> set wds \<Longrightarrow> length (wd_id w) < 3"
  shows "books_ok (sample_db balance held wds)"
proof -
  have "links_ok (sample_db balance held wds)" "mirror (sample_db balance held wds)"
    unfolding links_ok_def mirror_def
    by (simp_all add: sample_wallet_def sample_account_def)
  moreover have "system_ok (sample_db balance held wds)"
    unfolding system_ok_def by (simp add: sample_defs system_codes_def lookup_by_Cons lookup_by_Nil)
  ultimately show ?thesis using sample_keys_ok [OF assms] by (simp add: books_ok_def)
qed

end
