(* ===== verification/Ledger.thy ===== *)
theory Ledger
  imports Prelude JsNumber FinanceDb
begin

text \<open>
  \<open>LedgerService\<close> (\<open>src/v1/finance/ledger.service.ts\<close>): ledger accounts, the withdrawal and
  payment charges, double-entry journal entries with their account balances, the reversal of
  an entry, the release of a platform fee, and the reconciliation report.

  The lemmas give the effect of a posting on every account, from which follow the trial
  balance, the round trip of a reversal, and the reconciliation of what the journal posts.
\<close>

section \<open>Ledger accounts\<close>

record account_data =
  ac_code :: string
  ac_type :: account_type
  ac_category :: account_category
  ac_owner_type :: owner_type
  ac_owner :: "ident option"
  ac_wallet :: "ident option"
  ac_system :: bool

definition new_account :: "ident \<Rightarrow> account_data \<Rightarrow> ledger_account" where
  "new_account i x =
     \<lparr>la_id = i, la_code = ac_code x, la_type = ac_type x, la_category = ac_category x,
      la_owner_type = ac_owner_type x, la_owner = ac_owner x, la_wallet = ac_wallet x,
      la_system = ac_system x, la_active = True, la_balance = 0\<rparr>"

text \<open>\<open>ledgerAccount.create\<close>: the code and the wallet are unique columns (error P2002).\<close>

definition insert_account :: "account_data \<Rightarrow> db \<Rightarrow> (ledger_account \<times> db) result" where
  "insert_account x d =
     (if account_by_code d (ac_code x) \<noteq> None
         \<or> (ac_wallet x \<noteq> None \<and> lookup_by la_wallet (ac_wallet x) (accounts d) \<noteq> None)
      then Inl (Internal (STR ''P2002''))
      else let a = new_account (fresh_id d) x
           in Inr (a, d\<lparr>accounts := accounts d @ [a], seq := Suc (seq d)\<rparr>))"

definition createLedgerAccount :: "account_data \<Rightarrow> db \<Rightarrow> (ledger_account \<times> db) result" where
  "createLedgerAccount x d =
     (case account_by_code d (ac_code x) of
        Some _ \<Rightarrow> Inl (BadRequest (STR ''Ledger account with this code already exists''))
      | None \<Rightarrow> insert_account x d)"

text \<open>
  The balance that is returned; the column \<open>pendingBalance\<close> next to it is written as 0 with every account
  and never again, and is left out of the accounts.
\<close>

definition getLedgerAccountBalance :: "db \<Rightarrow> ident \<Rightarrow> int result" where
  "getLedgerAccountBalance d i =
     andThen (require_some (get_account d i) (NotFound (STR ''Ledger account not found'')))
       (\<lambda>a. Inr (la_balance a))"

text \<open>\<open>getOrCreateSystemAccount\<close> and the configurations of the eight system accounts.\<close>

definition getOrCreateSystemAccount ::
    "string \<times> account_type \<times> account_category \<Rightarrow> db \<Rightarrow> (ledger_account \<times> db) result" where
  "getOrCreateSystemAccount cfg d =
     (case cfg of (code, type, cat) \<Rightarrow>
        (case account_by_code d code of
           Some a \<Rightarrow> Inr (a, d)
         | None \<Rightarrow> insert_account
             \<lparr>ac_code = code, ac_type = type, ac_category = cat, ac_owner_type = OwnerPlatform,
              ac_owner = None, ac_wallet = None, ac_system = True\<rparr> d))"

definition platformFeeAccount :: "string \<times> account_type \<times> account_category" where
  "platformFeeAccount = (''4100'', REVENUE, CatPlatformFee)"

definition platformRevenueAccount :: "string \<times> account_type \<times> account_category" where
  "platformRevenueAccount = (''4000'', REVENUE, CatRevenue)"

definition escrowAccount :: "string \<times> account_type \<times> account_category" where
  "escrowAccount = (''2100'', ASSET, CatEscrow)"

definition bankClearingAccount :: "string \<times> account_type \<times> account_category" where
  "bankClearingAccount = (''1100'', ASSET, CatBank)"

definition vatPayableAccount :: "string \<times> account_type \<times> account_category" where
  "vatPayableAccount = (''2200'', LIABILITY, CatPayable)"

definition bachsSettlementAccount :: "string \<times> account_type \<times> account_category" where
  "bachsSettlementAccount = (''1200'', ASSET, CatBank)"

definition bachsFeeAccount :: "string \<times> account_type \<times> account_category" where
  "bachsFeeAccount = (''4200'', EXPENSE, CatExpense)"

definition settlementPayableAccount :: "string \<times> account_type \<times> account_category" where
  "settlementPayableAccount = (''2300'', LIABILITY, CatPayable)"

text \<open>\<open>getOrCreateWalletLedgerAccount\<close>: the account of a wallet, linked back to it.\<close>

definition getOrCreateWalletLedgerAccount ::
    "ident \<Rightarrow> ident option \<Rightarrow> ident option \<Rightarrow> db \<Rightarrow> (ledger_account \<times> db) result" where
  "getOrCreateWalletLedgerAccount walletId userId organizationId d =
     andThen (require_some (get_wallet d walletId) (NotFound (STR ''Wallet not found''))) (\<lambda>w.
       case lookup_by la_wallet (Some walletId) (accounts d) of
         Some a \<Rightarrow> Inr (a, d)
       | None \<Rightarrow>
           andThen (insert_account
             \<lparr>ac_code = ''WALLET-'' @ substring0 8 walletId, ac_type = ASSET, ac_category = CatCash,
              ac_owner_type =
                (if userId \<noteq> None then OwnerUser
                 else if organizationId \<noteq> None then OwnerOrganization else OwnerPlatform),
              ac_owner = (if userId \<noteq> None then userId else organizationId),
              ac_wallet = Some walletId, ac_system = False\<rparr> d) (\<lambda>(a, d').
             Inr (a, upd_wallet walletId (\<lambda>w. w\<lparr>wl_account := Some (la_id a)\<rparr>) d')))"

section \<open>Charges\<close>

text \<open>
  The optional configuration object \<open>fees.withdrawal\<close>. A zero or missing \<open>minFee\<close>, \<open>maxFee\<close>
  or \<open>flatFee\<close> is falsy and skipped.
\<close>

record fee_config =
  fc_enabled :: bool
  fc_percentage :: rat
  fc_min :: int
  fc_max :: int
  fc_flat :: int

definition percentage_fee :: "rat \<Rightarrow> int \<Rightarrow> int" where
  "percentage_fee pct amount = js_round (dbl (of_int amount * dbl (pct / 100)))"

definition calculateWithdrawalCharges :: "fee_config option \<Rightarrow> int \<Rightarrow> int" where
  "calculateWithdrawalCharges config amount =
     (case config of
        None \<Rightarrow> 0
      | Some c \<Rightarrow>
          if \<not> fc_enabled c then 0
          else let fee = percentage_fee (fc_percentage c) amount;
                   fee = (if fc_min c \<noteq> 0 \<and> fee < fc_min c then fc_min c else fee);
                   fee = (if fc_max c \<noteq> 0 \<and> fc_max c < fee then fc_max c else fee)
               in if fc_flat c \<noteq> 0 then fee + fc_flat c else fee)"

text \<open>The rates of the constructor: configuration value or default, divided by 100.\<close>

record ledger_config =
  lc_platform_fee :: int
  lc_gateway_percentage :: rat
  lc_vat_percentage :: rat

definition default_ledger_config :: ledger_config where
  "default_ledger_config =
     \<lparr>lc_platform_fee = 10000, lc_gateway_percentage = 3 / 2, lc_vat_percentage = 15 / 2\<rparr>"

record charges =
  ch_platform_fee :: int
  ch_gateway_fee :: int
  ch_vat :: int
  ch_total_charges :: int
  ch_total_amount :: int
  ch_net :: int

definition calculatePaymentCharges :: "ledger_config \<Rightarrow> int \<Rightarrow> charges" where
  "calculatePaymentCharges cfg amount =
     (let platformFee = lc_platform_fee cfg;
          gatewayFee = percentage_fee (lc_gateway_percentage cfg) amount;
          vat = js_round (dbl (of_int platformFee * dbl (lc_vat_percentage cfg / 100)));
          totalCharges = platformFee + gatewayFee + vat
      in \<lparr>ch_platform_fee = platformFee, ch_gateway_fee = gatewayFee, ch_vat = vat,
          ch_total_charges = totalCharges, ch_total_amount = amount + totalCharges, ch_net = amount\<rparr>)"

section \<open>Journal entries\<close>

record entry_data =
  ed_lines :: "journal_line list"
  ed_description :: string
  ed_transaction :: "ident option"
  ed_payment :: "ident option"
  ed_withdrawal :: "ident option"
  ed_created_by :: "ident option"

definition debits :: "journal_line list \<Rightarrow> int" where
  "debits ls = sum_list (map (\<lambda>l. if jl_type l = DEBIT then jl_amount l else 0) ls)"

definition credits :: "journal_line list \<Rightarrow> int" where
  "credits ls = sum_list (map (\<lambda>l. if jl_type l = DEBIT then 0 else jl_amount l) ls)"

text \<open>The change of an account's balance: a debit adds, a credit subtracts.\<close>

definition balance_change :: "journal_line \<Rightarrow> int" where
  "balance_change l = (if jl_type l = DEBIT then jl_amount l else - jl_amount l)"

text \<open>The loop over the lines: read the account, record the line, write the balance.\<close>

fun post_lines :: "ident \<Rightarrow> journal_line list \<Rightarrow> db \<Rightarrow> db result" where
  "post_lines e [] d = Inr d"
| "post_lines e (l # ls) d =
     andThen (require_some (get_account d (jl_account l)) (NotFound (STR ''Ledger account not found'')))
       (\<lambda>a. post_lines e ls
          (upd_account (jl_account l) (\<lambda>r. r\<lparr>la_balance := la_balance a + balance_change l\<rparr>)
            (upd_entry e (\<lambda>r. r\<lparr>je_lines := je_lines r @ [l]\<rparr>) d)))"

text \<open>The reference \<open>JE-<year>-<uuid>\<close> is unique: its random part is the drawn identifier.\<close>

definition new_entry :: "nat \<Rightarrow> ident \<Rightarrow> entry_data \<Rightarrow> journal_entry" where
  "new_entry now i x =
     \<lparr>je_id = i, je_reference = ''JE-'' @ i, je_description = ed_description x, je_transaction = ed_transaction x,
      je_payment = ed_payment x, je_withdrawal = ed_withdrawal x, je_date = now, je_status = POSTED,
      je_balanced = True, je_created_by = ed_created_by x, je_lines = []\<rparr>"

text \<open>
  \<open>createJournalEntry\<close> inside the caller's transaction. The links to a transaction, a payment
  and a withdrawal are unique columns.
\<close>

definition entry_link_taken :: "entry_data \<Rightarrow> db \<Rightarrow> bool" where
  "entry_link_taken x d \<longleftrightarrow>
     (ed_transaction x \<noteq> None \<and> lookup_by je_transaction (ed_transaction x) (entries d) \<noteq> None) \<or>
     (ed_payment x \<noteq> None \<and> lookup_by je_payment (ed_payment x) (entries d) \<noteq> None) \<or>
     (ed_withdrawal x \<noteq> None \<and> lookup_by je_withdrawal (ed_withdrawal x) (entries d) \<noteq> None)"

definition createJournalEntry :: "nat \<Rightarrow> entry_data \<Rightarrow> db \<Rightarrow> (ident \<times> db) result" where
  "createJournalEntry now x d =
     andThen (require (debits (ed_lines x) = credits (ed_lines x))
       (BadRequest (STR ''Journal entry must be balanced''))) (\<lambda>_.
     andThen (require (\<not> entry_link_taken x d) (Internal (STR ''P2002''))) (\<lambda>_.
     let i = fresh_id d;
         d1 = d\<lparr>entries := entries d @ [new_entry now i x], seq := Suc (seq d)\<rparr>
     in andThen (post_lines i (ed_lines x) d1) (\<lambda>d2. Inr (i, d2))))"

definition flip_line :: "journal_line \<Rightarrow> journal_line" where
  "flip_line l = l\<lparr>jl_type := (if jl_type l = DEBIT then CREDIT else DEBIT)\<rparr>"

definition reversal_data :: "journal_entry \<Rightarrow> string \<Rightarrow> ident option \<Rightarrow> entry_data" where
  "reversal_data e reason reversedBy =
     \<lparr>ed_lines = map flip_line (je_lines e),
      ed_description = ''Reversal of '' @ je_reference e @ '': '' @ reason,
      ed_transaction = None, ed_payment = None, ed_withdrawal = None, ed_created_by = reversedBy\<rparr>"

text \<open>
  \<open>reverseJournalEntry\<close>: the reversal is posted in a transaction of its own; marking the
  original is a separate write. The result is the state left behind and the outcome.
\<close>

definition reverseJournalEntry ::
    "nat \<Rightarrow> ident \<Rightarrow> string \<Rightarrow> ident option \<Rightarrow> db \<Rightarrow> db \<times> ident result" where
  "reverseJournalEntry now i reason reversedBy d =
     (case lookup_by je_id i (entries d) of
        None \<Rightarrow> (d, Inl (NotFound (STR ''Journal entry not found'')))
      | Some e \<Rightarrow>
          if je_status e = REVERSED then (d, Inl (BadRequest (STR ''Journal entry is already reversed'')))
          else (case transaction (createJournalEntry now (reversal_data e reason reversedBy)) d of
                  (d', Inl err) \<Rightarrow> (d', Inl err)
                | (d', Inr r) \<Rightarrow> (upd_entry i (\<lambda>e. e\<lparr>je_status := REVERSED\<rparr>) d', Inr r)))"

section \<open>Release of a platform fee\<close>

text \<open>
  \<open>reverseOrganizationWithdrawalPlatformFee\<close>: without a recorded allocation it does nothing.
  The allocation entry is the recorded one, or the posted entry with its description.
\<close>

definition allocation_description :: "ident \<Rightarrow> string" where
  "allocation_description i = ''Platform fee for withdrawal #'' @ i"

definition allocation_entry :: "ident \<Rightarrow> withdrawal_meta \<Rightarrow> db \<Rightarrow> ident option" where
  "allocation_entry i m d =
     (case wm_fee_entry m of
        Some e \<Rightarrow> Some e
      | None \<Rightarrow> map_option je_id
          (find (\<lambda>e. je_description e = allocation_description i \<and> je_status e = POSTED) (entries d)))"

definition reverseOrganizationWithdrawalPlatformFee ::
    "ident \<Rightarrow> withdrawal_meta \<Rightarrow> db \<Rightarrow> int \<times> db" where
  "reverseOrganizationWithdrawalPlatformFee i m d =
     (let platformFee = (case wm_platform_fee m of None \<Rightarrow> 0 | Some f \<Rightarrow> f)
      in if wm_fee_allocated m = None \<or> platformFee \<le> 0 then (0, d)
         else
           let d1 = (case allocation_entry i m d of
                       None \<Rightarrow> d
                     | Some e \<Rightarrow> upd_entry e (\<lambda>r. r\<lparr>je_status := REVERSED\<rparr>) d);
               d2 = (case platform_wallet d1 of
                       None \<Rightarrow> d1
                     | Some w \<Rightarrow> adjust_account (wl_account w) (- platformFee) (adjust_wallet (wl_id w) (- platformFee) d1));
               d3 = adjust_account (clearing_id d2) platformFee d2
           in (platformFee, d3))"

section \<open>Reconciliation\<close>

text \<open>
  \<open>reconcileAccounts\<close>: the posted entries of the period, their lines summed per account with
  debits positive, compared with the stored balance of every account that has a line.
\<close>

definition entries_between :: "nat \<Rightarrow> nat \<Rightarrow> journal_entry list \<Rightarrow> journal_entry list" where
  "entries_between startDate endDate es =
     filter (\<lambda>e. startDate \<le> je_date e \<and> je_date e \<le> endDate \<and> je_status e = POSTED) es"

definition add_line :: "journal_line \<Rightarrow> (ident \<rightharpoonup> int) \<Rightarrow> (ident \<rightharpoonup> int)" where
  "add_line l m =
     m(jl_account l \<mapsto> (case m (jl_account l) of None \<Rightarrow> 0 | Some b \<Rightarrow> b) + balance_change l)"

definition account_balances :: "journal_entry list \<Rightarrow> (ident \<rightharpoonup> int)" where
  "account_balances es = fold (\<lambda>e m. fold add_line (je_lines e) m) es Map.empty"

record reconciled =
  rc_account :: ident
  rc_current :: int
  rc_calculated :: int
  rc_difference :: int
  rc_ok :: bool

definition reconcileAccounts :: "nat \<Rightarrow> nat \<Rightarrow> db \<Rightarrow> nat \<times> reconciled list \<times> bool" where
  "reconcileAccounts startDate endDate d =
     (let es = entries_between startDate endDate (entries d);
          bals = account_balances es;
          report = map (\<lambda>a. let c = (case bals (la_id a) of None \<Rightarrow> 0 | Some b \<Rightarrow> b)
                             in \<lparr>rc_account = la_id a, rc_current = la_balance a, rc_calculated = c,
                                 rc_difference = la_balance a - c, rc_ok = (la_balance a = c)\<rparr>)
                     (filter (\<lambda>a. bals (la_id a) \<noteq> None) (accounts d))
      in (length es, report, list_all rc_ok report))"

section \<open>The effect of a posting\<close>

text \<open>What a list of lines adds to one account.\<close>

definition effect_on :: "ident \<Rightarrow> journal_line list \<Rightarrow> int" where
  "effect_on k ls = sum_list (map (\<lambda>l. if jl_account l = k then balance_change l else 0) ls)"

lemma effect_on_simps [simp]:
  "effect_on k [] = 0"
  "effect_on k (l # ls) = (if jl_account l = k then balance_change l else 0) + effect_on k ls"
  by (simp_all add: effect_on_def)

lemma sum_balance_change: "sum_list (map balance_change ls) = debits ls - credits ls"
  by (induction ls) (auto simp: debits_def credits_def balance_change_def)

lemma effect_on_flip: "effect_on k (map flip_line ls) = - effect_on k ls"
  by (induction ls) (auto simp: flip_line_def balance_change_def)

lemma debits_flip: "debits (map flip_line ls) = credits ls"
  and credits_flip: "credits (map flip_line ls) = debits ls"
  by (induction ls) (auto simp: debits_def credits_def flip_line_def)

lemma post_lines_account:
  "post_lines e ls d = Inr d' \<Longrightarrow>
     get_account d' k = map_option (\<lambda>a. a\<lparr>la_balance := la_balance a + effect_on k ls\<rparr>) (get_account d k)"
proof (induction e ls d rule: post_lines.induct)
  case (1 e d)
  then show ?case by (cases "get_account d k") auto
next
  case (2 e l ls d)
  then obtain a where a: "get_account d (jl_account l) = Some a"
    by (auto simp: result_simps)
  with 2 show ?case
    by (cases "get_account d k") (auto simp: result_simps table_simps algebra_simps)
qed

text \<open>Posting touches the accounts and the lines of its own entry only.\<close>

lemma post_lines_frame:
  "post_lines e ls d = Inr d' \<Longrightarrow>
     \<exists>as es. d' = d\<lparr>accounts := as, entries := es\<rparr> \<and>
       map la_id as = map la_id (accounts d) \<and> map la_code as = map la_code (accounts d) \<and>
       map la_wallet as = map la_wallet (accounts d) \<and> map je_id es = map je_id (entries d)"
proof (induction e ls d rule: post_lines.induct)
  case (1 e d)
  then show ?case by (intro exI [of _ "accounts d"] exI [of _ "entries d"]) simp
next
  case (2 e l ls d)
  then obtain a where a: "get_account d (jl_account l) = Some a"
    by (auto simp: result_simps)
  with 2 show ?case by (fastforce simp: table_simps)
qed

lemma post_lines_entry:
  "post_lines e ls d = Inr d' \<Longrightarrow>
     entries d' = update_by je_id e (\<lambda>r. r\<lparr>je_lines := je_lines r @ ls\<rparr>) (entries d)"
proof (induction e ls d rule: post_lines.induct)
  case (1 e d)
  then show ?case by (simp add: update_by_def update_where_def map_idI)
next
  case (2 e l ls d)
  then obtain a where a: "get_account d (jl_account l) = Some a"
    by (auto simp: result_simps)
  with 2 show ?case by (auto simp: update_by_def update_where_def)
qed

lemma post_lines_defined:
  "(\<And>l. l \<in> set ls \<Longrightarrow> get_account d (jl_account l) \<noteq> None) \<Longrightarrow> \<exists>d'. post_lines e ls d = Inr d'"
proof (induction ls arbitrary: d)
  case Nil
  then show ?case by simp
next
  case (Cons l ls)
  then obtain a where "get_account d (jl_account l) = Some a" by fastforce
  with Cons show ?case by (auto simp: table_simps)
qed

lemma post_lines_total:
  "post_lines e ls d = Inr d' \<Longrightarrow> distinct (map la_id (accounts d)) \<Longrightarrow>
     trial_balance d' = trial_balance d + sum_list (map balance_change ls)"
proof (induction e ls d rule: post_lines.induct)
  case (1 e d)
  then show ?case by simp
next
  case (2 e l ls d)
  then obtain a where a: "get_account d (jl_account l) = Some a"
    by (auto simp: result_simps)
  from sum_update_by [OF 2(3) a, of la_balance "la_balance_update (\<lambda>_. la_balance a + balance_change l)"]
  show ?case using 2 a by (simp add: table_simps trial_balance_def total_def)
qed

section \<open>Journal entries: what a successful call leaves behind\<close>

lemma createJournalEntry_unbalanced:
  "debits (ed_lines x) \<noteq> credits (ed_lines x) \<Longrightarrow>
     createJournalEntry now x d = Inl (BadRequest (STR ''Journal entry must be balanced''))"
  by (simp add: createJournalEntry_def)

lemma createJournalEntry_InrD:
  assumes "createJournalEntry now x d = Inr (i, d')"
  shows "i = fresh_id d"
    and "debits (ed_lines x) = credits (ed_lines x)"
    and "\<not> entry_link_taken x d"
    and "post_lines i (ed_lines x) (d\<lparr>entries := entries d @ [new_entry now i x], seq := Suc (seq d)\<rparr>) = Inr d'"
  using assms by (auto simp: createJournalEntry_def Let_def result_simps)

text \<open>The state after a posting: new balances on the old accounts, one more entry.\<close>

lemma createJournalEntry_state:
  assumes "createJournalEntry now x d = Inr (i, d')" and "fresh_for d (map je_id (entries d))"
  obtains as where
    "d' = d\<lparr>accounts := as, entries := entries d @ [new_entry now i x\<lparr>je_lines := ed_lines x\<rparr>],
            seq := Suc (seq d)\<rparr>"
    and "map la_id as = map la_id (accounts d)" and "map la_code as = map la_code (accounts d)"
    and "map la_wallet as = map la_wallet (accounts d)"
    and "\<And>k. lookup_by la_id k as =
          map_option (\<lambda>a. a\<lparr>la_balance := la_balance a + effect_on k (ed_lines x)\<rparr>) (get_account d k)"
proof -
  let ?d = "d\<lparr>entries := entries d @ [new_entry now i x], seq := Suc (seq d)\<rparr>"
  note D = createJournalEntry_InrD [OF assms(1)]
  obtain as es where frame: "d' = ?d\<lparr>accounts := as, entries := es\<rparr>"
      "map la_id as = map la_id (accounts d)" "map la_code as = map la_code (accounts d)"
      "map la_wallet as = map la_wallet (accounts d)"
    using post_lines_frame [OF D(4)] by auto
  have "i \<notin> je_id ` set (entries d)"
    using assms(2) D(1) by (auto simp: fresh_for_def fresh_id_def)
  then have "update_by je_id i f (entries d) = entries d" for f
    by (simp add: update_by_absent lookup_by_None)
  then have es: "es = entries d @ [new_entry now i x\<lparr>je_lines := ed_lines x\<rparr>]"
    using post_lines_entry [OF D(4)] frame(1)
    by (simp add: update_by_def update_where_def new_entry_def)
  show thesis
  proof (rule that)
    show "d' = d\<lparr>accounts := as, entries := entries d @ [new_entry now i x\<lparr>je_lines := ed_lines x\<rparr>],
            seq := Suc (seq d)\<rparr>"
      using frame(1) es by simp
  next
    fix k
    show "lookup_by la_id k as =
        map_option (\<lambda>a. a\<lparr>la_balance := la_balance a + effect_on k (ed_lines x)\<rparr>) (get_account d k)"
      using post_lines_account [OF D(4), of k] frame(1) by simp
  qed (use frame in auto)
qed

lemma createJournalEntry_trial_balance:
  assumes "createJournalEntry now x d = Inr (i, d')" and "distinct (map la_id (accounts d))"
  shows "trial_balance d' = trial_balance d"
  using post_lines_total [OF createJournalEntry_InrD(4) [OF assms(1)]] assms(2)
    createJournalEntry_InrD(2) [OF assms(1)]
  by (simp add: sum_balance_change) (simp add: trial_balance_def)

text \<open>With every account present and no link taken, a balanced entry is posted.\<close>

lemma createJournalEntry_defined:
  assumes "debits (ed_lines x) = credits (ed_lines x)" and "\<not> entry_link_taken x d"
    and "\<And>l. l \<in> set (ed_lines x) \<Longrightarrow> get_account d (jl_account l) \<noteq> None"
  shows "\<exists>d'. createJournalEntry now x d = Inr (fresh_id d, d')"
proof -
  let ?d = "d\<lparr>entries := entries d @ [new_entry now (fresh_id d) x], seq := Suc (seq d)\<rparr>"
  have "\<exists>d'. post_lines (fresh_id d) (ed_lines x) ?d = Inr d'"
    using assms(3) by (intro post_lines_defined) simp
  with assms(1,2) show ?thesis by (auto simp: createJournalEntry_def Let_def)
qed

section \<open>Reversal\<close>

lemma reverseJournalEntry_accounts:
  assumes "reverseJournalEntry now i reason by d = (d', Inr r)"
    and "fresh_for d (map je_id (entries d))"
    and "lookup_by je_id i (entries d) = Some e"
  shows "get_account d' k = map_option (\<lambda>a. a\<lparr>la_balance := la_balance a - effect_on k (je_lines e)\<rparr>) (get_account d k)"
proof -
  from assms(1,3) obtain d1 where d1: "createJournalEntry now (reversal_data e reason by) d = Inr (r, d1)"
    and d': "d' = upd_entry i (\<lambda>e. e\<lparr>je_status := REVERSED\<rparr>) d1"
    by (auto simp: reverseJournalEntry_def transaction_def split: if_splits sum.splits)
  show ?thesis
    by (rule createJournalEntry_state [OF d1 assms(2)]) (simp add: d' reversal_data_def effect_on_flip)
qed

section \<open>Reconciliation\<close>

definition line_on :: "ident \<Rightarrow> journal_entry list \<Rightarrow> bool" where
  "line_on k es \<longleftrightarrow> (\<exists>e\<in>set es. \<exists>l\<in>set (je_lines e). jl_account l = k)"

definition entries_effect :: "ident \<Rightarrow> journal_entry list \<Rightarrow> int" where
  "entries_effect k es = sum_list (map (\<lambda>e. effect_on k (je_lines e)) es)"

lemma add_line_apply:
  "add_line l m k =
     (if jl_account l = k then Some ((case m k of None \<Rightarrow> 0 | Some b \<Rightarrow> b) + balance_change l) else m k)"
  by (simp add: add_line_def)

lemma effect_on_absent: "\<not> (\<exists>l\<in>set ls. jl_account l = k) \<Longrightarrow> effect_on k ls = 0"
  by (induction ls) auto

lemma entries_effect_absent: "\<not> line_on k es \<Longrightarrow> entries_effect k es = 0"
  by (induction es) (auto simp: entries_effect_def line_on_def effect_on_absent)

lemma fold_add_line:
  "fold add_line ls m k =
     (if \<exists>l\<in>set ls. jl_account l = k
      then Some ((case m k of None \<Rightarrow> 0 | Some b \<Rightarrow> b) + effect_on k ls) else m k)"
proof (induction ls arbitrary: m)
  case Nil
  then show ?case by simp
next
  case (Cons l ls)
  show ?case
    by (cases "jl_account l = k"; cases "\<exists>l\<in>set ls. jl_account l = k")
      (auto simp: Cons.IH add_line_apply [of l m] effect_on_absent)
qed

lemma fold_entries:
  "fold (\<lambda>e m. fold add_line (je_lines e) m) es m k =
     (if line_on k es then Some ((case m k of None \<Rightarrow> 0 | Some b \<Rightarrow> b) + entries_effect k es) else m k)"
proof (induction es arbitrary: m)
  case Nil
  then show ?case by (simp add: line_on_def)
next
  case (Cons e es)
  have line: "line_on k (e # es) \<longleftrightarrow> (\<exists>l\<in>set (je_lines e). jl_account l = k) \<or> line_on k es"
    by (auto simp: line_on_def)
  have eff: "entries_effect k (e # es) = effect_on k (je_lines e) + entries_effect k es"
    by (simp add: entries_effect_def)
  show ?case
    by (cases "\<exists>l\<in>set (je_lines e). jl_account l = k"; cases "line_on k es")
      (auto simp: Cons.IH fold_add_line [of "je_lines e" m] line eff effect_on_absent entries_effect_absent)
qed

lemma account_balances_eq:
  "account_balances es k = (if line_on k es then Some (entries_effect k es) else None)"
  by (simp add: account_balances_def fold_entries)

text \<open>The journal explains the balances: what every posted entry adds up to.\<close>

definition posted_effect :: "db \<Rightarrow> ident \<Rightarrow> int" where
  "posted_effect d k = entries_effect k (filter (\<lambda>e. je_status e = POSTED) (entries d))"

definition journal_explains :: "db \<Rightarrow> bool" where
  "journal_explains d \<longleftrightarrow> (\<forall>k a. get_account d k = Some a \<longrightarrow> la_balance a = posted_effect d k)"

lemma createJournalEntry_explains:
  assumes "createJournalEntry now x d = Inr (i, d')" and "fresh_for d (map je_id (entries d))"
    and "journal_explains d"
  shows "journal_explains d'"
proof (rule createJournalEntry_state [OF assms(1,2)])
  fix as
  assume d': "d' = d\<lparr>accounts := as, entries := entries d @ [new_entry now i x\<lparr>je_lines := ed_lines x\<rparr>],
      seq := Suc (seq d)\<rparr>"
    and as: "\<And>k. lookup_by la_id k as =
      map_option (\<lambda>a. a\<lparr>la_balance := la_balance a + effect_on k (ed_lines x)\<rparr>) (get_account d k)"
  have "posted_effect d' k = posted_effect d k + effect_on k (ed_lines x)" for k
    by (simp add: d' posted_effect_def entries_effect_def new_entry_def)
  with assms(3) as show ?thesis by (auto simp: journal_explains_def d')
qed

text \<open>The report of a period says reconciled exactly when the stored balances equal the sums.\<close>

lemma reconcileAccounts_balanced:
  assumes "reconcileAccounts s t d = (n, report, ok)"
  shows "ok \<longleftrightarrow> (\<forall>a\<in>set (accounts d). line_on (la_id a) (entries_between s t (entries d)) \<longrightarrow>
           la_balance a = entries_effect (la_id a) (entries_between s t (entries d)))"
proof -
  define es where "es = entries_between s t (entries d)"
  define R where "R =
      map (\<lambda>a. let c = (case account_balances es (la_id a) of None \<Rightarrow> 0 | Some b \<Rightarrow> b)
               in \<lparr>rc_account = la_id a, rc_current = la_balance a, rc_calculated = c,
                   rc_difference = la_balance a - c, rc_ok = (la_balance a = c)\<rparr>)
        (filter (\<lambda>a. account_balances es (la_id a) \<noteq> None) (accounts d))"
  from assms have "ok = list_all rc_ok R"
    by (auto simp: reconcileAccounts_def Let_def es_def R_def)
  then show ?thesis
    by (auto simp: R_def list_all_iff account_balances_eq Let_def es_def [symmetric])
qed

end
