(* ===== verification/Wallets.thy ===== *)
theory Wallets
  imports Prelude FinanceDb Samples Ledger
begin

text \<open>
  \<open>WalletService\<close> (\<open>src/v1/finance/wallet.service.ts\<close>) over the database: the wallet of a user,
  of an organization and of the platform, opened on first use together with its ledger account.
  The definitions describe a miss of the Redis cache in front of it.

  The lemmas: opening a wallet keeps the books (keys, links, mirror, system accounts), a second
  call returns the wallet the first one opened and changes nothing, and an account code taken by
  another wallet makes the opening fail.
\<close>

section \<open>Opening a wallet\<close>

text \<open>\<open>wallet.create\<close>: the user and the organization are unique columns.\<close>

definition new_wallet :: "ident \<Rightarrow> ident option \<Rightarrow> ident option \<Rightarrow> bool \<Rightarrow> wallet" where
  "new_wallet i user organization platform =
     \<lparr>wl_id = i, wl_user = user, wl_organization = organization, wl_platform = platform,
      wl_balance = 0, wl_held = 0, wl_status = WalletActive, wl_account = None\<rparr>"

definition insert_wallet ::
    "ident option \<Rightarrow> ident option \<Rightarrow> bool \<Rightarrow> db \<Rightarrow> (wallet \<times> db) result" where
  "insert_wallet user organization platform d =
     (if (user \<noteq> None \<and> lookup_by wl_user user (wallets d) \<noteq> None)
         \<or> (organization \<noteq> None \<and> lookup_by wl_organization organization (wallets d) \<noteq> None)
      then Inl (Internal (STR ''P2002''))
      else let w = new_wallet (fresh_id d) user organization platform
           in Inr (w, d\<lparr>wallets := wallets d @ [w], seq := Suc (seq d)\<rparr>))"

text \<open>
  The transaction body shared by the three kinds of owner: the wallet row, its ledger account,
  the link, the activity log, and the re-read of the wallet.
\<close>

definition open_wallet ::
    "ident option \<Rightarrow> ident option \<Rightarrow> bool \<Rightarrow> (ident \<Rightarrow> account_data) \<Rightarrow> ident option \<times> String.literal
      \<Rightarrow> db \<Rightarrow> (wallet \<times> db) result" where
  "open_wallet user organization platform acct act d =
     andThen (insert_wallet user organization platform d) (\<lambda>(w, d1).
     andThen (insert_account (acct (wl_id w)) d1) (\<lambda>(a, d2).
     let d3 = upd_wallet (wl_id w) (\<lambda>w. w\<lparr>wl_account := Some (la_id a)\<rparr>) d2;
         d4 = log_activity (fst act) (snd act) d3
     in andThen (require_some (get_wallet d4 (wl_id w)) (NotFound (STR ''Wallet not found'')))
          (\<lambda>w'. Inr (w', d4))))"

definition platform_account_data :: "ident \<Rightarrow> account_data" where
  "platform_account_data i =
     \<lparr>ac_code = ''PLATFORM-WALLET-'' @ substring0 8 i, ac_type = ASSET, ac_category = CatCash,
      ac_owner_type = OwnerPlatform, ac_owner = None, ac_wallet = Some i, ac_system = True\<rparr>"

definition user_account_data :: "ident \<Rightarrow> ident \<Rightarrow> account_data" where
  "user_account_data userId i =
     \<lparr>ac_code = ''WALLET-USER-'' @ substring0 8 i, ac_type = ASSET, ac_category = CatCash,
      ac_owner_type = OwnerUser, ac_owner = Some userId, ac_wallet = Some i, ac_system = False\<rparr>"

definition organization_account_data :: "ident \<Rightarrow> ident \<Rightarrow> account_data" where
  "organization_account_data organizationId i =
     \<lparr>ac_code = ''WALLET-ORG-'' @ substring0 8 i, ac_type = ASSET, ac_category = CatCash,
      ac_owner_type = OwnerOrganization, ac_owner = Some organizationId, ac_wallet = Some i,
      ac_system = False\<rparr>"

section \<open>The wallet of an owner\<close>

text \<open>
  \<open>initializePlatformWallet\<close>: the flagged wallet, or an unowned legacy wallet that is flagged
  now, or a new one.
\<close>

definition initializePlatformWallet :: "db \<Rightarrow> db \<times> wallet result" where
  "initializePlatformWallet d =
     (case platform_wallet d of
        Some w \<Rightarrow> (d, Inr w)
      | None \<Rightarrow>
          (case find (\<lambda>w. wl_user w = None \<and> wl_organization w = None \<and> \<not> wl_platform w) (wallets d) of
             Some w \<Rightarrow> (upd_wallet (wl_id w) (\<lambda>w. w\<lparr>wl_platform := True\<rparr>) d, Inr (w\<lparr>wl_platform := True\<rparr>))
           | None \<Rightarrow> transaction (open_wallet None None True platform_account_data
                       (None, STR ''PLATFORM_WALLET_INITIALIZED'')) d))"

definition getOrCreateUserWallet :: "ident \<Rightarrow> db \<Rightarrow> db \<times> wallet result" where
  "getOrCreateUserWallet userId d =
     (case lookup_by us_id userId (users d) of
        None \<Rightarrow> (d, Inl (NotFound (STR ''User not found'')))
      | Some _ \<Rightarrow>
          (case lookup_by wl_user (Some userId) (wallets d) of
             Some w \<Rightarrow> (d, Inr w)
           | None \<Rightarrow> transaction (open_wallet (Some userId) None False (user_account_data userId)
                       (Some userId, STR ''WALLET_CREATED'')) d))"

definition getOrCreateOrganizationWallet :: "ident \<Rightarrow> db \<Rightarrow> db \<times> wallet result" where
  "getOrCreateOrganizationWallet organizationId d =
     (case lookup_by og_id organizationId (orgs d) of
        None \<Rightarrow> (d, Inl (NotFound (STR ''Organization not found'')))
      | Some _ \<Rightarrow>
          (case lookup_by wl_organization (Some organizationId) (wallets d) of
             Some w \<Rightarrow> (d, Inr w)
           | None \<Rightarrow> transaction (open_wallet None (Some organizationId) False
                       (organization_account_data organizationId) (None, STR ''WALLET_CREATED'')) d))"

definition getOrCreatePlatformWallet :: "db \<Rightarrow> db \<times> wallet result" where
  "getOrCreatePlatformWallet d =
     (case platform_wallet d of Some w \<Rightarrow> (d, Inr w) | None \<Rightarrow> initializePlatformWallet d)"

datatype wallet_owner = UserOwner ident | OrganizationOwner ident | PlatformOwner

definition getOrCreateWallet :: "wallet_owner \<Rightarrow> db \<Rightarrow> db \<times> wallet result" where
  "getOrCreateWallet owner d =
     (case owner of
        UserOwner i \<Rightarrow> getOrCreateUserWallet i d
      | OrganizationOwner i \<Rightarrow> getOrCreateOrganizationWallet i d
      | PlatformOwner \<Rightarrow> getOrCreatePlatformWallet d)"

definition createWalletForOwner :: "ident option \<Rightarrow> ident option \<Rightarrow> db \<Rightarrow> db \<times> wallet result" where
  "createWalletForOwner userId organizationId d =
     (case userId of
        Some u \<Rightarrow> getOrCreateWallet (UserOwner u) d
      | None \<Rightarrow>
          (case organizationId of
             Some g \<Rightarrow> getOrCreateWallet (OrganizationOwner g) d
           | None \<Rightarrow> (d, Inl (BadRequest (STR ''Either userId or organizationId is required'')))))"

text \<open>\<open>getBalance\<close> and \<open>hasSufficientBalance\<close>: what is not held is available.\<close>

definition available :: "wallet \<Rightarrow> int" where
  "available w = wl_balance w - wl_held w"

definition getBalance :: "wallet_owner \<Rightarrow> db \<Rightarrow> db \<times> (int \<times> int \<times> int) result" where
  "getBalance owner d =
     (case getOrCreateWallet owner d of
        (d', Inl e) \<Rightarrow> (d', Inl e)
      | (d', Inr w) \<Rightarrow> (d', Inr (wl_balance w, wl_held w, available w)))"

definition hasSufficientBalance :: "wallet_owner \<Rightarrow> int \<Rightarrow> bool \<Rightarrow> db \<Rightarrow> db \<times> bool result" where
  "hasSufficientBalance owner amount includeHeldBalance d =
     (case getOrCreateWallet owner d of
        (d', Inl e) \<Rightarrow> (d', Inl e)
      | (d', Inr w) \<Rightarrow> (d', Inr (amount \<le> (if includeHeldBalance then available w else wl_balance w))))"

section \<open>What opening a wallet leaves behind\<close>

definition opened_wallet :: "db \<Rightarrow> ident option \<Rightarrow> ident option \<Rightarrow> bool \<Rightarrow> wallet" where
  "opened_wallet d user organization platform =
     new_wallet (fresh_id d) user organization platform\<lparr>wl_account := Some (idgen d (Suc (seq d)))\<rparr>"

lemma open_wallet_InrD:
  assumes "open_wallet user organization platform acct act d = Inr (w, d')" and "keys_ok d"
  shows "w = opened_wallet d user organization platform"
    and "d' = d\<lparr>accounts := accounts d @ [new_account (idgen d (Suc (seq d))) (acct (fresh_id d))],
                seq := Suc (Suc (seq d)), wallets := wallets d @ [w], activity := activity d @ [act]\<rparr>"
    and "user \<noteq> None \<Longrightarrow> lookup_by wl_user user (wallets d) = None"
    and "organization \<noteq> None \<Longrightarrow> lookup_by wl_organization organization (wallets d) = None"
    and "account_by_code d (ac_code (acct (fresh_id d))) = None"
proof -
  have no: "get_wallet d (fresh_id d) = None"
    using assms(2) by (auto simp: keys_ok_def lookup_by_None dest: fresh_id_unused)
  have upd: "update_by wl_id (fresh_id d) f (wallets d) = wallets d" for f
    by (rule update_by_absent [OF no])
  show "w = opened_wallet d user organization platform"
    and "d' = d\<lparr>accounts := accounts d @ [new_account (idgen d (Suc (seq d))) (acct (fresh_id d))],
                seq := Suc (Suc (seq d)), wallets := wallets d @ [w], activity := activity d @ [act]\<rparr>"
    and "user \<noteq> None \<Longrightarrow> lookup_by wl_user user (wallets d) = None"
    and "organization \<noteq> None \<Longrightarrow> lookup_by wl_organization organization (wallets d) = None"
    and "account_by_code d (ac_code (acct (fresh_id d))) = None"
    using assms(1) no
    by (auto simp: open_wallet_def insert_wallet_def insert_account_def opened_wallet_def Let_def
        upd [unfolded fresh_id_def] no [unfolded fresh_id_def]
        result_simps table_simps new_wallet_def new_account_def log_activity_def fresh_id_def
        split: if_splits)
qed

lemma open_wallet_keys:
  assumes "open_wallet user organization platform acct act d = Inr (w, d')" and "keys_ok d"
  shows "keys_ok d'"
proof -
  note D = open_wallet_InrD [OF assms]
  have i: "inj (idgen d')" using assms(2) by (simp add: D(2) keys_ok_def)
  have ids: "map wl_id (wallets d') = map wl_id (wallets d) @ [idgen d' (seq d)]"
      "map la_id (accounts d') = map la_id (accounts d) @ [idgen d' (Suc (seq d))]"
    by (simp_all add: D(1,2) opened_wallet_def new_wallet_def new_account_def fresh_id_def)
  have fresh: "fresh_for d' ks" if "fresh_for d ks" for ks
    using that by (rule fresh_for_mono) (simp_all add: D(2))
  have "idgen d (seq d) \<notin> set (map wl_id (wallets d))" "idgen d (Suc (seq d)) \<notin> set (map la_id (accounts d))"
    using assms(2) by (auto simp: keys_ok_def fresh_for_def)
  then show ?thesis
    using assms(2) i fresh fresh_for_snoc [OF i]
    unfolding keys_ok_def ids by (simp add: D(2))
qed

lemma open_wallet_books:
  assumes "open_wallet user organization platform acct act d = Inr (w, d')" and "books_ok d"
    and "\<And>i. ac_wallet (acct i) = Some i" and "\<And>i. ac_code (acct i) \<notin> set system_codes"
  shows "books_ok d'"
proof -
  have keys: "keys_ok d" using assms(2) by (simp add: books_ok_def)
  note D = open_wallet_InrD [OF assms(1) keys]
  have new: "get_account d (idgen d (Suc (seq d))) = None" "get_wallet d (fresh_id d) = None"
    using keys by (auto simp: keys_ok_def lookup_by_None fresh_for_def fresh_id_def)
  have w: "get_wallet d' k = (if k = fresh_id d then Some w else get_wallet d k)" for k
    using new(2) by (cases "k = fresh_id d"; cases "get_wallet d k") (simp_all add: D(1,2) table_simps opened_wallet_def new_wallet_def)
  let ?j = "idgen d (Suc (seq d))" and ?a = "new_account (idgen d (Suc (seq d))) (acct (fresh_id d))"
  have a: "get_account d' i = (if i = ?j then Some ?a else get_account d i)" for i
    using new(1) by (cases "i = ?j"; cases "get_account d i") (simp_all add: D(2) table_simps new_account_def)
  have old: "i \<noteq> ?j" if "get_wallet d k = Some v" "wl_account v = Some i" for k v i
  proof
    assume "i = ?j"
    with links_okD [OF _ that] new(1) assms(2) show False by (simp add: books_ok_def)
  qed
  have link: "map_option la_wallet (get_account d' i) = Some (Some k)"
    and bal: "map_option la_balance (get_account d' i) = Some (wl_balance v)"
    if "get_wallet d' k = Some v" "wl_account v = Some i" for k v i
  proof -
    show "map_option la_wallet (get_account d' i) = Some (Some k)"
    proof (cases "k = fresh_id d")
      case True
      with that have "v = w" by (simp add: w)
      with that(2) True show ?thesis
        by (simp add: a D(1) opened_wallet_def new_account_def assms(3))
    next
      case False
      with that have v: "get_wallet d k = Some v" by (simp add: w)
      with assms(2) old [OF v that(2)] show ?thesis
        by (simp add: a books_ok_def links_okD [OF _ v that(2)])
    qed
    show "map_option la_balance (get_account d' i) = Some (wl_balance v)"
    proof (cases "k = fresh_id d")
      case True
      with that have "v = w" by (simp add: w)
      with that(2) show ?thesis
        by (simp add: a D(1) opened_wallet_def new_wallet_def new_account_def)
    next
      case False
      with that have v: "get_wallet d k = Some v" by (simp add: w)
      with assms(2) old [OF v that(2)] show ?thesis
        by (simp add: a books_ok_def mirrorD [OF _ v that(2)])
    qed
  qed
  have "links_ok d'" by (rule links_okI) (rule link)
  moreover have "mirror d'" by (rule mirrorI) (rule bal)
  moreover have "system_ok d'"
    unfolding system_ok_def
  proof (intro allI impI)
    fix c
    assume c: "c \<in> set system_codes"
    then have "c \<noteq> ac_code (acct (fresh_id d))" using assms(4) by metis
    moreover have "map_option la_wallet (account_by_code d c) \<in> {None, Some None}"
      using c assms(2) unfolding books_ok_def system_ok_def by blast
    ultimately show "map_option la_wallet (account_by_code d' c) \<in> {None, Some None}"
      by (cases "account_by_code d c") (simp_all add: D(2) table_simps new_account_def)
  qed
  ultimately show ?thesis using open_wallet_keys [OF assms(1) keys] by (simp add: books_ok_def)
qed

section \<open>The wallet of an owner: what every call keeps\<close>

text \<open>Flagging the legacy platform wallet rewrites neither balances nor links.\<close>

lemma flag_platform_books: "books_ok d \<Longrightarrow> books_ok (upd_wallet k (\<lambda>w. w\<lparr>wl_platform := True\<rparr>) d)"
proof -
  assume b: "books_ok d"
  let ?d = "upd_wallet k (\<lambda>w. w\<lparr>wl_platform := True\<rparr>) d"
  have w: "map_option (\<lambda>w. (wl_account w, wl_balance w)) (get_wallet ?d i) =
      map_option (\<lambda>w. (wl_account w, wl_balance w + 0)) (get_wallet d i)" for i
    by (cases "i = k"; cases "get_wallet d i") (simp_all add: table_simps)
  have l: "map_option wl_account (get_wallet ?d i) = map_option wl_account (get_wallet d i)" for i
    by (cases "i = k"; cases "get_wallet d i") (simp_all add: table_simps)
  have "keys_ok ?d" by (rule keys_ok_cong [of d]) (use b in \<open>simp_all add: books_ok_def table_simps\<close>)
  moreover have "links_ok ?d" by (rule links_ok_cong [of d]) (use b l in \<open>simp_all add: books_ok_def\<close>)
  moreover have "mirror ?d"
    by (rule mirror_shift [of d ?d "\<lambda>_. 0" "\<lambda>_. 0", OF _ _ w])
      (use b in \<open>simp_all add: books_ok_def option.map_ident\<close>)
  moreover have "system_ok ?d" by (rule system_ok_cong [of d]) (use b in \<open>simp_all add: books_ok_def\<close>)
  ultimately show ?thesis by (simp add: books_ok_def)
qed

lemma wallet_codes_not_system [simp]:
  "ac_code (platform_account_data i) \<notin> set system_codes"
  "ac_code (user_account_data u i) \<notin> set system_codes"
  "ac_code (organization_account_data g i) \<notin> set system_codes"
  by (simp_all add: platform_account_data_def user_account_data_def organization_account_data_def
      system_codes_def)

lemma wallet_accounts_linked [simp]:
  "ac_wallet (platform_account_data i) = Some i"
  "ac_wallet (user_account_data u i) = Some i"
  "ac_wallet (organization_account_data g i) = Some i"
  by (simp_all add: platform_account_data_def user_account_data_def organization_account_data_def)

lemma open_wallet_transaction_books:
  assumes "books_ok d" and "\<And>i. ac_wallet (acct i) = Some i" and "\<And>i. ac_code (acct i) \<notin> set system_codes"
  shows "books_ok (fst (transaction (open_wallet user organization platform acct act) d))"
  by (rule transaction_invariant [of books_ok]) (use assms open_wallet_books in \<open>blast+\<close>)

lemmas wallet_defs = getOrCreateWallet_def getOrCreateUserWallet_def getOrCreateOrganizationWallet_def
  getOrCreatePlatformWallet_def initializePlatformWallet_def

lemma getOrCreateWallet_keeps_books: "books_ok d \<Longrightarrow> books_ok (fst (getOrCreateWallet owner d))"
  by (cases owner)
    (simp_all add: wallet_defs flag_platform_books open_wallet_transaction_books split: option.splits)

text \<open>
  Opening a wallet writes wallets, accounts, the activity log and the identifier counter, which
  only grows: whatever else is read of the database stays the same.
\<close>

lemma open_wallet_frame:
  assumes "open_wallet user organization platform acct act d = Inr (w, d')"
    and "\<And>x d. P (wallets_update x d) = P d" and "\<And>x d. P (accounts_update x d) = P d"
    and "\<And>x d. P (activity_update x d) = P d" and "\<And>x d. P (seq_update x d) = P d"
  shows "P d' = P d" and "seq d \<le> seq d'"
proof -
  obtain w1 d1 where 1: "insert_wallet user organization platform d = Inr (w1, d1)"
    using assms(1) by (cases "insert_wallet user organization platform d") (auto simp: open_wallet_def)
  then have d1: "d1 = seq_update (\<lambda>_. Suc (seq d)) (wallets_update (\<lambda>_. wallets d @ [w1]) d)"
    by (auto simp: insert_wallet_def Let_def split: if_splits)
  obtain a d2 where 2: "insert_account (acct (wl_id w1)) d1 = Inr (a, d2)"
    using assms(1) 1 by (cases "insert_account (acct (wl_id w1)) d1") (auto simp: open_wallet_def)
  then have d2: "d2 = seq_update (\<lambda>_. Suc (seq d1)) (accounts_update (\<lambda>_. accounts d1 @ [a]) d1)"
    by (auto simp: insert_account_def Let_def split: if_splits)
  define d3 where "d3 = log_activity (fst act) (snd act) (upd_wallet (wl_id w1) (\<lambda>w. w\<lparr>wl_account := Some (la_id a)\<rparr>) d2)"
  have d': "d' = d3"
    using assms(1) 1 2 by (cases "get_wallet d3 (wl_id w1)") (simp_all add: open_wallet_def Let_def d3_def)
  show "P d' = P d" by (simp only: d' d3_def log_activity_def d2 d1 assms(2-5))
  show "seq d \<le> seq d'" by (simp add: d' d3_def log_activity_def d2 d1)
qed

lemma getOrCreateWallet_frame:
  assumes "\<And>x d. P (wallets_update x d) = P d" and "\<And>x d. P (accounts_update x d) = P d"
    and "\<And>x d. P (activity_update x d) = P d" and "\<And>x d. P (seq_update x d) = P d"
  shows "P (fst (getOrCreateWallet owner d)) = P d"
proof -
  have "P (fst (transaction (open_wallet u g p acct act) d)) = P d" for u g p acct act
    using transaction_atomic [of "open_wallet u g p acct act" d] open_wallet_frame(1) [where P = P, OF _ assms]
    by metis
  then show ?thesis
    by (cases owner) (simp_all add: wallet_defs assms(1) split: option.split)
qed

lemma getOrCreateWallet_seq: "seq d \<le> seq (fst (getOrCreateWallet owner d))"
proof -
  have "seq d \<le> seq (fst (transaction (open_wallet u g p acct act) d))" for u g p acct act
    using transaction_atomic [of "open_wallet u g p acct act" d] open_wallet_frame(2) [where P = "\<lambda>_. ()"]
    by (metis order_refl)
  then show ?thesis by (cases owner) (simp_all add: wallet_defs split: option.split)
qed

text \<open>A wallet just opened is found by the next call.\<close>

lemma open_wallet_found:
  assumes "transaction (open_wallet user organization platform acct act) d = (d', Inr w)" and "keys_ok d"
  shows "wl_user w = user" and "wl_organization w = organization" and "wl_platform w = platform"
    and "wallets d' = wallets d @ [w]" and "users d' = users d" and "orgs d' = orgs d"
proof -
  from assms(1) have o: "open_wallet user organization platform acct act d = Inr (w, d')"
    by (simp add: transaction_Inr)
  note D = open_wallet_InrD(1,2) [OF o assms(2)]
  show "wl_user w = user" and "wl_organization w = organization" and "wl_platform w = platform"
    and "wallets d' = wallets d @ [w]" and "users d' = users d" and "orgs d' = orgs d"
    unfolding D(2) by (simp_all add: D(1) opened_wallet_def new_wallet_def)
qed

lemma find_snoc: "find P xs = None \<Longrightarrow> find P (xs @ [x]) = (if P x then Some x else None)"
  by (induction xs) (auto split: if_splits)

lemma find_flagged:
  assumes "find wl_platform ws = None" and "find P ws = Some w"
  shows "find wl_platform (update_by wl_id (wl_id w) (\<lambda>w. w\<lparr>wl_platform := True\<rparr>) ws) = 
     map_option (\<lambda>w. w\<lparr>wl_platform := True\<rparr>) (lookup_by wl_id (wl_id w) ws)"
  using assms(1)
  by (induction ws) (auto simp: update_by_def update_where_def lookup_by_Cons lookup_by_Nil split: if_splits)

lemma getOrCreateUserWallet_again:
  assumes "getOrCreateUserWallet u d = (d', Inr w)" and "keys_ok d"
  shows "getOrCreateUserWallet u d' = (d', Inr w)"
proof (cases "lookup_by wl_user (Some u) (wallets d)")
  case None
  with assms(1) obtain r where r: "lookup_by us_id u (users d) = Some r"
    and o: "transaction (open_wallet (Some u) None False (user_account_data u) (Some u, STR ''WALLET_CREATED'')) d
      = (d', Inr w)"
    by (simp add: getOrCreateUserWallet_def split: option.splits)
  from r None open_wallet_found [OF o assms(2)] show ?thesis
    by (simp add: getOrCreateUserWallet_def table_simps)
next
  case (Some v)
  with assms(1) have "d' = d" by (simp add: getOrCreateUserWallet_def split: option.splits)
  with assms(1) show ?thesis by simp
qed

lemma getOrCreateOrganizationWallet_again:
  assumes "getOrCreateOrganizationWallet g d = (d', Inr w)" and "keys_ok d"
  shows "getOrCreateOrganizationWallet g d' = (d', Inr w)"
proof (cases "lookup_by wl_organization (Some g) (wallets d)")
  case None
  with assms(1) obtain r where r: "lookup_by og_id g (orgs d) = Some r"
    and o: "transaction (open_wallet None (Some g) False (organization_account_data g)
      (None, STR ''WALLET_CREATED'')) d = (d', Inr w)"
    by (simp add: getOrCreateOrganizationWallet_def split: option.splits)
  from r None open_wallet_found [OF o assms(2)] show ?thesis
    by (simp add: getOrCreateOrganizationWallet_def table_simps)
next
  case (Some v)
  with assms(1) have "d' = d" by (simp add: getOrCreateOrganizationWallet_def split: option.splits)
  with assms(1) show ?thesis by simp
qed

lemma getOrCreatePlatformWallet_again:
  assumes "getOrCreatePlatformWallet d = (d', Inr w)" and "keys_ok d"
  shows "getOrCreatePlatformWallet d' = (d', Inr w)"
proof -
  have "platform_wallet d' = Some w"
  proof (cases "platform_wallet d")
    case None
    let ?P = "\<lambda>w. wl_user w = None \<and> wl_organization w = None \<and> \<not> wl_platform w"
    show ?thesis
    proof (cases "find ?P (wallets d)")
      case (Some v)
      with None assms(1) have "d' = upd_wallet (wl_id v) (\<lambda>w. w\<lparr>wl_platform := True\<rparr>) d"
        and "w = v\<lparr>wl_platform := True\<rparr>"
        by (simp_all add: getOrCreatePlatformWallet_def initializePlatformWallet_def)
      moreover have "get_wallet d (wl_id v) = Some v"
        using Some assms(2) by (intro lookup_by_distinct) (auto simp: keys_ok_def find_Some_iff)
      ultimately show ?thesis using find_flagged [OF None Some] by simp
    next
      case none: None
      with None assms(1) have o: "transaction (open_wallet None None True platform_account_data
          (None, STR ''PLATFORM_WALLET_INITIALIZED'')) d = (d', Inr w)"
        by (simp add: getOrCreatePlatformWallet_def initializePlatformWallet_def)
      from None open_wallet_found [OF o assms(2)] show ?thesis by (simp add: find_snoc)
    qed
  next
    case (Some v)
    with assms(1) show ?thesis by (simp add: getOrCreatePlatformWallet_def)
  qed
  then show ?thesis by (simp add: getOrCreatePlatformWallet_def)
qed

lemma getOrCreateWallet_again:
  assumes "getOrCreateWallet owner d = (d', Inr w)" and "keys_ok d"
  shows "getOrCreateWallet owner d' = (d', Inr w)"
  using assms getOrCreateUserWallet_again getOrCreateOrganizationWallet_again getOrCreatePlatformWallet_again
  by (cases owner) (simp_all add: getOrCreateWallet_def)

text \<open>
  The code of the account of a new wallet is a prefix and the first eight characters of the
  wallet's identifier: when an account has that code, the wallet is not opened.
\<close>

lemma open_wallet_code_taken:
  assumes "account_by_code d (ac_code (acct (fresh_id d))) = Some a"
    and "user \<noteq> None \<Longrightarrow> lookup_by wl_user user (wallets d) = None"
    and "organization \<noteq> None \<Longrightarrow> lookup_by wl_organization organization (wallets d) = None"
  shows "open_wallet user organization platform acct act d = Inl (Internal (STR ''P2002''))"
  using assms by (auto simp: open_wallet_def insert_wallet_def insert_account_def Let_def new_wallet_def)

section \<open>Properties\<close>

definition owns :: "wallet_owner \<Rightarrow> wallet \<Rightarrow> bool" where
  "owns owner w =
     (case owner of
        UserOwner u \<Rightarrow> wl_user w = Some u
      | OrganizationOwner g \<Rightarrow> wl_organization w = Some g
      | PlatformOwner \<Rightarrow> wl_platform w)"

lemma getOrCreateWallet_owns:
  assumes "getOrCreateWallet owner d = (d', Inr w)" and "keys_ok d"
  shows "owns owner w"
proof (cases owner)
  case (UserOwner u)
  show ?thesis
  proof (cases "lookup_by wl_user (Some u) (wallets d)")
    case None
    with assms(1) UserOwner have "transaction (open_wallet (Some u) None False (user_account_data u)
        (Some u, STR ''WALLET_CREATED'')) d = (d', Inr w)"
      by (simp add: wallet_defs split: option.splits)
    from open_wallet_found(1) [OF this assms(2)] show ?thesis by (simp add: owns_def UserOwner)
  next
    case (Some v)
    with assms(1) UserOwner have "v = w" by (simp add: wallet_defs split: option.splits)
    with lookup_by_key [OF Some] show ?thesis by (simp add: owns_def UserOwner)
  qed
next
  case (OrganizationOwner g)
  show ?thesis
  proof (cases "lookup_by wl_organization (Some g) (wallets d)")
    case None
    with assms(1) OrganizationOwner have "transaction (open_wallet None (Some g) False
        (organization_account_data g) (None, STR ''WALLET_CREATED'')) d = (d', Inr w)"
      by (simp add: wallet_defs split: option.splits)
    from open_wallet_found(2) [OF this assms(2)] show ?thesis by (simp add: owns_def OrganizationOwner)
  next
    case (Some v)
    with assms(1) OrganizationOwner have "v = w" by (simp add: wallet_defs split: option.splits)
    with lookup_by_key [OF Some] show ?thesis by (simp add: owns_def OrganizationOwner)
  qed
next
  case PlatformOwner
  show ?thesis
  proof (cases "platform_wallet d")
    case None
    let ?P = "\<lambda>w. wl_user w = None \<and> wl_organization w = None \<and> \<not> wl_platform w"
    show ?thesis
    proof (cases "find ?P (wallets d)")
      case none: None
      with None assms(1) PlatformOwner have "transaction (open_wallet None None True platform_account_data
          (None, STR ''PLATFORM_WALLET_INITIALIZED'')) d = (d', Inr w)"
        by (simp add: wallet_defs)
      from open_wallet_found(3) [OF this assms(2)] show ?thesis by (simp add: owns_def PlatformOwner)
    next
      case (Some v)
      with None assms(1) PlatformOwner have "w = v\<lparr>wl_platform := True\<rparr>" by (simp add: wallet_defs)
      then show ?thesis by (simp add: owns_def PlatformOwner)
    qed
  next
    case (Some v)
    with assms(1) PlatformOwner have "v = w" by (simp add: wallet_defs)
    with find_SomeD [OF Some] show ?thesis by (simp add: owns_def PlatformOwner)
  qed
qed

text \<open>A wallet is opened once. When \<open>getOrCreateWallet\<close> succeeds, the wallet belongs to the owner
  asked for, the books are as consistent as before (the new wallet is linked to its own ledger
  account, with the same balance), and a second call returns the same wallet and writes nothing.\<close>

lemma getOrCreateWallet_once:
  assumes "getOrCreateWallet owner d = (d', Inr w)" and "books_ok d"
  shows "owns owner w \<and> books_ok d' \<and> getOrCreateWallet owner d' = (d', Inr w)"
proof -
  have keys: "keys_ok d" using assms(2) by (simp add: books_ok_def)
  with getOrCreateWallet_keeps_books [OF assms(2), of owner] assms(1)
    getOrCreateWallet_owns [OF assms(1)] getOrCreateWallet_again [OF assms(1)]
  show ?thesis by simp
qed

lemma getOrCreateWallet_once_example:
  "\<exists>d' w. getOrCreateWallet (UserOwner ''u'') ((sample_db 0 0 [])\<lparr>wallets := [], accounts := []\<rparr>) = (d', Inr w)
     \<and> wl_user w = Some ''u'' \<and> books_ok d'"
proof -
  let ?d = "(sample_db 0 0 [])\<lparr>wallets := [], accounts := []\<rparr>"
  have b: "books_ok ?d"
    by (simp add: books_ok_def keys_ok_def fresh_for_def links_ok_def mirror_def system_ok_def lookup_by_Nil
        sample_db_def sample_ids_inj)
  obtain d' w where r: "getOrCreateWallet (UserOwner ''u'') ?d = (d', Inr w)"
    by (simp add: wallet_defs sample_db_def lookup_by_Cons lookup_by_Nil transaction_def open_wallet_def
        insert_wallet_def insert_account_def Let_def table_simps log_activity_def fresh_id_def new_wallet_def
        new_account_def)
  from getOrCreateWallet_once [OF r b] r show ?thesis by (auto simp: owns_def)
qed

text \<open>A wallet's account code carries only the first eight characters of the wallet's identifier. When
  an account with that code exists, a user without a wallet gets the unique-constraint error and
  no wallet, and nothing is written.\<close>

lemma wallet_code_collision:
  assumes "lookup_by us_id u (users d) = Some r" and "lookup_by wl_user (Some u) (wallets d) = None"
    and "account_by_code d (''WALLET-USER-'' @ take 8 (fresh_id d)) = Some a"
  shows "getOrCreateUserWallet u d = (d, Inl (Internal (STR ''P2002'')))"
proof -
  have "open_wallet (Some u) None False (user_account_data u) (Some u, STR ''WALLET_CREATED'') d =
      Inl (Internal (STR ''P2002''))"
    by (rule open_wallet_code_taken [of _ _ a]) (use assms in \<open>simp_all add: user_account_data_def substring0_def\<close>)
  then show ?thesis by (simp add: getOrCreateUserWallet_def assms(1,2) transaction_def)
qed

lemma wallet_code_collision_example:
  "getOrCreateUserWallet ''u'' ((sample_db 0 0 [])\<lparr>wallets := [],
       accounts := [sample_account ''z'' ''WALLET-USER-xxx'' (Some ''old'') 0]\<rparr>) =
     ((sample_db 0 0 [])\<lparr>wallets := [], accounts := [sample_account ''z'' ''WALLET-USER-xxx'' (Some ''old'') 0]\<rparr>,
      Inl (Internal (STR ''P2002'')))"
  by (rule wallet_code_collision [of _ _ "\<lparr>us_id = ''u''\<rparr>" "sample_account ''z'' ''WALLET-USER-xxx'' (Some ''old'') 0"])
    (simp_all add: sample_db_def lookup_by_Cons lookup_by_Nil fresh_id_def sample_ids_def sample_account_def
      numeral_3_eq_3)

end
