(* ===== verification/Books.thy ===== *)
theory Books
  imports Prelude FinanceDb Samples Ledger Wallets
begin

text \<open>
  What the money movements have in common. A movement changes wallet balances by \<open>f\<close> and account
  balances by \<open>g\<close>; the books survive it when every wallet's account moves with its wallet. The
  lemmas say what \<open>adjust_wallet\<close>, \<open>adjust_account\<close> and a journal posting add to each row, that the
  clearing account belongs to no wallet, and that opening a system account keeps the books.
\<close>

section \<open>Movements\<close>

lemma adjust_wallet_frame [simp]:
  "idgen (adjust_wallet k x d) = idgen d" "seq (adjust_wallet k x d) = seq d"
  "accounts (adjust_wallet k x d) = accounts d" "entries (adjust_wallet k x d) = entries d"
  "withdrawals (adjust_wallet k x d) = withdrawals d" "holds (adjust_wallet k x d) = holds d"
  "map wl_id (wallets (adjust_wallet k x d)) = map wl_id (wallets d)"
  by (simp_all add: adjust_wallet_def wallet_balance.keys_adjust)

lemma adjust_account_frame [simp]:
  "idgen (adjust_account a x d) = idgen d" "seq (adjust_account a x d) = seq d"
  "wallets (adjust_account a x d) = wallets d" "entries (adjust_account a x d) = entries d"
  "withdrawals (adjust_account a x d) = withdrawals d" "holds (adjust_account a x d) = holds d"
  "map la_id (accounts (adjust_account a x d)) = map la_id (accounts d)"
  by (simp_all add: adjust_account_def account_balance.keys_adjust split: option.split)

lemma get_adjust_wallet:
  "get_wallet (adjust_wallet k x d) i =
     map_option (wl_balance_update (\<lambda>b. b + (if i = k then x else 0))) (get_wallet d i)"
  by (cases "get_wallet d i"; cases "i = k") (simp_all add: adjust_wallet_def wallet_balance.lookup_adjust)

definition moved :: "ident option \<Rightarrow> int \<Rightarrow> ident \<Rightarrow> int" where
  "moved a x i = (if a = Some i then x else 0)"

lemma moved_simps [simp]: "moved None x i = 0" "moved (Some j) x i = (if j = i then x else 0)"
  by (simp_all add: moved_def)

lemma get_adjust_account:
  "get_account (adjust_account a x d) i =
     map_option (la_balance_update (\<lambda>b. b + moved a x i)) (get_account d i)"
  by (cases a; cases "get_account d i"; cases "a = Some i")
    (simp_all add: adjust_account_def account_balance.lookup_adjust)

lemma code_adjust_account:
  "map_option la_wallet (account_by_code (adjust_account a x d) c) = map_option la_wallet (account_by_code d c)"
  "map_option la_id (account_by_code (adjust_account a x d) c) = map_option la_id (account_by_code d c)"
proof -
  have "account_by_code (adjust_account (Some j) x d) c =
      map_option (\<lambda>r. if la_id r = j then la_balance_update (\<lambda>b. b + x) r else r) (account_by_code d c)" for j
    by (simp add: adjust_account_def adjust_def lookup_by_update_by_other)
  then show "map_option la_wallet (account_by_code (adjust_account a x d) c) = map_option la_wallet (account_by_code d c)"
    and "map_option la_id (account_by_code (adjust_account a x d) c) = map_option la_id (account_by_code d c)"
    by (cases a; cases "account_by_code d c"; simp add: adjust_account_def)+
qed

lemma clearing_adjust [simp]:
  "clearing_id (adjust_account a x d) = clearing_id d"
  "clearing_id (adjust_wallet k x d) = clearing_id d"
  by (simp_all add: clearing_id_def code_adjust_account)

lemma trial_adjust_account:
  assumes "distinct (map la_id (accounts d))" and "\<And>i. a = Some i \<Longrightarrow> get_account d i \<noteq> None"
  shows "trial_balance (adjust_account a x d) = trial_balance d + (if a = None then 0 else x)"
proof (cases a)
  case None
  then show ?thesis by (simp add: adjust_account_def)
next
  case (Some i)
  with assms(2) obtain r where "get_account d i = Some r" by blast
  with Some account_balance.total_adjust [OF assms(1) this] show ?thesis
    by (simp add: adjust_account_def trial_balance_def)
qed

text \<open>The books survive a movement under which linked wallets and accounts move together.\<close>

lemma books_shift:
  fixes f g :: "ident \<Rightarrow> int"
  assumes b: "books_ok d" and k: "keys_ok d'"
    and w: "\<And>k. map_option (\<lambda>w. (wl_account w, wl_balance w)) (get_wallet d' k) =
      map_option (\<lambda>w. (wl_account w, wl_balance w + f k)) (get_wallet d k)"
    and a: "\<And>i. map_option (\<lambda>a. (la_wallet a, la_balance a)) (get_account d' i) =
      map_option (\<lambda>a. (la_wallet a, la_balance a + g i)) (get_account d i)"
    and c: "\<And>c. map_option la_wallet (account_by_code d' c) = map_option la_wallet (account_by_code d c)"
    and fg: "\<And>k i. map_option wl_account (get_wallet d k) = Some (Some i) \<Longrightarrow>
      map_option la_wallet (get_account d i) = Some (Some k) \<Longrightarrow> g i = f k"
  shows "books_ok d'"
proof -
  have l: "map_option wl_account (get_wallet d' k) = map_option wl_account (get_wallet d k)" for k
    using w [of k] by (cases "get_wallet d k"; cases "get_wallet d' k") simp_all
  have al: "map_option la_wallet (get_account d' i) = map_option la_wallet (get_account d i)"
    and ab: "map_option la_balance (get_account d' i) = map_option (\<lambda>a. la_balance a + g i) (get_account d i)" for i
    using a [of i] by (cases "get_account d i"; cases "get_account d' i"; simp)+
  from b have "links_ok d" and "mirror d" and "system_ok d" by (simp_all add: books_ok_def)
  then have "links_ok d'" and "mirror d'" and "system_ok d'"
    using links_ok_cong [OF _ l al] mirror_shift [OF _ _ w ab] fg system_ok_cong [OF _ c]
    by simp_all
  with k show ?thesis by (simp add: books_ok_def)
qed

text \<open>The clearing account belongs to no wallet.\<close>

lemma clearing_unlinked:
  assumes "books_ok d" and "clearing_id d = Some c"
  shows "map_option la_wallet (get_account d c) = Some None"
proof -
  from assms(2) obtain r where r: "account_by_code d ''1100'' = Some r" and c: "la_id r = c"
    by (auto simp: clearing_id_def)
  have "''1100'' \<in> set system_codes" by (simp add: system_codes_def)
  then have "map_option la_wallet (account_by_code d ''1100'') \<in> {None, Some None}"
    using assms(1) unfolding books_ok_def system_ok_def by blast
  with r have "la_wallet r = None" by simp
  moreover have "get_account d (la_id r) = Some r"
    using assms(1) r by (intro lookup_by_distinct) (simp_all add: books_ok_def keys_ok_def lookup_by_mem)
  ultimately show ?thesis using c by simp
qed

text \<open>
  A movement between a wallet, its account and the clearing account: the account of another
  wallet is neither.
\<close>

lemma linked_movement:
  assumes "books_ok d" and w: "get_wallet d k0 = Some w"
    and c: "\<And>c. cl = Some c \<Longrightarrow> map_option la_wallet (get_account d c) = Some None"
    and "map_option wl_account (get_wallet d k) = Some (Some i)"
    and i: "map_option la_wallet (get_account d i) = Some (Some k)"
  shows "moved (wl_account w) x i + moved cl y i = (if k = k0 then x else 0)"
proof -
  have "moved cl y i = 0" using c i by (cases cl) auto
  moreover have "moved (wl_account w) x i = (if k = k0 then x else 0)"
  proof (cases "wl_account w")
    case None
    with w assms(4) show ?thesis by auto
  next
    case (Some a)
    from assms(1) w Some have "map_option la_wallet (get_account d a) = Some (Some k0)"
      by (intro links_okD) (simp_all add: books_ok_def)
    with i w assms(4) Some show ?thesis by (cases "k = k0") auto
  qed
  ultimately show ?thesis by simp
qed

section \<open>Postings\<close>

lemma lookup_map_cong:
  assumes "map key as = map key bs" and "map f as = map f bs"
  shows "map_option f (lookup_by key c as) = map_option f (lookup_by key c bs)"
  using assms by (induction as bs rule: list_induct2') (auto simp: lookup_by_Cons)

text \<open>What a posting leaves of the tables, and what it adds to each account.\<close>

lemma posting:
  assumes "createJournalEntry now x d = Inr (i, d')" and "keys_ok d"
  shows "i = fresh_id d"
    and "wallets d' = wallets d" and "withdrawals d' = withdrawals d" and "holds d' = holds d"
    and "entries d' = entries d @ [new_entry now i x\<lparr>je_lines := ed_lines x\<rparr>]"
    and "map la_id (accounts d') = map la_id (accounts d)"
    and "get_account d' k = map_option (la_balance_update (\<lambda>b. b + effect_on k (ed_lines x))) (get_account d k)"
    and "map_option la_wallet (account_by_code d' c) = map_option la_wallet (account_by_code d c)"
    and "clearing_id d' = clearing_id d"
    and "keys_ok d'"
    and "trial_balance d' = trial_balance d"
proof -
  have fresh: "fresh_for d (map je_id (entries d))" and dist: "distinct (map la_id (accounts d))"
    using assms(2) by (simp_all add: keys_ok_def)
  show "i = fresh_id d" by (rule createJournalEntry_InrD(1) [OF assms(1)])
  show "trial_balance d' = trial_balance d" by (rule createJournalEntry_trial_balance [OF assms(1) dist])
  obtain as where d': "d' = d\<lparr>accounts := as,
      entries := entries d @ [new_entry now i x\<lparr>je_lines := ed_lines x\<rparr>], seq := Suc (seq d)\<rparr>"
    and ids: "map la_id as = map la_id (accounts d)" and codes: "map la_code as = map la_code (accounts d)"
    and links: "map la_wallet as = map la_wallet (accounts d)"
    and bal: "\<And>k. lookup_by la_id k as =
      map_option (\<lambda>a. a\<lparr>la_balance := la_balance a + effect_on k (ed_lines x)\<rparr>) (get_account d k)"
    by (rule createJournalEntry_state [OF assms(1) fresh]) (rule that; assumption)
  show "wallets d' = wallets d" and "withdrawals d' = withdrawals d" and "holds d' = holds d"
    and "entries d' = entries d @ [new_entry now i x\<lparr>je_lines := ed_lines x\<rparr>]"
    and "map la_id (accounts d') = map la_id (accounts d)"
    using ids by (simp_all add: d')
  show "get_account d' k = map_option (la_balance_update (\<lambda>b. b + effect_on k (ed_lines x))) (get_account d k)"
    by (cases "get_account d k") (simp_all add: d' bal)
  show "map_option la_wallet (account_by_code d' c) = map_option la_wallet (account_by_code d c)"
    and "clearing_id d' = clearing_id d"
    using lookup_map_cong [OF codes links] lookup_map_cong [OF codes ids] by (simp_all add: d' clearing_id_def)
  have i: "inj (idgen d')" using assms(2) by (simp add: d' keys_ok_def)
  have ids': "map je_id (entries d') = map je_id (entries d) @ [idgen d' (seq d)]"
    using \<open>i = fresh_id d\<close> by (simp add: d' new_entry_def fresh_id_def)
  have mono: "fresh_for d' ks" if "fresh_for d ks" for ks
    using that by (rule fresh_for_mono) (simp_all add: d')
  have "idgen d (seq d) \<notin> set (map je_id (entries d))"
    using fresh by (simp add: fresh_for_def)
  then show "keys_ok d'"
    using assms(2) i mono fresh_for_snoc [OF i, of "map je_id (entries d)" "seq d"]
    unfolding keys_ok_def ids' by (simp add: d' ids)
qed

text \<open>Opening a system account.\<close>

lemma insert_system_account:
  assumes "insert_account x d = Inr (a, d')" and "books_ok d" and "ac_code x \<in> set system_codes" and "ac_wallet x = None"
  shows "books_ok d'" and "map_option la_wallet (get_account d' (la_id a)) = Some None"
    and "account_by_code d' (ac_code x) = Some a" and "trial_balance d' = trial_balance d"
    and "wallets d' = wallets d" and "withdrawals d' = withdrawals d" and "entries d' = entries d"
    and "holds d' = holds d"
    and "get_account d k \<noteq> None \<Longrightarrow> get_account d' k = get_account d k"
    and "account_by_code d c \<noteq> None \<Longrightarrow> account_by_code d' c = account_by_code d c"
proof -
  have keys: "keys_ok d" using assms(2) by (simp add: books_ok_def)
  from assms(1) have None: "account_by_code d (ac_code x) = None"
    and eq: "new_account (fresh_id d) x = a"
      "d\<lparr>accounts := accounts d @ [new_account (fresh_id d) x], seq := Suc (seq d)\<rparr> = d'"
    by (auto simp: insert_account_def Let_def split: if_splits)
  note a = eq(1) [symmetric] and d' = eq(2) [symmetric, unfolded eq(1)]
  have fresh: "fresh_for d (map la_id (accounts d))" and i: "inj (idgen d')"
    using keys by (simp_all add: keys_ok_def d')
  have new: "get_account d (fresh_id d) = None"
    using fresh_id_unused [OF fresh] by (simp add: lookup_by_None)
  have acc: "get_account d' j = (if j = fresh_id d then Some a else get_account d j)" for j
    using new by (cases "get_account d j"; cases "j = fresh_id d") (simp_all add: d' table_simps a new_account_def)
  have cod: "account_by_code d' c = (if c = ac_code x then Some a else account_by_code d c)" for c
    using None by (cases "account_by_code d c"; cases "c = ac_code x") (simp_all add: d' table_simps a new_account_def)
  have mono: "fresh_for d' ks" if "fresh_for d ks" for ks
    using that by (rule fresh_for_mono) (simp_all add: d')
  have ids: "map la_id (accounts d') = map la_id (accounts d) @ [idgen d' (seq d)]"
    by (simp add: d' a new_account_def fresh_id_def)
  have "idgen d (seq d) \<notin> set (map la_id (accounts d))"
    using fresh by (simp add: fresh_for_def)
  then have "keys_ok d'"
    using keys i mono fresh_for_snoc [OF i, of "map la_id (accounts d)" "seq d"]
    unfolding keys_ok_def ids by (simp add: d')
  moreover have "links_ok d'"
  proof (rule links_okI)
    fix k w i
    assume "get_wallet d' k = Some w" "wl_account w = Some i"
    then have "map_option la_wallet (get_account d i) = Some (Some k)"
      using assms(2) by (intro links_okD) (simp_all add: books_ok_def d')
    with new show "map_option la_wallet (get_account d' i) = Some (Some k)" by (auto simp: acc)
  qed
  moreover have "mirror d'"
  proof (rule mirrorI)
    fix k w i
    assume "get_wallet d' k = Some w" "wl_account w = Some i"
    then have "map_option la_balance (get_account d i) = Some (wl_balance w)"
      using assms(2) by (intro mirrorD) (simp_all add: books_ok_def d')
    with new show "map_option la_balance (get_account d' i) = Some (wl_balance w)" by (auto simp: acc)
  qed
  moreover have "system_ok d'"
    using assms(2,4) unfolding system_ok_def books_ok_def cod by (simp add: a new_account_def)
  ultimately show "books_ok d'" by (simp add: books_ok_def)
  have "la_id a = fresh_id d" "la_wallet a = None" "la_balance a = 0"
    using assms(4) by (simp_all add: a new_account_def)
  then show "map_option la_wallet (get_account d' (la_id a)) = Some None"
    by (simp add: acc)
  show "trial_balance d' = trial_balance d"
    using \<open>la_balance a = 0\<close> by (simp add: d' trial_balance_def total_def)
  show "account_by_code d' (ac_code x) = Some a" by (simp add: cod)
  show "get_account d' k = get_account d k" if "get_account d k \<noteq> None"
    using that new by (auto simp: acc)
  show "account_by_code d' c = account_by_code d c" if "account_by_code d c \<noteq> None"
    using that None by (auto simp: cod)
qed (use assms(1) in \<open>auto simp: insert_account_def Let_def split: if_splits\<close>)

lemma system_account_present:
  assumes "books_ok d" and "account_by_code d code = Some a" and "code \<in> set system_codes"
  shows "map_option la_wallet (get_account d (la_id a)) = Some None"
proof -
  have "map_option la_wallet (account_by_code d code) \<in> {None, Some None}"
    using assms(1,3) unfolding books_ok_def system_ok_def by blast
  with assms(2) have "la_wallet a = None" by simp
  moreover have "get_account d (la_id a) = Some a"
    using assms(1,2) by (intro lookup_by_distinct) (simp_all add: books_ok_def keys_ok_def lookup_by_mem)
  ultimately show ?thesis by simp
qed

lemma system_account:
  assumes "getOrCreateSystemAccount (code, t, cat) d = Inr (a, d')" and "books_ok d" and "code \<in> set system_codes"
  shows "books_ok d'" and "map_option la_wallet (get_account d' (la_id a)) = Some None"
    and "account_by_code d' code = Some a" and "trial_balance d' = trial_balance d"
    and "wallets d' = wallets d" and "withdrawals d' = withdrawals d" and "entries d' = entries d"
    and "holds d' = holds d"
    and "get_account d k \<noteq> None \<Longrightarrow> get_account d' k = get_account d k"
    and "account_by_code d c \<noteq> None \<Longrightarrow> account_by_code d' c = account_by_code d c"
proof -
  have "books_ok d' \<and> map_option la_wallet (get_account d' (la_id a)) = Some None
    \<and> account_by_code d' code = Some a \<and> trial_balance d' = trial_balance d
    \<and> wallets d' = wallets d \<and> withdrawals d' = withdrawals d \<and> entries d' = entries d \<and> holds d' = holds d
    \<and> (get_account d k \<noteq> None \<longrightarrow> get_account d' k = get_account d k)
    \<and> (account_by_code d c \<noteq> None \<longrightarrow> account_by_code d' c = account_by_code d c)"
  proof (cases "account_by_code d code")
    case (Some r)
    with assms(1) have d': "d' = d" and a: "a = r" by (simp_all add: getOrCreateSystemAccount_def)
    show ?thesis using system_account_present [OF assms(2) Some assms(3)] assms(2) Some by (simp add: d' a)
  next
    case None
    then have "insert_account \<lparr>ac_code = code, ac_type = t, ac_category = cat, ac_owner_type = OwnerPlatform,
      ac_owner = None, ac_wallet = None, ac_system = True\<rparr> d = Inr (a, d')"
      using assms(1) by (simp add: getOrCreateSystemAccount_def)
    from insert_system_account [OF this assms(2)] assms(3) show ?thesis by simp
  qed
  then show "books_ok d'" and "map_option la_wallet (get_account d' (la_id a)) = Some None"
    and "account_by_code d' code = Some a" and "trial_balance d' = trial_balance d"
    and "wallets d' = wallets d" and "withdrawals d' = withdrawals d" and "entries d' = entries d"
    and "holds d' = holds d"
    and "get_account d k \<noteq> None \<Longrightarrow> get_account d' k = get_account d k"
    and "account_by_code d c \<noteq> None \<Longrightarrow> account_by_code d' c = account_by_code d c"
    by blast+
qed

section \<open>The relation of movements\<close>

text \<open>
  A journal entry that settles a withdrawal exists only when the withdrawal has left the pending
  status, so that settling a pending one always posts.
\<close>

definition postings_ok :: "db \<Rightarrow> bool" where
  "postings_ok d \<longleftrightarrow>
     (\<forall>i. lookup_by je_withdrawal (Some i) (entries d) \<noteq> None \<longrightarrow>
        map_option wd_status (get_withdrawal d i) \<notin> {None, Some WPending})"

text \<open>
  What the application establishes at startup and with every wallet: each wallet has its ledger
  account, and the platform wallet and the clearing account exist.
\<close>

definition accounts_open :: "db \<Rightarrow> bool" where
  "accounts_open d \<longleftrightarrow>
     (\<forall>k. map_option wl_account (get_wallet d k) \<noteq> Some None) \<and> clearing_id d \<noteq> None \<and>
     True \<in> set (map wl_platform (wallets d))"

definition ledger_ok :: "db \<Rightarrow> bool" where
  "ledger_ok d \<longleftrightarrow> books_ok d \<and> accounts_open d \<and> postings_ok d"

text \<open>
  \<open>movement f g\<close>: the step keeps keys and postings, adds \<open>f\<close> to the wallets and \<open>g\<close> to the
  accounts, and leaves links and codes as they are.
\<close>

definition movement :: "(ident \<Rightarrow> int) \<Rightarrow> (ident \<Rightarrow> int) \<Rightarrow> db \<Rightarrow> db \<Rightarrow> bool" where
  "movement f g d d' \<longleftrightarrow>
     (keys_ok d \<longrightarrow> keys_ok d') \<and> (postings_ok d \<longrightarrow> postings_ok d') \<and>
     (\<forall>k. map_option (\<lambda>w. (wl_account w, wl_balance w)) (get_wallet d' k) =
        map_option (\<lambda>w. (wl_account w, wl_balance w + f k)) (get_wallet d k)) \<and>
     (\<forall>i. map_option (\<lambda>a. (la_wallet a, la_balance a)) (get_account d' i) =
        map_option (\<lambda>a. (la_wallet a, la_balance a + g i)) (get_account d i)) \<and>
     (\<forall>c. map_option la_wallet (account_by_code d' c) = map_option la_wallet (account_by_code d c)) \<and>
     clearing_id d' = clearing_id d \<and>
     map la_id (accounts d') = map la_id (accounts d) \<and>
     map wl_platform (wallets d') = map wl_platform (wallets d)"

lemma movement_refl: "movement (\<lambda>_. 0) (\<lambda>_. 0) d d"
  by (simp add: movement_def)

lemma map_option_shift:
  fixes b :: "'r \<Rightarrow> int"
  assumes "map_option (\<lambda>r. (h r, b r)) x' = map_option (\<lambda>r. (h r, b r + m)) x"
    and "map_option (\<lambda>r. (h r, b r)) x'' = map_option (\<lambda>r. (h r, b r + n)) x'"
  shows "map_option (\<lambda>r. (h r, b r)) x'' = map_option (\<lambda>r. (h r, b r + (m + n))) x"
  using assms by (cases x; cases x'; cases x'') auto

lemma map_option_shift_fst:
  fixes b :: "'r \<Rightarrow> int"
  assumes "map_option (\<lambda>r. (h r, b r)) x' = map_option (\<lambda>r. (h r, b r + m)) x"
  shows "map_option h x' = map_option h x"
    and "x \<noteq> None \<Longrightarrow> (case x' of None \<Rightarrow> 0 | Some r \<Rightarrow> b r) = (case x of None \<Rightarrow> 0 | Some r \<Rightarrow> b r) + m"
  using assms by (cases x; cases x'; simp)+

lemma movementD:
  assumes "movement f g d d'"
  shows "keys_ok d \<Longrightarrow> keys_ok d'" and "postings_ok d \<Longrightarrow> postings_ok d'"
    and "map_option (\<lambda>w. (wl_account w, wl_balance w)) (get_wallet d' k) =
        map_option (\<lambda>w. (wl_account w, wl_balance w + f k)) (get_wallet d k)"
    and "map_option (\<lambda>a. (la_wallet a, la_balance a)) (get_account d' i) =
        map_option (\<lambda>a. (la_wallet a, la_balance a + g i)) (get_account d i)"
    and "map_option la_wallet (account_by_code d' c) = map_option la_wallet (account_by_code d c)"
    and "clearing_id d' = clearing_id d"
    and "map la_id (accounts d') = map la_id (accounts d)"
    and "map wl_platform (wallets d') = map wl_platform (wallets d)"
  using assms unfolding movement_def by blast+

lemma movement_trans:
  assumes "movement f g d d1" and "movement f' g' d1 d2"
  shows "movement (\<lambda>k. f k + f' k) (\<lambda>i. g i + g' i) d d2"
  unfolding movement_def
proof (intro conjI impI allI)
  note A = movementD [OF assms(1)] and B = movementD [OF assms(2)]
  show "keys_ok d2" if "keys_ok d" using A(1) B(1) that by blast
  show "postings_ok d2" if "postings_ok d" using A(2) B(2) that by blast
  show "map_option (\<lambda>w. (wl_account w, wl_balance w)) (get_wallet d2 k) =
      map_option (\<lambda>w. (wl_account w, wl_balance w + (f k + f' k))) (get_wallet d k)" for k
    by (rule map_option_shift [OF A(3) B(3)])
  show "map_option (\<lambda>a. (la_wallet a, la_balance a)) (get_account d2 i) =
      map_option (\<lambda>a. (la_wallet a, la_balance a + (g i + g' i))) (get_account d i)" for i
    by (rule map_option_shift [OF A(4) B(4)])
  show "map_option la_wallet (account_by_code d2 c) = map_option la_wallet (account_by_code d c)" for c
    using A(5) B(5) by simp
qed (use movementD(6-8) [OF assms(1)] movementD(6-8) [OF assms(2)] in simp_all)

lemma movement_cong:
  "movement f g d d' \<Longrightarrow> (\<And>k. f k = f' k) \<Longrightarrow> (\<And>i. g i = g' i) \<Longrightarrow> movement f' g' d d'"
  by (metis ext)

lemma movement_ledger:
  assumes "movement f g d d'" and "ledger_ok d"
    and "\<And>k i. map_option wl_account (get_wallet d k) = Some (Some i) \<Longrightarrow>
      map_option la_wallet (get_account d i) = Some (Some k) \<Longrightarrow> g i = f k"
  shows "ledger_ok d'"
proof -
  from assms(2) have b: "books_ok d" and o: "accounts_open d" and p: "postings_ok d"
    by (simp_all add: ledger_ok_def)
  note M = movementD [OF assms(1)]
  have "keys_ok d" using b by (simp add: books_ok_def)
  then have "books_ok d'"
    by (rule books_shift [OF b M(1) M(3) M(4) M(5) assms(3)])
  moreover have "accounts_open d'"
    using o map_option_shift_fst(1) [OF M(3)] M(6) M(8) unfolding accounts_open_def by simp
  moreover have "postings_ok d'" using M(2) p .
  ultimately show ?thesis by (simp add: ledger_ok_def)
qed

lemma total_by_lookup:
  "distinct (map key t) \<Longrightarrow>
     total b t = sum_list (map (\<lambda>k. case lookup_by key k t of None \<Rightarrow> 0 | Some r \<Rightarrow> b r) (map key t))"
  by (induction t) (auto simp: total_def lookup_by_Cons intro!: arg_cong [of _ _ sum_list])

lemma movement_trial:
  assumes "movement f g d d'" and "keys_ok d"
  shows "trial_balance d' = trial_balance d + sum_list (map g (map la_id (accounts d)))"
proof -
  let ?ids = "map la_id (accounts d)"
  have ids: "map la_id (accounts d') = ?ids" and dist: "distinct ?ids"
    using assms by (simp_all add: movement_def keys_ok_def)
  have pt: "(case get_account d' i of None \<Rightarrow> 0 | Some r \<Rightarrow> la_balance r) =
      (case get_account d i of None \<Rightarrow> 0 | Some r \<Rightarrow> la_balance r) + g i" if "i \<in> set ?ids" for i
  proof -
    from that have "get_account d i \<noteq> None" by (auto simp: lookup_by_None)
    then show ?thesis by (rule map_option_shift_fst(2) [OF movementD(4) [OF assms(1)]])
  qed
  have "trial_balance d' = sum_list (map (\<lambda>i. case get_account d' i of None \<Rightarrow> 0 | Some r \<Rightarrow> la_balance r) ?ids)"
    using total_by_lookup [of la_id "accounts d'" la_balance] ids dist by (simp add: trial_balance_def)
  also have "\<dots> = sum_list (map (\<lambda>i. (case get_account d i of None \<Rightarrow> 0 | Some r \<Rightarrow> la_balance r) + g i) ?ids)"
    using pt by (intro arg_cong [of _ _ sum_list] map_cong refl)
  also have "\<dots> = trial_balance d + sum_list (map g ?ids)"
    using total_by_lookup [of la_id "accounts d" la_balance] dist
    by (simp add: trial_balance_def sum_list_addf del: map_map)
  finally show ?thesis .
qed

lemma sum_moved:
  "distinct ks \<Longrightarrow> sum_list (map (moved a x) ks) = (case a of None \<Rightarrow> 0 | Some i \<Rightarrow> if i \<in> set ks then x else 0)"
  by (induction ks) (auto simp: moved_def split: option.splits)

text \<open>A movement between a wallet, its account and the clearing account keeps the ledger.\<close>

definition keeps_ledger :: "db \<Rightarrow> db \<Rightarrow> bool" where
  "keeps_ledger d d' \<longleftrightarrow> (ledger_ok d \<longrightarrow> ledger_ok d' \<and> trial_balance d' = trial_balance d)"

lemma keeps_ledger_refl [simp]: "keeps_ledger d d"
  by (simp add: keeps_ledger_def)

lemma keeps_ledger_trans: "keeps_ledger d d1 \<Longrightarrow> keeps_ledger d1 d2 \<Longrightarrow> keeps_ledger d d2"
  by (simp add: keeps_ledger_def)

lemma keeps_ledgerI:
  "(ledger_ok d \<Longrightarrow> ledger_ok d' \<and> trial_balance d' = trial_balance d) \<Longrightarrow> keeps_ledger d d'"
  by (simp add: keeps_ledger_def)

lemma movement_still: "movement (\<lambda>_. 0) (\<lambda>_. 0) d d' \<Longrightarrow> keeps_ledger d d'"
proof (rule keeps_ledgerI)
  assume m: "movement (\<lambda>_. 0) (\<lambda>_. 0) d d'" and "ledger_ok d"
  then have "keys_ok d" by (simp add: ledger_ok_def books_ok_def)
  from movement_ledger [OF m \<open>ledger_ok d\<close>] movement_trial [OF m this]
  show "ledger_ok d' \<and> trial_balance d' = trial_balance d" by (simp add: comp_def)
qed

lemma movement_wallet:
  assumes "movement (\<lambda>k. if k = k0 then x else 0) (\<lambda>i. moved (Some a) x i + moved (Some c) (- x) i) d d'"
    and "map_option wl_account (get_wallet d k0) = Some (Some a)"
    and "map_option la_wallet (get_account d c) = Some None"
  shows "keeps_ledger d d'"
proof (rule keeps_ledgerI)
  assume ok: "ledger_ok d"
  then have b: "books_ok d" and keys: "keys_ok d" by (simp_all add: ledger_ok_def books_ok_def)
  obtain w where w: "get_wallet d k0 = Some w" "wl_account w = Some a"
    using assms(2) by (cases "get_wallet d k0") simp_all
  have "ledger_ok d'"
  proof (rule movement_ledger [OF assms(1) ok])
    fix k i
    assume "map_option wl_account (get_wallet d k) = Some (Some i)"
      and "map_option la_wallet (get_account d i) = Some (Some k)"
    from linked_movement [OF b w(1) _ this, of "Some c" x "- x"] assms(3) w(2)
    show "moved (Some a) x i + moved (Some c) (- x) i = (if k = k0 then x else 0)" by simp
  qed
  moreover
  have "map_option la_wallet (get_account d a) = Some (Some k0)"
    using b w by (intro links_okD) (simp_all add: books_ok_def)
  then have in_ids: "a \<in> set (map la_id (accounts d))" "c \<in> set (map la_id (accounts d))"
    using assms(3) lookup_by_None [of la_id a "accounts d"] lookup_by_None [of la_id c "accounts d"]
    by (cases "get_account d a"; cases "get_account d c"; simp)+
  have "distinct (map la_id (accounts d))" using keys by (simp add: keys_ok_def)
  then have "trial_balance d' = trial_balance d"
    using movement_trial [OF assms(1) keys] sum_moved [of _ "Some a" x] sum_moved [of _ "Some c" "- x"] in_ids
    by (simp add: sum_list_addf del: map_map moved_simps)
  ultimately show "ledger_ok d' \<and> trial_balance d' = trial_balance d" by simp
qed

section \<open>Elementary movements\<close>

lemma movement_adjust_wallet:
  "movement (\<lambda>i. if i = k then x else 0) (\<lambda>_. 0) d (adjust_wallet k x d)"
proof -
  have "keys_ok (adjust_wallet k x d)" if "keys_ok d"
    using that by (rule keys_ok_cong) simp_all
  moreover have "map wl_platform (wallets (adjust_wallet k x d)) = map wl_platform (wallets d)"
    by (simp add: adjust_wallet_def adjust_def table_simps)
  ultimately show ?thesis
    by (simp add: movement_def get_adjust_wallet option.map_comp comp_def postings_ok_def)
qed

lemma movement_adjust_account:
  "movement (\<lambda>_. 0) (moved a x) d (adjust_account a x d)"
proof -
  have "keys_ok (adjust_account a x d)" if "keys_ok d"
    using that by (rule keys_ok_cong) simp_all
  then show ?thesis
    by (simp add: movement_def get_adjust_account option.map_comp comp_def postings_ok_def code_adjust_account)
qed

text \<open>A step that leaves wallets and accounts alone.\<close>

lemma movement_frame:
  assumes "idgen d' = idgen d" and "seq d \<le> seq d'" and "wallets d' = wallets d" and "accounts d' = accounts d"
    and "map je_id (entries d') = map je_id (entries d)"
    and "map je_withdrawal (entries d') = map je_withdrawal (entries d)"
    and "map wd_id (withdrawals d') = map wd_id (withdrawals d)"
    and "\<And>i. map_option wd_status (get_withdrawal d' i) \<in> {None, Some WPending} \<Longrightarrow>
      map_option wd_status (get_withdrawal d i) \<in> {None, Some WPending}"
  shows "movement (\<lambda>_. 0) (\<lambda>_. 0) d d'"
proof -
  have "keys_ok d'" if "keys_ok d"
    using that by (rule keys_ok_cong) (simp_all add: assms(1-5,7))
  moreover have same: "lookup_by je_withdrawal i (entries d') = None \<longleftrightarrow> lookup_by je_withdrawal i (entries d) = None" for i
    using assms(6) by (metis list.set_map lookup_by_None)
  then have "postings_ok d'" if "postings_ok d"
    unfolding postings_ok_def
  proof (intro allI impI notI)
    fix i
    assume "lookup_by je_withdrawal (Some i) (entries d') \<noteq> None"
      and "map_option wd_status (get_withdrawal d' i) \<in> {None, Some WPending}"
    then have "lookup_by je_withdrawal (Some i) (entries d) \<noteq> None"
      and "map_option wd_status (get_withdrawal d i) \<in> {None, Some WPending}"
      using same [of "Some i"] assms(8) [of i] by metis+
    with that show False unfolding postings_ok_def by metis
  qed
  ultimately show ?thesis
    by (simp add: movement_def assms(3,4) clearing_id_def)
qed

text \<open>A write to the wallet row.\<close>

lemma movement_upd_wallet:
  assumes "get_wallet d k = Some w"
    and "\<And>r. wl_id (f r) = wl_id r" and "\<And>r. wl_account (f r) = wl_account r"
    and "\<And>r. wl_platform (f r) = wl_platform r" and "wl_balance (f w) = wl_balance w + x"
  shows "movement (\<lambda>i. if i = k then x else 0) (\<lambda>_. 0) d (upd_wallet k f d)"
proof -
  have "keys_ok (upd_wallet k f d)" if "keys_ok d"
    using that by (rule keys_ok_cong) (simp_all add: table_simps assms(2))
  moreover have "map_option (\<lambda>w. (wl_account w, wl_balance w)) (get_wallet (upd_wallet k f d) i) =
      map_option (\<lambda>w. (wl_account w, wl_balance w + (if i = k then x else 0))) (get_wallet d i)" for i
    using assms(1,3,5) by (cases "i = k") (simp_all add: table_simps assms(2))
  ultimately show ?thesis
    by (simp add: movement_def postings_ok_def table_simps assms(4) clearing_id_def)
qed

text \<open>A posting.\<close>

lemma movement_posting:
  assumes "createJournalEntry now x d = Inr (i, d')" and "keys_ok d"
    and "\<And>k. ed_withdrawal x = Some k \<Longrightarrow> map_option wd_status (get_withdrawal d k) \<notin> {None, Some WPending}"
  shows "movement (\<lambda>_. 0) (\<lambda>i. effect_on i (ed_lines x)) d d'"
proof -
  note P = posting [OF assms(1,2)]
  have "postings_ok d'" if "postings_ok d"
    unfolding postings_ok_def
  proof (intro allI impI)
    fix k
    assume k: "lookup_by je_withdrawal (Some k) (entries d') \<noteq> None"
    show "map_option wd_status (get_withdrawal d' k) \<notin> {None, Some WPending}"
    proof (cases "lookup_by je_withdrawal (Some k) (entries d) = None")
      case True
      with k have "ed_withdrawal x = Some k"
        unfolding P(5) by (simp add: table_simps new_entry_def split: if_splits)
      with assms(3) show ?thesis by (simp add: P(3))
    next
      case False
      with that show ?thesis unfolding postings_ok_def by (simp add: P(3))
    qed
  qed
  then show ?thesis
    by (simp add: movement_def P(2,3,6-10) option.map_comp comp_def)
qed

section \<open>Opening wallets and system accounts\<close>

lemma open_wallet_keeps:
  assumes o: "open_wallet user organization platform acct act d = Inr (w, d')"
    and "\<And>i. ac_wallet (acct i) = Some i" and "\<And>i. ac_code (acct i) \<notin> set system_codes"
  shows "keeps_ledger d d'"
proof (rule keeps_ledgerI)
  assume ok: "ledger_ok d"
  then have b: "books_ok d" and keys: "keys_ok d" and ac: "accounts_open d" and p: "postings_ok d"
    by (simp_all add: ledger_ok_def books_ok_def)
  note D = open_wallet_InrD(1,2) [OF o keys]
  have "books_ok d'" by (rule open_wallet_books [OF o b assms(2,3)])
  moreover have "accounts_open d'"
  proof -
    have "map_option wl_account (get_wallet d' k) \<noteq> Some None" for k
      using ac D(1) unfolding accounts_open_def
      by (cases "get_wallet d k") (auto simp: D(2) table_simps opened_wallet_def)
    moreover from ac obtain r where "account_by_code d ''1100'' = Some r"
      by (auto simp: accounts_open_def clearing_id_def)
    then have "clearing_id d' = clearing_id d" by (simp add: clearing_id_def D(2) table_simps)
    ultimately show ?thesis using ac by (simp add: accounts_open_def D(2))
  qed
  moreover have "postings_ok d'" using p by (simp add: postings_ok_def D(2))
  moreover have "trial_balance d' = trial_balance d"
    by (simp add: trial_balance_def total_def D(2) new_account_def)
  ultimately show "ledger_ok d' \<and> trial_balance d' = trial_balance d" by (simp add: ledger_ok_def)
qed

lemma transaction_keeps:
  assumes "\<And>x d'. body d = Inr (x, d') \<Longrightarrow> keeps_ledger d d'"
  shows "keeps_ledger d (fst (transaction body d))"
  using assms by (cases "body d") (auto simp: transaction_def)

lemma platform_wallet_open: "ledger_ok d \<Longrightarrow> platform_wallet d \<noteq> None"
  by (auto simp: ledger_ok_def accounts_open_def find_None_iff)

lemma getOrCreateWallet_keeps: "keeps_ledger d (fst (getOrCreateWallet owner d))"
proof -
  have "keeps_ledger d (fst (transaction (open_wallet u g p acct act) d))"
    if "\<And>i. ac_wallet (acct i) = Some i" and "\<And>i. ac_code (acct i) \<notin> set system_codes" for u g p acct act
    by (rule transaction_keeps) (rule open_wallet_keeps [OF _ that])
  note this [simp]
  show ?thesis
  proof (cases owner)
    case PlatformOwner
    show ?thesis
    proof (cases "platform_wallet d")
      case None
      then have "\<not> ledger_ok d" using platform_wallet_open by blast
      then show ?thesis by (simp add: keeps_ledger_def)
    next
      case (Some w)
      then show ?thesis by (simp add: PlatformOwner wallet_defs)
    qed
  qed (simp_all add: wallet_defs split: option.split)
qed

lemma system_account_keeps:
  assumes "getOrCreateSystemAccount (code, t, cat) d = Inr (a, d')" and "code \<in> set system_codes"
  shows "keeps_ledger d d'"
proof (rule keeps_ledgerI)
  assume ok: "ledger_ok d"
  then have b: "books_ok d" by (simp add: ledger_ok_def)
  note S = system_account [OF assms(1) b assms(2)]
  from ok have "account_by_code d ''1100'' \<noteq> None" by (simp add: ledger_ok_def accounts_open_def clearing_id_def)
  then have "clearing_id d' = clearing_id d" by (simp add: clearing_id_def S(10))
  with ok S(1-8) show "ledger_ok d' \<and> trial_balance d' = trial_balance d"
    by (simp add: ledger_ok_def accounts_open_def postings_ok_def)
qed

text \<open>The sample database is well-formed.\<close>

lemma sample_ledger_ok:
  assumes "distinct (map wd_id wds)" and "\<And>w. w \<in> set wds \<Longrightarrow> length (wd_id w) < 3"
  shows "ledger_ok (sample_db balance held wds)"
proof -
  have "accounts_open (sample_db balance held wds)"
    unfolding accounts_open_def by (simp add: sample_wallet_def) (simp add: sample_defs)
  with sample_books_ok [OF assms] show ?thesis
    by (simp add: ledger_ok_def postings_ok_def lookup_by_Nil)
qed

end
