(* ===== verification/LedgerProperties.thy ===== *)
theory LedgerProperties
  imports Prelude JsNumber Ledger Books Samples
begin

text \<open>
  The properties of the ledger service: posting, reversal, reconciliation and charges, each with
  a concrete instance.
\<close>

section \<open>Posting\<close>

text \<open>C32: \<open>createJournalEntry\<close> is double entry. When the debits and credits differ it throws and writes
  nothing. When they agree, the accounts exist and the linked rows have no entry yet, it succeeds:
  one more posted entry with exactly the given lines, every account moved by the sum of its lines
  (debits up, credits down), and the sum of all account balances unchanged.\<close>

theorem createJournalEntry_correct:
  assumes "keys_ok d" and "\<not> entry_link_taken x d"
    and "\<And>l. l \<in> set (ed_lines x) \<Longrightarrow> get_account d (jl_account l) \<noteq> None"
  shows "if debits (ed_lines x) = credits (ed_lines x)
    then \<exists>d'. createJournalEntry now x d = Inr (fresh_id d, d')
      \<and> entries d' = entries d @ [new_entry now (fresh_id d) x\<lparr>je_lines := ed_lines x\<rparr>]
      \<and> (\<forall>k. get_account d' k = map_option (la_balance_update (\<lambda>b. b + effect_on k (ed_lines x))) (get_account d k))
      \<and> trial_balance d' = trial_balance d
    else createJournalEntry now x d = Inl (BadRequest (STR ''Journal entry must be balanced''))"
proof (cases "debits (ed_lines x) = credits (ed_lines x)")
  case True
  obtain d' where d': "createJournalEntry now x d = Inr (fresh_id d, d')"
    using createJournalEntry_defined [OF True assms(2,3)] by blast
  note P = posting [OF d' assms(1)]
  show ?thesis
    unfolding if_P [OF True] by (intro exI [of _ d'] conjI allI d' P(5) P(7) P(11))
next
  case False
  then show ?thesis by (simp add: createJournalEntry_unbalanced)
qed

definition sample_entry :: entry_data where
  "sample_entry =
     \<lparr>ed_lines = [\<lparr>jl_account = ''c'', jl_type = DEBIT, jl_amount = 70\<rparr>,
                  \<lparr>jl_account = ''wa'', jl_type = CREDIT, jl_amount = 70\<rparr>],
      ed_description = ''sample'', ed_transaction = None, ed_payment = None, ed_withdrawal = None,
      ed_created_by = None\<rparr>"

lemma sample_entry_facts:
  "debits (ed_lines sample_entry) = credits (ed_lines sample_entry)"
  "\<not> entry_link_taken sample_entry d"
  "l \<in> set (ed_lines sample_entry) \<Longrightarrow> get_account (sample_db b h ws) (jl_account l) \<noteq> None"
  "effect_on ''wa'' (ed_lines sample_entry) = - 70" "effect_on ''c'' (ed_lines sample_entry) = 70"
  by (auto simp: sample_entry_def debits_def credits_def entry_link_taken_def balance_change_def)

lemma sample_fresh [simp]: "fresh_id (sample_db b h ws) = ''xxx''"
  by (simp add: fresh_id_def sample_db_def sample_ids_def numeral_3_eq_3)

theorem createJournalEntry_correct_witness:
  "\<exists>d'. createJournalEntry 5 sample_entry (sample_db 300 0 []) = Inr (''xxx'', d')
     \<and> map_option la_balance (get_account d' ''wa'') = Some 230
     \<and> map_option la_balance (get_account d' ''c'') = Some (- 1730)
     \<and> trial_balance d' = trial_balance (sample_db 300 0 [])"
proof -
  have keys: "keys_ok (sample_db 300 0 [])" by (rule sample_keys_ok) simp_all
  note C = createJournalEntry_correct [OF keys sample_entry_facts(2,3), of 5, unfolded if_P [OF sample_entry_facts(1)] sample_fresh]
  obtain d' where "createJournalEntry 5 sample_entry (sample_db 300 0 []) = Inr (''xxx'', d')"
    and a: "\<And>k. get_account d' k = map_option (la_balance_update (\<lambda>b. b + effect_on k (ed_lines sample_entry)))
        (get_account (sample_db 300 0 []) k)"
    and "trial_balance d' = trial_balance (sample_db 300 0 [])"
    using C by blast
  moreover have "map_option la_balance (get_account d' ''wa'') = Some 230"
    "map_option la_balance (get_account d' ''c'') = Some (- 1730)"
    unfolding a by (simp_all add: sample_account_def sample_entry_facts)
  ultimately show ?thesis by blast
qed

section \<open>Reversal\<close>

lemma post_lines_accounts:
  "post_lines e ls d = Inr d' \<Longrightarrow> l \<in> set ls \<Longrightarrow> get_account d (jl_account l) \<noteq> None"
proof (induction e ls d rule: post_lines.induct)
  case (2 e l' ls d)
  then obtain a where a: "get_account d (jl_account l') = Some a" by (auto simp: result_simps)
  show ?case
  proof (cases "l = l'")
    case False
    with 2 a have "get_account (upd_account (jl_account l')
        (\<lambda>r. r\<lparr>la_balance := la_balance a + balance_change l'\<rparr>)
        (upd_entry e (\<lambda>r. r\<lparr>je_lines := je_lines r @ [l']\<rparr>) d)) (jl_account l) \<noteq> None" by simp
    then show ?thesis by (cases "get_account d (jl_account l)"; cases "jl_account l = jl_account l'") (simp_all add: table_simps)
  qed (simp add: a)
qed simp

lemma posted_accounts:
  "createJournalEntry now x d = Inr (i, d') \<Longrightarrow> l \<in> set (ed_lines x) \<Longrightarrow> get_account d (jl_account l) \<noteq> None"
  using post_lines_accounts [OF createJournalEntry_InrD(4)] by simp

text \<open>C35: A reversal undoes its entry. Reversing an entry that was just posted succeeds and leaves every
  account with the balance it had before the posting; the entry is marked, and a second reversal
  is refused without any write.\<close>

theorem reverseJournalEntry_undoes:
  assumes "createJournalEntry now x d = Inr (i, d1)" and "keys_ok d"
  shows "\<exists>d2 r. reverseJournalEntry later i reason by_user d1 = (d2, Inr r)
    \<and> (\<forall>k. map_option la_balance (get_account d2 k) = map_option la_balance (get_account d k))
    \<and> reverseJournalEntry latest i again other d2 = (d2, Inl (BadRequest (STR ''Journal entry is already reversed'')))"
proof -
  note P = posting [OF assms]
  let ?e = "new_entry now i x\<lparr>je_lines := ed_lines x\<rparr>"
  have new: "lookup_by je_id i (entries d) = None"
    using assms(2) P(1) by (auto simp: keys_ok_def lookup_by_None dest: fresh_id_unused)
  have e: "lookup_by je_id i (entries d1) = Some ?e"
    using new by (simp add: P(5) table_simps new_entry_def)
  let ?x = "reversal_data ?e reason by_user"
  have bal: "debits (ed_lines ?x) = credits (ed_lines ?x)"
    using createJournalEntry_InrD(2) [OF assms(1)] by (simp add: reversal_data_def debits_flip credits_flip)
  have acc: "get_account d1 (jl_account l) \<noteq> None" if "l \<in> set (ed_lines ?x)" for l
  proof -
    from that obtain l' where "l' \<in> set (ed_lines x)" and "l = flip_line l'"
      by (auto simp: reversal_data_def)
    then have "get_account d (jl_account l) \<noteq> None"
      using posted_accounts [OF assms(1)] by (simp add: flip_line_def)
    then show ?thesis unfolding P(7) by simp
  qed
  have "\<not> entry_link_taken ?x d1" by (simp add: entry_link_taken_def reversal_data_def)
  from createJournalEntry_defined [OF bal this acc]
  obtain d' where d': "createJournalEntry later ?x d1 = Inr (fresh_id d1, d')" by blast
  define d2 where "d2 = upd_entry i (\<lambda>e. e\<lparr>je_status := REVERSED\<rparr>) d'"
  have "je_status ?e \<noteq> REVERSED" by (simp add: new_entry_def)
  with d' have r: "reverseJournalEntry later i reason by_user d1 = (d2, Inr (fresh_id d1))"
    by (simp add: reverseJournalEntry_def e transaction_def d2_def)
  moreover have "map_option la_balance (get_account d2 k) = map_option la_balance (get_account d k)" for k
  proof -
    have "fresh_for d1 (map je_id (entries d1))" using P(10) by (simp add: keys_ok_def)
    from reverseJournalEntry_accounts [OF r this e, of k] show ?thesis
      unfolding P(7) by (cases "get_account d k") simp_all
  qed
  moreover have "lookup_by je_id i (entries d2) = Some (?e\<lparr>je_status := REVERSED\<rparr>)"
    using e posting(5) [OF d' P(10)] by (simp add: d2_def table_simps)
  then have "reverseJournalEntry latest i again other d2 =
      (d2, Inl (BadRequest (STR ''Journal entry is already reversed'')))"
    by (simp add: reverseJournalEntry_def)
  ultimately show ?thesis by blast
qed

theorem reverseJournalEntry_undoes_witness:
  "\<exists>d1 d2 r. createJournalEntry 5 sample_entry (sample_db 300 0 []) = Inr (''xxx'', d1)
     \<and> reverseJournalEntry 6 ''xxx'' ''why'' None d1 = (d2, Inr r)
     \<and> map_option la_balance (get_account d2 ''wa'') = Some 300"
proof -
  have keys: "keys_ok (sample_db 300 0 [])" by (rule sample_keys_ok) simp_all
  obtain d1 where d1: "createJournalEntry 5 sample_entry (sample_db 300 0 []) = Inr (''xxx'', d1)"
    using createJournalEntry_defined [OF sample_entry_facts(1-3)] sample_fresh by metis
  from reverseJournalEntry_undoes [OF d1 keys, of 6 "''why''" None 7 "''x''" None]
  obtain d2 r where d2: "reverseJournalEntry 6 ''xxx'' ''why'' None d1 = (d2, Inr r)"
    and "map_option la_balance (get_account d2 ''wa'') = map_option la_balance (get_account (sample_db 300 0 []) ''wa'')"
    by blast
  then have "map_option la_balance (get_account d2 ''wa'') = Some 300" by (simp add: sample_account_def)
  with d1 d2 show ?thesis by blast
qed

section \<open>Reconciliation\<close>

text \<open>The reconciliation report is exact. It counts the posted entries of the period, lists exactly
  the accounts that one of their lines touches, each with the difference between its stored
  balance and the sum of those lines, and its overall verdict is true exactly when every such
  account agrees; so it is true whenever the journal explains the balances and the period covers
  every posted entry.\<close>

lemma reconcileAccounts_exact:
  assumes "reconcileAccounts s t d = (n, report, ok)"
  shows "n = length (entries_between s t (entries d))
    \<and> map (\<lambda>r. (rc_account r, rc_current r)) report =
        map (\<lambda>a. (la_id a, la_balance a)) (filter (\<lambda>a. line_on (la_id a) (entries_between s t (entries d))) (accounts d))
    \<and> (\<forall>r\<in>set report. rc_difference r = rc_current r - entries_effect (rc_account r) (entries_between s t (entries d)))
    \<and> ok = (\<forall>r\<in>set report. rc_difference r = 0)
    \<and> (journal_explains d \<and> distinct (map la_id (accounts d)) \<and>
        (\<forall>e\<in>set (entries d). s \<le> je_date e \<and> je_date e \<le> t) \<longrightarrow> ok)"
proof -
  define es where "es = entries_between s t (entries d)"
  define row :: "ledger_account \<Rightarrow> reconciled" where "row = (\<lambda>a. let c = (case account_balances es (la_id a) of None \<Rightarrow> 0 | Some b \<Rightarrow> b)
               in \<lparr>rc_account = la_id a, rc_current = la_balance a, rc_calculated = c,
                   rc_difference = la_balance a - c, rc_ok = (la_balance a = c)\<rparr>)"
  define as where "as = filter (\<lambda>a. account_balances es (la_id a) \<noteq> None) (accounts d)"
  from assms have n: "n = length es" and report: "report = map row as" and ok: "ok = list_all rc_ok report"
    by (auto simp: reconcileAccounts_def Let_def es_def row_def as_def)
  have as: "as = filter (\<lambda>a. line_on (la_id a) es) (accounts d)"
    by (simp add: as_def account_balances_eq)
  have r: "row a = \<lparr>rc_account = la_id a, rc_current = la_balance a, rc_calculated = entries_effect (la_id a) es,
      rc_difference = la_balance a - entries_effect (la_id a) es, rc_ok = (la_balance a = entries_effect (la_id a) es)\<rparr>"
    if "a \<in> set as" for a
    using that by (simp add: row_def as account_balances_eq Let_def)
  have ok0: "ok = (\<forall>r\<in>set report. rc_difference r = 0)"
    unfolding ok list_all_iff report by (simp add: r)
  have "ok" if ex: "journal_explains d" and dist: "distinct (map la_id (accounts d))"
    and all: "\<forall>e\<in>set (entries d). s \<le> je_date e \<and> je_date e \<le> t"
  proof -
    have es': "es = filter (\<lambda>e. je_status e = POSTED) (entries d)"
      unfolding es_def entries_between_def using all by (intro filter_cong) auto
    have "la_balance a = entries_effect (la_id a) es" if "a \<in> set (accounts d)" for a
      using ex lookup_by_distinct [OF dist that] unfolding journal_explains_def posted_effect_def es' by blast
    then show ?thesis unfolding ok0 report by (simp add: r) (simp add: as)
  qed
  moreover have "map (\<lambda>r. (rc_account r, rc_current r)) report =
      map (\<lambda>a. (la_id a, la_balance a)) (filter (\<lambda>a. line_on (la_id a) es) (accounts d))"
    unfolding as [symmetric] report by (simp add: r)
  moreover have "\<forall>r\<in>set report. rc_difference r = rc_current r - entries_effect (rc_account r) es"
    unfolding report by (simp add: r)
  ultimately show ?thesis unfolding es_def [symmetric] n using ok0 by blast
qed

definition sample_journal :: db where
  "sample_journal = (sample_db 300 0 [])\<lparr>entries :=
     [new_entry 5 ''e'' sample_entry\<lparr>je_lines := ed_lines sample_entry\<rparr>]\<rparr>"

lemma reconcileAccounts_exact_example:
  "\<exists>report. reconcileAccounts 0 9 sample_journal = (1, report, False)
     \<and> map (\<lambda>r. (rc_account r, rc_current r)) report = [(''wa'', 300), (''c'', - 1800)]"
proof -
  obtain n report ok where r: "reconcileAccounts 0 9 sample_journal = (n, report, ok)"
    by (cases "reconcileAccounts 0 9 sample_journal")
  have es: "entries_between 0 9 (entries sample_journal) = [new_entry 5 ''e'' sample_entry\<lparr>je_lines := ed_lines sample_entry\<rparr>]"
    by (simp add: sample_journal_def entries_between_def new_entry_def)
  note R = reconcileAccounts_exact [OF r, unfolded es]
  have rows: "map (\<lambda>r. (rc_account r, rc_current r)) report = [(''wa'', 300), (''c'', - 1800)]"
    using R by (simp add: line_on_def sample_entry_def sample_journal_def sample_db_def sample_account_def new_entry_def)
  then obtain x xs where x: "report = x # xs" "rc_account x = ''wa''" "rc_current x = 300" by (cases report) auto
  with R have "rc_difference x = 370"
    by (simp add: entries_effect_def new_entry_def sample_entry_def balance_change_def)
  with x R have "ok = False" and "n = 1" by auto
  with r rows show ?thesis by simp
qed

text \<open>Reversal and reconciliation disagree. The reversal of an entry marks the original as reversed but
  is itself posted, so the journal that reconciliation sums no longer explains the balances: each
  account's stored balance exceeds the sum of its posted lines by what the original entry had
  added to it.\<close>

lemma reverseJournalEntry_unreconciled:
  assumes "reverseJournalEntry now i reason by_user d = (d', Inr r)" and "keys_ok d"
    and "lookup_by je_id i (entries d) = Some e" and "je_status e = POSTED" and "journal_explains d"
    and "get_account d k = Some a"
  shows "map_option la_balance (get_account d' k) = Some (posted_effect d' k + effect_on k (je_lines e))"
proof -
  obtain d1 where d1: "createJournalEntry now (reversal_data e reason by_user) d = Inr (r, d1)"
    and d': "d' = upd_entry i (\<lambda>e. e\<lparr>je_status := REVERSED\<rparr>) d1"
    using assms(1,3,4) by (auto simp: reverseJournalEntry_def transaction_def split: if_splits sum.splits)
  note P = posting [OF d1 assms(2)]
  define g :: "journal_entry \<Rightarrow> int" where "g = (\<lambda>e. if je_status e = POSTED then effect_on k (je_lines e) else 0)"
  have sum: "posted_effect b k = sum_list (map g (entries b))" for b
  proof -
    have "entries_effect k (filter (\<lambda>e. je_status e = POSTED) es) = sum_list (map g es)" for es
      by (induction es) (simp_all add: entries_effect_def g_def)
    then show ?thesis by (simp add: posted_effect_def)
  qed
  have "lookup_by je_id i (entries d1) = Some e" by (simp add: P(5) table_simps assms(3))
  moreover have "distinct (map je_id (entries d1))" using P(10) by (simp add: keys_ok_def)
  ultimately have "posted_effect d' k = posted_effect d1 k + (g (e\<lparr>je_status := REVERSED\<rparr>) - g e)"
    unfolding sum d' by (simp add: sum_update_by)
  also have "g (e\<lparr>je_status := REVERSED\<rparr>) - g e = - effect_on k (je_lines e)" by (simp add: g_def assms(4))
  also have "posted_effect d1 k = posted_effect d k - effect_on k (je_lines e)"
    unfolding sum P(5) by (simp add: g_def new_entry_def reversal_data_def effect_on_flip)
  finally have "posted_effect d' k = posted_effect d k - 2 * effect_on k (je_lines e)" by simp
  moreover have "la_balance a = posted_effect d k" using assms(5,6) unfolding journal_explains_def by blast
  moreover have "map_option la_balance (get_account d' k) = Some (la_balance a - effect_on k (je_lines e))"
    using reverseJournalEntry_accounts [OF assms(1) _ assms(3), of k] assms(2,6) by (simp add: keys_ok_def)
  ultimately show ?thesis by simp
qed

definition sample_explained :: db where
  "sample_explained = sample_journal\<lparr>accounts :=
     [sample_account ''wa'' ''WALLET-USER-w'' (Some ''w'') (- 70), sample_account ''c'' ''1100'' None 70]\<rparr>"

lemma reverseJournalEntry_unreconciled_example:
  "\<exists>d' r. reverseJournalEntry 6 ''e'' ''why'' None sample_explained = (d', Inr r)
     \<and> map_option la_balance (get_account d' ''wa'') = Some (posted_effect d' ''wa'' - 70)"
proof -
  let ?e = "new_entry 5 ''e'' sample_entry\<lparr>je_lines := ed_lines sample_entry\<rparr>"
  have keys: "keys_ok sample_explained"
    by (simp add: keys_ok_def fresh_for_def sample_explained_def sample_journal_def sample_db_def
        sample_account_def sample_wallet_def new_entry_def sample_ids_inj)
  have e: "lookup_by je_id ''e'' (entries sample_explained) = Some ?e"
    by (simp add: sample_explained_def sample_journal_def lookup_by_Cons new_entry_def)
  have acc: "get_account sample_explained k = (if k = ''wa'' then Some (sample_account ''wa'' ''WALLET-USER-w'' (Some ''w'') (- 70))
      else if k = ''c'' then Some (sample_account ''c'' ''1100'' None 70) else None)" for k
    by (simp add: sample_explained_def lookup_by_Cons lookup_by_Nil sample_account_def)
  have pe: "posted_effect sample_explained k = effect_on k (ed_lines sample_entry)" for k
    by (simp add: posted_effect_def sample_explained_def sample_journal_def entries_effect_def new_entry_def)
  have ex: "journal_explains sample_explained"
    by (simp add: journal_explains_def acc pe sample_account_def sample_entry_def balance_change_def)
  let ?x = "reversal_data ?e ''why'' None"
  have "\<exists>d1. createJournalEntry 6 ?x sample_explained = Inr (fresh_id sample_explained, d1)"
    by (rule createJournalEntry_defined)
      (auto simp: acc reversal_data_def sample_entry_def flip_line_def debits_def credits_def entry_link_taken_def)
  then obtain d1 where d1: "createJournalEntry 6 ?x sample_explained = Inr (fresh_id sample_explained, d1)" by blast
  have st: "je_status ?e = POSTED" by (simp add: new_entry_def)
  obtain d' r where r: "reverseJournalEntry 6 ''e'' ''why'' None sample_explained = (d', Inr r)"
    using d1 st by (simp add: reverseJournalEntry_def e transaction_def)
  have "get_account sample_explained ''wa'' = Some (sample_account ''wa'' ''WALLET-USER-w'' (Some ''w'') (- 70))"
    by (simp add: acc)
  from reverseJournalEntry_unreconciled [OF r keys e st ex this]
  have "map_option la_balance (get_account d' ''wa'') = Some (posted_effect d' ''wa'' + - 70)"
    by (simp add: new_entry_def sample_entry_def balance_change_def)
  with r show ?thesis by auto
qed

section \<open>Charges\<close>

text \<open>The percentage fee is within one kobo of the exact percentage.\<close>

lemma percentage_fee_error:
  assumes "0 \<le> amount" and "amount \<le> 2 ^ 50" and "0 \<le> pct" and "pct \<le> 100"
  shows "\<bar>of_int (percentage_fee pct amount) - of_int amount * pct / 100\<bar> < 1"
proof -
  define p where "p = pct / 100"
  define q where "q = dbl p"
  define a :: rat where "a = of_int amount"
  have a: "0 \<le> a" "a \<le> 2 ^ 50"
  proof -
    have "(of_int amount :: rat) \<le> of_int (2 ^ 50)" using assms(2) by (simp only: of_int_le_iff)
    then show "a \<le> 2 ^ 50" by (simp add: a_def)
  qed (use assms(1) in \<open>simp add: a_def\<close>)
  have p: "0 \<le> p" "p \<le> 1" using assms(3,4) by (simp_all add: p_def)
  have eq: "\<bar>q - p\<bar> \<le> p / 2 ^ 53" using dbl_error [of p] p by (simp add: q_def)
  have q: "0 \<le> q" "q \<le> 2"
    using dbl_nonneg [OF p(1)] eq p by (simp_all add: q_def abs_if split: if_splits)
  have "\<bar>a * q - a * p\<bar> = a * \<bar>q - p\<bar>" using a by (simp add: abs_mult flip: right_diff_distrib)
  also have "\<dots> \<le> 2 ^ 50 * (1 / 2 ^ 53)"
    using a eq p by (intro mult_mono) (auto intro: order_trans)
  finally have e1: "\<bar>a * q - a * p\<bar> \<le> 1 / 8" by simp
  have "a * q \<le> 2 ^ 50 * 2" using a q by (intro mult_mono) auto
  moreover have "0 \<le> a * q" using a q by simp
  ultimately have e2: "\<bar>dbl (a * q) - a * q\<bar> \<le> 1 / 4" using dbl_error [of "a * q"] by simp
  have e3: "\<bar>of_int (js_round (dbl (a * q))) - dbl (a * q)\<bar> \<le> 1 / 2" by (rule js_round_error)
  have "percentage_fee pct amount = js_round (dbl (a * q))"
    by (simp add: percentage_fee_def a_def q_def p_def)
  moreover have "of_int amount * pct / 100 = a * p" by (simp add: a_def p_def)
  ultimately show ?thesis using e1 e2 e3 by linarith
qed

lemma percentage_fee_mono:
  assumes "0 \<le> pct" and "0 \<le> x" and "x \<le> y"
  shows "percentage_fee pct x \<le> percentage_fee pct y" and "0 \<le> percentage_fee pct x"
proof -
  have q: "0 \<le> dbl (pct / 100)" using assms(1) by (intro dbl_nonneg) simp
  have "of_int x * dbl (pct / 100) \<le> of_int y * dbl (pct / 100)"
    using assms q by (intro mult_right_mono) simp_all
  with assms q show "percentage_fee pct x \<le> percentage_fee pct y"
    unfolding percentage_fee_def by (intro js_round_mono dbl_mono) simp_all
  show "0 \<le> percentage_fee pct x"
    unfolding percentage_fee_def using assms q by (intro js_round_nonneg dbl_nonneg) simp
qed

lemma vat_750: "js_round (dbl (10000 * dbl (3 / 40))) = 750"
proof (rule js_round_nearest)
  define q where "q = dbl (3 / 40)"
  have "\<bar>q - 3 / 40\<bar> \<le> 3 / 40 / 2 ^ 53" using dbl_error [of "3 / 40"] by (simp add: q_def)
  then have q: "\<bar>10000 * q - 750\<bar> \<le> 1 / 8" by (simp add: abs_if split: if_splits)
  then have "\<bar>10000 * q\<bar> / 2 ^ 53 \<le> 1 / 8" by (simp add: abs_if split: if_splits)
  with dbl_error [of "10000 * q"] have "\<bar>dbl (10000 * q) - 10000 * q\<bar> \<le> 1 / 8" by linarith
  with q have "\<bar>dbl (10000 * q) - 750\<bar> < 1 / 2" by linarith
  then show "\<bar>dbl (10000 * dbl (3 / 40)) - of_int 750\<bar> < 1 / 2" by (simp add: q_def)
qed

text \<open>With the deployed rates a payment of up to \<open>2 ^ 50\<close> kobo is charged a platform fee of 100 naira,
  a VAT of 7.50 naira on that fee, and a gateway fee within one kobo of 1.5 percent; the payer
  pays the amount plus the three, and the receiver gets the amount. The double-precision
  arithmetic and \<open>Math.round\<close> never lose more than that kobo.\<close>

lemma calculatePaymentCharges_deployed:
  assumes "0 \<le> amount" and "amount \<le> 2 ^ 50"
  shows "ch_platform_fee (calculatePaymentCharges default_ledger_config amount) = 10000
    \<and> ch_vat (calculatePaymentCharges default_ledger_config amount) = 750
    \<and> \<bar>of_int (ch_gateway_fee (calculatePaymentCharges default_ledger_config amount)) - (of_int amount * 3 / 200 :: rat)\<bar> < 1
    \<and> ch_total_amount (calculatePaymentCharges default_ledger_config amount) =
        amount + 10750 + ch_gateway_fee (calculatePaymentCharges default_ledger_config amount)
    \<and> ch_net (calculatePaymentCharges default_ledger_config amount) = amount"
  using percentage_fee_error [OF assms, of "3 / 2"]
  by (simp add: calculatePaymentCharges_def default_ledger_config_def Let_def vat_750)

lemma calculatePaymentCharges_deployed_example:
  "ch_total_amount (calculatePaymentCharges default_ledger_config 100000) =
     110750 + ch_gateway_fee (calculatePaymentCharges default_ledger_config 100000)"
  using calculatePaymentCharges_deployed [of 100000] by simp

end
