(* ===== verification/BankAccounts.thy ===== *)
theory BankAccounts
  imports Prelude FinanceDb Samples
begin

text \<open>
  \<open>BankAccountService\<close> (\<open>src/v1/finance/bank-account.service.ts\<close>): the payout accounts of a
  user, soft-deleted rather than removed, one of them the default. The provider's answer to an
  account lookup is an argument.

  The lemmas: a user never has two default accounts; adding an account, choosing the default and
  deleting an account leave a user who has an account with a default one; changed payout details
  drop the approved destination; an update can fail after the defaults have been cleared.
\<close>

section \<open>Resolving an account\<close>

text \<open>
  One of the three nested objects of the provider's response, in the order they are tried. An
  empty string is falsy and stands for a missing member.
\<close>

record candidate =
  cd_name :: "string option"
  cd_number :: "string option"
  cd_code :: "string option"
  cd_bank :: "string option"
  cd_refused :: bool
  cd_error :: "String.literal option"

record resolved_account =
  ra_number :: string
  ra_name :: string
  ra_code :: string
  ra_bank :: "string option"

definition resolveBankAccount :: "candidate list \<Rightarrow> string \<Rightarrow> string \<Rightarrow> resolved_account result" where
  "resolveBankAccount candidates bankCode accountNumber =
     (let resolved = find (\<lambda>c. cd_name c \<noteq> None) candidates;
          providerRejected = list_ex cd_refused candidates
      in case (resolved, providerRejected) of
           (Some c, False) \<Rightarrow>
             Inr \<lparr>ra_number = (case cd_number c of Some n \<Rightarrow> n | None \<Rightarrow> accountNumber),
                  ra_name = the (cd_name c),
                  ra_code = (case cd_code c of Some b \<Rightarrow> b | None \<Rightarrow> bankCode),
                  ra_bank = cd_bank c\<rparr>
         | _ \<Rightarrow> Inl (BadRequest
             (case find (\<lambda>c. cd_error c \<noteq> None) candidates of
                Some c \<Rightarrow> the (cd_error c)
              | None \<Rightarrow> STR ''Bank account could not be verified'')))"

section \<open>The accounts of a user\<close>

abbreviation get_bank :: "db \<Rightarrow> ident \<Rightarrow> bank_account option" where
  "get_bank d k \<equiv> lookup_by ba_id k (banks d)"

definition live_default :: "ident \<Rightarrow> bank_account \<Rightarrow> bool" where
  "live_default u b \<longleftrightarrow> ba_user b = u \<and> ba_default b \<and> ba_deleted b = None"

definition clear_defaults :: "ident \<Rightarrow> (bank_account \<Rightarrow> bool) \<Rightarrow> db \<Rightarrow> db" where
  "clear_defaults u P d =
     d\<lparr>banks := update_where (\<lambda>b. live_default u b \<and> P b) (\<lambda>b. b\<lparr>ba_default := False\<rparr>) (banks d)\<rparr>"

definition upd_bank :: "ident \<Rightarrow> (bank_account \<Rightarrow> bank_account) \<Rightarrow> db \<Rightarrow> db" where
  "upd_bank k f d = d\<lparr>banks := update_by ba_id k f (banks d)\<rparr>"

record create_bank_dto =
  cb_bank_name :: string
  cb_number :: string
  cb_code :: string
  cb_default :: bool

text \<open>
  The writes of \<open>createBankAccount\<close>: when the account becomes the default the others of the user
  are cleared; a soft-deleted row of the same account is revived, without its destination.
\<close>

definition store_bank_account ::
    "ident \<Rightarrow> create_bank_dto \<Rightarrow> string \<Rightarrow> bank_account option \<Rightarrow> bool \<Rightarrow> db \<Rightarrow> db \<times> ident" where
  "store_bank_account userId dto bankName existing isDefault d =
     (let d1 = (if isDefault then clear_defaults userId (\<lambda>_. True) d else d)
      in case existing of
           Some b \<Rightarrow>
             (upd_bank (ba_id b) (\<lambda>b. b\<lparr>ba_bank_name := bankName, ba_number := cb_number dto,
                ba_code := Some (cb_code dto), ba_default := isDefault, ba_deleted := None,
                ba_destination := None, ba_destination_status := None\<rparr>) d1, ba_id b)
         | None \<Rightarrow>
             (d1\<lparr>banks := banks d1 @
                [\<lparr>ba_id = fresh_id d1, ba_user = userId, ba_bank_name = bankName, ba_number = cb_number dto,
                  ba_code = Some (cb_code dto), ba_default = isDefault, ba_destination = None,
                  ba_destination_status = None, ba_deleted = None\<rparr>],
                seq := Suc (seq d1)\<rparr>, fresh_id d1))"

definition createBankAccount :: "candidate list \<Rightarrow> ident \<Rightarrow> create_bank_dto \<Rightarrow> db \<Rightarrow> db \<times> ident result" where
  "createBankAccount candidates userId dto d =
     (case resolveBankAccount candidates (cb_code dto) (cb_number dto) of
        Inl e \<Rightarrow> (d, Inl e)
      | Inr verified \<Rightarrow>
          let bankName = (case ra_bank verified of Some n \<Rightarrow> n | None \<Rightarrow> cb_bank_name dto);
              existing = find (\<lambda>b. ba_user b = userId \<and> ba_number b = cb_number dto
                                 \<and> ba_bank_name b = bankName) (banks d);
              count = length (filter (\<lambda>b. ba_user b = userId \<and> ba_deleted b = None) (banks d))
          in if (case existing of Some b \<Rightarrow> ba_deleted b = None | None \<Rightarrow> False)
             then (d, Inl (Conflict (STR ''This bank account is already added'')))
             else (case store_bank_account userId dto bankName existing (cb_default dto \<or> count = 0) d of
                     (d', i) \<Rightarrow> (d', Inr i)))"

definition getBankAccountById :: "ident \<Rightarrow> ident \<Rightarrow> db \<Rightarrow> bank_account result" where
  "getBankAccountById i userId d =
     (case find (\<lambda>b. ba_id b = i \<and> ba_deleted b = None) (banks d) of
        None \<Rightarrow> Inl (NotFound (STR ''Bank account not found''))
      | Some b \<Rightarrow>
          if ba_user b \<noteq> userId then Inl (BadRequest (STR ''You do not have access to this bank account''))
          else Inr b)"

text \<open>A member that the request body omits is \<open>None\<close> and leaves its column as it is.\<close>

record update_bank_dto =
  ub_bank_name :: "string option"
  ub_number :: "string option"
  ub_code :: "string option"
  ub_default :: "bool option"

definition or_else :: "'a option \<Rightarrow> 'a \<Rightarrow> 'a" where
  "or_else x y = (case x of Some v \<Rightarrow> v | None \<Rightarrow> y)"

definition payout_details_changed :: "update_bank_dto \<Rightarrow> bank_account \<Rightarrow> bool" where
  "payout_details_changed dto b \<longleftrightarrow>
     (ub_bank_name dto \<noteq> None \<and> ub_bank_name dto \<noteq> Some (ba_bank_name b)) \<or>
     (ub_number dto \<noteq> None \<and> ub_number dto \<noteq> Some (ba_number b)) \<or>
     (ub_code dto \<noteq> None \<and> ub_code dto \<noteq> ba_code b)"

text \<open>The user, number and bank name of an account are unique together (error P2002).\<close>

definition bank_name_taken :: "ident \<Rightarrow> ident \<Rightarrow> string \<Rightarrow> string \<Rightarrow> db \<Rightarrow> bool" where
  "bank_name_taken i userId number name d \<longleftrightarrow>
     list_ex (\<lambda>b. ba_id b \<noteq> i \<and> ba_user b = userId \<and> ba_number b = number \<and> ba_bank_name b = name) (banks d)"

definition updateBankAccount :: "ident \<Rightarrow> ident \<Rightarrow> update_bank_dto \<Rightarrow> db \<Rightarrow> db \<times> unit result" where
  "updateBankAccount i userId dto d =
     (case getBankAccountById i userId d of
        Inl e \<Rightarrow> (d, Inl e)
      | Inr b \<Rightarrow>
          let d1 = (if ub_default dto = Some True then clear_defaults userId (\<lambda>b. ba_id b \<noteq> i) d else d);
              name = or_else (ub_bank_name dto) (ba_bank_name b);
              number = or_else (ub_number dto) (ba_number b)
          in if bank_name_taken i userId number name d1 then (d1, Inl (Internal (STR ''P2002'')))
             else
               let d2 = upd_bank i (\<lambda>b. b\<lparr>ba_bank_name := name, ba_number := number,
                          ba_code := (case ub_code dto of None \<Rightarrow> ba_code b | c \<Rightarrow> c),
                          ba_default := or_else (ub_default dto) (ba_default b)\<rparr>) d1;
                   d3 = (if payout_details_changed dto b
                         then upd_bank i (\<lambda>b. b\<lparr>ba_destination := None, ba_destination_status := None\<rparr>) d2
                         else d2)
               in (d3, Inr ()))"

definition deleteBankAccount :: "nat \<Rightarrow> ident \<Rightarrow> ident \<Rightarrow> db \<Rightarrow> db \<times> unit result" where
  "deleteBankAccount now i userId d =
     (case getBankAccountById i userId d of
        Inl e \<Rightarrow> (d, Inl e)
      | Inr b \<Rightarrow>
          let d1 = (if ba_default b
                    then (case find (\<lambda>b. ba_user b = userId \<and> ba_deleted b = None \<and> ba_id b \<noteq> i) (banks d) of
                            None \<Rightarrow> d
                          | Some next_account \<Rightarrow> upd_bank (ba_id next_account) (\<lambda>b. b\<lparr>ba_default := True\<rparr>) d)
                    else d);
              d2 = upd_bank i (\<lambda>b. b\<lparr>ba_default := False, ba_deleted := Some now\<rparr>) d1
          in (log_activity (Some userId) (STR ''BANK_ACCOUNT_DELETED'') d2, Inr ()))"

definition setDefaultBankAccount :: "ident \<Rightarrow> ident \<Rightarrow> db \<Rightarrow> db \<times> unit result" where
  "setDefaultBankAccount i userId d =
     (case getBankAccountById i userId d of
        Inl e \<Rightarrow> (d, Inl e)
      | Inr b \<Rightarrow>
          (upd_bank i (\<lambda>b. b\<lparr>ba_default := True\<rparr>) (clear_defaults userId (\<lambda>b. ba_id b \<noteq> i) d), Inr ()))"

section \<open>One default account\<close>

definition banks_ok :: "db \<Rightarrow> bool" where
  "banks_ok d \<longleftrightarrow> inj (idgen d) \<and> distinct (map ba_id (banks d)) \<and> fresh_for d (map ba_id (banks d)) \<and>
     (\<forall>u. \<forall>a\<in>set (banks d). \<forall>b\<in>set (banks d). live_default u a \<longrightarrow> live_default u b \<longrightarrow> ba_id a = ba_id b)"

definition has_default :: "db \<Rightarrow> ident \<Rightarrow> bool" where
  "has_default d u \<longleftrightarrow>
     (\<forall>a\<in>set (banks d). ba_user a = u \<longrightarrow> ba_deleted a = None \<longrightarrow> (\<exists>b\<in>set (banks d). live_default u b))"

lemma set_update_where: "set (update_where P f t) = (\<lambda>r. if P r then f r else r) ` set t"
  by (simp add: update_where_def)

lemma map_key_update_where: "(\<And>r. key (f r) = key r) \<Longrightarrow> map key (update_where P f t) = map key t"
  by (auto simp: update_where_def)

lemmas bank_frames = clear_defaults_def upd_bank_def map_key_update_where map_key_update_by log_activity_def

lemma clear_defaults_frame [simp]:
  "idgen (clear_defaults u P d) = idgen d" "seq (clear_defaults u P d) = seq d"
  "map ba_id (banks (clear_defaults u P d)) = map ba_id (banks d)"
  by (simp_all add: bank_frames)

lemma upd_bank_frame [simp]:
  "idgen (upd_bank k f d) = idgen d" "seq (upd_bank k f d) = seq d"
  "(\<And>b. ba_id (f b) = ba_id b) \<Longrightarrow> map ba_id (banks (upd_bank k f d)) = map ba_id (banks d)"
  by (simp_all add: bank_frames)

lemma log_activity_banks [simp]:
  "idgen (log_activity u a d) = idgen d" "seq (log_activity u a d) = seq d"
  "banks (log_activity u a d) = banks d"
  by (simp_all add: log_activity_def)

text \<open>
  After a write the defaults of a user are unique if they were defaults before, or if they are
  all the same account.
\<close>

lemma banks_ok_step:
  assumes "banks_ok d" and "idgen d' = idgen d" and "seq d' = seq d"
    and "map ba_id (banks d') = map ba_id (banks d)"
    and u: "\<And>u. (\<exists>k. \<forall>a\<in>set (banks d'). live_default u a \<longrightarrow> ba_id a = k) \<or>
      (\<forall>a\<in>set (banks d'). live_default u a \<longrightarrow> (\<exists>b\<in>set (banks d). live_default u b \<and> ba_id b = ba_id a))"
  shows "banks_ok d'"
proof -
  have "fresh_for d' (map ba_id (banks d'))"
    using assms(1) fresh_for_mono [OF _ assms(2)] by (simp add: banks_ok_def assms(3,4))
  moreover have "ba_id a = ba_id b"
    if "a \<in> set (banks d')" "b \<in> set (banks d')" "live_default v a" "live_default v b" for v a b
    using u [of v]
  proof
    assume "\<exists>k. \<forall>a\<in>set (banks d'). live_default v a \<longrightarrow> ba_id a = k"
    with that show ?thesis by metis
  next
    assume "\<forall>a\<in>set (banks d'). live_default v a \<longrightarrow> (\<exists>b\<in>set (banks d). live_default v b \<and> ba_id b = ba_id a)"
    with that assms(1) show ?thesis unfolding banks_ok_def by metis
  qed
  ultimately show ?thesis
    using assms(1) unfolding banks_ok_def assms(2,4) by blast
qed

text \<open>Clearing the defaults of a user, all of them or all but one account.\<close>

lemma clear_defaults_mem:
  assumes "a \<in> set (banks (clear_defaults u P d))" and "live_default v a"
  shows "a \<in> set (banks d) \<and> \<not> (u = v \<and> P a)"
proof -
  from assms(1)
  have "a \<in> (\<lambda>s. if live_default u s \<and> P s then s\<lparr>ba_default := False\<rparr> else s) ` set (banks d)"
    by (simp add: clear_defaults_def set_update_where)
  then obtain s where s: "s \<in> set (banks d)"
    and a: "a = (if live_default u s \<and> P s then s\<lparr>ba_default := False\<rparr> else s)"
    by (rule imageE)
  with assms(2) have "\<not> (live_default u s \<and> P s)" by (cases "live_default u s \<and> P s") (simp_all add: live_default_def)
  with a have "a = s" and "\<not> (live_default u a \<and> P a)" by auto
  with s assms(2) show ?thesis by (simp add: live_default_def)
qed

lemma clear_defaults_ok: "banks_ok d \<Longrightarrow> banks_ok (clear_defaults u P d)"
  by (rule banks_ok_step [of d]) (simp, simp, simp, simp, blast dest: clear_defaults_mem)

text \<open>A write to one account that only it can make the default.\<close>

lemma upd_bank_mem:
  "a \<in> set (banks (upd_bank k f d)) \<Longrightarrow>
     (ba_id a \<noteq> k \<and> a \<in> set (banks d)) \<or> (\<exists>b\<in>set (banks d). ba_id b = k \<and> a = f b)"
  if "\<And>b. ba_id (f b) = ba_id b"
proof -
  assume "a \<in> set (banks (upd_bank k f d))"
  then obtain s where "s \<in> set (banks d)" and "a = (if ba_id s = k then f s else s)"
    unfolding upd_bank_def by (simp add: set_update_by) blast
  then show ?thesis by (cases "ba_id s = k") auto
qed

lemma upd_bank_ok:
  assumes "banks_ok d" and id: "\<And>b. ba_id (f b) = ba_id b" and user: "\<And>b. ba_user (f b) = ba_user b"
    and def: "\<And>b. b \<in> set (banks d) \<Longrightarrow> ba_id b = k \<Longrightarrow> live_default (ba_user b) (f b) \<Longrightarrow> live_default (ba_user b) b \<or>
      (\<forall>c\<in>set (banks d). live_default (ba_user b) c \<longrightarrow> ba_id c = k)"
  shows "banks_ok (upd_bank k f d)"
proof (rule banks_ok_step [OF assms(1)])
  fix u
  have mem: "(ba_id a \<noteq> k \<and> a \<in> set (banks d)) \<or> (\<exists>b\<in>set (banks d). ba_id b = k \<and> a = f b)"
    if "a \<in> set (banks (upd_bank k f d))" for a
    using upd_bank_mem [OF id that] .
  have one: "b = b'" if "b \<in> set (banks d)" "b' \<in> set (banks d)" "ba_id b = ba_id b'" for b b'
    using assms(1) that unfolding banks_ok_def by (metis lookup_by_distinct option.inject)
  show "(\<exists>j. \<forall>a\<in>set (banks (upd_bank k f d)). live_default u a \<longrightarrow> ba_id a = j) \<or>
      (\<forall>a\<in>set (banks (upd_bank k f d)). live_default u a \<longrightarrow> (\<exists>b\<in>set (banks d). live_default u b \<and> ba_id b = ba_id a))"
  proof (cases "\<exists>b\<in>set (banks d). ba_id b = k \<and> ba_user b = u \<and> live_default u (f b) \<and> \<not> live_default u b")
    case True
    then obtain b where b: "b \<in> set (banks d)" "ba_id b = k" "ba_user b = u" "live_default u (f b)" "\<not> live_default u b"
      by blast
    have "ba_id a = k" if "a \<in> set (banks (upd_bank k f d))" "live_default u a" for a
      using mem [OF that(1)] that(2) def [of b] b id by metis
    then have "\<forall>a\<in>set (banks (upd_bank k f d)). live_default u a \<longrightarrow> ba_id a = k" by blast
    then show ?thesis by blast
  next
    case False
    have "\<exists>b\<in>set (banks d). live_default u b \<and> ba_id b = ba_id a"
      if a: "a \<in> set (banks (upd_bank k f d))" "live_default u a" for a
      using mem [OF a(1)]
    proof
      assume "ba_id a \<noteq> k \<and> a \<in> set (banks d)"
      with a(2) show ?thesis by blast
    next
      assume "\<exists>b\<in>set (banks d). ba_id b = k \<and> a = f b"
      then obtain b where b: "b \<in> set (banks d)" "ba_id b = k" "a = f b" by blast
      with a(2) user have "ba_user b = u" by (simp add: live_default_def)
      with False b a(2) have "live_default u b" by blast
      with b id show ?thesis by auto
    qed
    then show ?thesis by blast
  qed
qed (simp_all add: id)

lemma getBankAccountById_InrD:
  assumes "getBankAccountById i u d = Inr b"
  shows "b \<in> set (banks d)" and "ba_id b = i" and "ba_user b = u" and "ba_deleted b = None"
proof -
  from assms have f: "find (\<lambda>b. ba_id b = i \<and> ba_deleted b = None) (banks d) = Some b" and u: "ba_user b = u"
    by (simp_all add: getBankAccountById_def split: option.splits if_splits)
  from f show "b \<in> set (banks d)" and "ba_id b = i" and "ba_deleted b = None"
    by (auto simp: find_Some_iff)
  from u show "ba_user b = u" .
qed

text \<open>Every operation keeps the default of a user unique.\<close>

lemma insert_bank_ok:
  assumes "banks_ok d" and "ba_id b = fresh_id d"
    and "ba_default b \<Longrightarrow> \<forall>a\<in>set (banks d). \<not> live_default (ba_user b) a"
  shows "banks_ok (d\<lparr>banks := banks d @ [b], seq := Suc (seq d)\<rparr>)"
proof -
  let ?d = "d\<lparr>banks := banks d @ [b], seq := Suc (seq d)\<rparr>"
  have i: "inj (idgen ?d)" using assms(1) by (simp add: banks_ok_def)
  have "fresh_for ?d (map ba_id (banks d))" "fresh_id d \<notin> set (map ba_id (banks d))"
    using assms(1) by (auto simp: banks_ok_def intro: fresh_for_mono [of d] dest: fresh_id_unused)
  then have "fresh_for ?d (map ba_id (banks ?d))" and "distinct (map ba_id (banks ?d))"
    using fresh_for_snoc [OF i, of "map ba_id (banks d)" "seq d"] assms(1,2)
    by (simp_all add: fresh_id_def banks_ok_def)
  moreover have "ba_id x = ba_id y"
    if "x \<in> set (banks ?d)" "y \<in> set (banks ?d)" "live_default u x" "live_default u y" for u x y
  proof -
    from that(1,2) have "x = b \<or> x \<in> set (banks d)" "y = b \<or> y \<in> set (banks d)" by simp_all
    moreover have "ba_default x" "ba_user x = u" "ba_default y" "ba_user y = u"
      using that(3,4) by (simp_all add: live_default_def)
    ultimately show ?thesis
      using assms(1,3) that(3,4) unfolding banks_ok_def by metis
  qed
  ultimately show ?thesis using i unfolding banks_ok_def by blast
qed

lemma no_default_left: "a \<in> set (banks (clear_defaults u (\<lambda>_. True) d)) \<Longrightarrow> \<not> live_default u a"
  using clear_defaults_mem by metis

lemma live_defaults_none:
  assumes "length (filter (\<lambda>b. ba_user b = u \<and> ba_deleted b = None) bs) = 0"
  shows "\<forall>a\<in>set bs. \<not> live_default u a"
  using assms by (auto simp: filter_empty_conv live_default_def)

lemma store_bank_account_ok:
  assumes "banks_ok d" and ex: "\<And>b. ex = Some b \<Longrightarrow> b \<in> set (banks d) \<and> ba_user b = u"
    and no: "\<And>b. ex = Some b \<Longrightarrow> def \<or> ba_deleted b \<noteq> None"
  shows "banks_ok (fst (store_bank_account u dto name ex def d))"
proof -
  define d1 where "d1 = (if def then clear_defaults u (\<lambda>_. True) d else d)"
  have ok: "banks_ok d1" using assms(1) clear_defaults_ok by (simp add: d1_def)
  have none: "\<forall>a\<in>set (banks d1). \<not> live_default u a" if def
    using that no_default_left by (simp add: d1_def)
  show ?thesis
  proof (cases ex)
    case None
    have "banks_ok (d1\<lparr>banks := banks d1 @ [b], seq := Suc (seq d1)\<rparr>)"
      if "ba_id b = fresh_id d1" "ba_user b = u" "ba_default b = def" for b
      using insert_bank_ok [OF ok that(1)] none that(2,3) by simp
    with None show ?thesis by (simp add: store_bank_account_def d1_def [symmetric])
  next
    case (Some b)
    with ex have b: "b \<in> set (banks d)" "ba_user b = u" by blast+
    have same: "ba_user c = u" if "c \<in> set (banks d1)" "ba_id c = ba_id b" for c
    proof -
      from that(1) obtain c' where "c' \<in> set (banks d)" "ba_user c = ba_user c'" "ba_id c = ba_id c'"
        by (cases "def") (auto simp: d1_def clear_defaults_def set_update_where)
      with b that(2) assms(1) show ?thesis
        unfolding banks_ok_def by (metis lookup_by_distinct option.inject)
    qed
    let ?f = "\<lambda>b. b\<lparr>ba_bank_name := name, ba_number := cb_number dto, ba_code := Some (cb_code dto),
      ba_default := def, ba_deleted := None, ba_destination := None, ba_destination_status := None\<rparr>"
    have "banks_ok (upd_bank (ba_id b) ?f d1)"
    proof (rule upd_bank_ok [OF ok])
      fix c
      assume c: "c \<in> set (banks d1)" "ba_id c = ba_id b" and "live_default (ba_user c) (?f c)"
      then have def by (simp add: live_default_def)
      with none same [OF c] show "live_default (ba_user c) c \<or>
          (\<forall>x\<in>set (banks d1). live_default (ba_user c) x \<longrightarrow> ba_id x = ba_id b)" by simp
    qed simp_all
    with Some show ?thesis by (simp add: store_bank_account_def d1_def [symmetric])
  qed
qed

lemma createBankAccount_ok:
  assumes "banks_ok d"
  shows "banks_ok (fst (createBankAccount cs u dto d))"
proof -
  have mem: "b \<in> set (banks d) \<and> ba_user b = u"
    if "find (\<lambda>b. ba_user b = u \<and> ba_number b = n \<and> ba_bank_name b = m) (banks d) = Some b" for b n m
    using that by (auto simp: find_Some_iff)
  have "banks_ok (fst (store_bank_account u dto n ex def d))"
    if ex: "ex = find (\<lambda>b. ba_user b = u \<and> ba_number b = cb_number dto \<and> ba_bank_name b = n) (banks d)"
      and no: "\<not> (case ex of Some b \<Rightarrow> ba_deleted b = None | None \<Rightarrow> False)" for n ex "def"
  proof (rule store_bank_account_ok [OF assms])
    show "b \<in> set (banks d) \<and> ba_user b = u" if "ex = Some b" for b
      using that ex by (intro mem) simp
    show "def \<or> ba_deleted b \<noteq> None" if "ex = Some b" for b
      using that no by simp
  qed
  then show ?thesis
    using assms by (cases "resolveBankAccount cs (cb_code dto) (cb_number dto)")
      (simp_all add: createBankAccount_def Let_def case_prod_unfold)
qed

lemma updateBankAccount_ok:
  assumes "banks_ok d"
  shows "banks_ok (fst (updateBankAccount i u dto d))"
proof (cases "getBankAccountById i u d")
  case (Inl e)
  with assms show ?thesis by (simp add: updateBankAccount_def)
next
  case (Inr b)
  note B = getBankAccountById_InrD [OF Inr]
  define d1 where "d1 = (if ub_default dto = Some True then clear_defaults u (\<lambda>b. ba_id b \<noteq> i) d else d)"
  have ok: "banks_ok d1" using assms clear_defaults_ok by (simp add: d1_def)
  have only: "ba_id c = i" if "ub_default dto = Some True" "c \<in> set (banks d1)" "live_default u c" for c
    using that clear_defaults_mem [of c u "\<lambda>b. ba_id b \<noteq> i" d u] by (simp add: d1_def)
  have user: "ba_user c = u" if "c \<in> set (banks d1)" "ba_id c = i" for c
  proof -
    from that(1) obtain c' where "c' \<in> set (banks d)" "ba_user c = ba_user c'" "ba_id c = ba_id c'"
      by (cases "ub_default dto = Some True") (auto simp: d1_def clear_defaults_def set_update_where)
    with B that(2) assms show ?thesis
      unfolding banks_ok_def by (metis lookup_by_distinct option.inject)
  qed
  have "banks_ok (upd_bank i (\<lambda>b. b\<lparr>ba_bank_name := n, ba_number := m,
      ba_code := (case ub_code dto of None \<Rightarrow> ba_code b | c \<Rightarrow> c),
      ba_default := or_else (ub_default dto) (ba_default b)\<rparr>) d1)" (is "banks_ok (upd_bank i ?f d1)") for n m
  proof (rule upd_bank_ok [OF ok])
    fix c
    assume c: "c \<in> set (banks d1)" "ba_id c = i" and l: "live_default (ba_user c) (?f c)"
    show "live_default (ba_user c) c \<or> (\<forall>x\<in>set (banks d1). live_default (ba_user c) x \<longrightarrow> ba_id x = i)"
    proof (cases "ub_default dto = Some True")
      case True
      with only user [OF c] show ?thesis by simp
    next
      case False
      with l show ?thesis by (cases "ub_default dto") (simp_all add: live_default_def or_else_def)
    qed
  qed simp_all
  moreover have "banks_ok (upd_bank i (\<lambda>b. b\<lparr>ba_destination := None, ba_destination_status := None\<rparr>) e)"
    if "banks_ok e" for e
    by (rule upd_bank_ok [OF that]) (simp_all add: live_default_def)
  ultimately show ?thesis
    using ok by (simp add: updateBankAccount_def Inr Let_def d1_def [symmetric])
qed

lemma setDefaultBankAccount_ok:
  assumes "banks_ok d"
  shows "banks_ok (fst (setDefaultBankAccount i u d))"
proof (cases "getBankAccountById i u d")
  case (Inl e)
  with assms show ?thesis by (simp add: setDefaultBankAccount_def)
next
  case (Inr b)
  note B = getBankAccountById_InrD [OF Inr]
  let ?d = "clear_defaults u (\<lambda>b. ba_id b \<noteq> i) d"
  have ok: "banks_ok ?d" using assms by (rule clear_defaults_ok)
  have user: "ba_user c = u" if "c \<in> set (banks ?d)" "ba_id c = i" for c
  proof -
    from that(1) obtain c' where "c' \<in> set (banks d)" "ba_user c = ba_user c'" "ba_id c = ba_id c'"
      by (auto simp: clear_defaults_def set_update_where)
    with B that(2) assms show ?thesis
      unfolding banks_ok_def by (metis lookup_by_distinct option.inject)
  qed
  have "banks_ok (upd_bank i (\<lambda>b. b\<lparr>ba_default := True\<rparr>) ?d)"
  proof (rule upd_bank_ok [OF ok])
    fix c
    assume c: "c \<in> set (banks ?d)" "ba_id c = i"
    have "ba_id x = i" if "x \<in> set (banks ?d)" "live_default u x" for x
      using clear_defaults_mem [OF that] by simp
    with user [OF c] show "live_default (ba_user c) c \<or> (\<forall>x\<in>set (banks ?d). live_default (ba_user c) x \<longrightarrow> ba_id x = i)"
      by simp
  qed simp_all
  then show ?thesis by (simp add: setDefaultBankAccount_def Inr)
qed

lemma deleteBankAccount_ok:
  assumes "banks_ok d"
  shows "banks_ok (fst (deleteBankAccount now i u d))"
proof (cases "getBankAccountById i u d")
  case (Inl e)
  with assms show ?thesis by (simp add: deleteBankAccount_def)
next
  case (Inr b)
  note B = getBankAccountById_InrD [OF Inr]
  let ?g = "\<lambda>b. b\<lparr>ba_default := False, ba_deleted := Some now\<rparr>"
  have drop: "banks_ok (upd_bank i ?g d)"
    by (rule upd_bank_ok [OF assms]) (simp_all add: live_default_def)
  have swap: "upd_bank i ?g (upd_bank k f d) = upd_bank k f (upd_bank i ?g d)" if "k \<noteq> i" "\<And>b. ba_id (f b) = ba_id b" for k f
    unfolding upd_bank_def using that by (simp add: update_by_def update_where_def comp_def)
  have next_ok: "banks_ok (upd_bank i ?g (upd_bank (ba_id c) (\<lambda>b. b\<lparr>ba_default := True\<rparr>) d))"
    if "ba_default b" and c: "c \<in> set (banks d)" "ba_user c = u" "ba_id c \<noteq> i" for c
  proof -
    have "banks_ok (upd_bank (ba_id c) (\<lambda>b. b\<lparr>ba_default := True\<rparr>) (upd_bank i ?g d))"
    proof (rule upd_bank_ok [OF drop])
      fix x
      assume x: "x \<in> set (banks (upd_bank i ?g d))" "ba_id x = ba_id c"
      with c have "x \<in> set (banks d)" using upd_bank_mem [of ?g x i d] by auto
      with c x assms have xu: "ba_user x = u"
        unfolding banks_ok_def by (metis lookup_by_distinct option.inject)
      have "\<not> live_default u y" if y: "y \<in> set (banks (upd_bank i ?g d))" for y
      proof
        assume l: "live_default u y"
        define g :: "bank_account \<Rightarrow> bank_account" where "g = ?g"
        have gid: "ba_id (g z) = ba_id z" and gl: "\<not> live_default u (g z)" for z
          by (simp_all add: g_def live_default_def)
        have "ba_id y \<noteq> i \<and> y \<in> set (banks d)"
          using upd_bank_mem [of g y i d, OF gid] y l gl unfolding g_def [symmetric] by metis
        then have "ba_id y \<noteq> i" "y \<in> set (banks d)" by simp_all
        moreover have "live_default u b" using B \<open>ba_default b\<close> by (simp add: live_default_def)
        ultimately show False using l B(1,2) assms unfolding banks_ok_def by metis
      qed
      with xu show "live_default (ba_user x) x \<or>
          (\<forall>y\<in>set (banks (upd_bank i ?g d)). live_default (ba_user x) y \<longrightarrow> ba_id y = ba_id c)" by simp
    qed simp_all
    with swap [OF c(3)] show ?thesis by simp
  qed
  have log: "banks_ok (log_activity v a e) = banks_ok e" for v a e
    by (simp add: banks_ok_def log_activity_def fresh_for_def)
  show ?thesis
  proof (cases "ba_default b")
    case True
    show ?thesis
    proof (cases "find (\<lambda>b. ba_user b = u \<and> ba_deleted b = None \<and> ba_id b \<noteq> i) (banks d)")
      case None
      with drop True show ?thesis by (simp add: deleteBankAccount_def Inr Let_def log)
    next
      case (Some c)
      then have "c \<in> set (banks d)" "ba_user c = u" "ba_id c \<noteq> i"
        using find_SomeD [OF Some] by simp_all
      with next_ok True Some show ?thesis by (simp add: deleteBankAccount_def Inr Let_def log)
    qed
  next
    case False
    with drop show ?thesis by (simp add: deleteBankAccount_def Inr Let_def log)
  qed
qed

section \<open>Properties\<close>

text \<open>C36: A user never has two default payout accounts: adding, updating, deleting and choosing the
  default keep identifiers unique and every user's live default account unique, whether the
  operation succeeds or fails.\<close>

theorem bank_default_unique:
  assumes "banks_ok d"
  shows "banks_ok (fst (createBankAccount candidates u dto d)) \<and> banks_ok (fst (updateBankAccount i u changes d))
    \<and> banks_ok (fst (deleteBankAccount now i u d)) \<and> banks_ok (fst (setDefaultBankAccount i u d))"
  using createBankAccount_ok [OF assms] updateBankAccount_ok [OF assms] deleteBankAccount_ok [OF assms]
    setDefaultBankAccount_ok [OF assms] by simp

definition sample_bank :: "ident \<Rightarrow> bool \<Rightarrow> string \<Rightarrow> bank_account" where
  "sample_bank i def number =
     \<lparr>ba_id = i, ba_user = ''u'', ba_bank_name = ''B'', ba_number = number, ba_code = Some ''01'',
      ba_default = def, ba_destination = None, ba_destination_status = None, ba_deleted = None\<rparr>"

definition sample_banks :: "db" where
  "sample_banks = (sample_db 300 0 [])\<lparr>banks := [sample_bank ''a'' True ''1'', sample_bank ''b'' False ''2'']\<rparr>"

lemma sample_banks_ok: "banks_ok sample_banks"
  by (simp add: banks_ok_def sample_banks_def sample_db_def sample_bank_def live_default_def fresh_for_def
      sample_ids_inj)

theorem bank_default_unique_witness:
  "banks_ok (fst (setDefaultBankAccount ''b'' ''u'' sample_banks))
     \<and> map ba_default (banks (fst (setDefaultBankAccount ''b'' ''u'' sample_banks))) = [False, True]"
proof (rule conjI)
  show "banks_ok (fst (setDefaultBankAccount ''b'' ''u'' sample_banks))"
    using bank_default_unique [OF sample_banks_ok] by blast
  show "map ba_default (banks (fst (setDefaultBankAccount ''b'' ''u'' sample_banks))) = [False, True]"
    by (simp add: setDefaultBankAccount_def getBankAccountById_def sample_banks_def sample_bank_def
        clear_defaults_def upd_bank_def update_by_def update_where_def live_default_def)
qed

text \<open>Deleting a payout account does not leave its user without a default: when the user had a default
  among the live accounts, so has the user afterwards, unless no account is left.\<close>

lemma deleteBankAccount_keeps_default:
  assumes "deleteBankAccount now i u d = (d', Inr r)" and "banks_ok d" and "has_default d u"
  shows "has_default d' u"
proof -
  obtain b where get: "getBankAccountById i u d = Inr b"
    using assms(1) by (cases "getBankAccountById i u d") (simp_all add: deleteBankAccount_def)
  note B = getBankAccountById_InrD [OF get]
  define P :: "bank_account \<Rightarrow> bool" where "P = (\<lambda>b. ba_user b = u \<and> ba_deleted b = None \<and> ba_id b \<noteq> i)"
  define g :: "bank_account \<Rightarrow> bank_account" where "g = (\<lambda>b. b\<lparr>ba_default := False, ba_deleted := Some now\<rparr>)"
  define h :: "bank_account \<Rightarrow> bank_account" where "h = (\<lambda>b. b\<lparr>ba_default := True\<rparr>)"
  have gid: "ba_id (g x) = ba_id x" and hid: "ba_id (h x) = ba_id x" for x by (simp_all add: g_def h_def)
  define d1 where "d1 = (if ba_default b then (case find P (banks d) of None \<Rightarrow> d
      | Some c \<Rightarrow> upd_bank (ba_id c) h d) else d)"
  have "d' = log_activity (Some u) (STR ''BANK_ACCOUNT_DELETED'') (upd_bank i g d1)"
    using assms(1) unfolding deleteBankAccount_def get d1_def P_def g_def h_def by (simp add: Let_def)
  then have banks': "banks d' = banks (upd_bank i g d1)" by simp
  have other: "x \<in> set (banks d')" if "x \<in> set (banks d1)" "ba_id x \<noteq> i" for x
    using that unfolding banks' upd_bank_def by (auto simp: set_update_by intro: bexI [of _ x])
  have live: "ba_id x \<noteq> i \<and> x \<in> set (banks d1)" if "x \<in> set (banks d')" "ba_deleted x = None" for x
  proof -
    from upd_bank_mem [OF gid that(1) [unfolded banks']]
    show ?thesis using that(2) by (auto simp: g_def)
  qed
  show ?thesis
  proof (cases "ba_default b")
    case False
    then have d1: "d1 = d" by (simp add: d1_def)
    show ?thesis
      unfolding has_default_def
    proof (intro ballI impI)
      fix a
      assume a: "a \<in> set (banks d')" "ba_user a = u" "ba_deleted a = None"
      with live d1 have "a \<in> set (banks d)" by blast
      with a assms(3) obtain x where x: "x \<in> set (banks d)" "live_default u x"
        unfolding has_default_def by blast
      have "ba_id x \<noteq> i"
      proof
        assume "ba_id x = i"
        with x B assms(2) have "x = b" unfolding banks_ok_def by (metis lookup_by_distinct option.inject)
        with x(2) False show False by (simp add: live_default_def)
      qed
      with other x d1 show "\<exists>b\<in>set (banks d'). live_default u b" by blast
    qed
  next
    case True
    show ?thesis
    proof (cases "find P (banks d)")
      case None
      then have d1: "d1 = d" using True by (simp add: d1_def)
      have none: "\<not> P x" if "x \<in> set (banks d)" for x using None that by (auto simp: find_None_iff)
      show ?thesis
        unfolding has_default_def
      proof (intro ballI impI)
        fix a
        assume a: "a \<in> set (banks d')" "ba_user a = u" "ba_deleted a = None"
        with live d1 have "a \<in> set (banks d)" "ba_id a \<noteq> i" by blast+
        with a none [of a] show "\<exists>b\<in>set (banks d'). live_default u b" by (simp add: P_def)
      qed
    next
      case (Some c)
      from find_SomeD [OF Some] have c: "c \<in> set (banks d)" "ba_user c = u" "ba_deleted c = None" "ba_id c \<noteq> i"
        by (simp_all add: P_def)
      have "h c \<in> set (banks d1)"
        using c(1) by (auto simp: d1_def True Some upd_bank_def set_update_by)
      then have "h c \<in> set (banks d')" using c(4) hid by (intro other) simp_all
      moreover have "live_default u (h c)" using c by (simp add: live_default_def h_def)
      ultimately show ?thesis unfolding has_default_def by blast
    qed
  qed
qed

text \<open>An update can fail after it has cleared the defaults. When the new bank name and number are already
  those of another account of the user, making a non-default account the default throws the
  unique-constraint error, and the user, who may have had a default account before, is left
  with none.\<close>

lemma updateBankAccount_loses_default:
  assumes "banks_ok d" and "getBankAccountById i u d = Inr b" and "\<not> ba_default b"
    and "ub_default dto = Some True"
    and "bank_name_taken i u (or_else (ub_number dto) (ba_number b)) (or_else (ub_bank_name dto) (ba_bank_name b)) d"
  shows "\<exists>d'. updateBankAccount i u dto d = (d', Inl (Internal (STR ''P2002'')))
    \<and> (\<forall>a\<in>set (banks d'). \<not> live_default u a)"
proof -
  let ?d = "clear_defaults u (\<lambda>b. ba_id b \<noteq> i) d"
  note B = getBankAccountById_InrD [OF assms(2)]
  have "list_ex (\<lambda>b. ba_id b \<noteq> i \<and> ba_user b = u \<and> ba_number b = n \<and> ba_bank_name b = m)
      (update_where Q (\<lambda>b. b\<lparr>ba_default := False\<rparr>) bs) =
    list_ex (\<lambda>b. ba_id b \<noteq> i \<and> ba_user b = u \<and> ba_number b = n \<and> ba_bank_name b = m) bs" for n m Q bs
    by (induction bs) (simp_all add: update_where_def)
  then have "bank_name_taken i u n m ?d = bank_name_taken i u n m d" for n m
    by (simp add: bank_name_taken_def clear_defaults_def)
  with assms have "updateBankAccount i u dto d = (?d, Inl (Internal (STR ''P2002'')))"
    by (simp add: updateBankAccount_def Let_def)
  moreover have "\<not> live_default u a" if a: "a \<in> set (banks ?d)" for a
  proof
    assume l: "live_default u a"
    from clear_defaults_mem [OF a l] have "a \<in> set (banks d)" "ba_id a = i" by simp_all
    with B assms(1) have "a = b" unfolding banks_ok_def by (metis lookup_by_distinct option.inject)
    with l assms(3) show False by (simp add: live_default_def)
  qed
  ultimately show ?thesis by blast
qed

end
