(* ===== verification/BachsClient.thy ===== *)
theory BachsClient
  imports Prelude JsNumber
begin

text \<open>
  What the finance services use of \<open>BachsClient\<close> (\<open>src/v1/bachs/bachs.client.ts\<close>): the
  conversion between kobo and the provider's decimal amounts, the shape of its answers, and
  the tests the callers make on a payout status. The HTTP calls themselves are arguments of the
  operations that make them.

  The lemmas: an amount of kobo is sent exactly, and comes back as itself.
\<close>

section \<open>Amounts\<close>

text \<open>
  \<open>Number.prototype.toFixed(2)\<close> picks the \<open>n\<close> with \<open>n / 100\<close> nearest to the double, the larger one
  on a tie. A decimal string of the provider is modelled by the rational it denotes, and
  \<open>parseFloat\<close> rounds it to a double.
\<close>

definition to_fixed2 :: "rat \<Rightarrow> rat" where
  "to_fixed2 x = (if x < 0 then - of_int (js_round (- x * 100)) / 100 else of_int (js_round (x * 100)) / 100)"

definition toBachsAmount :: "int \<Rightarrow> rat" where
  "toBachsAmount amountInKobo = to_fixed2 (dbl (of_int amountInKobo / 100))"

definition fromBachsAmount :: "rat \<Rightarrow> int" where
  "fromBachsAmount amountInBachs = js_round (dbl (dbl amountInBachs * 100))"

lemma toBachsAmount_exact:
  assumes "0 \<le> k" and "k \<le> 2 ^ 50"
  shows "toBachsAmount k = of_int k / 100"
proof -
  let ?x = "of_int k / 100 :: rat"
  have k: "(of_int k :: rat) \<le> 2 ^ 50"
  proof -
    have "(of_int k :: rat) \<le> of_int (2 ^ 50)" using assms(2) by (simp only: of_int_le_iff)
    then show ?thesis by simp
  qed
  have "\<bar>dbl ?x - ?x\<bar> \<le> ?x / 2 ^ 53" using dbl_error [of ?x] assms(1) by simp
  also have "\<dots> < 1 / 200" using k by (simp add: field_simps)
  finally have "\<bar>dbl ?x * 100 - of_int k\<bar> < 1 / 2" by (simp add: abs_if field_simps split: if_splits)
  then have "js_round (dbl ?x * 100) = k" by (rule js_round_nearest)
  moreover have "0 \<le> dbl ?x" using assms(1) by (intro dbl_nonneg) simp
  ultimately show ?thesis by (simp add: toBachsAmount_def to_fixed2_def)
qed

lemma fromBachsAmount_decimal:
  assumes "0 \<le> k" and "k \<le> 2 ^ 50"
  shows "fromBachsAmount (of_int k / 100) = k"
proof -
  let ?x = "of_int k / 100 :: rat"
  have k: "0 \<le> (of_int k :: rat)" "(of_int k :: rat) \<le> 2 ^ 50"
  proof -
    have "(of_int k :: rat) \<le> of_int (2 ^ 50)" using assms(2) by (simp only: of_int_le_iff)
    then show "(of_int k :: rat) \<le> 2 ^ 50" by simp
  qed (use assms(1) in simp)
  have e1: "\<bar>dbl ?x - ?x\<bar> \<le> ?x / 2 ^ 53" using dbl_error [of ?x] assms(1) by simp
  have n: "0 \<le> dbl ?x" using k by (intro dbl_nonneg) simp
  have y: "\<bar>dbl ?x * 100 - of_int k\<bar> \<le> 1 / 8" "dbl ?x * 100 \<le> 2 ^ 51"
  proof -
    have "?x / 2 ^ 53 \<le> 1 / 800" using k by (simp add: field_simps)
    with e1 show "\<bar>dbl ?x * 100 - of_int k\<bar> \<le> 1 / 8" by (simp add: abs_if field_simps split: if_splits)
    with k show "dbl ?x * 100 \<le> 2 ^ 51" by (simp add: abs_if field_simps split: if_splits)
  qed
  have "\<bar>dbl (dbl ?x * 100) - dbl ?x * 100\<bar> \<le> dbl ?x * 100 / 2 ^ 53"
    using dbl_error [of "dbl ?x * 100"] n by simp
  also have "\<dots> \<le> 1 / 4" using y(2) by (simp add: field_simps)
  finally have "\<bar>dbl (dbl ?x * 100) - of_int k\<bar> < 1 / 2"
    using y(1) by (simp add: abs_if split: if_splits)
  then show ?thesis unfolding fromBachsAmount_def by (rule js_round_nearest)
qed

section \<open>Answers of the provider\<close>

text \<open>
  A payout destination; a submitted payout with its identifier, status and fee (a missing,
  zero or empty member is \<open>None\<close>). \<open>to_upper\<close> is \<open>toUpperCase\<close> on ASCII.
\<close>

record destination =
  de_id :: ident
  de_usable :: bool
  de_status :: "string option"

record payout =
  po_id :: "ident option"
  po_status :: "string option"
  po_fee :: "rat option"

definition upper_char :: "char \<Rightarrow> char" where
  "upper_char c = (if 97 \<le> (of_char c :: nat) \<and> (of_char c :: nat) \<le> 122
                   then char_of ((of_char c :: nat) - 32) else c)"

definition to_upper :: "string \<Rightarrow> string" where
  "to_upper s = map upper_char s"

end
