(* ===== verification/Withdrawals.thy ===== *)
theory Withdrawals
  imports Prelude FinanceDb Ledger Wallets BankAccounts BachsClient
begin

text \<open>
  The withdrawal half of \<open>FinanceService\<close> (\<open>src/v1/finance/finance.service.ts\<close>): the charges and
  the largest possible withdrawal, the requests of users, organizations and platform
  administrators, settlement, the submission of the payout and its compensation, rejection, and
  the access checks. The payment provider is an argument; notifications and cache invalidation
  are left out.
\<close>

section \<open>Charges and the largest withdrawal\<close>

record withdrawal_charges =
  wc_fee :: int
  wc_platform_fee :: "int option"
  wc_provider_fee :: "int option"

definition ORGANIZATION_WITHDRAWAL_FEE :: int where
  "ORGANIZATION_WITHDRAWAL_FEE = 10000"

definition BACHS_PAYOUT_FEE :: int where
  "BACHS_PAYOUT_FEE = 5000"

definition user_withdrawal_charges :: "fee_config option \<Rightarrow> int \<Rightarrow> withdrawal_charges" where
  "user_withdrawal_charges fees amount =
     \<lparr>wc_fee = calculateWithdrawalCharges fees amount, wc_platform_fee = None, wc_provider_fee = None\<rparr>"

definition calculateOrganizationWithdrawalCharges :: "int \<Rightarrow> withdrawal_charges" where
  "calculateOrganizationWithdrawalCharges amount =
     \<lparr>wc_fee = ORGANIZATION_WITHDRAWAL_FEE,
      wc_platform_fee = Some (ORGANIZATION_WITHDRAWAL_FEE - BACHS_PAYOUT_FEE),
      wc_provider_fee = Some BACHS_PAYOUT_FEE\<rparr>"

definition calculatePlatformWithdrawalCharges :: "int \<Rightarrow> withdrawal_charges" where
  "calculatePlatformWithdrawalCharges amount =
     \<lparr>wc_fee = BACHS_PAYOUT_FEE, wc_platform_fee = Some 0, wc_provider_fee = Some BACHS_PAYOUT_FEE\<rparr>"

text \<open>
  The search loop of \<open>calculateMaximumWithdrawal\<close>: \<open>Math.ceil((low + high) / 2)\<close>, exact on
  53-bit integers.
\<close>

function search_maximum :: "(int \<Rightarrow> int) \<Rightarrow> int \<Rightarrow> int \<Rightarrow> int \<Rightarrow> int" where
  "search_maximum fee limit low high =
     (if low < high
      then let candidate = (low + high + 1) div 2
           in if candidate + fee candidate \<le> limit then search_maximum fee limit candidate high
              else search_maximum fee limit low (candidate - 1)
      else low)"
  by pat_completeness auto

termination
  by (relation "measure (\<lambda>(fee, limit, low, high). nat (high - low))") auto

declare search_maximum.simps [simp del]

definition calculateMaximumWithdrawal :: "fee_config option \<Rightarrow> int \<Rightarrow> int option \<Rightarrow> int" where
  "calculateMaximumWithdrawal fees availableBalance fixedFee =
     (if availableBalance \<le> 0 then 0
      else case fixedFee of
        Some fee \<Rightarrow> max 0 (availableBalance - fee)
      | None \<Rightarrow> search_maximum (calculateWithdrawalCharges fees) availableBalance 0 availableBalance)"

definition insufficientWithdrawalBalance :: "fee_config option \<Rightarrow> int \<Rightarrow> int \<Rightarrow> int \<Rightarrow> int option \<Rightarrow> http_error" where
  "insufficientWithdrawalBalance fees availableBalance requestedAmount fee fixedFee =
     InsufficientAvailable availableBalance requestedAmount fee (requestedAmount + fee)
       (calculateMaximumWithdrawal fees availableBalance fixedFee)"

section \<open>Who may act\<close>

definition is_platform_admin :: "ident \<Rightarrow> db \<Rightarrow> bool" where
  "is_platform_admin userId d \<longleftrightarrow>
     list_ex (\<lambda>a. ad_user a = userId \<and> ad_status a = AdminActive \<and> ad_type a = PLATFORM_ADMIN) (admins d)"

definition admin_covers :: "admin \<Rightarrow> organization \<Rightarrow> bool" where
  "admin_covers a g =
     (case ad_type a of
        PLATFORM_ADMIN \<Rightarrow> True
      | INSTITUTION_ADMIN \<Rightarrow> ad_institution a = og_institution g
      | FACULTY_ADMIN \<Rightarrow> ad_faculty a = og_faculty g
      | DEPARTMENT_ADMIN \<Rightarrow> ad_department a = og_department g
      | ORGANIZATION_ADMIN \<Rightarrow> ad_organization a = Some (og_id g)
      | CLUB_ADMIN \<Rightarrow> ad_organization a = Some (og_id g))"

definition assertOrganizationAdminScope :: "ident \<Rightarrow> ident \<Rightarrow> db \<Rightarrow> unit result" where
  "assertOrganizationAdminScope userId organizationId d =
     andThen (require_some (lookup_by og_id organizationId (orgs d)) (NotFound (STR ''Organization not found'')))
       (\<lambda>g. require (list_ex (\<lambda>a. ad_user a = userId \<and> ad_status a = AdminActive \<and> admin_covers a g) (admins d))
          (Forbidden (STR ''You do not have permission to view this organization withdrawal history'')))"

definition getWithdrawalById :: "ident \<Rightarrow> ident \<Rightarrow> db \<Rightarrow> withdrawal result" where
  "getWithdrawalById withdrawalId userId d =
     andThen (require_some (get_withdrawal d withdrawalId) (NotFound (STR ''Withdrawal not found''))) (\<lambda>w.
       if wd_user w \<noteq> userId
       then (case (case get_wallet d (wd_wallet w) of None \<Rightarrow> None | Some v \<Rightarrow> wl_organization v) of
               Some g \<Rightarrow> andThen (assertOrganizationAdminScope userId g d) (\<lambda>_. Inr w)
             | None \<Rightarrow> andThen (require (is_platform_admin userId d)
                 (Forbidden (STR ''You do not have permission to view this withdrawal''))) (\<lambda>_. Inr w))
       else Inr w)"

section \<open>The quote\<close>

record quote =
  qu_balance :: int
  qu_held :: int
  qu_available :: int
  qu_fee :: int
  qu_total_debit :: int
  qu_max :: int
  qu_can :: bool

text \<open>The optional amount of the request: zero is falsy but not undefined.\<close>

definition quote_of :: "fee_config option \<Rightarrow> withdrawal_charges option \<Rightarrow> int option \<Rightarrow> wallet \<Rightarrow> quote" where
  "quote_of fees fixedCharges amount w =
     (let availableBalance = max 0 (wl_balance w - wl_held w);
          maxWithdrawable = calculateMaximumWithdrawal fees availableBalance (map_option wc_fee fixedCharges);
          a = or_else amount 0;
          fee = (if a = 0 then 0
                 else case fixedCharges of Some c \<Rightarrow> wc_fee c | None \<Rightarrow> calculateWithdrawalCharges fees a);
          totalDebit = (if a = 0 then 0 else a + fee)
      in \<lparr>qu_balance = wl_balance w, qu_held = wl_held w, qu_available = availableBalance, qu_fee = fee,
          qu_total_debit = totalDebit, qu_max = maxWithdrawable,
          qu_can = (if amount \<noteq> None then 100 \<le> a \<and> totalDebit \<le> availableBalance
                    else 100 \<le> maxWithdrawable)\<rparr>)"

definition getWithdrawalQuote ::
    "fee_config option \<Rightarrow> ident \<Rightarrow> withdrawal_kind \<Rightarrow> ident option \<Rightarrow> int option \<Rightarrow> db \<Rightarrow> db \<times> quote result" where
  "getWithdrawalQuote fees userId kind organizationId amount d =
     (let guarded = (case kind of
            OrganizationWithdrawal \<Rightarrow>
              andThen (require_some organizationId
                (BadRequest (STR ''organizationId is required for an organization withdrawal quote''))) (\<lambda>g.
              andThen (assertOrganizationAdminScope userId g d) (\<lambda>_.
              Inr (OrganizationOwner g, Some (calculateOrganizationWithdrawalCharges (or_else amount 0)))))
          | PlatformWithdrawal \<Rightarrow>
              andThen (require (is_platform_admin userId d)
                (Forbidden (STR ''Only platform admins can access the platform withdrawal quote''))) (\<lambda>_.
              Inr (PlatformOwner, Some (calculatePlatformWithdrawalCharges (or_else amount 0))))
          | UserWithdrawal \<Rightarrow> Inr (UserOwner userId, None))
      in case guarded of
           Inl e \<Rightarrow> (d, Inl e)
         | Inr (owner, fixedCharges) \<Rightarrow>
             thenDo (getOrCreateWallet owner d) (\<lambda>w d'. (d', Inr (quote_of fees fixedCharges amount w))))"

section \<open>The provider\<close>

text \<open>
  The provider's calls: reading and creating a payout destination, submitting a payout
  (destination, amount, reference and withdrawal), and reading a payout back.
\<close>

record provider =
  pv_get_destination :: "ident \<Rightarrow> destination result"
  pv_create_destination :: "bank_account \<Rightarrow> destination result"
  pv_create_payout :: "ident \<Rightarrow> rat \<Rightarrow> string \<Rightarrow> ident \<Rightarrow> payout result"

definition ensurePayoutDestination :: "provider \<Rightarrow> bool \<Rightarrow> bank_account \<Rightarrow> db \<Rightarrow> db \<times> destination result" where
  "ensurePayoutDestination pv requireUsable b d =
     (if ba_code b = None \<or> ba_code b = Some ''''
      then (d, Inl (BadRequest (STR ''Bank code is required for payouts'')))
      else case (case ba_destination b of
                   Some i \<Rightarrow> pv_get_destination pv i
                 | None \<Rightarrow> pv_create_destination pv b) of
             Inl e \<Rightarrow> (d, Inl e)
           | Inr dest \<Rightarrow>
               if list_ex (\<lambda>c. ba_id c \<noteq> ba_id b \<and> ba_destination c = Some (de_id dest)) (banks d)
               then (d, Inl (Internal (STR ''P2002'')))
               else
                 let d' = upd_bank (ba_id b) (\<lambda>c. c\<lparr>ba_destination := Some (de_id dest),
                            ba_destination_status := de_status dest\<rparr>) d
                 in (d', if requireUsable \<and> (\<not> de_usable dest \<or> de_status dest \<noteq> Some ''approved'')
                         then Inl (BadRequest (STR ''Bank payout destination is not approved''))
                         else Inr dest))"

section \<open>Requests\<close>

text \<open>
  The transaction of the three requests. The parts in which they differ: the requester, the
  wallet, the amount and charges, whether the error quotes a fixed fee, the metadata, the
  prefixes of the reference and of the hold's reason, and the activity.
\<close>

record withdrawal_request =
  rq_user :: ident
  rq_wallet :: ident
  rq_amount :: int
  rq_charges :: withdrawal_charges
  rq_fixed_fee :: "int option"
  rq_meta :: withdrawal_meta
  rq_reference :: string
  rq_hold :: string
  rq_activity :: "String.literal option"

definition new_withdrawal :: "ident \<Rightarrow> withdrawal_request \<Rightarrow> withdrawal" where
  "new_withdrawal i q =
     \<lparr>wd_id = i, wd_user = rq_user q, wd_wallet = rq_wallet q, wd_amount = rq_amount q,
      wd_fee = wc_fee (rq_charges q), wd_status = WPending, wd_reference = rq_reference q @ i,
      wd_meta = rq_meta q, wd_processed = None, wd_completed = None, wd_failed = None, wd_entry = None,
      wd_payout = None, wd_hook_status = '''', wd_hook_attempts = 0\<rparr>"

definition hold_period :: nat where
  "hold_period = 7 * 24 * 60 * 60 * 1000"

definition new_hold :: "nat \<Rightarrow> ident \<Rightarrow> withdrawal_request \<Rightarrow> int \<Rightarrow> wallet_hold" where
  "new_hold now i q amount =
     \<lparr>ho_wallet = rq_wallet q, ho_amount = amount, ho_reason = rq_hold q @ i, ho_expires = now + hold_period,
      ho_status = HoldActive, ho_released = None\<rparr>"

definition place_withdrawal :: "fee_config option \<Rightarrow> nat \<Rightarrow> withdrawal_request \<Rightarrow> db \<Rightarrow> (withdrawal \<times> db) result" where
  "place_withdrawal fees now q d =
     (let fee = wc_fee (rq_charges q);
          totalAmount = rq_amount q + fee;
          current = get_wallet d (rq_wallet q);
          free = (case current of None \<Rightarrow> 0 | Some w \<Rightarrow> wl_balance w - wl_held w)
      in if current = None \<or> free < totalAmount
         then Inl (insufficientWithdrawalBalance fees free (rq_amount q) fee (rq_fixed_fee q))
         else
           let i = fresh_id d;
               w = new_withdrawal i q;
               d1 = d\<lparr>withdrawals := withdrawals d @ [w], seq := Suc (seq d)\<rparr>;
               d2 = d1\<lparr>holds := holds d1 @ [new_hold now i q totalAmount]\<rparr>;
               d3 = d2\<lparr>wallets := adjust wl_id wl_held_update (rq_wallet q) totalAmount (wallets d2)\<rparr>;
               d4 = (case rq_activity q of None \<Rightarrow> d3 | Some a \<Rightarrow> log_activity (Some (rq_user q)) a d3)
           in Inr (w, d4))"

definition request_meta :: "withdrawal_kind \<Rightarrow> ident option \<Rightarrow> ident \<Rightarrow> withdrawal_charges \<Rightarrow> withdrawal_meta" where
  "request_meta kind organizationId dest charges =
     \<lparr>wm_type = kind, wm_organization = organizationId, wm_destination = Some dest,
      wm_platform_fee = wc_platform_fee charges, wm_provider_fee = wc_provider_fee charges,
      wm_fee_allocated = None, wm_fee_entry = None\<rparr>"

definition requestUserWithdrawal ::
    "provider \<Rightarrow> fee_config option \<Rightarrow> nat \<Rightarrow> ident \<Rightarrow> int \<Rightarrow> ident \<Rightarrow> db \<Rightarrow> db \<times> withdrawal result" where
  "requestUserWithdrawal pv fees now userId amount bankAccountId d =
     thenDo (getOrCreateWallet (UserOwner userId) d) (\<lambda>w d1.
     thenDo (d1, getBankAccountById bankAccountId userId d1) (\<lambda>b d2.
     thenDo (ensurePayoutDestination pv True b d2) (\<lambda>dest d3.
       let charges = user_withdrawal_charges fees amount
       in transaction (place_withdrawal fees now
            \<lparr>rq_user = userId, rq_wallet = wl_id w, rq_amount = amount, rq_charges = charges,
             rq_fixed_fee = None, rq_meta = request_meta UserWithdrawal None (de_id dest) charges,
             rq_reference = ''WTH_'', rq_hold = ''Withdrawal request #'',
             rq_activity = Some (STR ''USER_WITHDRAWAL_REQUESTED'')\<rparr>) d3)))"

section \<open>The payout\<close>

text \<open>
  \<open>compensateFailedPayoutSubmission\<close>: a processing withdrawal that the provider never accepted is
  marked as failed and refunded, and the platform's share of its fee released.
\<close>

definition refund_accounts :: "wallet \<Rightarrow> int \<Rightarrow> db \<Rightarrow> db" where
  "refund_accounts w totalAmount d =
     (let d1 = adjust_account (wl_account w) totalAmount d
      in adjust_account (clearing_id d1) (- totalAmount) d1)"

text \<open>
  The entry a withdrawal refers to is there (entries are never deleted), so that the P2025 of a missing row,
  for which nothing is written here, does not arise.
\<close>

definition mark_entry_reversed :: "ident option \<Rightarrow> db \<Rightarrow> db" where
  "mark_entry_reversed e d =
     (case e of None \<Rightarrow> d | Some i \<Rightarrow> upd_entry i (\<lambda>r. r\<lparr>je_status := REVERSED\<rparr>) d)"

definition compensateFailedPayoutSubmission :: "nat \<Rightarrow> ident \<Rightarrow> db \<Rightarrow> db" where
  "compensateFailedPayoutSubmission now withdrawalId d =
     (case get_withdrawal d withdrawalId of
        None \<Rightarrow> d
      | Some w \<Rightarrow>
          if wd_status w \<noteq> WProcessing \<or> wd_payout w \<noteq> None then d
          else case get_wallet d (wd_wallet w) of
            None \<Rightarrow> d
          | Some wl \<Rightarrow>
              let totalAmount = wd_amount w + wd_fee w;
                  d1 = upd_withdrawal withdrawalId (\<lambda>r. r\<lparr>wd_status := WFailed, wd_failed := Some now,
                         wd_hook_status := ''FAILED''\<rparr>) d;
                  d2 = adjust_wallet (wd_wallet w) totalAmount d1;
                  d3 = refund_accounts wl totalAmount d2;
                  d4 = mark_entry_reversed (wd_entry w) d3
              in snd (reverseOrganizationWithdrawalPlatformFee withdrawalId (wd_meta w) d4))"

text \<open>
  \<open>triggerWithdrawalTransfer\<close>: the payout is submitted; the platform's share of an organization's
  fee is booked, or another wallet is charged the difference to the provider's fee; the
  withdrawal records the payout. Any error after that is compensated.
\<close>

definition failed_payout_status :: "string \<Rightarrow> bool" where
  "failed_payout_status s \<longleftrightarrow> s = ''FAILED'' \<or> s = ''REJECTED'' \<or> s = ''CANCELLED''"

definition payout_status :: "payout \<Rightarrow> string" where
  "payout_status p = to_upper (or_else (po_status p) ''PENDING'')"

definition provider_fee :: "payout \<Rightarrow> withdrawal \<Rightarrow> int" where
  "provider_fee p w =
     (case po_fee p of
        Some f \<Rightarrow> fromBachsAmount f
      | None \<Rightarrow> (case wm_provider_fee (wd_meta w) of
                   Some f \<Rightarrow> if f \<noteq> 0 then f else wd_fee w
                 | None \<Rightarrow> wd_fee w))"

definition is_organization_withdrawal :: "withdrawal \<Rightarrow> bool" where
  "is_organization_withdrawal w \<longleftrightarrow> wm_type (wd_meta w) = OrganizationWithdrawal"

definition retained_fee :: "withdrawal \<Rightarrow> int \<Rightarrow> int" where
  "retained_fee w providerFee =
     (if is_organization_withdrawal w then max 0 (wd_fee w - providerFee) else 0)"

definition allocate_platform_fee :: "nat \<Rightarrow> withdrawal \<Rightarrow> wallet \<Rightarrow> int \<Rightarrow> db \<Rightarrow> (ident \<times> db) result" where
  "allocate_platform_fee now w platformWallet platformFee d =
     (case (account_by_code d ''1100'', wl_account platformWallet) of
        (Some clearing, Some a) \<Rightarrow>
          andThen (createJournalEntry now
            \<lparr>ed_lines = [\<lparr>jl_account = a, jl_type = DEBIT, jl_amount = platformFee\<rparr>,
                         \<lparr>jl_account = la_id clearing, jl_type = CREDIT, jl_amount = platformFee\<rparr>],
             ed_description = allocation_description (wd_id w), ed_transaction = None, ed_payment = None,
             ed_withdrawal = None, ed_created_by = Some (wd_user w)\<rparr> d) (\<lambda>(e, d').
          Inr (e, adjust_wallet (wl_id platformWallet) platformFee d'))
      | _ \<Rightarrow> Inl (Internal (STR ''Payout fee allocation accounts are unavailable'')))"

definition charge_fee_difference :: "withdrawal \<Rightarrow> int \<Rightarrow> db \<Rightarrow> db" where
  "charge_fee_difference w providerFee d =
     (let feeDifference = providerFee - wd_fee w;
          d1 = adjust_wallet (wd_wallet w) (- feeDifference) d;
          d2 = (case get_wallet d1 (wd_wallet w) of
                  None \<Rightarrow> d1
                | Some wl \<Rightarrow> adjust_account (wl_account wl) (- feeDifference) d1);
          d3 = adjust_account (clearing_id d2) feeDifference d2
      in case wd_entry w of
           None \<Rightarrow> d3
         | Some e \<Rightarrow> upd_entry e (\<lambda>r. r\<lparr>je_lines :=
             map (\<lambda>l. l\<lparr>jl_amount := wd_amount w + providerFee\<rparr>) (je_lines r)\<rparr>) d3)"

definition recorded_meta :: "nat \<Rightarrow> withdrawal \<Rightarrow> int \<Rightarrow> ident option \<Rightarrow> withdrawal_meta" where
  "recorded_meta now w providerFee entry =
     (let m = wd_meta w
      in if is_organization_withdrawal w
         then m\<lparr>wm_platform_fee := Some (retained_fee w providerFee), wm_provider_fee := Some providerFee,
                wm_fee_allocated := (case wm_fee_allocated m of None \<Rightarrow> Some now | t \<Rightarrow> t),
                wm_fee_entry := (case entry of None \<Rightarrow> wm_fee_entry m | e \<Rightarrow> e)\<rparr>
         else m)"

definition record_payout :: "nat \<Rightarrow> withdrawal \<Rightarrow> payout \<Rightarrow> wallet option \<Rightarrow> db \<Rightarrow> (unit \<times> db) result" where
  "record_payout now w p platformWallet d =
     (let providerFee = provider_fee p w;
          platformFee = retained_fee w providerFee;
          booked =
            (case platformWallet of
               Some pw \<Rightarrow>
                 if is_organization_withdrawal w \<and> 0 < platformFee \<and> wm_fee_allocated (wd_meta w) = None
                 then andThen (allocate_platform_fee now w pw platformFee d) (\<lambda>(e, d'). Inr (Some e, d'))
                 else Inr (None, d)
             | None \<Rightarrow>
                 if \<not> is_organization_withdrawal w \<and> providerFee - wd_fee w \<noteq> 0
                 then andThen (require (get_wallet d (wd_wallet w) \<noteq> None) (Internal (STR ''P2025''))) (\<lambda>_.
                   Inr (None, charge_fee_difference w providerFee d))
                 else Inr (None, d))
      in andThen booked (\<lambda>(entry, d').
           Inr ((), upd_withdrawal (wd_id w) (\<lambda>r. r\<lparr>
             wd_fee := (if is_organization_withdrawal w then wd_fee w else providerFee),
             wd_payout := po_id p, wd_hook_status := payout_status p,
             wd_hook_attempts := wd_hook_attempts r + 1,
             wd_meta := recorded_meta now w providerFee entry\<rparr>) d')))"

definition submit_payout :: "provider \<Rightarrow> nat \<Rightarrow> ident \<Rightarrow> db \<Rightarrow> db \<times> unit result" where
  "submit_payout pv now withdrawalId d =
     (case get_withdrawal d withdrawalId of
        None \<Rightarrow> (d, Inl (NotFound (STR ''Withdrawal not found'')))
      | Some w \<Rightarrow>
          (case wm_destination (wd_meta w) of
             None \<Rightarrow> (d, Inl (BadRequest (STR ''Withdrawal has no approved payout destination'')))
           | Some dest \<Rightarrow>
               (case pv_create_payout pv dest (toBachsAmount (wd_amount w)) (wd_reference w) withdrawalId of
                  Inl e \<Rightarrow> (d, Inl e)
                | Inr p \<Rightarrow>
                    if failed_payout_status (payout_status p)
                    then (d, Inl (BadRequest (STR ''Payout provider returned a failure'')))
                    else
                      thenDo (if is_organization_withdrawal w \<and> 0 < retained_fee w (provider_fee p w)
                              then thenDo (getOrCreateWallet PlatformOwner d) (\<lambda>pw d1. (d1, Inr (Some pw)))
                              else (d, Inr None)) (\<lambda>platformWallet d1.
                      transaction (record_payout now w p platformWallet) d1))))"

definition triggerWithdrawalTransfer :: "provider \<Rightarrow> nat \<Rightarrow> ident \<Rightarrow> db \<Rightarrow> db \<times> unit result" where
  "triggerWithdrawalTransfer pv now withdrawalId d =
     (case submit_payout pv now withdrawalId d of
        (d', Inr u) \<Rightarrow> (d', Inr u)
      | (d', Inl e) \<Rightarrow>
          (compensateFailedPayoutSubmission now withdrawalId d',
           Inl (BadGateway (STR ''PAYOUT_SUBMISSION_FAILED''))))"

section \<open>Settlement\<close>

definition createOrReuseWithdrawalJournal :: "nat \<Rightarrow> entry_data \<Rightarrow> ident \<Rightarrow> db \<Rightarrow> (ident \<times> db) result" where
  "createOrReuseWithdrawalJournal now x withdrawalId d =
     (case lookup_by je_withdrawal (Some withdrawalId) (entries d) of
        None \<Rightarrow> createJournalEntry now x d
      | Some e \<Rightarrow>
          if je_status e = POSTED \<and> je_balanced e \<and> length (je_lines e) = length (ed_lines x)
             \<and> list_all (\<lambda>l. l \<in> set (je_lines e)) (ed_lines x)
          then Inr (je_id e, d)
          else Inl (Conflict
            (STR ''The withdrawal has an existing journal entry that requires manual reconciliation'')))"

definition release_holds :: "nat \<Rightarrow> ident \<Rightarrow> string \<Rightarrow> db \<Rightarrow> db" where
  "release_holds now walletId pattern d =
     d\<lparr>holds := update_where
       (\<lambda>h. ho_wallet h = walletId \<and> contains pattern (ho_reason h) \<and> ho_status h = HoldActive)
       (\<lambda>h. h\<lparr>ho_status := HoldReleased, ho_released := Some now\<rparr>) (holds d)\<rparr>"

text \<open>What distinguishes the two settlements.\<close>

record settlement =
  sm_description :: string
  sm_hold :: string
  sm_activity :: "String.literal"
  sm_refuse_self :: bool

definition settlement_entry :: "settlement \<Rightarrow> ident \<Rightarrow> ident \<Rightarrow> ident \<Rightarrow> ident \<Rightarrow> int \<Rightarrow> entry_data" where
  "settlement_entry sm withdrawalId actor clearing walletAccount totalAmount =
     \<lparr>ed_lines = [\<lparr>jl_account = clearing, jl_type = DEBIT, jl_amount = totalAmount\<rparr>,
                  \<lparr>jl_account = walletAccount, jl_type = CREDIT, jl_amount = totalAmount\<rparr>],
      ed_description = sm_description sm @ withdrawalId, ed_transaction = None, ed_payment = None,
      ed_withdrawal = Some withdrawalId, ed_created_by = Some actor\<rparr>"

definition settle_transaction ::
    "settlement \<Rightarrow> nat \<Rightarrow> ident \<Rightarrow> ident \<Rightarrow> ident \<Rightarrow> db \<Rightarrow> (withdrawal \<times> db) result" where
  "settle_transaction sm now withdrawalId actor clearing d =
     andThen (require_some (get_withdrawal d withdrawalId) (NotFound (STR ''Withdrawal not found''))) (\<lambda>w.
     andThen (require (wd_status w = WPending) (BadRequest (STR ''Withdrawal is not pending''))) (\<lambda>_.
     andThen (require (\<not> (wd_user w = actor \<and> wm_type (wd_meta w) = PlatformWithdrawal \<and> sm_refuse_self sm))
       (BadRequest (STR ''You cannot approve your own withdrawal request''))) (\<lambda>_.
     andThen (require_some (get_wallet d (wd_wallet w)) (Internal (STR ''Withdrawal without a wallet''))) (\<lambda>wl.
     let totalAmount = wd_amount w + wd_fee w;
         d1 = upd_withdrawal withdrawalId (\<lambda>r. r\<lparr>wd_status := WProcessing, wd_processed := Some now\<rparr>) d
     in case wl_account wl of
          None \<Rightarrow> Inl (if lookup_by je_withdrawal (Some withdrawalId) (entries d) \<noteq> None
                      then Conflict (STR ''The withdrawal has an existing journal entry that requires manual reconciliation'')
                      else Internal (STR ''Wallet without a ledger account''))
        | Some a \<Rightarrow>
            andThen (createOrReuseWithdrawalJournal now
              (settlement_entry sm withdrawalId actor clearing a totalAmount) withdrawalId d1) (\<lambda>(e, d2).
            let d3 = upd_withdrawal withdrawalId (\<lambda>r. r\<lparr>wd_entry := Some e\<rparr>) d2;
                d4 = release_holds now (wd_wallet w) (sm_hold sm @ withdrawalId) d3;
                d5 = upd_wallet (wd_wallet w) (\<lambda>r. r\<lparr>wl_balance := wl_balance wl - totalAmount,
                       wl_held := max 0 (wl_held wl - totalAmount)\<rparr>) d4;
                d6 = log_activity (Some actor) (sm_activity sm) d5
            in Inr (w\<lparr>wd_status := WProcessing, wd_processed := Some now\<rparr>, d6))))))"

definition settle :: "settlement \<Rightarrow> provider \<Rightarrow> nat \<Rightarrow> ident \<Rightarrow> ident \<Rightarrow> db \<Rightarrow> db \<times> withdrawal option result" where
  "settle sm pv now withdrawalId actor d =
     thenDo (transaction (getOrCreateSystemAccount bankClearingAccount) d) (\<lambda>clearing d1.
     thenDo (transaction (settle_transaction sm now withdrawalId actor (la_id clearing)) d1) (\<lambda>w d2.
     thenDo (triggerWithdrawalTransfer pv now withdrawalId d2) (\<lambda>_ d3.
       (d3, Inr (get_withdrawal d3 withdrawalId)))))"

definition user_settlement :: "String.literal \<Rightarrow> settlement" where
  "user_settlement approvalActivity =
     \<lparr>sm_description = ''Withdrawal #'', sm_hold = ''Withdrawal request #'', sm_activity = approvalActivity,
      sm_refuse_self = False\<rparr>"

definition platform_settlement :: "bool \<Rightarrow> settlement" where
  "platform_settlement allowSelfApproval =
     \<lparr>sm_description = ''Platform withdrawal #'', sm_hold = ''Platform withdrawal request #'',
      sm_activity = STR ''PLATFORM_WITHDRAWAL_APPROVED'', sm_refuse_self = (\<not> allowSelfApproval)\<rparr>"

definition settleWithdrawal ::
    "provider \<Rightarrow> nat \<Rightarrow> ident \<Rightarrow> ident \<Rightarrow> String.literal \<Rightarrow> db \<Rightarrow> db \<times> withdrawal option result" where
  "settleWithdrawal pv now withdrawalId actor approvalActivity d =
     settle (user_settlement approvalActivity) pv now withdrawalId actor d"

definition approveUserWithdrawal :: "provider \<Rightarrow> nat \<Rightarrow> ident \<Rightarrow> ident \<Rightarrow> db \<Rightarrow> db \<times> withdrawal option result" where
  "approveUserWithdrawal pv now withdrawalId adminUserId d =
     (if \<not> is_platform_admin adminUserId d
      then (d, Inl (Forbidden (STR ''Only platform admins can approve withdrawals'')))
      else settleWithdrawal pv now withdrawalId adminUserId (STR ''USER_WITHDRAWAL_APPROVED'') d)"

definition approvePlatformWithdrawal ::
    "provider \<Rightarrow> nat \<Rightarrow> ident \<Rightarrow> ident \<Rightarrow> bool \<Rightarrow> db \<Rightarrow> db \<times> withdrawal option result" where
  "approvePlatformWithdrawal pv now withdrawalId adminUserId allowSelfApproval d =
     (if \<not> is_platform_admin adminUserId d
      then (d, Inl (Forbidden (STR ''Only platform admins can approve platform withdrawals'')))
      else settle (platform_settlement allowSelfApproval) pv now withdrawalId adminUserId d)"

text \<open>Organizations and platform administrators: the request is settled at once.\<close>

definition requestOrganizationWithdrawal ::
    "provider \<Rightarrow> fee_config option \<Rightarrow> nat \<Rightarrow> ident \<Rightarrow> ident \<Rightarrow> int \<Rightarrow> ident \<Rightarrow> db
      \<Rightarrow> db \<times> withdrawal option result" where
  "requestOrganizationWithdrawal pv fees now userId organizationId amount bankAccountId d =
     thenDo (d, assertOrganizationAdminScope userId organizationId d) (\<lambda>_ d0.
     thenDo (getOrCreateWallet (OrganizationOwner organizationId) d0) (\<lambda>w d1.
     thenDo (d1, getBankAccountById bankAccountId userId d1) (\<lambda>b d2.
     thenDo (d2, require (ba_code b \<noteq> None \<and> ba_code b \<noteq> Some '''')
       (BadRequest (STR ''Bank code is required for payouts''))) (\<lambda>_ d3.
     thenDo (ensurePayoutDestination pv True b d3) (\<lambda>dest d4.
     let charges = calculateOrganizationWithdrawalCharges amount
     in thenDo (transaction (place_withdrawal fees now
            \<lparr>rq_user = userId, rq_wallet = wl_id w, rq_amount = amount, rq_charges = charges,
             rq_fixed_fee = Some (wc_fee charges),
             rq_meta = request_meta OrganizationWithdrawal (Some organizationId) (de_id dest) charges,
             rq_reference = ''ORG_WTH_'', rq_hold = ''Withdrawal request #'', rq_activity = None\<rparr>) d4) (\<lambda>wd d5.
          settleWithdrawal pv now (wd_id wd) userId (STR ''ORGANIZATION_WITHDRAWAL_APPROVED'') d5))))))"

definition requestPlatformWithdrawal ::
    "provider \<Rightarrow> fee_config option \<Rightarrow> nat \<Rightarrow> ident \<Rightarrow> int \<Rightarrow> ident \<Rightarrow> db \<Rightarrow> db \<times> withdrawal option result" where
  "requestPlatformWithdrawal pv fees now userId amount bankAccountId d =
     thenDo (d, require (is_platform_admin userId d)
       (Forbidden (STR ''Only platform admins can request platform withdrawals''))) (\<lambda>_ d0.
     thenDo (getOrCreateWallet PlatformOwner d0) (\<lambda>w d1.
     thenDo (d1, getBankAccountById bankAccountId userId d1) (\<lambda>b d2.
     thenDo (ensurePayoutDestination pv True b d2) (\<lambda>dest d3.
     let charges = calculatePlatformWithdrawalCharges amount
     in thenDo (transaction (place_withdrawal fees now
            \<lparr>rq_user = userId, rq_wallet = wl_id w, rq_amount = amount, rq_charges = charges,
             rq_fixed_fee = Some (wc_fee charges),
             rq_meta = request_meta PlatformWithdrawal None (de_id dest) charges,
             rq_reference = ''PLATFORM_WTH_'', rq_hold = ''Platform withdrawal request #'',
             rq_activity = Some (STR ''PLATFORM_WITHDRAWAL_REQUESTED'')\<rparr>) d3) (\<lambda>wd d4.
          approvePlatformWithdrawal pv now (wd_id wd) userId True d4)))))"

section \<open>Rejection\<close>

definition reject_transaction :: "nat \<Rightarrow> ident \<Rightarrow> ident \<Rightarrow> db \<Rightarrow> (withdrawal \<times> db) result" where
  "reject_transaction now withdrawalId adminUserId d =
     andThen (require_some (get_withdrawal d withdrawalId) (NotFound (STR ''Withdrawal not found''))) (\<lambda>w.
     andThen (require (wd_status w = WPending) (BadRequest (STR ''Withdrawal is not pending''))) (\<lambda>_.
     let totalAmount = wd_amount w + wd_fee w;
         held = (case get_wallet d (wd_wallet w) of None \<Rightarrow> 0 | Some wl \<Rightarrow> wl_held wl);
         d1 = upd_withdrawal withdrawalId (\<lambda>r. r\<lparr>wd_status := WFailed, wd_failed := Some now\<rparr>) d;
         d2 = release_holds now (wd_wallet w) withdrawalId d1;
         d3 = upd_wallet (wd_wallet w) (\<lambda>r. r\<lparr>wl_held := max 0 (held - totalAmount)\<rparr>) d2;
         d4 = log_activity (Some adminUserId) (STR ''USER_WITHDRAWAL_REJECTED'') d3
     in Inr (w\<lparr>wd_status := WFailed, wd_failed := Some now\<rparr>, d4)))"

definition rejectUserWithdrawal :: "nat \<Rightarrow> ident \<Rightarrow> ident \<Rightarrow> db \<Rightarrow> db \<times> withdrawal result" where
  "rejectUserWithdrawal now withdrawalId adminUserId d =
     (if \<not> is_platform_admin adminUserId d
      then (d, Inl (Forbidden (STR ''Only platform admins can reject withdrawals'')))
      else transaction (reject_transaction now withdrawalId adminUserId) d)"

end
