(* ===== verification/WithdrawalWebhooks.thy ===== *)
theory WithdrawalWebhooks
  imports Prelude FinanceDb Ledger Wallets Withdrawals
begin

text \<open>
  \<open>WithdrawalWebhookService\<close> (\<open>src/v1/finance/withdrawal-webhook.service.ts\<close>): the provider's
  reports on payouts and the periodic reconciliation that asks for them. Payloads are records of
  the members the code reads, a missing or empty member being \<open>None\<close>. Event emission and cache
  invalidation are left out.
\<close>

section \<open>Payloads\<close>

record hook_metadata =
  hm_withdrawalId :: "ident option"
  hm_withdrawal_id :: "ident option"

record payout_object =
  px_reference :: "string option"
  px_id :: "ident option"
  px_metadata :: "hook_metadata option"

record hook_data =
  hd_object_payout :: "payout_object option"
  hd_payout :: "payout_object option"
  hd_reference :: "string option"
  hd_withdrawal_id :: "ident option"
  hd_payout_id :: "ident option"
  hd_id :: "ident option"
  hd_metadata :: "hook_metadata option"

record payload =
  pl_event :: "string option"
  pl_type :: "string option"
  pl_reference :: "string option"
  pl_payout :: "payout_object option"
  pl_metadata :: "hook_metadata option"
  pl_data :: "hook_data option"

text \<open>\<open>a || b\<close> and \<open>a?.b\<close> on missing values.\<close>

definition js_or :: "'a option \<Rightarrow> 'a option \<Rightarrow> 'a option" where
  "js_or x y = (case x of None \<Rightarrow> y | Some v \<Rightarrow> Some v)"

definition js_dot :: "'a option \<Rightarrow> ('a \<Rightarrow> 'b option) \<Rightarrow> 'b option" where
  "js_dot x f = (case x of None \<Rightarrow> None | Some v \<Rightarrow> f v)"

record identifiers =
  id_reference :: "string option"
  id_provider :: "ident option"
  id_withdrawal :: "ident option"

definition getWebhookIdentifiers :: "payload \<Rightarrow> identifiers" where
  "getWebhookIdentifiers p =
     (let data = pl_data p;
          payout = js_or (js_dot data hd_object_payout) (js_or (js_dot data hd_payout) (pl_payout p));
          metadata = js_or (js_dot payout px_metadata) (js_or (js_dot data hd_metadata) (pl_metadata p))
      in \<lparr>id_reference = js_or (pl_reference p) (js_or (js_dot data hd_reference) (js_dot payout px_reference)),
          id_provider = js_or (js_dot data hd_withdrawal_id) (js_or (js_dot data hd_payout_id)
            (js_or (js_dot data hd_id) (js_dot payout px_id))),
          id_withdrawal = js_or (js_dot metadata hm_withdrawalId) (js_dot metadata hm_withdrawal_id)\<rparr>)"

text \<open>The withdrawal that any of the identifiers given names.\<close>

definition names_withdrawal :: "identifiers \<Rightarrow> withdrawal \<Rightarrow> bool" where
  "names_withdrawal n w \<longleftrightarrow>
     id_withdrawal n = Some (wd_id w) \<or> id_reference n = Some (wd_reference w) \<or>
     (id_provider n \<noteq> None \<and> id_provider n = wd_payout w)"

definition find_withdrawal :: "identifiers \<Rightarrow> db \<Rightarrow> withdrawal option" where
  "find_withdrawal n d = find (names_withdrawal n) (withdrawals d)"

section \<open>Handlers\<close>

text \<open>The webhook row of a withdrawal, one per withdrawal.\<close>

definition upsert_webhook ::
    "withdrawal \<Rightarrow> String.literal \<Rightarrow> String.literal \<Rightarrow> String.literal \<Rightarrow> ident option \<Rightarrow> db \<Rightarrow> db" where
  "upsert_webhook w create_event update_event status provider_reference d =
     (case lookup_by wh_withdrawal (wd_id w) (hooks d) of
        Some _ \<Rightarrow> d\<lparr>hooks := update_by wh_withdrawal (wd_id w) (\<lambda>h. h\<lparr>wh_event := update_event,
          wh_status := status, wh_provider_reference := provider_reference\<rparr>) (hooks d)\<rparr>
      | None \<Rightarrow> d\<lparr>hooks := hooks d @ [\<lparr>wh_withdrawal = wd_id w, wh_event = create_event, wh_status = status,
          wh_amount = wd_amount w, wh_provider_reference = provider_reference\<rparr>]\<rparr>)"

definition complete_withdrawal :: "nat \<Rightarrow> ident option \<Rightarrow> withdrawal \<Rightarrow> db \<Rightarrow> db" where
  "complete_withdrawal now provider_reference w d =
     upsert_webhook w (STR ''withdrawal.succeeded'') (STR ''payout.paid'') (STR ''SUCCESS'') provider_reference
       (upd_withdrawal (wd_id w) (\<lambda>r. r\<lparr>wd_status := WCompleted, wd_completed := Some now,
          wd_hook_status := ''COMPLETED''\<rparr>) d)"

definition handleWithdrawalSucceeded :: "nat \<Rightarrow> payload \<Rightarrow> db \<Rightarrow> db \<times> withdrawal_status result" where
  "handleWithdrawalSucceeded now p d =
     (let n = getWebhookIdentifiers p
      in case find_withdrawal n d of
           None \<Rightarrow> (d, Inl (NotFound (STR ''Withdrawal not found for reference'')))
         | Some w \<Rightarrow>
             if wd_status w = WCompleted then (d, Inr WCompleted)
             else if wd_status w \<noteq> WProcessing
             then (d, Inl (BadRequest (STR ''Cannot complete withdrawal from this status'')))
             else (complete_withdrawal now (id_provider n) w d, Inr WCompleted))"

definition fail_withdrawal :: "nat \<Rightarrow> ident option \<Rightarrow> withdrawal \<Rightarrow> wallet \<Rightarrow> db \<Rightarrow> db" where
  "fail_withdrawal now provider_reference w wl d =
     (let totalAmount = wd_amount w + wd_fee w;
          wasDebited = (wd_status w = WProcessing);
          d1 = upd_withdrawal (wd_id w) (\<lambda>r. r\<lparr>wd_status := WFailed, wd_failed := Some now,
                 wd_hook_status := ''FAILED''\<rparr>) d;
          d2 = release_holds now (wd_wallet w) (''Withdrawal request #'' @ wd_id w) d1;
          d3 = upd_wallet (wd_wallet w) (\<lambda>r. r\<lparr>
                 wl_balance := wl_balance r + (if wasDebited then totalAmount else 0),
                 wl_held := max 0 (wl_held wl - totalAmount)\<rparr>) d2;
          d4 = (if wasDebited then refund_accounts wl totalAmount d3 else d3);
          d5 = mark_entry_reversed (wd_entry w) d4;
          d6 = snd (reverseOrganizationWithdrawalPlatformFee (wd_id w) (wd_meta w) d5)
      in upsert_webhook w (STR ''withdrawal.failed'') (STR ''payout.failed'') (STR ''FAILED'') provider_reference d6)"

definition handleWithdrawalFailed :: "nat \<Rightarrow> payload \<Rightarrow> db \<Rightarrow> db \<times> withdrawal_status result" where
  "handleWithdrawalFailed now p d =
     (let n = getWebhookIdentifiers p
      in case find_withdrawal n d of
           None \<Rightarrow> (d, Inl (NotFound (STR ''Withdrawal not found for reference'')))
         | Some w \<Rightarrow>
             if wd_status w = WFailed then (d, Inr WFailed)
             else case get_wallet d (wd_wallet w) of
               None \<Rightarrow> (d, Inl (Internal (STR ''Withdrawal without a wallet'')))
             | Some wl \<Rightarrow> (fail_withdrawal now (id_provider n) w wl d, Inr WFailed))"

definition pend_withdrawal :: "ident option \<Rightarrow> withdrawal \<Rightarrow> db \<Rightarrow> db" where
  "pend_withdrawal provider_reference w d =
     upsert_webhook w (STR ''withdrawal.pending'') (STR ''payout.created'') (STR ''PENDING'') provider_reference
       (upd_withdrawal (wd_id w) (\<lambda>r. r\<lparr>wd_status := WProcessing\<rparr>) d)"

definition handleWithdrawalPending :: "payload \<Rightarrow> db \<Rightarrow> db \<times> withdrawal_status result" where
  "handleWithdrawalPending p d =
     (let n = getWebhookIdentifiers p
      in case find_withdrawal n d of
           None \<Rightarrow> (d, Inl (NotFound (STR ''Withdrawal not found for reference'')))
         | Some w \<Rightarrow>
             if wd_status w = WCompleted \<or> wd_status w = WFailed then (d, Inr (wd_status w))
             else (pend_withdrawal (id_provider n) w d, Inr WProcessing))"

section \<open>The dispatcher\<close>

datatype hook_event = PayoutSucceeded | PayoutFailed | PayoutPending | PayoutUnhandled

definition event_of :: "string option \<Rightarrow> hook_event" where
  "event_of e =
     (case e of
        None \<Rightarrow> PayoutUnhandled
      | Some s \<Rightarrow>
          if s \<in> {''withdrawal.succeeded'', ''transfer.succeeded'', ''payout.succeeded'', ''payout.paid'',
                  ''payout.completed'', ''payout.successful''} then PayoutSucceeded
          else if s \<in> {''withdrawal.failed'', ''transfer.failed'', ''payout.failed''} then PayoutFailed
          else if s \<in> {''withdrawal.pending'', ''transfer.pending'', ''payout.created''} then PayoutPending
          else PayoutUnhandled)"

text \<open>
  The signature check: the client's own check for the Bachs provider, an HMAC comparison under a
  configured secret otherwise. Secrets, HMAC and the client's check are arguments; buffers of
  different lengths make \<open>timingSafeEqual\<close> throw, which counts as invalid.
\<close>

record signing =
  sn_bachs :: "string \<Rightarrow> string \<Rightarrow> string \<Rightarrow> bool"
  sn_secret :: "string \<Rightarrow> string option"
  sn_hmac :: "string \<Rightarrow> string \<Rightarrow> string"

definition verifyWebhookSignature ::
    "signing \<Rightarrow> string \<Rightarrow> string \<Rightarrow> string \<Rightarrow> string option \<Rightarrow> string option \<Rightarrow> bool" where
  "verifyWebhookSignature sn body signature provider timestamp rawBody =
     (if map upper_char provider = ''BACHS''
      then sn_bachs sn (or_else rawBody body) signature (or_else timestamp '''')
      else case sn_secret sn (if provider = ''Paystack'' then ''PAYSTACK_WEBHOOK_SECRET''
                              else ''WITHDRAWAL_WEBHOOK_SECRET'') of
             None \<Rightarrow> False
           | Some secret \<Rightarrow> signature = sn_hmac sn secret body)"

definition dispatch :: "nat \<Rightarrow> payload \<Rightarrow> db \<Rightarrow> db \<times> withdrawal_status option result" where
  "dispatch now p d =
     (let reply = (\<lambda>(d', r). (d', case r of Inl e \<Rightarrow> Inl e | Inr s \<Rightarrow> Inr (Some s)))
      in case event_of (js_or (pl_event p) (pl_type p)) of
           PayoutSucceeded \<Rightarrow> reply (handleWithdrawalSucceeded now p d)
         | PayoutFailed \<Rightarrow> reply (handleWithdrawalFailed now p d)
         | PayoutPending \<Rightarrow> reply (handleWithdrawalPending p d)
         | PayoutUnhandled \<Rightarrow> (d, Inr None))"

definition processWebhook ::
    "signing \<Rightarrow> nat \<Rightarrow> string \<Rightarrow> payload \<Rightarrow> string \<Rightarrow> string \<Rightarrow> string option \<Rightarrow> string option \<Rightarrow> db
      \<Rightarrow> db \<times> withdrawal_status option result" where
  "processWebhook sn now provider p body signature timestamp rawBody d =
     (if \<not> verifyWebhookSignature sn body signature provider timestamp rawBody
      then (d, Inl (BadRequest (STR ''Invalid webhook signature'')))
      else dispatch now p d)"

section \<open>Reconciliation of stale payouts\<close>

text \<open>What the provider reports of a payout: its status and the members of the answer.\<close>

record payout_report =
  pr_status :: "string option"
  pr_data :: hook_data

definition is_stale :: "nat \<Rightarrow> withdrawal \<Rightarrow> bool" where
  "is_stale staleBefore w \<longleftrightarrow>
     wd_status w = WProcessing \<and> wd_payout w \<noteq> None \<and>
     (case wd_processed w of None \<Rightarrow> False | Some t \<Rightarrow> t \<le> staleBefore)"

definition stale_withdrawals :: "nat \<Rightarrow> db \<Rightarrow> withdrawal list" where
  "stale_withdrawals staleBefore d =
     take 100 (sort_key (\<lambda>w. or_else (wd_processed w) 0) (filter (is_stale staleBefore) (withdrawals d)))"

definition report_payload :: "payout_report \<Rightarrow> withdrawal \<Rightarrow> payload" where
  "report_payload r w =
     (let reference = js_or (hd_reference (pr_data r)) (Some (wd_reference w))
      in \<lparr>pl_event = None, pl_type = None, pl_reference = reference, pl_payout = None, pl_metadata = None,
          pl_data = Some ((pr_data r)\<lparr>hd_payout_id := js_or (hd_id (pr_data r)) (wd_payout w),
                                      hd_reference := reference\<rparr>)\<rparr>)"

definition reconcile_one :: "(ident \<Rightarrow> payout_report result) \<Rightarrow> nat \<Rightarrow> withdrawal \<Rightarrow> db \<Rightarrow> db" where
  "reconcile_one getPayout now w d =
     (case getPayout (the (wd_payout w)) of
        Inl _ \<Rightarrow> d
      | Inr r \<Rightarrow>
          let status = to_upper (or_else (pr_status r) '''');
              p = report_payload r w
          in if status \<in> {''PAID'', ''SUCCEEDED'', ''SUCCESS'', ''COMPLETED''}
             then fst (handleWithdrawalSucceeded now p d)
             else if status \<in> {''FAILED'', ''REJECTED'', ''CANCELLED'', ''CANCELED''}
             then fst (handleWithdrawalFailed now p d)
             else d)"

definition reconcileStaleProcessingWithdrawals :: "(ident \<Rightarrow> payout_report result) \<Rightarrow> nat \<Rightarrow> db \<Rightarrow> db" where
  "reconcileStaleProcessingWithdrawals getPayout now d =
     fold (reconcile_one getPayout now) (stale_withdrawals (now - 5 * 60 * 1000) d) d"

end
