(* ===== verification/WithdrawalBooks.thy ===== *)
theory WithdrawalBooks
  imports Prelude Books Withdrawals WithdrawalWebhooks
begin

text \<open>
  The books under the withdrawal lifecycle: every request, settlement, payout submission,
  compensation, rejection and provider report keeps each wallet equal to its ledger account and
  the trial balance unchanged, on its successful and on its failing paths.
\<close>

section \<open>Elementary steps\<close>

lemma movement_upd_withdrawal:
  assumes "\<And>r. wd_id (f r) = wd_id r" and "\<And>r. wd_status (f r) = WPending \<Longrightarrow> wd_status r = WPending"
  shows "movement (\<lambda>_. 0) (\<lambda>_. 0) d (upd_withdrawal i f d)"
proof (rule movement_frame)
  fix k
  assume k: "map_option wd_status (get_withdrawal (upd_withdrawal i f d) k) \<in> {None, Some WPending}"
  show "map_option wd_status (get_withdrawal d k) \<in> {None, Some WPending}"
  proof (cases "get_withdrawal d k")
    case (Some r)
    with k assms(2) [of r] show ?thesis by (cases "k = i") (simp_all add: table_simps assms(1))
  qed simp
qed (simp_all add: table_simps assms(1))

lemma movement_upd_entry:
  assumes "\<And>r. je_id (f r) = je_id r" and "\<And>r. je_withdrawal (f r) = je_withdrawal r"
  shows "movement (\<lambda>_. 0) (\<lambda>_. 0) d (upd_entry e f d)"
  by (rule movement_frame) (simp_all add: table_simps assms)

lemma movement_mark [simp]: "movement (\<lambda>_. 0) (\<lambda>_. 0) d (mark_entry_reversed e d)"
  by (cases e) (simp_all add: mark_entry_reversed_def movement_refl movement_upd_entry)

lemma movement_release [simp]: "movement (\<lambda>_. 0) (\<lambda>_. 0) d (release_holds now k p d)"
  by (rule movement_frame) (simp_all add: release_holds_def)

lemma movement_log [simp]: "movement (\<lambda>_. 0) (\<lambda>_. 0) d (log_activity u a d)"
  by (rule movement_frame) (simp_all add: log_activity_def)

lemma movement_hook [simp]: "movement (\<lambda>_. 0) (\<lambda>_. 0) d (upsert_webhook w c u s p d)"
  by (cases "lookup_by wh_withdrawal (wd_id w) (hooks d)")
    (rule movement_frame; simp add: upsert_webhook_def)+

lemma movement_bank [simp]: "movement (\<lambda>_. 0) (\<lambda>_. 0) d (upd_bank k f d)"
  by (rule movement_frame) (simp_all add: upd_bank_def)

lemma movement_new_withdrawal:
  assumes "wd_id w = fresh_id d"
  shows "movement (\<lambda>_. 0) (\<lambda>_. 0) d (d\<lparr>withdrawals := withdrawals d @ [w], seq := Suc (seq d)\<rparr>)"
    (is "movement _ _ d ?d")
proof -
  have "keys_ok ?d" if keys: "keys_ok d"
  proof -
    have i: "inj (idgen ?d)" using keys by (simp add: keys_ok_def)
    have ids: "map wd_id (withdrawals ?d) = map wd_id (withdrawals d) @ [idgen ?d (seq d)]"
      by (simp add: assms fresh_id_def)
    have mono: "fresh_for ?d ks" if "fresh_for d ks" for ks
      using that by (rule fresh_for_mono) simp_all
    have "fresh_for d (map wd_id (withdrawals d))" using keys by (simp add: keys_ok_def)
    then have "idgen d (seq d) \<notin> set (map wd_id (withdrawals d))" by (simp add: fresh_for_def)
    with keys i mono fresh_for_snoc [OF i, of "map wd_id (withdrawals d)" "seq d"] show ?thesis
      unfolding keys_ok_def ids by simp
  qed
  moreover have "postings_ok ?d" if "postings_ok d"
    unfolding postings_ok_def
  proof (intro allI impI)
    fix i
    assume "lookup_by je_withdrawal (Some i) (entries ?d) \<noteq> None"
    with that have "map_option wd_status (get_withdrawal d i) \<notin> {None, Some WPending}"
      unfolding postings_ok_def by simp
    then show "map_option wd_status (get_withdrawal ?d i) \<notin> {None, Some WPending}"
      by (cases "get_withdrawal d i") (simp_all add: table_simps)
  qed
  ultimately show ?thesis by (simp add: movement_def clearing_id_def)
qed

lemma movement_hold:
  "movement (\<lambda>_. 0) (\<lambda>_. 0) d (d\<lparr>wallets := adjust wl_id wl_held_update k x (wallets d)\<rparr>)"
proof (cases "get_wallet d k")
  case None
  then show ?thesis by (simp add: adjust_def update_by_absent movement_refl)
next
  case (Some w)
  have "movement (\<lambda>i. if i = k then 0 else 0) (\<lambda>_. 0) d (upd_wallet k (wl_held_update (\<lambda>b. b + x)) d)"
    by (rule movement_upd_wallet [OF Some]) simp_all
  then show ?thesis by (simp add: adjust_def)
qed

text \<open>Steps without a movement, one after the other.\<close>

lemma movement_then:
  "movement f g d d1 \<Longrightarrow> movement (\<lambda>_. 0) (\<lambda>_. 0) d1 d2 \<Longrightarrow> movement f g d d2"
  using movement_trans [of f g d d1 "\<lambda>_. 0" "\<lambda>_. 0" d2] by simp

lemma then_movement:
  "movement (\<lambda>_. 0) (\<lambda>_. 0) d d1 \<Longrightarrow> movement f g d1 d2 \<Longrightarrow> movement f g d d2"
  using movement_trans [of "\<lambda>_. 0" "\<lambda>_. 0" d d1 f g d2] by simp

section \<open>Requests\<close>

lemma place_withdrawal_keeps:
  assumes "place_withdrawal fees now q d = Inr (w, d')"
  shows "keeps_ledger d d'"
proof -
  let ?w = "new_withdrawal (fresh_id d) q"
  let ?d1 = "d\<lparr>withdrawals := withdrawals d @ [?w], seq := Suc (seq d)\<rparr>"
  let ?d2 = "?d1\<lparr>holds := holds ?d1 @ [new_hold now (fresh_id d) q (rq_amount q + wc_fee (rq_charges q))]\<rparr>"
  let ?d3 = "?d2\<lparr>wallets := adjust wl_id wl_held_update (rq_wallet q) (rq_amount q + wc_fee (rq_charges q)) (wallets ?d2)\<rparr>"
  from assms have d': "d' = (case rq_activity q of None \<Rightarrow> ?d3 | Some a \<Rightarrow> log_activity (Some (rq_user q)) a ?d3)"
    unfolding place_withdrawal_def Let_def by (metis (no_types, lifting) Inr_inject Pair_inject sum.distinct(1))
  have "movement (\<lambda>_. 0) (\<lambda>_. 0) d ?d1" by (rule movement_new_withdrawal) (simp add: new_withdrawal_def)
  then have "movement (\<lambda>_. 0) (\<lambda>_. 0) d ?d2" by (rule movement_then) (rule movement_frame; simp)
  then have "movement (\<lambda>_. 0) (\<lambda>_. 0) d ?d3" by (rule movement_then) (rule movement_hold)
  then have "movement (\<lambda>_. 0) (\<lambda>_. 0) d d'"
    unfolding d' by (cases "rq_activity q") (simp_all add: movement_then [OF _ movement_log])
  then show ?thesis by (rule movement_still)
qed

lemma ensurePayoutDestination_keeps: "keeps_ledger d (fst (ensurePayoutDestination pv u b d))"
  by (simp add: ensurePayoutDestination_def Let_def movement_still split: option.split sum.split)

section \<open>Settlement\<close>

text \<open>What a settlement that succeeds has read and written.\<close>

definition settled :: "settlement \<Rightarrow> nat \<Rightarrow> ident \<Rightarrow> ident \<Rightarrow> ident \<Rightarrow> withdrawal \<Rightarrow> wallet \<Rightarrow> db \<Rightarrow> db" where
  "settled sm now i actor e w wl d2 =
     log_activity (Some actor) (sm_activity sm)
       (upd_wallet (wd_wallet w) (\<lambda>r. r\<lparr>wl_balance := wl_balance wl - wd_total w,
            wl_held := max 0 (wl_held wl - wd_total w)\<rparr>)
         (release_holds now (wd_wallet w) (sm_hold sm @ i) (upd_withdrawal i (\<lambda>r. r\<lparr>wd_entry := Some e\<rparr>) d2)))"

lemma settle_transaction_InrD:
  assumes "settle_transaction sm now i actor c d = Inr (v, d')"
  obtains w wl a e d2 where "get_withdrawal d i = Some w" and "wd_status w = WPending"
    and "\<not> (wd_user w = actor \<and> wm_type (wd_meta w) = PlatformWithdrawal \<and> sm_refuse_self sm)"
    and "get_wallet d (wd_wallet w) = Some wl" and "wl_account wl = Some a"
    and "createOrReuseWithdrawalJournal now (settlement_entry sm i actor c a (wd_total w)) i
      (upd_withdrawal i (\<lambda>r. r\<lparr>wd_status := WProcessing, wd_processed := Some now\<rparr>) d) = Inr (e, d2)"
    and "d' = settled sm now i actor e w wl d2"
    and "v = w\<lparr>wd_status := WProcessing, wd_processed := Some now\<rparr>"
proof -
  obtain w where w: "get_withdrawal d i = Some w"
    using assms by (cases "get_withdrawal d i") (simp_all add: settle_transaction_def)
  have st: "wd_status w = WPending" and self: "\<not> (wd_user w = actor \<and> wm_type (wd_meta w) = PlatformWithdrawal \<and> sm_refuse_self sm)"
    using assms w by (simp_all add: settle_transaction_def result_simps)
  obtain wl where wl: "get_wallet d (wd_wallet w) = Some wl"
    using assms w st self by (cases "get_wallet d (wd_wallet w)") (simp_all add: settle_transaction_def)
  obtain a where a: "wl_account wl = Some a"
    using assms w st self wl by (cases "wl_account wl") (simp_all add: settle_transaction_def)
  define d1 where "d1 = upd_withdrawal i (\<lambda>r. r\<lparr>wd_status := WProcessing, wd_processed := Some now\<rparr>) d"
  obtain p where p: "createOrReuseWithdrawalJournal now (settlement_entry sm i actor c a (wd_total w)) i d1 = Inr p"
    using assms w st self wl a
    by (cases "createOrReuseWithdrawalJournal now (settlement_entry sm i actor c a (wd_total w)) i d1")
      (simp_all add: settle_transaction_def d1_def)
  obtain e d2 where ed: "p = (e, d2)" by (cases p)
  have "settle_transaction sm now i actor c d = Inr (w\<lparr>wd_status := WProcessing, wd_processed := Some now\<rparr>,
      settled sm now i actor e w wl d2)"
    using w st self wl a p ed by (simp add: settle_transaction_def d1_def settled_def Let_def)
  then have "Inr (v, d') = (Inr (w\<lparr>wd_status := WProcessing, wd_processed := Some now\<rparr>,
      settled sm now i actor e w wl d2) :: (withdrawal \<times> db) result)"
    using assms by metis
  then have "v = w\<lparr>wd_status := WProcessing, wd_processed := Some now\<rparr>" and "d' = settled sm now i actor e w wl d2"
    by (metis Inr_inject Pair_inject)+
  with w st self wl a p ed show thesis by (intro that) (simp_all add: d1_def)
qed

lemma effect_on_settlement:
  "effect_on k (ed_lines (settlement_entry sm i actor c a t)) = moved (Some a) (- t) k + moved (Some c) t k"
  by (simp add: settlement_entry_def balance_change_def)

text \<open>With the postings in order, a pending withdrawal is posted rather than reused.\<close>

lemma pending_unposted:
  assumes "postings_ok d" and "get_withdrawal d i = Some w" and "wd_status w = WPending"
  shows "lookup_by je_withdrawal (Some i) (entries d) = None"
  using assms unfolding postings_ok_def by (metis insertCI option.simps(9))

lemma settle_posting:
  assumes "createOrReuseWithdrawalJournal now (settlement_entry sm i actor c a t) i
      (upd_withdrawal i (\<lambda>r. r\<lparr>wd_status := WProcessing, wd_processed := Some now\<rparr>) d) = Inr (e, d2)"
    and "get_withdrawal d i = Some w" and "wd_status w = WPending" and "keys_ok d" and "postings_ok d"
  shows "createJournalEntry now (settlement_entry sm i actor c a t)
      (upd_withdrawal i (\<lambda>r. r\<lparr>wd_status := WProcessing, wd_processed := Some now\<rparr>) d) = Inr (e, d2)"
    and "keys_ok (upd_withdrawal i (\<lambda>r. r\<lparr>wd_status := WProcessing, wd_processed := Some now\<rparr>) d)"
  using assms(1) pending_unposted [OF assms(5,2,3)]
    movementD(1) [OF movement_upd_withdrawal, of "\<lambda>r. r\<lparr>wd_status := WProcessing, wd_processed := Some now\<rparr>" d i] assms(4)
  by (simp_all add: createOrReuseWithdrawalJournal_def)

lemma settle_transaction_movement:
  assumes "settle_transaction sm now i actor c d = Inr (v, d')" and "keys_ok d" and "postings_ok d"
  obtains w wl a where "get_withdrawal d i = Some w" and "wd_status w = WPending"
    and "get_wallet d (wd_wallet w) = Some wl" and "wl_account wl = Some a"
    and "movement (\<lambda>k. if k = wd_wallet w then - wd_total w else 0)
      (\<lambda>k. moved (Some a) (- wd_total w) k + moved (Some c) (wd_total w) k) d d'"
proof (rule settle_transaction_InrD [OF assms(1)])
  fix w wl a e d2
  let ?d1 = "upd_withdrawal i (\<lambda>r. r\<lparr>wd_status := WProcessing, wd_processed := Some now\<rparr>) d"
  let ?x = "settlement_entry sm i actor c a (wd_total w)"
  assume w: "get_withdrawal d i = Some w" "wd_status w = WPending"
    and wl: "get_wallet d (wd_wallet w) = Some wl" "wl_account wl = Some a"
    and p: "createOrReuseWithdrawalJournal now ?x i ?d1 = Inr (e, d2)"
    and d': "d' = settled sm now i actor e w wl d2"
  note P = settle_posting [OF p w assms(2,3)]
  have post: "movement (\<lambda>_. 0) (\<lambda>k. effect_on k (ed_lines ?x)) ?d1 d2"
    by (rule movement_posting [OF P]) (use w in \<open>simp add: table_simps settlement_entry_def\<close>)
  have "movement (\<lambda>_. 0) (\<lambda>_. 0) d ?d1" by (rule movement_upd_withdrawal) simp_all
  from then_movement [OF this post]
  have "movement (\<lambda>_. 0) (\<lambda>k. effect_on k (ed_lines ?x)) d d2" .
  then have m: "movement (\<lambda>_. 0) (\<lambda>k. effect_on k (ed_lines ?x)) d
      (release_holds now (wd_wallet w) (sm_hold sm @ i) (upd_withdrawal i (\<lambda>r. r\<lparr>wd_entry := Some e\<rparr>) d2))"
    (is "movement _ _ d ?d4")
    by (intro movement_then [OF movement_then [OF _ movement_upd_withdrawal] movement_release]) simp_all
  have "get_wallet ?d4 (wd_wallet w) = Some wl"
    using wl(1) posting(2) [OF P] by (simp add: release_holds_def)
  then have "movement (\<lambda>k. if k = wd_wallet w then - wd_total w else 0) (\<lambda>_. 0) ?d4
      (upd_wallet (wd_wallet w) (\<lambda>r. r\<lparr>wl_balance := wl_balance wl - wd_total w,
        wl_held := max 0 (wl_held wl - wd_total w)\<rparr>) ?d4)"
    by (rule movement_upd_wallet) simp_all
  from movement_then [OF movement_trans [OF m this] movement_log]
  have "movement (\<lambda>k. if k = wd_wallet w then - wd_total w else 0)
      (\<lambda>k. moved (Some a) (- wd_total w) k + moved (Some c) (wd_total w) k) d d'"
    by (simp only: effect_on_settlement d' settled_def add_0 add_0_right)
  with w wl show thesis by (rule that)
qed

lemma settle_transaction_keeps:
  assumes "settle_transaction sm now i actor c d = Inr (v, d')"
    and "map_option la_wallet (get_account d c) = Some None"
  shows "keeps_ledger d d'"
proof (rule keeps_ledgerI)
  assume ok: "ledger_ok d"
  then have "keys_ok d" "postings_ok d" by (simp_all add: ledger_ok_def books_ok_def)
  then show "ledger_ok d' \<and> trial_balance d' = trial_balance d"
  proof (rule settle_transaction_movement [OF assms(1)])
    fix w wl a
    assume wl: "get_wallet d (wd_wallet w) = Some wl" "wl_account wl = Some a"
      and m: "movement (\<lambda>k. if k = wd_wallet w then - wd_total w else 0)
        (\<lambda>k. moved (Some a) (- wd_total w) k + moved (Some c) (wd_total w) k) d d'"
    define x where "x = - wd_total w"
    have "movement (\<lambda>k. if k = wd_wallet w then x else 0) (\<lambda>k. moved (Some a) x k + moved (Some c) (- x) k) d d'"
      by (rule movement_cong [OF m]) (simp_all add: x_def)
    then have "keeps_ledger d d'"
      by (rule movement_wallet) (simp_all add: assms(2) wl)
    with ok show ?thesis by (simp add: keeps_ledger_def)
  qed
qed

section \<open>Transfers to and from the clearing account\<close>

text \<open>
  Moving an amount to a wallet and its account, and out of the clearing account, keeps the
  ledger. This is the shape of every refund, fee release and fee charge.
\<close>

lemma transfer_keeps:
  assumes "movement (\<lambda>k. if k = k0 then x else 0)
      (\<lambda>i. moved (wl_account wl) x i + moved (clearing_id d) (- x) i) d d'"
    and "get_wallet d k0 = Some wl"
  shows "keeps_ledger d d'"
proof (rule keeps_ledgerI)
  assume ok: "ledger_ok d"
  then have b: "books_ok d" and o: "accounts_open d" by (simp_all add: ledger_ok_def)
  obtain c where c: "clearing_id d = Some c" using o by (auto simp: accounts_open_def)
  have "map_option wl_account (get_wallet d k0) \<noteq> Some None" using o unfolding accounts_open_def by blast
  with assms(2) obtain a where a: "wl_account wl = Some a" by (cases "wl_account wl") simp_all
  have "movement (\<lambda>k. if k = k0 then x else 0) (\<lambda>i. moved (Some a) x i + moved (Some c) (- x) i) d d'"
    using assms(1) by (simp only: a c)
  then have "keeps_ledger d d'"
    by (rule movement_wallet) (simp_all add: assms(2) a clearing_unlinked [OF b c])
  with ok show "ledger_ok d' \<and> trial_balance d' = trial_balance d" by (simp add: keeps_ledger_def)
qed

lemma transfer_movement:
  "movement (\<lambda>k. if k = k0 then x else 0) (\<lambda>i. moved a x i + moved (clearing_id d) (- x) i) d
     (adjust_account (clearing_id d) (- x) (adjust_account a x (adjust_wallet k0 x d)))"
proof -
  have 1: "movement (\<lambda>k. (if k = k0 then x else 0) + 0) (\<lambda>i. 0 + moved a x i) d (adjust_account a x (adjust_wallet k0 x d))"
    by (rule movement_trans [OF movement_adjust_wallet movement_adjust_account])
  show ?thesis
    by (rule movement_cong [OF movement_trans [OF 1 movement_adjust_account]]) simp_all
qed

lemma platform_wallet_get:
  assumes "ledger_ok d" and "platform_wallet d = Some w"
  shows "get_wallet d (wl_id w) = Some w"
  using assms find_SomeD [of wl_platform "wallets d" w]
  by (intro lookup_by_distinct) (simp_all add: ledger_ok_def books_ok_def keys_ok_def)

text \<open>The release of the platform's share of a fee.\<close>

lemma release_fee_keeps:
  "keeps_ledger d (snd (reverseOrganizationWithdrawalPlatformFee i m d))"
proof (cases "wm_fee_allocated m = None \<or> (case wm_platform_fee m of None \<Rightarrow> 0 | Some f \<Rightarrow> f) \<le> 0")
  case True
  then show ?thesis by (simp add: reverseOrganizationWithdrawalPlatformFee_def Let_def)
next
  case False
  define fee where "fee = (case wm_platform_fee m of None \<Rightarrow> 0 | Some f \<Rightarrow> f)"
  define d1 where "d1 = (case allocation_entry i m d of None \<Rightarrow> d | Some e \<Rightarrow> upd_entry e (\<lambda>r. r\<lparr>je_status := REVERSED\<rparr>) d)"
  have k1: "keeps_ledger d d1"
    by (rule movement_still) (simp add: d1_def movement_refl movement_upd_entry split: option.split)
  have "keeps_ledger d1 (snd (reverseOrganizationWithdrawalPlatformFee i m d))"
  proof (rule keeps_ledgerI)
    assume ok: "ledger_ok d1"
    obtain w where w: "platform_wallet d1 = Some w" using platform_wallet_open [OF ok] by blast
    have "snd (reverseOrganizationWithdrawalPlatformFee i m d) =
        adjust_account (clearing_id d1) (- (- fee)) (adjust_account (wl_account w) (- fee) (adjust_wallet (wl_id w) (- fee) d1))"
      using False w by (cases "wm_fee_allocated m")
        (simp_all add: reverseOrganizationWithdrawalPlatformFee_def Let_def d1_def [symmetric] fee_def [symmetric])
    with transfer_keeps [OF transfer_movement [of _ "- fee"] platform_wallet_get [OF ok w]] ok
    show "ledger_ok (snd (reverseOrganizationWithdrawalPlatformFee i m d)) \<and>
        trial_balance (snd (reverseOrganizationWithdrawalPlatformFee i m d)) = trial_balance d1"
      by (simp add: keeps_ledger_def)
  qed
  with k1 show ?thesis by (rule keeps_ledger_trans)
qed

section \<open>The payout\<close>

lemma charge_fee_difference_keeps:
  assumes "get_wallet d (wd_wallet w) = Some wl"
  shows "keeps_ledger d (charge_fee_difference w fee d)"
proof -
  define x where "x = wd_fee w - fee"
  have x: "fee - wd_fee w = - x" by (simp add: x_def)
  let ?d3 = "adjust_account (clearing_id d) (- x) (adjust_account (wl_account wl) x (adjust_wallet (wd_wallet w) x d))"
  have "get_wallet (adjust_wallet (wd_wallet w) x d) (wd_wallet w) = Some (wl_balance_update (\<lambda>b. b + x) wl)"
    by (simp add: get_adjust_wallet assms)
  then have "charge_fee_difference w fee d = (case wd_entry w of None \<Rightarrow> ?d3 | Some e \<Rightarrow>
      upd_entry e (\<lambda>r. r\<lparr>je_lines := map (\<lambda>l. l\<lparr>jl_amount := wd_amount w + fee\<rparr>) (je_lines r)\<rparr>) ?d3)"
    by (cases "wd_entry w") (simp_all add: charge_fee_difference_def Let_def x)
  moreover have "keeps_ledger d ?d3" by (rule transfer_keeps [OF transfer_movement assms])
  moreover have "keeps_ledger ?d3 (upd_entry e
      (\<lambda>r. r\<lparr>je_lines := map (\<lambda>l. l\<lparr>jl_amount := wd_amount w + fee\<rparr>) (je_lines r)\<rparr>) ?d3)" for e
    by (rule movement_still) (rule movement_upd_entry; simp)
  ultimately show ?thesis
    by (cases "wd_entry w") (simp_all only: option.case, blast intro: keeps_ledger_trans)
qed

lemma allocate_platform_fee_keeps:
  assumes "allocate_platform_fee now w pw fee d = Inr (e, d')" and "platform_wallet d = Some pw"
  shows "keeps_ledger d d'"
proof (rule keeps_ledgerI)
  assume ok: "ledger_ok d"
  then have keys: "keys_ok d" and b: "books_ok d" by (simp_all add: ledger_ok_def books_ok_def)
  from assms(1) obtain r a where r: "account_by_code d ''1100'' = Some r" and a: "wl_account pw = Some a"
    by (cases "account_by_code d ''1100''"; cases "wl_account pw") (simp_all add: allocate_platform_fee_def)
  let ?x = "\<lparr>ed_lines = [\<lparr>jl_account = a, jl_type = DEBIT, jl_amount = fee\<rparr>,
                         \<lparr>jl_account = la_id r, jl_type = CREDIT, jl_amount = fee\<rparr>],
             ed_description = allocation_description (wd_id w), ed_transaction = None, ed_payment = None,
             ed_withdrawal = None, ed_created_by = Some (wd_user w)\<rparr>"
  obtain d1 where d1: "createJournalEntry now ?x d = Inr (e, d1)" and d': "d' = adjust_wallet (wl_id pw) fee d1"
    using assms(1) r a by (cases "createJournalEntry now ?x d") (auto simp: allocate_platform_fee_def)
  have m: "movement (\<lambda>_. 0) (\<lambda>i. effect_on i (ed_lines ?x)) d d1"
    by (rule movement_posting [OF d1 keys]) simp
  have "movement (\<lambda>k. if k = wl_id pw then fee else 0) (\<lambda>i. moved (Some a) fee i + moved (Some (la_id r)) (- fee) i) d d'"
    unfolding d' by (rule movement_cong [OF movement_trans [OF m movement_adjust_wallet]]) (simp_all add: balance_change_def)
  then have "keeps_ledger d d'"
  proof (rule movement_wallet)
    show "map_option wl_account (get_wallet d (wl_id pw)) = Some (Some a)"
      by (simp add: platform_wallet_get [OF ok assms(2)] a)
    show "map_option la_wallet (get_account d (la_id r)) = Some None"
      by (rule clearing_unlinked [OF b]) (simp add: clearing_id_def r)
  qed
  with ok show "ledger_ok d' \<and> trial_balance d' = trial_balance d" by (simp add: keeps_ledger_def)
qed

lemma record_payout_keeps:
  assumes "record_payout now w p pwo d = Inr (u, d')"
    and "\<And>pw. pwo = Some pw \<Longrightarrow> platform_wallet d = Some pw"
  shows "keeps_ledger d d'"
proof -
  define fee where "fee = provider_fee p w"
  define booked where "booked = (case pwo of
      Some pw \<Rightarrow>
        if is_organization_withdrawal w \<and> 0 < retained_fee w fee \<and> wm_fee_allocated (wd_meta w) = None
        then andThen (allocate_platform_fee now w pw (retained_fee w fee) d) (\<lambda>(e, d'). Inr (Some e, d'))
        else Inr (None, d)
    | None \<Rightarrow>
        if \<not> is_organization_withdrawal w \<and> fee - wd_fee w \<noteq> 0
        then andThen (require (get_wallet d (wd_wallet w) \<noteq> None) (Internal (STR ''P2025''))) (\<lambda>_.
          Inr (None, charge_fee_difference w fee d))
        else Inr (None, d))"
  obtain en d1 where b: "booked = Inr (en, d1)"
    and d': "d' = upd_withdrawal (wd_id w) (\<lambda>r. r\<lparr>
             wd_fee := (if is_organization_withdrawal w then wd_fee w else fee),
             wd_payout := po_id p, wd_hook_status := payout_status p,
             wd_hook_attempts := wd_hook_attempts r + 1,
             wd_meta := recorded_meta now w fee en\<rparr>) d1"
    using assms(1) by (cases booked) (auto simp: record_payout_def Let_def booked_def [symmetric] fee_def [symmetric])
  have "keeps_ledger d d1"
  proof (cases pwo)
    case None
    show ?thesis
    proof (cases "\<not> is_organization_withdrawal w \<and> fee - wd_fee w \<noteq> 0")
      case True
      with b None obtain wl where "get_wallet d (wd_wallet w) = Some wl"
        by (cases "get_wallet d (wd_wallet w)") (simp_all add: booked_def)
      from charge_fee_difference_keeps [OF this, of fee] True b None this show ?thesis by (simp add: booked_def)
    next
      case False
      with b None show ?thesis by (simp add: booked_def split: if_splits)
    qed
  next
    case (Some pw)
    show ?thesis
    proof (cases "is_organization_withdrawal w \<and> 0 < retained_fee w fee \<and> wm_fee_allocated (wd_meta w) = None")
      case True
      with b Some obtain e where "allocate_platform_fee now w pw (retained_fee w fee) d = Inr (e, d1)"
        by (cases "allocate_platform_fee now w pw (retained_fee w fee) d") (auto simp: booked_def)
      then show ?thesis by (rule allocate_platform_fee_keeps) (rule assms(2) [OF Some])
    next
      case False
      with b Some show ?thesis by (simp add: booked_def split: if_splits)
    qed
  qed
  moreover have "keeps_ledger d1 d'"
    unfolding d' by (rule movement_still) (rule movement_upd_withdrawal; simp)
  ultimately show ?thesis by (rule keeps_ledger_trans)
qed

lemma submit_payout_keeps: "keeps_ledger d (fst (submit_payout pv now i d))"
proof (rule keeps_ledgerI)
  assume ok: "ledger_ok d"
  obtain pw where pw: "platform_wallet d = Some pw" using platform_wallet_open [OF ok] by blast
  then have g: "getOrCreateWallet PlatformOwner d = (d, Inr pw)" by (simp add: wallet_defs)
  have "keeps_ledger d (fst (transaction (record_payout now w p (Some pw)) d))"
    and "keeps_ledger d (fst (transaction (record_payout now w p None) d))" for w p
    by (rule transaction_keeps, erule record_payout_keeps, simp add: pw)+
  then have "keeps_ledger d (fst (submit_payout pv now i d))"
    by (simp add: submit_payout_def g split: option.split sum.split)
  with ok show "ledger_ok (fst (submit_payout pv now i d)) \<and>
      trial_balance (fst (submit_payout pv now i d)) = trial_balance d"
    by (simp add: keeps_ledger_def)
qed

lemma refund_movement:
  "movement (\<lambda>k. if k = k0 then x else 0) (\<lambda>i. moved (wl_account w) x i + moved (clearing_id d) (- x) i) d
     (refund_accounts w x (adjust_wallet k0 x d))"
  using transfer_movement [of k0 x "wl_account w" d] by (simp add: refund_accounts_def)

lemma compensate_keeps: "keeps_ledger d (compensateFailedPayoutSubmission now i d)"
proof (cases "get_withdrawal d i")
  case None
  then show ?thesis by (simp add: compensateFailedPayoutSubmission_def)
next
  case (Some w)
  show ?thesis
  proof (cases "wd_status w \<noteq> WProcessing \<or> wd_payout w \<noteq> None \<or> get_wallet d (wd_wallet w) = None")
    case True
    with Some show ?thesis
      by (cases "get_wallet d (wd_wallet w)") (auto simp: compensateFailedPayoutSubmission_def)
  next
    case False
    then obtain wl where wl: "get_wallet d (wd_wallet w) = Some wl" by blast
    define d1 where "d1 = upd_withdrawal i (\<lambda>r. r\<lparr>wd_status := WFailed, wd_failed := Some now, wd_hook_status := ''FAILED''\<rparr>) d"
    define d3 where "d3 = refund_accounts wl (wd_total w) (adjust_wallet (wd_wallet w) (wd_total w) d1)"
    have eq: "compensateFailedPayoutSubmission now i d =
        snd (reverseOrganizationWithdrawalPlatformFee i (wd_meta w) (mark_entry_reversed (wd_entry w) d3))"
      using False Some wl by (simp add: compensateFailedPayoutSubmission_def Let_def d1_def d3_def)
    have 1: "keeps_ledger d d1"
      unfolding d1_def by (rule movement_still) (rule movement_upd_withdrawal; simp)
    have "get_wallet d1 (wd_wallet w) = Some wl" using wl by (simp add: d1_def)
    then have 2: "keeps_ledger d1 d3"
      unfolding d3_def by (rule transfer_keeps [OF refund_movement])
    have 3: "keeps_ledger d3 (mark_entry_reversed (wd_entry w) d3)"
      by (rule movement_still) simp
    from keeps_ledger_trans [OF keeps_ledger_trans [OF keeps_ledger_trans [OF 1 2] 3] release_fee_keeps]
    show ?thesis unfolding eq .
  qed
qed

lemma triggerWithdrawalTransfer_keeps: "keeps_ledger d (fst (triggerWithdrawalTransfer pv now i d))"
proof -
  obtain d1 r where s: "submit_payout pv now i d = (d1, r)" by (cases "submit_payout pv now i d")
  then have "keeps_ledger d d1" using submit_payout_keeps [of d pv now i] by simp
  with s keeps_ledger_trans [OF this compensate_keeps] show ?thesis
    by (cases r) (simp_all add: triggerWithdrawalTransfer_def)
qed

section \<open>The handlers\<close>

text \<open>A sequence of steps that each keep the ledger keeps it.\<close>

lemma thenDo_keeps:
  assumes "keeps_ledger d (fst r)" and "\<And>d1 x. r = (d1, Inr x) \<Longrightarrow> keeps_ledger d1 (fst (k x d1))"
  shows "keeps_ledger d (fst (thenDo r k))"
proof -
  obtain d1 v where r: "r = (d1, v)" by (cases r)
  show ?thesis
  proof (cases v)
    case (Inl e)
    with assms(1) show ?thesis by (simp add: r)
  next
    case (Inr x)
    with assms(2) have "keeps_ledger d1 (fst (k x d1))" by (simp add: r)
    with assms(1) Inr show ?thesis by (simp add: r) (rule keeps_ledger_trans)
  qed
qed

lemma settle_keeps: "keeps_ledger d (fst (settle sm pv now i actor d))"
proof (rule keeps_ledgerI)
  assume ok: "ledger_ok d"
  obtain d1 r where s: "transaction (getOrCreateSystemAccount bankClearingAccount) d = (d1, r)"
    by (cases "transaction (getOrCreateSystemAccount bankClearingAccount) d")
  have code: "''1100'' \<in> set system_codes" by (simp add: system_codes_def)
  have "keeps_ledger d (fst (settle sm pv now i actor d))"
  proof (cases r)
    case (Inl e)
    with s have "d1 = d" by (simp add: transaction_Inl)
    with Inl s show ?thesis by (simp add: settle_def)
  next
    case (Inr a)
    with s have a: "getOrCreateSystemAccount (''1100'', ASSET, CatBank) d = Inr (a, d1)"
      by (simp add: transaction_Inr bankClearingAccount_def)
    have u: "map_option la_wallet (get_account d1 (la_id a)) = Some None"
      by (rule system_account(2) [OF a _ code]) (use ok in \<open>simp add: ledger_ok_def\<close>)
    have "keeps_ledger d1 (fst (transaction (settle_transaction sm now i actor (la_id a)) d1))"
      by (rule transaction_keeps) (rule settle_transaction_keeps [OF _ u])
    then have "keeps_ledger d1 (fst (settle sm pv now i actor d))"
      unfolding settle_def s Inr thenDo_simps
      by (rule thenDo_keeps) (rule thenDo_keeps [OF triggerWithdrawalTransfer_keeps], simp)
    with system_account_keeps [OF a code] show ?thesis by (rule keeps_ledger_trans)
  qed
  with ok show "ledger_ok (fst (settle sm pv now i actor d)) \<and>
      trial_balance (fst (settle sm pv now i actor d)) = trial_balance d"
    by (simp add: keeps_ledger_def)
qed

lemma place_transaction_keeps: "keeps_ledger d (fst (transaction (place_withdrawal fees now q) d))"
  by (rule transaction_keeps) (rule place_withdrawal_keeps)

lemma requestUserWithdrawal_keeps: "keeps_ledger d (fst (requestUserWithdrawal pv fees now u amount b d))"
  unfolding requestUserWithdrawal_def Let_def
  by (intro thenDo_keeps getOrCreateWallet_keeps ensurePayoutDestination_keeps place_transaction_keeps) simp

lemma approveUserWithdrawal_keeps: "keeps_ledger d (fst (approveUserWithdrawal pv now i u d))"
  by (simp add: approveUserWithdrawal_def settleWithdrawal_def settle_keeps)

lemma approvePlatformWithdrawal_keeps: "keeps_ledger d (fst (approvePlatformWithdrawal pv now i u s d))"
  by (simp add: approvePlatformWithdrawal_def settle_keeps)

lemma requestOrganizationWithdrawal_keeps:
  "keeps_ledger d (fst (requestOrganizationWithdrawal pv fees now u g amount b d))"
  unfolding requestOrganizationWithdrawal_def Let_def settleWithdrawal_def
  by (intro thenDo_keeps getOrCreateWallet_keeps ensurePayoutDestination_keeps place_transaction_keeps settle_keeps)
    (simp_all add: thenDo_keeps)

lemma requestPlatformWithdrawal_keeps: "keeps_ledger d (fst (requestPlatformWithdrawal pv fees now u amount b d))"
  unfolding requestPlatformWithdrawal_def Let_def
  by (intro thenDo_keeps getOrCreateWallet_keeps ensurePayoutDestination_keeps place_transaction_keeps
      approvePlatformWithdrawal_keeps) simp_all

lemma rejectUserWithdrawal_keeps: "keeps_ledger d (fst (rejectUserWithdrawal now i u d))"
proof -
  have "keeps_ledger d d'" if rt: "reject_transaction now i u d = Inr (v, d')" for v d'
  proof -
    obtain w where w: "get_withdrawal d i = Some w"
      using rt by (cases "get_withdrawal d i") (simp_all add: reject_transaction_def)
    define h where "h = (case get_wallet d (wd_wallet w) of None \<Rightarrow> 0 | Some wl \<Rightarrow> wl_held wl)"
    let ?d2 = "release_holds now (wd_wallet w) i (upd_withdrawal i (\<lambda>r. r\<lparr>wd_status := WFailed, wd_failed := Some now\<rparr>) d)"
    have eq: "d' = log_activity (Some u) (STR ''USER_WITHDRAWAL_REJECTED'')
        (upd_wallet (wd_wallet w) (\<lambda>r. r\<lparr>wl_held := max 0 (h - wd_total w)\<rparr>) ?d2)"
      using rt w by (simp add: reject_transaction_def Let_def result_simps h_def)
    have 1: "movement (\<lambda>_. 0) (\<lambda>_. 0) d ?d2"
      by (intro movement_then [OF movement_upd_withdrawal movement_release]) simp_all
    have 2: "movement (\<lambda>_. 0) (\<lambda>_. 0) e (upd_wallet k (\<lambda>r. r\<lparr>wl_held := v\<rparr>) e)" for k v e
    proof (cases "get_wallet e k")
      case None
      then show ?thesis by (simp add: update_by_absent movement_refl)
    next
      case (Some w)
      have "movement (\<lambda>i. if i = k then 0 else 0) (\<lambda>_. 0) e (upd_wallet k (\<lambda>r. r\<lparr>wl_held := v\<rparr>) e)"
        by (rule movement_upd_wallet [OF Some]) simp_all
      then show ?thesis by simp
    qed
    show ?thesis
      unfolding eq by (rule movement_still) (rule movement_then [OF movement_then [OF 1 2] movement_log])
  qed
  then show ?thesis by (simp add: rejectUserWithdrawal_def transaction_keeps)
qed

section \<open>Reports of the provider\<close>

lemma find_withdrawal_get:
  "find_withdrawal n d = Some w \<Longrightarrow> keys_ok d \<Longrightarrow> get_withdrawal d (wd_id w) = Some w"
  unfolding find_withdrawal_def
  by (drule find_SomeD) (simp add: keys_ok_def lookup_by_distinct)

lemma complete_withdrawal_keeps: "keeps_ledger d (complete_withdrawal now r w d)"
  unfolding complete_withdrawal_def
  by (rule movement_still) (intro movement_then [OF movement_upd_withdrawal movement_hook]; simp)

lemma pend_withdrawal_keeps: "keeps_ledger d (pend_withdrawal r w d)"
  unfolding pend_withdrawal_def
  by (rule movement_still) (intro movement_then [OF movement_upd_withdrawal movement_hook]; simp)

lemma fail_withdrawal_keeps:
  assumes "get_wallet d (wd_wallet w) = Some wl"
  shows "keeps_ledger d (fail_withdrawal now r w wl d)"
proof -
  define x where "x = (if wd_status w = WProcessing then wd_total w else 0)"
  define d2 where "d2 = release_holds now (wd_wallet w) (''Withdrawal request #'' @ wd_id w)
    (upd_withdrawal (wd_id w) (\<lambda>r. r\<lparr>wd_status := WFailed, wd_failed := Some now, wd_hook_status := ''FAILED''\<rparr>) d)"
  define d3 where "d3 = upd_wallet (wd_wallet w) (\<lambda>r. r\<lparr>wl_balance := wl_balance r + x,
    wl_held := max 0 (wl_held wl - wd_total w)\<rparr>) d2"
  define d4 where "d4 = (if wd_status w = WProcessing then refund_accounts wl (wd_total w) d3 else d3)"
  have eq: "fail_withdrawal now r w wl d = upsert_webhook w (STR ''withdrawal.failed'') (STR ''payout.failed'')
      (STR ''FAILED'') r (snd (reverseOrganizationWithdrawalPlatformFee (wd_id w) (wd_meta w)
        (mark_entry_reversed (wd_entry w) d4)))"
    by (simp add: fail_withdrawal_def Let_def d4_def d3_def d2_def x_def)
  have 2: "keeps_ledger d d2"
    unfolding d2_def by (rule movement_still) (intro movement_then [OF movement_upd_withdrawal movement_release]; simp)
  have w2: "get_wallet d2 (wd_wallet w) = Some wl" using assms by (simp add: d2_def release_holds_def)
  have m: "movement (\<lambda>i. if i = wd_wallet w then x else 0) (\<lambda>_. 0) d2 d3"
    unfolding d3_def by (rule movement_upd_wallet [OF w2]) simp_all
  have cl: "clearing_id d3 = clearing_id d2" by (simp add: d3_def clearing_id_def)
  have 4: "keeps_ledger d2 d4"
  proof (cases "wd_status w = WProcessing")
    case True
    have d4: "d4 = adjust_account (clearing_id d2) (- x) (adjust_account (wl_account wl) x d3)"
      using True cl by (simp add: d4_def refund_accounts_def x_def)
    have "movement (\<lambda>k. if k = wd_wallet w then x else 0)
        (\<lambda>i. moved (wl_account wl) x i + moved (clearing_id d2) (- x) i) d2 d4"
      unfolding d4
      by (rule movement_cong [OF movement_trans [OF movement_trans [OF m movement_adjust_account] movement_adjust_account]])
        simp_all
    then show ?thesis by (rule transfer_keeps) (rule w2)
  next
    case False
    have "movement (\<lambda>_. 0) (\<lambda>_. 0) d2 d3"
      by (rule movement_cong [OF m]) (simp_all add: x_def False)
    with False show ?thesis by (simp add: d4_def movement_still)
  qed
  have 5: "keeps_ledger d4 (mark_entry_reversed (wd_entry w) d4)"
    by (rule movement_still) simp
  have 6: "keeps_ledger e (upsert_webhook w a b c r e)" for a b c e
    by (rule movement_still) simp
  show ?thesis
    unfolding eq
    by (rule keeps_ledger_trans [OF keeps_ledger_trans [OF keeps_ledger_trans [OF keeps_ledger_trans [OF 2 4] 5]
            release_fee_keeps] 6])
qed

lemma handleWithdrawalSucceeded_keeps: "keeps_ledger d (fst (handleWithdrawalSucceeded now p d))"
  by (simp add: handleWithdrawalSucceeded_def Let_def complete_withdrawal_keeps split: option.split)

lemma handleWithdrawalPending_keeps: "keeps_ledger d (fst (handleWithdrawalPending p d))"
  by (simp add: handleWithdrawalPending_def Let_def pend_withdrawal_keeps split: option.split)

lemma handleWithdrawalFailed_keeps: "keeps_ledger d (fst (handleWithdrawalFailed now p d))"
  by (simp add: handleWithdrawalFailed_def Let_def fail_withdrawal_keeps split: option.split)

lemma dispatch_keeps: "keeps_ledger d (fst (dispatch now p d))"
  using handleWithdrawalSucceeded_keeps [of d now p] handleWithdrawalPending_keeps [of d p]
    handleWithdrawalFailed_keeps [of d now p]
  by (simp add: dispatch_def Let_def case_prod_unfold split: hook_event.split)

lemma processWebhook_keeps: "keeps_ledger d (fst (processWebhook sn now pr p body sig t raw d))"
  by (simp add: processWebhook_def dispatch_keeps)

lemma reconcile_one_keeps: "keeps_ledger d (reconcile_one getPayout now w d)"
  by (simp add: reconcile_one_def Let_def handleWithdrawalSucceeded_keeps handleWithdrawalFailed_keeps
      split: sum.split)

text \<open>An operation that keeps the ledger keeps it however often it is run.\<close>

locale ledger_operation =
  fixes run :: "'e \<Rightarrow> db \<Rightarrow> db"
  assumes run_keeps: "keeps_ledger d (run e d)"
begin

lemma fold_keeps: "keeps_ledger d (fold run es d)"
proof (induction es arbitrary: d)
  case (Cons e es)
  then show ?case using keeps_ledger_trans [OF run_keeps [of d e]] by simp
qed simp

lemma fold_ledger_ok: "ledger_ok d \<Longrightarrow> ledger_ok (fold run es d)"
  using fold_keeps [of d es] by (simp add: keeps_ledger_def)

lemma fold_trial_balance: "ledger_ok d \<Longrightarrow> trial_balance (fold run es d) = trial_balance d"
  using fold_keeps [of d es] by (simp add: keeps_ledger_def)

end

interpretation reconciliation: ledger_operation "reconcile_one getPayout now" for getPayout now
  by unfold_locales (rule reconcile_one_keeps)

lemma reconcileStale_keeps: "keeps_ledger d (reconcileStaleProcessingWithdrawals getPayout now d)"
  unfolding reconcileStaleProcessingWithdrawals_def by (rule reconciliation.fold_keeps)

section \<open>Sequences of operations\<close>

text \<open>
  Everything a client, an administrator, the scheduler or the provider can do to withdrawals, with
  the provider's answers and the clock part of each operation.
\<close>

datatype operation =
    RequestUser provider "fee_config option" nat ident int ident
  | RequestOrganization provider "fee_config option" nat ident ident int ident
  | RequestPlatform provider "fee_config option" nat ident int ident
  | ApproveUser provider nat ident ident
  | ApprovePlatform provider nat ident ident bool
  | Reject nat ident ident
  | Report signing nat string payload string string "string option" "string option"
  | Reconcile "ident \<Rightarrow> payout_report result" nat

fun perform :: "operation \<Rightarrow> db \<Rightarrow> db" where
  "perform (RequestUser pv fees now u amount b) d = fst (requestUserWithdrawal pv fees now u amount b d)"
| "perform (RequestOrganization pv fees now u g amount b) d =
     fst (requestOrganizationWithdrawal pv fees now u g amount b d)"
| "perform (RequestPlatform pv fees now u amount b) d = fst (requestPlatformWithdrawal pv fees now u amount b d)"
| "perform (ApproveUser pv now i u) d = fst (approveUserWithdrawal pv now i u d)"
| "perform (ApprovePlatform pv now i u s) d = fst (approvePlatformWithdrawal pv now i u s d)"
| "perform (Reject now i u) d = fst (rejectUserWithdrawal now i u d)"
| "perform (Report sn now pr p body sig t raw) d = fst (processWebhook sn now pr p body sig t raw d)"
| "perform (Reconcile getPayout now) d = reconcileStaleProcessingWithdrawals getPayout now d"

interpretation withdrawal_operations: ledger_operation perform
proof
  show "keeps_ledger d (perform e d)" for d e
    by (cases e) (simp_all add: requestUserWithdrawal_keeps requestOrganizationWithdrawal_keeps
        requestPlatformWithdrawal_keeps approveUserWithdrawal_keeps approvePlatformWithdrawal_keeps
        rejectUserWithdrawal_keeps processWebhook_keeps reconcileStale_keeps)
qed

end
