(* ===== verification/WithdrawalHolds.thy ===== *)
theory WithdrawalHolds
  imports Prelude Books Withdrawals WithdrawalWebhooks WithdrawalBooks
begin

text \<open>
  Reservations: what a wallet holds is the sum of its pending withdrawals, and is covered by its
  balance. Placing, settling, rejecting and completing a withdrawal keep both; so every pending
  withdrawal can be paid. A provider's failure report on a withdrawal that was already settled
  does not keep them.
\<close>

definition backed :: "db \<Rightarrow> bool" where
  "backed d \<longleftrightarrow> ledger_ok d \<and> holds_match d \<and> solvent d \<and> amounts_ok d"

lemma solventD:
  "solvent d \<Longrightarrow> map_option (\<lambda>w. wl_balance w - wl_held w) (get_wallet d k) = Some x \<Longrightarrow> 0 \<le> x"
  unfolding solvent_def by blast

lemma free_nonneg:
  assumes "solvent d" and "map_option (\<lambda>w. (wl_balance w, wl_held w)) (get_wallet d k) = Some x"
  shows "snd x \<le> fst x"
proof -
  have "map_option (\<lambda>w. wl_balance w - wl_held w) (get_wallet d k) = Some (fst x - snd x)"
    using assms(2) by (cases "get_wallet d k") auto
  with assms(1) have "0 \<le> fst x - snd x" by (rule solventD)
  then show ?thesis by simp
qed

section \<open>What is reserved\<close>

definition pending_total :: "ident \<Rightarrow> withdrawal \<Rightarrow> int" where
  "pending_total k w = (if wd_wallet w = k \<and> wd_status w = WPending then wd_total w else 0)"

lemma reserved_eq: "reserved d k = sum_list (map (pending_total k) (withdrawals d))"
  unfolding reserved_def pending_total_def ..

lemma reserved_cong: "withdrawals d' = withdrawals d \<Longrightarrow> reserved d' k = reserved d k"
  by (simp add: reserved_def)

lemma reserved_upd:
  assumes "withdrawals d' = update_by wd_id i f (withdrawals d)" and "keys_ok d" and "get_withdrawal d i = Some w"
  shows "reserved d' k = reserved d k + (pending_total k (f w) - pending_total k w)"
  unfolding reserved_eq assms(1)
  by (rule sum_update_by) (use assms(2,3) in \<open>simp_all add: keys_ok_def\<close>)

text \<open>A pending withdrawal is part of what its wallet has reserved.\<close>

lemma reserved_covers:
  assumes "amounts_ok d" and "w \<in> set (withdrawals d)" and "wd_status w = WPending"
  shows "wd_total w \<le> reserved d (wd_wallet w)"
proof -
  have nn: "0 \<le> pending_total (wd_wallet w) v" if "v \<in> set (withdrawals d)" for v
    using assms(1) that by (auto simp: amounts_ok_def pending_total_def list_all_iff)
  have "sum_list (map (pending_total (wd_wallet w)) ws) \<ge> pending_total (wd_wallet w) w"
    if "w \<in> set ws" "\<And>v. v \<in> set ws \<Longrightarrow> 0 \<le> pending_total (wd_wallet w) v" for ws
    using that
  proof (induction ws)
    case (Cons v ws)
    have "0 \<le> sum_list (map (pending_total (wd_wallet w)) ws)"
      using Cons.prems(2) by (intro sum_list_nonneg) auto
    with Cons show ?case by (cases "w = v") fastforce+
  qed simp
  from this [OF assms(2) nn] assms(3) show ?thesis by (simp add: reserved_eq pending_total_def)
qed

text \<open>
  A step that writes one wallet, moving its held balance with what is reserved, and keeps the
  others.
\<close>

lemma backedI:
  assumes "backed d" and "ledger_ok d'" and "amounts_ok d'"
    and "\<And>k. map_option (\<lambda>w. (wl_balance w, wl_held w)) (get_wallet d' k) =
      map_option (\<lambda>w. (wl_balance w + f k, wl_held w + h k)) (get_wallet d k)"
    and "\<And>k. get_wallet d k \<noteq> None \<Longrightarrow> reserved d' k = reserved d k + h k"
    and "\<And>k w. map_option (\<lambda>w. (wl_balance w, wl_held w)) (get_wallet d k) = Some w \<Longrightarrow>
      h k - f k \<le> fst w - snd w"
  shows "backed d'"
proof -
  have h: "map_option wl_held (get_wallet d' k) = map_option (\<lambda>w. wl_held w + h k) (get_wallet d k)"
    and b: "map_option (\<lambda>w. wl_balance w - wl_held w) (get_wallet d' k) =
      map_option (\<lambda>w. wl_balance w - wl_held w + (f k - h k)) (get_wallet d k)" for k
    using assms(4) [of k] by (cases "get_wallet d k"; cases "get_wallet d' k"; simp)+
  have "holds_match d'"
    unfolding holds_match_def
  proof (intro allI impI)
    fix k
    assume "get_wallet d' k \<noteq> None"
    with h [of k] have n: "get_wallet d k \<noteq> None" by (cases "get_wallet d k") auto
    with assms(1) have "map_option wl_held (get_wallet d k) = Some (reserved d k)"
      unfolding backed_def holds_match_def by blast
    then show "map_option wl_held (get_wallet d' k) = Some (reserved d' k)"
      unfolding h assms(5) [OF n] by (cases "get_wallet d k") simp_all
  qed
  moreover have "solvent d'"
    unfolding solvent_def
  proof (intro allI impI)
    fix k x
    assume x: "map_option (\<lambda>w. wl_balance w - wl_held w) (get_wallet d' k) = Some x"
    then obtain w where "get_wallet d k = Some w" "x = wl_balance w - wl_held w + (f k - h k)"
      unfolding b by (cases "get_wallet d k") simp_all
    with assms(6) [of k "(wl_balance w, wl_held w)"] show "0 \<le> x" by simp
  qed
  ultimately show ?thesis using assms(2,3) by (simp add: backed_def)
qed

section \<open>Placing\<close>

lemma place_withdrawal_InrD:
  assumes "place_withdrawal fees now q d = Inr (w, d')"
  obtains v where "get_wallet d (rq_wallet q) = Some v"
    and "rq_amount q + wc_fee (rq_charges q) \<le> wl_balance v - wl_held v"
    and "w = new_withdrawal (fresh_id d) q"
    and "withdrawals d' = withdrawals d @ [w]"
    and "wallets d' = adjust wl_id wl_held_update (rq_wallet q) (rq_amount q + wc_fee (rq_charges q)) (wallets d)"
    and "holds d' = holds d @ [new_hold now (fresh_id d) q (rq_amount q + wc_fee (rq_charges q))]"
proof -
  obtain v where v: "get_wallet d (rq_wallet q) = Some v"
    using assms by (cases "get_wallet d (rq_wallet q)") (simp_all add: place_withdrawal_def Let_def)
  have free: "\<not> wl_balance v - wl_held v < rq_amount q + wc_fee (rq_charges q)"
  proof
    assume "wl_balance v - wl_held v < rq_amount q + wc_fee (rq_charges q)"
    with assms v show False by (simp add: place_withdrawal_def Let_def)
  qed
  let ?w = "new_withdrawal (fresh_id d) q"
  let ?d3 = "d\<lparr>withdrawals := withdrawals d @ [?w], seq := Suc (seq d),
    holds := holds d @ [new_hold now (fresh_id d) q (rq_amount q + wc_fee (rq_charges q))],
    wallets := adjust wl_id wl_held_update (rq_wallet q) (rq_amount q + wc_fee (rq_charges q)) (wallets d)\<rparr>"
  have "place_withdrawal fees now q d =
      Inr (?w, case rq_activity q of None \<Rightarrow> ?d3 | Some a \<Rightarrow> log_activity (Some (rq_user q)) a ?d3)"
    using v free by (cases "rq_activity q") (simp_all add: place_withdrawal_def Let_def)
  with assms have "w = ?w" and "d' = (case rq_activity q of None \<Rightarrow> ?d3 | Some a \<Rightarrow> log_activity (Some (rq_user q)) a ?d3)"
    by (metis Inr_inject Pair_inject)+
  moreover have "rq_amount q + wc_fee (rq_charges q) \<le> wl_balance v - wl_held v" using free by linarith
  ultimately show thesis
    using v by (intro that) (simp_all add: log_activity_def split: option.split)
qed

lemma place_withdrawal_backed:
  assumes "place_withdrawal fees now q d = Inr (w, d')" and "backed d"
    and "0 \<le> rq_amount q" and "0 \<le> wc_fee (rq_charges q)"
  shows "backed d'"
proof (rule place_withdrawal_InrD [OF assms(1)])
  fix v
  let ?t = "rq_amount q + wc_fee (rq_charges q)" and ?h = "\<lambda>k. if k = rq_wallet q then rq_amount q + wc_fee (rq_charges q) else 0"
  assume v: "get_wallet d (rq_wallet q) = Some v" and free: "?t \<le> wl_balance v - wl_held v"
    and w: "w = new_withdrawal (fresh_id d) q" and ws: "withdrawals d' = withdrawals d @ [w]"
    and wl: "wallets d' = adjust wl_id wl_held_update (rq_wallet q) ?t (wallets d)"
  have "ledger_ok d'" using place_withdrawal_keeps [OF assms(1)] assms(2) by (simp add: keeps_ledger_def backed_def)
  moreover have "amounts_ok d'"
    using assms(2-4) by (simp add: backed_def amounts_ok_def ws w new_withdrawal_def)
  moreover have "map_option (\<lambda>w. (wl_balance w, wl_held w)) (get_wallet d' k) =
      map_option (\<lambda>w. (wl_balance w + 0, wl_held w + ?h k)) (get_wallet d k)" for k
    using v by (cases "k = rq_wallet q") (simp_all add: wl wallet_held.lookup_adjust)
  moreover have "reserved d' k = reserved d k + ?h k" for k
    by (simp add: reserved_eq ws w new_withdrawal_def pending_total_def)
  moreover have "?h k - 0 \<le> fst x - snd x"
    if x: "map_option (\<lambda>w. (wl_balance w, wl_held w)) (get_wallet d k) = Some x" for k x
  proof (cases "k = rq_wallet q")
    case True
    with x v free show ?thesis by auto
  next
    case False
    from x have "map_option (\<lambda>w. wl_balance w - wl_held w) (get_wallet d k) = Some (fst x - snd x)"
      by (cases "get_wallet d k") auto
    then have "0 \<le> fst x - snd x" by (rule solventD [rotated]) (use assms(2) in \<open>simp add: backed_def\<close>)
    with False show ?thesis by simp
  qed
  ultimately show ?thesis by (rule backedI [OF assms(2)])
qed

section \<open>Settling\<close>

lemma update_by_comp:
  assumes "\<And>r. key (g r) = key r"
  shows "update_by key k f (update_by key k g t) = update_by key k (\<lambda>r. f (g r)) t"
  by (simp add: update_by_def update_where_def assms)

text \<open>The tables a settlement writes, in terms of the ones it read.\<close>

lemma settle_transaction_tables:
  assumes "settle_transaction sm now i actor c d = Inr (v, d')" and "keys_ok d" and "postings_ok d"
  obtains w wl a e where "get_withdrawal d i = Some w" and "wd_status w = WPending"
    and "get_wallet d (wd_wallet w) = Some wl" and "wl_account wl = Some a"
    and "wallets d' = update_by wl_id (wd_wallet w) (\<lambda>r. r\<lparr>wl_balance := wl_balance wl - wd_total w,
        wl_held := max 0 (wl_held wl - wd_total w)\<rparr>) (wallets d)"
    and "withdrawals d' = update_by wd_id i (\<lambda>r. r\<lparr>wd_status := WProcessing, wd_processed := Some now,
        wd_entry := Some e\<rparr>) (withdrawals d)"
    and "holds d' = holds (release_holds now (wd_wallet w) (sm_hold sm @ i) d)"
    and "\<And>k. get_account d' k = map_option (la_balance_update (\<lambda>b. b + (moved (Some a) (- wd_total w) k + moved (Some c) (wd_total w) k)))
        (get_account d k)"
    and "entries d' = entries d @
        [new_entry now e (settlement_entry sm i actor c a (wd_total w))\<lparr>je_lines :=
          ed_lines (settlement_entry sm i actor c a (wd_total w))\<rparr>]"
proof (rule settle_transaction_InrD [OF assms(1)])
  fix w wl a e d2
  let ?d1 = "upd_withdrawal i (\<lambda>r. r\<lparr>wd_status := WProcessing, wd_processed := Some now\<rparr>) d"
  let ?x = "settlement_entry sm i actor c a (wd_total w)"
  assume w: "get_withdrawal d i = Some w" "wd_status w = WPending"
    and wl: "get_wallet d (wd_wallet w) = Some wl" "wl_account wl = Some a"
    and p: "createOrReuseWithdrawalJournal now ?x i ?d1 = Inr (e, d2)"
    and d': "d' = settled sm now i actor e w wl d2"
  note P = posting [OF settle_posting [OF p w assms(2,3)]]
  note defs = d' settled_def log_activity_def release_holds_def
  have W: "wallets d' = update_by wl_id (wd_wallet w) (\<lambda>r. r\<lparr>wl_balance := wl_balance wl - wd_total w,
        wl_held := max 0 (wl_held wl - wd_total w)\<rparr>) (wallets d)"
    by (simp add: defs P(2))
  have D: "withdrawals d' = update_by wd_id i (\<lambda>r. r\<lparr>wd_status := WProcessing, wd_processed := Some now,
        wd_entry := Some e\<rparr>) (withdrawals d)"
    by (simp add: defs P(3) update_by_comp)
  have H: "holds d' = holds (release_holds now (wd_wallet w) (sm_hold sm @ i) d)"
    by (simp add: defs P(4))
  have A: "get_account d' k = map_option (la_balance_update (\<lambda>b. b + (moved (Some a) (- wd_total w) k + moved (Some c) (wd_total w) k)))
        (get_account d k)" for k
    using P(7) [of k] unfolding effect_on_settlement by (simp add: defs del: moved_simps)
  have E: "entries d' = entries d @ [new_entry now e ?x\<lparr>je_lines := ed_lines ?x\<rparr>]"
    by (simp add: defs P(5))
  show thesis by (rule that [OF w wl W D H A E])
qed

lemma settle_transaction_backed:
  assumes "settle_transaction sm now i actor c d = Inr (v, d')" and "backed d" and "clearing_id d = Some c"
  shows "backed d'"
proof -
  from assms(2) have ok: "ledger_ok d" and keys: "keys_ok d" and post: "postings_ok d" and books: "books_ok d"
    and am: "amounts_ok d" and hm: "holds_match d" and sv: "solvent d"
    by (simp_all add: backed_def ledger_ok_def books_ok_def)
  show ?thesis
  proof (rule settle_transaction_tables [OF assms(1) keys post])
    fix w wl a e
    assume w: "get_withdrawal d i = Some w" "wd_status w = WPending"
      and wl: "get_wallet d (wd_wallet w) = Some wl"
      and W: "wallets d' = update_by wl_id (wd_wallet w) (\<lambda>r. r\<lparr>wl_balance := wl_balance wl - wd_total w,
        wl_held := max 0 (wl_held wl - wd_total w)\<rparr>) (wallets d)"
      and D: "withdrawals d' = update_by wd_id i (\<lambda>r. r\<lparr>wd_status := WProcessing, wd_processed := Some now,
        wd_entry := Some e\<rparr>) (withdrawals d)"
    let ?h = "\<lambda>k. if k = wd_wallet w then - wd_total w else 0"
    have "map_option wl_held (get_wallet d (wd_wallet w)) = Some (reserved d (wd_wallet w))"
      using hm wl unfolding holds_match_def by (metis option.distinct(1))
    with wl reserved_covers [OF am lookup_by_mem [OF w(1)] w(2)] have held: "wd_total w \<le> wl_held wl" by simp
    have "map_option la_wallet (get_account d c) = Some None" by (rule clearing_unlinked [OF books assms(3)])
    with settle_transaction_keeps [OF assms(1)] ok have "ledger_ok d'" by (simp add: keeps_ledger_def)
    moreover have "amounts_ok d'"
      using am by (simp add: amounts_ok_def D table_simps)
    moreover have "map_option (\<lambda>w. (wl_balance w, wl_held w)) (get_wallet d' k) =
        map_option (\<lambda>w. (wl_balance w + ?h k, wl_held w + ?h k)) (get_wallet d k)" for k
      using wl held by (cases "k = wd_wallet w") (simp_all add: W table_simps)
    moreover have "reserved d' k = reserved d k + ?h k" for k
      using reserved_upd [OF D keys w(1), of k] w(2) by (simp add: pending_total_def)
    moreover have "?h k - ?h k \<le> fst x - snd x"
      if x: "map_option (\<lambda>w. (wl_balance w, wl_held w)) (get_wallet d k) = Some x" for k x
      using free_nonneg [OF sv x] by simp
    ultimately show ?thesis by (rule backedI [OF assms(2)])
  qed
qed

section \<open>Rejecting and completing\<close>

lemma reject_transaction_InrD:
  assumes "reject_transaction now i u d = Inr (v, d')"
  obtains w where "get_withdrawal d i = Some w" and "wd_status w = WPending"
    and "withdrawals d' = update_by wd_id i (\<lambda>r. r\<lparr>wd_status := WFailed, wd_failed := Some now\<rparr>) (withdrawals d)"
    and "wallets d' = update_by wl_id (wd_wallet w) (\<lambda>r. r\<lparr>wl_held := max 0
      ((case get_wallet d (wd_wallet w) of None \<Rightarrow> 0 | Some wl \<Rightarrow> wl_held wl) - wd_total w)\<rparr>) (wallets d)"
    and "holds d' = holds (release_holds now (wd_wallet w) i d)"
    and "accounts d' = accounts d" and "entries d' = entries d"
proof -
  obtain w where w: "get_withdrawal d i = Some w"
    using assms by (cases "get_withdrawal d i") (simp_all add: reject_transaction_def)
  define h where "h = (case get_wallet d (wd_wallet w) of None \<Rightarrow> 0 | Some wl \<Rightarrow> wl_held wl)"
  have st: "wd_status w = WPending"
    and d': "d' = log_activity (Some u) (STR ''USER_WITHDRAWAL_REJECTED'')
        (upd_wallet (wd_wallet w) (\<lambda>r. r\<lparr>wl_held := max 0 (h - wd_total w)\<rparr>)
          (release_holds now (wd_wallet w) i (upd_withdrawal i (\<lambda>r. r\<lparr>wd_status := WFailed, wd_failed := Some now\<rparr>) d)))"
    using assms w by (simp_all add: reject_transaction_def Let_def result_simps h_def)
  show thesis
    by (rule that [OF w st]) (simp_all add: d' log_activity_def release_holds_def h_def)
qed

lemma rejectUserWithdrawal_Inr_keeps:
  "reject_transaction now i u d = Inr (v, d') \<Longrightarrow> is_platform_admin u d \<Longrightarrow> keeps_ledger d d'"
  using rejectUserWithdrawal_keeps [of d now i u] by (simp add: rejectUserWithdrawal_def transaction_def)

lemma reject_transaction_backed:
  assumes "reject_transaction now i u d = Inr (v, d')" and "backed d" and "is_platform_admin u d"
  shows "backed d'"
proof -
  from assms(2) have ok: "ledger_ok d" and keys: "keys_ok d"
    and am: "amounts_ok d" and hm: "holds_match d" and sv: "solvent d"
    by (simp_all add: backed_def ledger_ok_def books_ok_def)
  show ?thesis
  proof (rule reject_transaction_InrD [OF assms(1)])
    fix w
    assume w: "get_withdrawal d i = Some w" "wd_status w = WPending"
      and D: "withdrawals d' = update_by wd_id i (\<lambda>r. r\<lparr>wd_status := WFailed, wd_failed := Some now\<rparr>) (withdrawals d)"
      and W: "wallets d' = update_by wl_id (wd_wallet w) (\<lambda>r. r\<lparr>wl_held := max 0
        ((case get_wallet d (wd_wallet w) of None \<Rightarrow> 0 | Some wl \<Rightarrow> wl_held wl) - wd_total w)\<rparr>) (wallets d)"
    let ?h = "\<lambda>k. if k = wd_wallet w then - wd_total w else 0"
    have total: "0 \<le> wd_total w" "wd_total w \<le> reserved d (wd_wallet w)"
      using am lookup_by_mem [OF w(1)] reserved_covers [OF am lookup_by_mem [OF w(1)] w(2)]
      by (auto simp: amounts_ok_def list_all_iff)
    have "ledger_ok d'" using rejectUserWithdrawal_Inr_keeps [OF assms(1,3)] ok by (simp add: keeps_ledger_def)
    moreover have "amounts_ok d'" using am by (simp add: amounts_ok_def D table_simps)
    moreover have "map_option (\<lambda>w. (wl_balance w, wl_held w)) (get_wallet d' k) =
        map_option (\<lambda>w. (wl_balance w + 0, wl_held w + ?h k)) (get_wallet d k)" for k
    proof (cases "get_wallet d k")
      case None
      then show ?thesis by (cases "k = wd_wallet w") (simp_all add: W table_simps)
    next
      case (Some r)
      then have "map_option wl_held (get_wallet d k) = Some (reserved d k)"
        using hm unfolding holds_match_def by (metis option.distinct(1))
      with Some total show ?thesis by (cases "k = wd_wallet w") (simp_all add: W table_simps)
    qed
    moreover have "reserved d' k = reserved d k + ?h k" for k
      using reserved_upd [OF D keys w(1), of k] w(2) by (simp add: pending_total_def)
    moreover have "?h k - 0 \<le> fst x - snd x"
      if x: "map_option (\<lambda>w. (wl_balance w, wl_held w)) (get_wallet d k) = Some x" for k x
      using free_nonneg [OF sv x] total(1) by auto
    ultimately show ?thesis by (rule backedI [OF assms(2)])
  qed
qed

lemma complete_withdrawal_backed:
  assumes "backed d" and "get_withdrawal d (wd_id w) = Some w" and "wd_status w = WProcessing"
  shows "backed (complete_withdrawal now r w d)" (is "backed ?d")
proof -
  from assms(1) have ok: "ledger_ok d" and keys: "keys_ok d" and am: "amounts_ok d" and sv: "solvent d"
    by (simp_all add: backed_def ledger_ok_def books_ok_def)
  have D: "withdrawals ?d = update_by wd_id (wd_id w) (\<lambda>r. r\<lparr>wd_status := WCompleted, wd_completed := Some now,
      wd_hook_status := ''COMPLETED''\<rparr>) (withdrawals d)" and W: "wallets ?d = wallets d"
    by (cases "lookup_by wh_withdrawal (wd_id w) (hooks d)"; simp add: complete_withdrawal_def upsert_webhook_def)+
  have "ledger_ok ?d" using complete_withdrawal_keeps [of d now r w] ok by (simp add: keeps_ledger_def)
  moreover have "amounts_ok ?d" using am by (simp add: amounts_ok_def D table_simps)
  moreover have "reserved ?d k = reserved d k + 0" for k
    using reserved_upd [OF D keys assms(2), of k] assms(3) by (simp add: pending_total_def)
  moreover have "0 - 0 \<le> fst x - snd x"
    if x: "map_option (\<lambda>w. (wl_balance w, wl_held w)) (get_wallet d k) = Some x" for k x
    using free_nonneg [OF sv x] by simp
  ultimately show ?thesis by (intro backedI [OF assms(1), of ?d "\<lambda>_. 0" "\<lambda>_. 0"]) (simp_all add: W)
qed

end
