(* ===== verification/WithdrawalStatus.thy ===== *)
theory WithdrawalStatus
  imports Prelude Books Withdrawals WithdrawalWebhooks WithdrawalBooks
begin

text \<open>
  The status of a withdrawal as a state machine: pending, processing, completed, failed, in this
  order (the schema's cancelled status, which no operation here sets, between the first two).
  Every operation moves every withdrawal forward or leaves it alone.
\<close>

section \<open>The order of the statuses\<close>

fun status_rank :: "withdrawal_status \<Rightarrow> nat" where
  "status_rank WPending = 0"
| "status_rank WCancelled = 1"
| "status_rank WProcessing = 2"
| "status_rank WCompleted = 3"
| "status_rank WFailed = 4"

lemma status_rank_inj: "status_rank s = status_rank t \<Longrightarrow> s = t"
  by (cases s; cases t) simp_all

instantiation withdrawal_status :: linorder
begin

definition less_eq_withdrawal_status :: "withdrawal_status \<Rightarrow> withdrawal_status \<Rightarrow> bool" where
  "s \<le> t \<longleftrightarrow> status_rank s \<le> status_rank t"

definition less_withdrawal_status :: "withdrawal_status \<Rightarrow> withdrawal_status \<Rightarrow> bool" where
  "s < t \<longleftrightarrow> status_rank s < status_rank t"

instance
  by standard (auto simp: less_eq_withdrawal_status_def less_withdrawal_status_def dest: status_rank_inj)

end

lemma status_bounds [simp]: "WPending \<le> s" "s \<le> WFailed" "WCompleted \<le> s \<longleftrightarrow> s = WCompleted \<or> s = WFailed"
  "WFailed \<le> s \<longleftrightarrow> s = WFailed" "WProcessing \<le> WCompleted" "WCancelled \<le> WProcessing"
  by (cases s; simp add: less_eq_withdrawal_status_def)+

section \<open>Progress\<close>

abbreviation status_of :: "db \<Rightarrow> ident \<Rightarrow> withdrawal_status option" where
  "status_of d i \<equiv> map_option wd_status (get_withdrawal d i)"

definition advances :: "db \<Rightarrow> db \<Rightarrow> bool" where
  "advances d d' \<longleftrightarrow> (\<forall>i s. status_of d i = Some s \<longrightarrow> (\<exists>s'. status_of d' i = Some s' \<and> s \<le> s'))"

lemma advances_trans:
  assumes "advances d d1" and "advances d1 d2"
  shows "advances d d2"
  using assms unfolding advances_def by (meson order_trans)

lemma advances_frame: "withdrawals d' = withdrawals d \<Longrightarrow> advances d d'"
  unfolding advances_def by (metis order_refl)

lemma advances_upd:
  assumes "\<And>r. wd_id (f r) = wd_id r" and "\<And>r. get_withdrawal d i = Some r \<Longrightarrow> wd_status r \<le> wd_status (f r)"
    and "withdrawals d' = update_by wd_id i f (withdrawals d)"
  shows "advances d d'"
  unfolding advances_def
proof (intro allI impI)
  fix k s
  assume "status_of d k = Some s"
  then obtain r where "get_withdrawal d k = Some r" "wd_status r = s" by (cases "get_withdrawal d k") simp_all
  with assms(2) [of r] show "\<exists>s'. status_of d' k = Some s' \<and> s \<le> s'"
    by (cases "k = i") (simp_all add: assms(3) lookup_by_update_by [of wd_id f, OF assms(1)])
qed

text \<open>A step that keeps the ledger and, from a consistent ledger, moves every withdrawal forward.\<close>

definition proper :: "db \<Rightarrow> db \<Rightarrow> bool" where
  "proper d d' \<longleftrightarrow> keeps_ledger d d' \<and> (ledger_ok d \<longrightarrow> advances d d')"

lemma proper_refl [simp]: "proper d d"
  by (simp add: proper_def advances_frame)

lemma proper_trans: "proper d d1 \<Longrightarrow> proper d1 d2 \<Longrightarrow> proper d d2"
  unfolding proper_def using keeps_ledger_trans advances_trans by (metis keeps_ledger_def)

lemma thenDo_proper:
  assumes "proper d (fst r)" and "\<And>d1 x. r = (d1, Inr x) \<Longrightarrow> proper d1 (fst (k x d1))"
  shows "proper d (fst (thenDo r k))"
proof -
  obtain d1 v where r: "r = (d1, v)" by (cases r)
  show ?thesis
  proof (cases v)
    case (Inl e)
    with assms(1) show ?thesis by (simp add: r)
  next
    case (Inr x)
    with assms(2) have "proper d1 (fst (k x d1))" by (simp add: r)
    with assms(1) Inr show ?thesis by (simp add: r) (rule proper_trans)
  qed
qed

lemma transaction_withdrawals:
  assumes "\<And>x d'. body d = Inr (x, d') \<Longrightarrow> withdrawals d' = withdrawals d"
  shows "withdrawals (fst (transaction body d)) = withdrawals d"
  using assms by (cases "body d") (auto simp: transaction_def)

section \<open>Steps that leave withdrawals alone\<close>

lemma insert_account_withdrawals: "insert_account x d = Inr (a, d') \<Longrightarrow> withdrawals d' = withdrawals d"
  by (auto simp: insert_account_def Let_def split: if_splits)

lemma getOrCreateWallet_withdrawals: "withdrawals (fst (getOrCreateWallet owner d)) = withdrawals d"
  by (rule getOrCreateWallet_frame) simp_all

lemma createJournalEntry_withdrawals:
  assumes "createJournalEntry now x d = Inr (i, d')"
  shows "withdrawals d' = withdrawals d"
  using post_lines_frame [OF createJournalEntry_InrD(4) [OF assms]] by auto

lemma getOrCreateSystemAccount_withdrawals:
  "getOrCreateSystemAccount cfg d = Inr (a, d') \<Longrightarrow> withdrawals d' = withdrawals d"
  by (auto simp: getOrCreateSystemAccount_def split: prod.splits option.splits dest: insert_account_withdrawals)

lemma release_fee_withdrawals [simp]:
  "withdrawals (snd (reverseOrganizationWithdrawalPlatformFee i m d)) = withdrawals d"
  by (simp add: reverseOrganizationWithdrawalPlatformFee_def Let_def split: option.split)

lemma mark_entry_withdrawals [simp]: "withdrawals (mark_entry_reversed e d) = withdrawals d"
  by (simp add: mark_entry_reversed_def split: option.split)

lemma refund_withdrawals [simp]: "withdrawals (refund_accounts w x d) = withdrawals d"
  by (simp add: refund_accounts_def Let_def)

lemma charge_withdrawals [simp]: "withdrawals (charge_fee_difference w f d) = withdrawals d"
  by (simp add: charge_fee_difference_def Let_def split: option.split)

lemma upsert_withdrawals [simp]: "withdrawals (upsert_webhook w c u s r d) = withdrawals d"
  by (simp add: upsert_webhook_def split: option.split)

lemma ensure_withdrawals: "withdrawals (fst (ensurePayoutDestination pv u b d)) = withdrawals d"
  by (simp add: ensurePayoutDestination_def Let_def upd_bank_def split: option.split sum.split)

section \<open>The operations\<close>

lemma getOrCreateWallet_proper: "proper d (fst (getOrCreateWallet owner d))"
  by (simp add: proper_def getOrCreateWallet_keeps advances_frame getOrCreateWallet_withdrawals)

lemma ensurePayoutDestination_proper: "proper d (fst (ensurePayoutDestination pv u b d))"
  by (simp add: proper_def ensurePayoutDestination_keeps advances_frame ensure_withdrawals)

lemma place_transaction_proper: "proper d (fst (transaction (place_withdrawal fees now q) d))"
proof -
  have "advances d d'" if pl: "place_withdrawal fees now q d = Inr (w, d')" for w d'
  proof -
    have "withdrawals d' = withdrawals d @ [new_withdrawal (fresh_id d) q]"
    proof -
      obtain v where v: "get_wallet d (rq_wallet q) = Some v"
        using pl by (cases "get_wallet d (rq_wallet q)") (simp_all add: place_withdrawal_def Let_def)
      then show ?thesis
        using pl by (cases "rq_activity q")
          (auto simp: place_withdrawal_def Let_def log_activity_def split: if_splits)
    qed
    then show ?thesis
      unfolding advances_def by (intro allI impI) (auto simp: table_simps split: option.split)
  qed
  then have "advances d (fst (transaction (place_withdrawal fees now q) d))"
    by (cases "place_withdrawal fees now q d") (auto simp: transaction_def advances_frame)
  then show ?thesis by (simp add: proper_def place_transaction_keeps)
qed

text \<open>The payout: recording it changes no status; compensation fails a processing withdrawal.\<close>

lemma allocate_withdrawals:
  assumes "allocate_platform_fee now w pw fee d = Inr (e, d')"
  shows "withdrawals d' = withdrawals d"
proof -
  obtain r a where r: "account_by_code d ''1100'' = Some r" and a: "wl_account pw = Some a"
    using assms by (cases "account_by_code d ''1100''"; cases "wl_account pw") (simp_all add: allocate_platform_fee_def)
  define x where "x = \<lparr>ed_lines = [\<lparr>jl_account = a, jl_type = DEBIT, jl_amount = fee\<rparr>,
                         \<lparr>jl_account = la_id r, jl_type = CREDIT, jl_amount = fee\<rparr>],
             ed_description = allocation_description (wd_id w), ed_transaction = None, ed_payment = None,
             ed_withdrawal = None, ed_created_by = Some (wd_user w)\<rparr>"
  obtain i d1 where "createJournalEntry now x d = Inr (i, d1)"
    using assms r a by (cases "createJournalEntry now x d") (auto simp: allocate_platform_fee_def x_def)
  with createJournalEntry_withdrawals [OF this] assms r a show ?thesis
    by (auto simp: allocate_platform_fee_def x_def)
qed

lemma record_payout_withdrawals:
  assumes "record_payout now w p pwo d = Inr (u, d')"
  obtains m where "withdrawals d' = update_by wd_id (wd_id w)
    (\<lambda>r. r\<lparr>wd_fee := (if is_organization_withdrawal w then wd_fee w else provider_fee p w), wd_payout := po_id p,
      wd_hook_status := payout_status p, wd_hook_attempts := wd_hook_attempts r + 1, wd_meta := m\<rparr>) (withdrawals d)"
proof -
  define fee where "fee = provider_fee p w"
  define booked where "booked = (case pwo of
      Some pw \<Rightarrow>
        if is_organization_withdrawal w \<and> 0 < retained_fee w fee \<and> wm_fee_allocated (wd_meta w) = None
        then andThen (allocate_platform_fee now w pw (retained_fee w fee) d) (\<lambda>(e, d'). Inr (Some e, d'))
        else Inr (None, d)
    | None \<Rightarrow>
        if \<not> is_organization_withdrawal w \<and> fee - wd_fee w \<noteq> 0
        then andThen (require (get_wallet d (wd_wallet w) \<noteq> None) (Internal (STR ''P2025''))) (\<lambda>_.
          Inr (None, charge_fee_difference w fee d))
        else Inr (None, d))"
  obtain en d1 where b: "booked = Inr (en, d1)"
    and d': "d' = upd_withdrawal (wd_id w) (\<lambda>r. r\<lparr>
             wd_fee := (if is_organization_withdrawal w then wd_fee w else fee),
             wd_payout := po_id p, wd_hook_status := payout_status p,
             wd_hook_attempts := wd_hook_attempts r + 1,
             wd_meta := recorded_meta now w fee en\<rparr>) d1"
    using assms by (cases booked) (auto simp: record_payout_def Let_def booked_def [symmetric] fee_def [symmetric])
  have "withdrawals d1 = withdrawals d"
  proof (cases pwo)
    case None
    with b show ?thesis
      by (cases "get_wallet d (wd_wallet w)") (auto simp: booked_def split: if_splits)
  next
    case (Some pw)
    show ?thesis
    proof (cases "is_organization_withdrawal w \<and> 0 < retained_fee w fee \<and> wm_fee_allocated (wd_meta w) = None")
      case True
      with b Some obtain e where "allocate_platform_fee now w pw (retained_fee w fee) d = Inr (e, d1)"
        by (cases "allocate_platform_fee now w pw (retained_fee w fee) d") (auto simp: booked_def)
      then show ?thesis by (rule allocate_withdrawals)
    next
      case False
      with b Some show ?thesis by (simp add: booked_def split: if_splits)
    qed
  qed
  then show thesis by (intro that [of "recorded_meta now w fee en"]) (simp add: d' fee_def)
qed

lemma record_payout_advances:
  assumes "record_payout now w p pwo d = Inr (u, d')"
  shows "advances d d'"
proof (rule record_payout_withdrawals [OF assms])
  fix m
  assume "withdrawals d' = update_by wd_id (wd_id w)
    (\<lambda>r. r\<lparr>wd_fee := (if is_organization_withdrawal w then wd_fee w else provider_fee p w), wd_payout := po_id p,
      wd_hook_status := payout_status p, wd_hook_attempts := wd_hook_attempts r + 1, wd_meta := m\<rparr>) (withdrawals d)"
  then show ?thesis by (rule advances_upd [rotated 2]) simp_all
qed

lemma submit_payout_advances: "advances d (fst (submit_payout pv now i d))"
proof -
  have t: "advances d (fst (transaction (record_payout now w p pwo) d))" for w p pwo d
    by (cases "record_payout now w p pwo d") (auto simp: transaction_def advances_frame record_payout_advances)
  have p: "advances d (fst (thenDo (if b then thenDo (getOrCreateWallet PlatformOwner d) (\<lambda>pw d1. (d1, Inr (Some pw)))
      else (d, Inr None)) (\<lambda>pwo d1. transaction (record_payout now w p pwo) d1)))" for b w p
  proof -
    obtain d1 v where g: "getOrCreateWallet PlatformOwner d = (d1, v)" by (cases "getOrCreateWallet PlatformOwner d")
    have "advances d d1" using getOrCreateWallet_withdrawals [of PlatformOwner d] by (simp add: g advances_frame)
    with g advances_trans [OF _ t] t show ?thesis by (cases v) (simp_all add: advances_frame)
  qed
  show ?thesis
    by (simp add: submit_payout_def advances_frame p split: option.split sum.split)
qed

lemma compensate_advances: "advances d (compensateFailedPayoutSubmission now i d)"
proof (cases "get_withdrawal d i")
  case None
  then show ?thesis by (simp add: compensateFailedPayoutSubmission_def advances_frame)
next
  case (Some w)
  have "advances d (snd (reverseOrganizationWithdrawalPlatformFee j m (mark_entry_reversed e (refund_accounts wl t
      (adjust_wallet k t (upd_withdrawal i (\<lambda>r. r\<lparr>wd_status := WFailed, wd_failed := Some now,
        wd_hook_status := ''FAILED''\<rparr>) d))))))" for j m e wl t k
    by (rule advances_upd [where i = i and f = "\<lambda>r. r\<lparr>wd_status := WFailed, wd_failed := Some now, wd_hook_status := ''FAILED''\<rparr>"])
      simp_all
  then show ?thesis
    by (simp add: compensateFailedPayoutSubmission_def Some Let_def advances_frame split: option.split)
qed

lemma triggerWithdrawalTransfer_proper: "proper d (fst (triggerWithdrawalTransfer pv now i d))"
proof -
  obtain d1 r where s: "submit_payout pv now i d = (d1, r)" by (cases "submit_payout pv now i d")
  then have "advances d d1" using submit_payout_advances [of d pv now i] by simp
  with s advances_trans [OF this compensate_advances]
  have "advances d (fst (triggerWithdrawalTransfer pv now i d))"
    by (cases r) (simp_all add: triggerWithdrawalTransfer_def)
  then show ?thesis by (simp add: proper_def triggerWithdrawalTransfer_keeps)
qed

text \<open>Settlement: pending to processing.\<close>

lemma settle_transaction_advances:
  assumes "settle_transaction sm now i actor c d = Inr (v, d')"
  shows "advances d d'"
proof (rule settle_transaction_InrD [OF assms])
  fix w wl a e d2
  let ?d1 = "upd_withdrawal i (\<lambda>r. r\<lparr>wd_status := WProcessing, wd_processed := Some now\<rparr>) d"
  assume w: "get_withdrawal d i = Some w" "wd_status w = WPending"
    and p: "createOrReuseWithdrawalJournal now (settlement_entry sm i actor c a (wd_total w)) i ?d1 = Inr (e, d2)"
    and d': "d' = settled sm now i actor e w wl d2"
  have "withdrawals d2 = withdrawals ?d1"
    using p by (auto simp: createOrReuseWithdrawalJournal_def dest: createJournalEntry_withdrawals
        split: option.splits if_splits)
  then have "withdrawals d' = update_by wd_id i (\<lambda>r. r\<lparr>wd_status := WProcessing, wd_processed := Some now,
      wd_entry := Some e\<rparr>) (withdrawals d)"
    by (simp add: d' settled_def log_activity_def release_holds_def update_by_def update_where_def comp_def)
  then show ?thesis by (rule advances_upd [rotated 2]) (simp_all add: w)
qed

lemma settle_proper: "proper d (fst (settle sm pv now i actor d))"
proof -
  obtain d1 r where s: "transaction (getOrCreateSystemAccount bankClearingAccount) d = (d1, r)"
    by (cases "transaction (getOrCreateSystemAccount bankClearingAccount) d")
  have "withdrawals (fst (transaction (getOrCreateSystemAccount bankClearingAccount) d)) = withdrawals d"
    by (rule transaction_withdrawals) (rule getOrCreateSystemAccount_withdrawals)
  then have 1: "advances d d1" by (simp add: s advances_frame)
  have t: "advances d1 (fst (transaction (settle_transaction sm now i actor c) d1))" for c d1
    by (cases "settle_transaction sm now i actor c d1")
      (auto simp: transaction_def advances_frame settle_transaction_advances)
  have tr: "advances d1 (fst (triggerWithdrawalTransfer pv now i d1))" for d1
  proof -
    obtain d2 r where s: "submit_payout pv now i d1 = (d2, r)" by (cases "submit_payout pv now i d1")
    then have "advances d1 d2" using submit_payout_advances [of d1 pv now i] by simp
    with s advances_trans [OF this compensate_advances] show ?thesis
      by (cases r) (simp_all add: triggerWithdrawalTransfer_def)
  qed
  have seq: "advances d0 (fst (thenDo q k))"
    if "advances d0 (fst q)" "\<And>x e. advances e (fst (k x e))" for d0 :: db and q and k :: "'x \<Rightarrow> db \<Rightarrow> db \<times> 'y result"
    using that by (cases q; cases "snd q") (auto simp: thenDo_def intro: advances_trans)
  have "advances d (fst (settle sm pv now i actor d))"
    unfolding settle_def s
    by (intro seq) (simp_all add: 1 t tr advances_frame)
  then show ?thesis by (simp add: proper_def settle_keeps)
qed

section \<open>Handlers and reports\<close>

lemma requestUserWithdrawal_proper: "proper d (fst (requestUserWithdrawal pv fees now u amount b d))"
  unfolding requestUserWithdrawal_def Let_def
  by (intro thenDo_proper getOrCreateWallet_proper ensurePayoutDestination_proper place_transaction_proper) simp

lemma approvePlatformWithdrawal_proper: "proper d (fst (approvePlatformWithdrawal pv now i u s d))"
  by (simp add: approvePlatformWithdrawal_def settle_proper)

lemma approveUserWithdrawal_proper: "proper d (fst (approveUserWithdrawal pv now i u d))"
  by (simp add: approveUserWithdrawal_def settleWithdrawal_def settle_proper)

lemma requestOrganizationWithdrawal_proper:
  "proper d (fst (requestOrganizationWithdrawal pv fees now u g amount b d))"
  unfolding requestOrganizationWithdrawal_def Let_def settleWithdrawal_def
  by (intro thenDo_proper getOrCreateWallet_proper ensurePayoutDestination_proper place_transaction_proper settle_proper)
    simp_all

lemma requestPlatformWithdrawal_proper: "proper d (fst (requestPlatformWithdrawal pv fees now u amount b d))"
  unfolding requestPlatformWithdrawal_def Let_def
  by (intro thenDo_proper getOrCreateWallet_proper ensurePayoutDestination_proper place_transaction_proper
      approvePlatformWithdrawal_proper) simp_all

lemma reject_transaction_advances:
  assumes "reject_transaction now i u d = Inr (v, d')"
  shows "advances d d'"
proof -
  obtain w where w: "get_withdrawal d i = Some w"
    using assms by (cases "get_withdrawal d i") (simp_all add: reject_transaction_def)
  have "withdrawals d' = update_by wd_id i (\<lambda>r. r\<lparr>wd_status := WFailed, wd_failed := Some now\<rparr>) (withdrawals d)"
    using assms w by (auto simp: reject_transaction_def Let_def result_simps log_activity_def release_holds_def)
  then show ?thesis by (rule advances_upd [rotated 2]) simp_all
qed

lemma rejectUserWithdrawal_proper: "proper d (fst (rejectUserWithdrawal now i u d))"
proof -
  have "advances d (fst (rejectUserWithdrawal now i u d))"
    by (cases "reject_transaction now i u d")
      (auto simp: rejectUserWithdrawal_def transaction_def advances_frame reject_transaction_advances)
  then show ?thesis by (simp add: proper_def rejectUserWithdrawal_keeps)
qed

text \<open>A report moves the withdrawal it names; identifiers are unique in a consistent ledger.\<close>

lemma report_advances:
  assumes "find_withdrawal n d = Some w" and "ledger_ok d" and "wd_status w \<le> s"
    and "withdrawals d' = update_by wd_id (wd_id w) f (withdrawals d)"
    and "\<And>r. wd_id (f r) = wd_id r" and "\<And>r. wd_status (f r) = s"
  shows "advances d d'"
proof (rule advances_upd [OF assms(5) _ assms(4)])
  fix r
  assume "get_withdrawal d (wd_id w) = Some r"
  moreover have "get_withdrawal d (wd_id w) = Some w"
    using assms(2) by (intro find_withdrawal_get [OF assms(1)]) (simp add: ledger_ok_def books_ok_def)
  ultimately show "wd_status r \<le> wd_status (f r)" using assms(3,6) by simp
qed

lemma handleWithdrawalSucceeded_proper: "proper d (fst (handleWithdrawalSucceeded now p d))"
proof -
  have "advances d (complete_withdrawal now r w d)"
    if "find_withdrawal n d = Some w" "ledger_ok d" "wd_status w = WProcessing" for n w r
    by (rule report_advances [OF that(1,2), where s = WCompleted and
          f = "\<lambda>r. r\<lparr>wd_status := WCompleted, wd_completed := Some now, wd_hook_status := ''COMPLETED''\<rparr>"])
      (simp_all add: complete_withdrawal_def that(3))
  then have "ledger_ok d \<longrightarrow> advances d (fst (handleWithdrawalSucceeded now p d))"
    by (simp add: handleWithdrawalSucceeded_def Let_def advances_frame split: option.split)
  then show ?thesis by (simp add: proper_def handleWithdrawalSucceeded_keeps)
qed

lemma handleWithdrawalFailed_proper: "proper d (fst (handleWithdrawalFailed now p d))"
proof -
  have "advances d (fail_withdrawal now r w wl d)"
    if "find_withdrawal n d = Some w" "ledger_ok d" for n w r wl
    by (rule report_advances [OF that, where s = WFailed and
          f = "\<lambda>r. r\<lparr>wd_status := WFailed, wd_failed := Some now, wd_hook_status := ''FAILED''\<rparr>"])
      (simp_all add: fail_withdrawal_def Let_def release_holds_def)
  then have "ledger_ok d \<longrightarrow> advances d (fst (handleWithdrawalFailed now p d))"
    by (simp add: handleWithdrawalFailed_def Let_def advances_frame split: option.split)
  then show ?thesis by (simp add: proper_def handleWithdrawalFailed_keeps)
qed

lemma handleWithdrawalPending_proper: "proper d (fst (handleWithdrawalPending p d))"
proof -
  have "advances d (pend_withdrawal r w d)"
    if "find_withdrawal n d = Some w" "ledger_ok d" "wd_status w \<noteq> WCompleted \<and> wd_status w \<noteq> WFailed" for n w r
  proof (rule report_advances [OF that(1,2), where s = WProcessing and f = "\<lambda>r. r\<lparr>wd_status := WProcessing\<rparr>"])
    show "wd_status w \<le> WProcessing"
      using that(3) by (cases "wd_status w") simp_all
  qed (simp_all add: pend_withdrawal_def)
  then have "ledger_ok d \<longrightarrow> advances d (fst (handleWithdrawalPending p d))"
    by (simp add: handleWithdrawalPending_def Let_def advances_frame split: option.split)
  then show ?thesis by (simp add: proper_def handleWithdrawalPending_keeps)
qed

lemma processWebhook_proper: "proper d (fst (processWebhook sn now pr p body sig t raw d))"
  using handleWithdrawalSucceeded_proper [of d now p] handleWithdrawalPending_proper [of d p]
    handleWithdrawalFailed_proper [of d now p]
  by (simp add: processWebhook_def dispatch_def Let_def case_prod_unfold split: hook_event.split)

lemma reconcile_one_proper: "proper d (reconcile_one getPayout now w d)"
  by (simp add: reconcile_one_def Let_def handleWithdrawalSucceeded_proper handleWithdrawalFailed_proper
      split: sum.split)

lemma fold_proper: "(\<And>e d. proper d (f e d)) \<Longrightarrow> proper d (fold f es d)"
  by (induction es arbitrary: d) (auto intro: proper_trans)

lemma perform_proper: "proper d (perform e d)"
  by (cases e) (simp_all add: requestUserWithdrawal_proper requestOrganizationWithdrawal_proper
      requestPlatformWithdrawal_proper approveUserWithdrawal_proper approvePlatformWithdrawal_proper
      rejectUserWithdrawal_proper processWebhook_proper reconcileStaleProcessingWithdrawals_def
      fold_proper reconcile_one_proper)

end
