(* ===== verification/WithdrawalProperties.thy ===== *)
theory WithdrawalProperties
  imports Prelude Samples Books Withdrawals WithdrawalWebhooks WithdrawalBooks WithdrawalHolds WithdrawalStatus
begin

text \<open>
  The properties of the withdrawal lifecycle, from the consistency of the ledger under every
  sequence of operations down to the effect of the single steps, each with a concrete instance.
\<close>

definition sample_pending :: withdrawal where
  "sample_pending = sample_withdrawal ''1'' ''w'' 90 10 WPending"

definition sample_processing :: withdrawal where
  "sample_processing = sample_withdrawal ''2'' ''w'' 40 10 WProcessing"

text \<open>The wallet has 300, of which the pending withdrawal holds 100.\<close>

definition sample_state :: db where
  "sample_state = sample_db 300 100 [sample_pending, sample_processing]"

lemma sample_state_ok: "ledger_ok sample_state"
  unfolding sample_state_def
  by (rule sample_ledger_ok) (auto simp: sample_pending_def sample_processing_def sample_withdrawal_def)

lemma sample_state_backed: "backed sample_state"
proof -
  have "holds_match sample_state"
    by (simp add: holds_match_def sample_state_def reserved_def sample_pending_def sample_processing_def
        sample_withdrawal_def sample_wallet_def)
  moreover have "solvent sample_state"
    unfolding solvent_def by (simp add: sample_state_def sample_wallet_def)
  moreover have "amounts_ok sample_state"
    by (simp add: amounts_ok_def sample_state_def sample_pending_def sample_processing_def sample_withdrawal_def)
  ultimately show ?thesis using sample_state_ok by (simp add: backed_def)
qed

section \<open>The ledger under every sequence of operations\<close>

text \<open>C1: No sequence of withdrawal operations unbalances the books. Starting from a consistent ledger,
  whatever users request, administrators approve or reject, and the payment provider answers or
  reports (in any order, duplicated or forged, and on failing paths too), afterwards every wallet still shows the
  balance of its ledger account, links and keys are intact, no pending withdrawal has been posted,
  and the sum of all account balances is what it was.\<close>

theorem lifecycle_keeps_ledger:
  assumes "ledger_ok d"
  shows "ledger_ok (fold perform es d) \<and> trial_balance (fold perform es d) = trial_balance d"
  using withdrawal_operations.fold_ledger_ok [OF assms] withdrawal_operations.fold_trial_balance [OF assms]
  by blast

theorem lifecycle_keeps_ledger_witness:
  "ledger_ok (fold perform [Reject 5 ''1'' ''adm'', Reject 6 ''1'' ''adm''] sample_state)
     \<and> trial_balance (fold perform [Reject 5 ''1'' ''adm'', Reject 6 ''1'' ''adm''] sample_state) = 0"
proof -
  have "trial_balance sample_state = 0"
    by (simp add: trial_balance_def total_def sample_state_def sample_defs)
  with lifecycle_keeps_ledger [OF sample_state_ok, of "[Reject 5 ''1'' ''adm'', Reject 6 ''1'' ''adm'']"]
  show ?thesis by (simp only:)
qed

text \<open>C2: A withdrawal only moves forward through pending, processing, completed and failed. Along every
  sequence of operations and reports its status never decreases in this order; so a failed
  withdrawal stays failed, a processing one is never pending again, and a completed one can only
  become failed.\<close>

theorem withdrawal_status_forward:
  assumes "ledger_ok d" and "status_of d i = Some s"
  shows "\<exists>s'. status_of (fold perform es d) i = Some s' \<and> s \<le> s'
    \<and> (s = WFailed \<longrightarrow> s' = WFailed) \<and> (s = WCompleted \<longrightarrow> s' \<in> {WCompleted, WFailed})"
proof -
  have "advances d (fold perform es d)"
    using fold_proper [of perform, OF perform_proper, of d es] assms(1) by (simp add: proper_def)
  with assms(2) obtain s' where s': "status_of (fold perform es d) i = Some s'" and le: "s \<le> s'"
    unfolding advances_def by blast
  from le have "(s = WFailed \<longrightarrow> s' = WFailed) \<and> (s = WCompleted \<longrightarrow> s' \<in> {WCompleted, WFailed})" by auto
  with s' le show ?thesis by (intro exI [of _ s'] conjI) simp_all
qed

theorem withdrawal_status_forward_witness:
  "\<exists>s'. status_of (perform (Reject 5 ''1'' ''adm'') sample_state) ''2'' = Some s' \<and> WProcessing \<le> s'"
proof -
  have s: "status_of sample_state ''2'' = Some WProcessing"
    by (simp add: sample_state_def sample_pending_def sample_processing_def sample_withdrawal_def lookup_by_Cons)
  from withdrawal_status_forward [OF sample_state_ok this, of "[Reject 5 ''1'' ''adm'']"]
  show ?thesis by (auto simp del: perform.simps)
qed

section \<open>Reservations\<close>

text \<open>
  The steps that move reservations: a request is placed, settled, rejected, or reported as paid.
\<close>

inductive reservation_step :: "db \<Rightarrow> db \<Rightarrow> bool" where
  Place: "place_withdrawal fees now q d = Inr (w, d') \<Longrightarrow> 0 \<le> rq_amount q \<Longrightarrow> 0 \<le> wc_fee (rq_charges q) \<Longrightarrow>
    reservation_step d d'"
| Settle: "settle_transaction sm now i actor c d = Inr (w, d') \<Longrightarrow> clearing_id d = Some c \<Longrightarrow> reservation_step d d'"
| Refuse: "rejectUserWithdrawal now i u d = (d', Inr w) \<Longrightarrow> reservation_step d d'"
| Paid: "handleWithdrawalSucceeded now p d = (d', Inr s) \<Longrightarrow> reservation_step d d'"

lemma reservation_step_backed:
  assumes "reservation_step d d'" and "backed d"
  shows "backed d'"
  using assms(1)
proof (cases rule: reservation_step.cases)
  case (Place fees now q w)
  with assms(2) show ?thesis by (blast intro: place_withdrawal_backed)
next
  case (Settle sm now i actor c w)
  with assms(2) show ?thesis by (blast intro: settle_transaction_backed)
next
  case (Refuse now i u w)
  have adm: "is_platform_admin u d" using Refuse by (simp add: rejectUserWithdrawal_def split: if_splits)
  with Refuse have "reject_transaction now i u d = Inr (w, d')"
    by (simp add: rejectUserWithdrawal_def transaction_Inr)
  then show ?thesis using assms(2) adm by (rule reject_transaction_backed)
next
  case (Paid now p s)
  define n where "n = getWebhookIdentifiers p"
  obtain w where w: "find_withdrawal n d = Some w"
    using Paid by (cases "find_withdrawal n d") (simp_all add: handleWithdrawalSucceeded_def Let_def n_def)
  have get: "get_withdrawal d (wd_id w) = Some w"
    using assms(2) by (intro find_withdrawal_get [OF w]) (simp add: backed_def ledger_ok_def books_ok_def)
  show ?thesis
  proof (cases "wd_status w = WProcessing")
    case True
    with Paid w have "d' = complete_withdrawal now (id_provider n) w d"
      by (simp add: handleWithdrawalSucceeded_def Let_def n_def)
    with complete_withdrawal_backed [OF assms(2) get True] show ?thesis by simp
  next
    case False
    with Paid w have "d' = d"
      by (simp add: handleWithdrawalSucceeded_def Let_def n_def split: if_splits)
    with assms(2) show ?thesis by simp
  qed
qed

text \<open>C3: Reservations are exact and covered. However requests are placed, settled, rejected and reported as
  paid, each wallet's held balance stays the sum of the amounts and fees of its pending
  withdrawals, and its balance stays at least that: no request ever promises money that another
  pending request has already been promised.\<close>

theorem reservations_covered:
  assumes "reservation_step\<^sup>*\<^sup>* d d'" and "backed d"
  shows "backed d' \<and> holds_match d' \<and> solvent d'"
proof -
  from assms have "backed d'" by (induction rule: rtranclp_induct) (blast intro: reservation_step_backed)+
  then show ?thesis by (simp add: backed_def)
qed

theorem reservations_covered_witness:
  "\<exists>d' w. rejectUserWithdrawal 5 ''1'' ''adm'' sample_state = (d', Inr w) \<and> holds_match d' \<and> solvent d'"
proof -
  have adm: "is_platform_admin ''adm'' sample_state"
    by (simp add: is_platform_admin_def sample_state_def sample_db_def)
  have w: "get_withdrawal sample_state ''1'' = Some sample_pending" "wd_status sample_pending = WPending"
    by (simp_all add: sample_state_def sample_pending_def sample_withdrawal_def lookup_by_Cons)
  obtain d' v where r: "rejectUserWithdrawal 5 ''1'' ''adm'' sample_state = (d', Inr v)"
    using adm w by (simp add: rejectUserWithdrawal_def transaction_def reject_transaction_def Let_def)
  then have "reservation_step\<^sup>*\<^sup>* sample_state d'" by (intro r_into_rtranclp) (rule reservation_step.Refuse)
  from reservations_covered [OF this sample_state_backed] r show ?thesis by (intro exI [of _ d'] exI [of _ v]) simp
qed

section \<open>Settlement and compensation\<close>

lemma reserved_nonneg:
  assumes "amounts_ok d"
  shows "0 \<le> reserved d k"
  unfolding reserved_eq
proof (rule sum_list_nonneg)
  fix x
  assume "x \<in> set (map (pending_total k) (withdrawals d))"
  then obtain w where "w \<in> set (withdrawals d)" "x = pending_total k w" by auto
  with assms show "0 \<le> x" by (auto simp: amounts_ok_def pending_total_def list_all_iff)
qed

text \<open>With wallet, account and clearing account in place, a pending withdrawal is settled.\<close>

lemma settle_transaction_defined:
  assumes ok: "ledger_ok d" and c: "clearing_id d = Some c"
    and w: "get_withdrawal d i = Some w" "wd_status w = WPending"
    and wl: "get_wallet d (wd_wallet w) = Some wl"
    and self: "\<not> (wd_user w = actor \<and> wm_type (wd_meta w) = PlatformWithdrawal \<and> sm_refuse_self sm)"
  shows "\<exists>v d'. settle_transaction sm now i actor c d = Inr (v, d')"
proof -
  from ok have books: "books_ok d" and open_ok: "accounts_open d" and post: "postings_ok d"
    by (simp_all add: ledger_ok_def)
  have "map_option wl_account (get_wallet d (wd_wallet w)) \<noteq> Some None"
    using open_ok unfolding accounts_open_def by blast
  then obtain a where a: "wl_account wl = Some a" using wl by (cases "wl_account wl") simp_all
  let ?d1 = "upd_withdrawal i (\<lambda>r. r\<lparr>wd_status := WProcessing, wd_processed := Some now\<rparr>) d"
  let ?x = "settlement_entry sm i actor c a (wd_total w)"
  have acct: "get_account d a \<noteq> None" "get_account d c \<noteq> None"
    using links_okD [OF _ wl a] books clearing_unlinked [OF books c] by (auto simp: books_ok_def)
  have none: "lookup_by je_withdrawal (Some i) (entries d) = None" by (rule pending_unposted [OF post w])
  have "\<exists>d2. createJournalEntry now ?x ?d1 = Inr (fresh_id ?d1, d2)"
    by (rule createJournalEntry_defined)
      (use acct none in \<open>auto simp: settlement_entry_def debits_def credits_def entry_link_taken_def\<close>)
  then obtain e d2 where p: "createOrReuseWithdrawalJournal now ?x i ?d1 = Inr (e, d2)"
    using none by (auto simp: createOrReuseWithdrawalJournal_def)
  have "settle_transaction sm now i actor c d = Inr (w\<lparr>wd_status := WProcessing, wd_processed := Some now\<rparr>,
      settled sm now i actor e w wl d2)"
    using w wl self a p by (simp add: settle_transaction_def settled_def Let_def)
  then show ?thesis by blast
qed

text \<open>C4: Every pending withdrawal can be paid. When reservations are backed, settling a pending withdrawal
  (by someone who may) succeeds: the withdrawal becomes processing, its amount and fee leave the
  wallet's balance and its held balance together, and the balance that remains covers what the
  wallet's other pending withdrawals hold, so it is never negative.\<close>

theorem pending_withdrawal_settles:
  assumes "backed d" and "clearing_id d = Some c"
    and "get_withdrawal d i = Some w" and "wd_status w = WPending"
    and "get_wallet d (wd_wallet w) = Some wl"
    and "\<not> (wd_user w = actor \<and> wm_type (wd_meta w) = PlatformWithdrawal \<and> sm_refuse_self sm)"
  shows "\<exists>v d'. settle_transaction sm now i actor c d = Inr (v, d') \<and> status_of d' i = Some WProcessing
    \<and> map_option (\<lambda>r. (wl_balance r, wl_held r)) (get_wallet d' (wd_wallet w)) =
        Some (wl_balance wl - wd_total w, wl_held wl - wd_total w)
    \<and> 0 \<le> wl_held wl - wd_total w \<and> wl_held wl - wd_total w \<le> wl_balance wl - wd_total w"
proof -
  from assms(1) have ok: "ledger_ok d" and keys: "keys_ok d" and post: "postings_ok d"
    and am: "amounts_ok d" and hm: "holds_match d" and sv: "solvent d"
    by (simp_all add: backed_def ledger_ok_def books_ok_def)
  obtain v d' where r: "settle_transaction sm now i actor c d = Inr (v, d')"
    using settle_transaction_defined [OF ok assms(2-6)] by blast
  have "map_option wl_held (get_wallet d (wd_wallet w)) = Some (reserved d (wd_wallet w))"
    using hm assms(5) unfolding holds_match_def by (metis option.distinct(1))
  with assms(5) reserved_covers [OF am lookup_by_mem [OF assms(3)] assms(4)]
  have held: "wd_total w \<le> wl_held wl" by simp
  have free: "wl_held wl \<le> wl_balance wl" using free_nonneg [OF sv, of "wd_wallet w"] assms(5) by simp
  have "status_of d' i = Some WProcessing \<and> map_option (\<lambda>r. (wl_balance r, wl_held r)) (get_wallet d' (wd_wallet w)) =
        Some (wl_balance wl - wd_total w, wl_held wl - wd_total w)"
  proof (rule settle_transaction_tables [OF r keys post])
    fix w' wl' a e
    assume "get_withdrawal d i = Some w'" and wl': "get_wallet d (wd_wallet w') = Some wl'"
      and W: "wallets d' = update_by wl_id (wd_wallet w') (\<lambda>r. r\<lparr>wl_balance := wl_balance wl' - wd_total w',
        wl_held := max 0 (wl_held wl' - wd_total w')\<rparr>) (wallets d)"
      and D: "withdrawals d' = update_by wd_id i (\<lambda>r. r\<lparr>wd_status := WProcessing, wd_processed := Some now,
        wd_entry := Some e\<rparr>) (withdrawals d)"
    then have "w' = w" using assms(3) by simp
    with wl' assms(5) have "wl' = wl" by simp
    with \<open>w' = w\<close> W D assms(3,5) held show ?thesis by (simp add: table_simps)
  qed
  with r held free show ?thesis by (intro exI [of _ v] exI [of _ d']) simp
qed

theorem pending_withdrawal_settles_witness:
  "\<exists>v d'. settle_transaction (user_settlement (STR ''OK'')) 5 ''1'' ''adm'' ''c'' sample_state = Inr (v, d')
     \<and> map_option wl_balance (get_wallet d' ''w'') = Some 200"
proof -
  have w: "get_withdrawal sample_state ''1'' = Some sample_pending" "wd_status sample_pending = WPending"
    "wd_wallet sample_pending = ''w''" "wd_total sample_pending = 100"
    by (simp_all add: sample_state_def sample_pending_def sample_withdrawal_def lookup_by_Cons)
  have c: "clearing_id sample_state = Some ''c''" by (simp add: sample_state_def)
  let ?wl = "sample_wallet ''w'' (Some ''u'') None False 300 100 ''wa''"
  have wl: "get_wallet sample_state (wd_wallet sample_pending) = Some ?wl"
    unfolding w(3) by (simp add: sample_state_def)
  have self: "\<not> (wd_user sample_pending = ''adm'' \<and> wm_type (wd_meta sample_pending) = PlatformWithdrawal
      \<and> sm_refuse_self (user_settlement (STR ''OK'')))"
    by (simp add: user_settlement_def)
  obtain v d' where r: "settle_transaction (user_settlement (STR ''OK'')) 5 ''1'' ''adm'' ''c'' sample_state = Inr (v, d')"
    and b: "map_option (\<lambda>r. (wl_balance r, wl_held r)) (get_wallet d' ''w'') = Some (200, 0)"
    using pending_withdrawal_settles [OF sample_state_backed c w(1,2) wl self, of 5]
    unfolding w(3,4) by (auto simp: sample_wallet_def)
  from b have "map_option wl_balance (get_wallet d' ''w'') = Some 200" by (cases "get_wallet d' ''w''") simp_all
  with r show ?thesis by (intro exI [of _ v] exI [of _ d']) simp
qed

text \<open>The balances after two movements that cancel.\<close>

lemma movement_zero_balances:
  assumes "movement f g d d'" and "\<And>k. f k = 0" and "\<And>i. g i = 0"
  shows "map_option wl_balance (get_wallet d' k) = map_option wl_balance (get_wallet d k)"
    and "map_option la_balance (get_account d' i) = map_option la_balance (get_account d i)"
proof -
  have snd_eq: "map_option b x' = map_option b x"
    if "map_option (\<lambda>r. (h r, b r)) x' = map_option (\<lambda>r. (h r, b r + m)) x" "m = (0::int)"
    for h :: "'r \<Rightarrow> 'h" and b x x' m
    using that by (cases x; cases x') simp_all
  show "map_option wl_balance (get_wallet d' k) = map_option wl_balance (get_wallet d k)"
    by (rule snd_eq [OF movementD(3) [OF assms(1)] assms(2)])
  show "map_option la_balance (get_account d' i) = map_option la_balance (get_account d i)"
    by (rule snd_eq [OF movementD(4) [OF assms(1)] assms(3)])
qed

lemma compensate_movement:
  assumes "get_withdrawal d i = Some w" and "wd_status w = WProcessing" and "wd_payout w = None"
    and "wm_fee_allocated (wd_meta w) = None" and "get_wallet d (wd_wallet w) = Some wl"
  shows "movement (\<lambda>k. if k = wd_wallet w then wd_total w else 0)
      (\<lambda>k. moved (wl_account wl) (wd_total w) k + moved (clearing_id d) (- wd_total w) k) d
      (compensateFailedPayoutSubmission now i d)"
    and "status_of (compensateFailedPayoutSubmission now i d) i = Some WFailed"
proof -
  let ?d1 = "upd_withdrawal i (\<lambda>r. r\<lparr>wd_status := WFailed, wd_failed := Some now, wd_hook_status := ''FAILED''\<rparr>) d"
  have eq: "compensateFailedPayoutSubmission now i d = mark_entry_reversed (wd_entry w)
      (refund_accounts wl (wd_total w) (adjust_wallet (wd_wallet w) (wd_total w) ?d1))"
    using assms by (simp add: compensateFailedPayoutSubmission_def Let_def reverseOrganizationWithdrawalPlatformFee_def)
  have "movement (\<lambda>_. 0) (\<lambda>_. 0) d ?d1" by (rule movement_upd_withdrawal) simp_all
  moreover have "clearing_id ?d1 = clearing_id d" by (simp add: clearing_id_def)
  ultimately show "movement (\<lambda>k. if k = wd_wallet w then wd_total w else 0)
      (\<lambda>k. moved (wl_account wl) (wd_total w) k + moved (clearing_id d) (- wd_total w) k) d
      (compensateFailedPayoutSubmission now i d)"
    unfolding eq
    using movement_then [OF then_movement [OF _ refund_movement [of "wd_wallet w" "wd_total w" wl ?d1]] movement_mark]
    by simp
  show "status_of (compensateFailedPayoutSubmission now i d) i = Some WFailed"
    unfolding eq by (simp add: table_simps assms(1))
qed

text \<open>C33: Compensation undoes a settlement. When the provider never accepts the payout of a withdrawal that was
  just settled, \<open>compensateFailedPayoutSubmission\<close> gives every wallet and every ledger account
  the balance it had before the settlement, and leaves the withdrawal failed.\<close>

theorem settle_then_compensate:
  assumes "settle_transaction sm now i actor c d = Inr (v, d1)" and "ledger_ok d" and "clearing_id d = Some c"
    and "get_withdrawal d i = Some w" and "wd_payout w = None" and "wm_fee_allocated (wd_meta w) = None"
  shows "(\<forall>k. map_option wl_balance (get_wallet (compensateFailedPayoutSubmission later i d1) k)
        = map_option wl_balance (get_wallet d k))
    \<and> (\<forall>a. map_option la_balance (get_account (compensateFailedPayoutSubmission later i d1) a)
        = map_option la_balance (get_account d a))
    \<and> status_of (compensateFailedPayoutSubmission later i d1) i = Some WFailed"
proof -
  have keys: "keys_ok d" and post: "postings_ok d" using assms(2) by (simp_all add: ledger_ok_def books_ok_def)
  show ?thesis
  proof (rule settle_transaction_movement [OF assms(1) keys post])
    fix w' wl a
    assume "get_withdrawal d i = Some w'" and wl': "get_wallet d (wd_wallet w') = Some wl" "wl_account wl = Some a"
      and m': "movement (\<lambda>k. if k = wd_wallet w' then - wd_total w' else 0)
        (\<lambda>k. moved (Some a) (- wd_total w') k + moved (Some c) (wd_total w') k) d d1"
    then have "w' = w" using assms(4) by simp
    note wl = wl' [unfolded \<open>w' = w\<close>] and m = m' [unfolded \<open>w' = w\<close>]
    have cl: "clearing_id d1 = Some c" using movementD(6) [OF m] assms(3) by simp
    obtain wl1 where wl1: "get_wallet d1 (wd_wallet w) = Some wl1" "wl_account wl1 = Some a"
      using map_option_shift_fst(1) [OF movementD(3) [OF m], of "wd_wallet w"] wl
      by (cases "get_wallet d1 (wd_wallet w)") simp_all
    obtain e where D: "withdrawals d1 = update_by wd_id i (\<lambda>r. r\<lparr>wd_status := WProcessing, wd_processed := Some now,
        wd_entry := Some e\<rparr>) (withdrawals d)"
      by (rule settle_transaction_tables [OF assms(1) keys post]) blast
    define w1 where "w1 = w\<lparr>wd_status := WProcessing, wd_processed := Some now, wd_entry := Some e\<rparr>"
    have get: "get_withdrawal d1 i = Some w1" by (simp add: D table_simps assms(4) w1_def)
    have w1: "wd_status w1 = WProcessing" "wd_payout w1 = None" "wm_fee_allocated (wd_meta w1) = None"
      "wd_wallet w1 = wd_wallet w" "wd_total w1 = wd_total w"
      using assms(5,6) by (simp_all add: w1_def)
    note C = compensate_movement [OF get w1(1-3), unfolded w1(4,5), OF wl1(1), of later]
    have z: "(if k = wd_wallet w then - wd_total w else 0) + (if k = wd_wallet w then wd_total w else 0) = 0" for k
      by simp
    have z2: "moved (Some a) (- wd_total w) k + moved (Some c) (wd_total w) k +
        (moved (wl_account wl1) (wd_total w) k + moved (clearing_id d1) (- wd_total w) k) = 0" for k
      by (simp add: wl1(2) cl)
    from movement_zero_balances [OF movement_trans [OF m C(1)] z z2] C(2) show ?thesis by blast
  qed
qed

theorem settle_then_compensate_witness:
  "\<exists>v d1. settle_transaction (user_settlement (STR ''OK'')) 5 ''1'' ''adm'' ''c'' sample_state = Inr (v, d1)
     \<and> map_option wl_balance (get_wallet (compensateFailedPayoutSubmission 6 ''1'' d1) ''w'') = Some 300"
proof -
  have w: "get_withdrawal sample_state ''1'' = Some sample_pending" "wd_status sample_pending = WPending"
    "wd_payout sample_pending = None" "wm_fee_allocated (wd_meta sample_pending) = None"
    by (simp_all add: sample_state_def sample_pending_def sample_withdrawal_def sample_meta_def lookup_by_Cons)
  have c: "clearing_id sample_state = Some ''c''" by (simp add: sample_state_def)
  have wl: "get_wallet sample_state (wd_wallet sample_pending) = Some (sample_wallet ''w'' (Some ''u'') None False 300 100 ''wa'')"
    by (simp add: sample_state_def sample_pending_def sample_withdrawal_def)
  have "\<not> (wd_user sample_pending = ''adm'' \<and> wm_type (wd_meta sample_pending) = PlatformWithdrawal
      \<and> sm_refuse_self (user_settlement (STR ''OK'')))"
    by (simp add: user_settlement_def)
  from settle_transaction_defined [OF sample_state_ok c w(1,2) wl this, of 5]
  obtain v d1 where r: "settle_transaction (user_settlement (STR ''OK'')) 5 ''1'' ''adm'' ''c'' sample_state = Inr (v, d1)"
    by blast
  from settle_then_compensate [OF r sample_state_ok c w(1,3,4), of 6]
  have "map_option wl_balance (get_wallet (compensateFailedPayoutSubmission 6 ''1'' d1) ''w'') =
      map_option wl_balance (get_wallet sample_state ''w'')" by blast
  also have "\<dots> = Some 300" by (simp add: sample_state_def sample_wallet_def)
  finally show ?thesis using r by (intro exI [of _ v] exI [of _ d1]) simp
qed

section \<open>Requests\<close>

text \<open>C34: A request is placed exactly when the balance not held covers the amount and the fee. Then one pending
  withdrawal with the charges and metadata of the request, one active hold on it for a week, and
  the held balance raised by amount plus fee are all that changes of withdrawals, holds and
  wallets; otherwise the caller gets the free balance, the request, the fee, their sum and the
  largest possible withdrawal, and nothing is written.\<close>

theorem place_withdrawal_exact:
  assumes "get_wallet d (rq_wallet q) = Some v"
  shows "if rq_amount q + wc_fee (rq_charges q) \<le> wl_balance v - wl_held v
    then \<exists>d'. transaction (place_withdrawal fees now q) d = (d', Inr (new_withdrawal (fresh_id d) q))
      \<and> withdrawals d' = withdrawals d @ [new_withdrawal (fresh_id d) q]
      \<and> holds d' = holds d @ [new_hold now (fresh_id d) q (rq_amount q + wc_fee (rq_charges q))]
      \<and> (\<forall>k. get_wallet d' k = (if k = rq_wallet q then Some (v\<lparr>wl_held := wl_held v + (rq_amount q + wc_fee (rq_charges q))\<rparr>)
          else get_wallet d k))
    else transaction (place_withdrawal fees now q) d = (d, Inl (InsufficientAvailable (wl_balance v - wl_held v)
      (rq_amount q) (wc_fee (rq_charges q)) (rq_amount q + wc_fee (rq_charges q))
      (calculateMaximumWithdrawal fees (wl_balance v - wl_held v) (rq_fixed_fee q))))"
proof (cases "rq_amount q + wc_fee (rq_charges q) \<le> wl_balance v - wl_held v")
  case True
  obtain w d' where r: "place_withdrawal fees now q d = Inr (w, d')"
    using assms True by (cases "place_withdrawal fees now q d")
      (auto simp: place_withdrawal_def Let_def split: if_splits)
  show ?thesis
    unfolding if_P [OF True]
  proof (rule place_withdrawal_InrD [OF r])
    fix v'
    assume w: "w = new_withdrawal (fresh_id d) q" and ws: "withdrawals d' = withdrawals d @ [w]"
      and wl: "wallets d' = adjust wl_id wl_held_update (rq_wallet q) (rq_amount q + wc_fee (rq_charges q)) (wallets d)"
      and hs: "holds d' = holds d @ [new_hold now (fresh_id d) q (rq_amount q + wc_fee (rq_charges q))]"
    have "get_wallet d' k = (if k = rq_wallet q then Some (v\<lparr>wl_held := wl_held v + (rq_amount q + wc_fee (rq_charges q))\<rparr>)
          else get_wallet d k)" for k
      using assms by (cases "k = rq_wallet q") (simp_all add: wl wallet_held.lookup_adjust)
    with r w ws hs show "\<exists>d'. transaction (place_withdrawal fees now q) d = (d', Inr (new_withdrawal (fresh_id d) q))
      \<and> withdrawals d' = withdrawals d @ [new_withdrawal (fresh_id d) q]
      \<and> holds d' = holds d @ [new_hold now (fresh_id d) q (rq_amount q + wc_fee (rq_charges q))]
      \<and> (\<forall>k. get_wallet d' k = (if k = rq_wallet q then Some (v\<lparr>wl_held := wl_held v + (rq_amount q + wc_fee (rq_charges q))\<rparr>)
          else get_wallet d k))"
      by (intro exI [of _ d']) (simp add: transaction_Inr)
  qed
next
  case False
  then show ?thesis
    using assms by (simp add: transaction_def place_withdrawal_def Let_def insufficientWithdrawalBalance_def)
qed

definition sample_request :: "int \<Rightarrow> withdrawal_request" where
  "sample_request amount =
     \<lparr>rq_user = ''u'', rq_wallet = ''w'', rq_amount = amount, rq_charges = user_withdrawal_charges None amount,
      rq_fixed_fee = None, rq_meta = sample_meta UserWithdrawal, rq_reference = ''WTH_'',
      rq_hold = ''Withdrawal request #'', rq_activity = None\<rparr>"

theorem place_withdrawal_exact_witness:
  "\<exists>d'. transaction (place_withdrawal None 5 (sample_request 150)) sample_state =
      (d', Inr (new_withdrawal (fresh_id sample_state) (sample_request 150)))
     \<and> map_option wl_held (get_wallet d' ''w'') = Some 250"
proof -
  have v: "get_wallet sample_state (rq_wallet (sample_request 150)) =
      Some (sample_wallet ''w'' (Some ''u'') None False 300 100 ''wa'')"
    by (simp add: sample_request_def sample_state_def)
  have c: "rq_amount (sample_request 150) + wc_fee (rq_charges (sample_request 150)) \<le>
      wl_balance (sample_wallet ''w'' (Some ''u'') None False 300 100 ''wa'')
        - wl_held (sample_wallet ''w'' (Some ''u'') None False 300 100 ''wa'')"
    by (simp add: sample_request_def sample_wallet_def user_withdrawal_charges_def calculateWithdrawalCharges_def)
  from place_withdrawal_exact [OF v, of None 5, unfolded if_P [OF c]]
  obtain d' where d': "transaction (place_withdrawal None 5 (sample_request 150)) sample_state =
      (d', Inr (new_withdrawal (fresh_id sample_state) (sample_request 150)))"
    and g: "\<And>k. get_wallet d' k = (if k = rq_wallet (sample_request 150)
        then Some ((sample_wallet ''w'' (Some ''u'') None False 300 100 ''wa'')\<lparr>wl_held :=
          wl_held (sample_wallet ''w'' (Some ''u'') None False 300 100 ''wa'') +
          (rq_amount (sample_request 150) + wc_fee (rq_charges (sample_request 150)))\<rparr>)
        else get_wallet sample_state k)" by blast
  have "map_option wl_held (get_wallet d' ''w'') = Some 250"
    unfolding g by (simp add: sample_request_def sample_wallet_def user_withdrawal_charges_def calculateWithdrawalCharges_def)
  with d' show ?thesis by (intro exI [of _ d']) simp
qed

end
