(* ===== verification/WithdrawalReports.thy ===== *)
theory WithdrawalReports
  imports Prelude Samples Books Withdrawals WithdrawalWebhooks WithdrawalBooks WithdrawalHolds WithdrawalStatus
    WithdrawalProperties
begin

text \<open>
  What the provider's reports do to reservations and balances when they do not arrive in the
  expected order, and what a payout's own fee does to the wallet. The frame lemmas say which
  steps leave the held balance alone.
\<close>

section \<open>Held balances\<close>

abbreviation held_of :: "db \<Rightarrow> ident \<Rightarrow> int option" where
  "held_of d k \<equiv> map_option wl_held (get_wallet d k)"

lemma held_adjust_wallet [simp]: "held_of (adjust_wallet i x d) k = held_of d k"
  by (cases "get_wallet d k") (auto simp: adjust_wallet_def wallet_balance.lookup_adjust)

lemma held_release_fee [simp]:
  "held_of (snd (reverseOrganizationWithdrawalPlatformFee i m d)) k = held_of d k"
proof -
  have "held_of (case e of None \<Rightarrow> d | Some e \<Rightarrow> upd_entry e f d) k = held_of d k" for e f
    by (cases e) simp_all
  then show ?thesis
    by (simp add: reverseOrganizationWithdrawalPlatformFee_def Let_def split: option.split)
qed

lemma wallets_refund [simp]: "wallets (refund_accounts w x d) = wallets d"
  by (simp add: refund_accounts_def Let_def)

lemma wallets_mark [simp]: "wallets (mark_entry_reversed e d) = wallets d"
  by (simp add: mark_entry_reversed_def split: option.split)

lemma wallets_release [simp]: "wallets (release_holds now k p d) = wallets d"
  by (simp add: release_holds_def)

lemma wallets_upsert [simp]: "wallets (upsert_webhook w c u s r d) = wallets d"
  by (simp add: upsert_webhook_def split: option.split)

lemma release_nothing [simp]:
  "wm_fee_allocated m = None \<Longrightarrow> snd (reverseOrganizationWithdrawalPlatformFee i m d) = d"
  by (simp add: reverseOrganizationWithdrawalPlatformFee_def Let_def)

lemma fail_withdrawal_held:
  assumes "get_wallet d (wd_wallet w) = Some wl"
  shows "held_of (fail_withdrawal now r w wl d) k =
    (if k = wd_wallet w then Some (max 0 (wl_held wl - wd_total w)) else held_of d k)"
  using assms by (simp add: fail_withdrawal_def Let_def table_simps)

lemma fail_withdrawal_balance:
  assumes "get_wallet d (wd_wallet w) = Some wl" and "wm_fee_allocated (wd_meta w) = None"
  shows "map_option wl_balance (get_wallet (fail_withdrawal now r w wl d) k) =
    (if k = wd_wallet w then Some (wl_balance wl + (if wd_status w = WProcessing then wd_total w else 0))
     else map_option wl_balance (get_wallet d k))"
  using assms by (simp add: fail_withdrawal_def Let_def table_simps)

lemma fail_withdrawal_rows:
  "withdrawals (fail_withdrawal now r w wl d) =
    update_by wd_id (wd_id w) (\<lambda>v. v\<lparr>wd_status := WFailed, wd_failed := Some now, wd_hook_status := ''FAILED''\<rparr>)
      (withdrawals d)"
  by (simp add: fail_withdrawal_def Let_def release_holds_def)

lemma find_map_same: "(\<And>x. P (g x) = P x) \<Longrightarrow> find P (map g xs) = map_option g (find P xs)"
  by (induction xs) simp_all

lemma reported_withdrawal_get:
  assumes "find_withdrawal n d = Some w" and "keys_ok d"
  shows "get_withdrawal d (wd_id w) = Some w"
  using assms lookup_by_distinct [of wd_id "withdrawals d" w]
  by (auto simp: find_withdrawal_def keys_ok_def dest: find_SomeD)

section \<open>A failure report on a settled withdrawal\<close>

text \<open>A failure report takes away another request's reservation. A withdrawal being processed holds nothing
  any more, but when the provider reports its failure the handler lowers the wallet's held
  balance by its amount and fee again. While other requests of the wallet are pending, their
  reservation stays the same and the held balance falls short of it, so the money they were
  promised can be promised once more.\<close>

lemma failed_report_frees_reservation:
  assumes "holds_match d" and "keys_ok d"
    and "find_withdrawal (getWebhookIdentifiers p) d = Some w" and "wd_status w = WProcessing"
    and "get_wallet d (wd_wallet w) = Some wl"
    and "0 < wd_total w" and "0 < reserved d (wd_wallet w)"
  shows "held_of (fst (handleWithdrawalFailed now p d)) (wd_wallet w) =
      Some (max 0 (reserved d (wd_wallet w) - wd_total w))
    \<and> reserved (fst (handleWithdrawalFailed now p d)) (wd_wallet w) = reserved d (wd_wallet w)
    \<and> \<not> holds_match (fst (handleWithdrawalFailed now p d))"
proof -
  define d' where "d' = fst (handleWithdrawalFailed now p d)"
  have d': "d' = fail_withdrawal now (id_provider (getWebhookIdentifiers p)) w wl d"
    using assms(3-5) by (simp add: d'_def handleWithdrawalFailed_def Let_def)
  have "held_of d (wd_wallet w) = Some (reserved d (wd_wallet w))"
    using assms(1,5) unfolding holds_match_def by (metis option.distinct(1))
  then have wl: "wl_held wl = reserved d (wd_wallet w)" by (simp add: assms(5))
  have h: "held_of d' (wd_wallet w) = Some (max 0 (reserved d (wd_wallet w) - wd_total w))"
    unfolding d' using fail_withdrawal_held [OF assms(5)] by (simp add: wl)
  have "reserved d' k = reserved d k" for k
    using reserved_upd [OF fail_withdrawal_rows assms(2) reported_withdrawal_get [OF assms(3,2)],
        of now _ wl k] assms(4) by (simp add: d' pending_total_def)
  then have r: "reserved d' (wd_wallet w) = reserved d (wd_wallet w)" .
  have "max 0 (reserved d (wd_wallet w) - wd_total w) \<noteq> reserved d (wd_wallet w)"
    using assms(6,7) by linarith
  moreover have "get_wallet d' (wd_wallet w) \<noteq> None" using h by auto
  ultimately have "\<not> holds_match d'"
    using h r unfolding holds_match_def by (metis option.inject)
  with h r have "held_of d' (wd_wallet w) = Some (max 0 (reserved d (wd_wallet w) - wd_total w))
    \<and> reserved d' (wd_wallet w) = reserved d (wd_wallet w) \<and> \<not> holds_match d'" by blast
  then show ?thesis unfolding d'_def .
qed

definition sample_report :: "ident \<Rightarrow> payload" where
  "sample_report i =
     \<lparr>pl_event = Some ''payout.failed'', pl_type = None, pl_reference = None, pl_payout = None,
      pl_metadata = Some \<lparr>hm_withdrawalId = Some i, hm_withdrawal_id = None\<rparr>, pl_data = None\<rparr>"

lemma sample_report_names: "getWebhookIdentifiers (sample_report i) = \<lparr>id_reference = None, id_provider = None, id_withdrawal = Some i\<rparr>"
  by (simp add: getWebhookIdentifiers_def sample_report_def js_or_def js_dot_def Let_def)

lemma sample_report_finds:
  "find_withdrawal (getWebhookIdentifiers (sample_report ''2'')) sample_state = Some sample_processing"
  "find_withdrawal (getWebhookIdentifiers (sample_report ''1'')) sample_state = Some sample_pending"
  by (simp_all add: sample_report_names find_withdrawal_def names_withdrawal_def sample_state_def
      sample_pending_def sample_processing_def sample_withdrawal_def)

lemma sample_state_wallet:
  "get_wallet sample_state ''w'' = Some (sample_wallet ''w'' (Some ''u'') None False 300 100 ''wa'')"
  by (simp add: sample_state_def)

lemma sample_state_reserved: "reserved sample_state ''w'' = 100"
  by (simp add: reserved_def sample_state_def sample_pending_def sample_processing_def sample_withdrawal_def)

lemma failed_report_frees_reservation_example:
  "held_of (fst (handleWithdrawalFailed 9 (sample_report ''2'') sample_state)) ''w'' = Some 50
    \<and> reserved (fst (handleWithdrawalFailed 9 (sample_report ''2'') sample_state)) ''w'' = 100"
proof -
  have w: "wd_status sample_processing = WProcessing" "wd_wallet sample_processing = ''w''" "wd_total sample_processing = 50"
    by (simp_all add: sample_processing_def sample_withdrawal_def)
  have ok: "holds_match sample_state" "keys_ok sample_state"
    using sample_state_backed by (simp_all add: backed_def ledger_ok_def books_ok_def)
  show ?thesis
    using failed_report_frees_reservation [OF ok sample_report_finds(1) w(1), unfolded w(2,3) sample_state_reserved,
        OF sample_state_wallet, of 9] by simp
qed

section \<open>Reports out of order\<close>

text \<open>A payout reported as created before the withdrawal was settled, and then as failed, creates money. The
  first report moves the pending withdrawal to processing without any debit; the second takes it
  for debited and adds its amount and fee to the wallet's balance. The owner then has that much more than
  before the request.\<close>

lemma pending_then_failed_mints:
  assumes "keys_ok d"
    and "find_withdrawal (getWebhookIdentifiers p) d = Some w" and "wd_status w = WPending"
    and "get_wallet d (wd_wallet w) = Some wl" and "wm_fee_allocated (wd_meta w) = None"
  shows "map_option wl_balance (get_wallet
      (fst (handleWithdrawalFailed now p (fst (handleWithdrawalPending p d)))) (wd_wallet w)) =
    Some (wl_balance wl + wd_total w)"
proof -
  define n where "n = getWebhookIdentifiers p"
  define f :: "withdrawal \<Rightarrow> withdrawal" where "f = (\<lambda>r. r\<lparr>wd_status := WProcessing\<rparr>)"
  define d1 where "d1 = fst (handleWithdrawalPending p d)"
  have d1: "d1 = pend_withdrawal (id_provider n) w d"
    using assms(2,3) by (simp add: d1_def handleWithdrawalPending_def Let_def n_def)
  have ws: "withdrawals d1 = map (\<lambda>r. if wd_id r = wd_id w then f r else r) (withdrawals d)"
    by (simp add: d1 pend_withdrawal_def update_by_def update_where_def f_def)
  have names: "names_withdrawal n (if wd_id r = wd_id w then f r else r) = names_withdrawal n r" for r
    by (simp add: names_withdrawal_def f_def)
  have "find (names_withdrawal n) (withdrawals d1) =
      map_option (\<lambda>r. if wd_id r = wd_id w then f r else r) (find (names_withdrawal n) (withdrawals d))"
    unfolding ws by (rule find_map_same) (rule names)
  then have found: "find_withdrawal n d1 = Some (f w)"
    using assms(2) by (simp add: find_withdrawal_def n_def)
  have fw: "wd_status (f w) = WProcessing" "wd_wallet (f w) = wd_wallet w" "wd_total (f w) = wd_total w"
    "wm_fee_allocated (wd_meta (f w)) = None" using assms(5) by (simp_all add: f_def)
  have wl: "get_wallet d1 (wd_wallet (f w)) = Some wl"
    using assms(4) by (simp add: d1 pend_withdrawal_def fw(2))
  have "fst (handleWithdrawalFailed now p d1) = fail_withdrawal now (id_provider n) (f w) wl d1"
    using found wl fw(1) by (simp add: handleWithdrawalFailed_def Let_def n_def)
  then show ?thesis
    using fail_withdrawal_balance [OF wl fw(4), where now = now and r = "id_provider n" and k = "wd_wallet w"] fw(1-3)
    by (simp add: d1_def)
qed

lemma pending_then_failed_mints_example:
  "map_option wl_balance (get_wallet
     (fst (handleWithdrawalFailed 9 (sample_report ''1'') (fst (handleWithdrawalPending (sample_report ''1'') sample_state)))) ''w'')
   = Some 400"
proof -
  have w: "wd_status sample_pending = WPending" "wd_wallet sample_pending = ''w''" "wd_total sample_pending = 100"
    "wm_fee_allocated (wd_meta sample_pending) = None"
    by (simp_all add: sample_pending_def sample_withdrawal_def sample_meta_def)
  have k: "keys_ok sample_state"
    using sample_state_ok by (simp add: ledger_ok_def books_ok_def)
  show ?thesis
    using pending_then_failed_mints [OF k sample_report_finds(2) w(1), unfolded w(2,3), OF sample_state_wallet w(4), of 9]
    by (simp add: sample_wallet_def)
qed

text \<open>A failure report on a completed withdrawal records a failure but refunds nothing: the withdrawal
  becomes failed while no wallet's balance changes.\<close>

lemma failed_after_completed_refunds_nothing:
  assumes "keys_ok d"
    and "find_withdrawal (getWebhookIdentifiers p) d = Some w" and "wd_status w = WCompleted"
    and "get_wallet d (wd_wallet w) = Some wl" and "wm_fee_allocated (wd_meta w) = None"
  shows "status_of (fst (handleWithdrawalFailed now p d)) (wd_id w) = Some WFailed
    \<and> map_option wl_balance (get_wallet (fst (handleWithdrawalFailed now p d)) k) = map_option wl_balance (get_wallet d k)"
proof -
  have d': "fst (handleWithdrawalFailed now p d) = fail_withdrawal now (id_provider (getWebhookIdentifiers p)) w wl d"
    using assms(2-4) by (simp add: handleWithdrawalFailed_def Let_def)
  have "get_withdrawal d (wd_id w) = Some w" by (rule reported_withdrawal_get [OF assms(2,1)])
  then show ?thesis
    unfolding d' using fail_withdrawal_balance [OF assms(4,5), where now = now and k = k] assms(3,4)
    by (cases "k = wd_wallet w") (simp_all add: fail_withdrawal_rows table_simps)
qed

section \<open>The provider's own fee\<close>

text \<open>A provider's fee can overdraw a wallet. A payout of a user or of the platform that costs more than the
  fee reserved for it is charged to the wallet after the money has left, without any check:
  when the free balance is smaller than the difference, the balance no longer covers what the
  wallet's pending requests hold.\<close>

lemma provider_fee_overdraws:
  assumes "get_wallet d (wd_wallet w) = Some wl" and "\<not> is_organization_withdrawal w"
    and "wl_balance wl - wl_held wl < provider_fee p w - wd_fee w" and "wd_fee w < provider_fee p w"
  shows "\<exists>d'. record_payout now w p None d = Inr ((), d')
    \<and> map_option wl_balance (get_wallet d' (wd_wallet w)) = Some (wl_balance wl - (provider_fee p w - wd_fee w))
    \<and> \<not> solvent d'"
proof -
  let ?x = "provider_fee p w - wd_fee w"
  let ?d1 = "charge_fee_difference w (provider_fee p w) d"
  obtain f where r: "record_payout now w p None d = Inr ((), upd_withdrawal (wd_id w) f ?d1)"
    using assms(1,2,4) by (simp add: record_payout_def Let_def require_def)
  define d' where "d' = upd_withdrawal (wd_id w) f ?d1"
  have ws: "wallets d' = adjust wl_id wl_balance_update (wd_wallet w) (- ?x) (wallets d)"
    by (simp add: d'_def charge_fee_difference_def Let_def adjust_wallet_def split: option.split)
  have wl': "get_wallet d' (wd_wallet w) = Some (wl\<lparr>wl_balance := wl_balance wl - ?x\<rparr>)"
    unfolding ws by (simp add: wallet_balance.lookup_adjust assms(1))
  have "\<not> solvent d'"
  proof
    assume "solvent d'"
    from solventD [OF this, of "wd_wallet w"] wl' assms(3) show False by simp
  qed
  with r wl' show ?thesis unfolding d'_def by (intro exI [of _ "upd_withdrawal (wd_id w) f ?d1"]) simp
qed

text \<open>In the example the wallet has nothing left after its withdrawal, and the payout costs 50 naira.\<close>

lemma provider_fee_overdraws_example:
  "\<exists>d'. record_payout 5 (sample_withdrawal ''2'' ''w'' 40 0 WProcessing)
      \<lparr>po_id = Some ''po'', po_status = None, po_fee = Some 50\<rparr> None (sample_db 0 0 []) = Inr ((), d')
    \<and> map_option wl_balance (get_wallet d' ''w'') = Some (- 5000)"
proof -
  let ?w = "sample_withdrawal ''2'' ''w'' 40 0 WProcessing"
  let ?p = "\<lparr>po_id = Some ''po'', po_status = None, po_fee = Some 50\<rparr>"
  have g: "get_wallet (sample_db 0 0 []) (wd_wallet ?w) = Some (sample_wallet ''w'' (Some ''u'') None False 0 0 ''wa'')"
    by (simp add: sample_withdrawal_def)
  have fee: "provider_fee ?p ?w = 5000"
    using fromBachsAmount_decimal [of 5000] by (simp add: provider_fee_def)
  have org: "\<not> is_organization_withdrawal ?w"
    by (simp add: is_organization_withdrawal_def sample_withdrawal_def sample_meta_def)
  have "wd_fee ?w = 0" "wd_wallet ?w = ''w''" by (simp_all add: sample_withdrawal_def)
  with provider_fee_overdraws [OF g org, of ?p 5] fee show ?thesis by (auto simp: sample_wallet_def)
qed

end
