(* ===== verification/WithdrawalLimits.thy ===== *)
theory WithdrawalLimits
  imports Prelude Ledger LedgerProperties BachsClient Withdrawals
begin

text \<open>
  The largest withdrawal a wallet can afford, as quoted by \<open>getWithdrawalQuote\<close> and by the
  insufficient-balance error: the binary search finds it whenever the fee grows with the amount.
  The locale states what the search needs of the fee policy; every fee configuration with
  non-negative rates provides it.
\<close>

section \<open>Fee policies\<close>

locale fee_policy =
  fixes fee :: "int \<Rightarrow> int"
  assumes fee_mono: "0 \<le> x \<Longrightarrow> x \<le> y \<Longrightarrow> fee x \<le> fee y"
    and fee_nonneg: "0 \<le> x \<Longrightarrow> 0 \<le> fee x"
begin

lemma affordable_down:
  assumes "0 \<le> x" and "x \<le> y" and "y + fee y \<le> limit"
  shows "x + fee x \<le> limit"
  using fee_mono [OF assms(1,2)] assms(2,3) by linarith

text \<open>
  The search keeps two facts: its lower end is affordable (or zero), and nothing above its upper
  end is.
\<close>

lemma search_maximum_exact:
  assumes "0 \<le> low" and "low \<le> high" and "low = 0 \<or> low + fee low \<le> limit"
    and "\<And>x. high < x \<Longrightarrow> limit < x + fee x" and "1 \<le> a"
  shows "a \<le> search_maximum fee limit low high \<longleftrightarrow> a + fee a \<le> limit"
  using assms
proof (induction "nat (high - low)" arbitrary: low high rule: less_induct)
  case less
  show ?case
  proof (cases "low < high")
    case False
    with less.prems(2) have h: "high = low" by simp
    moreover have "search_maximum fee limit low low = low" by (subst search_maximum.simps) simp
    ultimately have eq: "search_maximum fee limit low high = low" "high = low" by simp_all
    show ?thesis
    proof
      assume "a \<le> search_maximum fee limit low high"
      with eq less.prems(3,5) have "a \<le> low" "low + fee low \<le> limit" by auto
      with less.prems(5) show "a + fee a \<le> limit" by (intro affordable_down [of a low]) auto
    next
      assume "a + fee a \<le> limit"
      with less.prems(4) [of a] eq show "a \<le> search_maximum fee limit low high" by (cases "low < a") auto
    qed
  next
    case True
    define m where "m = (low + high + 1) div 2"
    have m: "low < m" "m \<le> high" using True unfolding m_def by linarith+
    show ?thesis
    proof (cases "m + fee m \<le> limit")
      case T: True
      have "search_maximum fee limit low high = search_maximum fee limit m high"
        using True T by (simp add: search_maximum.simps [of fee limit low high] m_def Let_def)
      moreover have "a \<le> search_maximum fee limit m high \<longleftrightarrow> a + fee a \<le> limit"
        by (rule less.hyps) (use less.prems m T in auto)
      ultimately show ?thesis by simp
    next
      case F: False
      have "search_maximum fee limit low high = search_maximum fee limit low (m - 1)"
        using True F by (simp add: search_maximum.simps [of fee limit low high] m_def Let_def)
      moreover have "limit < x + fee x" if "m - 1 < x" for x
        using affordable_down [of m x limit] that F m less.prems(1) by fastforce
      then have "a \<le> search_maximum fee limit low (m - 1) \<longleftrightarrow> a + fee a \<le> limit"
        using less.prems m by (intro less.hyps) auto
      ultimately show ?thesis by simp
    qed
  qed
qed

lemma maximum_exact:
  assumes "1 \<le> a" and "0 \<le> limit"
  shows "a \<le> search_maximum fee limit 0 limit \<longleftrightarrow> a + fee a \<le> limit"
proof (rule search_maximum_exact)
  fix x
  assume "limit < x"
  with assms(2) fee_nonneg [of x] show "limit < x + fee x" by simp
qed (use assms in simp_all)

end

text \<open>The configurations that make sense: nothing in them is negative.\<close>

definition fees_ok :: "fee_config option \<Rightarrow> bool" where
  "fees_ok fees =
     (case fees of None \<Rightarrow> True
      | Some c \<Rightarrow> 0 \<le> fc_percentage c \<and> 0 \<le> fc_min c \<and> 0 \<le> fc_max c \<and> 0 \<le> fc_flat c)"

lemma fee_policy_configured:
  assumes "fees_ok fees"
  shows "fee_policy (calculateWithdrawalCharges fees)"
proof (cases fees)
  case None
  then show ?thesis by unfold_locales (simp_all add: calculateWithdrawalCharges_def)
next
  case (Some c)
  have c: "0 \<le> fc_percentage c" "0 \<le> fc_min c" "0 \<le> fc_max c" "0 \<le> fc_flat c"
    using assms Some by (simp_all add: fees_ok_def)
  show ?thesis
  proof
    fix x y :: int
    assume "0 \<le> x"
    note f = percentage_fee_mono [OF c(1) this]
    show "0 \<le> calculateWithdrawalCharges fees x"
      using f(2) [OF order_refl] c by (simp add: calculateWithdrawalCharges_def Some Let_def)
    assume "x \<le> y"
    from f(1) [OF this] c show "calculateWithdrawalCharges fees x \<le> calculateWithdrawalCharges fees y"
      by (simp add: calculateWithdrawalCharges_def Some Let_def)
  qed
qed

interpretation deployed_fees: fee_policy "calculateWithdrawalCharges None"
  by (rule fee_policy_configured) (simp add: fees_ok_def)

section \<open>The quoted maximum\<close>

text \<open>C37: The quoted maximum is exact. For a fixed fee and for every configuration without negative rates, a
  positive amount is at most \<open>calculateMaximumWithdrawal\<close> of the available balance exactly when
  the amount and its own fee fit into that balance: nothing larger can be withdrawn, and nothing
  smaller is refused.\<close>

theorem calculateMaximumWithdrawal_exact:
  assumes "fees_ok fees" and "1 \<le> a" and "case fixedFee of None \<Rightarrow> True | Some f \<Rightarrow> 0 \<le> f"
  shows "a \<le> calculateMaximumWithdrawal fees availableBalance fixedFee \<longleftrightarrow>
    a + (case fixedFee of Some f \<Rightarrow> f | None \<Rightarrow> calculateWithdrawalCharges fees a) \<le> availableBalance"
proof (cases "availableBalance \<le> 0")
  case True
  have "0 \<le> (case fixedFee of Some f \<Rightarrow> f | None \<Rightarrow> calculateWithdrawalCharges fees a)"
    using assms fee_policy.fee_nonneg [OF fee_policy_configured [OF assms(1)], of a] by (cases fixedFee) simp_all
  with True assms(2) show ?thesis by (simp add: calculateMaximumWithdrawal_def)
next
  case False
  then show ?thesis
    using assms(2) fee_policy.maximum_exact [OF fee_policy_configured [OF assms(1)], of a availableBalance]
    by (cases fixedFee) (auto simp: calculateMaximumWithdrawal_def)
qed

definition sample_fees :: fee_config where
  "sample_fees = \<lparr>fc_enabled = True, fc_percentage = 1, fc_min = 100, fc_max = 500, fc_flat = 0\<rparr>"

theorem calculateMaximumWithdrawal_exact_witness:
  "900 \<le> calculateMaximumWithdrawal (Some sample_fees) 1000 None
    \<and> \<not> 901 \<le> calculateMaximumWithdrawal (Some sample_fees) 1000 None"
proof -
  have ok: "fees_ok (Some sample_fees)" by (simp add: fees_ok_def sample_fees_def)
  have fee: "calculateWithdrawalCharges (Some sample_fees) a = 100" if "a \<in> {900, 901}" for a
    using that by (elim insertE emptyE; simp; code_simp)
  show ?thesis
    using calculateMaximumWithdrawal_exact [OF ok, of 900 None 1000]
      calculateMaximumWithdrawal_exact [OF ok, of 901 None 1000] by (simp add: fee)
qed

section \<open>Amounts sent to the provider\<close>

text \<open>An amount sent to the provider comes back as itself. For up to \<open>2 ^ 50\<close> kobo, dividing by one hundred
  and formatting with two decimals in double arithmetic denotes the exact amount, and parsing it
  back gives the same kobo; so no two different amounts are ever sent as the same decimal.\<close>

lemma bachs_amount_roundtrip:
  assumes "0 \<le> k" and "k \<le> 2 ^ 50"
  shows "fromBachsAmount (toBachsAmount k) = k \<and> toBachsAmount k * 100 = of_int k"
  by (simp add: toBachsAmount_exact [OF assms] fromBachsAmount_decimal [OF assms])

end
