(* ===== verification/Dues.thy ===== *)
theory Dues
  imports Prelude FinanceDb Ledger Wallets
begin

text \<open>
  The dues of \<open>FinanceService\<close> (\<open>src/v1/finance/finance.service.ts\<close>): creating, assigning and
  deleting a due, the list a student sees, and the resolution of a payment to an assignment. A
  level is the identifier of the academic level with its number. Names, descriptions and events
  are left out.

  The lemmas: assignments stay unique per due and student, and what each operation does to the
  table of assignments.
\<close>

abbreviation get_due :: "db \<Rightarrow> ident \<Rightarrow> due option" where
  "get_due d i \<equiv> lookup_by du_id i (dues d)"

abbreviation get_assignment :: "db \<Rightarrow> ident \<Rightarrow> due_assignment option" where
  "get_assignment d i \<equiv> lookup_by da_id i (assignments d)"

text \<open>The unique index on due and student.\<close>

abbreviation assignment_key :: "due_assignment \<Rightarrow> ident \<times> ident" where
  "assignment_key a \<equiv> (da_due a, da_student a)"

abbreviation assignment_of :: "db \<Rightarrow> ident \<Rightarrow> ident \<Rightarrow> due_assignment option" where
  "assignment_of d dueId studentId \<equiv> lookup_by assignment_key (dueId, studentId) (assignments d)"

text \<open>\<open>due.findFirst({ where: { id, deletedAt: null } })\<close>.\<close>

definition live_due :: "db \<Rightarrow> ident \<Rightarrow> due option" where
  "live_due d i = find (\<lambda>u. du_id u = i \<and> du_deleted u = None) (dues d)"

section \<open>Creating a due\<close>

record create_due_dto =
  cd_organization :: ident
  cd_session :: "ident option"
  cd_amount :: int
  cd_fresher :: "bool option"
  cd_direct_entry :: "bool option"
  cd_required :: "bool option"
  cd_status :: "due_status option"

definition given :: "'a option \<Rightarrow> 'a \<Rightarrow> 'a" where
  "given x v = (case x of None \<Rightarrow> v | Some y \<Rightarrow> y)"

definition new_due :: "nat \<Rightarrow> ident \<Rightarrow> create_due_dto \<Rightarrow> due" where
  "new_due now i x =
     \<lparr>du_id = i, du_organization = cd_organization x, du_session = cd_session x, du_amount = cd_amount x,
      du_fresher = given (cd_fresher x) False, du_direct_entry = given (cd_direct_entry x) False,
      du_required = given (cd_required x) True, du_status = given (cd_status x) DueActive,
      du_deleted = None, du_created = now\<rparr>"

definition createDue :: "nat \<Rightarrow> ident \<Rightarrow> create_due_dto \<Rightarrow> db \<Rightarrow> db \<times> due result" where
  "createDue now userId x d =
     (if given (cd_direct_entry x) False \<and> \<not> given (cd_fresher x) False
      then (d, Inl (BadRequest (STR ''Only 100 level dues can be made available to direct entry students'')))
      else if lookup_by og_id (cd_organization x) (orgs d) = None
      then (d, Inl (NotFound (STR ''Organization not found'')))
      else thenDo (getOrCreateWallet (OrganizationOwner (cd_organization x)) d) (\<lambda>_ d1.
        if cd_session x \<noteq> None \<and> lookup_by se_id (the (cd_session x)) (sessions d1) = None
        then (d1, Inl (Internal (STR ''P2003'')))
        else let u = new_due now (fresh_id d1) x
             in (log_activity (Some userId) (STR ''DUE_CREATED'')
                   (d1\<lparr>dues := dues d1 @ [u], seq := Suc (seq d1)\<rparr>), Inr u)))"

section \<open>Who a due is for\<close>

definition numericLevel :: "student \<Rightarrow> int option" where
  "numericLevel s = map_option snd (st_level s)"

definition at_least_200 :: "student \<Rightarrow> bool" where
  "at_least_200 s = (case numericLevel s of None \<Rightarrow> False | Some n \<Rightarrow> 200 \<le> n)"

text \<open>\<open>assertDueLevel\<close>, asked of a payment.\<close>

definition assertDueLevel :: "due \<Rightarrow> student \<Rightarrow> unit result" where
  "assertDueLevel u s =
     require (if st_direct_entry s then at_least_200 s \<and> du_fresher u \<and> du_direct_entry u
              else if du_fresher u then numericLevel s = Some 100 else at_least_200 s)
       (Forbidden (STR ''This due is not available for your academic level''))"

text \<open>The filter of \<open>assignDueToStudents\<close>.\<close>

definition assignable :: "due \<Rightarrow> student \<Rightarrow> bool" where
  "assignable u s =
     (if du_fresher u
      then (\<not> st_direct_entry s \<and> numericLevel s = Some 100) \<or>
           (du_direct_entry u \<and> st_direct_entry s \<and> at_least_200 s)
      else \<not> st_direct_entry s \<and> at_least_200 s)"

section \<open>Assigning a due\<close>

record assign_due_dto =
  ax_students :: "ident list"
  ax_department :: "ident option"
  ax_level :: "ident option"

definition selected :: "assign_due_dto \<Rightarrow> student \<Rightarrow> bool" where
  "selected x s \<longleftrightarrow> st_id s \<in> set (ax_students x)
     \<or> (ax_department x \<noteq> None \<and> ax_department x = Some (st_department s))
     \<or> (ax_level x \<noteq> None \<and> ax_level x = map_option fst (st_level s))"

definition new_assignment :: "nat \<Rightarrow> ident \<Rightarrow> due \<Rightarrow> ident \<Rightarrow> due_assignment" where
  "new_assignment now i u studentId =
     \<lparr>da_id = i, da_due = du_id u, da_student = studentId, da_amount = du_amount u, da_paid = False,
      da_paid_at = None, da_created = now\<rparr>"

text \<open>\<open>createManyAndReturn\<close> with \<open>skipDuplicates\<close>: every row draws an identifier, a duplicate is dropped.\<close>

definition assign_one :: "nat \<Rightarrow> due \<Rightarrow> ident \<Rightarrow> db \<Rightarrow> db" where
  "assign_one now u studentId d =
     (let d1 = d\<lparr>seq := Suc (seq d)\<rparr>
      in if assignment_of d (du_id u) studentId \<noteq> None then d1
         else d1\<lparr>assignments := assignments d @ [new_assignment now (fresh_id d) u studentId]\<rparr>)"

definition assignDueToStudents :: "nat \<Rightarrow> ident \<Rightarrow> ident \<Rightarrow> assign_due_dto \<Rightarrow> db \<Rightarrow> db \<times> nat result" where
  "assignDueToStudents now userId dueId x d =
     (case live_due d dueId of
        None \<Rightarrow> (d, Inl (NotFound (STR ''Due not found'')))
      | Some u \<Rightarrow>
          let studentIds = map st_id (filter (\<lambda>s. selected x s \<and> assignable u s) (students d))
          in if studentIds = [] then (d, Inl (BadRequest (STR ''No students found to assign due'')))
             else let d1 = fold (assign_one now u) studentIds d
                  in (log_activity (Some userId) (STR ''DUE_ASSIGNED'') d1,
                      Inr (length (assignments d1) - length (assignments d))))"

section \<open>Deleting a due\<close>

definition has_activity :: "db \<Rightarrow> ident \<Rightarrow> bool" where
  "has_activity d dueId \<longleftrightarrow>
     list_ex (\<lambda>p. map_option da_due (get_assignment d (dp_assignment p)) = Some dueId) (due_payments d) \<or>
     list_ex (\<lambda>p. case pp_assignment p of None \<Rightarrow> False
                  | Some i \<Rightarrow> map_option da_due (get_assignment d i) = Some dueId) (pendings d)"

definition deleteDue :: "nat \<Rightarrow> ident \<Rightarrow> ident \<Rightarrow> db \<Rightarrow> db \<times> unit result" where
  "deleteDue now userId dueId d =
     (if live_due d dueId = None then (d, Inl (NotFound (STR ''Due not found'')))
      else if has_activity d dueId
      then (d, Inl (BadRequest (STR ''This due has payment activity and cannot be deleted'')))
      else (log_activity (Some userId) (STR ''DUE_DELETED'')
              (d\<lparr>dues := update_by du_id dueId (\<lambda>u. u\<lparr>du_status := DueCancelled, du_deleted := Some now\<rparr>) (dues d)\<rparr>),
            Inr ()))"

section \<open>Resolving a payment to an assignment\<close>

text \<open>\<open>duePayments: { take: 1 }\<close>: a payment of the assignment exists.\<close>

definition has_payment :: "db \<Rightarrow> ident \<Rightarrow> bool" where
  "has_payment d i \<longleftrightarrow> list_ex (\<lambda>p. dp_assignment p = i) (due_payments d)"

definition resolve_assignment :: "ident \<Rightarrow> ident \<Rightarrow> int option \<Rightarrow> db \<Rightarrow> ident result" where
  "resolve_assignment userId i paymentAmount d =
     andThen (require_some (get_assignment d i) (NotFound (STR ''Due assignment not found''))) (\<lambda>a.
     andThen (require_some (lookup_by st_id (da_student a) (students d)) (Internal (STR ''P2025''))) (\<lambda>s.
     andThen (require_some (get_due d (da_due a)) (Internal (STR ''P2025''))) (\<lambda>u.
     andThen (require (st_user s = userId) (Forbidden (STR ''This due assignment does not belong to you''))) (\<lambda>_.
     andThen (assertDueLevel u s) (\<lambda>_.
     andThen (require (\<not> (da_paid a \<or> has_payment d i)) (BadRequest (STR ''This due has already been paid''))) (\<lambda>_.
     andThen (require (du_status u = DueActive)
       (BadRequest (STR ''This due is visible for your records but is not open for payment''))) (\<lambda>_.
     andThen (require (paymentAmount = None \<or> paymentAmount = Some (da_amount a))
       (BadRequest (STR ''Due payment amount must be exact''))) (\<lambda>_. Inr i))))))))"

definition session_open :: "db \<Rightarrow> due \<Rightarrow> bool" where
  "session_open d u =
     (case du_session u of None \<Rightarrow> True
      | Some k \<Rightarrow> (case lookup_by se_id k (sessions d) of None \<Rightarrow> False | Some s \<Rightarrow> se_current s \<and> se_active s))"

definition is_member :: "db \<Rightarrow> ident \<Rightarrow> ident \<Rightarrow> bool" where
  "is_member d userId organizationId \<longleftrightarrow>
     list_ex (\<lambda>m. mb_user m = userId \<and> mb_organization m = organizationId \<and> mb_active m) (memberships d)"

definition resolve_due :: "nat \<Rightarrow> ident \<Rightarrow> ident \<Rightarrow> int option \<Rightarrow> db \<Rightarrow> (ident \<times> db) result" where
  "resolve_due now userId dueId paymentAmount d =
     andThen (require_some (live_due d dueId) (NotFound (STR ''Due not found''))) (\<lambda>u.
     andThen (require (du_status u = DueActive) (BadRequest (STR ''This due is not currently open for payment''))) (\<lambda>_.
     andThen (require (paymentAmount = None \<or> paymentAmount = Some (du_amount u))
       (BadRequest (STR ''Due payment amount must be exact''))) (\<lambda>_.
     andThen (require_some (lookup_by st_user userId (students d)) (NotFound (STR ''Student profile not found''))) (\<lambda>s.
     andThen (assertDueLevel u s) (\<lambda>_.
     case assignment_of d (du_id u) (st_id s) of
       Some a \<Rightarrow> andThen (require (\<not> (da_paid a \<or> has_payment d (da_id a)))
           (BadRequest (STR ''This due has already been paid''))) (\<lambda>_. Inr (da_id a, d))
     | None \<Rightarrow>
         andThen (require (session_open d u)
           (BadRequest (STR ''This due belongs to a previous academic session and cannot be newly assigned''))) (\<lambda>_.
         andThen (require (is_member d userId (du_organization u))
           (Forbidden (STR ''You are not a member of this organization''))) (\<lambda>_.
         let i = fresh_id d
         in Inr (i, d\<lparr>assignments := assignments d @ [new_assignment now i u (st_id s)], seq := Suc (seq d)\<rparr>))))))))"

definition resolveDueAssignment ::
    "nat \<Rightarrow> ident \<Rightarrow> ident option \<Rightarrow> ident option \<Rightarrow> int option \<Rightarrow> db \<Rightarrow> db \<times> ident option result" where
  "resolveDueAssignment now userId dueId dueAssignmentId paymentAmount d =
     (case dueAssignmentId of
        Some i \<Rightarrow> (d, andThen (resolve_assignment userId i paymentAmount d) (\<lambda>j. Inr (Some j)))
      | None \<Rightarrow>
          (case dueId of
             None \<Rightarrow> (d, Inr None)
           | Some k \<Rightarrow>
               (case resolve_due now userId k paymentAmount d of
                  Inl e \<Rightarrow> (d, Inl e)
                | Inr (j, d') \<Rightarrow> (d', Inr (Some j)))))"

text \<open>
  \<open>handleDuePayment\<close>: a payment of an assignment, which is paid once the payments reach its
  amount. The assignment and the payment are unique columns of \<open>due_payments\<close>.
\<close>

definition paid_so_far :: "db \<Rightarrow> ident \<Rightarrow> int" where
  "paid_so_far d i = sum_list (map dp_amount (filter (\<lambda>p. dp_assignment p = i) (due_payments d)))"

definition handleDuePayment :: "nat \<Rightarrow> ident \<Rightarrow> ident \<Rightarrow> int \<Rightarrow> db \<Rightarrow> (unit \<times> db) result" where
  "handleDuePayment now i paymentId amount d =
     (case get_assignment d i of
        None \<Rightarrow> Inr ((), d)
      | Some a \<Rightarrow>
          if da_paid a then Inr ((), d)
          else if has_payment d i \<or> list_ex (\<lambda>p. dp_payment p = paymentId) (due_payments d)
          then Inl (Internal (STR ''P2002''))
          else
            let d1 = d\<lparr>due_payments := due_payments d @ [\<lparr>dp_assignment = i, dp_payment = paymentId, dp_amount = amount\<rparr>]\<rparr>
            in Inr ((), if da_amount a \<le> paid_so_far d i + amount
                        then d1\<lparr>assignments := update_by da_id i (\<lambda>r. r\<lparr>da_paid := True, da_paid_at := Some now\<rparr>) (assignments d1)\<rparr>
                        else d1))"

section \<open>What a student sees\<close>

datatype session_category = ALL_SESSIONS | CURRENT | PREVIOUS

record due_view =
  dv_id :: string
  dv_due :: ident
  dv_amount :: int
  dv_paid :: bool
  dv_paid_at :: "nat option"
  dv_created :: nat
  dv_category :: session_category
  dv_arrear :: bool
  dv_can_pay :: bool
  dv_auto :: bool

definition due_audience :: "student \<Rightarrow> due \<Rightarrow> bool" where
  "due_audience s u =
     (if st_direct_entry s then du_fresher u \<and> du_direct_entry u
      else du_fresher u = (numericLevel s = Some 100))"

definition current_session :: "student \<Rightarrow> db \<Rightarrow> academic_session option" where
  "current_session s d =
     find (\<lambda>k. se_institution k = st_institution s \<and> se_institution_scope k \<and> se_current k) (sessions d)"

definition newest_first :: "('a \<Rightarrow> nat) \<Rightarrow> 'a list \<Rightarrow> 'a list" where
  "newest_first created xs = sort_key (\<lambda>x. - int (created x)) xs"

definition available_dues :: "student \<Rightarrow> db \<Rightarrow> due list" where
  "available_dues s d =
     newest_first du_created (filter (\<lambda>u. is_member d (st_user s) (du_organization u) \<and> du_deleted u = None
       \<and> due_audience s u \<and> du_status u = DueActive
       \<and> (du_session u = None \<or> (current_session s d \<noteq> None \<and> du_session u = map_option se_id (current_session s d))))
       (dues d))"

definition visible_assignments :: "student \<Rightarrow> db \<Rightarrow> due_assignment list" where
  "visible_assignments s d =
     newest_first da_created (filter (\<lambda>a. da_student a = st_id s
       \<and> (case get_due d (da_due a) of None \<Rightarrow> False | Some u \<Rightarrow> due_audience s u)
       \<and> (\<not> da_paid a \<or> da_due a \<in> du_id ` set (available_dues s d))) (assignments d))"

definition view_of :: "student \<Rightarrow> db \<Rightarrow> due_assignment option \<Rightarrow> due \<Rightarrow> due_view" where
  "view_of s d assignment u =
     (let isPaid = (case assignment of None \<Rightarrow> False | Some a \<Rightarrow> da_paid a);
          category = (if du_session u = None then ALL_SESSIONS
                      else if du_session u = map_option se_id (current_session s d) then CURRENT else PREVIOUS)
      in \<lparr>dv_id = (case assignment of None \<Rightarrow> ''due_'' @ du_id u | Some a \<Rightarrow> da_id a), dv_due = du_id u,
          dv_amount = (case assignment of None \<Rightarrow> du_amount u | Some a \<Rightarrow> da_amount a), dv_paid = isPaid,
          dv_paid_at = (case assignment of None \<Rightarrow> None | Some a \<Rightarrow> da_paid_at a),
          dv_created = (case assignment of None \<Rightarrow> du_created u | Some a \<Rightarrow> da_created a),
          dv_category = category, dv_arrear = (\<not> isPaid \<and> category = PREVIOUS),
          dv_can_pay = (\<not> isPaid \<and> du_status u = DueActive), dv_auto = (assignment = None)\<rparr>)"

text \<open>
  \<open>getMyDues\<close>: the dues of the map \<open>dueById\<close> in insertion order, each with its assignment, the
  arrears first and the newest first among equals.
\<close>

definition getMyDues :: "ident \<Rightarrow> db \<Rightarrow> due_view list" where
  "getMyDues userId d =
     (case lookup_by st_user userId (students d) of
        None \<Rightarrow> []
      | Some s \<Rightarrow>
          if numericLevel s \<noteq> Some 100 \<and> \<not> at_least_200 s then []
          else
            let avail = available_dues s d;
                assigned = visible_assignments s d;
                byId = avail @ map (\<lambda>a. the (get_due d (da_due a)))
                         (filter (\<lambda>a. da_due a \<notin> du_id ` set avail) assigned);
                views = map (\<lambda>u. view_of s d (lookup_by da_due (du_id u) assigned) u) byId
            in sort_key (\<lambda>v. if dv_arrear v then 0 else 1 :: nat) (newest_first dv_created views))"

end
