(* ===== verification/DueProperties.thy ===== *)
theory DueProperties
  imports Prelude FinanceDb Samples Ledger Wallets Dues
begin

text \<open>
  What the operations on dues promise: one assignment per due and student, payments in full,
  exact assignment, the agreement of the three descriptions of who may pay, and the finality of
  a deletion.
\<close>

section \<open>The invariant\<close>

definition due_ok :: "db \<Rightarrow> bool" where
  "due_ok d \<longleftrightarrow>
     inj (idgen d) \<and> distinct (map da_id (assignments d)) \<and> fresh_for d (map da_id (assignments d)) \<and>
     distinct (map assignment_key (assignments d)) \<and> distinct (map dp_assignment (due_payments d)) \<and>
     list_all (\<lambda>(i, amount, paid). paid \<longrightarrow> amount \<le> paid_so_far d i)
       (map (\<lambda>a. (da_id a, da_amount a, da_paid a)) (assignments d))"

lemma due_ok_frame:
  assumes "due_ok d" and "idgen d' = idgen d" and "seq d \<le> seq d'"
    and "assignments d' = assignments d" and "due_payments d' = due_payments d"
  shows "due_ok d'"
  using assms fresh_for_mono [of d "map da_id (assignments d)" d'] by (simp add: due_ok_def paid_so_far_def)

lemma due_ok_log [simp]: "due_ok (log_activity u a d) = due_ok d"
  by (auto simp: log_activity_def intro: due_ok_frame)

lemma due_ok_dues [simp]: "due_ok (d\<lparr>dues := us\<rparr>) = due_ok d"
  by (auto intro: due_ok_frame)

lemma due_ok_assign:
  assumes "due_ok d" and "assignment_of d (du_id u) k = None"
  shows "due_ok (d\<lparr>assignments := assignments d @ [new_assignment now (fresh_id d) u k], seq := Suc (seq d)\<rparr>)"
    (is "due_ok ?d")
proof -
  have i: "inj (idgen d)" "fresh_for d (map da_id (assignments d))" using assms(1) by (simp_all add: due_ok_def)
  have "fresh_for ?d (map da_id (assignments d) @ [idgen ?d (seq d)])"
    using i fresh_for_mono [OF i(2), of ?d] by (intro fresh_for_snoc) simp_all
  moreover have "fresh_id d \<notin> da_id ` set (assignments d)" using fresh_id_unused [OF i(2)] by simp
  moreover have "(du_id u, k) \<notin> assignment_key ` set (assignments d)"
    using assms(2) lookup_by_None [of assignment_key "(du_id u, k)" "assignments d"] by blast
  ultimately show ?thesis
    using assms(1) by (simp add: due_ok_def new_assignment_def fresh_id_def paid_so_far_def)
qed

lemma assign_one_ok: "due_ok d \<Longrightarrow> due_ok (assign_one now u k d)"
  by (cases "assignment_of d (du_id u) k")
    (auto simp: assign_one_def Let_def dest: due_ok_assign intro: due_ok_frame)

lemma getOrCreateWallet_due_ok:
  assumes "due_ok d"
  shows "due_ok (fst (getOrCreateWallet owner d))"
proof (rule due_ok_frame [OF assms _ getOrCreateWallet_seq])
  show "idgen (fst (getOrCreateWallet owner d)) = idgen d" by (rule getOrCreateWallet_frame) simp_all
  show "assignments (fst (getOrCreateWallet owner d)) = assignments d" by (rule getOrCreateWallet_frame) simp_all
  show "due_payments (fst (getOrCreateWallet owner d)) = due_payments d" by (rule getOrCreateWallet_frame) simp_all
qed

lemma createDue_ok:
  assumes "due_ok d"
  shows "due_ok (fst (createDue now userId x d))"
proof -
  have "due_ok (fst (thenDo (getOrCreateWallet (OrganizationOwner (cd_organization x)) d) (\<lambda>_ d1.
        if cd_session x \<noteq> None \<and> lookup_by se_id (the (cd_session x)) (sessions d1) = None
        then (d1, Inl (Internal (STR ''P2003'')))
        else let u = new_due now (fresh_id d1) x
             in (log_activity (Some userId) (STR ''DUE_CREATED'')
                   (d1\<lparr>dues := dues d1 @ [u], seq := Suc (seq d1)\<rparr>), Inr u))))"
    by (rule thenDo_invariant [of due_ok]) (auto simp: Let_def getOrCreateWallet_due_ok assms intro: due_ok_frame)
  with assms show ?thesis by (simp add: createDue_def)
qed

lemma fold_assign_ok: "due_ok d \<Longrightarrow> due_ok (fold (assign_one now u) ks d)"
  by (induction ks arbitrary: d) (simp_all add: assign_one_ok)

lemma resolve_due_InrD:
  assumes "resolve_due now userId k amount d = Inr (j, d')"
  obtains (Existing) u s a where "live_due d k = Some u" "lookup_by st_user userId (students d) = Some s"
      "assignment_of d (du_id u) (st_id s) = Some a" "\<not> da_paid a" "j = da_id a" "d' = d"
    | (New) u s where "live_due d k = Some u" "lookup_by st_user userId (students d) = Some s"
      "assignment_of d (du_id u) (st_id s) = None" "session_open d u" "j = fresh_id d"
      "d' = d\<lparr>assignments := assignments d @ [new_assignment now (fresh_id d) u (st_id s)], seq := Suc (seq d)\<rparr>"
proof -
  obtain u where u: "live_due d k = Some u"
    using assms by (cases "live_due d k") (simp_all add: resolve_due_def require_some_def)
  obtain s where s: "lookup_by st_user userId (students d) = Some s"
    using assms u by (cases "lookup_by st_user userId (students d)")
      (auto simp: resolve_due_def require_some_def require_def split: if_splits)
  show thesis
  proof (cases "assignment_of d (du_id u) (st_id s)")
    case None
    then show ?thesis
      using assms u s by (intro New [of u s])
        (auto simp: resolve_due_def require_some_def require_def Let_def result_simps split: if_splits)
  next
    case (Some a)
    then show ?thesis
      using assms u s by (intro Existing [of u s a])
        (auto simp: resolve_due_def require_some_def require_def Let_def result_simps split: if_splits)
  qed
qed

lemma resolve_due_ok:
  assumes "due_ok d" and "resolve_due now userId k amount d = Inr (j, d')"
  shows "due_ok d'"
  using assms(2)
proof (cases rule: resolve_due_InrD)
  case (New u s)
  then show ?thesis using due_ok_assign [OF assms(1)] by simp
qed (simp add: assms(1))

lemma handleDuePayment_ok:
  assumes "due_ok d" and "handleDuePayment now i paymentId amount d = Inr (x, d')"
  shows "due_ok d'"
proof (cases "get_assignment d i")
  case None
  with assms show ?thesis by (simp add: handleDuePayment_def)
next
  case (Some a)
  show ?thesis
  proof (cases "da_paid a")
    case True
    with Some assms show ?thesis by (simp add: handleDuePayment_def)
  next
    case False
    define p where "p = \<lparr>dp_assignment = i, dp_payment = paymentId, dp_amount = amount\<rparr>"
    define f :: "due_assignment \<Rightarrow> due_assignment" where "f = (\<lambda>r. r\<lparr>da_paid := True, da_paid_at := Some now\<rparr>)"
    define full where "full = (da_amount a \<le> paid_so_far d i + amount)"
    have free: "\<not> has_payment d i" using assms(2) Some False by (auto simp: handleDuePayment_def split: if_splits)
    have d': "d' = d\<lparr>due_payments := due_payments d @ [p], assignments :=
        (if full then update_by da_id i f (assignments d) else assignments d)\<rparr>"
      using assms(2) Some False by (auto simp: handleDuePayment_def Let_def p_def f_def full_def split: if_splits)
    have none: "filter (\<lambda>p. dp_assignment p = i) (due_payments d) = []"
      using free by (auto simp: has_payment_def list_ex_iff filter_empty_conv)
    have sofar: "paid_so_far d' k = (if k = i then amount else paid_so_far d k)" for k
      using none by (simp add: d' paid_so_far_def p_def)
    have zero: "paid_so_far d i = 0" by (simp add: paid_so_far_def none)
    have keys: "map da_id (assignments d') = map da_id (assignments d)"
      "map assignment_key (assignments d') = map assignment_key (assignments d)"
      by (simp_all add: d' f_def table_simps)
    have pays: "distinct (map dp_assignment (due_payments d'))"
      using assms(1) free by (auto simp: d' p_def due_ok_def has_payment_def list_ex_iff)
    have old: "da_amount r \<le> paid_so_far d (da_id r)" if "r \<in> set (assignments d)" "da_paid r" for r
      using assms(1) that by (auto simp: due_ok_def list_all_iff)
    have uniq: "r = a" if "r \<in> set (assignments d)" "da_id r = i" for r
      using assms(1) that Some lookup_by_distinct [of da_id "assignments d" r] by (auto simp: due_ok_def)
    have "da_amount r \<le> paid_so_far d' (da_id r)" if "r \<in> set (assignments d')" "da_paid r" for r
    proof (cases full)
      case True
      with that(1) have "r \<in> set (update_by da_id i f (assignments d))" by (simp add: d')
      then obtain r0 where r0: "r0 \<in> set (assignments d)" "r = (if da_id r0 = i then f r0 else r0)"
        unfolding set_update_by by (elim bexE) (rule that)
      show ?thesis
      proof (cases "da_id r0 = i")
        case T: True
        then have "r = f a" using r0 uniq by simp
        moreover have "da_id a = i" using T uniq r0(1) by simp
        ultimately show ?thesis using True by (simp add: sofar f_def full_def zero)
      qed (use r0 that(2) old sofar in simp)
    next
      case F: False
      then have r: "r \<in> set (assignments d)" using that(1) by (simp add: d')
      have "da_id r \<noteq> i" using uniq [OF r] that(2) False by auto
      with old [OF r that(2)] show ?thesis by (simp add: sofar)
    qed
    then show ?thesis
      using assms(1) keys pays by (auto simp: due_ok_def list_all_iff d' intro: fresh_for_mono)
  qed
qed

section \<open>Sequences of operations\<close>

text \<open>An assignment keeps its due, student and amount, and once paid stays paid.\<close>

definition persists :: "db \<Rightarrow> db \<Rightarrow> bool" where
  "persists d d' \<longleftrightarrow>
     (\<forall>i x. map_option (\<lambda>a. (da_due a, da_student a, da_amount a)) (get_assignment d i) = Some x \<longrightarrow>
        map_option (\<lambda>a. (da_due a, da_student a, da_amount a)) (get_assignment d' i) = Some x) \<and>
     (\<forall>i. map_option da_paid (get_assignment d i) = Some True \<longrightarrow> map_option da_paid (get_assignment d' i) = Some True)"

lemma persists_refl [simp]: "persists d d"
  by (simp add: persists_def)

lemma persists_trans:
  assumes "persists d d1" and "persists d1 d2"
  shows "persists d d2"
  unfolding persists_def
proof (intro conjI allI impI)
  note P1 = assms(1) [unfolded persists_def] and P2 = assms(2) [unfolded persists_def]
  show "map_option (\<lambda>a. (da_due a, da_student a, da_amount a)) (get_assignment d2 i) = Some x"
    if "map_option (\<lambda>a. (da_due a, da_student a, da_amount a)) (get_assignment d i) = Some x" for i x
    by (rule P2 [THEN conjunct1, rule_format], rule P1 [THEN conjunct1, rule_format], rule that)
  show "map_option da_paid (get_assignment d2 i) = Some True"
    if "map_option da_paid (get_assignment d i) = Some True" for i
    by (rule P2 [THEN conjunct2, rule_format], rule P1 [THEN conjunct2, rule_format], rule that)
qed

lemma persists_same: "assignments d' = assignments d \<Longrightarrow> persists d d'"
  by (simp add: persists_def)

lemma persists_snoc: "assignments d' = assignments d @ [a] \<Longrightarrow> persists d d'"
  unfolding persists_def by (auto simp: lookup_by_append)

lemma persists_paid:
  assumes "assignments d' = update_by da_id i (\<lambda>r. r\<lparr>da_paid := True, da_paid_at := t\<rparr>) (assignments d)"
  shows "persists d d'"
proof -
  define f :: "due_assignment \<Rightarrow> due_assignment" where "f = (\<lambda>r. r\<lparr>da_paid := True, da_paid_at := t\<rparr>)"
  have f: "(da_due (f r), da_student (f r), da_amount (f r)) = (da_due r, da_student r, da_amount r)"
    "da_id (f r) = da_id r" "da_paid (f r)" for r
    by (simp_all add: f_def)
  have get: "get_assignment d' k = (if k = i then map_option f (get_assignment d i) else get_assignment d k)" for k
    unfolding assms f_def [symmetric] by (rule lookup_by_update_by) (rule f(2))
  have "map_option (\<lambda>a. (da_due a, da_student a, da_amount a)) (get_assignment d' k) =
      map_option (\<lambda>a. (da_due a, da_student a, da_amount a)) (get_assignment d k)" for k
    unfolding get by (simp add: option.map_comp comp_def f(1))
  moreover have "map_option da_paid (get_assignment d' k) = Some True"
    if "map_option da_paid (get_assignment d k) = Some True" for k
    unfolding get using that f(3) by (cases "k = i"; cases "get_assignment d k"; simp)
  ultimately show ?thesis by (simp add: persists_def)
qed

lemma assign_one_persists: "persists d (assign_one now u k d)"
  by (cases "assignment_of d (du_id u) k")
    (auto simp: assign_one_def Let_def intro: persists_snoc persists_same)

lemma fold_assign_persists: "persists d (fold (assign_one now u) ks d)"
  by (induction ks arbitrary: d) (auto intro: persists_trans assign_one_persists)

lemma handleDuePayment_persists:
  assumes "handleDuePayment now i p amount d = Inr (x, d')"
  shows "persists d d'"
proof -
  from assms consider "assignments d' = assignments d"
    | "assignments d' = update_by da_id i (\<lambda>r. r\<lparr>da_paid := True, da_paid_at := Some now\<rparr>) (assignments d)"
    by (cases "get_assignment d i") (auto simp: handleDuePayment_def Let_def split: if_splits)
  then show ?thesis by cases (simp_all add: persists_same persists_paid)
qed

lemma createDue_persists: "persists d (fst (createDue now userId x d))"
proof -
  have w: "persists d (fst (getOrCreateWallet owner d))" for owner
    by (rule persists_same, rule getOrCreateWallet_frame) simp_all
  have "persists d (fst (thenDo (getOrCreateWallet owner d) (\<lambda>_ d1.
        if cd_session x \<noteq> None \<and> lookup_by se_id (the (cd_session x)) (sessions d1) = None
        then (d1, Inl (Internal (STR ''P2003'')))
        else let u = new_due now (fresh_id d1) x
             in (log_activity (Some userId) (STR ''DUE_CREATED'')
                   (d1\<lparr>dues := dues d1 @ [u], seq := Suc (seq d1)\<rparr>), Inr u))))" for owner
    by (rule thenDo_invariant [of "persists d"])
      (auto simp: Let_def w log_activity_def intro: persists_trans [OF _ persists_same])
  then show ?thesis by (simp add: createDue_def)
qed

lemma resolve_due_persists:
  assumes "resolve_due now userId k amount d = Inr (j, d')"
  shows "persists d d'"
  using assms by (cases rule: resolve_due_InrD) (simp_all add: persists_snoc)

datatype due_operation =
    CreateDue nat ident create_due_dto
  | AssignDue nat ident ident assign_due_dto
  | DeleteDue nat ident ident
  | ResolveDue nat ident "ident option" "ident option" "int option"
  | PayDue nat ident ident int

fun perform_due :: "due_operation \<Rightarrow> db \<Rightarrow> db" where
  "perform_due (CreateDue now u x) d = fst (createDue now u x d)"
| "perform_due (AssignDue now u k x) d = fst (assignDueToStudents now u k x d)"
| "perform_due (DeleteDue now u k) d = fst (deleteDue now u k d)"
| "perform_due (ResolveDue now u k i amount) d = fst (resolveDueAssignment now u k i amount d)"
| "perform_due (PayDue now i p amount) d = fst (transaction (handleDuePayment now i p amount) d)"

lemma perform_due_ok:
  assumes "due_ok d"
  shows "due_ok (perform_due e d)"
proof (cases e)
  case (AssignDue now u k x)
  then show ?thesis
    using assms by (simp add: assignDueToStudents_def Let_def fold_assign_ok split: option.split)
next
  case (ResolveDue now u k i amount)
  then show ?thesis
    using assms by (auto simp: resolveDueAssignment_def dest: resolve_due_ok split: option.split sum.split)
next
  case (PayDue now i p amount)
  then show ?thesis
    using assms by (auto intro!: transaction_invariant [of due_ok] dest: handleDuePayment_ok)
qed (simp_all add: createDue_ok assms deleteDue_def)

lemma perform_due_persists: "persists d (perform_due e d)"
proof (cases e)
  case (AssignDue now u k x)
  have "persists d (log_activity v a (fold (assign_one now y) ks d))" for v a y ks
    by (rule persists_trans [OF fold_assign_persists persists_same]) (simp add: log_activity_def)
  with AssignDue show ?thesis by (simp add: assignDueToStudents_def Let_def split: option.split)
next
  case (DeleteDue now u k)
  then show ?thesis by (auto simp: deleteDue_def log_activity_def intro: persists_same)
next
  case (ResolveDue now u k i amount)
  then show ?thesis
    by (auto simp: resolveDueAssignment_def dest: resolve_due_persists split: option.split sum.split)
next
  case (PayDue now i p amount)
  then show ?thesis
    by (auto intro!: transaction_invariant [of "persists d"] dest: handleDuePayment_persists)
qed (simp add: createDue_persists)

interpretation due_operations: kept_invariant perform_due due_ok
  by unfold_locales (rule perform_due_ok)

interpretation due_history: kept_invariant perform_due "persists d" for d
  by unfold_locales (rule persists_trans [OF _ perform_due_persists])

text \<open>C14: Dues are assigned once and paid once. After every sequence of operations there is at most one
  assignment per due and student and at most one payment per assignment, an assignment marked as
  paid has been paid its full amount, an assignment keeps its due, student and amount, and one
  that was paid stays paid.\<close>

theorem dues_assigned_and_paid_once:
  assumes "due_ok d"
  shows "distinct (map assignment_key (assignments (fold perform_due es d)))
    \<and> distinct (map dp_assignment (due_payments (fold perform_due es d)))
    \<and> (\<forall>a \<in> set (assignments (fold perform_due es d)). da_paid a \<longrightarrow>
        da_amount a \<le> paid_so_far (fold perform_due es d) (da_id a))
    \<and> persists d (fold perform_due es d)"
  using due_operations.sequence_keeps [OF assms, of es] due_history.sequence_keeps [OF persists_refl, where es = es]
  by (simp add: due_ok_def list_all_iff)

definition sample_due :: "bool \<Rightarrow> bool \<Rightarrow> due" where
  "sample_due fresher directEntry =
     \<lparr>du_id = ''due'', du_organization = ''g'', du_session = None, du_amount = 5000, du_fresher = fresher,
      du_direct_entry = directEntry, du_required = True, du_status = DueActive, du_deleted = None, du_created = 1\<rparr>"

definition sample_student :: "bool \<Rightarrow> int \<Rightarrow> student" where
  "sample_student directEntry level =
     \<lparr>st_id = ''s'', st_user = ''u'', st_institution = ''i'', st_department = ''dp'', st_direct_entry = directEntry,
      st_level = Some (''l'', level)\<rparr>"

definition sample_dues :: "due \<Rightarrow> student \<Rightarrow> db" where
  "sample_dues u s =
     (sample_db 100 0 [])\<lparr>dues := [u], students := [s],
       memberships := [\<lparr>mb_user = ''u'', mb_organization = ''g'', mb_active = True\<rparr>]\<rparr>"

lemma sample_dues_fields [simp]:
  "dues (sample_dues u s) = [u]" "students (sample_dues u s) = [s]" "assignments (sample_dues u s) = []"
  "due_payments (sample_dues u s) = []" "pendings (sample_dues u s) = []" "sessions (sample_dues u s) = []"
  "memberships (sample_dues u s) = [\<lparr>mb_user = ''u'', mb_organization = ''g'', mb_active = True\<rparr>]"
  by (simp_all add: sample_dues_def sample_db_def)

lemma sample_dues_ok: "due_ok (sample_dues u s)"
proof -
  have "keys_ok (sample_db 100 0 [])" by (rule sample_keys_ok) simp_all
  then show ?thesis by (simp add: due_ok_def keys_ok_def sample_dues_def sample_db_def fresh_for_def)
qed

lemma sample_dues_assigned:
  "assignments (fold perform_due [ResolveDue 7 ''u'' (Some ''due'') None (Some 5000)]
      (sample_dues (sample_due False False) (sample_student False 200))) =
    [new_assignment 7 (fresh_id (sample_dues (sample_due False False) (sample_student False 200)))
      (sample_due False False) ''s'']"
  by (simp add: resolveDueAssignment_def resolve_due_def live_due_def require_some_def require_def
      assertDueLevel_def numericLevel_def at_least_200_def session_open_def is_member_def Let_def
      sample_due_def sample_student_def lookup_by_Cons lookup_by_Nil)

theorem dues_assigned_and_paid_once_witness:
  "\<exists>es. length (assignments (fold perform_due es (sample_dues (sample_due False False) (sample_student False 200)))) = 1
    \<and> distinct (map assignment_key (assignments (fold perform_due es (sample_dues (sample_due False False) (sample_student False 200)))))"
  using dues_assigned_and_paid_once [OF sample_dues_ok [of "sample_due False False" "sample_student False 200"],
      where es = "[ResolveDue 7 ''u'' (Some ''due'') None (Some 5000)]"] sample_dues_assigned
  by (intro exI [of _ "[ResolveDue 7 ''u'' (Some ''due'') None (Some 5000)]"]) simp


section \<open>Exact assignment\<close>

definition terms_of :: "db \<Rightarrow> ident \<Rightarrow> ident \<Rightarrow> (int \<times> bool) option" where
  "terms_of d v k = map_option (\<lambda>a. (da_amount a, da_paid a)) (assignment_of d v k)"

lemma assignment_of_assign_one:
  "terms_of (assign_one now u k0 d) v k =
    (if v = du_id u \<and> k = k0 \<and> terms_of d v k = None then Some (du_amount u, False) else terms_of d v k)"
  by (cases "assignment_of d (du_id u) k0"; cases "assignment_of d v k")
    (auto simp: terms_of_def assign_one_def Let_def lookup_by_append new_assignment_def)

lemma fold_assign_terms:
  "terms_of (fold (assign_one now u) ks d) v k =
    (if v = du_id u \<and> k \<in> set ks \<and> terms_of d v k = None then Some (du_amount u, False) else terms_of d v k)"
proof (induction ks arbitrary: d)
  case (Cons k0 ks)
  show ?case
    unfolding fold_simps comp_def Cons.IH assignment_of_assign_one
    by (cases "v = du_id u"; cases "k = k0"; cases "terms_of d v k"; simp)
qed simp

lemma fold_assign_count:
  "length (assignments (fold (assign_one now u) ks d)) =
    length (assignments d) + card {k \<in> set ks. terms_of d (du_id u) k = None}"
proof (induction ks arbitrary: d)
  case (Cons k0 ks)
  let ?d = "assign_one now u k0 d"
  show ?case
  proof (cases "terms_of d (du_id u) k0 = None")
    case True
    then have "{k \<in> set (k0 # ks). terms_of d (du_id u) k = None} =
        insert k0 {k \<in> set ks. terms_of ?d (du_id u) k = None}"
      by (auto simp: assignment_of_assign_one split: if_splits)
    moreover have "k0 \<notin> {k \<in> set ks. terms_of ?d (du_id u) k = None}"
      using True by (simp add: assignment_of_assign_one)
    moreover have "length (assignments ?d) = Suc (length (assignments d))"
      using True by (simp add: assign_one_def Let_def terms_of_def)
    ultimately show ?thesis using Cons.IH [of ?d] by simp
  next
    case False
    then have "{k \<in> set (k0 # ks). terms_of d (du_id u) k = None} =
        {k \<in> set ks. terms_of ?d (du_id u) k = None}"
      by (auto simp: assignment_of_assign_one split: if_splits)
    moreover have "length (assignments ?d) = length (assignments d)"
      using False by (simp add: assign_one_def Let_def terms_of_def)
    ultimately show ?thesis using Cons.IH [of ?d] by simp
  qed
qed simp

text \<open>Assigning a due reaches exactly the students meant. When it succeeds, the selected students whose
  level admits the due and who had no assignment of it get one of the due's amount, unpaid; every
  other assignment keeps its terms; the count returned is the number of students newly assigned.
  Every student reached may also pay: the payment's level check accepts them.\<close>

lemma assignDueToStudents_exact:
  assumes "assignDueToStudents now userId dueId x d = (d', Inr n)" and "live_due d dueId = Some u"
  shows "(\<forall>v k. terms_of d' v k =
        (if v = dueId \<and> k \<in> st_id ` {s \<in> set (students d). selected x s \<and> assignable u s} \<and> terms_of d v k = None
         then Some (du_amount u, False) else terms_of d v k))
    \<and> n = card {k \<in> st_id ` {s \<in> set (students d). selected x s \<and> assignable u s}. terms_of d dueId k = None}
    \<and> (\<forall>s. assignable u s \<longleftrightarrow> assertDueLevel u s = Inr ())"
proof -
  define ks where "ks = map st_id (filter (\<lambda>s. selected x s \<and> assignable u s) (students d))"
  define d1 where "d1 = fold (assign_one now u) ks d"
  have u: "du_id u = dueId" using assms(2) by (auto simp: live_due_def dest: find_SomeD)
  have "d' = log_activity (Some userId) (STR ''DUE_ASSIGNED'') d1" "n = length (assignments d1) - length (assignments d)"
    using assms by (auto simp: assignDueToStudents_def Let_def ks_def [symmetric] d1_def split: if_splits)
  then have d': "assignments d' = assignments d1" "n = card {k \<in> set ks. terms_of d dueId k = None}"
    using fold_assign_count [of now u ks d] u by (simp_all add: log_activity_def d1_def)
  have ks: "set ks = st_id ` {s \<in> set (students d). selected x s \<and> assignable u s}"
    by (simp add: ks_def)
  have "assignable u s \<longleftrightarrow> assertDueLevel u s = Inr ()" for s
    by (auto simp: assignable_def assertDueLevel_def require_def)
  moreover have "terms_of d' v k = terms_of d1 v k" for v k by (simp add: terms_of_def d'(1))
  then have "terms_of d' v k = (if v = dueId \<and> k \<in> set ks \<and> terms_of d v k = None
      then Some (du_amount u, False) else terms_of d v k)" for v k
    using fold_assign_terms [of now u ks d v k] u by (simp add: d1_def)
  ultimately show ?thesis unfolding ks [symmetric] using d'(2) by blast
qed

lemma assignDueToStudents_exact_example:
  "\<exists>d'. assignDueToStudents 7 ''adm'' ''due'' \<lparr>ax_students = [''s''], ax_department = None, ax_level = None\<rparr>
      (sample_dues (sample_due True True) (sample_student True 200)) = (d', Inr 1)
    \<and> terms_of d' ''due'' ''s'' = Some (5000, False)"
proof -
  let ?u = "sample_due True True" and ?s = "sample_student True 200"
  let ?x = "\<lparr>ax_students = [''s''], ax_department = None, ax_level = None\<rparr>"
  have u: "live_due (sample_dues ?u ?s) ''due'' = Some ?u" by (simp add: live_due_def sample_due_def)
  have sel: "selected ?x ?s" "assignable ?u ?s" "st_id ?s = ''s''" "du_amount ?u = 5000"
    by (simp_all add: selected_def assignable_def numericLevel_def at_least_200_def sample_student_def sample_due_def)
  obtain d' n where r: "assignDueToStudents 7 ''adm'' ''due'' ?x (sample_dues ?u ?s) = (d', Inr n)"
    using u sel by (simp add: assignDueToStudents_def Let_def)
  have "{s \<in> set (students (sample_dues ?u ?s)). selected ?x s \<and> assignable ?u s} = {?s}" using sel by auto
  with assignDueToStudents_exact [OF r u] sel have "n = 1" "terms_of d' ''due'' ''s'' = Some (5000, False)"
    by (simp_all add: lookup_by_Nil terms_of_def)
  with r show ?thesis by blast
qed

section \<open>Who sees and who pays\<close>

text \<open>The three descriptions of who a due is for agree, with one exception. For a student at level 100 or
  from level 200, \<open>getMyDues\<close> counts a due to the student's audience exactly when the assignment
  filter and the level check of a payment accept it, except for a direct-entry student at level
  100: to that student the fresher dues open to direct entry are shown although neither accepts them.\<close>

lemma audience_agrees:
  assumes "numericLevel s = Some 100 \<or> at_least_200 s"
  shows "(due_audience s u \<longleftrightarrow> assignable u s \<or>
      (st_direct_entry s \<and> numericLevel s = Some 100 \<and> du_fresher u \<and> du_direct_entry u))
    \<and> (assignable u s \<longleftrightarrow> assertDueLevel u s = Inr ())
    \<and> (numericLevel s = Some 100 \<longrightarrow> st_direct_entry s \<longrightarrow> \<not> assignable u s)"
  using assms by (cases "numericLevel s")
    (auto simp: due_audience_def assignable_def assertDueLevel_def require_def at_least_200_def)

lemma audience_agrees_example:
  "due_audience (sample_student True 100) (sample_due True True)
    \<and> assertDueLevel (sample_due True True) (sample_student True 100) \<noteq> Inr ()"
proof -
  let ?s = "sample_student True 100" and ?u = "sample_due True True"
  have s: "numericLevel ?s = Some 100" "st_direct_entry ?s" "du_fresher ?u" "du_direct_entry ?u"
    by (simp_all add: numericLevel_def sample_student_def sample_due_def)
  from audience_agrees [OF disjI1 [OF s(1)], of ?u] s show ?thesis by blast
qed

section \<open>Deletion\<close>

lemma resolve_assignment_InrD:
  assumes "resolve_assignment userId i amount d = Inr j"
  obtains a s u where "get_assignment d i = Some a" and "lookup_by st_id (da_student a) (students d) = Some s"
    and "get_due d (da_due a) = Some u" and "st_user s = userId" and "du_status u = DueActive"
    and "\<not> da_paid a" and "amount = None \<or> amount = Some (da_amount a)"
proof -
  obtain a where a: "get_assignment d i = Some a"
    using assms by (cases "get_assignment d i") (simp_all add: resolve_assignment_def require_some_def)
  obtain s where s: "lookup_by st_id (da_student a) (students d) = Some s"
    using assms a by (cases "lookup_by st_id (da_student a) (students d)")
      (simp_all add: resolve_assignment_def require_some_def)
  obtain u where u: "get_due d (da_due a) = Some u"
    using assms a s by (cases "get_due d (da_due a)") (simp_all add: resolve_assignment_def require_some_def)
  have "st_user s = userId" and "du_status u = DueActive" and "\<not> da_paid a"
    and "amount = None \<or> amount = Some (da_amount a)"
    using assms a s u
    by (simp_all add: resolve_assignment_def require_some_def require_def andThen_eq_Inr split: if_splits)
  with a s u show thesis by (rule that)
qed

text \<open>A deletion is final and never hides money. A due is deleted only when no payment and no pending payment
  belongs to it; afterwards no payment resolves to it, neither by the due nor by any of the
  assignments that were made of it.\<close>

lemma deleteDue_final:
  assumes "deleteDue now userId dueId d = (d', Inr ())"
  shows "\<not> has_activity d dueId
    \<and> (\<forall>later payer amount r. resolveDueAssignment later payer (Some dueId) None amount d' \<noteq> (r, Inr (Some j)))
    \<and> (\<forall>a later payer amount r. a \<in> set (assignments d') \<longrightarrow> get_assignment d' (da_id a) = Some a \<longrightarrow> da_due a = dueId \<longrightarrow>
        resolveDueAssignment later payer None (Some (da_id a)) amount d' \<noteq> (r, Inr (Some j)))"
proof (intro conjI allI impI notI)
  define f :: "due \<Rightarrow> due" where "f = (\<lambda>u. u\<lparr>du_status := DueCancelled, du_deleted := Some now\<rparr>)"
  have d': "dues d' = map (\<lambda>u. if du_id u = dueId then f u else u) (dues d)" "assignments d' = assignments d"
    "students d' = students d"
    using assms by (auto simp: deleteDue_def log_activity_def update_by_def update_where_def f_def split: if_splits)
  show False if "has_activity d dueId" using assms that by (auto simp: deleteDue_def split: if_splits)
  have "find (\<lambda>u. du_id u = dueId \<and> du_deleted u = None) (map (\<lambda>u. if du_id u = dueId then f u else u) us) = None" for us
    by (induction us) (simp_all add: f_def)
  then have gone: "live_due d' dueId = None" by (simp add: live_due_def d')
  show False if "resolveDueAssignment later payer (Some dueId) None amount d' = (r, Inr (Some j))"
    for later payer amount r
    using that gone by (simp add: resolveDueAssignment_def resolve_due_def require_some_def)
  show False
    if a: "get_assignment d' (da_id a) = Some a" "da_due a = dueId"
      and r: "resolveDueAssignment later payer None (Some (da_id a)) amount d' = (r, Inr (Some j))"
    for a later payer amount r
  proof -
    obtain i where i: "resolve_assignment payer (da_id a) amount d' = Inr i"
      using r by (cases "resolve_assignment payer (da_id a) amount d'") (simp_all add: resolveDueAssignment_def)
    then obtain u where u: "get_due d' dueId = Some u" "du_status u = DueActive"
    proof (rule resolve_assignment_InrD)
      fix a' s u
      assume "get_assignment d' (da_id a) = Some a'" "get_due d' (da_due a') = Some u" "du_status u = DueActive"
      with a show thesis by (intro that [of u]) simp_all
    qed
    have id: "du_id u = dueId" using u(1) by (rule lookup_by_key)
    have "u \<in> set (dues d')" using u(1) by (rule lookup_by_mem)
    then obtain u0 where "u = (if du_id u0 = dueId then f u0 else u0)"
      unfolding d' set_map by (elim imageE) (rule that)
    with u(2) id show False by (simp add: f_def split: if_splits)
  qed
qed

lemma deleteDue_final_example:
  "\<exists>d'. deleteDue 9 ''adm'' ''due'' (sample_dues (sample_due False False) (sample_student False 200)) = (d', Inr ())
    \<and> resolveDueAssignment 10 ''u'' (Some ''due'') None (Some 5000) d' \<noteq> (d', Inr (Some ''a''))"
proof -
  let ?d = "sample_dues (sample_due False False) (sample_student False 200)"
  have "live_due ?d ''due'' \<noteq> None" "\<not> has_activity ?d ''due''"
    by (simp_all add: live_due_def has_activity_def sample_due_def)
  then obtain d' where r: "deleteDue 9 ''adm'' ''due'' ?d = (d', Inr ())" by (simp add: deleteDue_def)
  from deleteDue_final [OF this, of "''a''"] show ?thesis using r by blast
qed


section \<open>What is shown as payable can be paid\<close>

text \<open>The tables that a student's list reads: keys are unique, and no unpaid assignment has a payment.\<close>

definition due_rows_ok :: "db \<Rightarrow> bool" where
  "due_rows_ok d \<longleftrightarrow>
     distinct (map du_id (dues d)) \<and> distinct (map st_id (students d)) \<and> distinct (map se_id (sessions d)) \<and>
     distinct (map da_id (assignments d)) \<and>
     list_all (\<lambda>(i, paid). paid \<or> \<not> has_payment d i) (map (\<lambda>a. (da_id a, da_paid a)) (assignments d)) \<and>
     list_all (\<lambda>(current, active). current \<longrightarrow> active) (map (\<lambda>k. (se_current k, se_active k)) (sessions d))"

lemma set_newest [simp]: "set (newest_first f xs) = set xs"
  by (simp add: newest_first_def)

text \<open>Every row of the list comes from a due of the audience, with the student's assignment if there is one.\<close>

lemma getMyDues_row:
  assumes v: "v \<in> set (getMyDues userId d)" and s: "lookup_by st_user userId (students d) = Some s"
    and rows: "due_rows_ok d"
  obtains (Assigned) u a where "v = view_of s d (Some a) u" "a \<in> set (assignments d)" "da_student a = st_id s"
      "get_due d (da_due a) = Some u" "due_audience s u"
    | (Open) u where "v = view_of s d None u" "u \<in> set (available_dues s d)"
      "assignment_of d (du_id u) (st_id s) = None"
proof -
  let ?avail = "available_dues s d" and ?asg = "visible_assignments s d"
  have vis: "da_student a = st_id s" "a \<in> set (assignments d)"
    "\<exists>u. get_due d (da_due a) = Some u \<and> due_audience s u" if "a \<in> set ?asg" for a
    using that by (auto simp: visible_assignments_def split: option.splits)
  have av: "get_due d (du_id u) = Some u" "due_audience s u" if "u \<in> set ?avail" for u
  proof -
    from that have "u \<in> set (dues d)" "due_audience s u" by (simp_all add: available_dues_def)
    then show "get_due d (du_id u) = Some u" "due_audience s u"
      using rows lookup_by_distinct [of du_id "dues d" u] by (simp_all add: due_rows_ok_def)
  qed
  have "v \<in> (\<lambda>u. view_of s d (lookup_by da_due (du_id u) ?asg) u) `
      (set ?avail \<union> (\<lambda>a. the (get_due d (da_due a))) ` {a \<in> set ?asg. da_due a \<notin> du_id ` set ?avail})"
    unfolding image_Un image_image using v s by (simp add: getMyDues_def Let_def split: if_splits)
  then obtain u where u: "v = view_of s d (lookup_by da_due (du_id u) ?asg) u"
    and src: "u \<in> set ?avail \<or> (\<exists>a. a \<in> set ?asg \<and> u = the (get_due d (da_due a)))"
    by (elim imageE UnE) auto
  show thesis
  proof (cases "lookup_by da_due (du_id u) ?asg")
    case (Some a)
    then have a: "a \<in> set ?asg" "da_due a = du_id u" by (auto dest: lookup_by_mem)
    obtain u' where u': "get_due d (da_due a) = Some u'" "due_audience s u'" using vis(3) [OF a(1)] by (elim exE conjE)
    have "get_due d (du_id u) = Some u"
    proof (cases "u \<in> set ?avail")
      case False
      with src obtain a' where a': "a' \<in> set ?asg" "u = the (get_due d (da_due a'))" by blast
      obtain w where "get_due d (da_due a') = Some w" "u = w" using vis(3) [OF a'(1)] a'(2) by (elim exE conjE) simp
      then show ?thesis using lookup_by_key [of du_id "da_due a'" "dues d" w] by simp
    qed (rule av(1))
    with u' a(2) have "u' = u" by simp
    with Assigned [of a u] u Some vis(1,2) [OF a(1)] u' show ?thesis by simp
  next
    case None
    then have no: "du_id u \<notin> da_due ` set ?asg" by (simp add: lookup_by_None)
    have mem: "u \<in> set ?avail"
    proof (rule ccontr)
      assume "u \<notin> set ?avail"
      with src obtain a' where a': "a' \<in> set ?asg" "u = the (get_due d (da_due a'))" by blast
      obtain w where "get_due d (da_due a') = Some w" "u = w" using vis(3) [OF a'(1)] a'(2) by (elim exE conjE) simp
      then have "du_id u = da_due a'" using lookup_by_key [of du_id "da_due a'" "dues d" w] by simp
      with a'(1) no show False by simp
    qed
    have "assignment_of d (du_id u) (st_id s) = None"
    proof (rule ccontr)
      assume "assignment_of d (du_id u) (st_id s) \<noteq> None"
      then obtain a where a: "assignment_of d (du_id u) (st_id s) = Some a" by (cases "assignment_of d (du_id u) (st_id s)") simp_all
      then have k: "da_due a = du_id u" "da_student a = st_id s" "a \<in> set (assignments d)"
        using lookup_by_key [OF a] lookup_by_mem [OF a] by simp_all
      then have "a \<in> set ?asg" using av [OF mem] mem by (simp add: visible_assignments_def)
      with k(1) no show False by (metis imageI)
    qed
    with Open [of u] u None mem show ?thesis by simp
  qed
qed

lemma student_unique:
  "lookup_by st_user userId (students d) = Some s \<Longrightarrow> due_rows_ok d \<Longrightarrow> lookup_by st_id (st_id s) (students d) = Some s"
  by (rule lookup_by_distinct) (auto simp: due_rows_ok_def dest: lookup_by_mem)

lemma available_open:
  assumes "u \<in> set (available_dues s d)" and "due_rows_ok d"
  shows "session_open d u" and "live_due d (du_id u) = Some u" and "is_member d (st_user s) (du_organization u)"
    and "du_status u = DueActive" and "due_audience s u"
proof -
  have u: "u \<in> set (dues d)" "du_deleted u = None" using assms(1) by (simp_all add: available_dues_def)
  show "is_member d (st_user s) (du_organization u)" "du_status u = DueActive" "due_audience s u"
    using assms(1) by (simp_all add: available_dues_def)
  have "find (\<lambda>v. du_id v = du_id u \<and> du_deleted v = None) us = Some u" if "u \<in> set us" "distinct (map du_id us)" for us
    using that u(2) by (induction us) (auto simp: image_iff)
  then show "live_due d (du_id u) = Some u" using u assms(2) by (simp add: live_due_def due_rows_ok_def)
  show "session_open d u"
  proof (cases "du_session u")
    case (Some k)
    then obtain c where c: "current_session s d = Some c" "k = se_id c"
      using assms(1) by (cases "current_session s d") (simp_all add: available_dues_def)
    then have cc: "c \<in> set (sessions d)" "se_current c" by (auto simp: current_session_def dest: find_SomeD)
    then have "se_active c" using assms(2) by (auto simp: due_rows_ok_def list_all_iff)
    with cc c(2) Some assms(2) lookup_by_distinct [of se_id "sessions d" c]
    show ?thesis by (simp add: session_open_def due_rows_ok_def)
  qed (simp add: session_open_def)
qed

lemma audience_level:
  assumes "due_audience s u" and "numericLevel s = Some 100 \<or> at_least_200 s"
    and "\<not> (st_direct_entry s \<and> numericLevel s = Some 100)"
  shows "assertDueLevel u s = Inr ()"
  using assms by (cases "numericLevel s")
    (auto simp: due_audience_def assertDueLevel_def require_def at_least_200_def)

text \<open>C38: What a student is shown as payable can be paid. Every row of \<open>getMyDues\<close> with \<open>canPay\<close> resolves for
  its amount: an assigned due by its assignment, the others by the due, which is then assigned.
  This holds for every student except a direct-entry student at level 100, when keys are unique, no unpaid
  assignment has a payment and every current session is active.\<close>

theorem shown_payable_is_payable:
  assumes "v \<in> set (getMyDues userId d)" and "dv_can_pay v"
    and "lookup_by st_user userId (students d) = Some s" and "due_rows_ok d"
    and "\<not> (st_direct_entry s \<and> numericLevel s = Some 100)"
  shows "(\<not> dv_auto v \<longrightarrow> resolveDueAssignment now userId None (Some (dv_id v)) (Some (dv_amount v)) d = (d, Inr (Some (dv_id v))))
    \<and> (dv_auto v \<longrightarrow> snd (resolveDueAssignment now userId (Some (dv_due v)) None (Some (dv_amount v)) d) = Inr (Some (fresh_id d)))"
proof -
  have lv: "numericLevel s = Some 100 \<or> at_least_200 s"
    using assms(1,3) by (auto simp: getMyDues_def split: if_splits)
  have us: "st_user s = userId" using assms(3) by (rule lookup_by_key)
  show ?thesis
    using assms(1,3,4)
  proof (cases rule: getMyDues_row)
    case (Assigned u a)
    have np: "\<not> da_paid a" "du_status u = DueActive" using assms(2) Assigned(1) by (simp_all add: view_of_def Let_def)
    have get: "get_assignment d (da_id a) = Some a"
      using Assigned(2) assms(4) lookup_by_distinct [of da_id "assignments d" a] by (simp add: due_rows_ok_def)
    have "\<not> has_payment d (da_id a)" using assms(4) Assigned(2) np(1) by (auto simp: due_rows_ok_def list_all_iff)
    then have "resolve_assignment userId (da_id a) (Some (da_amount a)) d = Inr (da_id a)"
      using get Assigned(3,4) student_unique [OF assms(3,4)] us np audience_level [OF Assigned(5) lv assms(5)]
      by (simp add: resolve_assignment_def require_some_def require_def)
    then show ?thesis using Assigned(1) by (simp add: view_of_def Let_def resolveDueAssignment_def)
  next
    case (Open u)
    note o = available_open [OF Open(2) assms(4)]
    obtain d' where "resolve_due now userId (du_id u) (Some (du_amount u)) d = Inr (fresh_id d, d')"
      using o Open(3) assms(3) us audience_level [OF o(5) lv assms(5)]
      by (simp add: resolve_due_def require_some_def require_def Let_def)
    then show ?thesis using Open(1) by (simp add: view_of_def Let_def resolveDueAssignment_def)
  qed
qed

theorem shown_payable_is_payable_witness:
  "getMyDues ''u'' (sample_dues (sample_due True False) (sample_student False 100)) \<noteq> []
    \<and> snd (resolveDueAssignment 7 ''u'' (Some ''due'') None (Some 5000) (sample_dues (sample_due True False) (sample_student False 100)))
      = Inr (Some (fresh_id (sample_dues (sample_due True False) (sample_student False 100))))"
proof -
  let ?u = "sample_due True False" and ?s = "sample_student False 100"
  let ?d = "sample_dues ?u ?s"
  have s: "lookup_by st_user ''u'' (students ?d) = Some ?s" by (simp add: lookup_by_Cons sample_student_def)
  have lv: "numericLevel ?s = Some 100" "\<not> st_direct_entry ?s" "st_user ?s = ''u''"
    by (simp_all add: numericLevel_def sample_student_def)
  have "available_dues ?s ?d = [?u]"
    by (simp add: available_dues_def newest_first_def is_member_def due_audience_def lv)
      (simp add: sample_due_def)
  moreover have "visible_assignments ?s ?d = []" by (simp add: visible_assignments_def newest_first_def)
  ultimately have g: "getMyDues ''u'' ?d = [view_of ?s ?d None ?u]"
    by (simp add: getMyDues_def s [unfolded sample_dues_fields] lv lookup_by_Nil newest_first_def Let_def)
  have "due_rows_ok ?d" by (simp add: due_rows_ok_def)
  with shown_payable_is_payable [of "view_of ?s ?d None ?u" "''u''" ?d ?s 7] g s lv
  show ?thesis by (simp add: view_of_def Let_def sample_due_def)
qed


end
