(* ===== verification/Json.thy ===== *)
theory Json
  imports Complex_Main JsNumber
begin

text \<open>
  JavaScript values as the webhook handlers read them: JSON with \<open>undefined\<close>, member access, the
  operators \<open>||\<close> and \<open>??\<close>, \<open>String(x)\<close> and \<open>parseFloat\<close>. Numbers are the rationals they denote.

  The lemmas: what the operators select, and that a printed amount with two decimals is parsed to
  the rational it denotes.
\<close>

section \<open>Values\<close>

datatype json =
    Undefined
  | Null
  | Bool bool
  | Num rat
  | Str string
  | Obj "(string \<times> json) list"

fun truthy :: "json \<Rightarrow> bool" where
  "truthy Undefined = False"
| "truthy Null = False"
| "truthy (Bool b) = b"
| "truthy (Num x) = (x \<noteq> 0)"
| "truthy (Str s) = (s \<noteq> '''')"
| "truthy (Obj ms) = True"

definition nullish :: "json \<Rightarrow> bool" where
  "nullish v \<longleftrightarrow> v = Undefined \<or> v = Null"

text \<open>\<open>v.m\<close> on an object, and \<open>v?.m\<close> on anything: a member that is missing is \<open>undefined\<close>.\<close>

fun dot :: "json \<Rightarrow> string \<Rightarrow> json" where
  "dot (Obj ms) m = (case map_of ms m of None \<Rightarrow> Undefined | Some v \<Rightarrow> v)"
| "dot _ m = Undefined"

text \<open>\<open>x || y\<close> and \<open>x ?? y\<close>.\<close>

definition or_else_js :: "json \<Rightarrow> json \<Rightarrow> json" where
  "or_else_js x y = (if truthy x then x else y)"

definition coalesce :: "json \<Rightarrow> json \<Rightarrow> json" where
  "coalesce x y = (if nullish x then y else x)"

fun first_of :: "json list \<Rightarrow> json" where
  "first_of [] = Undefined"
| "first_of [v] = v"
| "first_of (v # w # vs) = or_else_js v (first_of (w # vs))"

fun first_given :: "json list \<Rightarrow> json" where
  "first_given [] = Undefined"
| "first_given [v] = v"
| "first_given (v # w # vs) = coalesce v (first_given (w # vs))"

text \<open>The text of an identifier: a string, as the provider sends it.\<close>

fun text_of :: "json \<Rightarrow> string option" where
  "text_of (Str s) = (if s = '''' then None else Some s)"
| "text_of _ = None"

lemma first_of_truthy: "truthy (first_of vs) \<longleftrightarrow> (\<exists>v \<in> set vs. truthy v)"
  by (induction vs rule: first_of.induct) (auto simp: or_else_js_def)

lemma first_given_nullish: "nullish (first_given vs) \<longleftrightarrow> (\<forall>v \<in> set vs. nullish v)"
proof (induction vs rule: first_given.induct)
  case 1
  then show ?case by (simp add: nullish_def)
qed (auto simp: coalesce_def)

section \<open>Reading a decimal\<close>

definition is_digit :: "char \<Rightarrow> bool" where
  "is_digit c \<longleftrightarrow> 48 \<le> (of_char c :: nat) \<and> (of_char c :: nat) \<le> 57"

definition digit_value :: "char \<Rightarrow> int" where
  "digit_value c = int (of_char c) - 48"

definition read_digits :: "string \<Rightarrow> int" where
  "read_digits s = foldl (\<lambda>n c. 10 * n + digit_value c) 0 s"

definition is_space :: "char \<Rightarrow> bool" where
  "is_space c \<longleftrightarrow> (of_char c :: nat) \<in> {9, 10, 11, 12, 13, 32, 160}"

definition trimmed :: "string \<Rightarrow> string" where
  "trimmed s = rev (dropWhile is_space (rev (dropWhile is_space s)))"

text \<open>An optional sign.\<close>

fun read_sign :: "string \<Rightarrow> int \<times> string" where
  "read_sign (c # cs) = (if c = CHR ''-'' then (-1, cs) else if c = CHR ''+'' then (1, cs) else (1, c # cs))"
| "read_sign [] = (1, [])"

text \<open>The exponent part, ignored unless digits follow.\<close>

definition read_exponent :: "string \<Rightarrow> int" where
  "read_exponent s =
     (case s of
        c # cs \<Rightarrow>
          if c = CHR ''e'' \<or> c = CHR ''E''
          then (case read_sign cs of (sg, ds) \<Rightarrow>
                  (let n = takeWhile is_digit ds in if n = [] then 0 else sg * read_digits n))
          else 0
      | [] \<Rightarrow> 0)"

text \<open>
  \<open>parseFloat\<close>: white space, a sign, digits with an optional fraction and exponent; what follows is
  ignored; without a digit the result is \<open>NaN\<close> (\<open>None\<close>). \<open>Infinity\<close> is \<open>None\<close> too: no caller
  accepts either.
\<close>

definition parseFloat :: "string \<Rightarrow> rat option" where
  "parseFloat s =
     (case read_sign (dropWhile is_space s) of (sg, t) \<Rightarrow>
        (let whole = takeWhile is_digit t;
             rest = dropWhile is_digit t;
             frac = (case rest of c # cs \<Rightarrow> if c = CHR ''.'' then takeWhile is_digit cs else [] | [] \<Rightarrow> []);
             after = (case rest of c # cs \<Rightarrow> if c = CHR ''.'' then dropWhile is_digit cs else rest | [] \<Rightarrow> [])
         in if whole = [] \<and> frac = [] then None
            else Some (of_int sg * (of_int (read_digits (whole @ frac)) / 10 ^ length frac)
                       * 10 powi read_exponent after)))"

text \<open>\<open>parseFloat(String(v))\<close>: a number is printed so that it is read back.\<close>

fun number_of_json :: "json \<Rightarrow> rat option" where
  "number_of_json (Num x) = Some x"
| "number_of_json (Str s) = parseFloat s"
| "number_of_json _ = None"

section \<open>Printing an amount\<close>

text \<open>The decimal digits of a number, and the text \<open>toFixed(2)\<close> gives for \<open>k / 100\<close>.\<close>

definition digit :: "nat \<Rightarrow> char" where
  "digit n = char_of (48 + n)"

fun show_nat :: "nat \<Rightarrow> string" where
  "show_nat n = (if n < 10 then [digit n] else show_nat (n div 10) @ [digit (n mod 10)])"

declare show_nat.simps [simp del]

definition fixed2_text :: "nat \<Rightarrow> string" where
  "fixed2_text k = show_nat (k div 100) @ CHR ''.'' # [digit (k div 10 mod 10), digit (k mod 10)]"

lemma of_char_digit: "n < 10 \<Longrightarrow> (of_char (digit n) :: nat) = 48 + n"
  by (simp add: digit_def)

lemma is_digit_digit [simp]: "n < 10 \<Longrightarrow> is_digit (digit n)"
  by (simp add: is_digit_def of_char_digit)

lemma digit_value_digit [simp]: "n < 10 \<Longrightarrow> digit_value (digit n) = int n"
  by (simp add: digit_value_def of_char_digit)

lemma show_nat_digits: "list_all is_digit (show_nat n)"
proof (induction n rule: show_nat.induct)
  case (1 n)
  then show ?case by (subst show_nat.simps) simp
qed

lemma show_nat_nonempty [simp]: "show_nat n \<noteq> []"
  by (subst show_nat.simps) simp

lemma read_digits_snoc: "read_digits (s @ [c]) = 10 * read_digits s + digit_value c"
  by (simp add: read_digits_def)

lemma read_show_nat [simp]: "read_digits (show_nat n) = int n"
proof (induction n rule: show_nat.induct)
  case (1 n)
  show ?case
  proof (cases "n < 10")
    case True
    then show ?thesis by (subst show_nat.simps) (simp add: read_digits_def)
  next
    case False
    have "read_digits (show_nat n) = 10 * int (n div 10) + int (n mod 10)"
      using False 1 by (subst show_nat.simps) (simp add: read_digits_snoc)
    also have "\<dots> = int n" by presburger
    finally show ?thesis .
  qed
qed

lemma span_digits:
  assumes "list_all is_digit s" and "\<not> is_digit c"
  shows "takeWhile is_digit (s @ c # t) = s" and "dropWhile is_digit (s @ c # t) = c # t"
  using assms by (induction s) auto

lemma not_digit_point: "\<not> is_digit CHR ''.''"
  by (simp add: is_digit_def)

lemma digit_not_sign:
  assumes "is_digit c"
  shows "c \<noteq> CHR ''-''" and "c \<noteq> CHR ''+''" and "\<not> is_space c"
  using assms by (auto simp: is_digit_def is_space_def)

lemma parse_fixed2_text: "parseFloat (fixed2_text k) = Some (of_nat k / 100)"
proof -
  let ?w = "show_nat (k div 100)" and ?f = "[digit (k div 10 mod 10), digit (k mod 10)]"
  obtain c cs where w: "?w = c # cs" by (cases ?w) simp_all
  then have c: "is_digit c" using show_nat_digits [of "k div 100"] by simp
  have t: "fixed2_text k = ?w @ CHR ''.'' # ?f" by (simp add: fixed2_text_def)
  then have "dropWhile is_space (fixed2_text k) = fixed2_text k" using w digit_not_sign(3) [OF c] by simp
  moreover have "read_sign (fixed2_text k) = (1, fixed2_text k)" using w t digit_not_sign(1,2) [OF c] by simp
  ultimately have start: "read_sign (dropWhile is_space (fixed2_text k)) = (1, ?w @ CHR ''.'' # ?f)" by (simp add: t)
  note sp = span_digits [OF show_nat_digits [of "k div 100"] not_digit_point, of ?f]
  have frac: "takeWhile is_digit ?f = ?f" "dropWhile is_digit ?f = []" by simp_all
  have "read_digits (?w @ ?f) = 10 * (10 * int (k div 100) + int (k div 10 mod 10)) + int (k mod 10)"
    using read_digits_snoc [of "?w @ [digit (k div 10 mod 10)]" "digit (k mod 10)"]
      read_digits_snoc [of ?w "digit (k div 10 mod 10)"] by simp
  also have "\<dots> = int (10 * (10 * (k div 100) + k div 10 mod 10) + k mod 10)" by simp
  also have "10 * (10 * (k div 100) + k div 10 mod 10) + k mod 10 = k"
    using div_mult_mod_eq [of "k div 10" 10] div_mult_mod_eq [of k 10] div_mult2_eq [of k 10 10] by simp
  finally have "read_digits (?w @ ?f) = int k" .
  then show ?thesis
    unfolding parseFloat_def start prod.case Let_def sp list.case if_P [OF refl] frac
    by (simp only: read_exponent_def list.case) simp
qed

text \<open>
  \<open>String(v)\<close> of an identifier: a string is itself, a natural number its digits. Providers send
  nothing else; the text of other values is not modelled (\<open>None\<close>).
\<close>

definition printed :: "json \<Rightarrow> string option" where
  "printed v =
     (case v of
        Str s \<Rightarrow> Some s
      | Num x \<Rightarrow> if x = of_int \<lfloor>x\<rfloor> \<and> 0 \<le> x then Some (show_nat (nat \<lfloor>x\<rfloor>)) else None
      | _ \<Rightarrow> None)"

end
