(* ===== verification/Collections.thy ===== *)
theory Collections
  imports Prelude FinanceDb Ledger Wallets BachsClient Dues Json
begin

text \<open>
  \<open>BachsService\<close> (\<open>src/v1/bachs/bachs.service.ts\<close>): opening a checkout, completing, cancelling,
  expiring and retrying a pending payment, and its status. The provider and the URL parser are
  arguments. Receipts, events, cache invalidation, customers' names and JSON copies of provider
  answers are left out.
\<close>

abbreviation get_pending :: "db \<Rightarrow> ident \<Rightarrow> pending_payment option" where
  "get_pending d i \<equiv> lookup_by pp_id i (pendings d)"

abbreviation upd_pending :: "ident \<Rightarrow> (pending_payment \<Rightarrow> pending_payment) \<Rightarrow> db \<Rightarrow> db" where
  "upd_pending i f d \<equiv> d\<lparr>pendings := update_by pp_id i f (pendings d)\<rparr>"

definition payment_by_reference :: "db \<Rightarrow> string \<Rightarrow> payment option" where
  "payment_by_reference d r = lookup_by pa_reference r (payments d)"

section \<open>Redirect addresses\<close>

text \<open>A parsed address: its protocol, its origin and its normal form; \<open>None\<close> is no address.\<close>

record parsed_url =
  ur_protocol :: string
  ur_origin :: string
  ur_href :: string

fun split_comma :: "string \<Rightarrow> string list" where
  "split_comma [] = [[]]"
| "split_comma (c # cs) =
     (if c = CHR '','' then [] # split_comma cs
      else case split_comma cs of [] \<Rightarrow> [[c]] | p # ps \<Rightarrow> (c # p) # ps)"

definition trim :: "string \<Rightarrow> string" where
  "trim s = rev (dropWhile is_space (rev (dropWhile is_space s)))"

fun origins_of :: "(string \<Rightarrow> parsed_url option) \<Rightarrow> string list \<Rightarrow> string list result" where
  "origins_of url [] = Inr []"
| "origins_of url (v # vs) =
     andThen (require_some (url v) (Internal (STR ''Invalid URL''))) (\<lambda>u.
     andThen (origins_of url vs) (\<lambda>os. Inr (ur_origin u # os)))"

definition getAllowedRedirectOrigins :: "(string \<Rightarrow> parsed_url option) \<Rightarrow> string \<Rightarrow> string list result" where
  "getAllowedRedirectOrigins url configured =
     origins_of url (filter (\<lambda>v. v \<noteq> '''') (map trim (split_comma configured)))"

definition validateRedirectUrl :: "(string \<Rightarrow> parsed_url option) \<Rightarrow> string \<Rightarrow> string \<Rightarrow> string result" where
  "validateRedirectUrl url configured address =
     andThen (require_some (url address) (BadRequest (STR ''must be a valid URL''))) (\<lambda>u.
     andThen (require (ur_protocol u \<in> {''http:'', ''https:''}) (BadRequest (STR ''must use HTTP or HTTPS''))) (\<lambda>_.
     andThen (getAllowedRedirectOrigins url configured) (\<lambda>os.
     andThen (require (ur_origin u \<in> set os) (BadRequest (STR ''origin is not allowed''))) (\<lambda>_.
     Inr (ur_href u)))))"

section \<open>Opening a checkout\<close>

definition MIN_BACHS_CHECKOUT_AMOUNT_KOBO :: int where
  "MIN_BACHS_CHECKOUT_AMOUNT_KOBO = 10000"

text \<open>
  The provider and the configuration: the customer of a user, reading and creating a checkout,
  the URL parser, the configured origins, and the platform fee with its switch.
\<close>

record checkout_env =
  ce_customer :: "ident \<Rightarrow> ident result"
  ce_get_session :: "ident \<Rightarrow> json result"
  ce_create_session :: "ident \<Rightarrow> rat \<Rightarrow> (ident \<times> string) result"
  ce_url :: "string \<Rightarrow> parsed_url option"
  ce_origins :: string
  ce_frontend :: string
  ce_fee :: int
  ce_fee_enabled :: bool

record payment_request =
  ir_organization :: ident
  ir_amount :: int
  ir_assignment :: "ident option"
  ir_reference :: "string option"
  ir_success_url :: "string option"
  ir_cancel_url :: "string option"

definition platform_fee :: "checkout_env \<Rightarrow> int" where
  "platform_fee env = (if ce_fee_enabled env then ce_fee env else 0)"

definition session_minutes :: nat where
  "session_minutes = 60 * 60 * 1000"

definition upper_text :: "json \<Rightarrow> string" where
  "upper_text v = (case v of Str s \<Rightarrow> to_upper s | _ \<Rightarrow> '''')"

definition new_pending :: "nat \<Rightarrow> ident \<Rightarrow> ident \<Rightarrow> payment_request \<Rightarrow> int \<Rightarrow> string \<Rightarrow> pending_payment" where
  "new_pending now i userId x platformFee reference =
     \<lparr>pp_id = i, pp_user = userId, pp_organization = ir_organization x, pp_amount = ir_amount x,
      pp_assignment = ir_assignment x, pp_reference = reference, pp_status = PpPending, pp_checkout = None,
      pp_charge = None,
      pp_meta = \<lparr>pm_base = Some (ir_amount x), pm_platform_fee = Some platformFee, pm_expected = Some (ir_amount x + platformFee), pm_retries = None\<rparr>,
      pp_created = now\<rparr>"

text \<open>
  \<open>pendingPayment.create\<close>: the reference is unique, and so is the due assignment among the
  pending rows (a partial index of the migrations).
\<close>

definition create_pending :: "nat \<Rightarrow> ident \<Rightarrow> payment_request \<Rightarrow> int \<Rightarrow> db \<Rightarrow> ((pending_payment \<times> string option) \<times> db) result" where
  "create_pending now userId x platformFee d =
     (let i = fresh_id d;
          reference = (case nonempty (ir_reference x) of Some r \<Rightarrow> r | None \<Rightarrow> ''pending_'' @ i);
          p = new_pending now i userId x platformFee reference
      in if lookup_by og_id (ir_organization x) (orgs d) = None
            \<or> (ir_assignment x \<noteq> None \<and> lookup_by da_id (the (ir_assignment x)) (assignments d) = None)
         then Inl (Internal (STR ''P2003''))
         else if ir_assignment x \<noteq> None \<and> (lookup_by pp_reference reference (pendings d) \<noteq> None
            \<or> list_ex (\<lambda>q. pp_assignment q = ir_assignment x \<and> pp_status q = PpPending) (pendings d))
         then Inl (Conflict (STR ''PAYMENT_ALREADY_IN_PROGRESS''))
         else if lookup_by pp_reference reference (pendings d) \<noteq> None
         then Inl (Internal (STR ''P2002''))
         else Inr ((p, None), d\<lparr>pendings := pendings d @ [p], seq := Suc (seq d)\<rparr>))"

definition reusable :: "ident \<Rightarrow> payment_request \<Rightarrow> pending_payment \<Rightarrow> bool" where
  "reusable userId x p \<longleftrightarrow>
     pp_user p = userId \<and> pp_organization p = ir_organization x \<and> pp_assignment p = ir_assignment x \<and>
     pp_status p = PpPending"

definition claim_pending ::
    "checkout_env \<Rightarrow> nat \<Rightarrow> ident \<Rightarrow> payment_request \<Rightarrow> db \<Rightarrow> ((pending_payment \<times> string option) \<times> db) result" where
  "claim_pending env now userId x d =
     (if ir_assignment x \<noteq> None \<and> has_payment d (the (ir_assignment x))
      then Inl (BadRequest (STR ''This due has already been paid''))
      else case find (reusable userId x) (newest_first pp_created (pendings d)) of
        None \<Rightarrow> create_pending now userId x (platform_fee env) d
      | Some p \<Rightarrow>
          let close = (\<lambda>s. create_pending now userId x (platform_fee env) (upd_pending (pp_id p) (\<lambda>r. r\<lparr>pp_status := s\<rparr>) d))
          in if pp_created p + session_minutes \<le> now then close PpExpired
             else case pp_checkout p of
               None \<Rightarrow> Inr ((p, None), d)
             | Some c \<Rightarrow>
                 (case ce_get_session env c of
                    Inl _ \<Rightarrow> Inl (Conflict (STR ''PAYMENT_STATUS_UNAVAILABLE''))
                  | Inr checkout \<Rightarrow>
                      let status = upper_text (dot checkout ''status'')
                      in if status = ''OPEN'' then Inr ((p, text_of (dot checkout ''checkout_url'')), d)
                         else if status = ''EXPIRED'' then close PpExpired
                         else if status = ''CANCELLED'' then close PpCancelled
                         else Inl (Conflict (STR ''PAYMENT_ALREADY_IN_PROGRESS''))))"

record checkout_reply =
  cr_checkout :: "ident option"
  cr_url :: string
  cr_pending :: ident
  cr_base :: int
  cr_fee :: int
  cr_total :: int

definition number_or :: "int option \<Rightarrow> int \<Rightarrow> int" where
  "number_or x v = (case x of None \<Rightarrow> v | Some n \<Rightarrow> if n = 0 then v else n)"

text \<open>The checkout is opened for the requested amount and written to the pending row.\<close>

definition checkout_row :: "checkout_env \<Rightarrow> payment_request \<Rightarrow> pending_payment \<Rightarrow> ident \<Rightarrow> pending_payment \<Rightarrow> pending_payment" where
  "checkout_row env x p c r =
     r\<lparr>pp_checkout := Some c,
       pp_meta := (pp_meta p)\<lparr>pm_base := Some (ir_amount x), pm_platform_fee := Some (platform_fee env),
                              pm_expected := Some (ir_amount x + platform_fee env)\<rparr>\<rparr>"

definition attach_checkout ::
    "checkout_env \<Rightarrow> payment_request \<Rightarrow> pending_payment \<Rightarrow> ident \<Rightarrow> string \<Rightarrow> db \<Rightarrow> db \<times> checkout_reply result" where
  "attach_checkout env x p c u d =
     (if list_ex (\<lambda>q. pp_id q \<noteq> pp_id p \<and> pp_checkout q = Some c) (pendings d)
      then (d, Inl (Internal (STR ''P2002'')))
      else (upd_pending (pp_id p) (checkout_row env x p c) d,
            Inr \<lparr>cr_checkout = Some c, cr_url = u, cr_pending = pp_id p, cr_base = ir_amount x,
                 cr_fee = platform_fee env, cr_total = ir_amount x + platform_fee env\<rparr>))"

definition start_checkout ::
    "checkout_env \<Rightarrow> payment_request \<Rightarrow> pending_payment \<Rightarrow> db \<Rightarrow> db \<times> checkout_reply result" where
  "start_checkout env x p d =
     (let allowed = validateRedirectUrl (ce_url env) (ce_origins env)
      in case allowed (given (nonempty (ir_success_url x)) (ce_frontend env @ ''/payment/callback'')) of
           Inl e \<Rightarrow> (d, Inl e)
         | Inr _ \<Rightarrow>
             (case allowed (given (nonempty (ir_cancel_url x)) (ce_frontend env @ ''/payment/cancelled'')) of
                Inl e \<Rightarrow> (d, Inl e)
              | Inr _ \<Rightarrow>
                  (case ce_create_session env (pp_id p) (toBachsAmount (ir_amount x + platform_fee env)) of
                     Inl e \<Rightarrow> (d, Inl e)
                   | Inr (c, u) \<Rightarrow> attach_checkout env x p c u d)))"

text \<open>The reply for a checkout that is still open.\<close>

definition open_reply :: "pending_payment \<Rightarrow> string \<Rightarrow> checkout_reply" where
  "open_reply p u =
     \<lparr>cr_checkout = pp_checkout p, cr_url = u, cr_pending = pp_id p, cr_base = number_or (pm_base (pp_meta p)) (pp_amount p),
      cr_fee = number_or (pm_platform_fee (pp_meta p)) 0, cr_total = number_or (pm_expected (pp_meta p)) (pp_amount p)\<rparr>"

text \<open>
  \<open>initiatePayment\<close>. The pending row is committed before the addresses are checked and the
  checkout is created; an error there leaves it pending without a checkout.
\<close>

definition initiatePayment :: "checkout_env \<Rightarrow> nat \<Rightarrow> ident \<Rightarrow> payment_request \<Rightarrow> db \<Rightarrow> db \<times> checkout_reply result" where
  "initiatePayment env now userId x d =
     (if ir_amount x < MIN_BACHS_CHECKOUT_AMOUNT_KOBO
      then (d, Inl (BadRequest (STR ''Amount is below the minimum'')))
      else if lookup_by us_id userId (users d) = None then (d, Inl (NotFound (STR ''User not found'')))
      else case ce_customer env userId of
        Inl e \<Rightarrow> (d, Inl e)
      | Inr customer \<Rightarrow>
          thenDo (transaction (claim_pending env now userId x) d) (\<lambda>(p, url) d1.
            case url of Some u \<Rightarrow> (d1, Inr (open_reply p u)) | None \<Rightarrow> start_checkout env x p d1))"

section \<open>Completing a payment\<close>

text \<open>What the provider says was collected; the identifiers come from its metadata.\<close>

record completion =
  cn_checkout :: "ident option"
  cn_charge :: string
  cn_amount :: "rat option"
  cn_pending :: "ident option"
  cn_reference :: "string option"

definition names_pending :: "completion \<Rightarrow> pending_payment \<Rightarrow> bool" where
  "names_pending c p \<longleftrightarrow>
     (cn_checkout c \<noteq> None \<and> pp_checkout p = cn_checkout c) \<or> cn_pending c = Some (pp_id p) \<or>
     cn_reference c = Some (pp_reference p)"

definition expected_settlement :: "pending_payment \<Rightarrow> int" where
  "expected_settlement p =
     number_or (pm_expected (pp_meta p)) (pp_amount p + number_or (pm_platform_fee (pp_meta p)) 0)"

definition pending_fee :: "pending_payment \<Rightarrow> int" where
  "pending_fee p = number_or (pm_platform_fee (pp_meta p)) 0"

text \<open>The amount in kobo when it is a positive safe integer.\<close>

definition settled_amount :: "completion \<Rightarrow> int option" where
  "settled_amount c =
     (case cn_amount c of
        None \<Rightarrow> None
      | Some a \<Rightarrow> let k = fromBachsAmount a in if 0 < k \<and> k \<le> 2 ^ 53 - 1 then Some k else None)"

definition collection_account_data :: "string \<Rightarrow> owner_type \<Rightarrow> ident option \<Rightarrow> bool \<Rightarrow> ident \<Rightarrow> account_data" where
  "collection_account_data codePrefix ownerType owner system i =
     \<lparr>ac_code = codePrefix @ substring0 12 i, ac_type = ASSET, ac_category = CatCash, ac_owner_type = ownerType,
      ac_owner = owner, ac_wallet = Some i, ac_system = system\<rparr>"

text \<open>A wallet created inside the transaction, with its ledger account and the link.\<close>

definition create_collection_wallet ::
    "ident option \<Rightarrow> bool \<Rightarrow> (ident \<Rightarrow> account_data) \<Rightarrow> db \<Rightarrow> (wallet \<times> db) result" where
  "create_collection_wallet organization platform acct d =
     andThen (insert_wallet None organization platform d) (\<lambda>(w, d1).
     andThen (insert_account (acct (wl_id w)) d1) (\<lambda>(a, d2).
     Inr (w\<lparr>wl_account := Some (la_id a)\<rparr>, upd_wallet (wl_id w) (\<lambda>w. w\<lparr>wl_account := Some (la_id a)\<rparr>) d2)))"

definition organization_wallet :: "ident \<Rightarrow> db \<Rightarrow> (wallet \<times> db) result" where
  "organization_wallet g d =
     (case lookup_by wl_organization (Some g) (wallets d) of
        Some w \<Rightarrow> Inr (w, d)
      | None \<Rightarrow> create_collection_wallet (Some g) False
          (collection_account_data ''ORG-WALLET-'' OwnerOrganization (Some g) False) d)"

definition fee_wallet :: "int \<Rightarrow> db \<Rightarrow> (wallet option \<times> db) result" where
  "fee_wallet platformFee d =
     (case platform_wallet d of
        Some w \<Rightarrow> Inr (Some w, d)
      | None \<Rightarrow>
          if 0 < platformFee
          then andThen (create_collection_wallet None True (collection_account_data ''PLATFORM-WALLET-'' OwnerPlatform None True) d)
                 (\<lambda>(w, d'). Inr (Some w, d'))
          else Inr (None, d))"

definition settlement_account :: "db \<Rightarrow> (ledger_account \<times> db) result" where
  "settlement_account d =
     (case account_by_code d ''1200'' of
        Some a \<Rightarrow> Inr (a, d)
      | None \<Rightarrow> insert_account
          \<lparr>ac_code = ''1200'', ac_type = ASSET, ac_category = CatSettlement, ac_owner_type = OwnerSystem,
           ac_owner = None, ac_wallet = None, ac_system = True\<rparr> d)"

text \<open>The balances a read found, raised and written back.\<close>

definition write_wallet :: "ident \<Rightarrow> int \<Rightarrow> db \<Rightarrow> db" where
  "write_wallet k b d = upd_wallet k (\<lambda>r. r\<lparr>wl_balance := b\<rparr>) d"

definition write_account :: "ident \<Rightarrow> int \<Rightarrow> db \<Rightarrow> db" where
  "write_account a b d = upd_account a (\<lambda>r. r\<lparr>la_balance := b\<rparr>) d"

definition ledger_row :: "ident \<Rightarrow> ident \<Rightarrow> int \<Rightarrow> line_type \<Rightarrow> int \<Rightarrow> int \<Rightarrow> ledger_entry" where
  "ledger_row a t amount ty before after =
     \<lparr>le_account = a, le_transaction = t, le_amount = amount, le_type = ty, le_before = before, le_after = after\<rparr>"

definition collection_lines :: "ident \<Rightarrow> ident \<Rightarrow> ident option \<Rightarrow> int \<Rightarrow> int \<Rightarrow> int \<Rightarrow> journal_line list" where
  "collection_lines clearing orgAccount feeAccount settledAmount amount platformFee =
     [\<lparr>jl_account = clearing, jl_type = DEBIT, jl_amount = settledAmount\<rparr>,
      \<lparr>jl_account = orgAccount, jl_type = CREDIT, jl_amount = amount\<rparr>] @
     (case feeAccount of None \<Rightarrow> []
      | Some f \<Rightarrow> [\<lparr>jl_account = f, jl_type = CREDIT, jl_amount = platformFee\<rparr>])"

text \<open>
  The wallets, the ledger accounts and their entries, given the rows that were read: the
  organization's wallet with its account, the platform's when there is a fee, and the clearing
  account.
\<close>

definition move_collection ::
    "ident \<Rightarrow> wallet \<Rightarrow> ident \<Rightarrow> (wallet \<times> ident) option \<Rightarrow> ledger_account \<Rightarrow> int \<Rightarrow> int \<Rightarrow> int \<Rightarrow> db \<Rightarrow> db" where
  "move_collection t orgWallet orgAccount fee clearing amount platformFee settledAmount d =
     (let orgAfter = wl_balance orgWallet + amount;
          clearingAfter = la_balance clearing + settledAmount;
          d1 = d\<lparr>ledger_entries := ledger_entries d @
                 [ledger_row (la_id clearing) t settledAmount DEBIT (la_balance clearing) clearingAfter,
                  ledger_row orgAccount t amount CREDIT (wl_balance orgWallet) orgAfter] @
                 (case fee of None \<Rightarrow> []
                  | Some (w, a) \<Rightarrow> [ledger_row a t platformFee CREDIT (wl_balance w) (wl_balance w + platformFee)])\<rparr>;
          d2 = write_account orgAccount orgAfter (write_wallet (wl_id orgWallet) orgAfter d1);
          d3 = (case fee of None \<Rightarrow> d2
                | Some (w, a) \<Rightarrow> write_account a (wl_balance w + platformFee) (write_wallet (wl_id w) (wl_balance w + platformFee) d2))
      in write_account (la_id clearing) clearingAfter d3)"

text \<open>The rows of the transaction, the payment and the journal entry, linked to each other.\<close>

definition collection_rows ::
    "nat \<Rightarrow> pending_payment \<Rightarrow> completion \<Rightarrow> ident \<Rightarrow> ident \<Rightarrow> ident \<Rightarrow> wallet \<Rightarrow> journal_line list \<Rightarrow> int \<Rightarrow> int
      \<Rightarrow> transaction_row \<times> payment \<times> journal_entry" where
  "collection_rows now p c t pay e orgWallet lines platformFee settledAmount =
     (\<lparr>tr_id = t, tr_wallet = wl_id orgWallet, tr_type = CREDIT, tr_amount = settledAmount, tr_fee = platformFee,
       tr_net = pp_amount p, tr_reference = pp_reference p, tr_entry = Some e\<rparr>,
      \<lparr>pa_id = pay, pa_payer = pp_user p, pa_organization = pp_organization p, pa_transaction = Some t,
       pa_amount = pp_amount p, pa_service_fee = platformFee, pa_reference = pp_reference p, pa_entry = Some e,
       pa_charge = Some (cn_charge c)\<rparr>,
      \<lparr>je_id = e, je_reference = ''JE-BACHS-'' @ cn_charge c, je_description = ''External payment via Bachs'',
       je_transaction = Some t, je_payment = Some pay, je_withdrawal = None, je_date = now, je_status = POSTED,
       je_balanced = True, je_created_by = Some (pp_user p), je_lines = lines\<rparr>)"

definition collection_taken :: "pending_payment \<Rightarrow> completion \<Rightarrow> db \<Rightarrow> bool" where
  "collection_taken p c d \<longleftrightarrow>
     lookup_by tr_reference (pp_reference p) (txns d) \<noteq> None \<or>
     lookup_by pa_charge (Some (cn_charge c)) (payments d) \<noteq> None \<or>
     lookup_by je_reference (''JE-BACHS-'' @ cn_charge c) (entries d) \<noteq> None"

text \<open>The due, the pending row and the log.\<close>

definition pay_collected_due :: "nat \<Rightarrow> pending_payment \<Rightarrow> ident \<Rightarrow> db \<Rightarrow> (unit \<times> db) result" where
  "pay_collected_due now p pay d =
     (case pp_assignment p of
        None \<Rightarrow> Inr ((), d)
      | Some i \<Rightarrow> (case handleDuePayment now i pay (pp_amount p) d of
          Inl _ \<Rightarrow> Inl (BadRequest (STR ''This due has already been paid''))
        | Inr r \<Rightarrow> Inr r))"

definition completed_row :: "completion \<Rightarrow> pending_payment \<Rightarrow> pending_payment" where
  "completed_row c r = r\<lparr>pp_status := PpCompleted, pp_charge := Some (cn_charge c)\<rparr>"

definition finish_collection :: "nat \<Rightarrow> pending_payment \<Rightarrow> completion \<Rightarrow> payment \<Rightarrow> db \<Rightarrow> (payment \<times> db) result" where
  "finish_collection now p c pa d =
     andThen (pay_collected_due now p (pa_id pa) d) (\<lambda>(_, d').
     Inr (pa, log_activity (Some (pp_user p)) (STR ''PAYMENT_COMPLETED_VIA_BACHS'')
       (upd_pending (pp_id p) (completed_row c) d')))"

definition record_collection ::
    "nat \<Rightarrow> pending_payment \<Rightarrow> completion \<Rightarrow> int \<Rightarrow> wallet \<Rightarrow> ident \<Rightarrow> (wallet \<times> ident) option \<Rightarrow> ledger_account \<Rightarrow> db
      \<Rightarrow> (payment \<times> db) result" where
  "record_collection now p c settledAmount orgWallet orgAccount fee clearing d =
     (let lines = collection_lines (la_id clearing) orgAccount (map_option snd fee) settledAmount (pp_amount p) (pending_fee p)
      in case collection_rows now p c (fresh_id d) (idgen d (seq d + 1)) (idgen d (seq d + 2)) orgWallet lines
                (pending_fee p) settledAmount of
           (tr, pa, je) \<Rightarrow>
             if collection_taken p c d then Inl (Internal (STR ''P2002''))
             else
               let d1 = move_collection (fresh_id d) orgWallet orgAccount fee clearing (pp_amount p) (pending_fee p) settledAmount d
               in finish_collection now p c pa
                    (d1\<lparr>txns := txns d1 @ [tr], payments := payments d1 @ [pa], entries := entries d1 @ [je], seq := seq d1 + 3\<rparr>))"

definition complete_new ::
    "nat \<Rightarrow> pending_payment \<Rightarrow> completion \<Rightarrow> db \<Rightarrow> (payment \<times> db) result" where
  "complete_new now p c d =
     andThen (require (pp_status p = PpPending) (BadRequest (STR ''Payment cannot be completed from this status''))) (\<lambda>_.
     andThen (require_some (settled_amount c) (BadRequest (STR ''Provider returned an invalid amount''))) (\<lambda>k.
     andThen (require (k = expected_settlement p) (BadRequest (STR ''Payment settlement mismatch''))) (\<lambda>_.
     andThen (require (pp_checkout p = None \<or> cn_checkout c = pp_checkout p)
       (BadRequest (STR ''Checkout ID does not match payment''))) (\<lambda>_.
     andThen (organization_wallet (pp_organization p) d) (\<lambda>(ow, d1).
     andThen (require (wl_status ow = WalletActive \<and> wl_account ow \<noteq> None)
       (BadRequest (STR ''Organization wallet or ledger account is not active''))) (\<lambda>_.
     andThen (fee_wallet (pending_fee p) d1) (\<lambda>(pw, d2).
     andThen (require (\<not> (0 < pending_fee p) \<or> (case pw of None \<Rightarrow> False | Some w \<Rightarrow> wl_status w = WalletActive \<and> wl_account w \<noteq> None))
       (BadRequest (STR ''Platform wallet or ledger account is not active''))) (\<lambda>_.
     andThen (settlement_account d2) (\<lambda>(clearing, d3).
     record_collection now p c k ow (the (wl_account ow))
       (if 0 < pending_fee p then map_option (\<lambda>w. (w, the (wl_account w))) pw else None) clearing d3)))))))))"

text \<open>
  \<open>completePayment\<close>: the pending payment that any identifier names; a payment that exists under its
  reference is returned as already processed.
\<close>

definition complete_transaction :: "nat \<Rightarrow> completion \<Rightarrow> db \<Rightarrow> ((payment \<times> bool) \<times> db) result" where
  "complete_transaction now c d =
     (case find (names_pending c) (pendings d) of
        None \<Rightarrow> Inl (NotFound (STR ''Pending payment not found for checkout''))
      | Some p \<Rightarrow>
          (case payment_by_reference d (pp_reference p) of
             Some pa \<Rightarrow> Inr ((pa, True), d)
           | None \<Rightarrow> andThen (complete_new now p c d) (\<lambda>(pa, d'). Inr ((pa, False), d'))))"

definition completePayment :: "nat \<Rightarrow> completion \<Rightarrow> db \<Rightarrow> db \<times> (payment \<times> bool) result" where
  "completePayment now c d = transaction (complete_transaction now c) d"

section \<open>Cancelling, expiring, retrying\<close>

definition cancelPendingPayment :: "ident \<Rightarrow> ident option \<Rightarrow> db \<Rightarrow> db \<times> unit result" where
  "cancelPendingPayment i userId d =
     (case get_pending d i of
        None \<Rightarrow> (d, Inl (NotFound (STR ''Pending payment not found'')))
      | Some p \<Rightarrow>
          if userId \<noteq> None \<and> userId \<noteq> Some (pp_user p)
          then (d, Inl (Forbidden (STR ''You do not have access to this payment'')))
          else if pp_status p \<noteq> PpPending then (d, Inl (BadRequest (STR ''Payment is not pending'')))
          else (upd_pending i (\<lambda>r. r\<lparr>pp_status := PpCancelled\<rparr>) d, Inr ()))"

text \<open>\<open>cleanupExpiredPayments\<close> replaces the metadata, and with it the fee and the expected amount.\<close>

definition cleanupExpiredPayments :: "nat \<Rightarrow> db \<Rightarrow> db \<times> nat" where
  "cleanupExpiredPayments now d =
     (let old = (\<lambda>p. pp_status p = PpPending \<and> pp_created p < now - session_minutes)
      in (d\<lparr>pendings := update_where old (\<lambda>r. r\<lparr>pp_status := PpExpired,
              pp_meta := \<lparr>pm_base = None, pm_platform_fee = None, pm_expected = None, pm_retries = None\<rparr>\<rparr>) (pendings d)\<rparr>,
          length (filter old (pendings d))))"

definition retryFailedPayment :: "ident \<Rightarrow> db \<Rightarrow> db \<times> int result" where
  "retryFailedPayment i d =
     (case get_pending d i of
        None \<Rightarrow> (d, Inl (NotFound (STR ''Pending payment not found'')))
      | Some p \<Rightarrow>
          if pp_status p \<noteq> PpFailed then (d, Inl (BadRequest (STR ''Payment is not in failed state'')))
          else
            let retryCount = given (pm_retries (pp_meta p)) 0 + 1
            in if 3 < retryCount then (d, Inl (BadRequest (STR ''Maximum retry attempts exceeded'')))
               else if pp_assignment p \<noteq> None \<and>
                 list_ex (\<lambda>q. pp_id q \<noteq> i \<and> pp_assignment q = pp_assignment p \<and> pp_status q = PpPending) (pendings d)
               then (d, Inl (Internal (STR ''P2002'')))
               else (upd_pending i (\<lambda>r. r\<lparr>pp_status := PpPending, pp_meta := (pp_meta r)\<lparr>pm_retries := Some retryCount\<rparr>\<rparr>) d,
                     Inr retryCount))"

datatype payment_check = Valid | BelowMinimum | NoUser | NoOrganization | NoMember

definition validatePayment :: "ident \<Rightarrow> ident \<Rightarrow> int \<Rightarrow> db \<Rightarrow> payment_check" where
  "validatePayment userId organizationId amount d =
     (if amount < MIN_BACHS_CHECKOUT_AMOUNT_KOBO then BelowMinimum
      else if lookup_by us_id userId (users d) = None then NoUser
      else if lookup_by og_id organizationId (orgs d) = None then NoOrganization
      else if \<not> is_member d userId organizationId then NoMember
      else Valid)"

section \<open>The status of a payment\<close>

text \<open>The charge, amount and customer members of a checkout that the provider reports as paid.\<close>

definition provider_payment :: "json \<Rightarrow> json" where
  "provider_payment checkout =
     first_of [dot checkout ''payment'', dot checkout ''charge'', dot checkout ''collection'', checkout]"

definition charge_of :: "json \<Rightarrow> json" where
  "charge_of pay = first_of [dot pay ''payment_id'', dot pay ''charge_id'', dot pay ''id'']"

text \<open>\<open>typeof x === 'object' ? x.value || x.amount : x\<close>.\<close>

fun plain_amount :: "json \<Rightarrow> json" where
  "plain_amount (Obj ms) = or_else_js (dot (Obj ms) ''value'') (dot (Obj ms) ''amount'')"
| "plain_amount v = v"

definition checkout_completion :: "ident \<Rightarrow> string \<Rightarrow> json \<Rightarrow> json \<Rightarrow> completion" where
  "checkout_completion checkoutId chargeId amount meta =
     \<lparr>cn_checkout = Some checkoutId, cn_charge = chargeId, cn_amount = number_of_json amount,
      cn_pending = text_of (first_of [dot meta ''pendingPaymentId'', dot (dot meta ''metadata'') ''pendingPaymentId'']),
      cn_reference = text_of (first_of [dot meta ''internalReference'', dot (dot meta ''metadata'') ''internalReference''])\<rparr>"

text \<open>The check with the provider, whose errors are logged and ignored.\<close>

definition refresh_pending :: "checkout_env \<Rightarrow> nat \<Rightarrow> pending_payment \<Rightarrow> db \<Rightarrow> db" where
  "refresh_pending env now p d =
     (case pp_checkout p of
        None \<Rightarrow> d
      | Some c \<Rightarrow>
          if pp_status p \<noteq> PpPending then d
          else case ce_get_session env c of
            Inl _ \<Rightarrow> d
          | Inr checkout \<Rightarrow>
              let status = upper_text (dot checkout ''status'')
              in if status \<in> {''COMPLETED'', ''SUCCEEDED''} then
                   let pay = provider_payment checkout;
                       amount = first_of [dot pay ''settlement_amount'', dot pay ''amount_paid'', dot pay ''amount'',
                                  dot (dot checkout ''pricing'') ''amount'']
                   in (case printed (charge_of pay) of
                         None \<Rightarrow> d
                       | Some ch \<Rightarrow>
                           if truthy (charge_of pay) \<and> \<not> nullish amount
                           then fst (completePayment now (checkout_completion c ch (plain_amount amount)
                                  (or_else_js (dot checkout ''metadata'') (dot pay ''metadata''))) d)
                           else d)
                 else if status = ''EXPIRED'' then upd_pending (pp_id p) (\<lambda>r. r\<lparr>pp_status := PpExpired\<rparr>) d
                 else if status = ''CANCELLED'' then upd_pending (pp_id p) (\<lambda>r. r\<lparr>pp_status := PpCancelled\<rparr>) d
                 else d)"

datatype shown_status = Shown pending_status | Processing
datatype next_action = SHOW_SUCCESS | RETRY_PAYMENT | RETRY_CHECKOUT_CREATION | WAIT_FOR_CONFIRMATION

definition shown_status_of :: "db \<Rightarrow> pending_payment \<Rightarrow> shown_status" where
  "shown_status_of d p =
     (if pp_status p = PpPending \<and> payment_by_reference d (pp_reference p) \<noteq> None then Shown PpCompleted
      else if pp_status p = PpPending \<and> pp_checkout p \<noteq> None then Processing
      else Shown (pp_status p))"

definition retryable :: "shown_status \<Rightarrow> bool" where
  "retryable s \<longleftrightarrow> s \<in> {Shown PpFailed, Shown PpExpired, Shown PpCancelled}"

definition next_action_of :: "shown_status \<Rightarrow> next_action" where
  "next_action_of s =
     (if s = Shown PpCompleted then SHOW_SUCCESS
      else if retryable s then RETRY_PAYMENT
      else if s = Shown PpPending then RETRY_CHECKOUT_CREATION
      else WAIT_FOR_CONFIRMATION)"

definition getPendingPaymentStatus ::
    "checkout_env \<Rightarrow> nat \<Rightarrow> ident \<Rightarrow> ident \<Rightarrow> db \<Rightarrow> db \<times> (shown_status \<times> next_action) result" where
  "getPendingPaymentStatus env now i userId d =
     (case get_pending d i of
        None \<Rightarrow> (d, Inl (NotFound (STR ''Pending payment not found'')))
      | Some p \<Rightarrow>
          if pp_user p \<noteq> userId then (d, Inl (Forbidden (STR ''You do not have access to this payment'')))
          else
            let d' = refresh_pending env now p d;
                s = shown_status_of d' (case get_pending d' i of None \<Rightarrow> p | Some p' \<Rightarrow> p')
            in (d', Inr (s, next_action_of s)))"

end
