(* ===== verification/CollectionBooks.thy ===== *)
theory CollectionBooks
  imports Prelude FinanceDb Ledger Wallets Dues Books Collections
begin

text \<open>
  What completing a payment does to the books. The wallets and the clearing account are opened when
  they are missing, then the collection is one movement: the amount to the organization, the fee to
  the platform, the settlement to the clearing account. The lemmas decompose \<open>completePayment\<close>
  into these steps and say what each leaves of the tables.
\<close>

section \<open>Writing a balance that was read\<close>

lemma movement_write_wallet:
  assumes "map_option wl_balance (get_wallet d k) = Some b"
  shows "movement (\<lambda>i. if i = k then b' - b else 0) (\<lambda>_. 0) d (write_wallet k b' d)"
proof -
  define f :: "wallet \<Rightarrow> wallet" where "f = (\<lambda>r. r\<lparr>wl_balance := b'\<rparr>)"
  obtain w where w: "get_wallet d k = Some w" "wl_balance w = b" using assms by (cases "get_wallet d k") simp_all
  have "movement (\<lambda>i. if i = k then b' - b else 0) (\<lambda>_. 0) d (upd_wallet k f d)"
    by (rule movement_upd_wallet [OF w(1)]) (simp_all add: f_def w(2))
  then show ?thesis by (simp add: write_wallet_def f_def)
qed

lemma movement_upd_account:
  assumes "get_account d k = Some a"
    and "\<And>r. la_id (f r) = la_id r" and "\<And>r. la_wallet (f r) = la_wallet r" and "\<And>r. la_code (f r) = la_code r"
    and "la_balance (f a) = la_balance a + x"
  shows "movement (\<lambda>_. 0) (moved (Some k) x) d (upd_account k f d)"
proof -
  have "keys_ok (upd_account k f d)" if "keys_ok d"
    using that by (rule keys_ok_cong) (simp_all add: table_simps assms(2))
  moreover have "map_option (\<lambda>a. (la_wallet a, la_balance a)) (get_account (upd_account k f d) i) =
      map_option (\<lambda>a. (la_wallet a, la_balance a + moved (Some k) x i)) (get_account d i)" for i
    using assms(1,3,5) by (cases "i = k") (simp_all add: table_simps assms(2))
  moreover have "map_option la_wallet (account_by_code (upd_account k f d) c) = map_option la_wallet (account_by_code d c)"
    and "map_option la_id (account_by_code (upd_account k f d) c) = map_option la_id (account_by_code d c)" for c
    by (cases "account_by_code d c"; simp add: lookup_by_update_by_other assms(2-4))+
  ultimately show ?thesis
    by (simp add: movement_def postings_ok_def clearing_id_def table_simps assms(2,3))
qed

lemma movement_write_account:
  assumes "map_option la_balance (get_account d k) = Some b"
  shows "movement (\<lambda>_. 0) (moved (Some k) (b' - b)) d (write_account k b' d)"
proof -
  define f :: "ledger_account \<Rightarrow> ledger_account" where "f = (\<lambda>r. r\<lparr>la_balance := b'\<rparr>)"
  obtain a where a: "get_account d k = Some a" "la_balance a = b" using assms by (cases "get_account d k") simp_all
  have "movement (\<lambda>_. 0) (moved (Some k) (b' - b)) d (upd_account k f d)"
    by (rule movement_upd_account [OF a(1)]) (simp_all add: f_def a(2))
  then show ?thesis by (simp add: write_account_def f_def)
qed

lemma movement_credit:
  assumes "map_option wl_balance (get_wallet d k) = Some b" and "map_option la_balance (get_account d a) = Some b"
  shows "movement (\<lambda>i. if i = k then x else 0) (moved (Some a) x) d
    (write_account a (b + x) (write_wallet k (b + x) d))"
proof -
  have w: "movement (\<lambda>i. if i = k then b + x - b else 0) (\<lambda>_. 0) d (write_wallet k (b + x) d)"
    by (rule movement_write_wallet [OF assms(1)])
  have a: "movement (\<lambda>_. 0) (moved (Some a) (b + x - b)) (write_wallet k (b + x) d)
    (write_account a (b + x) (write_wallet k (b + x) d))"
    by (rule movement_write_account) (simp add: write_wallet_def assms(2))
  show ?thesis by (rule movement_cong [OF movement_trans [OF w a]]) simp_all
qed

lemma write_wallet_frame [simp]:
  "accounts (write_wallet k b d) = accounts d" "entries (write_wallet k b d) = entries d"
  "map wl_id (wallets (write_wallet k b d)) = map wl_id (wallets d)"
  "map wl_organization (wallets (write_wallet k b d)) = map wl_organization (wallets d)"
  by (simp_all add: write_wallet_def table_simps)

lemma write_account_frame [simp]:
  "wallets (write_account k b d) = wallets d" "entries (write_account k b d) = entries d"
  by (simp_all add: write_account_def)

lemma get_write_wallet:
  "map_option wl_balance (get_wallet (write_wallet k b d) i) =
     map_option (\<lambda>w. if i = k then b else wl_balance w) (get_wallet d i)"
  by (cases "get_wallet d i"; cases "i = k") (simp_all add: write_wallet_def table_simps)

lemma get_write_account:
  "map_option la_balance (get_account (write_account k b d) i) =
     map_option (\<lambda>a. if i = k then b else la_balance a) (get_account d i)"
  by (cases "get_account d i"; cases "i = k") (simp_all add: write_account_def table_simps)

lemma total_write_wallet:
  assumes "distinct (map wl_id (wallets d))" and "map_option wl_balance (get_wallet d k) = Some b"
  shows "total wl_balance (wallets (write_wallet k b' d)) = total wl_balance (wallets d) + (b' - b)"
proof -
  define f :: "wallet \<Rightarrow> wallet" where "f = (\<lambda>r. r\<lparr>wl_balance := b'\<rparr>)"
  obtain w where w: "get_wallet d k = Some w" "wl_balance w = b" using assms(2) by (cases "get_wallet d k") simp_all
  from sum_update_by [OF assms(1) w(1), of wl_balance f] show ?thesis
    by (simp add: total_def write_wallet_def f_def w(2))
qed

section \<open>Opening what is missing\<close>

lemma create_collection_walletD:
  assumes "create_collection_wallet g platform acct d = Inr (w, d')" and "keys_ok d"
  shows "open_wallet None g platform acct act d = Inr (w, log_activity (fst act) (snd act) d')"
proof -
  have no: "get_wallet d (fresh_id d) = None"
    using assms(2) by (auto simp: keys_ok_def lookup_by_None dest: fresh_id_unused)
  then show ?thesis
    using assms(1)
    by (auto simp: create_collection_wallet_def open_wallet_def insert_wallet_def insert_account_def Let_def
        result_simps table_simps new_wallet_def new_account_def log_activity_def split: if_splits)
qed

lemma ledger_ok_log: "ledger_ok (log_activity u a d) \<longleftrightarrow> ledger_ok d"
  and trial_log: "trial_balance (log_activity u a d) = trial_balance d"
proof -
  have m: "movement (\<lambda>_. 0) (\<lambda>_. 0) d (log_activity u a d)" "movement (\<lambda>_. 0) (\<lambda>_. 0) (log_activity u a d) d"
    by (rule movement_frame; simp add: log_activity_def)+
  then show "ledger_ok (log_activity u a d) \<longleftrightarrow> ledger_ok d"
    using movement_still [of d "log_activity u a d"] movement_still [of "log_activity u a d" d]
    by (auto simp: keeps_ledger_def)
  show "trial_balance (log_activity u a d) = trial_balance d" by (simp add: trial_balance_def log_activity_def)
qed

text \<open>The platform's wallet belongs to no organization.\<close>

definition platform_apart :: "db \<Rightarrow> bool" where
  "platform_apart d \<longleftrightarrow> list_all (\<lambda>(p, g). p \<longrightarrow> g = None) (map (\<lambda>w. (wl_platform w, wl_organization w)) (wallets d))"

lemma platform_apartD: "platform_apart d \<Longrightarrow> w \<in> set (wallets d) \<Longrightarrow> wl_platform w \<Longrightarrow> wl_organization w = None"
  by (auto simp: platform_apart_def list_all_iff)

lemma keys_of_ledger: "ledger_ok d \<Longrightarrow> keys_ok d" and books_of_ledger: "ledger_ok d \<Longrightarrow> books_ok d"
  by (simp_all add: ledger_ok_def books_ok_def)

lemma get_wallet_mem: "keys_ok d \<Longrightarrow> w \<in> set (wallets d) \<Longrightarrow> get_wallet d (wl_id w) = Some w"
  by (rule lookup_by_distinct) (simp_all add: keys_ok_def)

lemma organization_walletD:
  assumes "organization_wallet g d = Inr (w, d')" and "ledger_ok d"
  shows "ledger_ok d'" and "trial_balance d' = trial_balance d" and "w \<in> set (wallets d')"
    and "wl_organization w = Some g" and "total wl_balance (wallets d') = total wl_balance (wallets d)"
    and "platform_apart d \<Longrightarrow> platform_apart d'"
    and "lookup_by wl_organization (Some g) (wallets d) = Some w \<Longrightarrow> d' = d"
proof -
  have "ledger_ok d' \<and> trial_balance d' = trial_balance d \<and> w \<in> set (wallets d')
    \<and> wl_organization w = Some g \<and> total wl_balance (wallets d') = total wl_balance (wallets d)
    \<and> (platform_apart d \<longrightarrow> platform_apart d')"
  proof (cases "lookup_by wl_organization (Some g) (wallets d)")
    case (Some v)
    with assms show ?thesis by (auto simp: organization_wallet_def lookup_by_mem)
  next
    case None
    define acct where "acct = collection_account_data ''ORG-WALLET-'' OwnerOrganization (Some g) False"
    have "create_collection_wallet (Some g) False acct d = Inr (w, d')"
      using assms(1) None by (simp add: organization_wallet_def acct_def)
    from create_collection_walletD [OF this keys_of_ledger [OF assms(2)], of "(None, STR '''')"]
    have o: "open_wallet None (Some g) False acct (None, STR '''') d = Inr (w, log_activity None (STR '''') d')" by simp
    note D = open_wallet_InrD [OF o keys_of_ledger [OF assms(2)]]
    have "keeps_ledger d (log_activity None (STR '''') d')"
      by (rule open_wallet_keeps [OF o]) (simp_all add: acct_def collection_account_data_def system_codes_def)
    then have "ledger_ok d' \<and> trial_balance d' = trial_balance d"
      using assms(2) by (simp add: keeps_ledger_def ledger_ok_log trial_log)
    moreover have "wallets d' = wallets d @ [w]"
      using arg_cong [OF D(2), of wallets] by (simp add: log_activity_def)
    ultimately show ?thesis
      by (simp add: D(1) opened_wallet_def new_wallet_def total_def platform_apart_def)
  qed
  then show "ledger_ok d'" and "trial_balance d' = trial_balance d" and "w \<in> set (wallets d')"
    and "wl_organization w = Some g" and "total wl_balance (wallets d') = total wl_balance (wallets d)"
    and "platform_apart d \<Longrightarrow> platform_apart d'" by blast+
  show "d' = d" if "lookup_by wl_organization (Some g) (wallets d) = Some w"
    using assms(1) that by (simp add: organization_wallet_def)
qed


lemma fee_walletD:
  assumes "fee_wallet f d = Inr (pw, d')" and "ledger_ok d"
  shows "d' = d" and "\<exists>w. pw = Some w \<and> w \<in> set (wallets d) \<and> wl_platform w" and "pw = platform_wallet d"
proof -
  obtain w where w: "platform_wallet d = Some w" using platform_wallet_open [OF assms(2)] by blast
  with assms(1) show "d' = d" by (simp add: fee_wallet_def)
  have pw: "pw = Some w" using assms(1) w by (simp add: fee_wallet_def)
  then show "pw = platform_wallet d" using w by simp
  note pw
  with find_SomeD [OF w] show "\<exists>w. pw = Some w \<and> w \<in> set (wallets d) \<and> wl_platform w" by blast
qed

lemma settlement_accountD:
  assumes "settlement_account d = Inr (a, d')" and "ledger_ok d"
  shows "ledger_ok d'" and "trial_balance d' = trial_balance d" and "wallets d' = wallets d"
    and "map_option la_wallet (get_account d' (la_id a)) = Some None" and "a \<in> set (accounts d')"
proof -
  note b = books_of_ledger [OF assms(2)]
  have code: "''1200'' \<in> set system_codes" by (simp add: system_codes_def)
  have "ledger_ok d' \<and> trial_balance d' = trial_balance d \<and> wallets d' = wallets d
    \<and> map_option la_wallet (get_account d' (la_id a)) = Some None \<and> a \<in> set (accounts d')"
  proof (cases "account_by_code d ''1200''")
    case (Some r)
    with assms(1) have "d' = d" "a = r" by (simp_all add: settlement_account_def)
    with Some assms(2) system_account_present [OF b Some code] show ?thesis by (simp add: lookup_by_mem)
  next
    case None
    define x where "x = \<lparr>ac_code = ''1200'', ac_type = ASSET, ac_category = CatSettlement,
      ac_owner_type = OwnerSystem, ac_owner = None, ac_wallet = None, ac_system = True\<rparr>"
    have i: "insert_account x d = Inr (a, d')" using assms(1) None by (simp add: settlement_account_def x_def)
    have x: "ac_code x \<in> set system_codes" "ac_wallet x = None" using code by (simp_all add: x_def)
    note S = insert_system_account [OF i b x]
    have "account_by_code d ''1100'' \<noteq> None" using assms(2) by (simp add: ledger_ok_def accounts_open_def clearing_id_def)
    then have "clearing_id d' = clearing_id d" by (simp add: clearing_id_def S(10))
    with assms(2) S(1-8) have "ledger_ok d'" by (simp add: ledger_ok_def accounts_open_def postings_ok_def)
    with S(2-5) show ?thesis using lookup_by_mem [OF S(3)] by simp
  qed
  then show "ledger_ok d'" and "trial_balance d' = trial_balance d" and "wallets d' = wallets d"
    and "map_option la_wallet (get_account d' (la_id a)) = Some None" and "a \<in> set (accounts d')" by blast+
qed

text \<open>
  The tables that the openings do not write: whatever is read of the database without wallets,
  accounts and the counter of identifiers stays the same.
\<close>

lemma create_collection_wallet_frame:
  assumes "create_collection_wallet g platform acct d = Inr (w, d')"
    and "\<And>x d. P (wallets_update x d) = P d" and "\<And>x d. P (accounts_update x d) = P d"
    and "\<And>x d. P (seq_update x d) = P d"
  shows "P d' = P d" and "seq d \<le> seq d'"
proof -
  obtain w1 d1 where 1: "insert_wallet None g platform d = Inr (w1, d1)"
    using assms(1) by (cases "insert_wallet None g platform d") (auto simp: create_collection_wallet_def)
  then have d1: "d1 = seq_update (\<lambda>_. Suc (seq d)) (wallets_update (\<lambda>_. wallets d @ [w1]) d)"
    by (auto simp: insert_wallet_def Let_def split: if_splits)
  obtain a d2 where 2: "insert_account (acct (wl_id w1)) d1 = Inr (a, d2)"
    using assms(1) 1 by (cases "insert_account (acct (wl_id w1)) d1") (auto simp: create_collection_wallet_def)
  then have d2: "d2 = seq_update (\<lambda>_. Suc (seq d1)) (accounts_update (\<lambda>_. accounts d1 @ [a]) d1)"
    by (auto simp: insert_account_def Let_def split: if_splits)
  have d': "d' = upd_wallet (wl_id w1) (\<lambda>w. w\<lparr>wl_account := Some (la_id a)\<rparr>) d2"
    using assms(1) 1 2 by (simp add: create_collection_wallet_def)
  show "P d' = P d" by (simp only: d' d2 d1 assms(2-4))
  show "seq d \<le> seq d'" by (simp add: d' d2 d1)
qed

lemma opening_frame:
  assumes "\<And>x d. P (wallets_update x d) = P d" and "\<And>x d. P (accounts_update x d) = P d"
    and "\<And>x d. P (seq_update x d) = P d"
  shows "organization_wallet g d = Inr (w, d') \<Longrightarrow> P d' = P d"
    and "fee_wallet f d = Inr (pw, d') \<Longrightarrow> P d' = P d"
    and "settlement_account d = Inr (a, d') \<Longrightarrow> P d' = P d"
  using create_collection_wallet_frame(1) [where P = P, OF _ assms]
  by (auto simp: organization_wallet_def fee_wallet_def settlement_account_def insert_account_def Let_def assms
      result_simps split: option.splits if_splits)


section \<open>The movement of a collection\<close>

text \<open>What \<open>move_collection\<close> reads: rows of the database it runs on, mirrored, and apart.\<close>

definition collection_reads :: "db \<Rightarrow> wallet \<Rightarrow> ident \<Rightarrow> (wallet \<times> ident) option \<Rightarrow> ledger_account \<Rightarrow> bool" where
  "collection_reads d ow oa fee cl \<longleftrightarrow>
     get_wallet d (wl_id ow) = Some ow \<and> wl_account ow = Some oa \<and>
     (case fee of None \<Rightarrow> True
      | Some (w, a) \<Rightarrow> get_wallet d (wl_id w) = Some w \<and> wl_account w = Some a \<and> wl_id w \<noteq> wl_id ow) \<and>
     get_account d (la_id cl) = Some cl \<and> la_wallet cl = None"

definition collection_wallets :: "wallet \<Rightarrow> (wallet \<times> ident) option \<Rightarrow> int \<Rightarrow> int \<Rightarrow> ident \<Rightarrow> int" where
  "collection_wallets ow fee amount platformFee k =
     (if k = wl_id ow then amount else 0) +
     (case fee of None \<Rightarrow> 0 | Some (w, _) \<Rightarrow> if k = wl_id w then platformFee else 0)"

definition collection_accounts ::
    "ident \<Rightarrow> (wallet \<times> ident) option \<Rightarrow> ledger_account \<Rightarrow> int \<Rightarrow> int \<Rightarrow> int \<Rightarrow> ident \<Rightarrow> int" where
  "collection_accounts oa fee cl amount platformFee settled i =
     moved (Some oa) amount i +
     (case fee of None \<Rightarrow> 0 | Some (_, a) \<Rightarrow> moved (Some a) platformFee i) + moved (Some (la_id cl)) settled i"

lemma linked_account:
  assumes "books_ok d" and "get_wallet d (wl_id w) = Some w" and "wl_account w = Some a"
  shows "map_option la_balance (get_account d a) = Some (wl_balance w)"
    and "map_option la_wallet (get_account d a) = Some (Some (wl_id w))"
  using assms mirrorD [of d "wl_id w" w a] links_okD [of d "wl_id w" w a] by (simp_all add: books_ok_def)

lemma move_collection_movement:
  assumes r: "collection_reads d ow oa fee cl" and b: "books_ok d"
  shows "movement (collection_wallets ow fee amount platformFee) (collection_accounts oa fee cl amount platformFee settled)
    d (move_collection t ow oa fee cl amount platformFee settled d)"
proof -
  have ow: "get_wallet d (wl_id ow) = Some ow" "wl_account ow = Some oa"
    and cl: "get_account d (la_id cl) = Some cl" "la_wallet cl = None"
    using r by (simp_all add: collection_reads_def)
  note oacc = linked_account [OF b ow]
  have oc: "oa \<noteq> la_id cl" using oacc(2) cl by auto
  let ?amt = "wl_balance ow + amount"
  define d1 where "d1 = d\<lparr>ledger_entries := ledger_entries (move_collection t ow oa fee cl amount platformFee settled d)\<rparr>"
  define d2 where "d2 = write_account oa ?amt (write_wallet (wl_id ow) ?amt d1)"
  have d1 [simp]: "wallets d1 = wallets d" "accounts d1 = accounts d" by (simp_all add: d1_def)
  have m1: "movement (\<lambda>_. 0) (\<lambda>_. 0) d d1" by (rule movement_frame) (simp_all add: d1_def)
  have m2: "movement (\<lambda>k. if k = wl_id ow then amount else 0) (moved (Some oa) amount) d1 d2"
    unfolding d2_def using ow oacc(1) by (intro movement_credit) simp_all
  have b1: "map_option la_balance (get_account d2 i) = (if i = oa then Some ?amt else map_option la_balance (get_account d i))" for i
    using oacc(1) by (cases "i = oa"; cases "get_account d i") (auto simp: d2_def get_write_account)
  show ?thesis
  proof (cases fee)
    case None
    have m3: "movement (\<lambda>_. 0) (moved (Some (la_id cl)) (la_balance cl + settled - la_balance cl)) d2
      (write_account (la_id cl) (la_balance cl + settled) d2)"
      using cl oc by (intro movement_write_account) (simp add: b1)
    have eq: "move_collection t ow oa fee cl amount platformFee settled d = write_account (la_id cl) (la_balance cl + settled) d2"
      by (simp add: None move_collection_def d2_def d1_def Let_def write_account_def write_wallet_def)
    show ?thesis
      unfolding eq by (rule movement_cong [OF movement_trans [OF m1 movement_trans [OF m2 m3]]])
        (simp_all add: None collection_wallets_def collection_accounts_def)
  next
    case (Some wa)
    obtain w a where f: "fee = Some (w, a)" using Some by (cases wa) simp
    have w: "get_wallet d (wl_id w) = Some w" "wl_account w = Some a" "wl_id w \<noteq> wl_id ow"
      using r by (simp_all add: collection_reads_def f)
    note facc = linked_account [OF b w(1,2)]
    have ne: "a \<noteq> oa" "a \<noteq> la_id cl" using facc(2) oacc(2) w(3) cl by auto
    define d3 where "d3 = write_account a (wl_balance w + platformFee) (write_wallet (wl_id w) (wl_balance w + platformFee) d2)"
    have m3: "movement (\<lambda>k. if k = wl_id w then platformFee else 0) (moved (Some a) platformFee) d2 d3"
      unfolding d3_def
    proof (rule movement_credit)
      show "map_option wl_balance (get_wallet d2 (wl_id w)) = Some (wl_balance w)"
        using w by (simp add: d2_def get_write_wallet)
    qed (simp add: b1 ne facc(1))
    have m4: "movement (\<lambda>_. 0) (moved (Some (la_id cl)) (la_balance cl + settled - la_balance cl)) d3
      (write_account (la_id cl) (la_balance cl + settled) d3)"
    proof (rule movement_write_account)
      have "map_option la_balance (get_account d3 (la_id cl)) = map_option la_balance (get_account d2 (la_id cl))"
        using ne(2) by (cases "get_account d2 (la_id cl)") (auto simp: d3_def get_write_account)
      then show "map_option la_balance (get_account d3 (la_id cl)) = Some (la_balance cl)"
        using cl oc by (simp add: b1)
    qed
    have eq: "move_collection t ow oa fee cl amount platformFee settled d = write_account (la_id cl) (la_balance cl + settled) d3"
      by (simp add: f move_collection_def d3_def d2_def d1_def Let_def write_account_def write_wallet_def)
    show ?thesis
      unfolding eq by (rule movement_cong [OF movement_trans [OF m1 movement_trans [OF m2 movement_trans [OF m3 m4]]]])
        (simp_all add: f collection_wallets_def collection_accounts_def)
  qed
qed


lemma sum_off: "k \<notin> set ks \<Longrightarrow> sum_list (map (\<lambda>i. if i = k then x else 0) ks) = (0 :: int)"
  by (induction ks) auto

lemma sum_at: "distinct ks \<Longrightarrow> k \<in> set ks \<Longrightarrow> sum_list (map (\<lambda>i. if i = k then x else 0) ks) = (x :: int)"
  by (induction ks) (auto simp: sum_off)

lemma movement_wallets_total:
  assumes "movement f g d d'" and "keys_ok d" and "map wl_id (wallets d') = map wl_id (wallets d)"
  shows "total wl_balance (wallets d') = total wl_balance (wallets d) + sum_list (map f (map wl_id (wallets d)))"
proof -
  let ?ids = "map wl_id (wallets d)"
  have dist: "distinct ?ids" using assms(2) by (simp add: keys_ok_def)
  have pt: "(case get_wallet d' i of None \<Rightarrow> 0 | Some r \<Rightarrow> wl_balance r) =
      (case get_wallet d i of None \<Rightarrow> 0 | Some r \<Rightarrow> wl_balance r) + f i" if "i \<in> set ?ids" for i
  proof -
    from that have "get_wallet d i \<noteq> None" by (auto simp: lookup_by_None)
    then show ?thesis by (rule map_option_shift_fst(2) [OF movementD(3) [OF assms(1)]])
  qed
  have "total wl_balance (wallets d') = sum_list (map (\<lambda>i. case get_wallet d' i of None \<Rightarrow> 0 | Some r \<Rightarrow> wl_balance r) ?ids)"
    using total_by_lookup [of wl_id "wallets d'" wl_balance] assms(3) dist by simp
  also have "\<dots> = sum_list (map (\<lambda>i. (case get_wallet d i of None \<Rightarrow> 0 | Some r \<Rightarrow> wl_balance r) + f i) ?ids)"
    using pt by (intro arg_cong [of _ _ sum_list] map_cong refl)
  also have "\<dots> = total wl_balance (wallets d) + sum_list (map f ?ids)"
    using total_by_lookup [of wl_id "wallets d" wl_balance] dist by (simp add: sum_list_addf del: map_map)
  finally show ?thesis .
qed

lemma move_collection_frame:
  "map wl_id (wallets (move_collection t ow oa fee cl amount platformFee settled d)) = map wl_id (wallets d)"
  "map wl_organization (wallets (move_collection t ow oa fee cl amount platformFee settled d)) = map wl_organization (wallets d)"
  "map wl_platform (wallets (move_collection t ow oa fee cl amount platformFee settled d)) = map wl_platform (wallets d)"
  "(\<And>x d. P (wallets_update x d) = P d) \<Longrightarrow> (\<And>x d. P (accounts_update x d) = P d) \<Longrightarrow>
   (\<And>x d. P (ledger_entries_update x d) = P d) \<Longrightarrow>
   P (move_collection t ow oa fee cl amount platformFee settled d) = P d"
  by (simp_all add: move_collection_def Let_def write_account_def write_wallet_def table_simps split: option.split prod.split)

lemma move_collection_ledger:
  fixes amount platformFee settled :: int and t :: ident
  assumes r: "collection_reads d ow oa fee cl" and ok: "ledger_ok d"
  defines "d' \<equiv> move_collection t ow oa fee cl amount platformFee settled d"
  shows "ledger_ok d'"
    and "trial_balance d' = trial_balance d + amount + (if fee = None then 0 else platformFee) + settled"
    and "total wl_balance (wallets d') = total wl_balance (wallets d) + amount + (if fee = None then 0 else platformFee)"
proof -
  note b = books_of_ledger [OF ok] and keys = keys_of_ledger [OF ok]
  have m: "movement (collection_wallets ow fee amount platformFee) (collection_accounts oa fee cl amount platformFee settled) d d'"
    unfolding d'_def by (rule move_collection_movement [OF r b])
  have ow: "get_wallet d (wl_id ow) = Some ow" "wl_account ow = Some oa"
    and cl: "get_account d (la_id cl) = Some cl" "la_wallet cl = None"
    using r by (simp_all add: collection_reads_def)
  note oacc = linked_account [OF b ow]
  have fee: "get_wallet d (wl_id w) = Some w \<and> wl_account w = Some a \<and> wl_id w \<noteq> wl_id ow" if "fee = Some (w, a)" for w a
    using r that by (simp add: collection_reads_def)
  show "ledger_ok d'"
  proof (rule movement_ledger [OF m ok])
    fix k i
    assume k: "map_option wl_account (get_wallet d k) = Some (Some i)"
      and i: "map_option la_wallet (get_account d i) = Some (Some k)"
    have "i \<noteq> la_id cl" using i cl by auto
    moreover have lnk: "i = a \<longleftrightarrow> k = wl_id w" if "get_wallet d (wl_id w) = Some w" "wl_account w = Some a" for w a
      using linked_account(2) [OF b that] i k that by auto
    ultimately show "collection_accounts oa fee cl amount platformFee settled i = collection_wallets ow fee amount platformFee k"
    proof (cases fee)
      case None
      with lnk [OF ow] \<open>i \<noteq> la_id cl\<close> show ?thesis
        by (auto simp: collection_accounts_def collection_wallets_def)
    next
      case (Some wa)
      obtain w a where f: "fee = Some (w, a)" using Some by (cases wa) simp
      with fee have "get_wallet d (wl_id w) = Some w" "wl_account w = Some a" by simp_all
      with lnk [OF ow] lnk [OF this] \<open>i \<noteq> la_id cl\<close> show ?thesis
        by (simp add: f collection_accounts_def collection_wallets_def) metis
    qed
  qed
  have dist: "distinct (map la_id (accounts d))" "distinct (map wl_id (wallets d))"
    using keys by (simp_all add: keys_ok_def)
  have in_acc: "i \<in> set (map la_id (accounts d))" if "map_option h (get_account d i) = Some x"
    for i x and h :: "ledger_account \<Rightarrow> ident option"
    using that lookup_by_None [of la_id i "accounts d"] by (cases "get_account d i") simp_all
  have in_wal: "wl_id w \<in> set (map wl_id (wallets d))" if "get_wallet d (wl_id w) = Some w" for w
    using lookup_by_mem [OF that] by simp
  have ia: "oa \<in> set (map la_id (accounts d))" "la_id cl \<in> set (map la_id (accounts d))"
    using in_acc [OF oacc(2)] in_acc [of la_wallet "la_id cl" None] cl by simp_all
  show "trial_balance d' = trial_balance d + amount + (if fee = None then 0 else platformFee) + settled"
  proof (cases fee)
    case None
    with movement_trial [OF m keys] ia sum_moved [OF dist(1), of "Some oa" amount] sum_moved [OF dist(1), of "Some (la_id cl)" settled]
    show ?thesis by (simp add: collection_accounts_def [abs_def] sum_list_addf del: map_map moved_simps)
  next
    case (Some wa)
    obtain w a where f: "fee = Some (w, a)" using Some by (cases wa) simp
    with fee have "get_wallet d (wl_id w) = Some w" "wl_account w = Some a" by simp_all
    from in_acc [OF linked_account(2) [OF b this]]
    have "a \<in> set (map la_id (accounts d))" .
    with movement_trial [OF m keys] ia sum_moved [OF dist(1), of "Some oa" amount] sum_moved [OF dist(1), of "Some (la_id cl)" settled]
      sum_moved [OF dist(1), of "Some a" platformFee]
    show ?thesis by (simp add: f collection_accounts_def [abs_def] sum_list_addf del: map_map moved_simps)
  qed
  have "map wl_id (wallets d') = map wl_id (wallets d)" by (simp add: d'_def move_collection_frame(1))
  note tot = movement_wallets_total [OF m keys this]
  show "total wl_balance (wallets d') = total wl_balance (wallets d) + amount + (if fee = None then 0 else platformFee)"
  proof (cases fee)
    case None
    with tot sum_at [OF dist(2) in_wal [OF ow(1)], of amount]
    show ?thesis by (simp add: collection_wallets_def [abs_def] sum_list_addf del: map_map)
  next
    case (Some wa)
    obtain w a where f: "fee = Some (w, a)" using Some by (cases wa) simp
    with fee have "get_wallet d (wl_id w) = Some w" by simp
    with tot sum_at [OF dist(2) in_wal [OF ow(1)], of amount] sum_at [OF dist(2) in_wal, of w platformFee]
    show ?thesis by (simp add: f collection_wallets_def [abs_def] sum_list_addf del: map_map)
  qed
qed


section \<open>Recording a collection\<close>

text \<open>An entry under an identifier drawn now, that settles no withdrawal.\<close>

lemma movement_append_entry:
  assumes "entries d' = entries d @ [e]" and "je_id e = idgen d m" and "seq d \<le> m" and "m < seq d'"
    and "je_withdrawal e = None" and "idgen d' = idgen d" and "wallets d' = wallets d" and "accounts d' = accounts d"
    and "withdrawals d' = withdrawals d"
  shows "movement (\<lambda>_. 0) (\<lambda>_. 0) d d'"
proof -
  have "keys_ok d'" if k: "keys_ok d"
  proof -
    have i: "inj (idgen d')" using k by (simp add: keys_ok_def assms(6))
    have mono: "fresh_for d' ks" if "fresh_for d ks" for ks
      using that by (rule fresh_for_mono) (use assms(3,4,6) in simp_all)
    have ids: "map je_id (entries d') = map je_id (entries d) @ [idgen d' m]" by (simp add: assms(1,2,6))
    have "fresh_for d (map je_id (entries d))" using k by (simp add: keys_ok_def)
    then have "idgen d m \<notin> set (map je_id (entries d))" using assms(3) by (simp add: fresh_for_def)
    moreover have "fresh_for d' (map je_id (entries d) @ [idgen d' m])"
      using k assms(4) by (intro fresh_for_snoc [OF i mono]) (simp_all add: keys_ok_def)
    ultimately show ?thesis
      using k i mono unfolding keys_ok_def ids by (simp add: assms(6-9))
  qed
  moreover have "postings_ok d'" if "postings_ok d"
    using that by (simp add: postings_ok_def assms(1,5,9) lookup_by_append split: option.split)
  ultimately show ?thesis by (simp add: movement_def assms(7,8) clearing_id_def)
qed

lemma pay_collected_due_state:
  assumes "pay_collected_due now p pay d = Inr (x, d')"
  shows "\<exists>dps as. d' = d\<lparr>due_payments := dps, assignments := as\<rparr>"
proof -
  have h: "\<exists>dps as. d' = d\<lparr>due_payments := dps, assignments := as\<rparr>"
    if "handleDuePayment now i pay amount d = Inr (x, d')" for i amount
    using that
  proof (cases "get_assignment d i")
    case None
    with that have "d' = d\<lparr>due_payments := due_payments d, assignments := assignments d\<rparr>"
      by (simp add: handleDuePayment_def)
    then show ?thesis by blast
  next
    case (Some a)
    define dps where "dps = due_payments d @ [\<lparr>dp_assignment = i, dp_payment = pay, dp_amount = amount\<rparr>]"
    define as where "as = update_by da_id i (\<lambda>r. r\<lparr>da_paid := True, da_paid_at := Some now\<rparr>) (assignments d)"
    have "d' \<in> {d\<lparr>due_payments := due_payments d, assignments := assignments d\<rparr>,
        d\<lparr>due_payments := dps, assignments := assignments d\<rparr>, d\<lparr>due_payments := dps, assignments := as\<rparr>}"
      using that Some by (auto simp: handleDuePayment_def Let_def dps_def as_def split: if_splits)
    then show ?thesis by blast
  qed
  show ?thesis
  proof (cases "pp_assignment p")
    case None
    with assms have "d' = d\<lparr>due_payments := due_payments d, assignments := assignments d\<rparr>"
      by (simp add: pay_collected_due_def)
    then show ?thesis by blast
  next
    case (Some i)
    with assms h show ?thesis by (auto simp: pay_collected_due_def split: sum.splits)
  qed
qed

lemma move_collection_state:
  "\<exists>ws as les. move_collection t ow oa fee cl amount platformFee settled d =
     d\<lparr>ledger_entries := les, wallets := ws, accounts := as\<rparr>"
proof -
  obtain m where m: "m = move_collection t ow oa fee cl amount platformFee settled d" by simp
  have "m = d\<lparr>ledger_entries := ledger_entries m, wallets := wallets m, accounts := accounts m\<rparr>"
    by (simp add: m move_collection_def Let_def write_account_def write_wallet_def split: option.split prod.split)
  with m show ?thesis by metis
qed

lemma completed_row_simps [simp]:
  "pp_id (completed_row c r) = pp_id r" "pp_reference (completed_row c r) = pp_reference r"
  "pp_checkout (completed_row c r) = pp_checkout r" "pp_status (completed_row c r) = PpCompleted"
  by (simp_all add: completed_row_def)

lemma record_collectionD:
  assumes "record_collection now p c k ow oa fee cl d = Inr (pa, d')"
  defines "m \<equiv> move_collection (fresh_id d) ow oa fee cl (pp_amount p) (pending_fee p) k d"
  defines "r \<equiv> collection_rows now p c (fresh_id d) (idgen d (seq d + 1)) (idgen d (seq d + 2)) ow
    (collection_lines (la_id cl) oa (map_option snd fee) k (pp_amount p) (pending_fee p)) (pending_fee p) k"
  shows "\<not> collection_taken p c d" and "pa = fst (snd r)" and "payments d' = payments d @ [pa]"
    and "entries d' = entries d @ [snd (snd r)]" and "txns d' = txns d @ [fst r]"
    and "wallets d' = wallets m" and "accounts d' = accounts m"
    and "pendings d' = update_by pp_id (pp_id p) (completed_row c) (pendings d)"
    and "withdrawals d' = withdrawals d" and "idgen d' = idgen d" and "seq d' = seq d + 3"
    and "ledger_entries d' = ledger_entries m"
proof -
  obtain tr pa0 je where rows: "r = (tr, pa0, je)" by (cases r)
  define d2 where "d2 = m\<lparr>txns := txns m @ [tr], payments := payments m @ [pa0], entries := entries m @ [je], seq := seq m + 3\<rparr>"
  show nt: "\<not> collection_taken p c d"
    using assms(1) rows by (auto simp: record_collection_def Let_def r_def)
  have "finish_collection now p c pa0 d2 = Inr (pa, d')"
    using assms(1) nt rows by (simp add: record_collection_def Let_def m_def r_def d2_def)
  then obtain u d3 where s: "pay_collected_due now p (pa_id pa0) d2 = Inr (u, d3)"
    and pa: "pa = pa0" and d': "d' = log_activity (Some (pp_user p)) (STR ''PAYMENT_COMPLETED_VIA_BACHS'')
                       (upd_pending (pp_id p) (completed_row c) d3)"
    by (auto simp: finish_collection_def andThen_eq_Inr)
  obtain dps as where d3: "d3 = d2\<lparr>due_payments := dps, assignments := as\<rparr>"
    using pay_collected_due_state [OF s] by blast
  obtain ws acs les where m: "m = d\<lparr>ledger_entries := les, wallets := ws, accounts := acs\<rparr>"
    using move_collection_state unfolding m_def by blast
  show "pa = fst (snd r)" by (simp add: rows pa)
  show "payments d' = payments d @ [pa]" "entries d' = entries d @ [snd (snd r)]" "txns d' = txns d @ [fst r]"
    "wallets d' = wallets m" "accounts d' = accounts m"
    "pendings d' = update_by pp_id (pp_id p) (completed_row c) (pendings d)"
    "withdrawals d' = withdrawals d" "idgen d' = idgen d" "seq d' = seq d + 3"
    "ledger_entries d' = ledger_entries m"
    by (simp_all add: d' d3 d2_def m rows pa log_activity_def)
qed


section \<open>Completing a pending payment\<close>

lemma complete_newD:
  assumes "complete_new now p c d = Inr (pa, d')" and "ledger_ok d" and "platform_apart d"
  obtains k ow oa fee cl d3 where
    "pp_status p = PpPending" and "settled_amount c = Some k" and "k = expected_settlement p"
    and "pp_checkout p = None \<or> cn_checkout c = pp_checkout p"
    and "record_collection now p c k ow oa fee cl d3 = Inr (pa, d')"
    and "collection_reads d3 ow oa fee cl" and "ledger_ok d3" and "platform_apart d3"
    and "trial_balance d3 = trial_balance d" and "total wl_balance (wallets d3) = total wl_balance (wallets d)"
    and "wl_organization ow = Some (pp_organization p)"
    and "fee = None \<longleftrightarrow> \<not> 0 < pending_fee p"
    and "payments d3 = payments d" and "pendings d3 = pendings d" and "entries d3 = entries d" and "txns d3 = txns d"
    and "\<forall>w. lookup_by wl_organization (Some (pp_organization p)) (wallets d) = Some w \<longrightarrow> ow = w \<and> wallets d3 = wallets d"
    and "\<forall>w a. fee = Some (w, a) \<longrightarrow> platform_wallet d3 = Some w"
proof -
  obtain k ow d1 pw d2 cl d3 where st: "pp_status p = PpPending" "settled_amount c = Some k" "k = expected_settlement p"
      "pp_checkout p = None \<or> cn_checkout c = pp_checkout p"
    and o: "organization_wallet (pp_organization p) d = Inr (ow, d1)" and oa: "wl_account ow \<noteq> None"
    and f: "fee_wallet (pending_fee p) d1 = Inr (pw, d2)"
    and fa: "\<not> (0 < pending_fee p) \<or> (case pw of None \<Rightarrow> False | Some w \<Rightarrow> wl_status w = WalletActive \<and> wl_account w \<noteq> None)"
    and s: "settlement_account d2 = Inr (cl, d3)"
    and r: "record_collection now p c k ow (the (wl_account ow))
       (if 0 < pending_fee p then map_option (\<lambda>w. (w, the (wl_account w))) pw else None) cl d3 = Inr (pa, d')"
    using assms(1) by (auto simp: complete_new_def result_simps)
  note O = organization_walletD [OF o assms(2)]
  note F = fee_walletD [OF f O(1)]
  have s1: "settlement_account d1 = Inr (cl, d3)" using s F(1) by simp
  note S = settlement_accountD [OF s1 O(1)]
  note keys = keys_of_ledger [OF S(1)]
  obtain w where w: "pw = Some w" "w \<in> set (wallets d1)" "wl_platform w" using F(2) by blast
  have ap: "platform_apart d1" by (rule O(6) [OF assms(3)])
  have ow: "get_wallet d3 (wl_id ow) = Some ow" and pw: "get_wallet d3 (wl_id w) = Some w"
    using get_wallet_mem [OF keys] O(3) w(2) by (simp_all add: S(3))
  have "wl_organization w = None" by (rule platform_apartD [OF ap w(2,3)])
  with O(4) ow pw have ne: "wl_id w \<noteq> wl_id ow" by auto
  have "get_account d3 (la_id cl) = Some cl"
    by (rule lookup_by_distinct) (use keys S(5) in \<open>simp_all add: keys_ok_def\<close>)
  with S(4) have cl: "get_account d3 (la_id cl) = Some cl" "la_wallet cl = None" by simp_all
  define fee where "fee = (if 0 < pending_fee p then map_option (\<lambda>w. (w, the (wl_account w))) pw else None)"
  have "collection_reads d3 ow (the (wl_account ow)) fee cl"
    using ow oa pw ne cl fa by (auto simp: collection_reads_def fee_def w(1))
  moreover have "fee = None \<longleftrightarrow> \<not> 0 < pending_fee p" by (simp add: fee_def w(1))
  moreover have "platform_apart d3" using ap by (simp add: platform_apart_def S(3))
  moreover have "payments d3 = payments d" "pendings d3 = pendings d" "entries d3 = entries d" "txns d3 = txns d"
    using opening_frame(1) [OF _ _ _ o, of payments] opening_frame(1) [OF _ _ _ o, of pendings]
      opening_frame(1) [OF _ _ _ o, of entries] opening_frame(1) [OF _ _ _ o, of txns]
      opening_frame(3) [OF _ _ _ s1, of payments] opening_frame(3) [OF _ _ _ s1, of pendings]
      opening_frame(3) [OF _ _ _ s1, of entries] opening_frame(3) [OF _ _ _ s1, of txns]
    by simp_all
  moreover have "ow = w \<and> wallets d3 = wallets d"
    if "lookup_by wl_organization (Some (pp_organization p)) (wallets d) = Some w" for w
    using o that S(3) by (simp add: organization_wallet_def)
  moreover have "platform_wallet d3 = Some v" if "fee = Some (v, a)" for v a
    using that F(3) by (auto simp: fee_def S(3) split: if_splits)
  moreover have "record_collection now p c k ow (the (wl_account ow)) fee cl d3 = Inr (pa, d')"
    using r by (simp add: fee_def)
  ultimately show ?thesis
    using st S(1-3) O(2,4,5) by (intro that [of k ow _ fee cl d3]) simp_all
qed

lemma map_pair_cong:
  "map f xs = map f ys \<Longrightarrow> map g xs = map g ys \<Longrightarrow> map (\<lambda>x. (f x, g x)) xs = map (\<lambda>x. (f x, g x)) ys"
  by (induction xs ys rule: list_induct2') simp_all

lemma complete_new_ledger:
  assumes "complete_new now p c d = Inr (pa, d')" and "ledger_ok d" and "platform_apart d"
  shows "ledger_ok d'" and "platform_apart d'"
    and "trial_balance d' = trial_balance d + pp_amount p + max 0 (pending_fee p) + expected_settlement p"
    and "total wl_balance (wallets d') = total wl_balance (wallets d) + pp_amount p + max 0 (pending_fee p)"
    and "payments d' = payments d @ [pa]"
    and "pa_reference pa = pp_reference p" and "pa_amount pa = pp_amount p" and "pa_service_fee pa = pending_fee p"
    and "pa_charge pa = Some (cn_charge c)" and "pa_organization pa = pp_organization p" and "pa_payer pa = pp_user p"
    and "pendings d' = update_by pp_id (pp_id p) (completed_row c) (pendings d)"
    and "lookup_by pa_charge (Some (cn_charge c)) (payments d) = None"
proof -
  obtain k ow oa fee cl d3 where k: "k = expected_settlement p"
    and r: "record_collection now p c k ow oa fee cl d3 = Inr (pa, d')"
    and reads: "collection_reads d3 ow oa fee cl" and ok: "ledger_ok d3" and ap: "platform_apart d3"
    and same: "trial_balance d3 = trial_balance d" "total wl_balance (wallets d3) = total wl_balance (wallets d)"
      "payments d3 = payments d" "pendings d3 = pendings d"
    and fee: "fee = None \<longleftrightarrow> \<not> 0 < pending_fee p"
    by (rule complete_newD [OF assms])
  define m where "m = move_collection (fresh_id d3) ow oa fee cl (pp_amount p) (pending_fee p) k d3"
  note R = record_collectionD [OF r, folded m_def]
  note M = move_collection_ledger [OF reads ok, of "fresh_id d3" "pp_amount p" "pending_fee p" k, folded m_def]
  obtain ws acs les where m: "m = d3\<lparr>ledger_entries := les, wallets := ws, accounts := acs\<rparr>"
    using move_collection_state unfolding m_def by blast
  have e: "entries m = entries d3" "idgen m = idgen d3" "seq m = seq d3" "withdrawals m = withdrawals d3" by (simp_all add: m)
  have mv: "movement (\<lambda>_. 0) (\<lambda>_. 0) m d'"
    by (rule movement_append_entry [where m = "seq d3 + 2" and e = "snd (snd (collection_rows now p c (fresh_id d3)
        (idgen d3 (seq d3 + 1)) (idgen d3 (seq d3 + 2)) ow
        (collection_lines (la_id cl) oa (map_option snd fee) k (pp_amount p) (pending_fee p)) (pending_fee p) k))"])
      (use R in \<open>simp_all add: e collection_rows_def\<close>)
  have "ledger_ok d' \<and> trial_balance d' = trial_balance m" using movement_still [OF mv] M(1) by (simp add: keeps_ledger_def)
  then show "ledger_ok d'"
    and "trial_balance d' = trial_balance d + pp_amount p + max 0 (pending_fee p) + expected_settlement p"
    using M(2) fee by (auto simp: same k)
  have w: "wallets d' = wallets m" by (rule R(6))
  then show "total wl_balance (wallets d') = total wl_balance (wallets d) + pp_amount p + max 0 (pending_fee p)"
    using M(3) fee by (auto simp: same)
  have "map (\<lambda>w. (wl_platform w, wl_organization w)) (wallets m) = map (\<lambda>w. (wl_platform w, wl_organization w)) (wallets d3)"
    by (rule map_pair_cong) (simp_all add: m_def move_collection_frame)
  then show "platform_apart d'" using ap unfolding platform_apart_def w by simp
  show "payments d' = payments d @ [pa]" and "pendings d' = update_by pp_id (pp_id p) (completed_row c) (pendings d)"
    using R(3,8) by (simp_all add: same)
  show "pa_reference pa = pp_reference p" "pa_amount pa = pp_amount p" "pa_service_fee pa = pending_fee p"
    "pa_charge pa = Some (cn_charge c)" "pa_organization pa = pp_organization p" "pa_payer pa = pp_user p"
    using R(2) by (simp_all add: collection_rows_def)
  show "lookup_by pa_charge (Some (cn_charge c)) (payments d) = None"
    using R(1) by (simp add: collection_taken_def same)
qed


text \<open>Where the money goes when the wallets exist: the amount to the organization, the fee to the platform.\<close>

lemma complete_new_balances:
  assumes "complete_new now p c d = Inr (pa, d')" and "ledger_ok d" and "platform_apart d"
    and ow: "lookup_by wl_organization (Some (pp_organization p)) (wallets d) = Some ow"
    and pw: "platform_wallet d = Some pw"
  shows "map_option wl_balance (get_wallet d' i) =
    map_option (\<lambda>w. wl_balance w + (if i = wl_id ow then pp_amount p else 0)
      + (if i = wl_id pw then max 0 (pending_fee p) else 0)) (get_wallet d i)"
proof -
  obtain k ow' oa fee cl d3 where r: "record_collection now p c k ow' oa fee cl d3 = Inr (pa, d')"
    and reads: "collection_reads d3 ow' oa fee cl" and ok: "ledger_ok d3"
    and fee: "fee = None \<longleftrightarrow> \<not> 0 < pending_fee p"
    and O: "\<forall>w. lookup_by wl_organization (Some (pp_organization p)) (wallets d) = Some w \<longrightarrow> ow' = w \<and> wallets d3 = wallets d"
    and F: "\<forall>w a. fee = Some (w, a) \<longrightarrow> platform_wallet d3 = Some w"
    by (rule complete_newD [OF assms(1-3)])
  have same: "ow' = ow" "wallets d3 = wallets d" using O ow by blast+
  note R = record_collectionD(6) [OF r]
  have amount: "collection_wallets ow' fee (pp_amount p) (pending_fee p) i =
      (if i = wl_id ow then pp_amount p else 0) + (if i = wl_id pw then max 0 (pending_fee p) else 0)"
  proof (cases fee)
    case None
    with fee same show ?thesis by (simp add: collection_wallets_def)
  next
    case (Some wa)
    obtain w a where f: "fee = Some (w, a)" using Some by (cases wa) simp
    with F pw same have "w = pw" by simp
    with f fee same show ?thesis by (simp add: collection_wallets_def)
  qed
  have "map_option (\<lambda>w. (wl_account w, wl_balance w)) (get_wallet d' i) =
      map_option (\<lambda>w. (wl_account w, wl_balance w + collection_wallets ow' fee (pp_amount p) (pending_fee p) i)) (get_wallet d i)"
    using movementD(3) [OF move_collection_movement [OF reads books_of_ledger [OF ok],
        of "pp_amount p" "pending_fee p" k "fresh_id d3"], of i] by (simp add: R same(2))
  then show ?thesis unfolding amount
    by (cases "get_wallet d i"; cases "get_wallet d' i") simp_all
qed


end
