(* ===== verification/CollectionProperties.thy ===== *)
theory CollectionProperties
  imports Prelude FinanceDb Samples Ledger Wallets Dues Books Collections CollectionBooks
begin

text \<open>
  The properties of \<open>BachsService\<close>: a completed payment settles exactly, once, and whatever the
  sequence of operations, the money in the wallets is what was recorded as paid. Two theorems show
  what goes wrong: a pending row that is used again is credited with its old amount, and the
  journal entry of a collection has the opposite sign of the balances it explains.
\<close>

section \<open>Operations that write pending rows only\<close>

definition pending_only :: "db \<Rightarrow> db \<Rightarrow> bool" where
  "pending_only d d' \<longleftrightarrow> (\<exists>ps n. d' = d\<lparr>pendings := ps, seq := n\<rparr> \<and> seq d \<le> n)"

lemma pending_onlyI: "d' = d\<lparr>pendings := ps, seq := n\<rparr> \<Longrightarrow> seq d \<le> n \<Longrightarrow> pending_only d d'"
  unfolding pending_only_def by blast

lemma pending_only_refl [simp]: "pending_only d d"
  by (rule pending_onlyI [where ps = "pendings d" and n = "seq d"]) simp_all

lemma pending_only_upd [simp]: "pending_only d (d\<lparr>pendings := ps\<rparr>)"
  by (rule pending_onlyI [where ps = ps and n = "seq d"]) simp_all

lemma pending_only_trans:
  assumes "pending_only d d1" and "pending_only d1 d2"
  shows "pending_only d d2"
proof -
  obtain ps n where 1: "d1 = d\<lparr>pendings := ps, seq := n\<rparr>" "seq d \<le> n" using assms(1) unfolding pending_only_def by blast
  obtain ps' n' where 2: "d2 = d1\<lparr>pendings := ps', seq := n'\<rparr>" "seq d1 \<le> n'" using assms(2) unfolding pending_only_def by blast
  show ?thesis by (rule pending_onlyI [where ps = ps' and n = n']) (use 1 2 in simp_all)
qed

lemma pending_only_transaction:
  "(\<And>x d'. body d = Inr (x, d') \<Longrightarrow> pending_only d d') \<Longrightarrow> pending_only d (fst (transaction body d))"
  by (rule transaction_invariant) simp_all

lemma create_pending_only:
  assumes "create_pending now userId x f d = Inr (r, d')"
  shows "pending_only d d'"
proof -
  have "d' = d\<lparr>pendings := pendings d', seq := Suc (seq d)\<rparr>"
    using assms by (auto simp: create_pending_def Let_def split: if_splits)
  then show ?thesis by (rule pending_onlyI) simp
qed

lemma claim_pending_only:
  assumes "claim_pending env now userId x d = Inr (r, d')"
  shows "pending_only d d'"
proof -
  have close: "pending_only d d'" if "create_pending now userId x f (upd_pending i g d) = Inr (r, d')" for f i g
    by (rule pending_only_trans [OF pending_only_upd create_pending_only [OF that]])
  show ?thesis
    using assms close create_pending_only
    by (auto simp: claim_pending_def Let_def split: if_splits option.splits sum.splits)
qed

lemma start_checkout_only: "pending_only d (fst (start_checkout env x p d))"
  by (simp add: start_checkout_def attach_checkout_def Let_def split: sum.split prod.split)

lemma initiatePayment_only: "pending_only d (fst (initiatePayment env now userId x d))"
proof -
  have "pending_only d (fst (transaction (claim_pending env now userId x) d))"
    by (rule pending_only_transaction) (rule claim_pending_only)
  then have "pending_only d (fst (thenDo (transaction (claim_pending env now userId x) d) (\<lambda>(p, url) d1.
            case url of Some u \<Rightarrow> (d1, Inr (open_reply p u)) | None \<Rightarrow> start_checkout env x p d1)))"
  proof (rule thenDo_invariant)
    fix s and r :: "pending_payment \<times> string option"
    assume "pending_only d s"
    then show "pending_only d (fst ((\<lambda>(p, url) d1. case url of Some u \<Rightarrow> (d1, Inr (open_reply p u))
        | None \<Rightarrow> start_checkout env x p d1) r s))"
      using pending_only_trans [OF _ start_checkout_only] by (cases r) (simp split: option.split)
  qed
  then show ?thesis by (simp add: initiatePayment_def split: sum.split)
qed

lemma cancelPendingPayment_only: "pending_only d (fst (cancelPendingPayment i u d))"
  by (simp add: cancelPendingPayment_def split: option.split)

lemma cleanupExpiredPayments_only: "pending_only d (fst (cleanupExpiredPayments now d))"
  by (simp add: cleanupExpiredPayments_def Let_def)

lemma retryFailedPayment_only: "pending_only d (fst (retryFailedPayment i d))"
  by (simp add: retryFailedPayment_def Let_def split: option.split)

section \<open>The money collected\<close>

definition collected :: "db \<Rightarrow> int" where
  "collected d = sum_list (map (\<lambda>p. pa_amount p + max 0 (pa_service_fee p)) (payments d))"

definition once_each :: "payment list \<Rightarrow> bool" where
  "once_each ps \<longleftrightarrow> distinct (map pa_reference ps) \<and> distinct (map pa_charge (filter (\<lambda>p. pa_charge p \<noteq> None) ps))"

definition collections_ok :: "db \<Rightarrow> bool" where
  "collections_ok d \<longleftrightarrow> ledger_ok d \<and> platform_apart d \<and> once_each (payments d)"

lemma complete_transaction_cases:
  assumes "complete_transaction now c d = Inr ((pa, again), d')"
  obtains (known) p where "find (names_pending c) (pendings d) = Some p" and "payment_by_reference d (pp_reference p) = Some pa"
      and "again" and "d' = d"
    | (new) p where "find (names_pending c) (pendings d) = Some p" and "payment_by_reference d (pp_reference p) = None"
      and "\<not> again" and "complete_new now p c d = Inr (pa, d')"
proof -
  obtain p where p: "find (names_pending c) (pendings d) = Some p"
    using assms by (cases "find (names_pending c) (pendings d)") (simp_all add: complete_transaction_def)
  show ?thesis
  proof (cases "payment_by_reference d (pp_reference p)")
    case None
    with assms p show ?thesis by (intro new [OF p None]) (auto simp: complete_transaction_def andThen_eq_Inr)
  next
    case (Some q)
    with assms p show ?thesis by (intro known [OF p]) (simp_all add: complete_transaction_def)
  qed
qed

lemma pending_only_collections:
  assumes "pending_only d d'" and "collections_ok d"
  shows "collections_ok d'" and "total wl_balance (wallets d') - collected d' = total wl_balance (wallets d) - collected d"
proof -
  obtain ps n where d': "d' = d\<lparr>pendings := ps, seq := n\<rparr>" "seq d \<le> n" using assms(1) unfolding pending_only_def by blast
  have "movement (\<lambda>_. 0) (\<lambda>_. 0) d d'" by (rule movement_frame) (simp_all add: d')
  from movement_still [OF this] assms(2) show "collections_ok d'"
    by (simp add: collections_ok_def keeps_ledger_def platform_apart_def d')
  show "total wl_balance (wallets d') - collected d' = total wl_balance (wallets d) - collected d"
    by (simp add: collected_def d')
qed

lemma complete_new_collections:
  assumes "complete_new now p c d = Inr (pa, d')" and "collections_ok d" and "payment_by_reference d (pp_reference p) = None"
  shows "collections_ok d'" and "total wl_balance (wallets d') - collected d' = total wl_balance (wallets d) - collected d"
proof -
  have ok: "ledger_ok d" "platform_apart d" "once_each (payments d)" using assms(2) by (simp_all add: collections_ok_def)
  note L = complete_new_ledger [OF assms(1) ok(1,2)]
  have "pp_reference p \<notin> pa_reference ` set (payments d)"
    using assms(3) by (simp add: payment_by_reference_def lookup_by_None)
  moreover have "Some (cn_charge c) \<notin> pa_charge ` set (payments d)" using L(13) by (simp add: lookup_by_None)
  ultimately have "once_each (payments d')" using ok(3) by (auto simp: once_each_def L(5,6,9))
  with L(1,2) show "collections_ok d'" by (simp add: collections_ok_def)
  show "total wl_balance (wallets d') - collected d' = total wl_balance (wallets d) - collected d"
    by (simp add: collected_def L(4,5,7,8))
qed

lemma completePayment_collections:
  assumes "collections_ok d"
  shows "collections_ok (fst (completePayment now c d)) \<and>
    total wl_balance (wallets (fst (completePayment now c d))) - collected (fst (completePayment now c d))
      = total wl_balance (wallets d) - collected d"
  unfolding completePayment_def
proof (rule transaction_invariant)
  fix r d'
  assume r: "complete_transaction now c d = Inr (r, d')"
  obtain pa again where "r = (pa, again)" by (cases r)
  with r have "complete_transaction now c d = Inr ((pa, again), d')" by simp
  then show "collections_ok d' \<and> total wl_balance (wallets d') - collected d' = total wl_balance (wallets d) - collected d"
  proof (cases rule: complete_transaction_cases)
    case (known p)
    with assms show ?thesis by simp
  next
    case (new p)
    with complete_new_collections [OF new(4) assms new(2)] show ?thesis by simp
  qed
qed (simp add: assms)

text \<open>The operations on pending payments, whatever the provider answers.\<close>

datatype collection_operation =
    Initiate checkout_env nat ident payment_request
  | Complete nat completion
  | Cancel ident "ident option"
  | Cleanup nat
  | RetryFailed ident
  | AskStatus checkout_env nat ident ident

fun perform_collection :: "collection_operation \<Rightarrow> db \<Rightarrow> db" where
  "perform_collection (Initiate env now u x) d = fst (initiatePayment env now u x d)"
| "perform_collection (Complete now c) d = fst (completePayment now c d)"
| "perform_collection (Cancel i u) d = fst (cancelPendingPayment i u d)"
| "perform_collection (Cleanup now) d = fst (cleanupExpiredPayments now d)"
| "perform_collection (RetryFailed i) d = fst (retryFailedPayment i d)"
| "perform_collection (AskStatus env now i u) d = fst (getPendingPaymentStatus env now i u d)"

lemma refresh_pending_cases:
  "(\<exists>t c. refresh_pending env now p d = fst (completePayment t c d)) \<or> pending_only d (refresh_pending env now p d)"
  by (simp add: refresh_pending_def Let_def split: option.split sum.split) blast

lemma perform_collection_cases:
  "(\<exists>now c. perform_collection e d = fst (completePayment now c d)) \<or> pending_only d (perform_collection e d)"
proof (cases e)
  case (AskStatus env now i u)
  have "(\<exists>t c. fst (getPendingPaymentStatus env now i u d) = fst (completePayment t c d)) \<or>
    pending_only d (fst (getPendingPaymentStatus env now i u d))"
  proof (cases "get_pending d i")
    case (Some p)
    with refresh_pending_cases [of env now p d] show ?thesis by (auto simp: getPendingPaymentStatus_def Let_def)
  qed (simp add: getPendingPaymentStatus_def)
  then show ?thesis unfolding AskStatus perform_collection.simps .
qed (use initiatePayment_only cancelPendingPayment_only cleanupExpiredPayments_only retryFailedPayment_only in auto)

lemma perform_collection_keeps:
  assumes "collections_ok d \<and> total wl_balance (wallets d) - collected d = x"
  shows "collections_ok (perform_collection e d) \<and>
    total wl_balance (wallets (perform_collection e d)) - collected (perform_collection e d) = x"
  using perform_collection_cases [of e d]
proof
  assume "\<exists>now c. perform_collection e d = fst (completePayment now c d)"
  then obtain now c where "perform_collection e d = fst (completePayment now c d)" by blast
  with completePayment_collections [of d now c] assms show ?thesis by simp
next
  assume "pending_only d (perform_collection e d)"
  from pending_only_collections [OF this] assms show ?thesis by simp
qed

section \<open>Once\<close>

lemma find_completed:
  "find (names_pending c) (update_by pp_id i (completed_row c') ps) =
     map_option (\<lambda>p. if pp_id p = i then completed_row c' p else p) (find (names_pending c) ps)"
proof -
  have "names_pending c (if pp_id p = i then completed_row c' p else p) = names_pending c p" for p
    by (simp add: names_pending_def)
  then show ?thesis by (induction ps) (simp_all add: update_by_def update_where_def)
qed

lemma completion_again:
  assumes "collections_ok d" and "completePayment now c d = (d', Inr (pa, again))"
    and "find (names_pending c') (pendings d) = find (names_pending c) (pendings d)"
  shows "completePayment now' c' d' = (d', Inr (pa, True))"
proof -
  have "complete_transaction now c d = Inr ((pa, again), d')"
    using assms(2) by (simp add: completePayment_def transaction_Inr)
  then have "complete_transaction now' c' d' = Inr ((pa, True), d')"
  proof (cases rule: complete_transaction_cases)
    case (known p)
    with assms(3) show ?thesis by (simp add: complete_transaction_def)
  next
    case (new p)
    have ok: "ledger_ok d" "platform_apart d" using assms(1) by (simp_all add: collections_ok_def)
    note L = complete_new_ledger [OF new(4) ok]
    have "find (names_pending c') (pendings d') =
        Some (if pp_id p = pp_id p then completed_row c p else p)"
      unfolding L(12) find_completed assms(3) new(1) by simp
    moreover have "payment_by_reference d' (pp_reference p) = Some pa"
      using new(2) by (simp add: payment_by_reference_def L(5,6) table_simps)
    ultimately show ?thesis by (simp add: complete_transaction_def)
  qed
  then show ?thesis by (simp add: completePayment_def transaction_Inr)
qed

text \<open>C27: Completion is idempotent: once a payment is completed, every further completion that names the same
  pending row, by a repeated webhook or by a status request, with whatever amount and charge,
  returns the same payment as already processed and changes nothing.\<close>

theorem completePayment_idempotent:
  assumes "collections_ok d" and "completePayment now c d = (d', Inr (pa, again))"
    and "find (names_pending c') (pendings d) = find (names_pending c) (pendings d)"
  shows "completePayment now' c' d' = (d', Inr (pa, True))"
  by (rule completion_again [OF assms])

section \<open>Settling\<close>

text \<open>What the operation needs: rows that can be paid into, and identifiers of the provider that are new.\<close>

definition due_free :: "db \<Rightarrow> pending_payment \<Rightarrow> bool" where
  "due_free d p \<longleftrightarrow>
     fresh_for d (map dp_payment (due_payments d)) \<and>
     (case pp_assignment p of None \<Rightarrow> True | Some i \<Rightarrow> \<not> has_payment d i)"

definition payable_wallets :: "db \<Rightarrow> pending_payment \<Rightarrow> bool" where
  "payable_wallets d p \<longleftrightarrow>
     map_option wl_status (lookup_by wl_organization (Some (pp_organization p)) (wallets d)) = Some WalletActive \<and>
     map_option wl_status (platform_wallet d) = Some WalletActive"

lemma has_account: "ledger_ok d \<Longrightarrow> w \<in> set (wallets d) \<Longrightarrow> wl_account w \<noteq> None"
proof -
  assume ok: "ledger_ok d" and w: "w \<in> set (wallets d)"
  have "map_option wl_account (get_wallet d (wl_id w)) \<noteq> Some None"
    using ok unfolding ledger_ok_def accounts_open_def by blast
  with get_wallet_mem [OF keys_of_ledger [OF ok] w] show "wl_account w \<noteq> None" by simp
qed

lemma settlement_account_exists: "\<exists>a d'. settlement_account d = Inr (a, d')"
  by (simp add: settlement_account_def insert_account_def Let_def split: option.split)

lemma pay_collected_due_free:
  assumes "due_free d0 p" and "due_payments d = due_payments d0" and "pay = idgen d0 m" and "seq d0 \<le> m"
  shows "\<exists>d'. pay_collected_due now p pay d = Inr ((), d')"
proof (cases "pp_assignment p")
  case None
  then show ?thesis by (simp add: pay_collected_due_def)
next
  case (Some i)
  have "\<not> list_ex (\<lambda>x. dp_payment x = pay) (due_payments d)"
  proof
    assume "list_ex (\<lambda>x. dp_payment x = pay) (due_payments d)"
    then have "pay \<in> set (map dp_payment (due_payments d0))" using assms(2) by (auto simp: list_ex_iff)
    with assms show False by (simp add: due_free_def fresh_for_def)
  qed
  moreover have "\<not> has_payment d i" using assms Some by (simp add: due_free_def has_payment_def)
  ultimately have "\<exists>d'. handleDuePayment now i pay (pp_amount p) d = Inr ((), d')"
    by (simp add: handleDuePayment_def Let_def split: option.split)
  with Some show ?thesis by (auto simp: pay_collected_due_def)
qed

lemma record_collection_returns:
  assumes "\<not> collection_taken p c d" and "due_free d p"
  shows "\<exists>pa d'. record_collection now p c k ow oa fee cl d = Inr (pa, d')"
proof -
  obtain tr pa je where rows: "collection_rows now p c (fresh_id d) (idgen d (seq d + 1)) (idgen d (seq d + 2)) ow
      (collection_lines (la_id cl) oa (map_option snd fee) k (pp_amount p) (pending_fee p)) (pending_fee p) k = (tr, pa, je)"
    by (rule prod_cases3)
  then have pay: "pa_id pa = idgen d (seq d + 1)" by (auto simp: collection_rows_def)
  define m where "m = move_collection (fresh_id d) ow oa fee cl (pp_amount p) (pending_fee p) k d"
  define d2 where "d2 = m\<lparr>txns := txns m @ [tr], payments := payments m @ [pa], entries := entries m @ [je], seq := seq m + 3\<rparr>"
  obtain ws acs les where m: "m = d\<lparr>ledger_entries := les, wallets := ws, accounts := acs\<rparr>"
    using move_collection_state unfolding m_def by blast
  have "due_payments d2 = due_payments d" by (simp add: d2_def m)
  from pay_collected_due_free [OF assms(2) this pay] obtain d3 where
    "pay_collected_due now p (pa_id pa) d2 = Inr ((), d3)" by auto
  then have "finish_collection now p c pa d2 = Inr (pa, log_activity (Some (pp_user p))
      (STR ''PAYMENT_COMPLETED_VIA_BACHS'') (upd_pending (pp_id p) (completed_row c) d3))"
    by (simp add: finish_collection_def)
  with assms(1) rows show ?thesis by (simp add: record_collection_def Let_def m_def d2_def)
qed


text \<open>A row that can be settled by a completion.\<close>

definition settleable :: "db \<Rightarrow> pending_payment \<Rightarrow> completion \<Rightarrow> bool" where
  "settleable d p c \<longleftrightarrow>
     pp_status p = PpPending \<and> payment_by_reference d (pp_reference p) = None \<and>
     settled_amount c = Some (expected_settlement p) \<and> (pp_checkout p = None \<or> cn_checkout c = pp_checkout p) \<and>
     payable_wallets d p \<and> \<not> collection_taken p c d \<and> due_free d p"

lemma complete_new_returns:
  assumes "collections_ok d" and s: "settleable d p c"
  shows "\<exists>pa d'. complete_new now p c d = Inr (pa, d')"
proof -
  have ok: "ledger_ok d" using assms(1) by (simp add: collections_ok_def)
  obtain ow where ow: "lookup_by wl_organization (Some (pp_organization p)) (wallets d) = Some ow" "wl_status ow = WalletActive"
    using s unfolding settleable_def payable_wallets_def by (cases "lookup_by wl_organization (Some (pp_organization p)) (wallets d)") simp_all
  obtain pw where pw: "platform_wallet d = Some pw" "wl_status pw = WalletActive"
    using s unfolding settleable_def payable_wallets_def by (cases "platform_wallet d") simp_all
  have "wl_account ow \<noteq> None" "wl_account pw \<noteq> None"
    using has_account [OF ok] lookup_by_mem [OF ow(1)] find_SomeD [OF pw(1)] by blast+
  then obtain oa qa where acc: "wl_account ow = Some oa" "wl_account pw = Some qa" by blast
  obtain cl d3 where cl: "settlement_account d = Inr (cl, d3)" using settlement_account_exists by blast
  note same = opening_frame(3) [OF _ _ _ cl]
  have fr: "txns d3 = txns d" "payments d3 = payments d" "entries d3 = entries d" "due_payments d3 = due_payments d" "idgen d3 = idgen d"
    using same [of txns] same [of payments] same [of entries] same [of due_payments] same [of idgen] by simp_all
  have seq: "seq d \<le> seq d3"
    using cl by (auto simp: settlement_account_def insert_account_def Let_def split: option.splits if_splits)
  have free: "due_free d p" "\<not> collection_taken p c d" using s unfolding settleable_def by blast+
  have "\<not> collection_taken p c d3" using free(2) unfolding collection_taken_def fr .
  moreover have "fresh_for d (map dp_payment (due_payments d))" using free(1) by (simp only: due_free_def)
  then have "fresh_for d3 (map dp_payment (due_payments d))" by (rule fresh_for_mono [OF _ fr(5) seq])
  then have "due_free d3 p" using free(1) unfolding due_free_def fr has_payment_def by blast
  ultimately obtain pa d' where r: "record_collection now p c (expected_settlement p) ow oa
       (if 0 < pending_fee p then Some (pw, qa) else None) cl d3 = Inr (pa, d')"
    using record_collection_returns by blast
  have guards: "(pp_status p = PpPending) = True" "settled_amount c = Some (expected_settlement p)"
    "(pp_checkout p = None \<or> cn_checkout c = pp_checkout p) = True"
    using s by (simp_all add: settleable_def)
  have wallets: "organization_wallet (pp_organization p) d = Inr (ow, d)" "fee_wallet (pending_fee p) d = Inr (Some pw, d)"
    by (simp_all add: organization_wallet_def fee_wallet_def ow(1) pw(1))
  have "complete_new now p c d = Inr (pa, d')"
    unfolding complete_new_def guards wallets andThen_Inr prod.case cl require_True require_some_Some
    using r by (cases "0 < pending_fee p") (simp_all add: ow(2) pw(2) acc wallets cl)
  then show ?thesis by blast
qed

lemma completion_settles:
  assumes "collections_ok d" and "find (names_pending c) (pendings d) = Some p" and "settleable d p c"
  obtains pa d' where "completePayment now c d = (d', Inr (pa, False))" and "complete_new now p c d = Inr (pa, d')"
proof -
  obtain pa d' where n: "complete_new now p c d = Inr (pa, d')" using complete_new_returns [OF assms(1,3)] by blast
  with assms(2,3) have "completePayment now c d = (d', Inr (pa, False))"
    by (simp add: completePayment_def transaction_Inr complete_transaction_def settleable_def)
  with n show ?thesis by (rule that [rotated])
qed

text \<open>C9: A payment that the provider settled completes: when the pending row is still open and unpaid, the amount
  is the expected settlement, the wallets are active and the charge is new, \<open>completePayment\<close> records
  one payment of the row's amount and fee, credits the organization with the amount and the platform
  with the fee and nobody else, and marks the row completed.\<close>

theorem completePayment_settles:
  assumes "collections_ok d" and "find (names_pending c) (pendings d) = Some p" and "settleable d p c"
    and "lookup_by wl_organization (Some (pp_organization p)) (wallets d) = Some ow" and "platform_wallet d = Some pw"
  shows "\<exists>pa d'. completePayment now c d = (d', Inr (pa, False)) \<and> payments d' = payments d @ [pa]
    \<and> pa_reference pa = pp_reference p \<and> pa_amount pa = pp_amount p \<and> pa_service_fee pa = pending_fee p
    \<and> pa_payer pa = pp_user p \<and> pa_organization pa = pp_organization p \<and> pa_charge pa = Some (cn_charge c)
    \<and> pendings d' = update_by pp_id (pp_id p) (completed_row c) (pendings d)
    \<and> (\<forall>i. map_option wl_balance (get_wallet d' i) =
        map_option (\<lambda>w. wl_balance w + (if i = wl_id ow then pp_amount p else 0)
          + (if i = wl_id pw then max 0 (pending_fee p) else 0)) (get_wallet d i))"
proof -
  have ok: "ledger_ok d" "platform_apart d" using assms(1) by (simp_all add: collections_ok_def)
  obtain pa d' where 1: "completePayment now c d = (d', Inr (pa, False))" and n: "complete_new now p c d = Inr (pa, d')"
    by (rule completion_settles [OF assms(1-3)])
  show ?thesis
  proof (intro exI conjI)
    show "\<forall>i. map_option wl_balance (get_wallet d' i) =
        map_option (\<lambda>w. wl_balance w + (if i = wl_id ow then pp_amount p else 0)
          + (if i = wl_id pw then max 0 (pending_fee p) else 0)) (get_wallet d i)"
      using complete_new_balances [OF n ok assms(4,5)] by blast
  qed (use 1 complete_new_ledger(5-12) [OF n ok] in simp_all)
qed

section \<open>The journal of a collection\<close>

text \<open>The journal entry of a collection contradicts the balances: it credits the account of the organization's
  wallet, which lowers it in the ledger's convention, while the balance is raised. Every collection
  widens the gap between the balance of the account and the sum of its entries, which the
  reconciliation reports, by twice the amount, and the trial balance, which every other movement
  keeps, grows by both sides of the entry.\<close>

lemma collection_unreconciled:
  assumes "collections_ok d" and "completePayment now c d = (d', Inr (pa, False))"
    and "lookup_by wl_organization (Some (pa_organization pa)) (wallets d) = Some ow" and "wl_account ow = Some oa"
  shows "map_option (\<lambda>a. la_balance a - posted_effect d' oa) (get_account d' oa) =
      map_option (\<lambda>a. la_balance a - posted_effect d oa + 2 * pa_amount pa) (get_account d oa)
    \<and> (\<exists>settled. settled_amount c = Some settled \<and>
        trial_balance d' = trial_balance d + pa_amount pa + max 0 (pa_service_fee pa) + settled)"
proof -
  have ok: "ledger_ok d" "platform_apart d" using assms(1) by (simp_all add: collections_ok_def)
  have "complete_transaction now c d = Inr ((pa, False), d')"
    using assms(2) by (simp add: completePayment_def transaction_Inr)
  then obtain p where n: "complete_new now p c d = Inr (pa, d')" by (cases rule: complete_transaction_cases) simp_all
  note L = complete_new_ledger [OF n ok]
  obtain k ow' oa' fee cl d3 where k: "settled_amount c = Some k" "k = expected_settlement p"
    and r: "record_collection now p c k ow' oa' fee cl d3 = Inr (pa, d')"
    and reads: "collection_reads d3 ow' oa' fee cl" and ok3: "ledger_ok d3"
    and ent: "entries d3 = entries d"
    and O: "\<forall>w. lookup_by wl_organization (Some (pp_organization p)) (wallets d) = Some w \<longrightarrow> ow' = w \<and> wallets d3 = wallets d"
    by (rule complete_newD [OF n ok])
  have same: "ow' = ow" "wallets d3 = wallets d" using O assms(3) by (simp_all add: L(10))
  have oa: "oa' = oa" using reads assms(4) by (simp add: collection_reads_def same)
  note b3 = books_of_ledger [OF ok3]
  have ow: "get_wallet d3 (wl_id ow) = Some ow" using reads by (simp add: collection_reads_def same)
  note acc = linked_account [OF b3 ow assms(4)]
  have ne: "la_id cl \<noteq> oa" using reads acc(2) by (auto simp: collection_reads_def)
  have nf: "a \<noteq> oa" if "fee = Some (w, a)" for w a
  proof -
    have "get_wallet d3 (wl_id w) = Some w" "wl_account w = Some a" "wl_id w \<noteq> wl_id ow"
      using reads that by (simp_all add: collection_reads_def same)
    with linked_account(2) [OF b3, of w a] acc(2) show ?thesis by auto
  qed
  have "map_option la_balance (get_account d oa) = Some (wl_balance ow)"
  proof (rule linked_account(1) [OF books_of_ledger [OF ok(1)] _ assms(4)])
    show "get_wallet d (wl_id ow) = Some ow" using ow by (simp add: same)
  qed
  note before = this
  note R = record_collectionD [OF r]
  have "effect_on oa (collection_lines (la_id cl) oa (map_option snd fee) k (pp_amount p) (pending_fee p)) = - pp_amount p"
    using ne nf by (cases fee) (auto simp: collection_lines_def balance_change_def)
  then have "posted_effect d' oa = posted_effect d oa - pp_amount p"
    by (simp add: posted_effect_def R(4) ent entries_effect_def collection_rows_def oa)
  moreover have "map_option la_balance (get_account d' oa) = Some (wl_balance ow + pp_amount p)"
  proof -
    have "collection_accounts oa fee cl (pp_amount p) (pending_fee p) k oa = pp_amount p"
      using ne nf by (cases fee) (auto simp: collection_accounts_def)
    moreover note movementD(4) [OF move_collection_movement [OF reads b3, of "pp_amount p" "pending_fee p" k "fresh_id d3"], of oa]
    ultimately show ?thesis using acc(1) by (cases "get_account d3 oa") (auto simp: R(7) oa)
  qed
  ultimately have "map_option (\<lambda>a. la_balance a - posted_effect d' oa) (get_account d' oa) =
      map_option (\<lambda>a. la_balance a - posted_effect d oa + 2 * pp_amount p) (get_account d oa)"
    using before by (cases "get_account d' oa"; cases "get_account d oa") simp_all
  with L(3,7,8) k show ?thesis by simp
qed


section \<open>A pending row that is used again\<close>

lemma checkout_row_simps [simp]:
  "pp_id (checkout_row env x p c r) = pp_id r" "pp_checkout (checkout_row env x p c r) = Some c"
  "pp_amount (checkout_row env x p c r) = pp_amount r" "pp_reference (checkout_row env x p c r) = pp_reference r"
  "pp_status (checkout_row env x p c r) = pp_status r" "pp_assignment (checkout_row env x p c r) = pp_assignment r"
  "pp_organization (checkout_row env x p c r) = pp_organization r"
  "pm_platform_fee (pp_meta (checkout_row env x p c r)) = Some (platform_fee env)"
  "pm_expected (pp_meta (checkout_row env x p c r)) = Some (ir_amount x + platform_fee env)"
  by (simp_all add: checkout_row_def)

lemma find_attached:
  assumes "\<not> list_ex (\<lambda>q. pp_id q \<noteq> i \<and> pp_checkout q = Some ch) ps" and "lookup_by pp_id i ps = Some q"
    and "cn_checkout c = Some ch" and "cn_pending c = None" and "cn_reference c = None"
  shows "find (names_pending c) (update_by pp_id i (checkout_row env x p ch) ps) = Some (checkout_row env x p ch q)"
  using assms(1,2)
proof (induction ps)
  case Nil
  then show ?case by (simp add: lookup_by_Nil)
next
  case (Cons r ps)
  then show ?case
    by (cases "pp_id r = i") (simp_all add: lookup_by_Cons update_by_def update_where_def names_pending_def assms(3-5))
qed

lemma reused_checkout:
  assumes "find (reusable userId x) (newest_first pp_created (pendings d)) = Some p" and "pp_checkout p = None"
    and "now < pp_created p + session_minutes" and "initiatePayment env now userId x d = (d1, Inr reply)"
  obtains ch where "d1 = upd_pending (pp_id p) (checkout_row env x p ch) d"
    and "\<not> list_ex (\<lambda>q. pp_id q \<noteq> pp_id p \<and> pp_checkout q = Some ch) (pendings d)"
    and "cr_checkout reply = Some ch" and "cr_total reply = ir_amount x + platform_fee env" and "cr_base reply = ir_amount x"
    and "\<not> ir_amount x < MIN_BACHS_CHECKOUT_AMOUNT_KOBO"
proof -
  have i: "\<not> ir_amount x < MIN_BACHS_CHECKOUT_AMOUNT_KOBO"
    "thenDo (transaction (claim_pending env now userId x) d) (\<lambda>(p, url) d1.
            case url of Some u \<Rightarrow> (d1, Inr (open_reply p u)) | None \<Rightarrow> start_checkout env x p d1) = (d1, Inr reply)"
    using assms(4) by (simp_all add: initiatePayment_def split: if_splits sum.splits)
  have "transaction (claim_pending env now userId x) d = (d, Inr (p, None))"
    if "transaction (claim_pending env now userId x) d = (d0, Inr r)" for d0 r
    using that assms(1-3) by (auto simp: transaction_Inr claim_pending_def Let_def split: if_splits)
  with i(2) have "start_checkout env x p d = (d1, Inr reply)" by (auto simp: thenDo_eq_Inr)
  then obtain ch u where "attach_checkout env x p ch u d = (d1, Inr reply)"
    by (auto simp: start_checkout_def Let_def split: sum.splits)
  then show ?thesis
    using i(1) by (intro that [of ch]) (auto simp: attach_checkout_def split: if_splits)
qed

text \<open>A pending row that is used again credits its old amount: when an earlier attempt left a pending row without
  a checkout, a new request for another amount opens its checkout for the new amount, the completion
  accepts the new amount, and the organization is credited with the old one. The payer chooses what
  to pay and the wallets grow by the amount of the first attempt.\<close>

lemma reused_row_credits_old_amount:
  assumes "collections_ok d"
    and row: "find (reusable userId x) (newest_first pp_created (pendings d)) = Some p"
      "lookup_by pp_id (pp_id p) (pendings d) = Some p" "pp_checkout p = None" "now < pp_created p + session_minutes"
    and i: "initiatePayment env now userId x d = (d1, Inr reply)"
    and "0 \<le> platform_fee env" and "cr_total reply \<le> 2 ^ 50"
    and c: "cn_checkout c = cr_checkout reply" "cn_pending c = None" "cn_reference c = None"
      "cn_amount c = Some (toBachsAmount (cr_total reply))"
    and s: "payable_wallets d p" "due_free d p" "payment_by_reference d (pp_reference p) = None" "\<not> collection_taken p c d"
  shows "cr_total reply = ir_amount x + platform_fee env \<and>
    (\<exists>pa d2. completePayment t c d1 = (d2, Inr (pa, False)) \<and> pa_amount pa = pp_amount p \<and>
      total wl_balance (wallets d2) = total wl_balance (wallets d) + pp_amount p + platform_fee env)"
proof -
  obtain ch where d1: "d1 = upd_pending (pp_id p) (checkout_row env x p ch) d"
    and new: "\<not> list_ex (\<lambda>q. pp_id q \<noteq> pp_id p \<and> pp_checkout q = Some ch) (pendings d)"
    and reply: "cr_checkout reply = Some ch" "cr_total reply = ir_amount x + platform_fee env"
    and min: "\<not> ir_amount x < MIN_BACHS_CHECKOUT_AMOUNT_KOBO"
    by (rule reused_checkout [OF row(1,3,4) i]) (rule that)
  let ?p = "checkout_row env x p ch p"
  have pos: "0 < cr_total reply" using min assms(7) by (simp add: reply MIN_BACHS_CHECKOUT_AMOUNT_KOBO_def)
  have st: "pp_status p = PpPending" using find_SomeD [OF row(1)] by (simp add: reusable_def)
  have ok1: "collections_ok d1"
    unfolding d1 by (rule pending_only_collections(1) [OF pending_only_upd assms(1)])
  have f: "find (names_pending c) (pendings d1) = Some ?p"
    using find_attached [OF new row(2), of c env x p] c reply by (simp add: d1)
  have amount: "settled_amount c = Some (cr_total reply)"
    using pos assms(8) c(4)
    by (simp add: settled_amount_def Let_def toBachsAmount_exact fromBachsAmount_decimal)
  have "settleable d1 ?p c"
    unfolding settleable_def
  proof (intro conjI)
    show "settled_amount c = Some (expected_settlement ?p)"
      using amount pos by (simp add: expected_settlement_def number_or_def reply)
    show "payable_wallets d1 ?p" using s(1) by (simp add: payable_wallets_def d1)
    show "payment_by_reference d1 (pp_reference ?p) = None" using s(3) by (simp add: payment_by_reference_def d1)
    show "\<not> collection_taken ?p c d1" using s(4) by (simp add: collection_taken_def d1)
    show "due_free d1 ?p" using s(2)
      by (cases "pp_assignment p") (simp_all add: due_free_def d1 has_payment_def fresh_for_def)
  qed (simp_all add: st c(1) reply)
  then obtain pa d2 where 1: "completePayment t c d1 = (d2, Inr (pa, False))" and n: "complete_new t ?p c d1 = Inr (pa, d2)"
    by (rule completion_settles [OF ok1 f])
  have "ledger_ok d1" "platform_apart d1" using ok1 by (simp_all add: collections_ok_def)
  note L = complete_new_ledger [OF n this]
  have "pending_fee ?p = platform_fee env" by (simp add: pending_fee_def number_or_def)
  with L(4,7) assms(7) have "pa_amount pa = pp_amount p"
    "total wl_balance (wallets d2) = total wl_balance (wallets d) + pp_amount p + platform_fee env"
    by (simp_all add: d1)
  with 1 reply(2) show ?thesis by blast
qed


section \<open>Examples\<close>

definition sample_row :: "int \<Rightarrow> ident option \<Rightarrow> pending_payment" where
  "sample_row amount checkout =
     \<lparr>pp_id = ''1'', pp_user = ''u'', pp_organization = ''g'', pp_amount = amount, pp_assignment = None,
      pp_reference = ''r'', pp_status = PpPending, pp_checkout = checkout, pp_charge = None,
      pp_meta = \<lparr>pm_base = Some amount, pm_platform_fee = Some 5000, pm_expected = Some (amount + 5000), pm_retries = None\<rparr>,
      pp_created = 0\<rparr>"

definition sample_collections :: "int \<Rightarrow> ident option \<Rightarrow> db" where
  "sample_collections amount checkout = sample_db 300 0 []\<lparr>pendings := [sample_row amount checkout]\<rparr>"

definition sample_completion :: "int \<Rightarrow> completion" where
  "sample_completion k =
     \<lparr>cn_checkout = Some ''c'', cn_charge = ''ch'', cn_amount = Some (of_int k / 100), cn_pending = None, cn_reference = None\<rparr>"

lemma sample_collection_fields [simp]:
  "wallets (sample_collections m ch) = wallets (sample_db 300 0 [])" "payments (sample_collections m ch) = []"
  "pendings (sample_collections m ch) = [sample_row m ch]" "entries (sample_collections m ch) = []"
  "txns (sample_collections m ch) = []" "due_payments (sample_collections m ch) = []"
  "accounts (sample_collections m ch) = accounts (sample_db 300 0 [])"
  by (simp_all add: sample_collections_def sample_db_def)

lemma sample_row_fields [simp]:
  "pp_id (sample_row m ch) = ''1''" "pp_user (sample_row m ch) = ''u''" "pp_organization (sample_row m ch) = ''g''"
  "pp_amount (sample_row m ch) = m" "pp_assignment (sample_row m ch) = None" "pp_status (sample_row m ch) = PpPending"
  "pp_checkout (sample_row m ch) = ch" "pp_created (sample_row m ch) = 0" "pending_fee (sample_row m ch) = 5000"
  "pp_reference (sample_row m ch) = ''r''"
  by (simp_all add: sample_row_def pending_fee_def number_or_def)

lemma sample_collections_ok: "collections_ok (sample_collections m ch)"
proof -
  have ok: "ledger_ok (sample_db 300 0 [])" by (rule sample_ledger_ok) simp_all
  have "pending_only (sample_db 300 0 []) (sample_collections m ch)" by (simp add: sample_collections_def)
  moreover have "platform_apart (sample_db 300 0 [])" by (simp add: platform_apart_def sample_defs)
  with ok have "collections_ok (sample_db 300 0 [])"
    by (simp add: collections_ok_def once_each_def) (simp add: sample_db_def)
  ultimately show ?thesis by (rule pending_only_collections(1))
qed

lemma sample_payable:
  "payable_wallets (sample_collections m ch) (sample_row m ch')" "due_free (sample_collections m ch) (sample_row m ch')"
  "payment_by_reference (sample_collections m ch) r = None" "\<not> collection_taken p c (sample_collections m ch)"
  "lookup_by wl_organization (Some ''g'') (wallets (sample_collections m ch)) =
     Some (sample_wallet ''o'' None (Some ''g'') False 500 0 ''oa'')"
  "platform_wallet (sample_collections m ch) = Some (sample_wallet ''p'' None None True 1000 0 ''pa'')"
  by (simp_all add: payable_wallets_def due_free_def fresh_for_def payment_by_reference_def collection_taken_def
      lookup_by_Cons lookup_by_Nil) (simp_all add: sample_defs lookup_by_Cons)

lemma sample_settleable: "settleable (sample_collections 20000 (Some ''c'')) (sample_row 20000 (Some ''c'')) (sample_completion 25000)"
proof -
  have "settled_amount (sample_completion 25000) = Some 25000"
    using fromBachsAmount_decimal [of 25000] by (simp add: settled_amount_def sample_completion_def Let_def)
  moreover have "expected_settlement (sample_row 20000 (Some ''c'')) = 25000"
    by (simp add: expected_settlement_def sample_row_def number_or_def)
  ultimately show ?thesis using sample_payable by (simp add: settleable_def sample_completion_def)
qed

lemma sample_found: "find (names_pending (sample_completion k)) (pendings (sample_collections m (Some ''c''))) = Some (sample_row m (Some ''c''))"
  by (simp add: names_pending_def sample_completion_def)

theorem completePayment_settles_witness:
  "\<exists>pa d'. completePayment 0 (sample_completion 25000) (sample_collections 20000 (Some ''c'')) = (d', Inr (pa, False)) \<and>
     pa_amount pa = 20000 \<and> map_option wl_balance (get_wallet d' ''o'') = Some 20500 \<and>
     map_option wl_balance (get_wallet d' ''p'') = Some 6000"
proof -
  obtain pa d' where 1: "completePayment 0 (sample_completion 25000) (sample_collections 20000 (Some ''c'')) = (d', Inr (pa, False))"
      "pa_amount pa = 20000"
    and b: "\<forall>i. map_option wl_balance (get_wallet d' i) =
        map_option (\<lambda>w. wl_balance w + (if i = ''o'' then 20000 else 0) + (if i = ''p'' then 5000 else 0))
          (get_wallet (sample_db 300 0 []) i)"
    using completePayment_settles [OF sample_collections_ok sample_found sample_settleable _ sample_payable(6), where now = 0]
      sample_payable(5) by (auto simp: sample_wallet_def simp del: sample_get)
  have "map_option wl_balance (get_wallet d' ''o'') = Some 20500" "map_option wl_balance (get_wallet d' ''p'') = Some 6000"
    using b [rule_format, of "''o''"] b [rule_format, of "''p''"] by (simp_all add: sample_wallet_def)
  with 1 show ?thesis by blast
qed

theorem completePayment_idempotent_witness:
  "\<exists>pa d'. completePayment 0 (sample_completion 25000) (sample_collections 20000 (Some ''c'')) = (d', Inr (pa, False)) \<and>
     completePayment 5 (sample_completion 77) d' = (d', Inr (pa, True))"
proof -
  obtain pa d' where 1: "completePayment 0 (sample_completion 25000) (sample_collections 20000 (Some ''c'')) = (d', Inr (pa, False))"
    by (rule completion_settles [OF sample_collections_ok sample_found sample_settleable])
  have "find (names_pending (sample_completion 77)) (pendings (sample_collections 20000 (Some ''c''))) =
      find (names_pending (sample_completion 25000)) (pendings (sample_collections 20000 (Some ''c'')))"
    by (simp only: sample_found)
  from completePayment_idempotent [OF sample_collections_ok 1 this, of 5] 1 show ?thesis by blast
qed


lemma collection_unreconciled_example:
  "\<exists>pa d'. completePayment 0 (sample_completion 25000) (sample_collections 20000 (Some ''c'')) = (d', Inr (pa, False)) \<and>
     map_option (\<lambda>a. la_balance a - posted_effect d' ''oa'') (get_account d' ''oa'') = Some 40500"
proof -
  obtain pa d' where 1: "completePayment 0 (sample_completion 25000) (sample_collections 20000 (Some ''c'')) = (d', Inr (pa, False))"
    and n: "complete_new 0 (sample_row 20000 (Some ''c'')) (sample_completion 25000) (sample_collections 20000 (Some ''c'')) = Inr (pa, d')"
    by (rule completion_settles [OF sample_collections_ok sample_found sample_settleable])
  have ok: "ledger_ok (sample_collections 20000 (Some ''c''))" "platform_apart (sample_collections 20000 (Some ''c''))"
    using sample_collections_ok by (simp_all add: collections_ok_def)
  note L = complete_new_ledger(7,10) [OF n ok]
  have "lookup_by wl_organization (Some (pa_organization pa)) (wallets (sample_collections 20000 (Some ''c''))) =
      Some (sample_wallet ''o'' None (Some ''g'') False 500 0 ''oa'')"
    using sample_payable(5) by (simp add: L(2))
  from collection_unreconciled [OF sample_collections_ok 1 this] 1 show ?thesis
    by (simp add: L(1) sample_wallet_def) (auto simp: sample_account_def posted_effect_def entries_effect_def)
qed

text \<open>A provider that opens the checkout \<open>c\<close>, and a request for another amount than the row's.\<close>

definition sample_env :: checkout_env where
  "sample_env =
     \<lparr>ce_customer = (\<lambda>u. Inr ''cus''), ce_get_session = (\<lambda>_. Inl (BadGateway (STR ''down''))),
      ce_create_session = (\<lambda>_ _. Inr (''c'', ''url'')),
      ce_url = (\<lambda>_. Some \<lparr>ur_protocol = ''https:'', ur_origin = ''o'', ur_href = ''h''\<rparr>), ce_origins = ''o'',
      ce_frontend = ''f'', ce_fee = 5000, ce_fee_enabled = True\<rparr>"

definition sample_request :: "int \<Rightarrow> payment_request" where
  "sample_request amount =
     \<lparr>ir_organization = ''g'', ir_amount = amount, ir_assignment = None, ir_reference = None, ir_success_url = None,
      ir_cancel_url = None\<rparr>"

lemma sample_redirect: "validateRedirectUrl (ce_url sample_env) (ce_origins sample_env) a = Inr ''h''"
proof -
  have "map trim (split_comma ''o'') = [''o'']" by (simp add: trim_def is_space_def)
  then show ?thesis by (simp add: validateRedirectUrl_def getAllowedRedirectOrigins_def sample_env_def)
qed

lemma sample_reuse: "find (reusable ''u'' (sample_request 10000)) (newest_first pp_created (pendings (sample_collections 50000 None))) = Some (sample_row 50000 None)"
  by (simp add: newest_first_def reusable_def sample_request_def)

lemma sample_initiate:
  "\<exists>d1. initiatePayment sample_env 7 ''u'' (sample_request 10000) (sample_collections 50000 None) =
     (d1, Inr \<lparr>cr_checkout = Some ''c'', cr_url = ''url'', cr_pending = ''1'', cr_base = 10000, cr_fee = 5000, cr_total = 15000\<rparr>)"
proof -
  have claim: "claim_pending sample_env 7 ''u'' (sample_request 10000) (sample_collections 50000 None) =
      Inr ((sample_row 50000 None, None), sample_collections 50000 None)"
    using sample_reuse by (simp add: claim_pending_def session_minutes_def sample_request_def Let_def)
  have fee: "platform_fee sample_env = 5000" by (simp add: platform_fee_def sample_env_def)
  have attach: "\<exists>d1. start_checkout sample_env (sample_request 10000) (sample_row 50000 None) (sample_collections 50000 None) =
      (d1, Inr \<lparr>cr_checkout = Some ''c'', cr_url = ''url'', cr_pending = ''1'', cr_base = 10000, cr_fee = 5000, cr_total = 15000\<rparr>)"
  proof -
    have "ce_create_session sample_env i k = Inr (''c'', ''url'')" "ir_amount (sample_request m) = m" for i k m
      by (simp_all add: sample_env_def sample_request_def)
    then show ?thesis by (simp add: start_checkout_def sample_redirect fee attach_checkout_def)
  qed
  have "users (sample_collections 50000 None) = [\<lparr>us_id = ''u''\<rparr>]" by (simp add: sample_collections_def sample_db_def)
  moreover have "transaction (claim_pending sample_env 7 ''u'' (sample_request 10000)) (sample_collections 50000 None) =
      (sample_collections 50000 None, Inr (sample_row 50000 None, None))"
    using claim by (simp add: transaction_Inr)
  moreover have "ce_customer sample_env u = Inr ''cus''" "ir_amount (sample_request m) = m" for u m
    by (simp_all add: sample_env_def sample_request_def)
  ultimately show ?thesis
    using attach by (simp add: initiatePayment_def lookup_by_Cons MIN_BACHS_CHECKOUT_AMOUNT_KOBO_def)
qed

text \<open>The payer settles 150.00 and the organization receives 500.00.\<close>

lemma reused_row_credits_old_amount_example:
  "\<exists>d1 reply pa d2. initiatePayment sample_env 7 ''u'' (sample_request 10000) (sample_collections 50000 None) = (d1, Inr reply) \<and>
     cr_total reply = 15000 \<and> completePayment 8 (sample_completion 15000) d1 = (d2, Inr (pa, False)) \<and> pa_amount pa = 50000"
proof -
  obtain d1 where i: "initiatePayment sample_env 7 ''u'' (sample_request 10000) (sample_collections 50000 None) =
     (d1, Inr \<lparr>cr_checkout = Some ''c'', cr_url = ''url'', cr_pending = ''1'', cr_base = 10000, cr_fee = 5000, cr_total = 15000\<rparr>)"
    using sample_initiate by blast
  have "\<exists>pa d2. completePayment 8 (sample_completion 15000) d1 = (d2, Inr (pa, False)) \<and> pa_amount pa = pp_amount (sample_row 50000 None)"
    using reused_row_credits_old_amount [OF sample_collections_ok sample_reuse _ _ _ i, of "sample_completion 15000" 8]
      sample_payable(1-4) toBachsAmount_exact [of 15000]
    by (simp add: lookup_by_Cons session_minutes_def sample_completion_def platform_fee_def sample_env_def) blast
  with i show ?thesis by fastforce
qed


end
