(* ===== verification/BachsSignature.thy ===== *)
theory BachsSignature
  imports Complex_Main Prelude BachsClient Json
begin

text \<open>
  \<open>BachsClient.verifyWebhookSignature\<close> (\<open>src/v1/bachs/bachs.client.ts\<close>): the authentication of the
  provider's webhooks. Strings and buffers are lists of bytes. HMAC-SHA256, Base64 and \<open>Number\<close> are
  arguments.

  The properties: in production only a fresh message signed with a configured secret is
  accepted, and a message signed the documented way is accepted.
\<close>

section \<open>The header\<close>

text \<open>\<open>split(/[ ,]+/)\<close> with the empty parts dropped.\<close>

definition is_separator :: "char \<Rightarrow> bool" where
  "is_separator c \<longleftrightarrow> c = CHR '' '' \<or> c = CHR '',''"

fun split_parts :: "string \<Rightarrow> string \<Rightarrow> string list" where
  "split_parts part [] = [rev part]"
| "split_parts part (c # cs) = (if is_separator c then rev part # split_parts [] cs else split_parts (c # part) cs)"

definition lower_char :: "char \<Rightarrow> char" where
  "lower_char c = (if 65 \<le> (of_char c :: nat) \<and> (of_char c :: nat) \<le> 90 then char_of ((of_char c :: nat) + 32) else c)"

text \<open>\<open>/^v\d+$/i\<close>: the name of a scheme alone.\<close>

fun is_version :: "string \<Rightarrow> bool" where
  "is_version [] = False"
| "is_version (c # cs) = (lower_char c = CHR ''v'' \<and> cs \<noteq> [] \<and> list_all is_digit cs)"

text \<open>\<open>replace(/^(sha256=|v\d+=|v\d+,)/i, '')\<close>.\<close>

definition strip_scheme :: "string \<Rightarrow> string" where
  "strip_scheme s =
     (if map lower_char (take 7 s) = ''sha256='' then drop 7 s
      else case s of
        [] \<Rightarrow> s
      | c # cs \<Rightarrow>
          (let ds = takeWhile is_digit cs; rest = dropWhile is_digit cs
           in if lower_char c = CHR ''v'' \<and> ds \<noteq> [] \<and> rest \<noteq> [] \<and> hd rest \<in> {CHR ''='', CHR '',''}
              then tl rest else s))"

definition suppliedSignatures :: "string \<Rightarrow> string list" where
  "suppliedSignatures signature =
     map strip_scheme (filter (\<lambda>p. \<not> is_version p) (filter (\<lambda>p. p \<noteq> []) (map trimmed (split_parts [] signature))))"

section \<open>Encodings\<close>

fun hex_value :: "char \<Rightarrow> nat option" where
  "hex_value c =
     (let n = (of_char c :: nat)
      in if 48 \<le> n \<and> n \<le> 57 then Some (n - 48)
         else if 97 \<le> n \<and> n \<le> 102 then Some (n - 87)
         else if 65 \<le> n \<and> n \<le> 70 then Some (n - 55)
         else None)"

declare hex_value.simps [simp del]

fun hex_decode :: "string \<Rightarrow> string" where
  "hex_decode (a # b # cs) =
     (case (hex_value a, hex_value b) of
        (Some x, Some y) \<Rightarrow> char_of (16 * x + y) # hex_decode cs
      | _ \<Rightarrow> [])"
| "hex_decode _ = []"

definition is_hex_digest :: "string \<Rightarrow> bool" where
  "is_hex_digest s \<longleftrightarrow> length s = 64 \<and> list_all (\<lambda>c. hex_value c \<noteq> None) s"

section \<open>The check\<close>

text \<open>
  The configuration and the primitives: the secret, whether the process runs in production, the
  tolerance in seconds, \<open>Number\<close> (\<open>None\<close> when not finite), the HMAC of a key and a message, and the
  Base64 decoder, which in Node never fails.
\<close>

record signature_env =
  sg_secret :: "string option"
  sg_production :: bool
  sg_tolerance :: rat
  sg_number :: "string \<Rightarrow> rat option"
  sg_hmac :: "string \<Rightarrow> string \<Rightarrow> string"
  sg_base64 :: "string \<Rightarrow> string"

definition secretCandidates :: "signature_env \<Rightarrow> string \<Rightarrow> string list" where
  "secretCandidates env secret =
     (if take 6 secret = ''whsec_'' then [secret, sg_base64 env (drop 6 secret)] else [secret])"

definition encodings :: "signature_env \<Rightarrow> string \<Rightarrow> string list" where
  "encodings env supplied = (if is_hex_digest supplied then [hex_decode supplied] else []) @ [sg_base64 env supplied]"

definition signature_matches :: "signature_env \<Rightarrow> string \<Rightarrow> string \<Rightarrow> string \<Rightarrow> string \<Rightarrow> bool" where
  "signature_matches env secret body signature timestamp \<longleftrightarrow>
     list_ex (\<lambda>key. list_ex (\<lambda>supplied. sg_hmac env key (timestamp @ ''.'' @ body) \<in> set (encodings env supplied))
       (suppliedSignatures signature)) (secretCandidates env secret)"

definition verifyBachsSignature ::
    "signature_env \<Rightarrow> nat \<Rightarrow> string \<Rightarrow> string option \<Rightarrow> string option \<Rightarrow> bool" where
  "verifyBachsSignature env now body signature timestamp =
     (let isDev = \<not> sg_production env
      in case nonempty (sg_secret env) of
           None \<Rightarrow> isDev
         | Some secret \<Rightarrow>
             (case (nonempty signature, nonempty timestamp) of
                (Some sig, Some ts) \<Rightarrow>
                  (case sg_number env ts of
                     None \<Rightarrow> False
                   | Some t \<Rightarrow>
                       if sg_tolerance env < \<bar>of_nat now / 1000 - t\<bar> then False
                       else if isDev \<and> (sig = ''test_signature'' \<or> sig = ''skip'') then True
                       else signature_matches env secret body sig ts)
              | _ \<Rightarrow> isDev))"

section \<open>What is accepted\<close>

text \<open>C21: In production a webhook is accepted only when it is authentic and fresh: a secret is configured, the
  signature and the timestamp are given, the timestamp is within the tolerance, and one of the
  signatures in the header decodes to the HMAC of the timestamp and the body under the secret
  (or under the decoded secret). The shortcuts of development never apply.\<close>

theorem accepted_webhook_is_authentic:
  assumes "sg_production env" and "verifyBachsSignature env now body signature timestamp"
  shows "\<exists>secret sig ts t key supplied. nonempty (sg_secret env) = Some secret
    \<and> nonempty signature = Some sig \<and> nonempty timestamp = Some ts
    \<and> sg_number env ts = Some t \<and> \<bar>of_nat now / 1000 - t\<bar> \<le> sg_tolerance env
    \<and> key \<in> set (secretCandidates env secret) \<and> supplied \<in> set (suppliedSignatures sig)
    \<and> sg_hmac env key (ts @ ''.'' @ body) \<in> set (encodings env supplied)"
proof -
  obtain secret where s: "nonempty (sg_secret env) = Some secret"
    using assms by (cases "nonempty (sg_secret env)") (simp_all add: verifyBachsSignature_def)
  obtain sig ts where g: "nonempty signature = Some sig" "nonempty timestamp = Some ts"
    using assms s
    by (cases "nonempty signature"; cases "nonempty timestamp") (simp_all add: verifyBachsSignature_def)
  obtain t where t: "sg_number env ts = Some t"
    using assms s g by (cases "sg_number env ts") (simp_all add: verifyBachsSignature_def)
  have "\<not> sg_tolerance env < \<bar>of_nat now / 1000 - t\<bar>" and m: "signature_matches env secret body sig ts"
    using assms s g t by (auto simp: verifyBachsSignature_def split: if_splits)
  then have "\<bar>of_nat now / 1000 - t\<bar> \<le> sg_tolerance env" by simp
  with m s g t show ?thesis unfolding signature_matches_def list_ex_iff by blast
qed

text \<open>
  An environment for the examples: a keyed checksum in place of HMAC-SHA256, of its length, and
  a Base64 decoder that is never right.
\<close>

definition sample_mac :: "string \<Rightarrow> string \<Rightarrow> string" where
  "sample_mac key message = replicate 31 CHR ''m'' @ [char_of (length key + length message)]"

definition sample_signing :: "bool \<Rightarrow> signature_env" where
  "sample_signing production =
     \<lparr>sg_secret = Some ''k'', sg_production = production, sg_tolerance = 300, sg_number = parseFloat,
      sg_hmac = sample_mac, sg_base64 = (\<lambda>_. [])\<rparr>"

section \<open>What must be accepted\<close>

definition hex_char :: "nat \<Rightarrow> char" where
  "hex_char n = char_of (if n < 10 then 48 + n else 87 + n)"

definition hex_encode :: "string \<Rightarrow> string" where
  "hex_encode s = concat (map (\<lambda>c. [hex_char (of_char c div 16), hex_char (of_char c mod 16)]) s)"

lemma of_hex_char: "n < 16 \<Longrightarrow> (of_char (hex_char n) :: nat) = (if n < 10 then 48 + n else 87 + n)"
  by (simp add: hex_char_def)

lemma hex_value_char [simp]: "n < 16 \<Longrightarrow> hex_value (hex_char n) = Some n"
  by (simp add: hex_value.simps of_hex_char Let_def)

lemma hex_decode_encode: "hex_decode (hex_encode s) = s"
proof (induction s)
  case Nil
  then show ?case by (simp add: hex_encode_def)
next
  case (Cons c s)
  have "(of_char c :: nat) < 256" by simp
  then have "(of_char c :: nat) div 16 < 16" by (simp add: div_less_iff_less_mult)
  moreover have "16 * ((of_char c :: nat) div 16) + of_char c mod 16 = of_char c" by (rule mult_div_mod_eq)
  ultimately show ?case using Cons by (simp add: hex_encode_def)
qed

lemma length_hex_encode: "length (hex_encode s) = 2 * length s"
  by (induction s) (simp_all add: hex_encode_def)

lemma hex_encode_chars: "list_all (\<lambda>c. hex_value c \<noteq> None) (hex_encode s)"
proof (induction s)
  case Nil
  then show ?case by (simp add: hex_encode_def)
next
  case (Cons c s)
  have "(of_char c :: nat) < 256" by simp
  then have "(of_char c :: nat) div 16 < 16" by (simp add: div_less_iff_less_mult)
  with Cons show ?case by (simp add: hex_encode_def)
qed

text \<open>Hexadecimal digits separate nothing, and no scheme begins with one of them.\<close>

lemma hex_char_plain:
  assumes "hex_value c \<noteq> None"
  shows "\<not> is_separator c" and "\<not> is_space c" and "lower_char c \<noteq> CHR ''v''" and "lower_char c \<noteq> CHR ''s''"
  using assms
  by (auto simp: hex_value.simps is_separator_def is_space_def lower_char_def Let_def split: if_splits
      dest!: arg_cong [where f = "of_char :: char \<Rightarrow> nat"])

lemma encodings_hex: "length digest = 32 \<Longrightarrow> digest \<in> set (encodings env (hex_encode digest))"
  unfolding encodings_def is_hex_digest_def length_hex_encode hex_decode_encode
  using hex_encode_chars [of digest] by (simp del: not_None_eq)

lemma split_parts_plain:
  "list_all (\<lambda>c. \<not> is_separator c) s \<Longrightarrow> split_parts part s = [rev part @ s]"
  by (induction s arbitrary: part) simp_all

lemma trimmed_plain:
  assumes "list_all (\<lambda>c. \<not> is_space c) s"
  shows "trimmed s = s"
proof -
  have keep: "dropWhile is_space t = t" if "list_all (\<lambda>c. \<not> is_space c) t" for t
    using that by (cases t) simp_all
  have "list_all (\<lambda>c. \<not> is_space c) (rev s)" using assms by (simp add: list_all_iff)
  with keep [OF assms] keep show ?thesis by (simp add: trimmed_def)
qed

text \<open>The ways to write a signature: bare, or after the name of its scheme.\<close>

definition signature_schemes :: "string list" where
  "signature_schemes = ['''', ''sha256='', ''v1='']"

lemma supplied_signature:
  assumes s: "list_all (\<lambda>c. hex_value c \<noteq> None) s" "s \<noteq> []" and p: "scheme \<in> set signature_schemes"
  shows "suppliedSignatures (scheme @ s) = [s]"
proof -
  have plain: "list_all (\<lambda>c. \<not> is_separator c) s" "list_all (\<lambda>c. \<not> is_space c) s"
    using s(1) hex_char_plain(1,2) by (simp_all add: list_all_iff)
  have sc: "list_all (\<lambda>c. \<not> is_separator c \<and> \<not> is_space c) scheme"
    using p by (auto simp: signature_schemes_def is_separator_def is_space_def)
  have "split_parts [] (scheme @ s) = [scheme @ s]" "trimmed (scheme @ s) = scheme @ s"
    using split_parts_plain [of "scheme @ s" "[]"] trimmed_plain [of "scheme @ s"] plain sc
    by (auto simp: list_all_iff)
  moreover obtain c cs where c: "s = c # cs" using s(2) by (cases s) simp_all
  then have h: "lower_char c \<noteq> CHR ''v''" "lower_char c \<noteq> CHR ''s''" using s(1) hex_char_plain(3,4) by simp_all
  have "\<not> is_version (scheme @ s)" and "strip_scheme (scheme @ s) = s"
    using p h c by (auto simp: signature_schemes_def strip_scheme_def lower_char_def is_digit_def)
  ultimately show ?thesis using s(2) by (simp add: suppliedSignatures_def)
qed

text \<open>A genuine webhook is accepted: when the message is fresh and its HMAC, of 32 bytes, is written in
  hexadecimal under any of the documented schemes, verification succeeds, in production and in
  development alike.\<close>

lemma genuine_webhook_accepted:
  assumes "nonempty (sg_secret env) = Some secret" and "ts \<noteq> ''''" and "sg_number env ts = Some t"
    and "\<bar>of_nat now / 1000 - t\<bar> \<le> sg_tolerance env"
    and "scheme \<in> set signature_schemes" and "length (sg_hmac env secret (ts @ ''.'' @ body)) = 32"
  shows "verifyBachsSignature env now body (Some (scheme @ hex_encode (sg_hmac env secret (ts @ ''.'' @ body)))) (Some ts)"
proof -
  let ?h = "sg_hmac env secret (ts @ ''.'' @ body)"
  have ne: "hex_encode ?h \<noteq> []" using assms(6) length_hex_encode [of ?h] by (auto simp del: length_0_conv)
  have sup: "suppliedSignatures (scheme @ hex_encode ?h) = [hex_encode ?h]"
    by (rule supplied_signature [OF hex_encode_chars ne assms(5)])
  have "?h \<in> set (encodings env (hex_encode ?h))" by (rule encodings_hex [OF assms(6)])
  moreover have "secret \<in> set (secretCandidates env secret)" by (simp add: secretCandidates_def)
  ultimately have "signature_matches env secret body (scheme @ hex_encode ?h) ts"
    unfolding signature_matches_def sup list_ex_iff by (auto simp del: append.simps)
  then show ?thesis using assms(1-4) ne by (simp add: verifyBachsSignature_def nonempty_def)
qed

lemma sample_signature_facts:
  "nonempty (sg_secret (sample_signing True)) = Some ''k''"
  "sg_number (sample_signing True) (fixed2_text 100) = Some 1"
  "length (sg_hmac (sample_signing True) ''k'' (fixed2_text 100 @ ''.'' @ ''{}'')) = 32"
  by (simp_all add: sample_signing_def nonempty_def parse_fixed2_text sample_mac_def)

lemma genuine_webhook_accepted_example:
  "verifyBachsSignature (sample_signing True) 1000 ''{}''
     (Some (''v1='' @ hex_encode (sg_hmac (sample_signing True) ''k'' (fixed2_text 100 @ ''.'' @ ''{}''))))
     (Some (fixed2_text 100))"
  by (rule genuine_webhook_accepted [OF sample_signature_facts(1) _ sample_signature_facts(2) _ _ sample_signature_facts(3)])
    (simp_all add: fixed2_text_def signature_schemes_def sample_signing_def)

text \<open>The same message carries a signature that is accepted for its own sake.\<close>

lemma sample_webhook_accepted:
  "verifyBachsSignature (sample_signing True) 1000 ''{}''
     (Some (''v1='' @ hex_encode (sample_mac ''k'' (fixed2_text 100 @ ''.'' @ ''{}'')))) (Some (fixed2_text 100))"
proof -
  have "hex_encode (sample_mac ''k'' (fixed2_text 100 @ ''.'' @ ''{}'')) \<noteq> []"
    by (simp add: hex_encode_def sample_mac_def)
  then have "suppliedSignatures (''v1='' @ hex_encode (sample_mac ''k'' (fixed2_text 100 @ ''.'' @ ''{}''))) =
    [hex_encode (sample_mac ''k'' (fixed2_text 100 @ ''.'' @ ''{}''))]"
    by (intro supplied_signature hex_encode_chars) (simp_all add: signature_schemes_def)
  then have "signature_matches (sample_signing True) ''k'' ''{}''
    (''v1='' @ hex_encode (sample_mac ''k'' (fixed2_text 100 @ ''.'' @ ''{}''))) (fixed2_text 100)"
    using encodings_hex [of "sample_mac ''k'' (fixed2_text 100 @ ''.'' @ ''{}'')" "sample_signing True"]
    by (simp add: signature_matches_def secretCandidates_def sample_signing_def) (simp add: sample_mac_def)
  then show ?thesis
    using sample_signature_facts by (simp add: verifyBachsSignature_def nonempty_def sample_signing_def fixed2_text_def)
qed

theorem accepted_webhook_is_authentic_witness:
  "\<exists>key supplied. key \<in> set (secretCandidates (sample_signing True) ''k'')
    \<and> supplied \<in> set (suppliedSignatures (''v1='' @ hex_encode (sample_mac ''k'' (fixed2_text 100 @ ''.'' @ ''{}''))))
    \<and> sample_mac key (fixed2_text 100 @ ''.'' @ ''{}'') \<in> set (encodings (sample_signing True) supplied)"
proof -
  have "sg_production (sample_signing True)" by (simp add: sample_signing_def)
  from accepted_webhook_is_authentic [OF this sample_webhook_accepted] sample_signature_facts(1)
  show ?thesis by (auto simp: nonempty_def sample_signing_def split: if_splits)
qed

end
