(* ===== verification/CollectionWebhooks.thy ===== *)
theory CollectionWebhooks
  imports Prelude FinanceDb Samples Wallets BachsClient Dues Json Books Collections CollectionBooks CollectionProperties
    BachsSignature
begin

text \<open>
  \<open>BachsWebhookController\<close> (\<open>src/v1/bachs/bachs-webhook.controller.ts\<close>): a delivery is verified, then
  dispatched on its event type. An identifier that is present but no string makes Prisma reject the
  query; an integer charge of a checkout is printed.

  The properties: a delivery that is not authentic changes nothing, deliveries of any content keep
  the money conserved, a success that is delivered again changes nothing, and a failure report marks
  rows it should not.
\<close>

section \<open>The members that are read\<close>

record delivery =
  dl_signatures :: "string option list"
  dl_timestamp :: "string option"
  dl_raw :: "string option"
  dl_payload :: json

fun first_header :: "string option list \<Rightarrow> string option" where
  "first_header [] = None"
| "first_header (h # hs) = (case nonempty h of Some s \<Rightarrow> Some s | None \<Rightarrow> first_header hs)"

definition event_type :: "json \<Rightarrow> json" where
  "event_type payload = first_of [dot payload ''type'', dot payload ''event'', dot payload ''event_type'']"

definition webhook_data :: "json \<Rightarrow> json" where
  "webhook_data payload = first_of [dot (dot payload ''data'') ''object'', dot payload ''data'', payload]"

definition webhook_metadata :: "json \<Rightarrow> json" where
  "webhook_metadata payload = first_of [dot (webhook_data payload) ''metadata'', dot payload ''metadata'', Obj []]"

text \<open>\<open>typeof x === 'object' ? (x?.value ?? x?.amount) : x\<close>; \<open>null\<close> is an object.\<close>

fun value_amount :: "json \<Rightarrow> json" where
  "value_amount (Obj ms) = coalesce (dot (Obj ms) ''value'') (dot (Obj ms) ''amount'')"
| "value_amount Null = Undefined"
| "value_amount v = v"

definition ident_of :: "json \<Rightarrow> string result" where
  "ident_of v = (case v of Str s \<Rightarrow> Inr s | _ \<Rightarrow> Inl (Internal (STR ''invalid identifier'')))"

section \<open>Successes\<close>

definition handleCheckoutCompleted :: "checkout_env \<Rightarrow> nat \<Rightarrow> json \<Rightarrow> db \<Rightarrow> db \<times> unit result" where
  "handleCheckoutCompleted env now payload d =
     (let data = webhook_data payload;
          metadata = webhook_metadata payload;
          checkoutId = first_of [dot data ''checkout_id'', dot data ''id'', dot metadata ''checkoutId'', dot payload ''checkout_id'']
      in if \<not> truthy checkoutId then (d, Inl (BadRequest (STR ''Completed checkout webhook is missing checkout ID'')))
         else thenDo (d, ident_of checkoutId) (\<lambda>i d. thenDo (d, ce_get_session env i) (\<lambda>checkout d.
           if upper_text (or_else_js (dot checkout ''payment_status'') (dot checkout ''status''))
                \<notin> {''PAID'', ''COMPLETED'', ''SUCCEEDED''}
           then (d, Inr ())
           else
             let pay = provider_payment checkout;
                 amount = value_amount (first_given [dot pay ''settlement_amount'', dot pay ''amount_paid'', dot pay ''amount'',
                            dot (dot checkout ''pricing'') ''amount''])
             in if \<not> truthy (charge_of pay) \<or> nullish amount
                then (d, Inl (BadRequest (STR ''Completed checkout could not be verified with payment details'')))
                else thenDo (d, require_some (printed (charge_of pay)) (Internal (STR ''invalid identifier''))) (\<lambda>ch d.
                  map_prod id (map_sum id (\<lambda>_. ())) (completePayment now
                    (checkout_completion i ch amount
                      (first_of [dot checkout ''metadata'', dot pay ''metadata'', metadata])) d)))))"

text \<open>Errors other than a bad request become an internal error.\<close>

definition provider_retry :: "'a result \<Rightarrow> unit result" where
  "provider_retry r =
     (case r of
        Inr _ \<Rightarrow> Inr ()
      | Inl (BadRequest m) \<Rightarrow> Inl (BadRequest m)
      | Inl _ \<Rightarrow> Inl (Internal (STR ''Payment processing failed'')))"

definition generated_charge :: "nat \<Rightarrow> json" where
  "generated_charge now = Str (''charge_'' @ show_nat now)"

definition handleCollectionSucceeded :: "nat \<Rightarrow> json \<Rightarrow> db \<Rightarrow> db \<times> unit result" where
  "handleCollectionSucceeded now payload d =
     (let data = webhook_data payload;
          metadata = webhook_metadata payload;
          chargeId = first_of [dot data ''charge_id'', dot data ''id'', dot payload ''id'', generated_charge now];
          checkoutId = first_of [dot data ''checkout_id'', dot data ''checkout_session_id'', dot data ''checkoutId'',
                         dot metadata ''checkoutId'', dot metadata ''bachsCheckoutId'', dot payload ''checkout_id''];
          rawAmount = first_given [dot data ''settlement_amount'', dot data ''amount_paid'', dot data ''amount'',
                        dot (dot data ''pricing'') ''amount'', dot payload ''amount''];
          amount = value_amount rawAmount;
          currency = first_of [dot data ''settlement_currency'', dot data ''currency'', dot (dot data ''pricing'') ''currency'',
                       dot rawAmount ''currency'']
      in if \<not> truthy checkoutId \<or> nullish amount
         then (d, Inl (BadRequest (STR ''Successful payment webhook is missing checkout ID or amount'')))
         else if truthy currency \<and> upper_text currency \<noteq> ''NGN''
         then (d, Inl (BadRequest (STR ''Unexpected payment currency'')))
         else map_prod id provider_retry
           (thenDo (d, ident_of checkoutId) (\<lambda>i d. thenDo (d, ident_of chargeId) (\<lambda>ch d.
             completePayment now (checkout_completion i ch amount metadata) d))))"

section \<open>Reports of failure\<close>

text \<open>
  \<open>pendingPayment.findFirst({ where: { bachsCheckoutId: x } })\<close>: a condition that is \<open>undefined\<close> is no
  condition, \<open>null\<close> matches the rows without a checkout, and anything but a string is an error.
\<close>

definition reported_row :: "json \<Rightarrow> db \<Rightarrow> pending_payment option" where
  "reported_row v d =
     (case v of
        Undefined \<Rightarrow> find (\<lambda>_. True) (pendings d)
      | Null \<Rightarrow> find (\<lambda>p. pp_checkout p = None) (pendings d)
      | Str s \<Rightarrow> find (\<lambda>p. pp_checkout p = Some s) (pendings d)
      | _ \<Rightarrow> None)"

definition report_pending :: "pending_status \<Rightarrow> json \<Rightarrow> db \<Rightarrow> db \<times> unit result" where
  "report_pending status payload d =
     (let data = dot payload ''data''
      in if nullish data then (d, Inl (Internal (STR ''Cannot read properties of undefined'')))
         else case reported_row (dot data ''checkout_id'') d of
           None \<Rightarrow> (d, Inr ())
         | Some p \<Rightarrow> (upd_pending (pp_id p) (\<lambda>r. r\<lparr>pp_status := status\<rparr>) d, Inr ()))"

definition handleCollectionFailed :: "json \<Rightarrow> db \<Rightarrow> db \<times> unit result" where
  "handleCollectionFailed payload d = report_pending PpFailed payload d"

definition handleCollectionUnderpaid :: "json \<Rightarrow> db \<Rightarrow> db \<times> unit result" where
  "handleCollectionUnderpaid payload d = report_pending PpFailed payload d"

definition handleCheckoutExpired :: "json \<Rightarrow> db \<Rightarrow> db \<times> unit result" where
  "handleCheckoutExpired payload d = report_pending PpExpired payload d"

section \<open>The delivery\<close>

definition succeeded_events :: "string list" where
  "succeeded_events = [''collection.succeeded'', ''payment.succeeded'', ''charge.succeeded'', ''checkout.session.completed'']"

definition failed_events :: "string list" where
  "failed_events = [''collection.failed'', ''payment.failed'', ''charge.failed'']"

definition dispatch_webhook :: "checkout_env \<Rightarrow> nat \<Rightarrow> json \<Rightarrow> db \<Rightarrow> db \<times> unit result" where
  "dispatch_webhook env now payload d =
     (case event_type payload of
        Str e \<Rightarrow>
          if e \<in> set succeeded_events then handleCollectionSucceeded now payload d
          else if e = ''checkout.completed'' then handleCheckoutCompleted env now payload d
          else if e \<in> set failed_events then handleCollectionFailed payload d
          else if e = ''collection.underpaid'' then handleCollectionUnderpaid payload d
          else if e = ''checkout.expired'' then handleCheckoutExpired payload d
          else (d, Inr ())
      | _ \<Rightarrow> (d, Inr ()))"

definition handleWebhook :: "signature_env \<Rightarrow> checkout_env \<Rightarrow> nat \<Rightarrow> delivery \<Rightarrow> db \<Rightarrow> db \<times> unit result" where
  "handleWebhook sg env now x d =
     (if nullish (dl_payload x) then (d, Inl (Internal (STR ''Cannot read properties of undefined'')))
      else case dl_raw x of
        None \<Rightarrow> (d, Inl (BadRequest (STR ''Invalid signature'')))
      | Some body \<Rightarrow>
          if verifyBachsSignature sg now body (first_header (dl_signatures x)) (dl_timestamp x)
          then dispatch_webhook env now (dl_payload x) d
          else (d, Inl (BadRequest (STR ''Invalid signature''))))"

section \<open>What a delivery may do\<close>

text \<open>A delivery that is not authentic changes nothing: without the raw body, or with a signature that does not
  verify, the database stays as it is and the provider is told to retry.\<close>

lemma unauthentic_webhook_refused:
  assumes "dl_raw x = None \<or>
    \<not> verifyBachsSignature sg now (the (dl_raw x)) (first_header (dl_signatures x)) (dl_timestamp x)"
  shows "\<exists>e. handleWebhook sg env now x d = (d, Inl e)"
  using assms by (auto simp: handleWebhook_def split: option.split)

definition sample_delivery :: "string option \<Rightarrow> json \<Rightarrow> delivery" where
  "sample_delivery sig payload =
     \<lparr>dl_signatures = [None, sig], dl_timestamp = Some ''1'', dl_raw = Some ''{}'', dl_payload = payload\<rparr>"

definition collects :: "db \<Rightarrow> db \<Rightarrow> bool" where
  "collects d d' \<longleftrightarrow> (\<exists>t c. d' = fst (completePayment t c d)) \<or> pending_only d d'"

lemma collects_refl [simp]: "collects d d"
  by (simp add: collects_def)

lemma collects_completion [simp]: "collects d (fst (completePayment t c d))"
  unfolding collects_def by blast

lemma collects_thenDo: "(\<And>x. collects d (fst (k x d))) \<Longrightarrow> collects d (fst (thenDo (d, r) k))"
  by (cases r) simp_all

lemma fst_map_prod_id [simp]: "fst (map_prod id f r) = fst r"
  by (cases r) simp

lemma handleCheckoutCompleted_collects: "collects d (fst (handleCheckoutCompleted env now payload d))"
  by (auto simp: handleCheckoutCompleted_def Let_def intro!: collects_thenDo)

lemma handleCollectionSucceeded_collects: "collects d (fst (handleCollectionSucceeded now payload d))"
  by (auto simp: handleCollectionSucceeded_def Let_def intro!: collects_thenDo)

lemma report_pending_collects: "collects d (fst (report_pending status payload d))"
  by (simp add: report_pending_def Let_def collects_def split: option.split)

lemma dispatch_webhook_collects: "collects d (fst (dispatch_webhook env now payload d))"
  using handleCheckoutCompleted_collects handleCollectionSucceeded_collects report_pending_collects
  by (simp add: dispatch_webhook_def handleCollectionFailed_def handleCollectionUnderpaid_def handleCheckoutExpired_def
      split: json.split)

lemma handleWebhook_collects: "collects d (fst (handleWebhook sg env now x d))"
  using dispatch_webhook_collects by (simp add: handleWebhook_def split: option.split)

lemma collects_keeps:
  assumes "collects d d'" and "collections_ok d \<and> total wl_balance (wallets d) - collected d = x"
  shows "collections_ok d' \<and> total wl_balance (wallets d') - collected d' = x"
  using assms completePayment_collections pending_only_collections by (auto simp: collects_def)

text \<open>Requests of users and deliveries of the provider, in any order.\<close>

datatype collection_event =
    Request collection_operation
  | Deliver signature_env checkout_env nat delivery

fun collection_step :: "collection_event \<Rightarrow> db \<Rightarrow> db" where
  "collection_step (Request e) d = perform_collection e d"
| "collection_step (Deliver sg env now x) d = fst (handleWebhook sg env now x d)"

interpretation collection_traffic:
  kept_invariant collection_step "\<lambda>d. collections_ok d \<and> total wl_balance (wallets d) - collected d = x" for x
proof unfold_locales
  fix d e
  assume "collections_ok d \<and> total wl_balance (wallets d) - collected d = x"
  then show "collections_ok (collection_step e d) \<and>
      total wl_balance (wallets (collection_step e d)) - collected (collection_step e d) = x"
    using collects_keeps [OF handleWebhook_collects] perform_collection_keeps by (cases e) simp_all
qed

text \<open>C5: Whatever the users request and whatever the provider delivers, in any order, with any content and any
  answers: the books stay well-formed and mirrored, no reference and no charge is paid twice, and
  the money in the wallets grows by exactly what the payments record.\<close>

theorem webhooks_conserve:
  assumes "collections_ok d"
  shows "collections_ok (fold collection_step es d) \<and>
    total wl_balance (wallets (fold collection_step es d)) - total wl_balance (wallets d) =
      collected (fold collection_step es d) - collected d"
  using collection_traffic.sequence_keeps [of d "total wl_balance (wallets d) - collected d" es] assms by simp

theorem webhooks_conserve_witness:
  "once_each (payments (fold collection_step [Deliver (sample_signing True) sample_env 0 (sample_delivery None Null),
     Request (Complete 0 (sample_completion 25000))] (sample_collections 20000 (Some ''c''))))"
  using webhooks_conserve [OF sample_collections_ok, of "[Deliver (sample_signing True) sample_env 0 (sample_delivery None Null),
     Request (Complete 0 (sample_completion 25000))]"]
  by (simp add: collections_ok_def del: fold_simps)

section \<open>Delivered again\<close>

lemma provider_retry_Inr: "provider_retry r = Inr () \<longleftrightarrow> (\<exists>x. r = Inr x)"
  by (auto simp: provider_retry_def split: sum.split http_error.split)

lemma completion_names: "find (names_pending (checkout_completion i ch a m)) ps = find (names_pending (checkout_completion i ch' a m)) ps"
proof -
  have "names_pending (checkout_completion i ch a m) p = names_pending (checkout_completion i ch' a m) p" for p
    by (simp add: names_pending_def checkout_completion_def)
  then have "names_pending (checkout_completion i ch a m) = names_pending (checkout_completion i ch' a m)" by (rule ext)
  then show ?thesis by simp
qed


lemma charge_given: "ident_of (first_of [a, b, c, generated_charge now]) = Inr ch \<Longrightarrow>
    \<exists>ch'. ident_of (first_of [a, b, c, generated_charge now']) = Inr ch'"
  by (simp add: or_else_js_def generated_charge_def ident_of_def split: if_splits)

lemma success_again:
  assumes "handleCollectionSucceeded now payload d = (d', Inr ())" and "collections_ok d"
  shows "handleCollectionSucceeded now' payload d' = (d', Inr ())"
proof -
  define checkoutId where "checkoutId = first_of [dot (webhook_data payload) ''checkout_id'',
      dot (webhook_data payload) ''checkout_session_id'', dot (webhook_data payload) ''checkoutId'',
      dot (webhook_metadata payload) ''checkoutId'', dot (webhook_metadata payload) ''bachsCheckoutId'', dot payload ''checkout_id'']"
  define chargeId where "chargeId = (\<lambda>t. first_of [dot (webhook_data payload) ''charge_id'', dot (webhook_data payload) ''id'',
      dot payload ''id'', generated_charge t])"
  define rawAmount where "rawAmount = first_given [dot (webhook_data payload) ''settlement_amount'',
      dot (webhook_data payload) ''amount_paid'', dot (webhook_data payload) ''amount'',
      dot (dot (webhook_data payload) ''pricing'') ''amount'', dot payload ''amount'']"
  define refused where "refused \<longleftrightarrow> \<not> truthy checkoutId \<or> nullish (value_amount rawAmount)"
  define currency where "currency = first_of [dot (webhook_data payload) ''settlement_currency'', dot (webhook_data payload) ''currency'',
      dot (dot (webhook_data payload) ''pricing'') ''currency'', dot rawAmount ''currency'']"
  have h: "handleCollectionSucceeded t payload b =
      (if refused then (b, Inl (BadRequest (STR ''Successful payment webhook is missing checkout ID or amount'')))
       else if truthy currency \<and> upper_text currency \<noteq> ''NGN'' then (b, Inl (BadRequest (STR ''Unexpected payment currency'')))
       else map_prod id provider_retry (thenDo (b, ident_of checkoutId) (\<lambda>i b. thenDo (b, ident_of (chargeId t)) (\<lambda>ch b.
             completePayment t (checkout_completion i ch (value_amount rawAmount) (webhook_metadata payload)) b))))" for t b
    unfolding handleCollectionSucceeded_def Let_def checkoutId_def chargeId_def rawAmount_def refused_def currency_def by (rule refl)
  from assms(1) have g: "\<not> refused" "\<not> (truthy currency \<and> upper_text currency \<noteq> ''NGN'')"
    unfolding h by (auto split: if_splits)
  obtain r where r: "thenDo (d, ident_of checkoutId) (\<lambda>i b. thenDo (b, ident_of (chargeId now)) (\<lambda>ch b.
      completePayment now (checkout_completion i ch (value_amount rawAmount) (webhook_metadata payload)) b)) = (d', Inr r)"
    using assms(1) g unfolding h
    by (cases "thenDo (d, ident_of checkoutId) (\<lambda>i b. thenDo (b, ident_of (chargeId now)) (\<lambda>ch b.
      completePayment now (checkout_completion i ch (value_amount rawAmount) (webhook_metadata payload)) b))")
      (auto simp: provider_retry_Inr)
  obtain i ch where i: "ident_of checkoutId = Inr i" and ch: "ident_of (chargeId now) = Inr ch"
    and 1: "completePayment now (checkout_completion i ch (value_amount rawAmount) (webhook_metadata payload)) d = (d', Inr r)"
    using r by (cases "ident_of checkoutId"; cases "ident_of (chargeId now)") simp_all
  obtain pa again where pa: "r = (pa, again)" by (cases r)
  obtain ch' where ch': "ident_of (chargeId now') = Inr ch'" using charge_given ch unfolding chargeId_def by blast
  have "completePayment now' (checkout_completion i ch' (value_amount rawAmount) (webhook_metadata payload)) d' = (d', Inr (pa, True))"
    by (rule completion_again [OF assms(2) 1 [unfolded pa] completion_names])
  with g i ch' show ?thesis unfolding h by (simp add: provider_retry_def)
qed

text \<open>A success that is delivered again changes nothing: when the provider's report of a collection was
  processed, every later delivery of the same report that still verifies is acknowledged and leaves
  the database as it is, even when the report carries no charge and one is generated from the time.\<close>

lemma redelivered_success_changes_nothing:
  assumes "collections_ok d" and "event_type (dl_payload x) = Str e" and "e \<in> set succeeded_events"
    and "handleWebhook sg env now x d = (d', Inr ())"
    and "verifyBachsSignature sg now' (the (dl_raw x)) (first_header (dl_signatures x)) (dl_timestamp x)"
  shows "handleWebhook sg env now' x d' = (d', Inr ())"
proof -
  obtain body where b: "\<not> nullish (dl_payload x)" "dl_raw x = Some body" and h: "dispatch_webhook env now (dl_payload x) d = (d', Inr ())"
    using assms(4) by (auto simp: handleWebhook_def split: if_splits option.splits)
  from h have "handleCollectionSucceeded now (dl_payload x) d = (d', Inr ())" by (simp add: dispatch_webhook_def assms(2,3))
  from success_again [OF this assms(1), of now'] b assms(5) show ?thesis
    by (simp add: handleWebhook_def dispatch_webhook_def assms(2,3))
qed

section \<open>Reports that hit the wrong row\<close>

text \<open>A failure report without a checkout identifier hits another payment: the missing condition matches every
  row, so that the first pending payment of the table, whoever owns it and whatever its status, is
  marked failed.\<close>

lemma report_without_checkout_fails_first_row:
  assumes "verifyBachsSignature sg now (the (dl_raw x)) (first_header (dl_signatures x)) (dl_timestamp x)" and "dl_raw x \<noteq> None"
    and "event_type (dl_payload x) = Str e" and "e \<in> set failed_events"
    and "dot (dl_payload x) ''data'' = Obj ms" and "map_of ms ''checkout_id'' = None"
    and "pendings d = p # ps"
  shows "\<exists>d'. handleWebhook sg env now x d = (d', Inr ()) \<and> get_pending d' (pp_id p) = Some (p\<lparr>pp_status := PpFailed\<rparr>)"
proof -
  have "\<not> nullish (dl_payload x)" using assms(5) by (auto simp: nullish_def)
  moreover have "e \<notin> set succeeded_events" "e \<noteq> ''checkout.completed''"
    using assms(4) by (auto simp: failed_events_def succeeded_events_def)
  moreover have "report_pending PpFailed (dl_payload x) d = (upd_pending (pp_id p) (\<lambda>r. r\<lparr>pp_status := PpFailed\<rparr>) d, Inr ())"
    using assms(5-7) by (simp add: report_pending_def reported_row_def nullish_def)
  ultimately have "handleWebhook sg env now x d = (upd_pending (pp_id p) (\<lambda>r. r\<lparr>pp_status := PpFailed\<rparr>) d, Inr ())"
    using assms(1-4) by (auto simp: handleWebhook_def dispatch_webhook_def handleCollectionFailed_def)
  then show ?thesis using assms(7) by (simp add: lookup_by_Cons update_by_def update_where_def)
qed

text \<open>A late failure report undoes a completed payment: the row that names the checkout is marked failed although
  its payment is recorded and credited, and it can then be reopened for another attempt.\<close>

lemma late_failure_reopens_completed:
  assumes "find (\<lambda>q. pp_checkout q = Some ch) (pendings d) = Some p" and "lookup_by pp_id (pp_id p) (pendings d) = Some p"
    and "pp_status p = PpCompleted" and "pp_assignment p = None" and "pm_retries (pp_meta p) = None"
    and "dot payload ''data'' = Obj ms" and "map_of ms ''checkout_id'' = Some (Str ch)"
    and "handleCollectionFailed payload d = (d1, r)" and "retryFailedPayment (pp_id p) d1 = (d2, n)"
  shows "payments d2 = payments d \<and> map_option pp_status (get_pending d1 (pp_id p)) = Some PpFailed
    \<and> n = Inr 1 \<and> map_option pp_status (get_pending d2 (pp_id p)) = Some PpPending"
proof -
  define f :: "pending_payment \<Rightarrow> pending_payment" where "f = (\<lambda>r. r\<lparr>pp_status := PpFailed\<rparr>)"
  have d1: "d1 = upd_pending (pp_id p) f d"
    using assms(1,6,7,8) by (simp add: handleCollectionFailed_def report_pending_def reported_row_def nullish_def f_def)
  have g1: "get_pending d1 (pp_id p) = Some (f p)" using assms(2) by (simp add: d1 table_simps f_def)
  define g :: "pending_payment \<Rightarrow> pending_payment" where
    "g = (\<lambda>r. r\<lparr>pp_status := PpPending, pp_meta := (pp_meta r)\<lparr>pm_retries := Some 1\<rparr>\<rparr>)"
  have "retryFailedPayment (pp_id p) d1 = (upd_pending (pp_id p) g d1, Inr 1)"
    using g1 assms(4,5) by (simp add: retryFailedPayment_def f_def given_def g_def)
  with assms(9) have "d2 = upd_pending (pp_id p) g d1" "n = Inr 1" by simp_all
  moreover from this g1 have "map_option pp_status (get_pending d2 (pp_id p)) = Some PpPending"
    by (simp add: table_simps g_def)
  ultimately show ?thesis using g1 by (simp add: d1 f_def)
qed


section \<open>Examples\<close>

text \<open>A development process without a secret verifies every delivery.\<close>

definition open_signing :: signature_env where
  "open_signing = sample_signing False\<lparr>sg_secret := None\<rparr>"

lemma open_signing_accepts: "verifyBachsSignature open_signing now body sig ts"
  by (simp add: verifyBachsSignature_def open_signing_def sample_signing_def nonempty_def)

definition sample_event :: "string \<Rightarrow> (string \<times> json) list \<Rightarrow> delivery" where
  "sample_event e ms = sample_delivery None (Obj [(''type'', Str e), (''data'', Obj ms)])"

lemma sample_event_fields [simp]:
  "dl_payload (sample_event e ms) = Obj [(''type'', Str e), (''data'', Obj ms)]" "dl_raw (sample_event e ms) = Some ''{}''"
  "e \<noteq> '''' \<Longrightarrow> event_type (Obj [(''type'', Str e), (''data'', Obj ms)]) = Str e"
  by (simp_all add: sample_event_def sample_delivery_def event_type_def or_else_js_def)

definition sample_success :: "(string \<times> json) list" where
  "sample_success = [(''checkout_id'', Str ''c''), (''charge_id'', Str ''ch''), (''amount'', Num 250)]"

lemma sample_success_completes:
  "\<exists>d'. handleWebhook open_signing sample_env 0 (sample_event ''collection.succeeded'' sample_success) (sample_collections 20000 (Some ''c''))
     = (d', Inr ())"
proof -
  define c where "c = checkout_completion ''c'' ''ch'' (Num 250) (Obj [])"
  have "settled_amount c = Some 25000"
    using fromBachsAmount_decimal [of 25000] by (simp add: c_def settled_amount_def checkout_completion_def Let_def)
  moreover have "expected_settlement (sample_row 20000 (Some ''c'')) = 25000"
    by (simp add: expected_settlement_def sample_row_def number_or_def)
  ultimately have s: "settleable (sample_collections 20000 (Some ''c'')) (sample_row 20000 (Some ''c'')) c"
    using sample_payable by (simp add: settleable_def) (simp add: c_def checkout_completion_def)
  have "find (names_pending c) (pendings (sample_collections 20000 (Some ''c''))) = Some (sample_row 20000 (Some ''c''))"
    by (simp add: names_pending_def c_def checkout_completion_def)
  from completion_settles [OF sample_collections_ok this s] obtain pa d' where
    "completePayment 0 c (sample_collections 20000 (Some ''c'')) = (d', Inr (pa, False))" by blast
  moreover have "handleCollectionSucceeded 0 (Obj [(''type'', Str ''collection.succeeded''), (''data'', Obj sample_success)]) d =
      map_prod id provider_retry (completePayment 0 c d)" for d
    by (simp add: handleCollectionSucceeded_def sample_success_def webhook_data_def webhook_metadata_def or_else_js_def
        coalesce_def nullish_def ident_of_def c_def)
  ultimately show ?thesis
    by (simp add: handleWebhook_def open_signing_accepts nullish_def dispatch_webhook_def succeeded_events_def provider_retry_def)
qed

lemma redelivered_success_changes_nothing_example:
  "\<exists>d'. handleWebhook open_signing sample_env 0 (sample_event ''collection.succeeded'' sample_success) (sample_collections 20000 (Some ''c''))
       = (d', Inr ()) \<and>
     handleWebhook open_signing sample_env 9 (sample_event ''collection.succeeded'' sample_success) d' = (d', Inr ())"
proof -
  obtain d' where 1: "handleWebhook open_signing sample_env 0 (sample_event ''collection.succeeded'' sample_success) (sample_collections 20000 (Some ''c''))
       = (d', Inr ())" using sample_success_completes by blast
  have "handleWebhook open_signing sample_env 9 (sample_event ''collection.succeeded'' sample_success) d' = (d', Inr ())"
    by (rule redelivered_success_changes_nothing [OF sample_collections_ok _ _ 1 open_signing_accepts,
          where e = "''collection.succeeded''"]) (simp_all add: succeeded_events_def)
  with 1 show ?thesis by blast
qed

lemma report_without_checkout_fails_first_row_example:
  "\<exists>d'. handleWebhook open_signing sample_env 9 (sample_event ''charge.failed'' [(''reason'', Str ''declined'')])
      (sample_collections 20000 (Some ''c'')) = (d', Inr ()) \<and>
     get_pending d' ''1'' = Some (sample_row 20000 (Some ''c'')\<lparr>pp_status := PpFailed\<rparr>)"
  using report_without_checkout_fails_first_row [OF open_signing_accepts, of "sample_event ''charge.failed'' [(''reason'', Str ''declined'')]"
      "''charge.failed''" "[(''reason'', Str ''declined'')]" "sample_collections 20000 (Some ''c'')" "sample_row 20000 (Some ''c'')" "[]" sample_env 9]
  by (simp add: failed_events_def)

lemma late_failure_reopens_completed_example:
  "\<exists>d1 r d2. handleCollectionFailed (Obj [(''data'', Obj [(''checkout_id'', Str ''c'')])])
       (upd_pending ''1'' (completed_row (sample_completion 25000)) (sample_collections 20000 (Some ''c''))) = (d1, r) \<and>
     retryFailedPayment ''1'' d1 = (d2, Inr 1) \<and> map_option pp_status (get_pending d2 ''1'') = Some PpPending"
proof -
  let ?d = "upd_pending ''1'' (completed_row (sample_completion 25000)) (sample_collections 20000 (Some ''c''))"
  let ?p = "completed_row (sample_completion 25000) (sample_row 20000 (Some ''c''))"
  have f: "find (\<lambda>q. pp_checkout q = Some ''c'') (pendings ?d) = Some ?p" "lookup_by pp_id (pp_id ?p) (pendings ?d) = Some ?p"
    by (simp_all add: update_by_def update_where_def lookup_by_Cons)
  obtain d1 r where 1: "handleCollectionFailed (Obj [(''data'', Obj [(''checkout_id'', Str ''c'')])]) ?d = (d1, r)" by fastforce
  obtain d2 n where 2: "retryFailedPayment (pp_id ?p) d1 = (d2, n)" by fastforce
  have "pp_assignment ?p = None" "pm_retries (pp_meta ?p) = None" by (simp_all add: completed_row_def sample_row_def)
  from late_failure_reopens_completed [OF f _ this _ _ 1 2] 1 2 show ?thesis by simp
qed


end
