(* ===== verification/Payments.thy ===== *)
theory Payments
  imports Prelude FinanceDb Ledger Wallets Dues Collections
begin

text \<open>
  The payments of \<open>FinanceService\<close> (\<open>src/v1/finance/finance.service.ts\<close>) that move money inside the
  platform: crediting and debiting a wallet, savings goals and their deposits, and the internal
  and the manual payment. Each reads the wallet before its transaction and writes the balance
  computed from that snapshot, so the transaction bodies take the snapshot as an argument.
  Descriptions, events, receipts and JSON copies are left out.
\<close>

section \<open>Crediting and debiting\<close>

record wallet_dto =
  wt_user :: ident
  wt_amount :: int
  wt_reference :: "string option"

text \<open>\<open>dto.reference || `TXN_...`\<close>: the random part is a drawn identifier.\<close>

definition transaction_reference :: "string \<Rightarrow> string option \<Rightarrow> db \<Rightarrow> string" where
  "transaction_reference start reference d =
     (case nonempty reference of Some r \<Rightarrow> r | None \<Rightarrow> start @ fresh_id d)"

definition wallet_row :: "ident \<Rightarrow> wallet \<Rightarrow> line_type \<Rightarrow> int \<Rightarrow> string \<Rightarrow> transaction_row" where
  "wallet_row t w ty amount reference =
     \<lparr>tr_id = t, tr_wallet = wl_id w, tr_type = ty, tr_amount = amount, tr_fee = 0, tr_net = amount,
      tr_reference = reference, tr_entry = None\<rparr>"

text \<open>
  The writes that the three handlers share: the transaction (its reference is unique), the ledger
  entry, and the new balance of the wallet and of its ledger account. A wallet without a ledger
  account is refused by the client's validation.
\<close>

definition missing_argument :: http_error where
  "missing_argument = Internal (STR ''PrismaClientValidationError'')"

definition record_movement ::
    "line_type \<Rightarrow> wallet \<Rightarrow> int \<Rightarrow> int \<Rightarrow> string \<Rightarrow> db \<Rightarrow> (transaction_row \<times> db) result" where
  "record_movement ty w amount after reference d =
     andThen (require (lookup_by tr_reference reference (txns d) = None) (Internal (STR ''P2002''))) (\<lambda>_.
     andThen (require_some (wl_account w) missing_argument) (\<lambda>a.
     let tr = wallet_row (fresh_id d) w ty amount reference
     in Inr (tr, write_account a after (write_wallet (wl_id w) after
          (d\<lparr>txns := txns d @ [tr],
             ledger_entries := ledger_entries d @ [ledger_row a (fresh_id d) amount ty (wl_balance w) after],
             seq := Suc (seq d)\<rparr>)))))"

definition credit_with ::
    "ident \<Rightarrow> wallet_dto \<Rightarrow> wallet \<Rightarrow> db \<Rightarrow> ((wallet option \<times> transaction_row) \<times> db) result" where
  "credit_with userId x w d =
     andThen (require (wl_status w = WalletActive) (BadRequest (STR ''Wallet is not active''))) (\<lambda>_.
     andThen (record_movement CREDIT w (wt_amount x) (wl_balance w + wt_amount x)
       (transaction_reference ''TXN_'' (wt_reference x) d) d) (\<lambda>(tr, d').
     Inr ((get_wallet d' (wl_id w), tr), log_activity (Some userId) (STR ''WALLET_CREDITED'') d')))"

definition creditWallet ::
    "ident \<Rightarrow> wallet_dto \<Rightarrow> db \<Rightarrow> db \<times> (wallet option \<times> transaction_row) result" where
  "creditWallet userId x d =
     thenDo (getOrCreateWallet (UserOwner (wt_user x)) d) (\<lambda>w. transaction (credit_with userId x w))"

definition debit_with ::
    "ident \<Rightarrow> wallet_dto \<Rightarrow> wallet \<Rightarrow> db \<Rightarrow> ((wallet option \<times> transaction_row) \<times> db) result" where
  "debit_with userId x w d =
     andThen (require (wl_status w = WalletActive) (BadRequest (STR ''Wallet is not active''))) (\<lambda>_.
     andThen (require (\<not> wl_balance w < wt_amount x) (BadRequest (STR ''Insufficient balance''))) (\<lambda>_.
     andThen (record_movement DEBIT w (wt_amount x) (wl_balance w - wt_amount x)
       (transaction_reference ''TXN_'' (wt_reference x) d) d) (\<lambda>(tr, d').
     Inr ((get_wallet d' (wl_id w), tr), log_activity (Some userId) (STR ''WALLET_DEBITED'') d'))))"

definition debitWallet ::
    "ident \<Rightarrow> wallet_dto \<Rightarrow> db \<Rightarrow> db \<times> (wallet option \<times> transaction_row) result" where
  "debitWallet userId x d =
     thenDo (getOrCreateWallet (UserOwner (wt_user x)) d) (\<lambda>w. transaction (debit_with userId x w))"

section \<open>Savings goals\<close>

definition new_goal :: "ident \<Rightarrow> ident \<Rightarrow> int \<Rightarrow> savings_goal" where
  "new_goal i userId targetAmount =
     \<lparr>sg_id = i, sg_user = userId, sg_target = targetAmount, sg_current = 0, sg_status = GoalActive\<rparr>"

definition createSavingsGoal :: "ident \<Rightarrow> int \<Rightarrow> db \<Rightarrow> db \<times> savings_goal result" where
  "createSavingsGoal userId targetAmount d =
     thenDo (getOrCreateWallet (UserOwner userId) d) (\<lambda>_ d1.
       let g = new_goal (fresh_id d1) userId targetAmount
       in (log_activity (Some userId) (STR ''SAVINGS_GOAL_CREATED'')
             (d1\<lparr>goals := goals d1 @ [g], seq := Suc (seq d1)\<rparr>), Inr g))"

abbreviation get_goal :: "db \<Rightarrow> ident \<Rightarrow> savings_goal option" where
  "get_goal d i \<equiv> lookup_by sg_id i (goals d)"

record savings_dto =
  sd_goal :: ident
  sd_amount :: int

text \<open>The deposit and the raised amount of the goal that was read.\<close>

definition save_to_goal :: "savings_goal \<Rightarrow> int \<Rightarrow> db \<Rightarrow> db" where
  "save_to_goal g amount d =
     d\<lparr>goal_deposits := goal_deposits d @ [(sg_id g, amount)],
       goals := update_by sg_id (sg_id g) (\<lambda>r. r\<lparr>sg_current := sg_current g + amount\<rparr>) (goals d)\<rparr>"

definition deposit_with :: "ident \<Rightarrow> savings_dto \<Rightarrow> wallet \<Rightarrow> db \<Rightarrow> (savings_goal \<times> db) result" where
  "deposit_with userId x w d =
     andThen (require (wl_status w = WalletActive) (BadRequest (STR ''Wallet is not active''))) (\<lambda>_.
     andThen (require (\<not> wl_balance w < sd_amount x) (BadRequest (STR ''Insufficient balance''))) (\<lambda>_.
     andThen (require_some (get_goal d (sd_goal x)) (NotFound (STR ''Savings goal not found''))) (\<lambda>g.
     andThen (require (sg_status g = GoalActive) (BadRequest (STR ''Savings goal is not active''))) (\<lambda>_.
     andThen (record_movement DEBIT w (sd_amount x) (wl_balance w - sd_amount x) (''SAV_'' @ fresh_id d)
       (save_to_goal g (sd_amount x) d)) (\<lambda>(_, d').
     Inr (g, log_activity (Some userId) (STR ''SAVINGS_DEPOSIT'') d'))))))"

definition depositToSavings :: "ident \<Rightarrow> savings_dto \<Rightarrow> db \<Rightarrow> db \<times> savings_goal result" where
  "depositToSavings userId x d =
     thenDo (getOrCreateWallet (UserOwner userId) d) (\<lambda>w. transaction (deposit_with userId x w))"

section \<open>A journal entry posted beside the transaction\<close>

text \<open>
  Both payments call \<open>createJournalEntry\<close> without the client of their open transaction, so the entry
  is posted by a transaction of its own on another connection. How that call ends while the first
  transaction holds the accounts it has written is up to the database client: an argument of the
  model that gets the locked accounts and the entry and returns the committed state and the answer.
\<close>

type_synonym journal_client = "ident list \<Rightarrow> nat \<Rightarrow> entry_data \<Rightarrow> db \<Rightarrow> db \<times> ident result"

text \<open>
  What is documented of it: a transaction commits as a whole or not at all, and an update of a row
  that another open transaction has written waits for its end, so an entry that is answered while
  the caller's transaction is open has no line on an account the caller has written.
\<close>

locale second_connection =
  fixes client :: journal_client
  assumes atomic: "fst (client locked now x d) = d \<or> (\<exists>i. createJournalEntry now x d = Inr (i, fst (client locked now x d)))"
    and waits_for_locks: "snd (client locked now x d) = Inr i \<Longrightarrow> l \<in> set (ed_lines x) \<Longrightarrow> jl_account l \<notin> set locked"
begin

lemma locked_fails:
  assumes "l \<in> set (ed_lines x)" and "jl_account l \<in> set locked"
  shows "\<exists>e. snd (client locked now x d) = Inl e"
  using waits_for_locks [OF _ assms(1), of locked now d] assms(2) by (cases "snd (client locked now x d)") auto

text \<open>What a posting leaves alone stays, whatever the answer.\<close>

lemma keeps:
  assumes "\<And>i d'. createJournalEntry now x d = Inr (i, d') \<Longrightarrow> P d d'" and "P d d"
  shows "P d (fst (client locked now x d))"
  using atomic [of locked now x d] assms by metis

end

section \<open>The internal payment\<close>

record payment_dto =
  py_amount :: int
  py_organization :: ident
  py_assignment :: "ident option"
  py_due :: "ident option"

text \<open>The assignment a payment names, the one of a due, or a new one for the due.\<close>

definition named_assignment :: "ident \<Rightarrow> ident \<Rightarrow> db \<Rightarrow> (due_assignment option \<times> db) result" where
  "named_assignment userId i d =
     andThen (require_some (get_assignment d i) (NotFound (STR ''Due assignment not found''))) (\<lambda>a.
     andThen (require_some (get_due d (da_due a)) (Internal (STR ''P2025''))) (\<lambda>u.
     andThen (require (\<not> da_paid a) (BadRequest (STR ''This due has already been paid''))) (\<lambda>_.
     andThen (require_some (lookup_by st_user userId (students d))
       (Forbidden (STR ''This due assignment does not belong to you''))) (\<lambda>s.
     andThen (require (da_student a = st_id s) (Forbidden (STR ''This due assignment does not belong to you''))) (\<lambda>_.
     andThen (assertDueLevel u s) (\<lambda>_. Inr (Some a, d)))))))"

definition assignment_for_due :: "nat \<Rightarrow> ident \<Rightarrow> ident \<Rightarrow> db \<Rightarrow> (due_assignment option \<times> db) result" where
  "assignment_for_due now userId dueId d =
     andThen (require_some (live_due d dueId) (NotFound (STR ''Due not found''))) (\<lambda>u.
     andThen (require_some (lookup_by st_user userId (students d)) (NotFound (STR ''Student profile not found''))) (\<lambda>s.
     andThen (assertDueLevel u s) (\<lambda>_.
     andThen (require (is_member d userId (du_organization u))
       (Forbidden (STR ''You are not a member of this organization''))) (\<lambda>_.
     case assignment_of d (du_id u) (st_id s) of
       Some a \<Rightarrow> andThen (require (\<not> da_paid a) (BadRequest (STR ''This due has already been paid''))) (\<lambda>_. Inr (Some a, d))
     | None \<Rightarrow>
         let a = new_assignment now (fresh_id d) u (st_id s)
         in Inr (Some a, d\<lparr>assignments := assignments d @ [a], seq := Suc (seq d)\<rparr>)))))"

definition payment_due :: "nat \<Rightarrow> ident \<Rightarrow> payment_dto \<Rightarrow> db \<Rightarrow> (due_assignment option \<times> db) result" where
  "payment_due now userId x d =
     andThen (case py_assignment x of
         Some i \<Rightarrow> named_assignment userId i d
       | None \<Rightarrow> (case py_due x of None \<Rightarrow> Inr (None, d) | Some k \<Rightarrow> assignment_for_due now userId k d))
       (\<lambda>(a, d').
         andThen (require (case a of None \<Rightarrow> True | Some r \<Rightarrow> py_amount x = da_amount r)
           (BadRequest (STR ''Due payment amount must be exact''))) (\<lambda>_. Inr (a, d')))"

text \<open>The four system accounts, each opened by a committed call of its own; two of them are used.\<close>

definition open_payment_accounts :: "db \<Rightarrow> db \<times> (ident \<times> ident) result" where
  "open_payment_accounts d =
     thenDo (transaction (getOrCreateSystemAccount platformFeeAccount) d) (\<lambda>_ d1.
     thenDo (transaction (getOrCreateSystemAccount vatPayableAccount) d1) (\<lambda>_ d2.
     thenDo (transaction (getOrCreateSystemAccount bachsFeeAccount) d2) (\<lambda>bachsFee d3.
     thenDo (transaction (getOrCreateSystemAccount bachsSettlementAccount) d3) (\<lambda>settle d4.
     (d4, Inr (la_id bachsFee, la_id settle))))))"

definition internal_lines :: "charges \<Rightarrow> int \<Rightarrow> ident \<Rightarrow> ident \<Rightarrow> ident \<Rightarrow> ident \<times> ident \<Rightarrow> journal_line list" where
  "internal_lines ch amount payer org platform sys =
     [\<lparr>jl_account = payer, jl_type = DEBIT, jl_amount = ch_total_amount ch\<rparr>,
      \<lparr>jl_account = org, jl_type = CREDIT, jl_amount = amount\<rparr>,
      \<lparr>jl_account = platform, jl_type = CREDIT, jl_amount = ch_platform_fee ch\<rparr>,
      \<lparr>jl_account = platform, jl_type = CREDIT, jl_amount = ch_vat ch\<rparr>,
      \<lparr>jl_account = fst sys, jl_type = DEBIT, jl_amount = ch_gateway_fee ch\<rparr>,
      \<lparr>jl_account = snd sys, jl_type = CREDIT, jl_amount = ch_gateway_fee ch\<rparr>]"

text \<open>A balance written to a wallet and to its account.\<close>

definition write_pair :: "wallet \<Rightarrow> ident \<Rightarrow> int \<Rightarrow> db \<Rightarrow> db" where
  "write_pair w a b d = write_account a b (write_wallet (wl_id w) b d)"

definition payment_rows ::
    "ident \<Rightarrow> ident \<Rightarrow> ident \<Rightarrow> ident \<Rightarrow> wallet \<Rightarrow> int \<Rightarrow> int \<Rightarrow> int \<Rightarrow> string \<Rightarrow> transaction_row \<times> payment" where
  "payment_rows t p userId organizationId w paid fee amount reference =
     (\<lparr>tr_id = t, tr_wallet = wl_id w, tr_type = DEBIT, tr_amount = paid, tr_fee = fee, tr_net = amount,
       tr_reference = reference, tr_entry = None\<rparr>,
      \<lparr>pa_id = p, pa_payer = userId, pa_organization = organizationId, pa_transaction = Some t, pa_amount = amount,
       pa_service_fee = fee, pa_reference = reference, pa_entry = None, pa_charge = None\<rparr>)"

definition add_payment_rows :: "transaction_row \<times> payment \<Rightarrow> db \<Rightarrow> db" where
  "add_payment_rows rows d = d\<lparr>txns := txns d @ [fst rows], payments := payments d @ [snd rows]\<rparr>"

text \<open>The unique columns of the two rows.\<close>

definition reference_taken :: "string \<Rightarrow> db \<Rightarrow> bool" where
  "reference_taken r d \<longleftrightarrow> lookup_by tr_reference r (txns d) \<noteq> None \<or> lookup_by pa_reference r (payments d) \<noteq> None"

definition link_payment :: "ident \<Rightarrow> ident \<Rightarrow> db \<Rightarrow> db" where
  "link_payment p e d = d\<lparr>payments := update_by pa_id p (\<lambda>r. r\<lparr>pa_entry := Some e\<rparr>) (payments d)\<rparr>"

definition pay_assignment :: "nat \<Rightarrow> ident option \<Rightarrow> ident \<Rightarrow> int \<Rightarrow> db \<Rightarrow> (unit \<times> db) result" where
  "pay_assignment now i p amount d = (case i of None \<Rightarrow> Inr ((), d) | Some k \<Rightarrow> handleDuePayment now k p amount d)"

text \<open>
  The writes of the open transaction are committed at its end, on top of what the posting beside it
  committed; an error anywhere drops them.
\<close>

definition internal_writes ::
    "wallet \<times> ident \<Rightarrow> wallet \<times> ident \<Rightarrow> wallet \<times> ident \<Rightarrow> charges \<Rightarrow> int \<Rightarrow> transaction_row \<times> payment \<Rightarrow> db \<Rightarrow> db" where
  "internal_writes payer org platform ch amount rows d =
     add_payment_rows rows
       (write_pair (fst platform) (snd platform) (wl_balance (fst platform) + (ch_platform_fee ch + ch_vat ch))
         (write_pair (fst org) (snd org) (wl_balance (fst org) + amount)
           (write_pair (fst payer) (snd payer) (wl_balance (fst payer) - ch_total_amount ch) d)))"

definition internal_entry :: "ident \<Rightarrow> ident \<Rightarrow> ident \<Rightarrow> journal_line list \<Rightarrow> entry_data" where
  "internal_entry t p userId ls =
     \<lparr>ed_lines = ls, ed_description = ''Payment'', ed_transaction = Some t, ed_payment = Some p,
      ed_withdrawal = None, ed_created_by = Some userId\<rparr>"

definition finish_internal ::
    "nat \<Rightarrow> ident \<Rightarrow> payment_dto \<Rightarrow> due_assignment option \<Rightarrow> ident \<Rightarrow> ident \<Rightarrow> db \<Rightarrow> (ident \<times> db) result" where
  "finish_internal now userId x due p e d =
     andThen (pay_assignment now (map_option da_id due) p (py_amount x) (link_payment p e d)) (\<lambda>(_, d').
     Inr (p, log_activity (Some userId) (STR ''PAYMENT_COMPLETED'') d'))"

definition post_internal ::
    "journal_client \<Rightarrow> nat \<Rightarrow> ident \<Rightarrow> payment_dto \<Rightarrow> charges \<Rightarrow> due_assignment option \<Rightarrow> due_assignment list
      \<Rightarrow> wallet \<times> ident \<Rightarrow> wallet \<times> ident \<Rightarrow> wallet \<times> ident \<Rightarrow> ident \<times> ident \<Rightarrow> db \<Rightarrow> db \<times> ident result" where
  "post_internal client now userId x ch due assigned payer org platform sys d =
     (let t = fresh_id d;
          p = idgen d (seq d + 1);
          reference = ''PAY_'' @ t;
          rows = payment_rows t p userId (py_organization x) (fst payer) (ch_total_amount ch) (ch_total_charges ch)
                   (py_amount x) reference;
          lines = internal_lines ch (py_amount x) (snd payer) (snd org) (snd platform) sys
      in if reference_taken reference d then (d, Inl (Internal (STR ''P2002'')))
         else thenDo (client [snd payer, snd org, snd platform] now (internal_entry t p userId lines)
                (d\<lparr>seq := seq d + 2\<rparr>))
           (\<lambda>e. transaction (\<lambda>d. finish_internal now userId x due p e
              (internal_writes payer org platform ch (py_amount x) rows (d\<lparr>assignments := assigned\<rparr>)))))"

definition with_account :: "wallet \<Rightarrow> (wallet \<times> ident) result" where
  "with_account w = andThen (require_some (wl_account w) missing_argument) (\<lambda>a. Inr (w, a))"

definition internal_transaction ::
    "journal_client \<Rightarrow> ledger_config \<Rightarrow> nat \<Rightarrow> ident \<Rightarrow> payment_dto \<Rightarrow> wallet \<Rightarrow> wallet \<Rightarrow> wallet \<Rightarrow> db \<Rightarrow> db \<times> ident result" where
  "internal_transaction client cfg now userId x w orgWallet platformWallet d =
     (let ch = calculatePaymentCharges cfg (py_amount x)
      in if wl_status w \<noteq> WalletActive then (d, Inl (BadRequest (STR ''Wallet is not active'')))
         else if wl_balance w < ch_total_amount ch then (d, Inl (BadRequest (STR ''Insufficient balance'')))
         else case payment_due now userId x d of
           Inl e \<Rightarrow> (d, Inl e)
         | Inr (due, d1) \<Rightarrow>
             thenDo (open_payment_accounts (d\<lparr>seq := seq d1\<rparr>)) (\<lambda>sys d2.
             thenDo (d2, with_account w) (\<lambda>payer _.
             thenDo (d2, with_account orgWallet) (\<lambda>org _.
             thenDo (d2, with_account platformWallet) (\<lambda>platform _.
             post_internal client now userId x ch due (assignments d1) payer org platform sys d2)))))"

definition executeInternalPayment ::
    "journal_client \<Rightarrow> ledger_config \<Rightarrow> nat \<Rightarrow> ident \<Rightarrow> payment_dto \<Rightarrow> db \<Rightarrow> db \<times> ident result" where
  "executeInternalPayment client cfg now userId x d =
     (if lookup_by us_id userId (users d) = None then (d, Inl (NotFound (STR ''User not found'')))
      else thenDo (getOrCreateWallet (UserOwner userId) d) (\<lambda>w d1.
        thenDo (getOrCreateWallet (OrganizationOwner (py_organization x)) d1) (\<lambda>orgWallet d2.
        thenDo (getOrCreateWallet PlatformOwner d2) (\<lambda>platformWallet d3.
        internal_transaction client cfg now userId x w orgWallet platformWallet d3))))"

section \<open>The manual payment\<close>

record manual_dto =
  my_amount :: int
  my_organization :: ident
  my_assignment :: "ident option"
  my_reference :: "string option"

definition manual_lines :: "ident \<Rightarrow> ident \<Rightarrow> int \<Rightarrow> journal_line list" where
  "manual_lines payer org amount =
     [\<lparr>jl_account = payer, jl_type = DEBIT, jl_amount = amount\<rparr>,
      \<lparr>jl_account = org, jl_type = CREDIT, jl_amount = amount\<rparr>]"

definition manual_writes ::
    "ident \<Rightarrow> wallet \<times> ident \<Rightarrow> wallet \<times> ident \<Rightarrow> int \<Rightarrow> transaction_row \<times> payment \<Rightarrow> db \<Rightarrow> db" where
  "manual_writes t payer org amount rows d =
     (let before = wl_balance (fst payer);
          orgBefore = wl_balance (fst org);
          d1 = d\<lparr>ledger_entries := ledger_entries d @
                 [ledger_row (snd payer) t amount DEBIT before (before - amount),
                  ledger_row (snd org) t amount CREDIT orgBefore (orgBefore + amount)]\<rparr>
      in add_payment_rows rows
           (write_pair (fst org) (snd org) (orgBefore + amount) (write_pair (fst payer) (snd payer) (before - amount) d1)))"

definition manual_entry :: "ident \<Rightarrow> ident \<Rightarrow> ident \<Rightarrow> journal_line list \<Rightarrow> entry_data" where
  "manual_entry t p userId ls =
     \<lparr>ed_lines = ls, ed_description = ''Manual payment'', ed_transaction = Some t, ed_payment = Some p,
      ed_withdrawal = None, ed_created_by = Some userId\<rparr>"

definition finish_manual ::
    "nat \<Rightarrow> ident \<Rightarrow> manual_dto \<Rightarrow> ident \<Rightarrow> ident \<Rightarrow> ident \<Rightarrow> db \<Rightarrow> (ident \<times> db) result" where
  "finish_manual now userId x t p e d =
     (let d1 = link_payment p e d;
          d2 = d1\<lparr>txns := update_by tr_id t (\<lambda>r. r\<lparr>tr_entry := Some e\<rparr>) (txns d1)\<rparr>
      in andThen (pay_assignment now (my_assignment x) p (my_amount x) d2) (\<lambda>(_, d').
         Inr (p, log_activity (Some userId) (STR ''MANUAL_PAYMENT'') d')))"

definition post_manual ::
    "journal_client \<Rightarrow> nat \<Rightarrow> ident \<Rightarrow> manual_dto \<Rightarrow> wallet \<times> ident \<Rightarrow> wallet \<times> ident \<Rightarrow> db \<Rightarrow> db \<times> ident result" where
  "post_manual client now userId x payer org d =
     (let t = fresh_id d;
          p = idgen d (seq d + 1);
          reference = transaction_reference ''PAY_'' (my_reference x) d;
          rows = payment_rows t p userId (my_organization x) (fst payer) (my_amount x) 0 (my_amount x) reference
      in if reference_taken reference d then (d, Inl (Internal (STR ''P2002'')))
         else thenDo (client [snd payer, snd org] now
                (manual_entry t p userId (manual_lines (snd payer) (snd org) (my_amount x))) (d\<lparr>seq := seq d + 2\<rparr>))
           (\<lambda>e. transaction (\<lambda>d. finish_manual now userId x t p e (manual_writes t payer org (my_amount x) rows d))))"

definition manual_transaction ::
    "journal_client \<Rightarrow> nat \<Rightarrow> ident \<Rightarrow> manual_dto \<Rightarrow> wallet \<Rightarrow> wallet \<Rightarrow> db \<Rightarrow> db \<times> ident result" where
  "manual_transaction client now userId x w orgWallet d =
     (if wl_status w \<noteq> WalletActive then (d, Inl (BadRequest (STR ''Wallet is not active'')))
      else if wl_balance w < my_amount x then (d, Inl (BadRequest (STR ''Insufficient balance'')))
      else thenDo (d, with_account w) (\<lambda>payer _.
           thenDo (d, with_account orgWallet) (\<lambda>org _.
           post_manual client now userId x payer org d)))"

definition executeManualPayment ::
    "journal_client \<Rightarrow> nat \<Rightarrow> ident \<Rightarrow> manual_dto \<Rightarrow> db \<Rightarrow> db \<times> ident result" where
  "executeManualPayment client now userId x d =
     (if lookup_by us_id userId (users d) = None then (d, Inl (NotFound (STR ''User not found'')))
      else thenDo (getOrCreateWallet (UserOwner userId) d) (\<lambda>w d1.
        thenDo (getOrCreateWallet (OrganizationOwner (my_organization x)) d1) (\<lambda>orgWallet d2.
        manual_transaction client now userId x w orgWallet d2)))"

end
