(* ===== verification/PaymentProperties.thy ===== *)
theory PaymentProperties
  imports Prelude FinanceDb Samples Ledger Wallets Dues Books Collections CollectionBooks Payments
begin

text \<open>
  The internal and the manual payment never complete: the journal entry they post beside their own
  transaction is unbalanced, or waits for accounts the transaction holds. What the database client
  may do is the contract \<open>second_connection\<close>; two clients that keep it are given, and with one of
  them an entry of a payment that does not exist stays in the journal.
\<close>

section \<open>Payments that leave nothing behind\<close>

text \<open>No payment was made: its tables, the assignments and the balances of the wallets are as before.\<close>

definition payment_tables :: "db \<Rightarrow> transaction_row list \<times> payment list \<times> ledger_entry list \<times> due_assignment list \<times> due_payment list" where
  "payment_tables d = (txns d, payments d, ledger_entries d, assignments d, due_payments d)"

definition no_payment_made :: "db \<Rightarrow> db \<Rightarrow> bool" where
  "no_payment_made d d' \<longleftrightarrow> payment_tables d' = payment_tables d \<and>
     (\<forall>k b. map_option wl_balance (get_wallet d k) = Some b \<longrightarrow> map_option wl_balance (get_wallet d' k) = Some b)"

lemma no_payment_refl [simp]: "no_payment_made d d"
  by (simp add: no_payment_made_def)

lemma no_payment_trans: "no_payment_made d d1 \<Longrightarrow> no_payment_made d1 d2 \<Longrightarrow> no_payment_made d d2"
  by (simp add: no_payment_made_def)

lemma no_paymentI:
  "payment_tables d' = payment_tables d \<Longrightarrow> wallets d' = wallets d \<Longrightarrow> no_payment_made d d'"
  by (simp add: no_payment_made_def)

lemma no_payment_transaction:
  "(\<And>x d'. body d = Inr (x, d') \<Longrightarrow> no_payment_made d d') \<Longrightarrow> no_payment_made d (fst (transaction body d))"
  by (cases "body d") (auto simp: transaction_def)

lemma no_payment_thenDo:
  assumes "no_payment_made d (fst r)" and "\<And>x s. r = (s, Inr x) \<Longrightarrow> no_payment_made s (fst (k x s))"
  shows "no_payment_made d (fst (thenDo r k))"
  using assms no_payment_trans by (auto simp: thenDo_def split: prod.splits sum.splits)

lemma no_payment_open_wallet:
  assumes "open_wallet user organization platform acct act d = Inr (w, d')"
  shows "no_payment_made d d'"
proof -
  obtain w1 d1 where 1: "insert_wallet user organization platform d = Inr (w1, d1)"
    using assms by (cases "insert_wallet user organization platform d") (auto simp: open_wallet_def)
  then have d1: "wallets d1 = wallets d @ [w1]" by (auto simp: insert_wallet_def Let_def split: if_splits)
  obtain a d2 where 2: "insert_account (acct (wl_id w1)) d1 = Inr (a, d2)"
    using assms 1 by (cases "insert_account (acct (wl_id w1)) d1") (auto simp: open_wallet_def)
  then have d2: "wallets d2 = wallets d1" by (auto simp: insert_account_def Let_def split: if_splits)
  have d': "wallets d' = update_by wl_id (wl_id w1) (\<lambda>w. w\<lparr>wl_account := Some (la_id a)\<rparr>) (wallets d2)"
    using assms 1 2 by (auto simp: open_wallet_def Let_def log_activity_def result_simps)
  have "map_option wl_balance (get_wallet d' k) = Some b" if "map_option wl_balance (get_wallet d k) = Some b" for k b
    using that by (cases "get_wallet d k"; cases "k = wl_id w1") (simp_all add: d' d2 d1 table_simps)
  moreover have "payment_tables d' = payment_tables d"
    by (rule open_wallet_frame(1) [OF assms]) (simp_all add: payment_tables_def)
  ultimately show ?thesis by (simp add: no_payment_made_def)
qed

lemma no_payment_wallet: "no_payment_made d (fst (getOrCreateWallet owner d))"
proof -
  have o: "no_payment_made d (fst (transaction (open_wallet u g p acct act) d))" for u g p acct act
    by (rule no_payment_transaction) (rule no_payment_open_wallet)
  have f: "no_payment_made d (upd_wallet k (\<lambda>w. w\<lparr>wl_platform := True\<rparr>) d)" for k
  proof -
    have "map_option wl_balance (get_wallet (upd_wallet k (\<lambda>w. w\<lparr>wl_platform := True\<rparr>) d) i)
        = map_option wl_balance (get_wallet d i)" for i
      by (cases "get_wallet d i"; cases "i = k") (simp_all add: table_simps)
    then show ?thesis by (simp add: no_payment_made_def payment_tables_def)
  qed
  show ?thesis by (cases owner) (simp_all add: wallet_defs o f split: option.split)
qed

lemma createJournalEntry_tables:
  assumes "createJournalEntry now x d = Inr (i, d')"
  shows "no_payment_made d d'"
proof -
  let ?d = "d\<lparr>entries := entries d @ [new_entry now (fresh_id d) x], seq := Suc (seq d)\<rparr>"
  from assms have "post_lines (fresh_id d) (ed_lines x) ?d = Inr d'"
    by (auto simp: createJournalEntry_def Let_def result_simps)
  from post_lines_frame [OF this] obtain as es where "d' = ?d\<lparr>accounts := as, entries := es\<rparr>" by blast
  then show ?thesis by (simp add: no_paymentI payment_tables_def)
qed

lemma no_payment_beside: "second_connection client \<Longrightarrow> no_payment_made d (fst (client locked now x d))"
  by (rule second_connection.keeps) (simp_all add: createJournalEntry_tables)

lemma no_payment_system: "no_payment_made d (fst (transaction (getOrCreateSystemAccount cfg) d))"
proof (rule no_payment_transaction)
  fix a d'
  assume "getOrCreateSystemAccount cfg d = Inr (a, d')"
  then have "payment_tables d' = payment_tables d \<and> wallets d' = wallets d"
    by (cases cfg) (auto simp: getOrCreateSystemAccount_def insert_account_def Let_def payment_tables_def
        split: option.splits if_splits)
  then show "no_payment_made d d'" by (simp add: no_paymentI)
qed

lemma no_payment_accounts: "no_payment_made d (fst (open_payment_accounts d))"
  unfolding open_payment_accounts_def
  by (intro no_payment_thenDo no_payment_system) simp

section \<open>A posting beside the transaction fails\<close>

lemma thenDo_fails:
  assumes "\<exists>e. snd r = Inl e"
  shows "fst (thenDo r k) = fst r" and "\<exists>e. snd (thenDo r k) = Inl e"
  using assms by (cases r; auto)+

lemma no_payment_seq: "no_payment_made d (d\<lparr>seq := n\<rparr>)"
  by (simp add: no_paymentI payment_tables_def)

lemma posted_beside:
  assumes "second_connection client" and "l \<in> set (ed_lines x)" and "jl_account l \<in> set locked"
  shows "no_payment_made d (fst (thenDo (client locked now x (d\<lparr>seq := n\<rparr>)) k))"
    and "\<exists>e. snd (thenDo (client locked now x (d\<lparr>seq := n\<rparr>)) k) = Inl e"
proof -
  note fails = second_connection.locked_fails [OF assms, of now "d\<lparr>seq := n\<rparr>"]
  show "no_payment_made d (fst (thenDo (client locked now x (d\<lparr>seq := n\<rparr>)) k))"
    unfolding thenDo_fails(1) [OF fails] by (rule no_payment_trans [OF no_payment_seq no_payment_beside [OF assms(1)]])
  show "\<exists>e. snd (thenDo (client locked now x (d\<lparr>seq := n\<rparr>)) k) = Inl e"
    by (rule thenDo_fails(2) [OF fails])
qed

lemma post_internal_fails:
  assumes "second_connection client"
  shows "no_payment_made d (fst (post_internal client now userId x ch due assigned payer org platform sys d))"
    and "\<exists>e. snd (post_internal client now userId x ch due assigned payer org platform sys d) = Inl e"
  unfolding post_internal_def Let_def
  by (cases "reference_taken (''PAY_'' @ fresh_id d) d";
      simp add: posted_beside [OF assms, where l = "\<lparr>jl_account = snd payer, jl_type = DEBIT, jl_amount = ch_total_amount ch\<rparr>"]
        internal_entry_def internal_lines_def)+

lemma post_manual_fails:
  assumes "second_connection client"
  shows "no_payment_made d (fst (post_manual client now userId x payer org d))"
    and "\<exists>e. snd (post_manual client now userId x payer org d) = Inl e"
  unfolding post_manual_def Let_def
  by (cases "reference_taken (transaction_reference ''PAY_'' (my_reference x) d) d";
      simp add: posted_beside [OF assms, where l = "\<lparr>jl_account = snd payer, jl_type = DEBIT, jl_amount = my_amount x\<rparr>"]
        manual_entry_def manual_lines_def)+

text \<open>A sequence of steps whose last one fails, fails.\<close>

lemma thenDo_last_fails:
  assumes "\<And>x s. r = (s, Inr x) \<Longrightarrow> \<exists>e. snd (k x s) = Inl e"
  shows "\<exists>e. snd (thenDo r k) = Inl e"
  using assms by (cases r; cases "snd r") auto


lemma internal_transaction_fails:
  assumes "second_connection client"
  shows "no_payment_made d (fst (internal_transaction client cfg now userId x w ow pw d))"
    and "\<exists>e. snd (internal_transaction client cfg now userId x w ow pw d) = Inl e"
proof -
  have a: "no_payment_made s (fst (open_payment_accounts (s\<lparr>seq := n\<rparr>)))" for s n
    by (rule no_payment_trans [OF no_payment_seq no_payment_accounts])
  have "no_payment_made d (fst (internal_transaction client cfg now userId x w ow pw d)) \<and>
    (\<exists>e. snd (internal_transaction client cfg now userId x w ow pw d) = Inl e)"
  proof (cases "wl_status w \<noteq> WalletActive \<or> wl_balance w < ch_total_amount (calculatePaymentCharges cfg (py_amount x))")
    case True
    then show ?thesis by (auto simp: internal_transaction_def Let_def)
  next
    case ok: False
    show ?thesis
    proof (cases "payment_due now userId x d")
      case (Inl e)
      with ok show ?thesis by (simp add: internal_transaction_def Let_def)
    next
      case (Inr r)
      obtain due d1 where "r = (due, d1)" by (cases r)
      with ok Inr show ?thesis
        unfolding internal_transaction_def Let_def
        by (auto intro!: no_payment_thenDo thenDo_last_fails a post_internal_fails [OF assms])
    qed
  qed
  then show "no_payment_made d (fst (internal_transaction client cfg now userId x w ow pw d))"
    and "\<exists>e. snd (internal_transaction client cfg now userId x w ow pw d) = Inl e" by simp_all
qed

lemma manual_transaction_fails:
  assumes "second_connection client"
  shows "no_payment_made d (fst (manual_transaction client now userId x w ow d))"
    and "\<exists>e. snd (manual_transaction client now userId x w ow d) = Inl e"
  unfolding manual_transaction_def
  by (auto intro!: no_payment_thenDo thenDo_last_fails post_manual_fails [OF assms])

text \<open>
  A client that behaves as documented: an entry without a line on a locked account is answered at
  once; otherwise the call ends with the caller's time limit, the caller is rolled back, and the
  entry is committed after that.
\<close>

definition committed_late :: journal_client where
  "committed_late locked now x d =
     (case createJournalEntry now x d of
        Inl e \<Rightarrow> (d, Inl e)
      | Inr (i, d') \<Rightarrow>
          (d', if list_ex (\<lambda>l. jl_account l \<in> set locked) (ed_lines x) then Inl (Internal (STR ''P2028'')) else Inr i))"

text \<open>Or the entry is given up together with the caller.\<close>

definition given_up :: journal_client where
  "given_up locked now x d =
     (case createJournalEntry now x d of
        Inl e \<Rightarrow> (d, Inl e)
      | Inr (i, d') \<Rightarrow>
          (if list_ex (\<lambda>l. jl_account l \<in> set locked) (ed_lines x) then (d, Inl (Internal (STR ''P2028''))) else (d', Inr i)))"

interpretation late: second_connection committed_late
proof unfold_locales
  fix locked now x d i l
  show "fst (committed_late locked now x d) = d \<or> (\<exists>i. createJournalEntry now x d = Inr (i, fst (committed_late locked now x d)))"
    by (auto simp: committed_late_def split: sum.split)
  show "jl_account l \<notin> set locked" if "snd (committed_late locked now x d) = Inr i" "l \<in> set (ed_lines x)"
    using that by (auto simp: committed_late_def list_ex_iff split: sum.splits if_splits)
qed

interpretation given_up: second_connection given_up
proof unfold_locales
  fix locked now x d i l
  show "fst (given_up locked now x d) = d \<or> (\<exists>i. createJournalEntry now x d = Inr (i, fst (given_up locked now x d)))"
    by (auto simp: given_up_def split: sum.split)
  show "jl_account l \<notin> set locked" if "snd (given_up locked now x d) = Inr i" "l \<in> set (ed_lines x)"
    using that by (auto simp: given_up_def list_ex_iff split: sum.splits if_splits)
qed

lemma internal_lines_gap:
  "debits (internal_lines (calculatePaymentCharges cfg amount) amount payer org platform sys)
     = credits (internal_lines (calculatePaymentCharges cfg amount) amount payer org platform sys)
       + ch_gateway_fee (calculatePaymentCharges cfg amount)"
  by (simp add: internal_lines_def debits_def credits_def calculatePaymentCharges_def Let_def)

text \<open>C31: The internal payment never completes. Whatever the request and the database, it ends with an error
  and no payment, transaction, due or wallet balance changes: its journal lines count the gateway
  fee twice among the debits and once among the credits, so they differ by the fee and the entry is
  refused; where the fee rounds to zero the posting waits for the payer's account, which the
  payment itself holds, until the transaction runs out of time.\<close>

theorem internal_payment_never_completes:
  assumes "second_connection client"
  shows "(\<exists>e. snd (executeInternalPayment client cfg now userId x d) = Inl e) \<and>
   no_payment_made d (fst (executeInternalPayment client cfg now userId x d)) \<and>
   debits (internal_lines (calculatePaymentCharges cfg amount) amount payer org platform sys)
     = credits (internal_lines (calculatePaymentCharges cfg amount) amount payer org platform sys)
       + ch_gateway_fee (calculatePaymentCharges cfg amount)"
proof -
  have "\<exists>e. snd (executeInternalPayment client cfg now userId x d) = Inl e"
    unfolding executeInternalPayment_def
    by (auto intro!: thenDo_last_fails internal_transaction_fails [OF assms])
  moreover have "no_payment_made d (fst (executeInternalPayment client cfg now userId x d))"
    unfolding executeInternalPayment_def
    by (auto intro!: no_payment_thenDo no_payment_wallet internal_transaction_fails [OF assms])
  ultimately show ?thesis using internal_lines_gap by blast
qed

theorem internal_payment_never_completes_witness:
  "\<exists>e. snd (executeInternalPayment given_up default_ledger_config 7 ''u''
     \<lparr>py_amount = 200, py_organization = ''g'', py_assignment = None, py_due = None\<rparr> (sample_db 900000 0 [])) = Inl e"
  using internal_payment_never_completes [OF given_up.second_connection_axioms] by blast

text \<open>The manual payment never completes either: its balanced entry is posted outside the open
  transaction and waits for the accounts the transaction has locked. It ends with an error, and no
  payment, transaction, due or wallet balance changes.\<close>

lemma manual_payment_never_completes:
  assumes "second_connection client"
  shows "(\<exists>e. snd (executeManualPayment client now userId x d) = Inl e) \<and>
   no_payment_made d (fst (executeManualPayment client now userId x d))"
proof -
  have "\<exists>e. snd (executeManualPayment client now userId x d) = Inl e"
    unfolding executeManualPayment_def
    by (auto intro!: thenDo_last_fails manual_transaction_fails [OF assms])
  moreover have "no_payment_made d (fst (executeManualPayment client now userId x d))"
    unfolding executeManualPayment_def
    by (auto intro!: no_payment_thenDo no_payment_wallet manual_transaction_fails [OF assms])
  ultimately show ?thesis by blast
qed


lemma manual_payment_never_completes_example:
  "no_payment_made (sample_db 900 0 []) (fst (executeManualPayment given_up 7 ''u''
     \<lparr>my_amount = 200, my_organization = ''g'', my_assignment = None, my_reference = None\<rparr> (sample_db 900 0 [])))"
  using manual_payment_never_completes [OF given_up.second_connection_axioms] by blast

section \<open>The entry that stays\<close>

text \<open>The entry of a manual payment, and a posting of it that commits after the payment was given up.\<close>

definition manual_entry_of :: "ident \<Rightarrow> manual_dto \<Rightarrow> ident \<Rightarrow> ident \<Rightarrow> db \<Rightarrow> entry_data" where
  "manual_entry_of userId x a b d =
     manual_entry (fresh_id d) (idgen d (seq d + 1)) userId (manual_lines a b (my_amount x))"

lemma manual_lines_balanced: "debits (manual_lines a b x) = credits (manual_lines a b x)"
  by (simp add: manual_lines_def debits_def credits_def)

lemma wallet_account_found:
  assumes "ledger_ok d" and "w \<in> set (wallets d)"
  obtains a where "wl_account w = Some a" and "map_option la_wallet (get_account d a) = Some (Some (wl_id w))"
    and "map_option la_balance (get_account d a) = Some (wl_balance w)"
proof -
  have g: "get_wallet d (wl_id w) = Some w" by (rule get_wallet_mem [OF keys_of_ledger [OF assms(1)] assms(2)])
  have "map_option wl_account (get_wallet d (wl_id w)) \<noteq> Some None"
    using assms(1) unfolding ledger_ok_def accounts_open_def by blast
  with g obtain a where a: "wl_account w = Some a" by auto
  show ?thesis
  proof (rule that [OF a])
    show "map_option la_wallet (get_account d a) = Some (Some (wl_id w))"
      by (rule links_okD [OF _ g a]) (use assms(1) in \<open>simp add: ledger_ok_def books_ok_def\<close>)
    show "map_option la_balance (get_account d a) = Some (wl_balance w)"
      by (rule mirrorD [OF _ g a]) (use assms(1) in \<open>simp add: ledger_ok_def books_ok_def\<close>)
  qed
qed

lemma late_posting:
  assumes keys: "keys_ok d" and "a \<in> set locked" and "get_account d a \<noteq> None" and "get_account d b \<noteq> None"
    and "\<not> entry_link_taken x d" and x: "ed_lines x = manual_lines a b amount" and ab: "a \<noteq> b"
  shows "\<exists>d'. committed_late locked now x d = (d', Inl (Internal (STR ''P2028''))) \<and>
     wallets d' = wallets d \<and> payment_tables d' = payment_tables d \<and>
     entries d' = entries d @ [new_entry now (fresh_id d) x\<lparr>je_lines := manual_lines a b amount\<rparr>] \<and>
     map_option la_balance (get_account d' a) = map_option (\<lambda>r. la_balance r + amount) (get_account d a)"
proof -
  have bal: "debits (ed_lines x) = credits (ed_lines x)" by (simp add: x manual_lines_balanced)
  have "get_account d (jl_account l) \<noteq> None" if "l \<in> set (ed_lines x)" for l
    using that assms(3,4) by (auto simp: x manual_lines_def)
  from createJournalEntry_defined [OF bal assms(5) this]
  obtain d' where p: "createJournalEntry now x d = Inr (fresh_id d, d')" by blast
  have "list_ex (\<lambda>l. jl_account l \<in> set locked) (ed_lines x)" using assms(2) by (simp add: x manual_lines_def)
  with p have r: "committed_late locked now x d = (d', Inl (Internal (STR ''P2028'')))"
    by (simp add: committed_late_def)
  note P = posting [OF p keys]
  have "effect_on a (ed_lines x) = amount" using ab by (simp add: x manual_lines_def balance_change_def)
  then have "map_option la_balance (get_account d' a) = map_option (\<lambda>r. la_balance r + amount) (get_account d a)"
    by (simp add: P(7) option.map_comp comp_def)
  with r P(2,5) createJournalEntry_tables [OF p] show ?thesis
    unfolding no_payment_made_def by (simp add: x)
qed


text \<open>The request passes every check of the manual payment.\<close>

definition manual_ready :: "ident \<Rightarrow> manual_dto \<Rightarrow> wallet \<Rightarrow> wallet \<Rightarrow> db \<Rightarrow> bool" where
  "manual_ready userId x w ow d \<longleftrightarrow>
     lookup_by us_id userId (users d) \<noteq> None \<and> lookup_by wl_user (Some userId) (wallets d) = Some w \<and>
     lookup_by og_id (my_organization x) (orgs d) \<noteq> None \<and>
     lookup_by wl_organization (Some (my_organization x)) (wallets d) = Some ow \<and> wl_id w \<noteq> wl_id ow \<and>
     wl_status w = WalletActive \<and> 0 < my_amount x \<and> my_amount x \<le> wl_balance w \<and>
     \<not> reference_taken (transaction_reference ''PAY_'' (my_reference x) d) d"

text \<open>The two identifiers drawn for the payment are unused.\<close>

definition payment_ids_fresh :: "db \<Rightarrow> bool" where
  "payment_ids_fresh d \<longleftrightarrow>
     lookup_by je_transaction (Some (fresh_id d)) (entries d) = None \<and>
     lookup_by je_payment (Some (idgen d (seq d + 1))) (entries d) = None \<and>
     lookup_by pa_id (idgen d (seq d + 1)) (payments d) = None"

lemma executeManualPayment_ready:
  assumes "manual_ready userId x w ow d" and "wl_account w = Some a" and "wl_account ow = Some b"
  shows "executeManualPayment client now userId x d = post_manual client now userId x (w, a) (ow, b) d"
  using assms by (auto simp: manual_ready_def executeManualPayment_def wallet_defs manual_transaction_def with_account_def)

text \<open>The error of a manual payment is not harmless. When the posting that waited commits after the
  payment ran out of time, the journal keeps a posted entry of a payment that does not exist, the
  payer's ledger account has grown by the amount, and its wallet has not moved: the two no longer
  agree.\<close>

lemma manual_payment_leaves_entry:
  assumes "ledger_ok d" and "manual_ready userId x w ow d" and "payment_ids_fresh d"
  shows "\<exists>d' e p a. executeManualPayment committed_late now userId x d = (d', Inl (Internal (STR ''P2028''))) \<and>
     e \<in> set (entries d') \<and> je_status e = POSTED \<and> je_payment e = Some p \<and> lookup_by pa_id p (payments d') = None \<and>
     wl_account w = Some a \<and> get_wallet d' (wl_id w) = Some w \<and>
     map_option la_balance (get_account d' a) = Some (wl_balance w + my_amount x) \<and> \<not> mirror d'"
proof -
  have w: "w \<in> set (wallets d)" and ow: "ow \<in> set (wallets d)" and ne: "wl_id w \<noteq> wl_id ow" and pos: "0 < my_amount x"
    and ref: "\<not> reference_taken (transaction_reference ''PAY_'' (my_reference x) d) d"
    using assms(2) lookup_by_mem unfolding manual_ready_def by fast+
  obtain a where a: "wl_account w = Some a" "map_option la_wallet (get_account d a) = Some (Some (wl_id w))"
    "map_option la_balance (get_account d a) = Some (wl_balance w)" by (rule wallet_account_found [OF assms(1) w])
  obtain b where b: "wl_account ow = Some b" "map_option la_wallet (get_account d b) = Some (Some (wl_id ow))"
    by (rule wallet_account_found [OF assms(1) ow])
  have ab: "a \<noteq> b" using a(2) b(2) ne by auto
  let ?d = "d\<lparr>seq := seq d + 2\<rparr>" and ?x = "manual_entry_of userId x a b d" and ?p = "idgen d (seq d + 1)"
  have keys: "keys_ok ?d" by (rule keys_ok_cong [OF keys_of_ledger [OF assms(1)]]) simp_all
  have free: "\<not> entry_link_taken ?x ?d"
    using assms(3) by (simp add: payment_ids_fresh_def entry_link_taken_def manual_entry_of_def manual_entry_def)
  have lines: "ed_lines ?x = manual_lines a b (my_amount x)" by (simp add: manual_entry_of_def manual_entry_def)
  obtain d' where p: "committed_late [a, b] now ?x ?d = (d', Inl (Internal (STR ''P2028'')))"
    and d': "wallets d' = wallets ?d" "payment_tables d' = payment_tables ?d"
      "entries d' = entries ?d @ [new_entry now (fresh_id ?d) ?x\<lparr>je_lines := manual_lines a b (my_amount x)\<rparr>]"
      "map_option la_balance (get_account d' a) = map_option (\<lambda>r. la_balance r + my_amount x) (get_account ?d a)"
    using late_posting [OF keys, of a "[a, b]" b ?x "my_amount x" now] a(2) b(2) free lines ab by auto
  have r: "executeManualPayment committed_late now userId x d = (d', Inl (Internal (STR ''P2028'')))"
    using executeManualPayment_ready [OF assms(2) a(1) b(1)] ref p
    by (simp add: post_manual_def Let_def manual_entry_of_def)
  have bal: "map_option la_balance (get_account d' a) = Some (wl_balance w + my_amount x)"
    using d'(4) a(3) by (cases "get_account d a") simp_all
  have g: "get_wallet d' (wl_id w) = Some w"
    using get_wallet_mem [OF keys_of_ledger [OF assms(1)] w] d'(1) by simp
  have "\<not> mirror d'" using mirrorD [OF _ g a(1)] bal pos by auto
  moreover have "lookup_by pa_id ?p (payments d') = None"
    using assms(3) d'(2) by (simp add: payment_ids_fresh_def payment_tables_def)
  moreover let ?e = "new_entry now (fresh_id ?d) ?x\<lparr>je_lines := manual_lines a b (my_amount x)\<rparr>"
  have "?e \<in> set (entries d')" "je_status ?e = POSTED" "je_payment ?e = Some ?p"
    by (simp_all add: d'(3) new_entry_def manual_entry_of_def manual_entry_def)
  ultimately show ?thesis using r a(1) g bal by blast
qed

lemma manual_payment_leaves_entry_example:
  "\<exists>d'. executeManualPayment committed_late 7 ''u'' \<lparr>my_amount = 200, my_organization = ''g'', my_assignment = None,
      my_reference = None\<rparr> (sample_db 900 0 []) = (d', Inl (Internal (STR ''P2028''))) \<and> \<not> mirror d'"
proof -
  let ?x = "\<lparr>my_amount = 200, my_organization = ''g'', my_assignment = None, my_reference = None\<rparr>"
  have l: "ledger_ok (sample_db 900 0 [])" by (rule sample_ledger_ok) simp_all
  have r: "manual_ready ''u'' ?x (sample_wallet ''w'' (Some ''u'') None False 900 0 ''wa'')
      (sample_wallet ''o'' None (Some ''g'') False 500 0 ''oa'') (sample_db 900 0 [])"
    by (simp add: manual_ready_def sample_db_def sample_wallet_def lookup_by_Cons lookup_by_Nil reference_taken_def)
  have i: "payment_ids_fresh (sample_db 900 0 [])"
    by (simp add: payment_ids_fresh_def sample_db_def lookup_by_Nil)
  from manual_payment_leaves_entry [OF l r i] show ?thesis by blast
qed

end
