(* ===== verification/WalletMovements.thy ===== *)
theory WalletMovements
  imports Prelude FinanceDb Samples Ledger Wallets Books Collections CollectionBooks Payments
begin

text \<open>
  Credits, debits and savings. A movement recorded from the current row of a wallet moves the wallet
  and its ledger account by the same amount and leaves the other rows alone; along every sequence of
  these operations the wallets hold what the transactions say and every goal what was deposited to
  it. From a snapshot that is no longer current the balance of the wallet is overwritten.
\<close>

section \<open>A movement from the current row\<close>

definition signed :: "transaction_row \<Rightarrow> int" where
  "signed t = (if tr_type t = CREDIT then tr_amount t else - tr_amount t)"

definition net_transactions :: "db \<Rightarrow> int" where
  "net_transactions d = sum_list (map signed (txns d))"

lemma record_movement_Inr:
  "record_movement ty w amount after r d = Inr (tr, d') \<longleftrightarrow>
     lookup_by tr_reference r (txns d) = None \<and> tr = wallet_row (fresh_id d) w ty amount r \<and>
     (\<exists>a. wl_account w = Some a \<and>
        d' = write_account a after (write_wallet (wl_id w) after
          (d\<lparr>txns := txns d @ [tr],
             ledger_entries := ledger_entries d @ [ledger_row a (fresh_id d) amount ty (wl_balance w) after],
             seq := Suc (seq d)\<rparr>)))"
  by (auto simp: record_movement_def Let_def result_simps)

lemma movement_recorded:
  assumes "record_movement ty w amount (wl_balance w + x) r d = Inr (tr, d')" and "get_wallet d (wl_id w) = Some w"
    and "ledger_ok d"
  shows "ledger_ok d'" and "total wl_balance (wallets d') = total wl_balance (wallets d) + x"
    and "trial_balance d' = trial_balance d + x" and "txns d' = txns d @ [tr]"
    and "map_option wl_balance (get_wallet d' k) =
      map_option (\<lambda>v. wl_balance v + (if k = wl_id w then x else 0)) (get_wallet d k)"
    and "goals d' = goals d" and "goal_deposits d' = goal_deposits d" and "idgen d' = idgen d" and "seq d' = Suc (seq d)"
proof -
  note D = assms(1) [unfolded record_movement_Inr]
  obtain a where a: "wl_account w = Some a" and d': "d' = write_account a (wl_balance w + x) (write_wallet (wl_id w) (wl_balance w + x)
      (d\<lparr>txns := txns d @ [tr],
         ledger_entries := ledger_entries d @ [ledger_row a (fresh_id d) amount ty (wl_balance w) (wl_balance w + x)],
         seq := Suc (seq d)\<rparr>))" using D by blast
  let ?d = "d\<lparr>txns := txns d @ [tr],
    ledger_entries := ledger_entries d @ [ledger_row a (fresh_id d) amount ty (wl_balance w) (wl_balance w + x)],
    seq := Suc (seq d)\<rparr>"
  have b: "books_ok d" and keys: "keys_ok d" using assms(3) by (simp_all add: books_of_ledger keys_of_ledger)
  note acc = linked_account [OF b assms(2) a]
  have m1: "movement (\<lambda>_. 0) (\<lambda>_. 0) d ?d" by (rule movement_frame) simp_all
  have m2: "movement (\<lambda>i. if i = wl_id w then x else 0) (moved (Some a) x) ?d d'"
    unfolding d' using assms(2) acc(1) by (intro movement_credit) simp_all
  have m: "movement (\<lambda>i. if i = wl_id w then x else 0) (moved (Some a) x) d d'"
    by (rule movement_cong [OF movement_trans [OF m1 m2]]) simp_all
  have pt: "moved (Some a) x i = (if k = wl_id w then x else 0)"
    if "map_option wl_account (get_wallet d k) = Some (Some i)" "map_option la_wallet (get_account d i) = Some (Some k)" for k i
    using that acc(2) a assms(2) by auto
  show "ledger_ok d'" by (rule movement_ledger [OF m assms(3) pt])
  show "total wl_balance (wallets d') = total wl_balance (wallets d) + x"
    using total_write_wallet [of ?d "wl_id w" "wl_balance w" "wl_balance w + x"] keys assms(2)
    by (simp add: d' keys_ok_def)
  have "a \<in> set (map la_id (accounts d))"
  proof (rule ccontr)
    assume "a \<notin> set (map la_id (accounts d))"
    then have "get_account d a = None" by (simp add: lookup_by_None)
    with acc(1) show False by simp
  qed
  then show "trial_balance d' = trial_balance d + x"
    using movement_trial [OF m keys] sum_moved [of "map la_id (accounts d)" "Some a" x] keys by (simp add: keys_ok_def)
  have "map_option (\<lambda>v. (wl_account v, wl_balance v)) (get_wallet d' k) =
      map_option (\<lambda>v. (wl_account v, wl_balance v + (if k = wl_id w then x else 0))) (get_wallet d k)"
    by (rule movementD(3) [OF m])
  then show "map_option wl_balance (get_wallet d' k) =
      map_option (\<lambda>v. wl_balance v + (if k = wl_id w then x else 0)) (get_wallet d k)"
    by (cases "get_wallet d k"; cases "get_wallet d' k") simp_all
qed (use assms(1) in \<open>auto simp: record_movement_Inr write_account_def write_wallet_def\<close>)

text \<open>The wallet that \<open>getOrCreateWallet\<close> returns is the current row.\<close>

lemma user_wallet_current:
  assumes "getOrCreateWallet (UserOwner u) d = (d', Inr w)" and "ledger_ok d"
  shows "get_wallet d' (wl_id w) = Some w" and "wl_user w = Some u" and "ledger_ok d'"
proof -
  have k: "keys_ok d" by (rule keys_of_ledger [OF assms(2)])
  show l: "ledger_ok d'"
    using getOrCreateWallet_keeps [of d "UserOwner u"] assms by (simp add: keeps_ledger_def)
  show "wl_user w = Some u" using getOrCreateWallet_owns [OF assms(1) k] by (simp add: owns_def)
  have "getOrCreateUserWallet u d' = (d', Inr w)"
    using getOrCreateWallet_again [OF assms(1) k] by (simp add: getOrCreateWallet_def)
  moreover have "lookup_by wl_user (Some u) (wallets d') \<noteq> None"
  proof (cases "lookup_by wl_user (Some u) (wallets d)")
    case None
    with assms(1) have "transaction (open_wallet (Some u) None False (user_account_data u)
        (Some u, STR ''WALLET_CREATED'')) d = (d', Inr w)"
      by (simp add: wallet_defs split: option.splits)
    from open_wallet_found(1,4) [OF this k] None show ?thesis by (simp add: table_simps)
  next
    case (Some v)
    with assms(1) show ?thesis by (auto simp: wallet_defs split: option.splits)
  qed
  ultimately have "lookup_by wl_user (Some u) (wallets d') = Some w"
    by (auto simp: getOrCreateUserWallet_def split: option.splits)
  then show "get_wallet d' (wl_id w) = Some w"
    by (rule get_wallet_mem [OF keys_of_ledger [OF l] lookup_by_mem])
qed


text \<open>Opening a user's wallet moves no money.\<close>

lemma user_wallet_opens:
  assumes "ledger_ok d"
  shows "total wl_balance (wallets (fst (getOrCreateWallet (UserOwner u) d))) = total wl_balance (wallets d)"
    and "trial_balance (fst (getOrCreateWallet (UserOwner u) d)) = trial_balance d"
    and "ledger_ok (fst (getOrCreateWallet (UserOwner u) d))"
    and "txns (fst (getOrCreateWallet (UserOwner u) d)) = txns d"
    and "goals (fst (getOrCreateWallet (UserOwner u) d)) = goals d"
    and "goal_deposits (fst (getOrCreateWallet (UserOwner u) d)) = goal_deposits d"
    and "idgen (fst (getOrCreateWallet (UserOwner u) d)) = idgen d"
    and "seq d \<le> seq (fst (getOrCreateWallet (UserOwner u) d))"
proof -
  have k: "keys_ok d" by (rule keys_of_ledger [OF assms])
  have "total wl_balance (wallets d') = total wl_balance (wallets d)"
    if "open_wallet v g p acct act d = Inr (w, d')" for v g p acct act w d'
    using open_wallet_InrD(1,2) [OF that k] by (simp add: total_def opened_wallet_def new_wallet_def)
  then have "total wl_balance (wallets (fst (transaction (open_wallet v g p acct act) d))) = total wl_balance (wallets d)"
    for v g p acct act
    by (rule transaction_invariant [of "\<lambda>d'. total wl_balance (wallets d') = total wl_balance (wallets d)", OF refl])
  then show "total wl_balance (wallets (fst (getOrCreateWallet (UserOwner u) d))) = total wl_balance (wallets d)"
    by (simp add: wallet_defs split: option.split)
  show "trial_balance (fst (getOrCreateWallet (UserOwner u) d)) = trial_balance d"
    and "ledger_ok (fst (getOrCreateWallet (UserOwner u) d))"
    using getOrCreateWallet_keeps [of d "UserOwner u"] assms by (simp_all add: keeps_ledger_def)
  show "txns (fst (getOrCreateWallet (UserOwner u) d)) = txns d"
    and "goals (fst (getOrCreateWallet (UserOwner u) d)) = goals d"
    and "goal_deposits (fst (getOrCreateWallet (UserOwner u) d)) = goal_deposits d"
    and "idgen (fst (getOrCreateWallet (UserOwner u) d)) = idgen d"
    by (rule getOrCreateWallet_frame; simp)+
  show "seq d \<le> seq (fst (getOrCreateWallet (UserOwner u) d))" by (rule getOrCreateWallet_seq)
qed

section \<open>Sequences of credits, debits and deposits\<close>

definition goal_total :: "db \<Rightarrow> ident \<Rightarrow> int" where
  "goal_total d i = sum_list (map snd (filter (\<lambda>p. fst p = i) (goal_deposits d)))"

definition goals_ok :: "db \<Rightarrow> bool" where
  "goals_ok d \<longleftrightarrow>
     distinct (map sg_id (goals d)) \<and> fresh_for d (map sg_id (goals d)) \<and> fresh_for d (map fst (goal_deposits d)) \<and>
     (\<forall>i c. map_option sg_current (get_goal d i) = Some c \<longrightarrow> c = goal_total d i)"

text \<open>The money: the books, the goals, and the wallets and the ledger relative to the transactions.\<close>

definition money_kept :: "int \<Rightarrow> int \<Rightarrow> db \<Rightarrow> bool" where
  "money_kept c t d \<longleftrightarrow> ledger_ok d \<and> goals_ok d \<and>
     total wl_balance (wallets d) - net_transactions d = c \<and> trial_balance d - net_transactions d = t"

lemma goals_ok_cong:
  assumes "goals_ok d" and "goals d' = goals d" and "goal_deposits d' = goal_deposits d" and "idgen d' = idgen d"
    and "seq d \<le> seq d'"
  shows "goals_ok d'"
  using assms(1) fresh_for_mono [OF _ assms(4,5)] unfolding goals_ok_def assms(2,3) goal_total_def by blast

lemma money_kept_wallet: "money_kept c t d \<Longrightarrow> money_kept c t (fst (getOrCreateWallet (UserOwner u) d))"
  using user_wallet_opens [of d u] goals_ok_cong [of d "fst (getOrCreateWallet (UserOwner u) d)"]
  by (simp add: money_kept_def net_transactions_def)

lemma money_kept_recorded:
  assumes "record_movement ty w amount (wl_balance w + x) r d = Inr (tr, d')" and "get_wallet d (wl_id w) = Some w"
    and "money_kept c t d" and "x = (if ty = CREDIT then amount else - amount)"
  shows "money_kept c t d'"
proof -
  have l: "ledger_ok d" using assms(3) by (simp add: money_kept_def)
  note R = movement_recorded [OF assms(1,2) l]
  have "goals_ok d'" by (rule goals_ok_cong [of d]) (use assms(3) R(6-9) in \<open>simp_all add: money_kept_def\<close>)
  moreover have "signed tr = x"
    using assms(1,4) by (simp add: record_movement_Inr signed_def wallet_row_def)
  ultimately show ?thesis using assms(3) R(1-4) by (simp add: money_kept_def net_transactions_def)
qed

lemma money_kept_log: "money_kept c t (log_activity u a d) \<longleftrightarrow> money_kept c t d"
  by (simp add: money_kept_def ledger_ok_log trial_log goals_ok_def goal_total_def net_transactions_def fresh_for_def)
    (simp add: log_activity_def)


lemma goal_total_none: "fresh_for d (map fst (goal_deposits d)) \<Longrightarrow> seq d \<le> n \<Longrightarrow> goal_total d (idgen d n) = 0"
proof -
  assume f: "fresh_for d (map fst (goal_deposits d))" and n: "seq d \<le> n"
  then have "filter (\<lambda>p. fst p = idgen d n) (goal_deposits d) = []"
    by (force simp: fresh_for_def filter_empty_conv)
  then show ?thesis by (simp add: goal_total_def)
qed

lemma money_kept_new_goal:
  assumes "money_kept c t d"
  shows "money_kept c t (d\<lparr>goals := goals d @ [new_goal (fresh_id d) u target], seq := Suc (seq d)\<rparr>)"
proof -
  let ?d = "d\<lparr>goals := goals d @ [new_goal (fresh_id d) u target], seq := Suc (seq d)\<rparr>"
  have g: "goals_ok d" and l: "ledger_ok d" using assms by (simp_all add: money_kept_def)
  have i: "inj (idgen ?d)" using keys_of_ledger [OF l] by (simp add: keys_ok_def)
  have mono: "fresh_for ?d ks" if "fresh_for d ks" for ks
    using that by (rule fresh_for_mono) simp_all
  have ids: "map sg_id (goals ?d) = map sg_id (goals d) @ [idgen ?d (seq d)]" by (simp add: new_goal_def fresh_id_def)
  have "idgen d (seq d) \<notin> set (map sg_id (goals d))" using g by (simp add: goals_ok_def fresh_for_def)
  moreover have "fresh_for ?d (map sg_id (goals d) @ [idgen ?d (seq d)])"
    using g by (intro fresh_for_snoc [OF i mono]) (simp_all add: goals_ok_def)
  moreover have "v = goal_total ?d k" if "map_option sg_current (get_goal ?d k) = Some v" for k v
  proof (cases "get_goal d k")
    case None
    with that have k: "k = idgen d (seq d)" and v: "v = 0"
      by (auto simp: table_simps new_goal_def fresh_id_def split: if_splits)
    have "goal_total d (idgen d (seq d)) = 0" by (rule goal_total_none) (use g in \<open>simp_all add: goals_ok_def\<close>)
    then show ?thesis by (simp add: k v goal_total_def)
  next
    case (Some r)
    with that have "map_option sg_current (get_goal d k) = Some v" by (simp add: table_simps)
    with g have "v = goal_total d k" unfolding goals_ok_def by blast
    then show ?thesis by (simp add: goal_total_def)
  qed
  ultimately have "goals_ok ?d" using g mono unfolding goals_ok_def ids by simp
  moreover have "movement (\<lambda>_. 0) (\<lambda>_. 0) d ?d" by (rule movement_frame) simp_all
  ultimately show ?thesis
    using movement_still [of d ?d] assms by (simp add: money_kept_def keeps_ledger_def net_transactions_def)
qed

lemma money_kept_save:
  assumes "money_kept c t d" and "get_goal d (sg_id g) = Some g"
  shows "money_kept c t (save_to_goal g amount d)"
proof -
  let ?d = "save_to_goal g amount d"
  have g: "goals_ok d" using assms by (simp add: money_kept_def)
  have "sg_id g \<in> set (map sg_id (goals d))" using lookup_by_mem [OF assms(2)] by simp
  then have f: "fresh_for ?d (map fst (goal_deposits ?d))"
    using g by (auto simp: goals_ok_def fresh_for_def save_to_goal_def)
  have ids: "map sg_id (goals ?d) = map sg_id (goals d)" by (simp add: save_to_goal_def table_simps)
  have "sg_current g = goal_total d (sg_id g)" using g assms(2) by (simp add: goals_ok_def)
  then have "v = goal_total ?d k" if "map_option sg_current (get_goal ?d k) = Some v" for k v
    using that g assms(2)
    by (cases "k = sg_id g") (auto simp: save_to_goal_def table_simps goal_total_def goals_ok_def)
  with g f have "goals_ok ?d" unfolding goals_ok_def ids by (simp add: fresh_for_def save_to_goal_def)
  moreover have "movement (\<lambda>_. 0) (\<lambda>_. 0) d ?d" by (rule movement_frame) (simp_all add: save_to_goal_def)
  ultimately show ?thesis
    using movement_still [of d ?d] assms(1) by (simp add: money_kept_def keeps_ledger_def net_transactions_def save_to_goal_def)
qed

datatype money_operation =
    Credit ident wallet_dto
  | Debit ident wallet_dto
  | OpenGoal ident int
  | Save ident savings_dto

fun perform_money :: "money_operation \<Rightarrow> db \<Rightarrow> db" where
  "perform_money (Credit u x) d = fst (creditWallet u x d)"
| "perform_money (Debit u x) d = fst (debitWallet u x d)"
| "perform_money (OpenGoal u target) d = fst (createSavingsGoal u target d)"
| "perform_money (Save u x) d = fst (depositToSavings u x d)"

text \<open>Each operation runs from the wallet it has just read.\<close>

lemma money_kept_with_wallet:
  assumes "money_kept c t d"
    and "\<And>w d1. money_kept c t d1 \<Longrightarrow> get_wallet d1 (wl_id w) = Some w \<Longrightarrow> money_kept c t (fst (k w d1))"
  shows "money_kept c t (fst (thenDo (getOrCreateWallet (UserOwner u) d) k))"
proof (rule thenDo_invariant)
  show "money_kept c t (fst (getOrCreateWallet (UserOwner u) d))" by (rule money_kept_wallet [OF assms(1)])
  fix d1 w
  assume r: "getOrCreateWallet (UserOwner u) d = (d1, Inr w)" and m: "money_kept c t d1"
  have "ledger_ok d" using assms(1) by (simp add: money_kept_def)
  from user_wallet_current(1) [OF r this] show "money_kept c t (fst (k w d1))" by (rule assms(2) [OF m])
qed

lemma money_kept_credit:
  assumes "money_kept c t d" and "get_wallet d (wl_id w) = Some w"
  shows "money_kept c t (fst (transaction (credit_with u x w) d))"
proof (rule transaction_invariant [of "money_kept c t", OF assms(1)])
  fix r d'
  assume "credit_with u x w d = Inr (r, d')"
  then obtain tr d1 where p: "record_movement CREDIT w (wt_amount x) (wl_balance w + wt_amount x)
      (transaction_reference ''TXN_'' (wt_reference x) d) d = Inr (tr, d1)"
    and d': "d' = log_activity (Some u) (STR ''WALLET_CREDITED'') d1"
    by (auto simp: credit_with_def result_simps)
  from money_kept_recorded [OF p assms(2,1)] show "money_kept c t d'" by (simp add: d' money_kept_log)
qed

lemma money_kept_debit:
  assumes "money_kept c t d" and "get_wallet d (wl_id w) = Some w"
  shows "money_kept c t (fst (transaction (debit_with u x w) d))"
proof (rule transaction_invariant [of "money_kept c t", OF assms(1)])
  fix r d'
  assume "debit_with u x w d = Inr (r, d')"
  then obtain tr d1 where p: "record_movement DEBIT w (wt_amount x) (wl_balance w + - wt_amount x)
      (transaction_reference ''TXN_'' (wt_reference x) d) d = Inr (tr, d1)"
    and d': "d' = log_activity (Some u) (STR ''WALLET_DEBITED'') d1"
    by (auto simp: debit_with_def result_simps)
  from money_kept_recorded [OF p assms(2,1)] show "money_kept c t d'" by (simp add: d' money_kept_log)
qed

lemma deposit_with_Inr:
  assumes "deposit_with u x w d = Inr (g, d')"
  obtains tr d1 where "get_goal d (sd_goal x) = Some g" and "sg_id g = sd_goal x" and "sg_status g = GoalActive"
    and "wl_status w = WalletActive" and "sd_amount x \<le> wl_balance w"
    and "record_movement DEBIT w (sd_amount x) (wl_balance w + - sd_amount x) (''SAV_'' @ fresh_id d)
      (save_to_goal g (sd_amount x) d) = Inr (tr, d1)"
    and "d' = log_activity (Some u) (STR ''SAVINGS_DEPOSIT'') d1"
  using assms lookup_by_key [of sg_id "sd_goal x" "goals d" g] by (auto simp: deposit_with_def result_simps)

lemma money_kept_deposit:
  assumes "money_kept c t d" and "get_wallet d (wl_id w) = Some w"
  shows "money_kept c t (fst (transaction (deposit_with u x w) d))"
proof (rule transaction_invariant [of "money_kept c t", OF assms(1)])
  fix g d'
  assume "deposit_with u x w d = Inr (g, d')"
  then obtain tr d1 where g: "get_goal d (sd_goal x) = Some g" "sg_id g = sd_goal x"
    and p: "record_movement DEBIT w (sd_amount x) (wl_balance w + - sd_amount x) (''SAV_'' @ fresh_id d)
      (save_to_goal g (sd_amount x) d) = Inr (tr, d1)"
    and d': "d' = log_activity (Some u) (STR ''SAVINGS_DEPOSIT'') d1"
    by (rule deposit_with_Inr)
  have m: "money_kept c t (save_to_goal g (sd_amount x) d)"
    by (rule money_kept_save [OF assms(1)]) (use g in simp)
  have w: "get_wallet (save_to_goal g (sd_amount x) d) (wl_id w) = Some w" by (simp add: save_to_goal_def assms(2))
  from money_kept_recorded [OF p w m] show "money_kept c t d'" by (simp add: d' money_kept_log)
qed

lemma perform_money_keeps: "money_kept c t d \<Longrightarrow> money_kept c t (perform_money e d)"
  by (cases e) (auto simp: creditWallet_def debitWallet_def createSavingsGoal_def depositToSavings_def Let_def money_kept_log
      intro!: money_kept_with_wallet money_kept_credit money_kept_debit money_kept_deposit money_kept_new_goal)

interpretation money_history: kept_invariant perform_money "money_kept c t"
  by unfold_locales (rule perform_money_keeps)

text \<open>A credit writes the balance of the snapshot it was given plus its amount.\<close>

lemma credit_with_writes:
  assumes "credit_with u x w d = Inr (r, d')"
  shows "wallets d' = wallets (write_wallet (wl_id w) (wl_balance w + wt_amount x) d) \<and>
     net_transactions d' = net_transactions d + wt_amount x"
  using assms by (auto simp: credit_with_def result_simps record_movement_Inr log_activity_def write_account_def
      write_wallet_def net_transactions_def signed_def wallet_row_def)

section \<open>Properties\<close>

text \<open>C28: Credits, debits, new goals and deposits, in any order and number, keep the books: the wallets
  together hold what they held plus what the new transactions credit minus what they debit, every
  goal shows exactly what was deposited to it, and wallets and ledger accounts stay mirrored. The
  trial balance moves with the wallets: these operations have no second side in the ledger.\<close>

theorem wallet_operations_conserve:
  assumes "ledger_ok d" and "goals_ok d"
  shows "ledger_ok (fold perform_money es d) \<and>
     total wl_balance (wallets (fold perform_money es d)) - total wl_balance (wallets d)
       = net_transactions (fold perform_money es d) - net_transactions d \<and>
     trial_balance (fold perform_money es d) - trial_balance d
       = net_transactions (fold perform_money es d) - net_transactions d \<and>
     (get_goal (fold perform_money es d) i = Some g \<longrightarrow> sg_current g = goal_total (fold perform_money es d) i)"
proof -
  have "money_kept (total wl_balance (wallets d) - net_transactions d) (trial_balance d - net_transactions d) (fold perform_money es d)"
    by (rule money_history.sequence_keeps) (simp add: money_kept_def assms)
  then show ?thesis by (simp add: money_kept_def goals_ok_def)
qed

text \<open>A deposit succeeds exactly when the depositor's wallet is active and covers the amount and the goal
  exists and is active; then the wallet falls and the goal rises by the amount and every other
  wallet and goal keeps its own. Whose goal it is does not matter: anybody's active goal takes the
  deposit. A refused deposit writes nothing but the opened wallet.\<close>

lemma depositToSavings_exact:
  assumes "ledger_ok d" and "getOrCreateWallet (UserOwner u) d = (d1, Inr w)"
    and "lookup_by tr_reference (''SAV_'' @ fresh_id d1) (txns d) = None"
  shows "if wl_status w = WalletActive \<and> sd_amount x \<le> wl_balance w
          \<and> map_option sg_status (get_goal d (sd_goal x)) = Some GoalActive
     then \<exists>d' g. depositToSavings u x d = (d', Inr g) \<and> get_goal d (sd_goal x) = Some g \<and>
       map_option wl_balance (get_wallet d' k)
         = map_option (\<lambda>v. wl_balance v - (if k = wl_id w then sd_amount x else 0)) (get_wallet d1 k) \<and>
       map_option sg_current (get_goal d' i)
         = map_option (\<lambda>h. sg_current h + (if i = sd_goal x then sd_amount x else 0)) (get_goal d i)
     else \<exists>e. depositToSavings u x d = (d1, Inl e)"
proof -
  note same = user_wallet_opens(4,5) [OF assms(1), of u, unfolded assms(2) fst_conv]
  note cur = user_wallet_current [OF assms(2,1)]
  have dep: "depositToSavings u x d = transaction (deposit_with u x w) d1"
    by (simp add: depositToSavings_def assms(2))
  show ?thesis
  proof (cases "wl_status w = WalletActive \<and> sd_amount x \<le> wl_balance w
      \<and> map_option sg_status (get_goal d (sd_goal x)) = Some GoalActive")
    case True
    then obtain g where g: "get_goal d1 (sd_goal x) = Some g" "sg_status g = GoalActive" by (auto simp: same)
    have gi: "sg_id g = sd_goal x" by (rule lookup_by_key [OF g(1)])
    let ?d = "save_to_goal g (sd_amount x) d1"
    have w: "get_wallet ?d (wl_id w) = Some w" by (simp add: save_to_goal_def cur(1))
    have "movement (\<lambda>_. 0) (\<lambda>_. 0) d1 ?d" by (rule movement_frame) (simp_all add: save_to_goal_def)
    then have l: "ledger_ok ?d" using movement_still [of d1 ?d] cur(3) by (simp add: keeps_ledger_def)
    have "map_option wl_account (get_wallet d1 (wl_id w)) \<noteq> Some None"
      using cur(3) unfolding ledger_ok_def accounts_open_def by blast
    with cur(1) obtain a where a: "wl_account w = Some a" by auto
    obtain tr d2 where p: "record_movement DEBIT w (sd_amount x) (wl_balance w + - sd_amount x) (''SAV_'' @ fresh_id d1) ?d = Inr (tr, d2)"
      using assms(3) a by (auto simp: record_movement_def same save_to_goal_def Let_def)
    let ?r = "log_activity (Some u) (STR ''SAVINGS_DEPOSIT'') d2"
    have r: "depositToSavings u x d = (?r, Inr g)"
      using True g p by (simp add: dep transaction_def deposit_with_def)
    note R = movement_recorded [OF p w l]
    have "map_option wl_balance (get_wallet ?r k)
         = map_option (\<lambda>v. wl_balance v - (if k = wl_id w then sd_amount x else 0)) (get_wallet d1 k)"
      using R(5) [of k] by (cases "k = wl_id w") (simp_all add: log_activity_def save_to_goal_def)
    moreover have "map_option sg_current (get_goal ?r i)
         = map_option (\<lambda>h. sg_current h + (if i = sd_goal x then sd_amount x else 0)) (get_goal d i)"
      using g(1) by (cases "get_goal d i") (auto simp: log_activity_def R(6) save_to_goal_def table_simps gi same)
    ultimately show ?thesis using True r g(1) by (auto simp: same)
  next
    case False
    then have "\<exists>e. deposit_with u x w d1 = Inl e"
      by (cases "get_goal d (sd_goal x)") (auto simp: deposit_with_def require_def same)
    with False show ?thesis by (auto simp: dep transaction_def)
  qed
qed

text \<open>A debit looks at the balance and not at what is held: whenever the amount is covered by the balance
  but not by the part of it that pending withdrawals leave free, the debit succeeds and the wallet
  no longer covers its reservations.\<close>

lemma debit_spends_reserved:
  assumes "ledger_ok d" and "getOrCreateWallet (UserOwner (wt_user x)) d = (d1, Inr w)" and "wl_status w = WalletActive"
    and "wt_amount x \<le> wl_balance w" and "wl_balance w - wl_held w < wt_amount x"
    and "lookup_by tr_reference (transaction_reference ''TXN_'' (wt_reference x) d1) (txns d) = None"
  shows "\<exists>d' r. debitWallet u x d = (d', Inr r) \<and>
     map_option (\<lambda>v. (wl_balance v, wl_held v)) (get_wallet d' (wl_id w)) = Some (wl_balance w - wt_amount x, wl_held w) \<and>
     \<not> solvent d'"
proof -
  note cur = user_wallet_current [OF assms(2,1)]
  have t: "txns d1 = txns d" using user_wallet_opens(4) [OF assms(1), of "wt_user x"] by (simp add: assms(2))
  have "map_option wl_account (get_wallet d1 (wl_id w)) \<noteq> Some None"
    using cur(3) unfolding ledger_ok_def accounts_open_def by blast
  with cur(1) obtain a where a: "wl_account w = Some a" by auto
  obtain tr d2 where p: "record_movement DEBIT w (wt_amount x) (wl_balance w - wt_amount x)
      (transaction_reference ''TXN_'' (wt_reference x) d1) d1 = Inr (tr, d2)"
    using assms(6) a by (auto simp: record_movement_def t Let_def)
  let ?r = "log_activity (Some u) (STR ''WALLET_DEBITED'') d2"
  have r: "debitWallet u x d = (?r, Inr (get_wallet d2 (wl_id w), tr))"
    using assms(3,4) p by (simp add: debitWallet_def assms(2) transaction_def debit_with_def)
  have g: "get_wallet ?r (wl_id w) = Some (w\<lparr>wl_balance := wl_balance w - wt_amount x\<rparr>)"
    using p cur(1) by (auto simp: record_movement_Inr log_activity_def write_account_def write_wallet_def table_simps)
  have "\<not> solvent ?r"
  proof
    assume "solvent ?r"
    then have "0 \<le> wl_balance w - wt_amount x - wl_held w" using g unfolding solvent_def by fastforce
    with assms(5) show False by simp
  qed
  with r g show ?thesis by simp
qed

text \<open>Two credits that read the wallet before either committed both report success and both are recorded,
  but the second writes the balance computed from its own snapshot: the first amount is in the
  transactions and not in the wallet.\<close>

lemma simultaneous_credits_lose_one:
  assumes "credit_with u x w d = Inr (r, d1)" and "credit_with v y w d1 = Inr (r', d2)"
    and "get_wallet d (wl_id w) = Some w" and "keys_ok d"
  shows "map_option wl_balance (get_wallet d2 (wl_id w)) = Some (wl_balance w + wt_amount y) \<and>
     total wl_balance (wallets d2) - total wl_balance (wallets d) = wt_amount y \<and>
     net_transactions d2 - net_transactions d = wt_amount x + wt_amount y"
proof -
  let ?k = "wl_id w"
  from credit_with_writes [OF assms(1)] credit_with_writes [OF assms(2)]
  have 1: "wallets d1 = wallets (write_wallet ?k (wl_balance w + wt_amount x) d)"
    "wallets d2 = wallets (write_wallet ?k (wl_balance w + wt_amount y) d1)"
    "net_transactions d2 = net_transactions d + wt_amount x + wt_amount y" by auto
  have dist: "distinct (map wl_id (wallets d))" using assms(4) by (simp add: keys_ok_def)
  have b1: "map_option wl_balance (get_wallet d1 ?k) = Some (wl_balance w + wt_amount x)"
    using get_write_wallet [of ?k ?k "wl_balance w + wt_amount x" d] assms(3) by (simp add: 1(1))
  have "map_option wl_balance (get_wallet d2 ?k) = Some (wl_balance w + wt_amount y)"
    using get_write_wallet [of ?k ?k "wl_balance w + wt_amount y" d1] b1 by (cases "get_wallet d1 ?k") (simp_all add: 1(2))
  moreover have "total wl_balance (wallets d1) = total wl_balance (wallets d) + wt_amount x"
    using total_write_wallet [OF dist, of ?k "wl_balance w" "wl_balance w + wt_amount x"] assms(3) by (simp add: 1(1))
  moreover have "total wl_balance (wallets d2) = total wl_balance (wallets d1) + (wt_amount y - wt_amount x)"
    using total_write_wallet [of d1 ?k "wl_balance w + wt_amount x" "wl_balance w + wt_amount y"] b1 dist
    by (simp add: 1)
  ultimately show ?thesis using 1(3) by simp
qed


section \<open>Witnesses\<close>

lemma sample_user_wallet:
  "getOrCreateWallet (UserOwner ''u'') ((sample_db balance held [])\<lparr>goals := gs\<rparr>) =
     ((sample_db balance held [])\<lparr>goals := gs\<rparr>, Inr (sample_wallet ''w'' (Some ''u'') None False balance held ''wa''))"
  by (simp add: wallet_defs sample_db_def sample_wallet_def lookup_by_Cons lookup_by_Nil)

lemma sample_goals_ledger: "ledger_ok ((sample_db balance held [])\<lparr>goals := gs\<rparr>)"
proof -
  have "movement (\<lambda>_. 0) (\<lambda>_. 0) (sample_db balance held []) ((sample_db balance held [])\<lparr>goals := gs\<rparr>)"
    by (rule movement_frame) simp_all
  from movement_still [OF this] show ?thesis
    using sample_ledger_ok [of "[]" balance held] by (simp add: keeps_ledger_def)
qed

lemma sample_no_txns: "lookup_by tr_reference r (txns ((sample_db balance held [])\<lparr>goals := gs\<rparr>)) = None"
  by (simp add: sample_db_def lookup_by_Nil)

lemma sample_no_goals: "goals_ok ((sample_db balance held [])\<lparr>goals := []\<rparr>)"
  by (simp add: goals_ok_def fresh_for_def lookup_by_Nil sample_db_def)

theorem wallet_operations_conserve_witness:
  "ledger_ok (fold perform_money
     [Credit ''adm'' \<lparr>wt_user = ''u'', wt_amount = 700, wt_reference = None\<rparr>, OpenGoal ''u'' 5000,
      Save ''u'' \<lparr>sd_goal = ''s'', sd_amount = 300\<rparr>] ((sample_db 900 0 [])\<lparr>goals := []\<rparr>))"
  using wallet_operations_conserve [OF sample_goals_ledger sample_no_goals] by blast

lemma depositToSavings_exact_example:
  "\<exists>d' g. depositToSavings ''u'' \<lparr>sd_goal = ''s'', sd_amount = 300\<rparr> ((sample_db 900 0 [])\<lparr>goals :=
       [\<lparr>sg_id = ''s'', sg_user = ''v'', sg_target = 1000, sg_current = 50, sg_status = GoalActive\<rparr>]\<rparr>) = (d', Inr g) \<and>
     map_option wl_balance (get_wallet d' ''w'') = Some 600 \<and> map_option sg_current (get_goal d' ''s'') = Some 350"
proof -
  let ?d = "(sample_db 900 0 [])\<lparr>goals :=
       [\<lparr>sg_id = ''s'', sg_user = ''v'', sg_target = 1000, sg_current = 50, sg_status = GoalActive\<rparr>]\<rparr>"
  have u: "getOrCreateWallet (UserOwner ''u'') ?d = (?d, Inr (sample_wallet ''w'' (Some ''u'') None False 900 0 ''wa''))"
    and t: "lookup_by tr_reference (''SAV_'' @ fresh_id ?d) (txns ?d) = None"
    by (rule sample_user_wallet, rule sample_no_txns)
  from depositToSavings_exact [OF sample_goals_ledger u t,
      where x = "\<lparr>sd_goal = ''s'', sd_amount = 300\<rparr>" and k = "''w''" and i = "''s''"]
  show ?thesis by (auto simp: sample_wallet_def lookup_by_Cons lookup_by_Nil)
qed

lemma debit_spends_reserved_example:
  "\<exists>d' r. debitWallet ''adm'' \<lparr>wt_user = ''u'', wt_amount = 600, wt_reference = None\<rparr>
      ((sample_db 900 500 [])\<lparr>goals := []\<rparr>) = (d', Inr r) \<and> \<not> solvent d'"
proof -
  let ?x = "\<lparr>wt_user = ''u'', wt_amount = 600, wt_reference = None\<rparr> :: wallet_dto"
  have u: "getOrCreateWallet (UserOwner (wt_user ?x)) ((sample_db 900 500 [])\<lparr>goals := []\<rparr>) =
     ((sample_db 900 500 [])\<lparr>goals := []\<rparr>, Inr (sample_wallet ''w'' (Some ''u'') None False 900 500 ''wa''))"
    using sample_user_wallet by simp
  from debit_spends_reserved [OF sample_goals_ledger u, where u = "''adm''"] sample_no_txns
  show ?thesis by (simp add: sample_wallet_def) blast
qed

lemma simultaneous_credits_lose_one_example:
  "\<exists>r d1 r' d2. credit_with ''adm'' \<lparr>wt_user = ''u'', wt_amount = 700, wt_reference = Some ''a''\<rparr>
       (sample_wallet ''w'' (Some ''u'') None False 900 0 ''wa'') (sample_db 900 0 []) = Inr (r, d1) \<and>
     credit_with ''adm'' \<lparr>wt_user = ''u'', wt_amount = 50, wt_reference = Some ''b''\<rparr>
       (sample_wallet ''w'' (Some ''u'') None False 900 0 ''wa'') d1 = Inr (r', d2) \<and>
     map_option wl_balance (get_wallet d2 ''w'') = Some 950 \<and> net_transactions d2 = 750"
proof -
  let ?w = "sample_wallet ''w'' (Some ''u'') None False 900 0 ''wa''" and ?d = "sample_db 900 0 []"
  let ?x = "\<lparr>wt_user = ''u'', wt_amount = 700, wt_reference = Some ''a''\<rparr> :: wallet_dto"
  let ?y = "\<lparr>wt_user = ''u'', wt_amount = 50, wt_reference = Some ''b''\<rparr> :: wallet_dto"
  have t: "txns ?d = []" by (simp add: sample_db_def)
  obtain r d1 where 1: "credit_with ''adm'' ?x ?w ?d = Inr (r, d1)" and t1: "map tr_reference (txns d1) = [''a'']"
    by (simp add: credit_with_def record_movement_def t lookup_by_Nil sample_wallet_def Let_def transaction_reference_def
        nonempty_def wallet_row_def write_account_def write_wallet_def log_activity_def)
  have "lookup_by tr_reference ''b'' (txns d1) = None"
    using arg_cong [OF t1, of set] by (simp add: lookup_by_None)
  then obtain r' d2 where 2: "credit_with ''adm'' ?y ?w d1 = Inr (r', d2)"
    by (simp add: credit_with_def record_movement_def sample_wallet_def Let_def transaction_reference_def nonempty_def)
  have k: "keys_ok ?d" by (rule sample_keys_ok) simp_all
  have g: "get_wallet ?d (wl_id ?w) = Some ?w" by (simp add: sample_wallet_def)
  from simultaneous_credits_lose_one [OF 1 2 g k] 1 2 show ?thesis
    by (intro exI conjI) (assumption | simp add: sample_wallet_def net_transactions_def t)+
qed

end
