(* ===== verification/RedisStore.thy ===== *)
theory RedisStore
  imports Prelude
begin

text \<open>
  \<open>RedisService\<close> and \<open>CacheService\<close> (\<open>src/redis/redis.service.ts\<close>, \<open>src/redis/cache.service.ts\<close>): values
  under string keys with a time to live, and the sets of keys registered under a tag. Values are
  kept as what \<open>get\<close> reads back of them: objects survive the way through JSON text. Times are in
  milliseconds, lifetimes in seconds.

  The locale \<open>expiring_store\<close> is what the services on top rely on; the store provides it.
\<close>

section \<open>Values with a time to live\<close>

type_synonym 'v redis = "string \<rightharpoonup> 'v \<times> nat option"

definition alive :: "nat \<Rightarrow> nat option \<Rightarrow> bool" where
  "alive now ex = (case ex of None \<Rightarrow> True | Some t \<Rightarrow> now < t)"

definition redis_get :: "nat \<Rightarrow> string \<Rightarrow> 'v redis \<Rightarrow> 'v option" where
  "redis_get now k r = (case r k of None \<Rightarrow> None | Some (v, ex) \<Rightarrow> if alive now ex then Some v else None)"

text \<open>\<open>set(key, value, ttl?)\<close>: without a lifetime, or with zero, the key stays.\<close>

definition redis_set :: "nat \<Rightarrow> string \<Rightarrow> 'v \<Rightarrow> nat option \<Rightarrow> 'v redis \<Rightarrow> 'v redis" where
  "redis_set now k v ttl r =
     r(k \<mapsto> (v, case ttl of None \<Rightarrow> None | Some s \<Rightarrow> if s = 0 then None else Some (now + s * 1000)))"

definition redis_delete :: "string \<Rightarrow> 'v redis \<Rightarrow> 'v redis" where
  "redis_delete k r = r(k := None)"

text \<open>\<open>SET key value EX ttl NX\<close>: only when the key is free.\<close>

definition redis_set_free :: "nat \<Rightarrow> string \<Rightarrow> 'v \<Rightarrow> nat \<Rightarrow> 'v redis \<Rightarrow> bool \<times> 'v redis" where
  "redis_set_free now k v ttl r =
     (case redis_get now k r of Some _ \<Rightarrow> (False, r) | None \<Rightarrow> (True, redis_set now k v (Some ttl) r))"

text \<open>\<open>CacheService.set\<close>: five minutes unless a lifetime is given.\<close>

definition cache_set :: "nat \<Rightarrow> string \<Rightarrow> 'v \<Rightarrow> nat option \<Rightarrow> 'v redis \<Rightarrow> 'v redis" where
  "cache_set now k v ttl r =
     redis_set now k v (Some (case ttl of None \<Rightarrow> 300 | Some s \<Rightarrow> if s = 0 then 300 else s)) r"

text \<open>Counters: \<open>INCR\<close> keeps the time to live, \<open>EXPIRE\<close> renews it, \<open>TTL\<close> is what is left in seconds.\<close>

definition redis_increment :: "nat \<Rightarrow> string \<Rightarrow> nat redis \<Rightarrow> nat \<times> nat redis" where
  "redis_increment now k r =
     (case redis_get now k r of
        None \<Rightarrow> (1, r(k \<mapsto> (1, None)))
      | Some n \<Rightarrow> (n + 1, r(k \<mapsto> (n + 1, case r k of None \<Rightarrow> None | Some (_, ex) \<Rightarrow> ex))))"

definition redis_expire :: "nat \<Rightarrow> string \<Rightarrow> nat \<Rightarrow> 'v redis \<Rightarrow> 'v redis" where
  "redis_expire now k s r =
     (case redis_get now k r of None \<Rightarrow> r | Some v \<Rightarrow> r(k \<mapsto> (v, Some (now + s * 1000))))"

definition redis_ttl :: "nat \<Rightarrow> string \<Rightarrow> 'v redis \<Rightarrow> int" where
  "redis_ttl now k r =
     (case r k of
        None \<Rightarrow> -2
      | Some (v, ex) \<Rightarrow>
          if \<not> alive now ex then -2 else (case ex of None \<Rightarrow> -1 | Some t \<Rightarrow> int ((t - now + 500) div 1000)))"

section \<open>The contract of a store\<close>

locale expiring_store =
  fixes get :: "nat \<Rightarrow> string \<Rightarrow> 's \<Rightarrow> 'v option"
    and put :: "nat \<Rightarrow> string \<Rightarrow> 'v \<Rightarrow> nat \<Rightarrow> 's \<Rightarrow> 's"
    and del :: "string \<Rightarrow> 's \<Rightarrow> 's"
  assumes get_put: "0 < s \<Longrightarrow> get t k' (put now k v s r) =
      (if k' = k then if t < now + s * 1000 then Some v else None else get t k' r)"
    and get_del: "get t k' (del k r) = (if k' = k then None else get t k' r)"
begin

text \<open>A value that is read and put back before it expires, again and again, is served for as long.\<close>

lemma touched_lives:
  assumes "get t k r = Some v" and "0 < s" and "\<And>t'. t \<le> t' \<Longrightarrow> t' < t + s * 1000 \<Longrightarrow> get t' k r = Some v"
    and "successively (\<lambda>a b. a \<le> b \<and> b < a + s * 1000) (t # ts @ [u])"
  shows "get u k (fold (\<lambda>t r. case get t k r of None \<Rightarrow> r | Some v \<Rightarrow> put t k v s r) ts r) = Some v"
  using assms
proof (induction ts arbitrary: t r)
  case Nil
  then show ?case by simp
next
  case (Cons t' ts)
  then have t': "get t' k r = Some v" and n: "successively (\<lambda>a b. a \<le> b \<and> b < a + s * 1000) (t' # ts @ [u])"
    by (simp_all add: successively_Cons)
  have g: "get x k (put t' k v s r) = (if x < t' + s * 1000 then Some v else None)" for x
    by (simp add: get_put Cons.prems(2))
  have "get u k (fold (\<lambda>t r. case get t k r of None \<Rightarrow> r | Some v \<Rightarrow> put t k v s r) ts (put t' k v s r)) = Some v"
    by (rule Cons.IH [of t', OF _ Cons.prems(2) _ n]) (use Cons.prems(2) in \<open>simp_all add: g\<close>)
  with t' show ?case by simp
qed

end

lemma get_redis_set:
  "redis_get t k' (redis_set now k v ttl r) =
     (if k' = k then if alive t (case ttl of None \<Rightarrow> None | Some s \<Rightarrow> if s = 0 then None else Some (now + s * 1000)) then Some v else None
      else redis_get t k' r)"
  by (simp add: redis_get_def redis_set_def)

lemma get_redis_delete: "redis_get t k' (redis_delete k r) = (if k' = k then None else redis_get t k' r)"
  by (simp add: redis_get_def redis_delete_def)

lemma get_cache_set:
  "0 < s \<Longrightarrow> redis_get t k' (cache_set now k v (Some s) r) =
     (if k' = k then if t < now + s * 1000 then Some v else None else redis_get t k' r)"
  by (simp add: cache_set_def get_redis_set alive_def)

interpretation cached: expiring_store redis_get "\<lambda>now k v s. cache_set now k v (Some s)" redis_delete
  by unfold_locales (simp_all add: get_cache_set get_redis_delete)

section \<open>Tags\<close>

text \<open>
  A cache with its tags: \<open>setWithTag\<close> registers the key under every tag, \<open>invalidateByTag\<close> removes the
  keys registered under one. The set of tags kept beside each key is never read and is left out.
\<close>

record 'v tagged_cache =
  tc_values :: "'v redis"
  tc_tags :: "string \<Rightarrow> string list"

definition setWithTag :: "nat \<Rightarrow> string \<Rightarrow> 'v \<Rightarrow> string list \<Rightarrow> nat \<Rightarrow> 'v tagged_cache \<Rightarrow> 'v tagged_cache" where
  "setWithTag now k v tags ttl c =
     c\<lparr>tc_values := cache_set now k v (Some ttl) (tc_values c),
       tc_tags := (\<lambda>t. if t \<in> set tags then List.insert k (tc_tags c t) else tc_tags c t)\<rparr>"

definition invalidateByTag :: "string \<Rightarrow> 'v tagged_cache \<Rightarrow> 'v tagged_cache" where
  "invalidateByTag tag c =
     c\<lparr>tc_values := (\<lambda>k. if k \<in> set (tc_tags c tag) then None else tc_values c k), tc_tags := (tc_tags c)(tag := [])\<rparr>"

definition cache_delete :: "string \<Rightarrow> 'v tagged_cache \<Rightarrow> 'v tagged_cache" where
  "cache_delete k c = c\<lparr>tc_values := redis_delete k (tc_values c)\<rparr>"

end
