(* ===== verification/WalletCache.thy ===== *)
theory WalletCache
  imports Prelude FinanceDb Ledger Wallets Books Collections CollectionBooks Payments WalletMovements RedisStore
begin

text \<open>
  The cache in front of \<open>WalletService\<close> (\<open>src/v1/finance/wallet.service.ts\<close>): every wallet that is read
  is kept for five minutes under a key of its owner, a hit is served without the database and kept
  for another five minutes, and an operation on a wallet invalidates before its transaction ends.

  The lemmas: as long as operations follow one another, the cached service behaves as the one on the
  database alone; a read that falls between the invalidation and the commit keeps an old row alive.
\<close>

section \<open>The cached service\<close>

type_synonym wallet_cache = "wallet tagged_cache"

definition wallet_key :: "wallet_owner \<Rightarrow> string" where
  "wallet_key owner =
     (case owner of
        UserOwner u \<Rightarrow> ''wallet:user:'' @ u
      | OrganizationOwner g \<Rightarrow> ''wallet:organization:'' @ g
      | PlatformOwner \<Rightarrow> ''wallet:platform'')"

definition wallet_ttl :: nat where
  "wallet_ttl = 300"

text \<open>\<open>cacheWallet\<close>: one entry for every owner column that is set.\<close>

definition cacheWallet :: "nat \<Rightarrow> wallet \<Rightarrow> wallet_cache \<Rightarrow> wallet_cache" where
  "cacheWallet now w c =
     (let tags = [''finance'', ''wallet''];
          keep = (\<lambda>owner c. setWithTag now (wallet_key owner) w tags wallet_ttl c);
          c1 = (case wl_user w of None \<Rightarrow> c | Some u \<Rightarrow> keep (UserOwner u) c);
          c2 = (case wl_organization w of None \<Rightarrow> c1 | Some g \<Rightarrow> keep (OrganizationOwner g) c1)
      in if wl_platform w then keep PlatformOwner c2 else c2)"

text \<open>\<open>getOrCreatePlatformWallet\<close> keeps a wallet it read itself, under one tag more.\<close>

definition cachePlatform :: "nat \<Rightarrow> wallet_owner \<Rightarrow> wallet \<Rightarrow> wallet_cache \<Rightarrow> wallet_cache" where
  "cachePlatform now owner w c =
     (if owner = PlatformOwner
      then setWithTag now (wallet_key PlatformOwner) w [''finance'', ''wallet'', ''platform''] wallet_ttl c else c)"

definition cached_wallet :: "nat \<Rightarrow> wallet_owner \<Rightarrow> db \<times> wallet_cache \<Rightarrow> (db \<times> wallet_cache) \<times> wallet result" where
  "cached_wallet now owner s =
     (case s of (d, c) \<Rightarrow>
        (case redis_get now (wallet_key owner) (tc_values c) of
           Some w \<Rightarrow> ((d, cacheWallet now w c), Inr w)
         | None \<Rightarrow>
             (case getOrCreateWallet owner d of
                (d', Inl e) \<Rightarrow> ((d', c), Inl e)
              | (d', Inr w) \<Rightarrow> ((d', cacheWallet now w (cachePlatform now owner w c)), Inr w))))"

definition owner_tag :: "wallet_owner \<Rightarrow> string option" where
  "owner_tag owner =
     (case owner of
        UserOwner u \<Rightarrow> Some (''user:'' @ u)
      | OrganizationOwner g \<Rightarrow> Some (''organization:'' @ g)
      | PlatformOwner \<Rightarrow> None)"

definition invalidateWalletCache :: "wallet_owner \<Rightarrow> wallet_cache \<Rightarrow> wallet_cache" where
  "invalidateWalletCache owner c =
     (let c1 = cache_delete (wallet_key owner) c;
          c2 = (case owner_tag owner of None \<Rightarrow> c1 | Some t \<Rightarrow> invalidateByTag t c1)
      in invalidateByTag ''finance'' (invalidateByTag ''wallet'' c2))"

text \<open>
  A handler that reads the wallet through the cache, runs its transaction from that row, and
  invalidates when the body has succeeded.
\<close>

definition from_cached_wallet ::
    "nat \<Rightarrow> wallet_owner \<Rightarrow> (wallet \<Rightarrow> db \<Rightarrow> ('a \<times> db) result) \<Rightarrow> (wallet_cache \<Rightarrow> wallet_cache) \<Rightarrow> db \<times> wallet_cache
      \<Rightarrow> (db \<times> wallet_cache) \<times> 'a result" where
  "from_cached_wallet now owner body invalidate s =
     thenDo (cached_wallet now owner s) (\<lambda>w (d, c).
       case body w d of Inl e \<Rightarrow> ((d, c), Inl e) | Inr (r, d') \<Rightarrow> ((d', invalidate c), Inr r))"

definition cached_creditWallet ::
    "nat \<Rightarrow> ident \<Rightarrow> wallet_dto \<Rightarrow> db \<times> wallet_cache \<Rightarrow> (db \<times> wallet_cache) \<times> (wallet option \<times> transaction_row) result" where
  "cached_creditWallet now userId x =
     from_cached_wallet now (UserOwner (wt_user x)) (credit_with userId x) (invalidateWalletCache (UserOwner (wt_user x)))"

definition cached_debitWallet ::
    "nat \<Rightarrow> ident \<Rightarrow> wallet_dto \<Rightarrow> db \<times> wallet_cache \<Rightarrow> (db \<times> wallet_cache) \<times> (wallet option \<times> transaction_row) result" where
  "cached_debitWallet now userId x =
     from_cached_wallet now (UserOwner (wt_user x)) (debit_with userId x) (invalidateWalletCache (UserOwner (wt_user x)))"

definition cached_depositToSavings ::
    "nat \<Rightarrow> ident \<Rightarrow> savings_dto \<Rightarrow> db \<times> wallet_cache \<Rightarrow> (db \<times> wallet_cache) \<times> savings_goal result" where
  "cached_depositToSavings now userId x =
     from_cached_wallet now (UserOwner userId) (deposit_with userId x) (invalidateWalletCache (UserOwner userId))"

definition cached_createSavingsGoal ::
    "nat \<Rightarrow> ident \<Rightarrow> int \<Rightarrow> db \<times> wallet_cache \<Rightarrow> (db \<times> wallet_cache) \<times> savings_goal result" where
  "cached_createSavingsGoal now userId targetAmount =
     from_cached_wallet now (UserOwner userId)
       (\<lambda>_ d. let g = new_goal (fresh_id d) userId targetAmount
              in Inr (g, log_activity (Some userId) (STR ''SAVINGS_GOAL_CREATED'') (d\<lparr>goals := goals d @ [g], seq := Suc (seq d)\<rparr>)))
       (\<lambda>c. c)"


section \<open>The cache agrees with the database\<close>

text \<open>The wallet of an owner, without opening one.\<close>

definition wallet_found :: "wallet_owner \<Rightarrow> db \<Rightarrow> wallet \<Rightarrow> bool" where
  "wallet_found owner d w \<longleftrightarrow>
     (case owner of
        UserOwner u \<Rightarrow> lookup_by us_id u (users d) \<noteq> None \<and> lookup_by wl_user (Some u) (wallets d) = Some w
      | OrganizationOwner g \<Rightarrow> lookup_by og_id g (orgs d) \<noteq> None \<and> lookup_by wl_organization (Some g) (wallets d) = Some w
      | PlatformOwner \<Rightarrow> platform_wallet d = Some w)"

lemma wallet_found_get: "wallet_found owner d w \<Longrightarrow> getOrCreateWallet owner d = (d, Inr w)"
  by (cases owner) (auto simp: wallet_found_def wallet_defs)

lemma wallet_found_cong:
  "users d' = users d \<Longrightarrow> orgs d' = orgs d \<Longrightarrow> wallets d' = wallets d \<Longrightarrow> wallet_found owner d' w = wallet_found owner d w"
  by (cases owner) (simp_all add: wallet_found_def)

text \<open>A wallet has one kind of owner.\<close>

definition owners_apart :: "db \<Rightarrow> bool" where
  "owners_apart d \<longleftrightarrow> list_all (\<lambda>(u, g, p). (u \<noteq> None \<longrightarrow> g = None \<and> \<not> p) \<and> (p \<longrightarrow> g = None))
     (map (\<lambda>w. (wl_user w, wl_organization w, wl_platform w)) (wallets d))"

lemma owners_apartD:
  "owners_apart d \<Longrightarrow> w \<in> set (wallets d) \<Longrightarrow>
     (wl_user w \<noteq> None \<longrightarrow> wl_organization w = None \<and> \<not> wl_platform w) \<and> (wl_platform w \<longrightarrow> wl_organization w = None)"
  by (auto simp: owners_apart_def list_all_iff)

lemma owners_apartI:
  "(\<And>w. w \<in> set (wallets d) \<Longrightarrow>
     (wl_user w \<noteq> None \<longrightarrow> wl_organization w = None \<and> \<not> wl_platform w) \<and> (wl_platform w \<longrightarrow> wl_organization w = None)) \<Longrightarrow>
   owners_apart d"
  by (auto simp: owners_apart_def list_all_iff)

text \<open>
  Opening a wallet either writes nothing, or appends one wallet of the asked kind, or flags an
  unowned wallet as the platform's when there is none.
\<close>

lemma getOrCreateWallet_tables:
  assumes "keys_ok d"
  obtains (same) "wallets (fst (getOrCreateWallet owner d)) = wallets d"
        and "\<And>w. snd (getOrCreateWallet owner d) = Inr w \<Longrightarrow> wallet_found owner d w"
    | (opened) w where "getOrCreateWallet owner d = (fst (getOrCreateWallet owner d), Inr w)"
        and "wallets (fst (getOrCreateWallet owner d)) = wallets d @ [w]"
        and "wl_user w = (case owner of UserOwner u \<Rightarrow> Some u | _ \<Rightarrow> None)"
        and "wl_organization w = (case owner of OrganizationOwner g \<Rightarrow> Some g | _ \<Rightarrow> None)"
        and "wl_platform w = (owner = PlatformOwner)"
        and "owner = PlatformOwner \<Longrightarrow> platform_wallet d = None"
    | (flagged) v where "owner = PlatformOwner" and "platform_wallet d = None" and "wl_user v = None" and "wl_organization v = None"
        and "get_wallet d (wl_id v) = Some v"
        and "getOrCreateWallet owner d = (upd_wallet (wl_id v) (\<lambda>w. w\<lparr>wl_platform := True\<rparr>) d, Inr (v\<lparr>wl_platform := True\<rparr>))"
proof -
  have o: thesis
    if g: "getOrCreateWallet owner d = transaction (open_wallet u g p acct act) d"
      and u: "u = (case owner of UserOwner u \<Rightarrow> Some u | _ \<Rightarrow> None)"
        "g = (case owner of OrganizationOwner g \<Rightarrow> Some g | _ \<Rightarrow> None)" "p = (owner = PlatformOwner)"
        "owner = PlatformOwner \<Longrightarrow> platform_wallet d = None" for u g p acct act
  proof (cases "open_wallet u g p acct act d")
    case (Inl e)
    with g show thesis by (intro same) (simp_all add: transaction_def)
  next
    case (Inr r)
    obtain w d' where r: "r = (w, d')" by (cases r)
    with Inr g have t: "transaction (open_wallet u g p acct act) d = (d', Inr w)" and f: "getOrCreateWallet owner d = (d', Inr w)"
      by (simp_all add: transaction_def)
    from open_wallet_found(1-4) [OF t assms] f u show thesis by (intro opened [of w]) simp_all
  qed
  show thesis
  proof (cases owner)
    case (UserOwner u)
    show thesis
    proof (cases "lookup_by us_id u (users d) \<noteq> None \<and> lookup_by wl_user (Some u) (wallets d) = None")
      case True
      then show thesis by (intro o [of "Some u" None False "user_account_data u"]) (auto simp: UserOwner wallet_defs)
    qed (rule same, auto simp: UserOwner wallet_defs wallet_found_def split: option.splits)
  next
    case (OrganizationOwner g)
    show thesis
    proof (cases "lookup_by og_id g (orgs d) \<noteq> None \<and> lookup_by wl_organization (Some g) (wallets d) = None")
      case True
      then show thesis by (intro o [of None "Some g" False "organization_account_data g"]) (auto simp: OrganizationOwner wallet_defs)
    qed (rule same, auto simp: OrganizationOwner wallet_defs wallet_found_def split: option.splits)
  next
    case PlatformOwner
    let ?P = "\<lambda>w. wl_user w = None \<and> wl_organization w = None \<and> \<not> wl_platform w"
    show thesis
    proof (cases "platform_wallet d")
      case (Some w)
      then show thesis by (intro same) (simp_all add: PlatformOwner wallet_defs wallet_found_def)
    next
      case None
      show thesis
      proof (cases "find ?P (wallets d)")
        case none: None
        with None show thesis by (intro o [of None None True platform_account_data]) (auto simp: PlatformOwner wallet_defs)
      next
        case (Some v)
        then have "get_wallet d (wl_id v) = Some v"
          using assms by (intro lookup_by_distinct) (auto simp: keys_ok_def find_Some_iff)
        with None Some find_SomeD [OF Some] show thesis by (intro flagged [of v]) (simp_all add: PlatformOwner wallet_defs)
      qed
    qed
  qed
qed


lemma getOrCreateWallet_owners_tables:
  "users (fst (getOrCreateWallet owner d)) = users d" "orgs (fst (getOrCreateWallet owner d)) = orgs d"
  by (rule getOrCreateWallet_frame; simp)+

lemma find_Some_append: "find P xs = Some x \<Longrightarrow> find P (xs @ ys) = Some x"
  by (induction xs) auto

text \<open>A wallet that is found stays found while other wallets are opened.\<close>

lemma found_after:
  assumes "wallet_found o2 d w" and "keys_ok d"
  shows "wallet_found o2 (fst (getOrCreateWallet owner d)) w"
  using assms(2)
proof (cases rule: getOrCreateWallet_tables [where owner = owner])
  case same
  with assms(1) show ?thesis using wallet_found_cong [of "fst (getOrCreateWallet owner d)" d]
    by (simp add: getOrCreateWallet_owners_tables)
next
  case (opened v)
  then show ?thesis using assms(1)
    by (cases o2) (auto simp: wallet_found_def getOrCreateWallet_owners_tables table_simps find_Some_append split: option.split)
next
  case (flagged v)
  have v: "w \<noteq> v \<and> wl_id w \<noteq> wl_id v" if "w \<in> set (wallets d)" "wl_user w \<noteq> None \<or> wl_organization w \<noteq> None"
    using that flagged get_wallet_mem [OF assms(2), of w] by auto
  have r: "wallets (fst (getOrCreateWallet owner d)) = update_by wl_id (wl_id v) (\<lambda>w. w\<lparr>wl_platform := True\<rparr>) (wallets d)"
    by (simp add: flagged(6))
  show ?thesis
  proof (cases o2)
    case (UserOwner u)
    with assms(1) have l: "lookup_by wl_user (Some u) (wallets d) = Some w" by (simp add: wallet_found_def)
    from v [OF lookup_by_mem [OF l]] lookup_by_key [OF l] assms(1) show ?thesis
      by (simp add: UserOwner wallet_found_def getOrCreateWallet_owners_tables r lookup_by_update_by_other l)
  next
    case (OrganizationOwner g)
    with assms(1) have l: "lookup_by wl_organization (Some g) (wallets d) = Some w" by (simp add: wallet_found_def)
    from v [OF lookup_by_mem [OF l]] lookup_by_key [OF l] assms(1) show ?thesis
      by (simp add: OrganizationOwner wallet_found_def getOrCreateWallet_owners_tables r lookup_by_update_by_other l)
  next
    case PlatformOwner
    with assms(1) flagged(2) show ?thesis by (simp add: wallet_found_def)
  qed
qed

lemma found_result:
  assumes "getOrCreateWallet owner d = (d', Inr w)" and "keys_ok d"
  shows "wallet_found owner d' w"
  using assms(2)
proof (cases rule: getOrCreateWallet_tables [where owner = owner])
  case same
  with assms(1) show ?thesis using wallet_found_cong [of d' d owner w] getOrCreateWallet_owners_tables [of owner d] by simp
next
  case (opened v)
  with assms(1) have v: "v = w" "wallets d' = wallets d @ [w]" by simp_all
  show ?thesis
  proof (cases owner)
    case (UserOwner u)
    have "lookup_by us_id u (users d) \<noteq> None" and "lookup_by wl_user (Some u) (wallets d) = None \<or> wallets d' = wallets d"
      using assms(1) by (auto simp: UserOwner wallet_defs split: option.splits)
    with v opened(3) show ?thesis using getOrCreateWallet_owners_tables(1) [of owner d] assms(1)
      by (simp add: UserOwner wallet_found_def table_simps)
  next
    case (OrganizationOwner g)
    have "lookup_by og_id g (orgs d) \<noteq> None" and "lookup_by wl_organization (Some g) (wallets d) = None \<or> wallets d' = wallets d"
      using assms(1) by (auto simp: OrganizationOwner wallet_defs split: option.splits)
    with v opened(4) show ?thesis using getOrCreateWallet_owners_tables(2) [of owner d] assms(1)
      by (simp add: OrganizationOwner wallet_found_def table_simps)
  next
    case PlatformOwner
    with v opened(5,6) show ?thesis by (simp add: wallet_found_def find_snoc)
  qed
next
  case (flagged v)
  with assms(1) have d': "d' = upd_wallet (wl_id v) (\<lambda>w. w\<lparr>wl_platform := True\<rparr>) d" and w: "w = v\<lparr>wl_platform := True\<rparr>"
    by simp_all
  have "getOrCreatePlatformWallet d' = (d', Inr w)"
    using getOrCreateWallet_again [OF assms] flagged(1) by (simp add: getOrCreateWallet_def)
  moreover have "w \<in> set (wallets d')"
    using lookup_by_mem [OF flagged(5)] unfolding d' by (auto simp: set_update_by w intro: bexI [of _ v])
  then have "platform_wallet d' \<noteq> None" by (auto simp: find_None_iff w)
  ultimately show ?thesis by (auto simp: flagged(1) wallet_found_def getOrCreatePlatformWallet_def split: option.splits)
qed

lemma apart_after: "owners_apart d \<Longrightarrow> keys_ok d \<Longrightarrow> owners_apart (fst (getOrCreateWallet owner d))"
proof -
  assume a: "owners_apart d" and k: "keys_ok d"
  from k show ?thesis
  proof (cases rule: getOrCreateWallet_tables [where owner = owner])
    case same
    with a show ?thesis by (simp add: owners_apart_def)
  next
    case (opened w)
    then show ?thesis using a by (cases owner) (simp_all add: owners_apart_def)
  next
    case (flagged v)
    have "(wl_user w \<noteq> None \<longrightarrow> wl_organization w = None \<and> \<not> wl_platform w) \<and> (wl_platform w \<longrightarrow> wl_organization w = None)"
      if w: "w \<in> set (wallets (fst (getOrCreateWallet owner d)))" for w
    proof -
      from w obtain s where s: "s \<in> set (wallets d)" "w = (if wl_id s = wl_id v then s\<lparr>wl_platform := True\<rparr> else s)"
        unfolding flagged(6) fst_conv by (auto simp: set_update_by)
      show ?thesis
      proof (cases "wl_id s = wl_id v")
        case True
        then have "get_wallet d (wl_id v) = Some s" using get_wallet_mem [OF k s(1)] by (rule subst)
        then have "s = v" unfolding flagged(5) by (rule option.inject [THEN iffD1, symmetric])
        with s(2) flagged(3,4) show ?thesis by simp
      next
        case False
        with s(2) owners_apartD [OF a s(1)] show ?thesis by simp
      qed
    qed
    then show ?thesis by (rule owners_apartI)
  qed
qed


section \<open>The database behind a cache that agrees\<close>

lemma wallet_key_inject [simp]: "wallet_key o1 = wallet_key o2 \<longleftrightarrow> o1 = o2"
  by (cases o1; cases o2) (simp_all add: wallet_key_def)

definition entries_agree :: "db \<Rightarrow> wallet_cache \<Rightarrow> bool" where
  "entries_agree d c \<longleftrightarrow>
     (\<forall>owner w ex. tc_values c (wallet_key owner) = Some (w, ex) \<longrightarrow> wallet_found owner d w) \<and>
     (\<forall>owner. tc_values c (wallet_key owner) \<noteq> None \<longrightarrow> wallet_key owner \<in> set (tc_tags c ''wallet''))"

definition cache_ok :: "db \<times> wallet_cache \<Rightarrow> bool" where
  "cache_ok s \<longleftrightarrow> ledger_ok (fst s) \<and> goals_ok (fst s) \<and> owners_apart (fst s) \<and> entries_agree (fst s) (snd s)"

lemma cacheWallet_found:
  assumes "wallet_found owner d w" and "owners_apart d"
  shows "cacheWallet now w c = setWithTag now (wallet_key owner) w [''finance'', ''wallet''] wallet_ttl c"
proof -
  have m: "w \<in> set (wallets d)" and o: "case owner of UserOwner u \<Rightarrow> wl_user w = Some u
      | OrganizationOwner g \<Rightarrow> wl_organization w = Some g | PlatformOwner \<Rightarrow> wl_platform w"
    using assms(1) lookup_by_mem [of wl_user _ "wallets d" w] lookup_by_mem [of wl_organization _ "wallets d" w]
      lookup_by_key [of wl_user _ "wallets d" w] lookup_by_key [of wl_organization _ "wallets d" w] find_SomeD [of wl_platform "wallets d" w]
    by (auto simp: wallet_found_def split: wallet_owner.splits)
  show ?thesis
    using o owners_apartD [OF assms(2) m] by (cases owner; cases "wl_user w") (simp_all add: cacheWallet_def)
qed

lemma entries_agree_set:
  assumes "entries_agree d c" and "wallet_found owner d w" and "''wallet'' \<in> set tags"
  shows "entries_agree d (setWithTag now (wallet_key owner) w tags ttl c)"
  using assms by (simp add: entries_agree_def setWithTag_def cache_set_def redis_set_def)

lemma entries_agree_opened:
  assumes "entries_agree d c" and "keys_ok d"
  shows "entries_agree (fst (getOrCreateWallet owner d)) c"
  using assms found_after [OF _ assms(2), of _ _ owner] unfolding entries_agree_def by blast

lemma entries_agree_dropped:
  assumes "entries_agree d c"
  shows "entries_agree d' (invalidateWalletCache owner c)"
proof -
  have "tc_values (invalidateWalletCache owner c) (wallet_key o2) = None" for o2
  proof (cases "tc_values c (wallet_key o2) = None")
    case False
    with assms have "wallet_key o2 \<in> set (tc_tags c ''wallet'')" unfolding entries_agree_def by (elim conjE allE [of _ o2]) simp
    then show ?thesis
      by (simp add: invalidateWalletCache_def invalidateByTag_def cache_delete_def redis_delete_def Let_def split: option.split)
  qed (simp add: invalidateWalletCache_def invalidateByTag_def cache_delete_def redis_delete_def Let_def split: option.split)
  then show ?thesis by (simp add: entries_agree_def)
qed

lemma agrees_after_open:
  assumes "cache_ok (d, c)"
  shows "cache_ok (fst (getOrCreateWallet owner d), c)"
proof -
  let ?d = "fst (getOrCreateWallet owner d)"
  have l: "ledger_ok d" and g: "goals_ok d" and a: "owners_apart d" and e: "entries_agree d c"
    using assms by (simp_all add: cache_ok_def)
  have k: "keys_ok d" by (rule keys_of_ledger [OF l])
  have "goals_ok ?d" by (rule goals_ok_cong [OF g _ _ _ getOrCreateWallet_seq]) (rule getOrCreateWallet_frame; simp)+
  moreover have "ledger_ok ?d" using getOrCreateWallet_keeps [of d owner] l by (simp add: keeps_ledger_def)
  ultimately show ?thesis using entries_agree_opened [OF e k] apart_after [OF a k] by (simp add: cache_ok_def)
qed

lemma agrees_after_set:
  "cache_ok (d, c) \<Longrightarrow> wallet_found owner d w \<Longrightarrow> ''wallet'' \<in> set tags \<Longrightarrow>
   cache_ok (d, setWithTag now (wallet_key owner) w tags ttl c)"
  by (simp add: cache_ok_def entries_agree_set)

text \<open>A read through the cache returns, and writes to the database, what the read without it does.\<close>

lemma cached_wallet_agrees:
  assumes "cache_ok (d, c)"
  obtains c' where "cached_wallet now owner (d, c) = ((fst (getOrCreateWallet owner d), c'), snd (getOrCreateWallet owner d))"
    and "cache_ok (fst (getOrCreateWallet owner d), c')"
proof -
  have a: "owners_apart d" and e: "entries_agree d c" and k: "keys_ok d"
    using assms keys_of_ledger [of d] by (simp_all add: cache_ok_def)
  show thesis
  proof (cases "redis_get now (wallet_key owner) (tc_values c)")
    case (Some w)
    then have f: "wallet_found owner d w"
      using e by (auto simp: entries_agree_def redis_get_def split: option.splits prod.splits if_splits)
    show thesis
    proof (rule that [of "cacheWallet now w c"])
      show "cached_wallet now owner (d, c) = ((fst (getOrCreateWallet owner d), cacheWallet now w c), snd (getOrCreateWallet owner d))"
        by (simp add: cached_wallet_def Some wallet_found_get [OF f])
      show "cache_ok (fst (getOrCreateWallet owner d), cacheWallet now w c)"
        using agrees_after_set [OF assms f] by (simp add: wallet_found_get [OF f] cacheWallet_found [OF f a])
    qed
  next
    case None
    obtain d' r where g: "getOrCreateWallet owner d = (d', r)" by (cases "getOrCreateWallet owner d")
    have ok: "cache_ok (d', c)" using agrees_after_open [OF assms, of owner] by (simp add: g)
    show thesis
    proof (cases r)
      case (Inl x)
      show thesis by (rule that [of c]) (simp_all add: cached_wallet_def None g Inl ok)
    next
      case (Inr w)
      have f: "wallet_found owner d' w" by (rule found_result [OF _ k]) (simp add: g Inr)
      have "cache_ok (d', cachePlatform now owner w c)"
        using agrees_after_set [OF ok f, of "[''finance'', ''wallet'', ''platform'']"] ok
        by (cases "owner = PlatformOwner") (simp_all add: cachePlatform_def)
      from agrees_after_set [OF this f] have "cache_ok (d', cacheWallet now w (cachePlatform now owner w c))"
        using ok by (simp add: cacheWallet_found [OF f] cache_ok_def)
      then show thesis by (intro that [of "cacheWallet now w (cachePlatform now owner w c)"]) (simp_all add: cached_wallet_def None g Inr)
    qed
  qed
qed


section \<open>The cached service refines the one on the database\<close>

datatype wallet_request = Look wallet_owner | Move money_operation

datatype wallet_answer =
    Seen "wallet result"
  | Moved "(wallet option \<times> transaction_row) result"
  | Saved "savings_goal result"

fun wallet_service :: "wallet_request \<Rightarrow> db \<Rightarrow> db \<times> wallet_answer" where
  "wallet_service (Look owner) d = map_prod id Seen (getOrCreateWallet owner d)"
| "wallet_service (Move (Credit u x)) d = map_prod id Moved (creditWallet u x d)"
| "wallet_service (Move (Debit u x)) d = map_prod id Moved (debitWallet u x d)"
| "wallet_service (Move (OpenGoal u target)) d = map_prod id Saved (createSavingsGoal u target d)"
| "wallet_service (Move (Save u x)) d = map_prod id Saved (depositToSavings u x d)"

fun cached_service :: "nat \<times> wallet_request \<Rightarrow> db \<times> wallet_cache \<Rightarrow> (db \<times> wallet_cache) \<times> wallet_answer" where
  "cached_service (now, Look owner) s = map_prod id Seen (cached_wallet now owner s)"
| "cached_service (now, Move (Credit u x)) s = map_prod id Moved (cached_creditWallet now u x s)"
| "cached_service (now, Move (Debit u x)) s = map_prod id Moved (cached_debitWallet now u x s)"
| "cached_service (now, Move (OpenGoal u target)) s = map_prod id Saved (cached_createSavingsGoal now u target s)"
| "cached_service (now, Move (Save u x)) s = map_prod id Saved (cached_depositToSavings now u x s)"

text \<open>Requests served one after another, with their answers.\<close>

primrec serve :: "('e \<Rightarrow> 's \<Rightarrow> 's \<times> 'r) \<Rightarrow> 'e list \<Rightarrow> 's \<Rightarrow> 's \<times> 'r list" where
  "serve f [] s = (s, [])"
| "serve f (e # es) s = (case f e s of (s1, r) \<Rightarrow> map_prod id ((#) r) (serve f es s1))"

locale refined_service =
  fixes concrete :: "'e \<Rightarrow> 'c \<Rightarrow> 'c \<times> 'r"
    and abstract :: "'e \<Rightarrow> 'a \<Rightarrow> 'a \<times> 'r"
    and abs :: "'c \<Rightarrow> 'a"
    and ok :: "'c \<Rightarrow> bool"
  assumes simulates: "ok s \<Longrightarrow> abstract e (abs s) = map_prod abs id (concrete e s)"
    and keeps: "ok s \<Longrightarrow> ok (fst (concrete e s))"
begin

lemma serve_refines:
  "ok s \<Longrightarrow> serve abstract es (abs s) = map_prod abs id (serve concrete es s) \<and> ok (fst (serve concrete es s))"
proof (induction es arbitrary: s)
  case Nil
  then show ?case by simp
next
  case (Cons e es)
  obtain s1 r where c: "concrete e s = (s1, r)" by (cases "concrete e s")
  from keeps [OF Cons.prems, of e] have "ok s1" by (simp add: c)
  from Cons.IH [OF this] simulates [OF Cons.prems, of e] show ?case
    by (cases "serve concrete es s1") (simp add: c)
qed

end

text \<open>One operation: the read agrees, and the body keeps the books and either invalidates or keeps the wallets.\<close>

lemma from_cached_agrees:
  assumes "cache_ok (d, c)"
    and "\<And>d1 w r d2. getOrCreateWallet owner d = (d1, Inr w) \<Longrightarrow> body w d1 = Inr (r, d2) \<Longrightarrow>
           ledger_ok d2 \<and> goals_ok d2 \<and> owners_apart d2 \<and> (\<forall>c. entries_agree d1 c \<longrightarrow> entries_agree d2 (invalidate c))"
  shows "thenDo (getOrCreateWallet owner d) (\<lambda>w. transaction (body w)) =
      map_prod fst id (from_cached_wallet now owner body invalidate (d, c)) \<and>
    cache_ok (fst (from_cached_wallet now owner body invalidate (d, c)))"
proof -
  obtain d1 r where g: "getOrCreateWallet owner d = (d1, r)" by (cases "getOrCreateWallet owner d")
  obtain c1 where c1: "cached_wallet now owner (d, c) = ((d1, c1), r)" and ok: "cache_ok (d1, c1)"
    using cached_wallet_agrees [OF assms(1), of now owner] by (metis g fst_conv snd_conv)
  show ?thesis
  proof (cases r)
    case (Inl e)
    with ok show ?thesis by (simp add: from_cached_wallet_def c1 g)
  next
    case (Inr w)
    show ?thesis
    proof (cases "body w d1")
      case (Inl e)
      with ok show ?thesis by (simp add: from_cached_wallet_def c1 g Inr transaction_def)
    next
      case r2: (Inr p)
      obtain x d2 where p: "p = (x, d2)" by (cases p)
      have "ledger_ok d2 \<and> goals_ok d2 \<and> owners_apart d2 \<and> (\<forall>c. entries_agree d1 c \<longrightarrow> entries_agree d2 (invalidate c))"
        by (rule assms(2) [of d1 w x d2]) (simp_all add: g Inr r2 p)
      with ok show ?thesis by (simp add: from_cached_wallet_def c1 g Inr transaction_def r2 p cache_ok_def)
    qed
  qed
qed

lemma record_movement_apart:
  assumes "record_movement ty w amount after r d = Inr (tr, d')"
  shows "owners_apart d' = owners_apart d"
  using assms by (auto simp: record_movement_Inr owners_apart_def write_account_def write_wallet_def update_by_def update_where_def o_def
      intro!: arg_cong [where f = "list_all _"])


lemma entries_agree_cong:
  "users d' = users d \<Longrightarrow> orgs d' = orgs d \<Longrightarrow> wallets d' = wallets d \<Longrightarrow> entries_agree d c \<Longrightarrow> entries_agree d' c"
  using wallet_found_cong [of d' d] by (simp add: entries_agree_def)

lemma owners_apart_log: "owners_apart (log_activity u a d) = owners_apart d"
  by (simp add: owners_apart_def log_activity_def)

lemma money_bodies_apart:
  "credit_with u x w d = Inr (r, d') \<Longrightarrow> owners_apart d \<Longrightarrow> owners_apart d'"
  "debit_with u x w d = Inr (r, d') \<Longrightarrow> owners_apart d \<Longrightarrow> owners_apart d'"
  "deposit_with u y w d = Inr (g, d') \<Longrightarrow> owners_apart d \<Longrightarrow> owners_apart d'"
proof -
  assume a: "owners_apart d"
  show "owners_apart d'" if "credit_with u x w d = Inr (r, d')"
    using that a by (auto simp: credit_with_def result_simps owners_apart_log record_movement_apart)
  show "owners_apart d'" if "debit_with u x w d = Inr (r, d')"
    using that a by (auto simp: debit_with_def result_simps owners_apart_log record_movement_apart)
  show "owners_apart d'" if dep: "deposit_with u y w d = Inr (g, d')"
  proof -
    from dep obtain tr d1 where p: "record_movement DEBIT w (sd_amount y) (wl_balance w + - sd_amount y) (''SAV_'' @ fresh_id d)
        (save_to_goal g (sd_amount y) d) = Inr (tr, d1)" and d': "d' = log_activity (Some u) (STR ''SAVINGS_DEPOSIT'') d1"
      by (rule deposit_with_Inr)
    show ?thesis using record_movement_apart [OF p] a by (simp add: d' owners_apart_log) (simp add: owners_apart_def save_to_goal_def)
  qed
qed

text \<open>The wallet and the state a body runs from.\<close>

lemma opened_for_body:
  assumes "cache_ok (d, c)" and "getOrCreateWallet (UserOwner u) d = (d1, Inr w)"
  shows "get_wallet d1 (wl_id w) = Some w" and "\<exists>c t. money_kept c t d1" and "owners_apart d1"
proof -
  have l: "ledger_ok d" using assms(1) by (simp add: cache_ok_def)
  show "get_wallet d1 (wl_id w) = Some w" by (rule user_wallet_current [OF assms(2) l])
  have "cache_ok (d1, c)" using agrees_after_open [OF assms(1), of "UserOwner u"] by (simp add: assms(2))
  then show "\<exists>c t. money_kept c t d1" and "owners_apart d1" by (simp_all add: cache_ok_def money_kept_def)
qed

lemma body_keeps:
  assumes "\<And>c t. money_kept c t d1 \<Longrightarrow> money_kept c t (fst (transaction f d1))" and "\<exists>c t. money_kept c t d1"
    and "f d1 = Inr (r, d2)"
  shows "ledger_ok d2 \<and> goals_ok d2"
proof -
  obtain c t where "money_kept c t d1" using assms(2) by blast
  from assms(1) [OF this] show ?thesis by (simp add: transaction_def assms(3) money_kept_def)
qed

lemma cached_operation_agrees:
  assumes "cache_ok (d, c)"
    and "\<And>d1 w r d2. get_wallet d1 (wl_id w) = Some w \<Longrightarrow> \<exists>c t. money_kept c t d1 \<Longrightarrow> owners_apart d1 \<Longrightarrow>
           body w d1 = Inr (r, d2) \<Longrightarrow>
           (ledger_ok d2 \<and> goals_ok d2) \<and> owners_apart d2 \<and> (\<forall>c. entries_agree d1 c \<longrightarrow> entries_agree d2 (invalidate c))"
  shows "map_prod id f (thenDo (getOrCreateWallet (UserOwner u) d) (\<lambda>w. transaction (body w))) =
      map_prod fst id (map_prod id f (from_cached_wallet now (UserOwner u) body invalidate (d, c))) \<and>
    cache_ok (fst (map_prod id f (from_cached_wallet now (UserOwner u) body invalidate (d, c))))"
proof -
  have k: "ledger_ok d2 \<and> goals_ok d2 \<and> owners_apart d2 \<and> (\<forall>c. entries_agree d1 c \<longrightarrow> entries_agree d2 (invalidate c))"
    if g: "getOrCreateWallet (UserOwner u) d = (d1, Inr w)" and b: "body w d1 = Inr (r, d2)" for d1 w r d2
    using assms(2) [OF opened_for_body [OF assms(1) g] b] by simp
  have "thenDo (getOrCreateWallet (UserOwner u) d) (\<lambda>w. transaction (body w)) =
      map_prod fst id (from_cached_wallet now (UserOwner u) body invalidate (d, c)) \<and>
    cache_ok (fst (from_cached_wallet now (UserOwner u) body invalidate (d, c)))"
    by (rule from_cached_agrees [OF assms(1)]) (rule k)
  then show ?thesis by (simp add: prod.map_comp o_def)
qed

lemma new_goal_body:
  assumes "Inr (g, log_activity a b (d\<lparr>goals := goals d @ [g'], seq := Suc (seq d)\<rparr>)) = Inr (r, d2)"
    and "\<exists>c t. money_kept c t d" and "owners_apart d" and "g' = new_goal (fresh_id d) u target"
  shows "(ledger_ok d2 \<and> goals_ok d2) \<and> owners_apart d2 \<and> (\<forall>c. entries_agree d c \<longrightarrow> entries_agree d2 c)"
proof -
  obtain c t where "money_kept c t d" using assms(2) by blast
  from money_kept_new_goal [OF this, of u target] have "money_kept c t d2"
    using assms(1,4) by (auto simp: money_kept_log)
  moreover have "owners_apart d2" using assms(1,3) by (auto simp: owners_apart_log) (simp add: owners_apart_def)
  moreover have "entries_agree d2 c" if "entries_agree d c" for c
    by (rule entries_agree_cong [OF _ _ _ that]) (use assms(1) in \<open>auto simp: log_activity_def\<close>)
  ultimately show ?thesis by (simp add: money_kept_def)
qed

lemma moving_body:
  assumes "f d1 = Inr (r, d2)" and "\<exists>c t. money_kept c t d1" and "owners_apart d2"
    and "\<And>c t. money_kept c t d1 \<Longrightarrow> money_kept c t (fst (transaction f d1))"
  shows "(ledger_ok d2 \<and> goals_ok d2) \<and> owners_apart d2 \<and>
     (\<forall>c. entries_agree d1 c \<longrightarrow> entries_agree d2 (invalidateWalletCache owner c))"
  using body_keeps [of d1 f, OF assms(4,2,1)] assms(3) entries_agree_dropped by blast

lemma cached_service_agrees:
  assumes "cache_ok (d, c)"
  shows "wallet_service q d = map_prod fst id (cached_service (now, q) (d, c)) \<and> cache_ok (fst (cached_service (now, q) (d, c)))"
proof (cases q)
  case (Look owner)
  obtain c' where "cached_wallet now owner (d, c) = ((fst (getOrCreateWallet owner d), c'), snd (getOrCreateWallet owner d))"
    and "cache_ok (fst (getOrCreateWallet owner d), c')" by (rule cached_wallet_agrees [OF assms])
  then show ?thesis by (cases "getOrCreateWallet owner d") (simp add: Look)
next
  case (Move m)
  show ?thesis
  proof (cases m)
    case (Credit u x)
    show ?thesis unfolding Move Credit wallet_service.simps cached_service.simps creditWallet_def cached_creditWallet_def
      by (rule cached_operation_agrees [OF assms]) (rule moving_body [where f = "credit_with u x w" for w], assumption, assumption,
          erule (1) money_bodies_apart(1), erule (1) money_kept_credit)
  next
    case (Debit u x)
    show ?thesis unfolding Move Debit wallet_service.simps cached_service.simps debitWallet_def cached_debitWallet_def
      by (rule cached_operation_agrees [OF assms]) (rule moving_body [where f = "debit_with u x w" for w], assumption, assumption,
          erule (1) money_bodies_apart(2), erule (1) money_kept_debit)
  next
    case (Save u x)
    show ?thesis unfolding Move Save wallet_service.simps cached_service.simps depositToSavings_def cached_depositToSavings_def
      by (rule cached_operation_agrees [OF assms]) (rule moving_body [where f = "deposit_with u x w" for w], assumption, assumption,
          erule (1) money_bodies_apart(3), erule (1) money_kept_deposit)
  next
    case (OpenGoal u target)
    have r: "createSavingsGoal u target d = thenDo (getOrCreateWallet (UserOwner u) d) (\<lambda>w. transaction
        (\<lambda>d. let g = new_goal (fresh_id d) u target
              in Inr (g, log_activity (Some u) (STR ''SAVINGS_GOAL_CREATED'') (d\<lparr>goals := goals d @ [g], seq := Suc (seq d)\<rparr>))))"
      by (auto simp: createSavingsGoal_def transaction_def Let_def intro!: arg_cong [where f = "thenDo _"] ext)
    show ?thesis unfolding Move OpenGoal wallet_service.simps cached_service.simps r cached_createSavingsGoal_def
      by (rule cached_operation_agrees [OF assms]) (unfold Let_def, erule (2) new_goal_body, rule refl)
  qed
qed

interpretation cached_wallets: refined_service cached_service "\<lambda>e. wallet_service (snd e)" fst cache_ok
  by unfold_locales (use cached_service_agrees in \<open>force+\<close>)


section \<open>A read between the invalidation and the commit\<close>

lemma user_entry_served:
  assumes "wallet_found owner d0 w" and "owners_apart d0" and "redis_get t (wallet_key owner) (tc_values c) = Some w"
  shows "cached_wallet t owner (d, c) = ((d, cacheWallet t w c), Inr w)"
    and "tc_values (cacheWallet t w c) = cache_set t (wallet_key owner) w (Some wallet_ttl) (tc_values c)"
  using assms(3) by (simp_all add: cached_wallet_def cacheWallet_found [OF assms(1,2)] setWithTag_def)

lemma reads_keep_entry:
  assumes f: "wallet_found owner d0 w" "owners_apart d0"
    and "\<And>x. t \<le> x \<Longrightarrow> x < t + wallet_ttl * 1000 \<Longrightarrow> redis_get x (wallet_key owner) (tc_values c) = Some w"
    and "successively (\<lambda>a b. a \<le> b \<and> b < a + wallet_ttl * 1000) (t # ts @ [u])"
  shows "\<exists>c' rs. serve cached_service (map (\<lambda>x. (x, Look owner)) ts) (d, c) = ((d, c'), rs) \<and>
     tc_values c' = fold (\<lambda>x r. case redis_get x (wallet_key owner) r of None \<Rightarrow> r
        | Some v \<Rightarrow> cache_set x (wallet_key owner) v (Some wallet_ttl) r) ts (tc_values c)"
  using assms(3,4)
proof (induction ts arbitrary: t c)
  case Nil
  then show ?case by simp
next
  case (Cons x ts)
  then have g: "redis_get x (wallet_key owner) (tc_values c) = Some w"
    and n: "successively (\<lambda>a b. a \<le> b \<and> b < a + wallet_ttl * 1000) (x # ts @ [u])" by (simp_all add: successively_Cons)
  note s = user_entry_served [OF f g]
  have "redis_get y (wallet_key owner) (tc_values (cacheWallet x w c)) = Some w" if "x \<le> y" "y < x + wallet_ttl * 1000" for y
    using that by (simp add: s(2) cached.get_put wallet_ttl_def)
  from Cons.IH [OF this n] obtain c' rs where "serve cached_service (map (\<lambda>x. (x, Look owner)) ts) (d, cacheWallet x w c) = ((d, c'), rs)"
    and "tc_values c' = fold (\<lambda>x r. case redis_get x (wallet_key owner) r of None \<Rightarrow> r
        | Some v \<Rightarrow> cache_set x (wallet_key owner) v (Some wallet_ttl) r) ts (tc_values (cacheWallet x w c))" by blast
  then show ?case by (simp add: s g)
qed

section \<open>Properties\<close>

text \<open>C6: With the cache in front, the wallet service refines the service on the database alone: requests
  served one after another, at whatever times, leave the same database and get the same answers,
  and every entry of the cache stays the row of its owner.\<close>

theorem cached_service_refines:
  assumes "cache_ok s"
  shows "serve (\<lambda>e. wallet_service (snd e)) es (fst s) = map_prod fst id (serve cached_service es s) \<and>
     cache_ok (fst (serve cached_service es s))"
  by (rule cached_wallets.serve_refines [OF assms])

text \<open>A credit invalidates before it commits. A read between the two keeps the row without the credit:
  while reads follow each other within five minutes that row is served, however long, although the
  database has the credited balance, and the next credit, however much later, starts from it and
  writes the first amount away.\<close>

lemma stale_wallet_survives:
  assumes "wallet_found (UserOwner v) d w" and "owners_apart d" and "credit_with a x w d = Inr (r, d1)" and "keys_ok d"
    and "cached_wallet t (UserOwner v) (d, invalidateWalletCache (UserOwner v) c) = ((d', c1), w')"
    and "successively (\<lambda>a b. a \<le> b \<and> b < a + wallet_ttl * 1000) (t # ts @ [u])"
  shows "\<exists>c2 rs. serve cached_service (map (\<lambda>x. (x, Look (UserOwner v))) ts) (d1, c1) = ((d1, c2), rs) \<and>
     snd (cached_wallet u (UserOwner v) (d1, c2)) = Inr w \<and>
     map_option wl_balance (get_wallet d1 (wl_id w)) = Some (wl_balance w + wt_amount x) \<and>
     (\<forall>b y d2 c3 r2. wt_user y = v \<longrightarrow> cached_creditWallet u b y (d1, c2) = ((d2, c3), Inr r2) \<longrightarrow>
        map_option wl_balance (get_wallet d2 (wl_id w)) = Some (wl_balance w + wt_amount y))"
proof -
  let ?k = "wallet_key (UserOwner v)"
  have "redis_get t ?k (tc_values (invalidateWalletCache (UserOwner v) c)) = None"
    by (simp add: invalidateWalletCache_def invalidateByTag_def cache_delete_def redis_delete_def redis_get_def Let_def split: option.split)
  then have "c1 = cacheWallet t w (invalidateWalletCache (UserOwner v) c)"
    using assms(5) by (simp add: cached_wallet_def wallet_found_get [OF assms(1)] cachePlatform_def)
  then have fresh: "redis_get y ?k (tc_values c1) = Some w" if "t \<le> y" "y < t + wallet_ttl * 1000" for y
    using that by (simp add: cacheWallet_found [OF assms(1,2)] setWithTag_def cached.get_put wallet_ttl_def)
  obtain c2 rs where s: "serve cached_service (map (\<lambda>x. (x, Look (UserOwner v))) ts) (d1, c1) = ((d1, c2), rs)"
    and c2: "tc_values c2 = fold (\<lambda>x r. case redis_get x ?k r of None \<Rightarrow> r | Some v \<Rightarrow> cache_set x ?k v (Some wallet_ttl) r) ts (tc_values c1)"
    using reads_keep_entry [OF assms(1,2) fresh assms(6)] by blast
  have "redis_get u ?k (tc_values c2) = Some w"
    unfolding c2 by (rule cached.touched_lives [OF fresh _ fresh assms(6)]) (simp_all add: wallet_ttl_def)
  note hit = user_entry_served(1) [OF assms(1,2) this]
  have w: "get_wallet d (wl_id w) = Some w"
    using assms(1) get_wallet_mem [OF assms(4) lookup_by_mem] by (auto simp: wallet_found_def)
  have d1: "wallets d1 = wallets (write_wallet (wl_id w) (wl_balance w + wt_amount x) d)"
    using credit_with_writes [OF assms(3)] by simp
  have b: "map_option wl_balance (get_wallet d1 (wl_id w)) = Some (wl_balance w + wt_amount x)"
    using get_write_wallet [of "wl_id w" "wl_id w" "wl_balance w + wt_amount x" d] w by (simp add: d1)
  have "map_option wl_balance (get_wallet d2 (wl_id w)) = Some (wl_balance w + wt_amount y)"
    if "wt_user y = v" and "cached_creditWallet u a' y (d1, c2) = ((d2, c3), Inr r2)" for a' y d2 c3 r2
  proof -
    from that have "credit_with a' y w d1 = Inr (r2, d2)"
      by (simp add: cached_creditWallet_def from_cached_wallet_def hit split: sum.splits prod.splits)
    from credit_with_writes [OF this]
    have "wallets d2 = wallets (write_wallet (wl_id w) (wl_balance w + wt_amount y) d1)" by simp
    then show ?thesis
      using get_write_wallet [of "wl_id w" "wl_id w" "wl_balance w + wt_amount y" d1] b by (cases "get_wallet d1 (wl_id w)") simp_all
  qed
  with s hit b show ?thesis by auto
qed


section \<open>Witnesses\<close>

definition no_cache :: wallet_cache where
  "no_cache = \<lparr>tc_values = (\<lambda>_. None), tc_tags = (\<lambda>_. [])\<rparr>"

lemma sample_apart: "owners_apart ((sample_db balance held [])\<lparr>goals := gs\<rparr>)"
  by (simp add: owners_apart_def sample_db_def sample_wallet_def)

lemma sample_user_found:
  "wallet_found (UserOwner ''u'') (sample_db balance held []) (sample_wallet ''w'' (Some ''u'') None False balance held ''wa'')"
  by (simp add: wallet_found_def sample_db_def sample_wallet_def lookup_by_Cons lookup_by_Nil)

theorem cached_service_refines_witness:
  "snd (serve cached_service [(0, Look (UserOwner ''u'')), (7, Move (Credit ''adm'' \<lparr>wt_user = ''u'', wt_amount = 700, wt_reference = None\<rparr>)),
       (9, Look (UserOwner ''u''))] ((sample_db 900 0 [])\<lparr>goals := []\<rparr>, no_cache)) =
   snd (serve (\<lambda>e. wallet_service (snd e)) [(0::nat, Look (UserOwner ''u'')),
       (7, Move (Credit ''adm'' \<lparr>wt_user = ''u'', wt_amount = 700, wt_reference = None\<rparr>)),
       (9, Look (UserOwner ''u''))] ((sample_db 900 0 [])\<lparr>goals := []\<rparr>))"
proof -
  have "cache_ok ((sample_db 900 0 [])\<lparr>goals := []\<rparr>, no_cache)"
    by (simp add: cache_ok_def entries_agree_def no_cache_def sample_goals_ledger sample_no_goals sample_apart)
  from cached_service_refines [OF this] show ?thesis by (simp only: fst_conv snd_map_prod id_apply)
qed

lemma stale_wallet_survives_example:
  "\<exists>d1 r d' c1 w' c2 rs. credit_with ''adm'' \<lparr>wt_user = ''u'', wt_amount = 700, wt_reference = Some ''a''\<rparr>
       (sample_wallet ''w'' (Some ''u'') None False 900 0 ''wa'') (sample_db 900 0 []) = Inr (r, d1) \<and>
     cached_wallet 0 (UserOwner ''u'') (sample_db 900 0 [], invalidateWalletCache (UserOwner ''u'') no_cache) = ((d', c1), w') \<and>
     serve cached_service [(200000, Look (UserOwner ''u'')), (400000, Look (UserOwner ''u''))] (d1, c1) = ((d1, c2), rs) \<and>
     snd (cached_wallet 600000 (UserOwner ''u'') (d1, c2)) = Inr (sample_wallet ''w'' (Some ''u'') None False 900 0 ''wa'') \<and>
     map_option wl_balance (get_wallet d1 ''w'') = Some 1600"
proof -
  let ?x = "\<lparr>wt_user = ''u'', wt_amount = 700, wt_reference = Some ''a''\<rparr> :: wallet_dto"
  obtain r d1 where 1: "credit_with ''adm'' ?x (sample_wallet ''w'' (Some ''u'') None False 900 0 ''wa'') (sample_db 900 0 []) = Inr (r, d1)"
    by (simp add: credit_with_def record_movement_def sample_db_def lookup_by_Nil sample_wallet_def Let_def transaction_reference_def
        nonempty_def)
  have f: "wallet_found (UserOwner ''u'') (sample_db 900 0 []) (sample_wallet ''w'' (Some ''u'') None False 900 0 ''wa'')"
    by (rule sample_user_found)
  have a: "owners_apart (sample_db 900 0 [])" by (simp add: owners_apart_def sample_db_def sample_wallet_def)
  have k: "keys_ok (sample_db 900 0 [])" by (rule sample_keys_ok) simp_all
  obtain d' c1 w' where c: "cached_wallet 0 (UserOwner ''u'') (sample_db 900 0 [], invalidateWalletCache (UserOwner ''u'') no_cache) = ((d', c1), w')"
    by (metis surj_pair)
  have n: "successively (\<lambda>a b. a \<le> b \<and> b < a + wallet_ttl * 1000) (0 # [200000, 400000] @ [600000])" by (simp add: wallet_ttl_def)
  from stale_wallet_survives [OF f a 1 k c n] 1 c show ?thesis
    by (auto simp: sample_wallet_def)
qed

end
