(* ===== verification/Idempotency.thy ===== *)
theory Idempotency
  imports Prelude FinanceDb RedisStore
begin

text \<open>
  Idempotency keys: \<open>IdempotencyService\<close> (\<open>src/redis/idempotency.service.ts\<close>) and the keys of
  \<open>FinanceService\<close> that \<open>processInternalPayment\<close> and \<open>processManualPayment\<close> validate before they use
  it. A request is a little state machine over one store; \<open>reaches\<close> interleaves any number of them,
  with the clock moving and keys being issued in between. What a request does when it is processed
  is its own job, an argument.
\<close>

section \<open>Keys, tokens and responses\<close>

datatype 'r idem_value =
    Token ident bool
  | Response 'r
  | Locked

definition token_key :: "string \<Rightarrow> string" where
  "token_key k = ''idempotency:'' @ k"

definition response_key :: "ident \<Rightarrow> string \<Rightarrow> string" where
  "response_key u k = ''idempotency:'' @ u @ '':'' @ k"

definition lock_key :: "ident \<Rightarrow> string \<Rightarrow> string" where
  "lock_key u k = ''idempotency:lock:'' @ response_key u k"

text \<open>\<open>generateIdempotencyKey\<close>: the random part is an argument.\<close>

definition generated_key :: "string \<Rightarrow> string" where
  "generated_key random = ''pay_'' @ random"

definition issueKey :: "nat \<Rightarrow> ident \<Rightarrow> string \<Rightarrow> 'r idem_value redis \<Rightarrow> 'r idem_value redis" where
  "issueKey now u random m = cache_set now (token_key (generated_key random)) (Token u False) (Some 3600) m"

definition validateIdempotencyKey :: "nat \<Rightarrow> string \<Rightarrow> ident \<Rightarrow> 'r idem_value redis \<Rightarrow> bool" where
  "validateIdempotencyKey now k u m =
     (case redis_get now (token_key k) m of Some (Token v used) \<Rightarrow> v = u \<and> \<not> used | _ \<Rightarrow> False)"

definition mark_used :: "'r idem_value \<Rightarrow> 'r idem_value" where
  "mark_used v = (case v of Token u _ \<Rightarrow> Token u True | _ \<Rightarrow> v)"

definition getCachedResponse :: "nat \<Rightarrow> ident \<Rightarrow> string \<Rightarrow> 'r idem_value redis \<Rightarrow> 'r option" where
  "getCachedResponse now u k m = (case redis_get now (response_key u k) m of Some (Response r) \<Rightarrow> Some r | _ \<Rightarrow> None)"

definition storeResponse :: "nat \<Rightarrow> ident \<Rightarrow> string \<Rightarrow> 'r \<Rightarrow> 'r idem_value redis \<Rightarrow> 'r idem_value redis" where
  "storeResponse now u k r m = cache_set now (response_key u k) (Response r) (Some 86400) m"

definition idem_acquireLock :: "nat \<Rightarrow> ident \<Rightarrow> string \<Rightarrow> 'r idem_value redis \<Rightarrow> bool \<times> 'r idem_value redis" where
  "idem_acquireLock now u k m = redis_set_free now (lock_key u k) Locked 30 m"

definition idem_releaseLock :: "ident \<Rightarrow> string \<Rightarrow> 'r idem_value redis \<Rightarrow> 'r idem_value redis" where
  "idem_releaseLock u k m = redis_delete (lock_key u k) m"

section \<open>A request, one awaited call after another\<close>

text \<open>
  Where a request stands: \<open>MarkGet\<close> and \<open>MarkSet\<close> are the two calls of \<open>markIdempotencyKeyAsUsed\<close>; \<open>Wait\<close>
  holds the time the 100 ms began.
\<close>

datatype 'r phase =
    Direct
  | Validate
  | CheckCache
  | Acquire
  | Wait nat
  | Process
  | MarkGet 'r
  | MarkSet 'r "'r idem_value"
  | StoreResult 'r
  | Release "'r result"
  | Ended "'r result"

record ('s, 'r) request =
  rq_user :: ident
  rq_key :: string
  rq_job :: "'s \<Rightarrow> 's \<times> 'r result"
  rq_phase :: "'r phase"
  rq_since :: nat

definition invalid_key :: http_error where
  "invalid_key = BadRequest (STR ''Invalid or expired idempotency key. Please generate a new one.'')"

definition being_processed :: http_error where
  "being_processed = Conflict (STR ''Request is being processed, please try again'')"

text \<open>A request that comes without a key is processed directly.\<close>

definition new_request :: "ident \<Rightarrow> string \<Rightarrow> ('s \<Rightarrow> 's \<times> 'r result) \<Rightarrow> ('s, 'r) request" where
  "new_request u k job =
     \<lparr>rq_user = u, rq_key = k, rq_job = job, rq_phase = (if k = [] then Direct else Validate), rq_since = 0\<rparr>"

definition turn :: "nat \<Rightarrow> ('s, 'r) request \<Rightarrow> 's \<times> 'r idem_value redis \<Rightarrow> 'r phase \<times> 's \<times> 'r idem_value redis" where
  "turn now q s = (case s of (st, m) \<Rightarrow>
     let u = rq_user q; k = rq_key q in
     case rq_phase q of
       Direct \<Rightarrow> (case rq_job q st of (st', r) \<Rightarrow> (Ended r, st', m))
     | Validate \<Rightarrow> (if validateIdempotencyKey now k u m then (CheckCache, st, m) else (Ended (Inl invalid_key), st, m))
     | CheckCache \<Rightarrow> (case getCachedResponse now u k m of Some r \<Rightarrow> (Ended (Inr r), st, m) | None \<Rightarrow> (Acquire, st, m))
     | Acquire \<Rightarrow> (case idem_acquireLock now u k m of (got, m') \<Rightarrow> (if got then Process else Wait now, st, m'))
     | Wait t \<Rightarrow>
         (if now < t + 100 then (Wait t, st, m)
          else case getCachedResponse now u k m of Some r \<Rightarrow> (Ended (Inr r), st, m) | None \<Rightarrow> (Ended (Inl being_processed), st, m))
     | Process \<Rightarrow> (case rq_job q st of (st', Inl e) \<Rightarrow> (Release (Inl e), st', m) | (st', Inr r) \<Rightarrow> (MarkGet r, st', m))
     | MarkGet r \<Rightarrow>
         (case redis_get now (token_key k) m of None \<Rightarrow> (StoreResult r, st, m) | Some v \<Rightarrow> (MarkSet r v, st, m))
     | MarkSet r v \<Rightarrow> (StoreResult r, st, cache_set now (token_key k) (mark_used v) (Some 3600) m)
     | StoreResult r \<Rightarrow> (Release (Inr r), st, storeResponse now u k r m)
     | Release r \<Rightarrow> (Ended r, st, idem_releaseLock u k m)
     | Ended r \<Rightarrow> (Ended r, st, m))"

section \<open>Many requests\<close>

text \<open>\<open>iw_processed\<close> and \<open>rq_since\<close> record what happened: the requests whose job has run, and when a lock was taken.\<close>

record ('s, 'r) idem_world =
  iw_clock :: nat
  iw_state :: 's
  iw_store :: "'r idem_value redis"
  iw_requests :: "('s, 'r) request list"
  iw_processed :: "nat list"
  iw_issued :: "string list"

definition take_turn :: "nat \<Rightarrow> ('s, 'r) idem_world \<Rightarrow> ('s, 'r) idem_world" where
  "take_turn i w =
     (let q = iw_requests w ! i in
      case turn (iw_clock w) q (iw_state w, iw_store w) of (p, st, m) \<Rightarrow>
        w\<lparr>iw_state := st, iw_store := m,
          iw_requests := (iw_requests w)[i := q\<lparr>rq_phase := p, rq_since := if rq_phase q = Acquire then iw_clock w else rq_since q\<rparr>],
          iw_processed := iw_processed w @ (if rq_phase q \<in> {Process, Direct} then [i] else [])\<rparr>)"


text \<open>
  A schedule: the clock moves on (as far as \<open>P\<close> lets it), keys are issued that were never issued
  before, requests arrive, and any request takes its next turn. A user's identifier is a \<open>cuid\<close>.
\<close>

definition user_id :: "ident \<Rightarrow> bool" where
  "user_id u \<longleftrightarrow> CHR '':'' \<notin> set u \<and> u \<noteq> ''lock''"

inductive reaches :: "(('s, 'r) idem_world \<Rightarrow> bool) \<Rightarrow> ('s, 'r) idem_world \<Rightarrow> ('s, 'r) idem_world \<Rightarrow> bool"
  for P and w0 where
  here: "reaches P w0 w0"
| time: "reaches P w0 w \<Longrightarrow> iw_clock w \<le> t \<Longrightarrow> P (w\<lparr>iw_clock := t\<rparr>) \<Longrightarrow> reaches P w0 (w\<lparr>iw_clock := t\<rparr>)"
| issue: "reaches P w0 w \<Longrightarrow> generated_key x \<notin> set (iw_issued w) \<Longrightarrow>
    reaches P w0 (w\<lparr>iw_store := issueKey (iw_clock w) u x (iw_store w), iw_issued := generated_key x # iw_issued w\<rparr>)"
| arrive: "reaches P w0 w \<Longrightarrow> user_id u \<Longrightarrow> reaches P w0 (w\<lparr>iw_requests := iw_requests w @ [new_request u k job]\<rparr>)"
| go: "reaches P w0 w \<Longrightarrow> i < length (iw_requests w) \<Longrightarrow> reaches P w0 (take_turn i w)"

inductive_cases reaches_cases: "reaches P w0 w"

definition fresh_world :: "('s, 'r) idem_world \<Rightarrow> bool" where
  "fresh_world w \<longleftrightarrow> iw_requests w = [] \<and> iw_store w = Map.empty \<and> iw_processed w = [] \<and> iw_issued w = []"

section \<open>What a turn writes\<close>

fun holds_lock :: "'r phase \<Rightarrow> bool" where
  "holds_lock Process = True"
| "holds_lock (MarkGet r) = True"
| "holds_lock (MarkSet r v) = True"
| "holds_lock (StoreResult r) = True"
| "holds_lock (Release r) = True"
| "holds_lock p = False"

abbreviation request_lock :: "('s, 'r) request \<Rightarrow> string" where
  "request_lock q \<equiv> lock_key (rq_user q) (rq_key q)"

lemma turn_store:
  assumes "turn now q (st, m) = (p, st', m')"
  obtains (same) "m' = m" and "holds_lock p \<Longrightarrow> holds_lock (rq_phase q)" and "rq_phase q \<noteq> Acquire \<or> \<not> holds_lock p"
    | (lock) "rq_phase q = Acquire" and "p = Process" and "redis_get now (request_lock q) m = None"
        and "m' = redis_set now (request_lock q) Locked (Some 30) m"
    | (mark) r v where "rq_phase q = MarkSet r v" and "p = StoreResult r"
        and "m' = cache_set now (token_key (rq_key q)) (mark_used v) (Some 3600) m"
    | (keep) r where "rq_phase q = StoreResult r" and "p = Release (Inr r)"
        and "m' = cache_set now (response_key (rq_user q) (rq_key q)) (Response r) (Some 86400) m"
    | (free) r where "rq_phase q = Release r" and "p = Ended r" and "m' = redis_delete (request_lock q) m"
proof (cases "rq_phase q")
  case Acquire
  with assms same lock show thesis
    by (auto simp: turn_def Let_def idem_acquireLock_def redis_set_free_def split: option.splits)
next
  case Process
  with assms same show thesis by (auto simp: turn_def Let_def split: prod.splits sum.splits)
qed (use assms in \<open>auto simp: turn_def Let_def storeResponse_def idem_releaseLock_def intro: same mark keep free
      split: prod.splits option.splits if_splits\<close>)

lemma take_turn_simps:
  assumes "turn (iw_clock w) (iw_requests w ! i) (iw_state w, iw_store w) = (p, st, m)"
  shows "iw_store (take_turn i w) = m" "iw_clock (take_turn i w) = iw_clock w" "iw_issued (take_turn i w) = iw_issued w"
    "iw_requests (take_turn i w) = (iw_requests w)[i := (iw_requests w ! i)\<lparr>rq_phase := p,
       rq_since := if rq_phase (iw_requests w ! i) = Acquire then iw_clock w else rq_since (iw_requests w ! i)\<rparr>]"
    "iw_state (take_turn i w) = st"
  by (simp_all add: take_turn_def Let_def assms)

section \<open>A used key is never valid again\<close>

definition spent :: "nat \<Rightarrow> 'r idem_value redis \<Rightarrow> string \<Rightarrow> bool" where
  "spent now m k = (case m (token_key k) of Some (Token u False, ex) \<Rightarrow> \<not> alive now ex | _ \<Rightarrow> True)"

lemma spent_validate: "spent now m k \<Longrightarrow> \<not> validateIdempotencyKey now k u m"
  by (auto simp: spent_def validateIdempotencyKey_def redis_get_def split: option.splits prod.splits idem_value.splits bool.splits)

lemma alive_mono: "alive t ex \<Longrightarrow> s \<le> t \<Longrightarrow> alive s ex"
  by (auto simp: alive_def split: option.splits)

lemma spent_later: "spent now m k \<Longrightarrow> now \<le> t \<Longrightarrow> spent t m k"
  using alive_mono [of t _ now] by (auto simp: spent_def split: option.splits prod.splits idem_value.splits bool.splits)

lemma spent_put: "spent now m k \<Longrightarrow> (\<And>u. v \<noteq> Token u False) \<Longrightarrow> spent now (redis_set t x v ttl m) k"
  by (auto simp: spent_def redis_set_def split: option.splits prod.splits idem_value.splits bool.splits)

lemma spent_turn:
  assumes "turn now q (st, m) = (p, st', m')" and "spent now m k"
  shows "spent now m' k"
  using assms(1)
proof (cases rule: turn_store)
  case same
  with assms(2) show ?thesis by simp
next
  case lock
  with assms(2) show ?thesis by (simp add: spent_put)
next
  case (mark r v)
  with assms(2) show ?thesis by (auto simp: cache_set_def mark_used_def intro!: spent_put split: idem_value.splits)
next
  case (keep r)
  with assms(2) show ?thesis by (simp add: cache_set_def spent_put)
next
  case (free r)
  with assms(2) show ?thesis by (simp add: spent_def redis_delete_def)
qed


text \<open>What a reachable state keeps: tokens stand under issued keys, and a marked key is spent.\<close>

fun past_validation :: "'r phase \<Rightarrow> bool" where
  "past_validation Direct = False"
| "past_validation Validate = False"
| "past_validation (Ended r) = False"
| "past_validation p = True"

fun marked :: "'r phase \<Rightarrow> bool" where
  "marked (StoreResult r) = True"
| "marked (Release (Inr r)) = True"
| "marked p = False"

definition tokens_issued :: "('s, 'r) idem_world \<Rightarrow> bool" where
  "tokens_issued w \<longleftrightarrow> (\<forall>k u b ex. iw_store w (token_key k) = Some (Token u b, ex) \<longrightarrow> k \<in> set (iw_issued w))"

definition keys_inv :: "('s, 'r) idem_world \<Rightarrow> bool" where
  "keys_inv w \<longleftrightarrow> tokens_issued w \<and>
     (\<forall>q\<in>set (iw_requests w). (past_validation (rq_phase q) \<longrightarrow> rq_key q \<in> set (iw_issued w)) \<and>
        (marked (rq_phase q) \<longrightarrow> spent (iw_clock w) (iw_store w) (rq_key q)))"

lemma token_key_inject [simp]: "token_key k = token_key k' \<longleftrightarrow> k = k'"
  by (simp add: token_key_def)

lemma spent_issue:
  "spent now m k \<Longrightarrow> k \<noteq> generated_key x \<Longrightarrow> spent now (issueKey now u x m) k"
  by (simp add: spent_def issueKey_def cache_set_def redis_set_def)

lemma token_put:
  assumes "redis_set now y v ttl m (token_key k) = Some (Token u b, ex)" and "\<And>ex. m (token_key k) = Some (Token u b, ex) \<Longrightarrow> Q"
    and "y = token_key k \<Longrightarrow> v = Token u b \<Longrightarrow> Q"
  shows Q
  using assms by (auto simp: redis_set_def split: if_splits)

lemma turn_tokens:
  assumes "turn now q (st, m) = (p, st', m')" and "m' (token_key k) = Some (Token u b, ex)"
    and "past_validation (rq_phase q) \<Longrightarrow> rq_key q \<in> I" and "\<And>u b ex. m (token_key k) = Some (Token u b, ex) \<Longrightarrow> k \<in> I"
  shows "k \<in> I"
  using assms(1)
proof (cases rule: turn_store)
  case same
  with assms(2,4) show ?thesis by simp
next
  case lock
  with assms(2) have "redis_set now (request_lock q) Locked (Some 30) m (token_key k) = Some (Token u b, ex)" by simp
  then show ?thesis by (rule token_put) (use assms(4) in auto)
next
  case (mark r v)
  with assms(2) have "redis_set now (token_key (rq_key q)) (mark_used v) (Some 3600) m (token_key k) = Some (Token u b, ex)"
    by (simp add: cache_set_def)
  then show ?thesis by (rule token_put) (use assms(3,4) mark in auto)
next
  case (keep r)
  with assms(2) have "redis_set now (response_key (rq_user q) (rq_key q)) (Response r) (Some 86400) m (token_key k) = Some (Token u b, ex)"
    by (simp add: cache_set_def)
  then show ?thesis by (rule token_put) (use assms(4) in auto)
next
  case (free r)
  with assms(2,4) show ?thesis by (auto simp: redis_delete_def split: if_splits)
qed

lemma valid_token: "validateIdempotencyKey now k u m \<Longrightarrow> \<exists>ex. m (token_key k) = Some (Token u False, ex)"
  by (auto simp: validateIdempotencyKey_def redis_get_def split: option.splits prod.splits idem_value.splits if_splits)

text \<open>A turn starts the later phases only from a valid token, and ends in a marked one only with the key spent.\<close>

lemma turn_past_validation:
  assumes "turn now q (st, m) = (p, st', m')" and "past_validation p"
  shows "past_validation (rq_phase q) \<or> validateIdempotencyKey now (rq_key q) (rq_user q) m"
  using assms by (cases "rq_phase q") (auto simp: turn_def Let_def split: if_splits prod.splits option.splits)

lemma turn_marked:
  assumes "turn now q (st, m) = (p, st', m')" and "marked p" and "marked (rq_phase q) \<Longrightarrow> spent now m (rq_key q)"
  shows "spent now m' (rq_key q)"
  using assms
proof (cases "rq_phase q")
  case (MarkGet r)
  then have "redis_get now (token_key (rq_key q)) m = None" "m' = m"
    using assms(1,2) by (auto simp: turn_def Let_def split: option.splits)
  then show ?thesis
    by (auto simp: spent_def redis_get_def split: option.splits prod.splits idem_value.splits bool.splits if_splits)
next
  case (MarkSet r v)
  then have "m' = cache_set now (token_key (rq_key q)) (mark_used v) (Some 3600) m"
    using assms(1) by (simp add: turn_def Let_def)
  then show ?thesis
    by (auto simp: spent_def cache_set_def redis_set_def mark_used_def split: idem_value.splits)
next
  case (StoreResult r)
  with assms show ?thesis using spent_turn [OF assms(1)] by simp
next
  case (Release r)
  with assms show ?thesis by (auto simp: turn_def Let_def)
next
  case (Wait x)
  have "p = Wait x \<or> (\<exists>r. p = Ended r)"
    using assms(1) by (auto simp: turn_def Let_def Wait split: if_splits option.splits)
  with assms(2) show ?thesis by auto
qed (auto simp: turn_def Let_def split: prod.splits sum.splits option.splits if_splits)


lemma take_turn_request:
  assumes "q \<in> set (iw_requests (take_turn i w))" and "i < length (iw_requests w)"
  obtains (other) "q \<in> set (iw_requests w)"
    | (turned) p st m where "turn (iw_clock w) (iw_requests w ! i) (iw_state w, iw_store w) = (p, st, m)"
        and "rq_phase q = p" and "rq_key q = rq_key (iw_requests w ! i)" and "iw_store (take_turn i w) = m"
proof -
  obtain p st m where t: "turn (iw_clock w) (iw_requests w ! i) (iw_state w, iw_store w) = (p, st, m)"
    by (metis surj_pair)
  let ?r = "(iw_requests w ! i)\<lparr>rq_phase := p,
       rq_since := if rq_phase (iw_requests w ! i) = Acquire then iw_clock w else rq_since (iw_requests w ! i)\<rparr>"
  have "q \<in> insert ?r (set (iw_requests w))"
    using assms(1) set_update_subset_insert unfolding take_turn_simps(4) [OF t] by (rule rev_subsetD)
  then show thesis
  proof
    assume "q = ?r"
    then show thesis by (intro turned [OF t]) (simp_all add: take_turn_simps(1) [OF t])
  qed (rule other)
qed

lemma keys_inv_turn:
  assumes "keys_inv w" and "i < length (iw_requests w)"
  shows "keys_inv (take_turn i w)"
proof -
  let ?q = "iw_requests w ! i" and ?w = "take_turn i w"
  obtain p st m where t: "turn (iw_clock w) ?q (iw_state w, iw_store w) = (p, st, m)" by (metis surj_pair)
  note T = take_turn_simps [OF t]
  have q: "past_validation (rq_phase ?q) \<longrightarrow> rq_key ?q \<in> set (iw_issued w)"
    "marked (rq_phase ?q) \<longrightarrow> spent (iw_clock w) (iw_store w) (rq_key ?q)" and tok: "tokens_issued w"
    using assms by (simp_all add: keys_inv_def)
  have "tokens_issued ?w" unfolding tokens_issued_def T
  proof (intro allI impI)
    fix k u b ex
    assume "m (token_key k) = Some (Token u b, ex)"
    then show "k \<in> set (iw_issued w)"
      by (rule turn_tokens [OF t]) (use q(1) tok in \<open>simp_all add: tokens_issued_def\<close>)
  qed
  moreover have "(past_validation (rq_phase r) \<longrightarrow> rq_key r \<in> set (iw_issued w)) \<and>
      (marked (rq_phase r) \<longrightarrow> spent (iw_clock w) m (rq_key r))" if "r \<in> set (iw_requests ?w)" for r
    using that assms(2)
  proof (cases rule: take_turn_request)
    case other
    with assms(1) spent_turn [OF t] show ?thesis by (simp add: keys_inv_def)
  next
    case (turned p' st' m')
    then have p: "p' = p" using t by simp
    have "rq_key ?q \<in> set (iw_issued w)" if "past_validation p"
      using turn_past_validation [OF t that] q(1) valid_token tok unfolding tokens_issued_def by blast
    moreover have "spent (iw_clock w) m (rq_key ?q)" if "marked p"
      using turn_marked [OF t that] q(2) by blast
    ultimately show ?thesis by (simp add: turned p)
  qed
  ultimately show ?thesis by (simp add: keys_inv_def T)
qed

lemma keys_inv_reaches:
  assumes "reaches P w0 w" and "keys_inv w0"
  shows "keys_inv w"
  using assms(1)
proof (induction rule: reaches.induct)
  case here
  show ?case by (rule assms(2))
next
  case (time w t)
  then show ?case by (auto simp: keys_inv_def tokens_issued_def intro: spent_later)
next
  case (issue w x u)
  have "tokens_issued (w\<lparr>iw_store := issueKey (iw_clock w) u x (iw_store w), iw_issued := generated_key x # iw_issued w\<rparr>)"
    using issue.IH by (auto simp: keys_inv_def tokens_issued_def issueKey_def cache_set_def elim!: token_put)
  moreover have "marked (rq_phase q) \<Longrightarrow> past_validation (rq_phase q)" for q :: "('a, 'b) request"
    by (cases "rq_phase q") simp_all
  ultimately show ?case using issue by (auto simp: keys_inv_def intro!: spent_issue)
next
  case (arrive w u k job)
  then show ?case by (auto simp: keys_inv_def tokens_issued_def new_request_def)
next
  case (go w i)
  then show ?case by (simp add: keys_inv_turn)
qed

lemma keys_inv_fresh: "fresh_world w \<Longrightarrow> keys_inv w"
  by (simp add: fresh_world_def keys_inv_def tokens_issued_def)


text \<open>Requests that have not validated yet when their key is spent are refused and stay so.\<close>

definition refused :: "('r phase) \<Rightarrow> bool" where
  "refused p \<longleftrightarrow> p = Validate \<or> p = Ended (Inl invalid_key)"

definition not_yet_validated :: "('s, 'r) idem_world \<Rightarrow> nat \<Rightarrow> bool" where
  "not_yet_validated w i \<longleftrightarrow> i < length (iw_requests w) \<longrightarrow> rq_phase (iw_requests w ! i) = Validate"

definition refuses :: "(nat \<Rightarrow> bool) \<Rightarrow> string \<Rightarrow> ('s, 'r) idem_world \<Rightarrow> bool" where
  "refuses late k w \<longleftrightarrow> spent (iw_clock w) (iw_store w) k \<and> k \<in> set (iw_issued w) \<and>
     (\<forall>i<length (iw_requests w). late i \<and> rq_key (iw_requests w ! i) = k \<longrightarrow> refused (rq_phase (iw_requests w ! i)))"

lemma refused_turn:
  assumes "turn now q (st, m) = (p, st', m')" and "spent now m (rq_key q)" and "refused (rq_phase q)"
  shows "refused p"
  using assms by (auto simp: refused_def turn_def Let_def spent_validate)

lemma refuses_reaches:
  assumes "reaches P w0 w" and "refuses late k w0" and "k \<noteq> []"
  shows "refuses late k w"
  using assms(1)
proof (induction rule: reaches.induct)
  case here
  show ?case by (rule assms(2))
next
  case (time w t)
  then show ?case using spent_later [of "iw_clock w" "iw_store w" k t] by (simp add: refuses_def)
next
  case (issue w x u)
  then have "k \<noteq> generated_key x" by (auto simp: refuses_def)
  with issue.IH show ?case by (simp add: refuses_def spent_issue)
next
  case (arrive w u k' job)
  then show ?case using assms(3)
    by (auto simp: refuses_def nth_append new_request_def refused_def less_Suc_eq)
next
  case (go w i)
  let ?q = "iw_requests w ! i"
  obtain p st m where t: "turn (iw_clock w) ?q (iw_state w, iw_store w) = (p, st, m)" by (metis surj_pair)
  have s: "spent (iw_clock w) (iw_store w) k" using go.IH by (simp add: refuses_def)
  have "refused p" if "late i" "rq_key ?q = k"
    by (rule refused_turn [OF t]) (use that go s in \<open>simp_all add: refuses_def\<close>)
  with go spent_turn [OF t s] show ?case
    by (auto simp: refuses_def take_turn_simps [OF t] nth_list_update)
qed

section \<open>One lock, one holder\<close>

text \<open>Every holder of a lock still has it: no pause takes longer than the 30 seconds of the lock.\<close>

definition prompt :: "('s, 'r) idem_world \<Rightarrow> bool" where
  "prompt w \<longleftrightarrow> (\<forall>q\<in>set (iw_requests w). holds_lock (rq_phase q) \<longrightarrow> iw_clock w < rq_since q + 30000)"

definition pay_keys :: "('s, 'r) idem_world \<Rightarrow> bool" where
  "pay_keys w \<longleftrightarrow> (\<forall>k\<in>set (iw_issued w). take 4 k = ''pay_'') \<and> (\<forall>q\<in>set (iw_requests w). user_id (rq_user q))"

definition locks_inv :: "('s, 'r) idem_world \<Rightarrow> bool" where
  "locks_inv w \<longleftrightarrow> keys_inv w \<and> pay_keys w \<and> prompt w \<and>
     (\<forall>q\<in>set (iw_requests w). holds_lock (rq_phase q) \<longrightarrow>
        iw_store w (request_lock q) = Some (Locked, Some (rq_since q + 30000))) \<and>
     (\<forall>i<length (iw_requests w). \<forall>j<length (iw_requests w). i \<noteq> j \<longrightarrow>
        holds_lock (rq_phase (iw_requests w ! i)) \<longrightarrow> holds_lock (rq_phase (iw_requests w ! j)) \<longrightarrow>
        request_lock (iw_requests w ! i) \<noteq> request_lock (iw_requests w ! j))"

lemma lock_not_token: "take 4 k = ''pay_'' \<Longrightarrow> lock_key u k' \<noteq> token_key k"
  by (auto simp: lock_key_def token_key_def)

lemma lock_not_response: "user_id v \<Longrightarrow> lock_key u k' \<noteq> response_key v k"
proof
  assume v: "user_id v" and "lock_key u k' = response_key v k"
  then have e: "''lock'' @ CHR '':'' # ''idempotency:'' @ u @ '':'' @ k' = v @ CHR '':'' # k"
    by (simp add: lock_key_def response_key_def)
  have "takeWhile (\<lambda>c. c \<noteq> CHR '':'') (v @ CHR '':'' # k) = v"
    using v by (subst takeWhile_append2) (auto simp: user_id_def)
  with v show False by (simp add: e [symmetric] user_id_def)
qed

lemma pay_keys_reaches:
  assumes "reaches P w0 w" and "pay_keys w0"
  shows "pay_keys w"
  using assms(1)
proof (induction rule: reaches.induct)
  case here
  show ?case by (rule assms(2))
next
  case (go w i)
  obtain p st m where t: "turn (iw_clock w) (iw_requests w ! i) (iw_state w, iw_store w) = (p, st, m)" by (metis surj_pair)
  show ?case using go set_update_subset_insert
    by (force simp: pay_keys_def take_turn_simps [OF t])
qed (auto simp: pay_keys_def generated_key_def new_request_def)


text \<open>What a turn does to the locks of the others, and to its own.\<close>

lemma turn_locks:
  assumes "turn now q (st, m) = (p, st', m')" and "user_id (rq_user q)"
    and "past_validation (rq_phase q) \<Longrightarrow> take 4 (rq_key q) = ''pay_''"
    and "m (lock_key u k) = Some (Locked, Some ex)" and "now < ex"
    and "holds_lock (rq_phase q) \<Longrightarrow> lock_key u k \<noteq> request_lock q"
  shows "m' (lock_key u k) = Some (Locked, Some ex)" and "holds_lock p \<Longrightarrow> lock_key u k \<noteq> request_lock q"
proof -
  have "m' (lock_key u k) = Some (Locked, Some ex) \<and> (holds_lock p \<longrightarrow> lock_key u k \<noteq> request_lock q)"
    using assms(1)
  proof (cases rule: turn_store)
    case same
    with assms(4,6) show ?thesis by simp
  next
    case lock
    then have "lock_key u k \<noteq> request_lock q" using assms(4,5) by (auto simp: redis_get_def alive_def)
    with lock assms(4) show ?thesis by (simp add: redis_set_def)
  next
    case (mark r v)
    then have "lock_key u k \<noteq> token_key (rq_key q)" using assms(3) by (simp add: lock_not_token)
    with mark assms(4,6) show ?thesis by (simp add: cache_set_def redis_set_def)
  next
    case (keep r)
    have "lock_key u k \<noteq> response_key (rq_user q) (rq_key q)" by (rule lock_not_response [OF assms(2)])
    with keep assms(4,6) show ?thesis by (simp add: cache_set_def redis_set_def)
  next
    case (free r)
    with assms(4,6) show ?thesis by (simp add: redis_delete_def)
  qed
  then show "m' (lock_key u k) = Some (Locked, Some ex)" and "holds_lock p \<Longrightarrow> lock_key u k \<noteq> request_lock q" by blast+
qed

lemma turn_own_lock:
  assumes "turn now q (st, m) = (p, st', m')" and "user_id (rq_user q)"
    and "past_validation (rq_phase q) \<Longrightarrow> take 4 (rq_key q) = ''pay_''"
    and "holds_lock (rq_phase q) \<Longrightarrow> m (request_lock q) = Some (Locked, Some (rq_since q + 30000))" and "holds_lock p"
  shows "m' (request_lock q) = Some (Locked, Some ((if rq_phase q = Acquire then now else rq_since q) + 30000))"
    and "rq_phase q \<noteq> Acquire \<Longrightarrow> holds_lock (rq_phase q)"
proof -
  have "m' (request_lock q) = Some (Locked, Some ((if rq_phase q = Acquire then now else rq_since q) + 30000)) \<and>
      (rq_phase q = Acquire \<or> holds_lock (rq_phase q))"
    using assms(1)
  proof (cases rule: turn_store)
    case same
    with assms(4,5) show ?thesis by auto
  next
    case lock
    then show ?thesis by (simp add: redis_set_def)
  next
    case (mark r v)
    then have "request_lock q \<noteq> token_key (rq_key q)" using assms(3) by (simp add: lock_not_token)
    with mark assms(4) show ?thesis by (simp add: cache_set_def redis_set_def)
  next
    case (keep r)
    have "request_lock q \<noteq> response_key (rq_user q) (rq_key q)" by (rule lock_not_response [OF assms(2)])
    with keep assms(4) show ?thesis by (simp add: cache_set_def redis_set_def)
  next
    case (free r)
    with assms(5) show ?thesis by simp
  qed
  then show "m' (request_lock q) = Some (Locked, Some ((if rq_phase q = Acquire then now else rq_since q) + 30000))"
    and "rq_phase q \<noteq> Acquire \<Longrightarrow> holds_lock (rq_phase q)" by blast+
qed

lemma locks_inv_turn:
  assumes "locks_inv w" and "i < length (iw_requests w)"
  shows "locks_inv (take_turn i w)"
proof -
  let ?R = "iw_requests w" and ?q = "iw_requests w ! i" and ?w = "take_turn i w"
  obtain p st m where t: "turn (iw_clock w) ?q (iw_state w, iw_store w) = (p, st, m)" by (metis surj_pair)
  note T = take_turn_simps [OF t]
  have keys: "keys_inv w" and pay: "pay_keys w" and pr: "prompt w" using assms(1) by (simp_all add: locks_inv_def)
  have q: "?q \<in> set ?R" using assms(2) by simp
  have u: "user_id (rq_user ?q)" and k: "past_validation (rq_phase ?q) \<Longrightarrow> take 4 (rq_key ?q) = ''pay_''"
    using pay keys q by (simp_all add: pay_keys_def keys_inv_def)
  have lk: "iw_store w (request_lock r) = Some (Locked, Some (rq_since r + 30000)) \<and> iw_clock w < rq_since r + 30000"
    if "r \<in> set ?R" "holds_lock (rq_phase r)" for r
    using assms(1) pr that by (simp add: locks_inv_def prompt_def)
  have apart: "request_lock (?R ! a) \<noteq> request_lock (?R ! b)"
    if "a < length ?R" "b < length ?R" "a \<noteq> b" "holds_lock (rq_phase (?R ! a))" "holds_lock (rq_phase (?R ! b))" for a b
    using assms(1) that by (simp add: locks_inv_def)
  have own: "m (request_lock ?q) = Some (Locked, Some ((if rq_phase ?q = Acquire then iw_clock w else rq_since ?q) + 30000))"
    "rq_phase ?q \<noteq> Acquire \<Longrightarrow> holds_lock (rq_phase ?q)" if "holds_lock p"
    using turn_own_lock [OF t u k _ that] lk [OF q] by blast+
  have others: "m (request_lock (?R ! j)) = Some (Locked, Some (rq_since (?R ! j) + 30000))"
    "holds_lock p \<Longrightarrow> request_lock (?R ! j) \<noteq> request_lock ?q"
    if j: "j < length ?R" "j \<noteq> i" "holds_lock (rq_phase (?R ! j))" for j
  proof -
    have L: "iw_store w (request_lock (?R ! j)) = Some (Locked, Some (rq_since (?R ! j) + 30000))"
      "iw_clock w < rq_since (?R ! j) + 30000" using lk [of "?R ! j"] j by simp_all
    note two = turn_locks [OF t u k L apart [OF j(1) assms(2) j(2,3)]]
    show "m (request_lock (?R ! j)) = Some (Locked, Some (rq_since (?R ! j) + 30000))" using two(1) by blast
    show "request_lock (?R ! j) \<noteq> request_lock ?q" if "holds_lock p" using two(2) that by blast
  qed
  have "keys_inv ?w" by (rule keys_inv_turn [OF keys assms(2)])
  moreover have "pay_keys ?w" by (rule pay_keys_reaches [OF go [OF here assms(2)] pay])
  moreover have "\<forall>j<length ?R. holds_lock (rq_phase (iw_requests ?w ! j)) \<longrightarrow>
      m (request_lock (iw_requests ?w ! j)) = Some (Locked, Some (rq_since (iw_requests ?w ! j) + 30000)) \<and>
      iw_clock w < rq_since (iw_requests ?w ! j) + 30000"
  proof (intro allI impI)
    fix j
    assume j: "j < length ?R" and h: "holds_lock (rq_phase (iw_requests ?w ! j))"
    show "m (request_lock (iw_requests ?w ! j)) = Some (Locked, Some (rq_since (iw_requests ?w ! j) + 30000)) \<and>
      iw_clock w < rq_since (iw_requests ?w ! j) + 30000"
    proof (cases "j = i")
      case True
      with h assms(2) have "holds_lock p" by (simp add: T)
      with own lk [OF q] show ?thesis by (auto simp: True T assms(2))
    next
      case False
      with h have h': "holds_lock (rq_phase (?R ! j))" by (simp add: T)
      with others(1) [OF j False h'] lk [OF nth_mem [OF j] h'] False show ?thesis by (simp add: T)
    qed
  qed
  moreover have "request_lock (iw_requests ?w ! a) \<noteq> request_lock (iw_requests ?w ! b)"
    if "a < length ?R" "b < length ?R" "a \<noteq> b" "holds_lock (rq_phase (iw_requests ?w ! a))" "holds_lock (rq_phase (iw_requests ?w ! b))" for a b
    using that others(2) [of a] others(2) [of b] apart [of a b] assms(2)
    by (cases "a = i"; cases "b = i") (auto simp: T dest: not_sym)
  moreover have "length (iw_requests ?w) = length ?R" by (simp add: T)
  ultimately show ?thesis
    unfolding locks_inv_def prompt_def all_set_conv_all_nth T(1,2) by simp
qed


lemma locks_inv_reaches:
  assumes "reaches prompt w0 w" and "locks_inv w0"
  shows "locks_inv w"
proof -
  have k: "keys_inv v \<and> pay_keys v" if "reaches prompt w0 v" for v
    using keys_inv_reaches [OF that] pay_keys_reaches [OF that] assms(2) by (simp add: locks_inv_def)
  show ?thesis
    using assms(1)
  proof (induction rule: reaches.induct)
    case here
    show ?case by (rule assms(2))
  next
    case (time w t)
    with k [OF reaches.time [OF time.hyps]] show ?case by (simp add: locks_inv_def)
  next
    case (issue w x u)
    let ?w = "w\<lparr>iw_store := issueKey (iw_clock w) u x (iw_store w), iw_issued := generated_key x # iw_issued w\<rparr>"
    have "keys_inv ?w \<and> pay_keys ?w" by (rule k [OF reaches.issue [OF issue.hyps]])
    moreover have "iw_store ?w (lock_key v k) = iw_store w (lock_key v k)" for v k
      using lock_not_token [of "generated_key x" v k] by (simp add: issueKey_def cache_set_def redis_set_def generated_key_def)
    ultimately show ?case using issue.IH by (simp add: locks_inv_def prompt_def)
  next
    case (arrive w u i job)
    have n: "\<not> holds_lock (rq_phase (new_request u k job))" for k and job :: "'a \<Rightarrow> 'a \<times> 'b result" by (simp add: new_request_def)
    from k [OF reaches.arrive [OF arrive.hyps, of i job]] arrive.IH n show ?case by (simp add: locks_inv_def prompt_def nth_append less_Suc_eq)
  next
    case (go w i)
    then show ?case by (simp add: locks_inv_turn)
  qed
qed

lemma locks_inv_fresh: "fresh_world w \<Longrightarrow> locks_inv w"
  using keys_inv_fresh [of w] by (simp add: fresh_world_def locks_inv_def pay_keys_def prompt_def)

section \<open>Properties\<close>

text \<open>C20: As long as no request pauses for the 30 seconds of its lock, at most one request of a user and key is
  between taking the lock and releasing it, however requests, keys and time interleave.\<close>

theorem one_request_at_a_time:
  assumes "fresh_world w0" and "reaches prompt w0 w" and "i < length (iw_requests w)" and "j < length (iw_requests w)"
    and "rq_user (iw_requests w ! i) = rq_user (iw_requests w ! j)" and "rq_key (iw_requests w ! i) = rq_key (iw_requests w ! j)"
    and "i \<noteq> j" and "holds_lock (rq_phase (iw_requests w ! i))"
  shows "\<not> holds_lock (rq_phase (iw_requests w ! j))"
proof
  assume "holds_lock (rq_phase (iw_requests w ! j))"
  moreover have "locks_inv w" by (rule locks_inv_reaches [OF assms(2) locks_inv_fresh [OF assms(1)]])
  ultimately have "request_lock (iw_requests w ! i) \<noteq> request_lock (iw_requests w ! j)"
    using assms(3,4,7,8) by (simp add: locks_inv_def)
  with assms(5,6) show False by simp
qed

text \<open>C15: Once a request has been processed and its key marked, every other request with that key that had not
  validated by then is refused as invalid, at any later time and in any interleaving: it is never
  processed, and it never gets the response that is stored for it either.\<close>

theorem used_key_refused:
  assumes "fresh_world w0" and "reaches P w0 w1" and "reaches P w1 w2"
    and "q \<in> set (iw_requests w1)" and "marked (rq_phase q)"
    and "i < length (iw_requests w2)" and "not_yet_validated w1 i" and "rq_key (iw_requests w2 ! i) = rq_key q"
  shows "rq_phase (iw_requests w2 ! i) = Validate \<or> rq_phase (iw_requests w2 ! i) = Ended (Inl invalid_key)"
proof -
  have k: "keys_inv w1" by (rule keys_inv_reaches [OF assms(2) keys_inv_fresh [OF assms(1)]])
  have "past_validation (rq_phase q)" using assms(5) by (cases "rq_phase q") simp_all
  with k assms(4,5) have s: "spent (iw_clock w1) (iw_store w1) (rq_key q)" and m: "rq_key q \<in> set (iw_issued w1)"
    by (simp_all add: keys_inv_def)
  have "locks_inv w0" by (rule locks_inv_fresh [OF assms(1)])
  then have "pay_keys w1" using pay_keys_reaches [OF assms(2)] by (simp add: locks_inv_def)
  with m have n: "rq_key q \<noteq> []" by (auto simp: pay_keys_def)
  have "refuses (not_yet_validated w1) (rq_key q) w1"
    using s m by (simp add: refuses_def not_yet_validated_def refused_def)
  from refuses_reaches [OF assms(3) this n] assms(6-8) show ?thesis by (simp add: refuses_def refused_def)
qed


lemma reaches_turns:
  "reaches P w0 w \<Longrightarrow> (\<And>i. i \<in> set is \<Longrightarrow> i < length (iw_requests w)) \<Longrightarrow> reaches P w0 (fold take_turn is w)"
proof (induction "is" arbitrary: w)
  case Nil
  then show ?case by simp
next
  case (Cons i js)
  have "length (iw_requests (take_turn i w)) = length (iw_requests w)"
    by (simp add: take_turn_def Let_def split: prod.split)
  then show ?case using Cons.prems by (auto intro!: Cons.IH reaches.go)
qed

definition empty_world :: "'s \<Rightarrow> ('s, 'r) idem_world" where
  "empty_world s = \<lparr>iw_clock = 0, iw_state = s, iw_store = Map.empty, iw_requests = [], iw_processed = [], iw_issued = []\<rparr>"

text \<open>A key is issued and two requests come with it.\<close>

definition two_requests :: "ident \<Rightarrow> string \<Rightarrow> ('s \<Rightarrow> 's \<times> 'r result) \<Rightarrow> 's \<Rightarrow> ('s, 'r) idem_world" where
  "two_requests u random job s =
     (let w = empty_world s; k = generated_key random in
      w\<lparr>iw_store := issueKey 0 u random (iw_store w), iw_issued := [k], iw_requests := [new_request u k job, new_request u k job]\<rparr>)"

lemma two_requests_reached:
  fixes job :: "'s \<Rightarrow> 's \<times> 'r result"
  assumes "user_id u"
  shows "reaches P (empty_world s) (two_requests u random job s)"
proof -
  let ?e = "empty_world s :: ('s, 'r) idem_world"
  have "reaches P ?e (?e\<lparr>iw_store := issueKey (iw_clock ?e) u random (iw_store ?e), iw_issued := generated_key random # iw_issued ?e\<rparr>)"
    by (rule reaches.issue [OF here]) (simp add: empty_world_def)
  from reaches.arrive [OF reaches.arrive [OF this assms, of "generated_key random" job] assms, of "generated_key random" job]
  show ?thesis by (simp add: two_requests_def empty_world_def Let_def)
qed

definition one_after_the_other :: "nat list" where
  "one_after_the_other = [0, 1, 0, 1, 0, 0, 0, 0, 0, 0, 1, 1, 1, 1, 1, 1]"

text \<open>Two requests with the same key that both look for the stored response before either has the lock are
  both processed: the second takes the lock the first has released and does not look again. No
  pause is needed, and the second payment is made although the key is already marked as used.\<close>

lemma overlapping_requests_both_processed:
  fixes job :: "'s \<Rightarrow> 's \<times> 'r result"
  assumes "job s = (s1, Inr r1)" and "job s1 = (s2, Inr r2)"
  shows "reaches prompt (empty_world s) (two_requests ''u'' ''a'' job s) \<and>
    (\<exists>w. reaches prompt (two_requests ''u'' ''a'' job s) w \<and> iw_processed w = [0, 1] \<and> iw_state w = s2 \<and>
       map rq_phase (iw_requests w) = [Ended (Inr r1), Ended (Inr r2)] \<and> map rq_key (iw_requests w) = [''pay_a'', ''pay_a''])"
proof (intro conjI exI [of _ "fold take_turn one_after_the_other (two_requests ''u'' ''a'' job s)"])
  show "reaches prompt (empty_world s) (two_requests ''u'' ''a'' job s)" by (rule two_requests_reached) (simp add: user_id_def)
  show "reaches prompt (two_requests ''u'' ''a'' job s) (fold take_turn one_after_the_other (two_requests ''u'' ''a'' job s))"
    by (rule reaches_turns [OF here]) (auto simp: one_after_the_other_def two_requests_def Let_def)
  have "\<exists>m q. fold take_turn one_after_the_other (two_requests ''u'' ''a'' job s) =
      \<lparr>iw_clock = 0, iw_state = s2, iw_store = m,
       iw_requests = [\<lparr>rq_user = ''u'', rq_key = ''pay_a'', rq_job = job, rq_phase = Ended (Inr r1), rq_since = 0\<rparr>,
          \<lparr>rq_user = ''u'', rq_key = ''pay_a'', rq_job = job, rq_phase = Ended (Inr r2), rq_since = 0\<rparr>],
       iw_processed = [0, 1], iw_issued = q\<rparr>"
    by (simp add: one_after_the_other_def two_requests_def empty_world_def new_request_def take_turn_def turn_def Let_def
        generated_key_def issueKey_def token_key_def lock_key_def response_key_def cache_set_def redis_set_def redis_get_def
        redis_delete_def redis_set_free_def alive_def validateIdempotencyKey_def getCachedResponse_def idem_acquireLock_def
        idem_releaseLock_def storeResponse_def assms)
  then obtain m q where f: "fold take_turn one_after_the_other (two_requests ''u'' ''a'' job s) =
      \<lparr>iw_clock = 0, iw_state = s2, iw_store = m,
       iw_requests = [\<lparr>rq_user = ''u'', rq_key = ''pay_a'', rq_job = job, rq_phase = Ended (Inr r1), rq_since = 0\<rparr>,
          \<lparr>rq_user = ''u'', rq_key = ''pay_a'', rq_job = job, rq_phase = Ended (Inr r2), rq_since = 0\<rparr>],
       iw_processed = [0, 1], iw_issued = q\<rparr>" by blast
  show "iw_processed (fold take_turn one_after_the_other (two_requests ''u'' ''a'' job s)) = [0, 1]"
    and "iw_state (fold take_turn one_after_the_other (two_requests ''u'' ''a'' job s)) = s2"
    and "map rq_phase (iw_requests (fold take_turn one_after_the_other (two_requests ''u'' ''a'' job s))) = [Ended (Inr r1), Ended (Inr r2)]"
    and "map rq_key (iw_requests (fold take_turn one_after_the_other (two_requests ''u'' ''a'' job s))) = [''pay_a'', ''pay_a'']"
    by (simp_all add: f)
qed


section \<open>Witnesses\<close>

definition sample_job :: "nat \<Rightarrow> nat \<times> nat result" where
  "sample_job n = (n + 1, Inr n)"

lemmas run_defs = two_requests_def empty_world_def new_request_def take_turn_def turn_def Let_def
  generated_key_def issueKey_def token_key_def lock_key_def response_key_def cache_set_def redis_set_def redis_get_def
  redis_delete_def redis_set_free_def alive_def validateIdempotencyKey_def getCachedResponse_def idem_acquireLock_def
  idem_releaseLock_def storeResponse_def mark_used_def

lemma sample_reached:
  "set is \<subseteq> {0, 1} \<Longrightarrow> reaches P (empty_world s) (fold take_turn is (two_requests ''u'' x job s))"
  by (rule reaches_turns [OF two_requests_reached]) (auto simp: user_id_def two_requests_def Let_def)

lemma fresh_empty: "fresh_world (empty_world s)"
  by (simp add: fresh_world_def empty_world_def)

theorem one_request_at_a_time_witness:
  "rq_phase (iw_requests (fold take_turn [0, 1, 0, 1, 0, 1] (two_requests ''u'' ''a'' sample_job 3)) ! 0) = Process \<and>
   \<not> holds_lock (rq_phase (iw_requests (fold take_turn [0, 1, 0, 1, 0, 1] (two_requests ''u'' ''a'' sample_job 3)) ! 1))"
proof -
  let ?w = "fold take_turn [0, 1, 0, 1, 0, 1] (two_requests ''u'' ''a'' sample_job 3)"
  have r: "reaches prompt (empty_world 3) ?w" by (rule sample_reached) auto
  have w: "rq_phase (iw_requests ?w ! 0) = Process" "length (iw_requests ?w) = 2"
    "rq_user (iw_requests ?w ! 0) = ''u''" "rq_user (iw_requests ?w ! 1) = ''u''"
    "rq_key (iw_requests ?w ! 0) = ''pay_a''" "rq_key (iw_requests ?w ! 1) = ''pay_a''" by (simp_all add: run_defs)
  have "\<not> holds_lock (rq_phase (iw_requests ?w ! 1))"
    by (rule one_request_at_a_time [OF fresh_empty r, of 0 1]) (simp_all only: w, simp_all)
  with w(1) show ?thesis by simp
qed

theorem used_key_refused_witness:
  "rq_phase (iw_requests (fold take_turn [0, 0, 1] (fold take_turn [0, 0, 0, 0, 0, 0] (two_requests ''u'' ''a'' sample_job 3))) ! 1)
     \<in> {Validate, Ended (Inl invalid_key)}"
proof -
  define w where "w = fold take_turn [0, 0, 0, 0, 0, 0] (two_requests ''u'' ''a'' sample_job 3)"
  define v where "v = fold take_turn [0, 0, 1] w"
  have r: "reaches (\<lambda>_. True) (empty_world 3) w" unfolding w_def by (rule sample_reached) simp
  have w: "iw_requests w = [\<lparr>rq_user = ''u'', rq_key = ''pay_a'', rq_job = sample_job, rq_phase = StoreResult 3, rq_since = 0\<rparr>,
      \<lparr>rq_user = ''u'', rq_key = ''pay_a'', rq_job = sample_job, rq_phase = Validate, rq_since = 0\<rparr>]"
    by (simp add: w_def run_defs sample_job_def)
  have v: "length (iw_requests v) = 2" "rq_key (iw_requests v ! 1) = ''pay_a''"
    by (simp_all add: v_def w_def run_defs sample_job_def)
  have s: "reaches (\<lambda>_. True) w v" unfolding v_def by (rule reaches_turns [OF here]) (auto simp: w)
  have q: "iw_requests w ! 0 \<in> set (iw_requests w)" "marked (rq_phase (iw_requests w ! 0))"
    "rq_key (iw_requests w ! 0) = ''pay_a''" by (simp_all add: w)
  have "not_yet_validated w 1" by (simp add: not_yet_validated_def w)
  with used_key_refused [OF fresh_empty r s q(1,2), of 1] v q(3)
  have "rq_phase (iw_requests v ! 1) \<in> {Validate, Ended (Inl invalid_key)}" by simp
  then show ?thesis unfolding v_def w_def .
qed

lemma overlapping_requests_both_processed_example:
  "\<exists>w. reaches prompt (two_requests ''u'' ''a'' sample_job 3) w \<and> iw_processed w = [0, 1] \<and> iw_state w = 5"
  using overlapping_requests_both_processed [of sample_job 3 4 3 5 4] by (auto simp: sample_job_def)

end
