(* ===== verification/RateLimits.thy ===== *)
theory RateLimits
  imports Prelude RedisStore
begin

text \<open>
  \<open>RateLimitService\<close> (\<open>src/redis/rate-limit.service.ts\<close>): counters of attempts and of requests in the
  store, each with a window that every increment renews.
\<close>

record limit_reply =
  lr_allowed :: bool
  lr_remaining :: int
  lr_reset :: int

definition attempts_key :: "string \<Rightarrow> string" where
  "attempts_key k = ''login:attempts:'' @ k"

definition rate_key :: "string \<Rightarrow> string" where
  "rate_key k = ''rate:'' @ k"

text \<open>A counter that is missing reads as zero.\<close>

definition redis_count :: "nat \<Rightarrow> string \<Rightarrow> nat redis \<Rightarrow> nat" where
  "redis_count now k c = (case redis_get now k c of None \<Rightarrow> 0 | Some n \<Rightarrow> n)"

definition checkLoginAttempts :: "nat \<Rightarrow> string \<Rightarrow> nat \<Rightarrow> nat \<Rightarrow> nat redis \<Rightarrow> limit_reply" where
  "checkLoginAttempts now key maxAttempts windowMinutes c =
     (let k = attempts_key key; current = redis_count now k c
      in if maxAttempts \<le> current
         then \<lparr>lr_allowed = False, lr_remaining = 0, lr_reset = int now + redis_ttl now k c * 1000\<rparr>
         else \<lparr>lr_allowed = True, lr_remaining = int maxAttempts - int current, lr_reset = int now + int windowMinutes * 60 * 1000\<rparr>)"

definition incrementLoginAttempt :: "nat \<Rightarrow> string \<Rightarrow> nat \<Rightarrow> nat redis \<Rightarrow> nat \<times> nat redis" where
  "incrementLoginAttempt now key windowMinutes c =
     (case redis_increment now (attempts_key key) c of (n, c') \<Rightarrow> (n, redis_expire now (attempts_key key) (windowMinutes * 60) c'))"

definition resetLoginAttempts :: "string \<Rightarrow> nat redis \<Rightarrow> nat redis" where
  "resetLoginAttempts key c = redis_delete (attempts_key key) c"

definition checkRateLimit :: "nat \<Rightarrow> string \<Rightarrow> nat \<Rightarrow> nat \<Rightarrow> nat redis \<Rightarrow> limit_reply" where
  "checkRateLimit now key limit windowSeconds c =
     (let k = rate_key key; current = redis_count now k c
      in if limit \<le> current
         then \<lparr>lr_allowed = False, lr_remaining = 0, lr_reset = int now + redis_ttl now k c * 1000\<rparr>
         else \<lparr>lr_allowed = True, lr_remaining = int limit - int current, lr_reset = int now + int windowSeconds * 1000\<rparr>)"

definition incrementRateLimit :: "nat \<Rightarrow> string \<Rightarrow> nat \<Rightarrow> nat redis \<Rightarrow> nat \<times> nat redis" where
  "incrementRateLimit now key windowSeconds c =
     (case redis_increment now (rate_key key) c of (n, c') \<Rightarrow> (n, redis_expire now (rate_key key) windowSeconds c'))"

section \<open>A counter that is incremented and expires\<close>

text \<open>
  Both pairs of operations are the same counter: an increment adds one to what is read, and what is
  read afterwards lives for the window.
\<close>

locale window_counter =
  fixes count :: "nat \<Rightarrow> string \<Rightarrow> 's \<Rightarrow> nat"
    and bump :: "nat \<Rightarrow> string \<Rightarrow> nat \<Rightarrow> 's \<Rightarrow> 's"
    and span :: "nat \<Rightarrow> nat"
  assumes count_bump: "count t k' (bump now k w s) =
      (if k' = k then if t < now + span w then count now k s + 1 else 0 else count t k' s)"
begin

text \<open>Increments that follow each other within the window are all counted, until the window after the last.\<close>

lemma count_bumps:
  assumes "successively (\<lambda>a b. a \<le> b \<and> b < a + span w) (ts @ [u])" and "ts \<noteq> []"
  shows "count u k (fold (\<lambda>t. bump t k w) ts s) = count (hd ts) k s + length ts"
  using assms
proof (induction ts arbitrary: s)
  case Nil
  then show ?case by simp
next
  case (Cons t ts)
  show ?case
  proof (cases ts)
    case Nil
    with Cons.prems show ?thesis by (simp add: count_bump)
  next
    case (Cons t' ts')
    with Cons.prems have "count u k (fold (\<lambda>t. bump t k w) ts (bump t k w s)) = count t' k (bump t k w s) + length ts"
      using Cons.IH [of "bump t k w s"] by simp
    moreover have "count t' k (bump t k w s) = count t k s + 1" using Cons.prems Cons by (simp add: count_bump)
    ultimately show ?thesis by simp
  qed
qed

end

text \<open>The counter after an increment.\<close>

definition bump_attempts :: "nat \<Rightarrow> string \<Rightarrow> nat \<Rightarrow> nat redis \<Rightarrow> nat redis" where
  "bump_attempts now k w c = snd (incrementLoginAttempt now k w c)"

definition bump_rate :: "nat \<Rightarrow> string \<Rightarrow> nat \<Rightarrow> nat redis \<Rightarrow> nat redis" where
  "bump_rate now k w c = snd (incrementRateLimit now k w c)"

lemma attempts_key_inject [simp]: "attempts_key k = attempts_key k' \<longleftrightarrow> k = k'"
  by (simp add: attempts_key_def)

lemma rate_key_inject [simp]: "rate_key k = rate_key k' \<longleftrightarrow> k = k'"
  by (simp add: rate_key_def)

lemma keys_apart [simp]: "attempts_key k \<noteq> rate_key k'" "rate_key k' \<noteq> attempts_key k"
  by (simp_all add: attempts_key_def rate_key_def)

text \<open>What is read after an increment under a key and the renewal of its window.\<close>

lemma count_incremented:
  assumes "redis_increment now k c = (n, c')"
  shows "redis_count t k' (redis_expire now k s c') =
    (if k' = k then if t < now + s * 1000 then redis_count now k c + 1 else 0 else redis_count t k' c)"
proof -
  have "redis_get now k c' = Some n" and "n = redis_count now k c + 1" and "k' \<noteq> k \<Longrightarrow> c' k' = c k'"
    using assms by (auto simp: redis_increment_def redis_count_def redis_get_def alive_def split: option.splits prod.splits if_splits)
  then show ?thesis by (simp add: redis_count_def redis_expire_def redis_get_def alive_def split: option.splits)
qed

interpretation attempts: window_counter "\<lambda>t k. redis_count t (attempts_key k)" bump_attempts "\<lambda>w. w * 60 * 1000"
  by unfold_locales (simp add: bump_attempts_def incrementLoginAttempt_def count_incremented split: prod.split)

interpretation rates: window_counter "\<lambda>t k. redis_count t (rate_key k)" bump_rate "\<lambda>w. w * 1000"
  by unfold_locales (simp add: bump_rate_def incrementRateLimit_def count_incremented split: prod.split)

text \<open>The two families of counters do not touch each other.\<close>

lemma counters_apart:
  "redis_count t (rate_key k') (bump_attempts now k w c) = redis_count t (rate_key k') c"
  "redis_count t (attempts_key k') (bump_rate now k w c) = redis_count t (attempts_key k') c"
  by (simp_all add: bump_attempts_def bump_rate_def incrementLoginAttempt_def incrementRateLimit_def count_incremented split: prod.split)

lemma count_reset:
  "redis_count t (attempts_key k') (resetLoginAttempts k c) = (if k' = k then 0 else redis_count t (attempts_key k') c)"
  "redis_count t (rate_key k') (resetLoginAttempts k c) = redis_count t (rate_key k') c"
  by (simp_all add: redis_count_def resetLoginAttempts_def get_redis_delete)

lemma attempts_allowed: "lr_allowed (checkLoginAttempts now key m w c) \<longleftrightarrow> redis_count now (attempts_key key) c < m"
  by (simp add: checkLoginAttempts_def Let_def)

lemma rate_allowed: "lr_allowed (checkRateLimit now key m w c) \<longleftrightarrow> redis_count now (rate_key key) c < m"
  by (simp add: checkRateLimit_def Let_def)

end
