(* ===== verification/Accounts.thy ===== *)
theory Accounts
  imports Prelude FinanceDb Json BachsSignature RedisStore RateLimits
begin

text \<open>
  Accounts and sessions: \<open>src/v1/auth/auth.service.ts\<close>, \<open>token.service.ts\<close>, \<open>cookie.service.ts\<close> and
  the access check of \<open>src/strategies/jwt.startegy.ts\<close>. Argon2, SHA-256 and the signing of tokens are
  the functions of \<open>auth_env\<close>; what e-mail provider, browser names and addresses record is left out,
  and so are the audit rows.
\<close>

section \<open>Tables\<close>

datatype user_status = UserActive | UserInactive | UserSuspended | UserDeleted

datatype auth_client = UserClient | OrganizationClient | PlatformClient

datatype verification_status = Unverified | Verified | VerificationPending | VerificationRejected

record account_user =
  ax_id :: ident
  ax_email :: string
  ax_username :: string
  ax_password :: string
  ax_verified :: bool
  ax_status :: user_status
  ax_last_login :: "nat option"

record user_profile =
  pf_user :: ident
  pf_status :: verification_status

record login_session =
  ss_id :: ident
  ss_user :: ident
  ss_hash :: string
  ss_expires :: nat
  ss_active :: bool
  ss_revoked :: "nat option"
  ss_client :: auth_client
  ss_used :: nat

record email_verification =
  ev_id :: ident
  ev_user :: ident
  ev_email :: string
  ev_token :: string
  ev_expires :: nat
  ev_verified :: "nat option"

record password_reset =
  pr_id :: ident
  pr_user :: ident
  pr_token :: string
  pr_expires :: nat
  pr_used :: "nat option"

text \<open>
  Identifiers and random tokens come from generators: the \<open>n\<close>-th row is created with the \<open>n\<close>-th of
  each, and the \<open>n\<close>-th hash uses the salt \<open>n\<close>.
\<close>

record auth_tables =
  at_ids :: "nat \<Rightarrow> ident"
  at_random :: "nat \<Rightarrow> string"
  at_seq :: nat
  at_users :: "account_user list"
  at_profiles :: "user_profile list"
  at_sessions :: "login_session list"
  at_verifications :: "email_verification list"
  at_resets :: "password_reset list"
  at_admins :: "admin list"

abbreviation next_id :: "auth_tables \<Rightarrow> ident" where
  "next_id d \<equiv> at_ids d (at_seq d)"

abbreviation next_random :: "auth_tables \<Rightarrow> string" where
  "next_random d \<equiv> at_random d (at_seq d)"

abbreviation get_user :: "auth_tables \<Rightarrow> ident \<Rightarrow> account_user option" where
  "get_user d i \<equiv> lookup_by ax_id i (at_users d)"

abbreviation get_session :: "auth_tables \<Rightarrow> ident \<Rightarrow> login_session option" where
  "get_session d i \<equiv> lookup_by ss_id i (at_sessions d)"

section \<open>Tokens\<close>

datatype token_kind = AccessToken | RefreshToken

record claims =
  tk_kind :: token_kind
  tk_sub :: ident
  tk_email :: string
  tk_session :: "ident option"
  tk_client :: "auth_client option"

text \<open>What \<open>verifyRefreshToken\<close> returns: claims, one of the two error objects, or \<open>null\<close>.\<close>

datatype token_check = Claims claims | ExpiredToken | InvalidToken | UnreadableToken

record auth_env =
  ae_hash :: "nat \<Rightarrow> string \<Rightarrow> string"
  ae_matches :: "string \<Rightarrow> string \<Rightarrow> bool"
  ae_digest :: "string \<Rightarrow> string"
  ae_sign :: "token_kind \<Rightarrow> nat \<Rightarrow> claims \<Rightarrow> string"
  ae_read :: "token_kind \<Rightarrow> nat \<Rightarrow> string \<Rightarrow> token_check"
  ae_max_attempts :: nat
  ae_window :: nat

definition generate_token :: "auth_env \<Rightarrow> token_kind \<Rightarrow> nat \<Rightarrow> ident \<Rightarrow> string \<Rightarrow> ident \<Rightarrow> auth_client \<Rightarrow> string" where
  "generate_token env kind now userId email sessionId client =
     ae_sign env kind now
       \<lparr>tk_kind = kind, tk_sub = userId, tk_email = email, tk_session = Some sessionId, tk_client = Some client\<rparr>"

text \<open>A property read from an error object is \<open>undefined\<close>.\<close>

definition checked_sub :: "token_check \<Rightarrow> ident option" where
  "checked_sub tc = (case tc of Claims c \<Rightarrow> Some (tk_sub c) | _ \<Rightarrow> None)"

definition checked_session :: "token_check \<Rightarrow> ident option" where
  "checked_session tc = (case tc of Claims c \<Rightarrow> tk_session c | _ \<Rightarrow> None)"

definition checked_client :: "token_check \<Rightarrow> auth_client option" where
  "checked_client tc = (case tc of Claims c \<Rightarrow> tk_client c | _ \<Rightarrow> None)"

section \<open>The browser's cookies\<close>

record cookie_jar =
  cj_access :: "string option"
  cj_refresh :: "auth_client \<Rightarrow> string option"

definition set_refresh_cookie :: "auth_client \<Rightarrow> string option \<Rightarrow> cookie_jar \<Rightarrow> cookie_jar" where
  "set_refresh_cookie client t jar = jar\<lparr>cj_refresh := (cj_refresh jar)(client := t)\<rparr>"

definition clearAllCookies :: "cookie_jar \<Rightarrow> cookie_jar" where
  "clearAllCookies jar = set_refresh_cookie UserClient None (jar\<lparr>cj_access := None\<rparr>)"

definition refresh_cookie :: "auth_client option \<Rightarrow> cookie_jar \<Rightarrow> string option" where
  "refresh_cookie expected jar =
     (case cj_refresh jar (case expected of None \<Rightarrow> UserClient | Some c \<Rightarrow> c) of
        Some t \<Rightarrow> if t = [] then None else Some t
      | None \<Rightarrow> None)"

definition clear_cookies :: "auth_client option \<Rightarrow> cookie_jar \<Rightarrow> cookie_jar" where
  "clear_cookies expected jar =
     (case expected of None \<Rightarrow> clearAllCookies jar | Some c \<Rightarrow> set_refresh_cookie c None jar)"

section \<open>State\<close>

text \<open>The serialized user that \<open>getCurrentUser\<close> and the two logins return; scopes and timestamps are left out.\<close>

record current_user =
  cu_id :: ident
  cu_email :: string
  cu_username :: string
  cu_verified :: bool
  cu_status :: user_status
  cu_admin_types :: "admin_type list"
  cu_platform :: bool
  cu_session :: "ident option"
  cu_access :: "string option"
  cu_client :: "auth_client option"

record auth_state =
  au_db :: auth_tables
  au_counters :: "nat redis"
  au_profiles :: "current_user redis"

definition profile_key :: "ident \<Rightarrow> string" where
  "profile_key u = ''user:profile:'' @ u"

definition with_db :: "auth_tables \<Rightarrow> auth_state \<Rightarrow> auth_state" where
  "with_db d s = s\<lparr>au_db := d\<rparr>"

definition forget_profile :: "ident \<Rightarrow> auth_state \<Rightarrow> auth_state" where
  "forget_profile u s = s\<lparr>au_profiles := redis_delete (profile_key u) (au_profiles s)\<rparr>"

definition keep_profile :: "nat \<Rightarrow> ident \<Rightarrow> current_user \<Rightarrow> auth_state \<Rightarrow> auth_state" where
  "keep_profile now u c s = s\<lparr>au_profiles := cache_set now (profile_key u) c (Some 300) (au_profiles s)\<rparr>"

text \<open>A write of a handler that is not in a transaction but fails as a whole.\<close>

definition db_step :: "(auth_tables \<Rightarrow> ('a \<times> auth_tables) result) \<Rightarrow> auth_state \<Rightarrow> auth_state \<times> 'a result" where
  "db_step f s = (case f (au_db s) of Inl e \<Rightarrow> (s, Inl e) | Inr (x, d) \<Rightarrow> (with_db d s, Inr x))"

end
