(* ===== verification/Authentication.thy ===== *)
theory Authentication
  imports Accounts
begin

text \<open>The handlers of \<open>src/v1/auth/auth.service.ts\<close>, in the order of the file.\<close>

definition lower :: "string \<Rightarrow> string" where
  "lower s = map lower_char s"

definition unique_violation :: http_error where
  "unique_violation = Internal (STR ''P2002'')"

definition missing_row :: http_error where
  "missing_row = Internal (STR ''P2025'')"

section \<open>Registration and verification of the address\<close>

record register_dto =
  rg_email :: string
  rg_username :: string
  rg_password :: string

text \<open>A verification lives for a day.\<close>

definition open_verification :: "nat \<Rightarrow> ident \<Rightarrow> string \<Rightarrow> auth_tables \<Rightarrow> (email_verification \<times> auth_tables) result" where
  "open_verification now userId email d =
     (let v = \<lparr>ev_id = next_id d, ev_user = userId, ev_email = email, ev_token = next_random d,
               ev_expires = now + 24 * 60 * 60 * 1000, ev_verified = None\<rparr>
      in andThen (require (lookup_by ev_token (ev_token v) (at_verifications d) = None) unique_violation) (\<lambda>_.
         Inr (v, d\<lparr>at_verifications := at_verifications d @ [v], at_seq := Suc (at_seq d)\<rparr>)))"

definition new_user :: "auth_env \<Rightarrow> register_dto \<Rightarrow> auth_tables \<Rightarrow> account_user" where
  "new_user env x d =
     \<lparr>ax_id = next_id d, ax_email = lower (rg_email x), ax_username = lower (rg_username x),
      ax_password = ae_hash env (at_seq d) (rg_password x), ax_verified = False, ax_status = UserActive, ax_last_login = None\<rparr>"

definition create_account :: "auth_env \<Rightarrow> nat \<Rightarrow> register_dto \<Rightarrow> auth_tables \<Rightarrow> (account_user \<times> auth_tables) result" where
  "create_account env now x d =
     (let u = new_user env x d
      in andThen (require (lookup_by ax_email (ax_email u) (at_users d) = None
             \<and> lookup_by ax_username (ax_username u) (at_users d) = None) unique_violation) (\<lambda>_.
         andThen (open_verification now (ax_id u) (ax_email u)
           (d\<lparr>at_users := at_users d @ [u], at_profiles := at_profiles d @ [\<lparr>pf_user = ax_id u, pf_status = Unverified\<rparr>],
              at_seq := Suc (at_seq d)\<rparr>)) (\<lambda>(_, d'). Inr (u, d'))))"

definition register :: "auth_env \<Rightarrow> nat \<Rightarrow> string \<Rightarrow> register_dto \<Rightarrow> auth_state \<Rightarrow> auth_state \<times> account_user result" where
  "register env now ip x s =
     (if \<not> lr_allowed (checkRateLimit now (''register:'' @ ip) 10 3600 (au_counters s))
      then (s, Inl (BadRequest (STR ''Too many registration attempts. Please try again later.'')))
      else if lookup_by ax_email (lower (rg_email x)) (at_users (au_db s)) \<noteq> None
      then (s, Inl (Conflict (STR ''User with this email already exists'')))
      else if lookup_by ax_username (lower (rg_username x)) (at_users (au_db s)) \<noteq> None
      then (s, Inl (Conflict (STR ''Username is already taken'')))
      else thenDo (db_step (create_account env now x) s) (\<lambda>u s'. (forget_profile (ax_id u) s', Inr u)))"

definition mark_verified :: "nat \<Rightarrow> email_verification \<Rightarrow> auth_tables \<Rightarrow> (unit \<times> auth_tables) result" where
  "mark_verified now v d =
     andThen (require (get_user d (ev_user v) \<noteq> None \<and> lookup_by pf_user (ev_user v) (at_profiles d) \<noteq> None) missing_row) (\<lambda>_.
       Inr ((), d\<lparr>at_users := update_by ax_id (ev_user v) (\<lambda>u. u\<lparr>ax_verified := True\<rparr>) (at_users d),
         at_verifications := update_by ev_id (ev_id v) (\<lambda>r. r\<lparr>ev_verified := Some now\<rparr>) (at_verifications d),
         at_profiles := update_by pf_user (ev_user v) (\<lambda>p. p\<lparr>pf_status := Verified\<rparr>) (at_profiles d)\<rparr>))"

definition verifyEmail :: "nat \<Rightarrow> string \<Rightarrow> auth_state \<Rightarrow> auth_state \<times> string result" where
  "verifyEmail now token s =
     (case lookup_by ev_token token (at_verifications (au_db s)) of
        None \<Rightarrow> (s, Inl (BadRequest (STR ''Invalid verification token'')))
      | Some v \<Rightarrow>
          if ev_verified v \<noteq> None then (s, Inl (BadRequest (STR ''Email already verified'')))
          else if ev_expires v < now
          then (s, Inl (BadRequest (STR ''Verification token has expired. Please request a new one.'')))
          else thenDo (db_step (mark_verified now v) s) (\<lambda>_ s'. (forget_profile (ev_user v) s', Inr (ev_email v))))"

text \<open>The verifications of a user that are still open go before a new one is made.\<close>

definition drop_verifications :: "ident \<Rightarrow> auth_tables \<Rightarrow> (unit \<times> auth_tables) result" where
  "drop_verifications i d =
     Inr ((), d\<lparr>at_verifications := filter (\<lambda>v. \<not> (ev_user v = i \<and> ev_verified v = None)) (at_verifications d)\<rparr>)"

definition delete_verification :: "ident \<Rightarrow> auth_tables \<Rightarrow> (unit \<times> auth_tables) result" where
  "delete_verification i d = Inr ((), d\<lparr>at_verifications := filter (\<lambda>v. ev_id v \<noteq> i) (at_verifications d)\<rparr>)"

definition resend_key :: "string \<Rightarrow> string \<Rightarrow> string" where
  "resend_key ip email = ''resend-verification:'' @ ip @ '':'' @ email"

text \<open>\<open>sent\<close> is what the e-mail service answers.\<close>

definition resendVerificationEmail :: "nat \<Rightarrow> string \<Rightarrow> string \<Rightarrow> bool \<Rightarrow> auth_state \<Rightarrow> auth_state \<times> unit result" where
  "resendVerificationEmail now ip email0 sent s =
     (let email = lower (trimmed email0)
      in if \<not> lr_allowed (checkRateLimit now (resend_key ip email) 3 (15 * 60) (au_counters s))
         then (s, Inl (BadRequest (STR ''Too many verification email requests. Please try again later.'')))
         else case lookup_by ax_email email (at_users (au_db s)) of
           None \<Rightarrow> (s, Inl (NotFound (STR ''User not found'')))
         | Some u \<Rightarrow>
             if ax_verified u then (s, Inl (BadRequest (STR ''Email already verified'')))
             else thenDo (db_step (drop_verifications (ax_id u)) s) (\<lambda>_ s1.
                  thenDo (db_step (open_verification now (ax_id u) (ax_email u)) s1) (\<lambda>v s2.
                    if sent then (s2, Inr ())
                    else thenDo (db_step (delete_verification (ev_id v)) s2) (\<lambda>_ s3.
                      (s3, Inl (BadRequest (STR ''Failed to send verification email. Please try again.'')))))))"

section \<open>Password reset\<close>

definition spend_resets :: "nat \<Rightarrow> ident \<Rightarrow> password_reset list \<Rightarrow> password_reset list" where
  "spend_resets now i rs = update_where (\<lambda>r. pr_user r = i \<and> pr_used r = None) (\<lambda>r. r\<lparr>pr_used := Some now\<rparr>) rs"

definition open_reset :: "auth_env \<Rightarrow> nat \<Rightarrow> ident \<Rightarrow> auth_tables \<Rightarrow> (unit \<times> auth_tables) result" where
  "open_reset env now i d =
     (let r = \<lparr>pr_id = next_id d, pr_user = i, pr_token = ae_digest env (next_random d), pr_expires = now + 60 * 60 * 1000, pr_used = None\<rparr>
      in andThen (require (lookup_by pr_token (pr_token r) (at_resets d) = None) unique_violation) (\<lambda>_.
         Inr ((), d\<lparr>at_resets := spend_resets now i (at_resets d) @ [r], at_seq := Suc (at_seq d)\<rparr>)))"

definition forgot_key :: "string \<Rightarrow> string \<Rightarrow> string" where
  "forgot_key ip email = ''forgot-password:'' @ ip @ '':'' @ email"

definition forgotPassword :: "auth_env \<Rightarrow> nat \<Rightarrow> string \<Rightarrow> string \<Rightarrow> auth_state \<Rightarrow> auth_state \<times> unit result" where
  "forgotPassword env now ip email0 s =
     (let email = lower (trimmed email0); key = forgot_key ip email
      in if \<not> lr_allowed (checkRateLimit now key 5 (15 * 60) (au_counters s))
         then (s, Inl (BadRequest (STR ''Too many password reset requests. Please try again later.'')))
         else let s1 = s\<lparr>au_counters := bump_rate now key (15 * 60) (au_counters s)\<rparr>
              in case lookup_by ax_email email (at_users (au_db s1)) of
                   None \<Rightarrow> (s1, Inr ())
                 | Some u \<Rightarrow> if ax_status u \<noteq> UserActive then (s1, Inr ()) else db_step (open_reset env now (ax_id u)) s1)"

definition invalid_reset :: http_error where
  "invalid_reset = BadRequest (STR ''Reset link is invalid or has expired.'')"

definition usable_reset :: "auth_env \<Rightarrow> nat \<Rightarrow> string \<Rightarrow> auth_tables \<Rightarrow> password_reset option" where
  "usable_reset env now token d =
     find (\<lambda>r. pr_token r = ae_digest env token \<and> pr_used r = None \<and> now < pr_expires r) (at_resets d)"

definition use_reset :: "auth_env \<Rightarrow> nat \<Rightarrow> string \<Rightarrow> password_reset \<Rightarrow> auth_tables \<Rightarrow> (unit \<times> auth_tables) result" where
  "use_reset env now newPassword r d =
     (let consumed = filter (\<lambda>q. pr_id q = pr_id r \<and> pr_used q = None \<and> now < pr_expires q) (at_resets d)
      in andThen (require (List.length consumed = 1) invalid_reset) (\<lambda>_.
         andThen (require (get_user d (pr_user r) \<noteq> None) missing_row) (\<lambda>_.
         Inr ((), d\<lparr>at_resets := spend_resets now (pr_user r) (update_where (\<lambda>q. pr_id q = pr_id r \<and> pr_used q = None \<and> now < pr_expires q)
               (\<lambda>q. q\<lparr>pr_used := Some now\<rparr>) (at_resets d)),
             at_users := update_by ax_id (pr_user r) (\<lambda>u. u\<lparr>ax_password := ae_hash env (at_seq d) newPassword\<rparr>) (at_users d),
             at_sessions := update_where (\<lambda>q. ss_user q = pr_user r \<and> ss_active q)
               (\<lambda>q. q\<lparr>ss_active := False, ss_revoked := Some now\<rparr>) (at_sessions d),
             at_seq := Suc (at_seq d)\<rparr>))))"

definition resetPassword :: "auth_env \<Rightarrow> nat \<Rightarrow> string \<Rightarrow> string \<Rightarrow> auth_state \<Rightarrow> auth_state \<times> unit result" where
  "resetPassword env now token newPassword s =
     (case usable_reset env now token (au_db s) of
        None \<Rightarrow> (s, Inl invalid_reset)
      | Some r \<Rightarrow>
          if map_option ax_status (get_user (au_db s) (pr_user r)) \<noteq> Some UserActive then (s, Inl invalid_reset)
          else thenDo (db_step (use_reset env now newPassword r) s) (\<lambda>_ s'. (forget_profile (pr_user r) s', Inr ())))"


section \<open>Sessions\<close>

text \<open>
  A session is created with the placeholder \<open>pending\<close> in its unique hash column, which the hash of the
  refresh token replaces in a write of its own.
\<close>

definition create_session :: "nat \<Rightarrow> ident \<Rightarrow> auth_client \<Rightarrow> nat \<Rightarrow> auth_tables \<Rightarrow> (ident \<times> auth_tables) result" where
  "create_session now userId client lifetime d =
     (let q = \<lparr>ss_id = next_id d, ss_user = userId, ss_hash = ''pending'', ss_expires = now + lifetime, ss_active = True,
               ss_revoked = None, ss_client = client, ss_used = now\<rparr>
      in andThen (require (lookup_by ss_hash ''pending'' (at_sessions d) = None) unique_violation) (\<lambda>_.
         Inr (ss_id q, d\<lparr>at_sessions := at_sessions d @ [q], at_seq := Suc (at_seq d)\<rparr>)))"

definition hash_free :: "ident \<Rightarrow> string \<Rightarrow> auth_tables \<Rightarrow> bool" where
  "hash_free i h d \<longleftrightarrow> list_all (\<lambda>q. ss_id q = i \<or> ss_hash q \<noteq> h) (at_sessions d)"

definition store_refresh_hash :: "auth_env \<Rightarrow> ident \<Rightarrow> string \<Rightarrow> (login_session \<Rightarrow> login_session) \<Rightarrow> auth_tables \<Rightarrow> (unit \<times> auth_tables) result" where
  "store_refresh_hash env i token touch d =
     (let h = ae_hash env (at_seq d) token
      in andThen (require (get_session d i \<noteq> None) missing_row) (\<lambda>_.
         andThen (require (hash_free i h d) unique_violation) (\<lambda>_.
         Inr ((), d\<lparr>at_sessions := update_by ss_id i (\<lambda>q. touch (q\<lparr>ss_hash := h\<rparr>)) (at_sessions d), at_seq := Suc (at_seq d)\<rparr>))))"

definition touch_login :: "nat \<Rightarrow> ident \<Rightarrow> auth_tables \<Rightarrow> (unit \<times> auth_tables) result" where
  "touch_login now i d =
     andThen (require (get_user d i \<noteq> None) missing_row) (\<lambda>_.
       Inr ((), d\<lparr>at_users := update_by ax_id i (\<lambda>u. u\<lparr>ax_last_login := Some now\<rparr>) (at_users d)\<rparr>))"

text \<open>From \<open>session.create\<close> to \<open>user.update\<close>: the session, its access token and its refresh token.\<close>

definition start_session :: "auth_env \<Rightarrow> nat \<Rightarrow> account_user \<Rightarrow> auth_client \<Rightarrow> nat \<Rightarrow> auth_state \<Rightarrow> auth_state \<times> (ident \<times> string \<times> string) result" where
  "start_session env now u client lifetime s =
     thenDo (db_step (create_session now (ax_id u) client lifetime) s) (\<lambda>sid s1.
       let accessToken = generate_token env AccessToken now (ax_id u) (ax_email u) sid client;
           refreshToken = generate_token env RefreshToken now (ax_id u) (ax_email u) sid client
       in thenDo (db_step (store_refresh_hash env sid refreshToken (\<lambda>q. q)) s1) (\<lambda>_ s2.
          thenDo (db_step (touch_login now (ax_id u)) s2) (\<lambda>_ s3. (s3, Inr (sid, accessToken, refreshToken)))))"

section \<open>Login\<close>

definition failed_attempt :: "nat \<Rightarrow> string \<Rightarrow> String.literal \<Rightarrow> auth_state \<Rightarrow> auth_state \<times> 'a result" where
  "failed_attempt now key message s =
     (s\<lparr>au_counters := bump_attempts now key 15 (au_counters s)\<rparr>, Inl (Unauthorized message))"

definition find_login :: "string \<Rightarrow> auth_tables \<Rightarrow> account_user option" where
  "find_login identifier d = find (\<lambda>u. ax_email u = lower identifier \<or> ax_username u = lower identifier) (at_users d)"

definition check_credentials :: "auth_env \<Rightarrow> nat \<Rightarrow> string \<Rightarrow> string \<Rightarrow> string \<Rightarrow> auth_state \<Rightarrow> auth_state \<times> account_user result" where
  "check_credentials env now key identifier password s =
     (case find_login identifier (au_db s) of
        None \<Rightarrow> failed_attempt now key (STR ''Invalid credentials'') s
      | Some u \<Rightarrow>
          if ax_status u \<in> {UserDeleted, UserInactive, UserSuspended} \<or> \<not> ae_matches env (ax_password u) password
          then failed_attempt now key (STR ''Invalid credentials'') s else (s, Inr u))"

definition reset_attempts :: "string \<Rightarrow> auth_state \<Rightarrow> auth_state" where
  "reset_attempts key s = s\<lparr>au_counters := resetLoginAttempts key (au_counters s)\<rparr>"

definition active_roles :: "ident \<Rightarrow> auth_tables \<Rightarrow> admin list" where
  "active_roles i d = filter (\<lambda>a. ad_user a = i \<and> ad_status a = AdminActive) (at_admins d)"

definition describe_user :: "account_user \<Rightarrow> admin list \<Rightarrow> current_user" where
  "describe_user u roles =
     \<lparr>cu_id = ax_id u, cu_email = ax_email u, cu_username = ax_username u, cu_verified = ax_verified u, cu_status = ax_status u,
      cu_admin_types = map ad_type roles, cu_platform = list_ex (\<lambda>a. ad_type a = PLATFORM_ADMIN) roles,
      cu_session = None, cu_access = None, cu_client = None\<rparr>"

definition getCurrentUser :: "nat \<Rightarrow> ident \<Rightarrow> auth_state \<Rightarrow> auth_state \<times> current_user result" where
  "getCurrentUser now userId s =
     (case redis_get now (profile_key userId) (au_profiles s) of
        Some c \<Rightarrow> (s, Inr c)
      | None \<Rightarrow>
          (case get_user (au_db s) userId of
             None \<Rightarrow> (s, Inl (NotFound (STR ''User not found'')))
           | Some u \<Rightarrow> let c = describe_user u (active_roles userId (au_db s)) in (keep_profile now userId c s, Inr c)))"

definition login_key :: "string \<Rightarrow> string" where
  "login_key ip = ''login:'' @ ip"

text \<open>A handler on the state and the cookies of the browser that sent the request.\<close>

definition login :: "auth_env \<Rightarrow> nat \<Rightarrow> string \<Rightarrow> string \<Rightarrow> string \<Rightarrow> auth_state \<times> cookie_jar \<Rightarrow> (auth_state \<times> cookie_jar) \<times> current_user result" where
  "login env now ip identifier password sj =
     (case sj of (s, jar) \<Rightarrow>
        let key = login_key ip
        in if \<not> lr_allowed (checkLoginAttempts now key (ae_max_attempts env) (ae_window env) (au_counters s))
           then ((s, jar), Inl (Unauthorized (STR ''Too many login attempts. Please try again later.'')))
           else case thenDo (check_credentials env now key identifier password s) (\<lambda>u s1.
                  if \<not> ax_verified u then (s1, Inl (Unauthorized (STR ''Email verification required'')))
                  else thenDo (start_session env now u UserClient (30 * 24 * 60 * 60 * 1000) (reset_attempts key s1)) (\<lambda>t s2. (s2, Inr (u, t)))) of
             (s2, Inl e) \<Rightarrow> ((s2, jar), Inl e)
           | (s2, Inr (u, sid, accessToken, refreshToken)) \<Rightarrow>
               (case getCurrentUser now (ax_id u) (forget_profile (ax_id u) s2) of
                  (s3, r) \<Rightarrow> ((s3, set_refresh_cookie UserClient (Some refreshToken) (jar\<lparr>cj_access := Some accessToken\<rparr>)),
                     andThen r (\<lambda>c. Inr (c\<lparr>cu_session := Some sid, cu_access := Some accessToken\<rparr>)))))"

definition client_name :: "auth_client \<Rightarrow> string" where
  "client_name c = (case c of UserClient \<Rightarrow> ''USER'' | OrganizationClient \<Rightarrow> ''ORGANIZATION_ADMIN'' | PlatformClient \<Rightarrow> ''PLATFORM_ADMIN'')"

definition admin_key :: "auth_client \<Rightarrow> string \<Rightarrow> string" where
  "admin_key client ip = ''admin-login:'' @ client_name client @ '':'' @ ip"

definition client_roles :: "auth_client \<Rightarrow> admin list \<Rightarrow> admin list" where
  "client_roles client roles =
     filter (\<lambda>a. if client = PlatformClient then ad_type a = PLATFORM_ADMIN else ad_type a \<noteq> PLATFORM_ADMIN) roles"

text \<open>The two checks of the roles that follow the first one cannot fail, the filter has made them true.\<close>

definition adminLogin :: "auth_env \<Rightarrow> nat \<Rightarrow> string \<Rightarrow> auth_client \<Rightarrow> string \<Rightarrow> string \<Rightarrow> auth_state \<times> cookie_jar \<Rightarrow> (auth_state \<times> cookie_jar) \<times> current_user result" where
  "adminLogin env now ip client identifier password sj =
     (case sj of (s, jar) \<Rightarrow>
        let key = admin_key client ip
        in if \<not> lr_allowed (checkLoginAttempts now key 3 30 (au_counters s))
           then ((s, jar), Inl (Unauthorized (STR ''Too many admin login attempts. Please try again later.'')))
           else case thenDo (check_credentials env now key identifier password s) (\<lambda>u s1.
                  if client_roles client (active_roles (ax_id u) (au_db s1)) = []
                  then failed_attempt now key (STR ''Access denied. You do not have admin privileges.'') s1
                  else thenDo (start_session env now u client (24 * 60 * 60 * 1000) (reset_attempts key s1)) (\<lambda>t s2.
                    (s2, Inr (u, client_roles client (active_roles (ax_id u) (au_db s1)), t)))) of
             (s2, Inl e) \<Rightarrow> ((s2, jar), Inl e)
           | (s2, Inr (u, roles, sid, accessToken, refreshToken)) \<Rightarrow>
               let c = (describe_user u roles)\<lparr>cu_session := Some sid, cu_access := Some accessToken, cu_client := Some client\<rparr>
               in ((keep_profile now (ax_id u) c s2, set_refresh_cookie client (Some refreshToken) jar), Inr c))"

section \<open>Refresh\<close>

definition live_session :: "nat \<Rightarrow> ident option \<Rightarrow> auth_client \<Rightarrow> login_session \<Rightarrow> bool" where
  "live_session now userId client q \<longleftrightarrow>
     where_column userId (ss_user q) \<and> ss_active q \<and> ss_revoked q = None \<and> now < ss_expires q \<and> ss_client q = client"

definition latest_first :: "login_session list \<Rightarrow> login_session list" where
  "latest_first qs = sort_key (\<lambda>q. - int (ss_used q)) qs"

definition refreshed_session :: "auth_env \<Rightarrow> nat \<Rightarrow> string \<Rightarrow> token_check \<Rightarrow> auth_client \<Rightarrow> auth_tables \<Rightarrow> login_session option" where
  "refreshed_session env now token tc client d =
     (case (case checked_session tc of None \<Rightarrow> None
            | Some i \<Rightarrow> find (\<lambda>q. ss_id q = i \<and> live_session now (checked_sub tc) client q) (at_sessions d)) of
        Some q \<Rightarrow> Some q
      | None \<Rightarrow>
          let qs = latest_first (filter (live_session now (checked_sub tc) client) (at_sessions d))
          in case find (\<lambda>q. ae_matches env (ss_hash q) token) qs of
               Some q \<Rightarrow> Some q
             | None \<Rightarrow> (case qs of [] \<Rightarrow> None | q # _ \<Rightarrow> Some q))"

definition refresh_with :: "auth_env \<Rightarrow> nat \<Rightarrow> auth_client option \<Rightarrow> string \<Rightarrow> auth_tables \<Rightarrow> ((string \<times> string) \<times> auth_tables) result" where
  "refresh_with env now expected token d =
     (let tc = ae_read env RefreshToken now token;
          tokenClient = (case checked_client tc of None \<Rightarrow> UserClient | Some c \<Rightarrow> c)
      in andThen (require (tc \<noteq> UnreadableToken \<and> tc \<noteq> ExpiredToken) (Unauthorized (STR ''Invalid or expired refresh token''))) (\<lambda>_.
         andThen (require (\<forall>c\<in>set_option expected. tokenClient = c)
           (Unauthorized (STR ''Refresh token belongs to a different Heightt application''))) (\<lambda>_.
         andThen (require_some (refreshed_session env now token tc (case expected of None \<Rightarrow> UserClient | Some c \<Rightarrow> c) d)
           (Unauthorized (STR ''Session not found''))) (\<lambda>q.
         andThen (require (ae_matches env (ss_hash q) token) (Unauthorized (STR ''Invalid refresh token''))) (\<lambda>_.
         andThen (require_some (get_user d (ss_user q)) missing_row) (\<lambda>u.
           let newAccess = generate_token env AccessToken now (ss_user q) (ax_email u) (ss_id q) tokenClient;
               newRefresh = generate_token env RefreshToken now (ss_user q) (ax_email u) (ss_id q) tokenClient
           in andThen (store_refresh_hash env (ss_id q) newRefresh (\<lambda>q. q\<lparr>ss_used := now\<rparr>) d) (\<lambda>(_, d').
              Inr ((newAccess, newRefresh), d'))))))))"

text \<open>Any error clears the cookies of the client.\<close>

definition refresh :: "auth_env \<Rightarrow> nat \<Rightarrow> auth_client option \<Rightarrow> auth_state \<times> cookie_jar \<Rightarrow> (auth_state \<times> cookie_jar) \<times> string result" where
  "refresh env now expected sj =
     (case sj of (s, jar) \<Rightarrow>
        case refresh_cookie expected jar of
          None \<Rightarrow> ((s, jar), Inl (Unauthorized (STR ''Refresh token required'')))
        | Some token \<Rightarrow>
            (case db_step (refresh_with env now expected token) s of
               (s', Inl e) \<Rightarrow> ((s', clear_cookies expected jar), Inl e)
             | (s', Inr (newAccess, newRefresh)) \<Rightarrow>
                 ((s', case expected of
                         None \<Rightarrow> set_refresh_cookie UserClient (Some newRefresh) (jar\<lparr>cj_access := Some newAccess\<rparr>)
                       | Some c \<Rightarrow> set_refresh_cookie c (Some newRefresh) jar), Inr newAccess)))"

section \<open>Logout\<close>

definition revoke :: "nat \<Rightarrow> login_session \<Rightarrow> login_session" where
  "revoke now q = q\<lparr>ss_revoked := Some now, ss_active := False\<rparr>"

definition open_session :: "ident option \<Rightarrow> auth_client option \<Rightarrow> login_session \<Rightarrow> bool" where
  "open_session userId client q \<longleftrightarrow>
     where_column userId (ss_user q) \<and> ss_active q \<and> ss_revoked q = None \<and> where_column client (ss_client q)"

definition logout_session :: "token_check \<Rightarrow> auth_client option \<Rightarrow> auth_tables \<Rightarrow> login_session option" where
  "logout_session tc expected d =
     (case (case checked_session tc of None \<Rightarrow> None
            | Some i \<Rightarrow> find (\<lambda>q. ss_id q = i \<and> open_session (checked_sub tc) expected q) (at_sessions d)) of
        Some q \<Rightarrow> Some q
      | None \<Rightarrow> (case latest_first (filter (open_session (checked_sub tc) expected) (at_sessions d)) of [] \<Rightarrow> None | q # _ \<Rightarrow> Some q))"

definition forget_checked :: "token_check \<Rightarrow> auth_state \<Rightarrow> auth_state" where
  "forget_checked tc s = forget_profile (case checked_sub tc of None \<Rightarrow> ''undefined'' | Some i \<Rightarrow> i) s"

text \<open>\<open>bearer\<close> is the client of the access token that the guard has accepted.\<close>

definition logout :: "auth_env \<Rightarrow> nat \<Rightarrow> auth_client option \<Rightarrow> auth_client option \<Rightarrow> auth_state \<times> cookie_jar \<Rightarrow> (auth_state \<times> cookie_jar) \<times> unit result" where
  "logout env now expected bearer sj =
     (case sj of (s, jar) \<Rightarrow>
        if expected \<noteq> None \<and> bearer \<noteq> None \<and> bearer \<noteq> expected
        then ((s, jar), Inl (Unauthorized (STR ''Access token belongs to a different Heightt application'')))
        else
          let s' = (case refresh_cookie expected jar of
                      None \<Rightarrow> s
                    | Some token \<Rightarrow>
                        let tc = ae_read env RefreshToken now token
                        in if tc = UnreadableToken then s
                           else case logout_session tc expected (au_db s) of
                                  None \<Rightarrow> s
                                | Some q \<Rightarrow> forget_checked tc
                                    (with_db ((au_db s)\<lparr>at_sessions := update_by ss_id (ss_id q) (revoke now) (at_sessions (au_db s))\<rparr>) s))
          in ((s', clear_cookies expected jar), Inr ()))"

definition logoutAll :: "auth_env \<Rightarrow> nat \<Rightarrow> auth_state \<times> cookie_jar \<Rightarrow> (auth_state \<times> cookie_jar) \<times> unit result" where
  "logoutAll env now sj =
     (case sj of (s, jar) \<Rightarrow>
        let s' = (case refresh_cookie None jar of
                    None \<Rightarrow> s
                  | Some token \<Rightarrow>
                      let tc = ae_read env RefreshToken now token
                      in if tc = UnreadableToken then s
                         else forget_checked tc (with_db ((au_db s)\<lparr>at_sessions :=
                           update_where (open_session (checked_sub tc) None) (revoke now) (at_sessions (au_db s))\<rparr>) s))
        in ((s', clearAllCookies jar), Inr ()))"

definition revokeSession :: "nat \<Rightarrow> ident \<Rightarrow> ident \<Rightarrow> auth_state \<Rightarrow> auth_state \<times> unit result" where
  "revokeSession now userId sessionId s =
     (case find (\<lambda>q. ss_id q = sessionId \<and> open_session (Some userId) None q) (at_sessions (au_db s)) of
        None \<Rightarrow> (s, Inl (NotFound (STR ''Session not found'')))
      | Some _ \<Rightarrow> (with_db ((au_db s)\<lparr>at_sessions := update_by ss_id sessionId (revoke now) (at_sessions (au_db s))\<rparr>) s, Inr ()))"

section \<open>The check of an access token\<close>

definition authenticate :: "auth_env \<Rightarrow> nat \<Rightarrow> string \<Rightarrow> auth_tables \<Rightarrow> (account_user \<times> auth_client) result" where
  "authenticate env now token d =
     (case ae_read env AccessToken now token of
        Claims c \<Rightarrow>
          andThen (require (tk_kind c = AccessToken) (Unauthorized (STR ''Invalid token type''))) (\<lambda>_.
          andThen (require_some (get_user d (tk_sub c)) (Unauthorized (STR ''User not found''))) (\<lambda>u.
          andThen (require (ax_status u \<notin> {UserDeleted, UserInactive, UserSuspended}) (Unauthorized (STR ''User account is inactive''))) (\<lambda>_.
            let client = (case tk_client c of None \<Rightarrow> UserClient | Some x \<Rightarrow> x)
            in andThen (require (client = UserClient \<longrightarrow> ax_verified u) (Unauthorized (STR ''Email verification required''))) (\<lambda>_.
               Inr (u, client)))))
      | ExpiredToken \<Rightarrow> Inl (Unauthorized (STR ''Access token expired''))
      | InvalidToken \<Rightarrow> Inl (Unauthorized (STR ''Invalid access token''))
      | UnreadableToken \<Rightarrow> Inl (Unauthorized (STR ''Unauthorized'')))"

end
