(* ===== verification/AuthProperties.thy ===== *)
theory AuthProperties
  imports Authentication Samples
begin

text \<open>
  The theorems on accounts and sessions: what an operation writes, what every sequence of operations
  keeps, how a session is refreshed, ended and reset, and where the handlers go wrong.
\<close>

section \<open>What the steps write\<close>

lemma db_step_Inr [result_simps]: "db_step f s = (s', Inr x) \<longleftrightarrow> (\<exists>d. f (au_db s) = Inr (x, d) \<and> s' = with_db d s)"
  by (auto simp: db_step_def split: sum.splits)

lemma db_step_Inl: "db_step f s = (s', Inl e) \<longleftrightarrow> f (au_db s) = Inl e \<and> s' = s"
  by (auto simp: db_step_def split: sum.splits)

lemma db_step_invariant:
  assumes "I (au_db s)" and "\<And>x d. f (au_db s) = Inr (x, d) \<Longrightarrow> I d"
  shows "I (au_db (fst (db_step f s)))"
  using assms by (auto simp: db_step_def with_db_def split: sum.splits)

lemma state_simps [simp]:
  "au_db (with_db d s) = d" "au_counters (with_db d s) = au_counters s" "au_profiles (with_db d s) = au_profiles s"
  "au_db (forget_profile u s) = au_db s" "au_counters (forget_profile u s) = au_counters s"
  "au_db (keep_profile now u c s) = au_db s" "au_counters (keep_profile now u c s) = au_counters s"
  "au_db (reset_attempts k s) = au_db s" "au_profiles (reset_attempts k s) = au_profiles s"
  "au_db (forget_checked tc s) = au_db s" "au_counters (forget_checked tc s) = au_counters s"
  by (simp_all add: with_db_def forget_profile_def keep_profile_def reset_attempts_def forget_checked_def)

lemma failed_attempt_simps [simp]:
  "au_db (fst (failed_attempt now key m s)) = au_db s" "snd (failed_attempt now key m s) = Inl (Unauthorized m)"
  "au_counters (fst (failed_attempt now key m s)) = bump_attempts now key 15 (au_counters s)"
  by (simp_all add: failed_attempt_def)

section \<open>Operations\<close>

text \<open>All requests to the service, each with its time and where it comes from.\<close>

datatype auth_request =
    Register nat string register_dto
  | Verify nat string
  | Resend nat string string bool
  | Forgot nat string string
  | Reset nat string string
  | Login nat string string string
  | AdminLogin nat string auth_client string string
  | Refresh nat "auth_client option"
  | Logout nat "auth_client option" "auth_client option"
  | LogoutAll nat
  | Revoke nat ident ident
  | Me nat ident

text \<open>Each request comes with the cookies of its own browser.\<close>

fun perform_auth :: "auth_env \<Rightarrow> auth_request \<times> cookie_jar \<Rightarrow> auth_state \<Rightarrow> auth_state" where
  "perform_auth env (Register now ip x, jar) s = fst (register env now ip x s)"
| "perform_auth env (Verify now t, jar) s = fst (verifyEmail now t s)"
| "perform_auth env (Resend now ip e sent, jar) s = fst (resendVerificationEmail now ip e sent s)"
| "perform_auth env (Forgot now ip e, jar) s = fst (forgotPassword env now ip e s)"
| "perform_auth env (Reset now t p, jar) s = fst (resetPassword env now t p s)"
| "perform_auth env (Login now ip i p, jar) s = fst (fst (login env now ip i p (s, jar)))"
| "perform_auth env (AdminLogin now ip c i p, jar) s = fst (fst (adminLogin env now ip c i p (s, jar)))"
| "perform_auth env (Refresh now c, jar) s = fst (fst (refresh env now c (s, jar)))"
| "perform_auth env (Logout now c b, jar) s = fst (fst (logout env now c b (s, jar)))"
| "perform_auth env (LogoutAll now, jar) s = fst (fst (logoutAll env now (s, jar)))"
| "perform_auth env (Revoke now u i, jar) s = fst (revokeSession now u i s)"
| "perform_auth env (Me now u, jar) s = fst (getCurrentUser now u s)"

text \<open>
  The database changes only by the steps of the handlers: an invariant of the tables that every step
  keeps is kept by every request.
\<close>

locale kept_by_steps =
  fixes env :: auth_env and I :: "auth_tables \<Rightarrow> bool"
  assumes create_account: "I d \<Longrightarrow> create_account env now x d = Inr (u, d') \<Longrightarrow> I d'"
    and mark_verified: "I d \<Longrightarrow> mark_verified now v d = Inr (r, d') \<Longrightarrow> I d'"
    and drop_verifications: "I d \<Longrightarrow> drop_verifications i d = Inr (r, d') \<Longrightarrow> I d'"
    and open_verification: "I d \<Longrightarrow> open_verification now i e d = Inr (v, d') \<Longrightarrow> I d'"
    and delete_verification: "I d \<Longrightarrow> delete_verification i d = Inr (r, d') \<Longrightarrow> I d'"
    and open_reset: "I d \<Longrightarrow> open_reset env now i d = Inr (r, d') \<Longrightarrow> I d'"
    and use_reset: "I d \<Longrightarrow> use_reset env now p q d = Inr (r, d') \<Longrightarrow> I d'"
    and create_session: "I d \<Longrightarrow> create_session now i c l d = Inr (j, d') \<Longrightarrow> I d'"
    and store_refresh_hash: "I d \<Longrightarrow> touch \<in> {\<lambda>q. q, \<lambda>q. q\<lparr>ss_used := now\<rparr>} \<Longrightarrow>
      store_refresh_hash env i t touch d = Inr (r, d') \<Longrightarrow> I d'"
    and touch_login: "I d \<Longrightarrow> touch_login now i d = Inr (r, d') \<Longrightarrow> I d'"
    and revoke: "I d \<Longrightarrow> I (d\<lparr>at_sessions := update_where P (revoke now) (at_sessions d)\<rparr>)"
begin

lemma then_keeps:
  "I (au_db (fst r)) \<Longrightarrow> (\<And>s x. I (au_db s) \<Longrightarrow> I (au_db (fst (k x s)))) \<Longrightarrow> I (au_db (fst (thenDo r k)))"
  by (rule thenDo_invariant [where I = "\<lambda>s. I (au_db s)"])

lemma step_keeps: "I (au_db s) \<Longrightarrow> (\<And>x d d'. I d \<Longrightarrow> f d = Inr (x, d') \<Longrightarrow> I d') \<Longrightarrow> I (au_db (fst (db_step f s)))"
  by (rule db_step_invariant)

lemma start_session_keeps: "I (au_db s) \<Longrightarrow> I (au_db (fst (start_session env now u c l s)))"
  unfolding start_session_def Let_def
proof (intro then_keeps)
  assume "I (au_db s)"
  then show "I (au_db (fst (db_step (create_session now (ax_id u) c l) s)))" by (rule step_keeps) (rule create_session)
next
  fix s1 :: auth_state and sid t
  assume "I (au_db s1)"
  then show "I (au_db (fst (db_step (store_refresh_hash env sid t (\<lambda>q. q)) s1)))"
    by (rule step_keeps) (rule store_refresh_hash [where touch = "\<lambda>q. q" and now = now], assumption, simp, assumption)
next
  fix s2 :: auth_state
  assume "I (au_db s2)"
  then show "I (au_db (fst (db_step (touch_login now (ax_id u)) s2)))" by (rule step_keeps) (rule touch_login)
qed simp

lemma check_credentials_keeps: "I (au_db s) \<Longrightarrow> I (au_db (fst (check_credentials env now k i p s)))"
  by (simp add: check_credentials_def split: option.split)

lemma getCurrentUser_keeps: "I (au_db s) \<Longrightarrow> I (au_db (fst (getCurrentUser now u s)))"
  by (simp add: getCurrentUser_def Let_def split: option.split)

lemma login_keeps: "I (au_db s) \<Longrightarrow> I (au_db (fst (fst (login env now ip i p (s, jar)))))"
proof -
  assume s: "I (au_db s)"
  let ?r = "thenDo (check_credentials env now (login_key ip) i p s) (\<lambda>u s1.
    if \<not> ax_verified u then (s1, Inl (Unauthorized (STR ''Email verification required'')))
    else thenDo (start_session env now u UserClient (30 * 24 * 60 * 60 * 1000) (reset_attempts (login_key ip) s1)) (\<lambda>t s2. (s2, Inr (u, t))))"
  have "I (au_db (fst ?r))"
    using s by (intro then_keeps check_credentials_keeps) (auto intro!: then_keeps start_session_keeps)
  moreover obtain s2 r where r: "?r = (s2, r)" by (cases ?r)
  ultimately have s2: "I (au_db s2)" by simp
  show ?thesis
  proof (cases r)
    case (Inl e)
    with r s s2 show ?thesis by (simp add: login_def Let_def)
  next
    case (Inr t)
    obtain u sid a b where t: "t = (u, sid, a, b)" by (cases t)
    obtain s3 x where g: "getCurrentUser now (ax_id u) (forget_profile (ax_id u) s2) = (s3, x)" by (metis surj_pair)
    have "I (au_db s3)" using getCurrentUser_keeps [of "forget_profile (ax_id u) s2" now "ax_id u"] by (simp add: g s2)
    with r s Inr t g show ?thesis by (simp add: login_def Let_def)
  qed
qed

lemma adminLogin_keeps: "I (au_db s) \<Longrightarrow> I (au_db (fst (fst (adminLogin env now ip c i p (s, jar)))))"
proof -
  assume s: "I (au_db s)"
  let ?r = "thenDo (check_credentials env now (admin_key c ip) i p s) (\<lambda>u s1.
    if client_roles c (active_roles (ax_id u) (au_db s1)) = []
    then failed_attempt now (admin_key c ip) (STR ''Access denied. You do not have admin privileges.'') s1
    else thenDo (start_session env now u c (24 * 60 * 60 * 1000) (reset_attempts (admin_key c ip) s1)) (\<lambda>t s2.
      (s2, Inr (u, client_roles c (active_roles (ax_id u) (au_db s1)), t))))"
  have "I (au_db (fst ?r))"
    using s by (intro then_keeps check_credentials_keeps) (auto intro!: then_keeps start_session_keeps)
  moreover obtain s2 r where r: "?r = (s2, r)" by (cases ?r)
  ultimately have s2: "I (au_db s2)" by simp
  show ?thesis
  proof (cases r)
    case (Inl e)
    with r s s2 show ?thesis by (simp add: adminLogin_def Let_def)
  next
    case (Inr t)
    obtain u roles sid a b where t: "t = (u, roles, sid, a, b)" by (cases t)
    with r s s2 Inr show ?thesis by (simp add: adminLogin_def Let_def)
  qed
qed

lemma refresh_with_keeps: "I d \<Longrightarrow> refresh_with env now c t d = Inr (r, d') \<Longrightarrow> I d'"
  by (auto simp: refresh_with_def result_simps Let_def
      intro: store_refresh_hash [where touch = "\<lambda>q. q\<lparr>ss_used := now\<rparr>" and now = now])

lemma refresh_keeps: "I (au_db s) \<Longrightarrow> I (au_db (fst (fst (refresh env now c (s, jar)))))"
  using db_step_invariant [of I s "refresh_with env now c (the (refresh_cookie c jar))"] refresh_with_keeps
  by (auto simp: refresh_def split: option.splits prod.splits sum.splits)

lemma update_by_revoke: "I d \<Longrightarrow> I (d\<lparr>at_sessions := update_by ss_id i (revoke now) (at_sessions d)\<rparr>)"
  unfolding update_by_def by (rule revoke)

lemma perform_keeps: "I (au_db s) \<Longrightarrow> I (au_db (perform_auth env e s))"
proof -
  assume s: "I (au_db s)"
  obtain q jar where e: "e = (q, jar)" by (cases e)
  show ?thesis
  proof (cases q)
    case (Register now ip x)
    have "I (au_db (fst (db_step (create_account env now x) s)))" by (rule step_keeps [OF s]) (rule create_account)
    then show ?thesis unfolding e Register by (simp add: register_def s then_keeps)
  next
    case (Verify now t)
    have "I (au_db (fst (db_step (mark_verified now v) s)))" for v by (rule step_keeps [OF s]) (rule mark_verified)
    then show ?thesis unfolding e Verify by (simp add: verifyEmail_def s then_keeps split: option.split)
  next
    case (Resend now ip em sent)
    have "I (au_db (fst (db_step (drop_verifications i) s)))" for i by (rule step_keeps [OF s]) (rule drop_verifications)
    moreover have "I (au_db (fst (db_step (open_verification now i e) s1)))" if "I (au_db s1)" for i e s1
      by (rule step_keeps [OF that]) (rule open_verification)
    moreover have "I (au_db (fst (db_step (delete_verification i) s2)))" if "I (au_db s2)" for i s2
      by (rule step_keeps [OF that]) (rule delete_verification)
    ultimately show ?thesis unfolding e Resend
      by (simp add: resendVerificationEmail_def Let_def s then_keeps split: option.split)
  next
    case (Forgot now ip em)
    have "I (au_db (fst (db_step (open_reset env now i) s1)))" if "au_db s1 = au_db s" for i s1
      by (rule step_keeps) (simp add: that s, rule open_reset)
    then show ?thesis unfolding e Forgot by (simp add: forgotPassword_def Let_def s split: option.split)
  next
    case (Reset now t p)
    have "I (au_db (fst (db_step (use_reset env now p r) s)))" for r by (rule step_keeps [OF s]) (rule use_reset)
    then show ?thesis unfolding e Reset by (simp add: resetPassword_def s then_keeps split: option.split)
  next
    case (Logout now c b)
    show ?thesis unfolding e Logout
      by (auto simp: logout_def Let_def s update_by_revoke split: option.split)
  next
    case (LogoutAll now)
    show ?thesis unfolding e LogoutAll by (auto simp: logoutAll_def Let_def s revoke split: option.split)
  next
    case (Revoke now u i)
    show ?thesis unfolding e Revoke by (auto simp: revokeSession_def s update_by_revoke split: option.split)
  qed (simp_all add: e s login_keeps adminLogin_keeps refresh_keeps getCurrentUser_keeps)
qed

lemma sequence_keeps: "I (au_db s) \<Longrightarrow> I (au_db (fold (perform_auth env) es s))"
  by (induction es arbitrary: s) (simp_all add: perform_keeps)

end


section \<open>What every sequence of requests keeps\<close>

definition fresh_ids :: "auth_tables \<Rightarrow> ident list \<Rightarrow> bool" where
  "fresh_ids d ks \<longleftrightarrow> inj (at_ids d) \<and> (\<forall>n\<ge>at_seq d. at_ids d n \<notin> set ks)"

lemma fresh_ids_next: "fresh_ids d ks \<Longrightarrow> next_id d \<notin> set ks"
  by (simp add: fresh_ids_def)

lemma fresh_ids_later: "fresh_ids d ks \<Longrightarrow> at_ids d' = at_ids d \<Longrightarrow> at_seq d \<le> at_seq d' \<Longrightarrow> fresh_ids d' ks"
  by (simp add: fresh_ids_def)

lemma fresh_ids_snoc:
  "fresh_ids d ks \<Longrightarrow> at_ids d' = at_ids d \<Longrightarrow> at_seq d < at_seq d' \<Longrightarrow> fresh_ids d' (ks @ [next_id d])"
  by (auto simp: fresh_ids_def dest!: injD [of "at_ids d"])

definition users_sound :: "auth_tables \<Rightarrow> bool" where
  "users_sound d \<longleftrightarrow> fresh_ids d (map ax_id (at_users d)) \<and> distinct (map ax_id (at_users d)) \<and>
     distinct (map ax_email (at_users d)) \<and> distinct (map ax_username (at_users d))"

definition sessions_sound :: "auth_tables \<Rightarrow> bool" where
  "sessions_sound d \<longleftrightarrow> fresh_ids d (map ss_id (at_sessions d)) \<and> distinct (map ss_id (at_sessions d)) \<and>
     distinct (map ss_hash (at_sessions d)) \<and> list_all (\<lambda>q. ss_active q = (ss_revoked q = None)) (at_sessions d)"

definition open_resets :: "ident \<Rightarrow> auth_tables \<Rightarrow> password_reset list" where
  "open_resets i d = filter (\<lambda>r. pr_user r = i \<and> pr_used r = None) (at_resets d)"

definition resets_sound :: "auth_tables \<Rightarrow> bool" where
  "resets_sound d \<longleftrightarrow> fresh_ids d (map pr_id (at_resets d)) \<and> distinct (map pr_id (at_resets d)) \<and>
     distinct (map pr_token (at_resets d)) \<and> (\<forall>i. List.length (open_resets i d) \<le> 1)"

lemma users_sound_cong:
  "users_sound d \<Longrightarrow> map (\<lambda>u. (ax_id u, ax_email u, ax_username u)) (at_users d') = map (\<lambda>u. (ax_id u, ax_email u, ax_username u)) (at_users d) \<Longrightarrow>
   at_ids d' = at_ids d \<Longrightarrow> at_seq d \<le> at_seq d' \<Longrightarrow> users_sound d'"
proof -
  assume u: "users_sound d" and m: "map (\<lambda>u. (ax_id u, ax_email u, ax_username u)) (at_users d') = map (\<lambda>u. (ax_id u, ax_email u, ax_username u)) (at_users d)"
    and f: "at_ids d' = at_ids d" "at_seq d \<le> at_seq d'"
  from arg_cong [OF m, of "map fst"] arg_cong [OF m, of "map (fst o snd)"] arg_cong [OF m, of "map (snd o snd)"]
  have "map ax_id (at_users d') = map ax_id (at_users d)" "map ax_email (at_users d') = map ax_email (at_users d)"
    "map ax_username (at_users d') = map ax_username (at_users d)" by (simp_all add: o_def)
  with u f show "users_sound d'" unfolding users_sound_def by (simp add: fresh_ids_later [of d])
qed

lemma sessions_sound_cong:
  "sessions_sound d \<Longrightarrow> at_sessions d' = at_sessions d \<Longrightarrow> at_ids d' = at_ids d \<Longrightarrow> at_seq d \<le> at_seq d' \<Longrightarrow> sessions_sound d'"
  by (simp add: sessions_sound_def fresh_ids_later [of d])

lemma resets_sound_cong:
  "resets_sound d \<Longrightarrow> at_resets d' = at_resets d \<Longrightarrow> at_ids d' = at_ids d \<Longrightarrow> at_seq d \<le> at_seq d' \<Longrightarrow> resets_sound d'"
  by (simp add: resets_sound_def open_resets_def fresh_ids_later [of d])

lemmas step_defs = create_account_def new_user_def mark_verified_def drop_verifications_def open_verification_def delete_verification_def
  open_reset_def use_reset_def create_session_def store_refresh_hash_def touch_login_def Let_def

lemma users_sound_create:
  assumes "users_sound d" and "create_account env now x d = Inr (u, d')"
  shows "users_sound d'"
proof -
  have d': "at_users d' = at_users d @ [u]" "at_ids d' = at_ids d" "at_seq d' = Suc (Suc (at_seq d))" "ax_id u = next_id d"
    and n: "lookup_by ax_email (ax_email u) (at_users d) = None" "lookup_by ax_username (ax_username u) (at_users d) = None"
    using assms(2) by (auto simp: step_defs result_simps)
  from assms(1) have f: "fresh_ids d (map ax_id (at_users d))" by (simp add: users_sound_def)
  have "fresh_ids d' (map ax_id (at_users d) @ [next_id d])" by (rule fresh_ids_snoc [OF f]) (simp_all add: d')
  with assms(1) n fresh_ids_next [OF f] show ?thesis by (simp add: users_sound_def d' lookup_by_None)
qed

interpretation users_kept: kept_by_steps env users_sound for env
proof unfold_locales
  fix d d' :: auth_tables and now x u
  assume "users_sound d" "create_account env now x d = Inr (u, d')"
  then show "users_sound d'" by (rule users_sound_create)
qed (auto elim!: users_sound_cong simp: step_defs result_simps update_by_def update_where_def)


lemma distinct_update_by:
  assumes "distinct (map key t)" and "distinct (map col t)" and "\<And>r. key (f r) = key r" and "\<And>r. col (f r) = h"
    and "\<And>r. r \<in> set t \<Longrightarrow> key r \<noteq> k \<Longrightarrow> col r \<noteq> h"
  shows "distinct (map col (update_by key k f t))"
  using assms(1,2,5)
proof (induction t)
  case Nil
  then show ?case by (simp add: update_by_def update_where_def)
next
  case (Cons r t)
  have u: "update_by key k f (r # t) = (if key r = k then f r else r) # update_by key k f t" by (simp add: update_by_def update_where_def)
  have IH: "distinct (map col (update_by key k f t))" using Cons by simp
  show ?case
  proof (cases "key r = k")
    case True
    then have "k \<notin> key ` set t" using Cons.prems(1) by auto
    then have t: "update_by key k f t = t" by (simp add: update_by_absent lookup_by_None)
    have "h \<notin> col ` set t"
    proof
      assume "h \<in> col ` set t"
      then obtain r' where "r' \<in> set t" "col r' = h" by blast
      moreover have "key r' \<in> key ` set t" using \<open>r' \<in> set t\<close> by (rule imageI)
      then have "key r' \<noteq> k" using Cons.prems(1) True by auto
      ultimately show False using Cons.prems(3) [of r'] by simp
    qed
    with Cons.prems(2) show ?thesis by (simp add: u True t assms(4))
  next
    case False
    then have "col r \<noteq> h" using Cons.prems(3) by simp
    then have "col r \<notin> col ` set (update_by key k f t)"
      using Cons.prems(2) by (auto simp: set_update_by assms(4) split: if_splits)
    with IH False show ?thesis by (simp add: u)
  qed
qed

lemma sessions_sound_create:
  assumes "sessions_sound d" and "create_session now i c l d = Inr (j, d')"
  shows "sessions_sound d'"
proof -
  obtain q where q: "at_sessions d' = at_sessions d @ [q]" "ss_id q = next_id d" "ss_hash q = ''pending''" "ss_active q" "ss_revoked q = None"
    and d': "at_ids d' = at_ids d" "at_seq d' = Suc (at_seq d)" and n: "lookup_by ss_hash ''pending'' (at_sessions d) = None"
    using assms(2) by (auto simp: step_defs result_simps)
  from assms(1) have f: "fresh_ids d (map ss_id (at_sessions d))" by (simp add: sessions_sound_def)
  have "fresh_ids d' (map ss_id (at_sessions d) @ [next_id d])" by (rule fresh_ids_snoc [OF f]) (simp_all add: d')
  with assms(1) n fresh_ids_next [OF f] show ?thesis by (simp add: sessions_sound_def q lookup_by_None)
qed

lemma sessions_sound_update:
  assumes "sessions_sound d" and "at_sessions d' = update_where P f (at_sessions d)" and "at_ids d' = at_ids d" and "at_seq d \<le> at_seq d'"
    and "\<And>q. ss_id (f q) = ss_id q" and "\<And>q. ss_hash (f q) = ss_hash q" and "\<And>q. ss_active (f q) = (ss_revoked (f q) = None)"
  shows "sessions_sound d'"
proof -
  have "map ss_id (at_sessions d') = map ss_id (at_sessions d)" "map ss_hash (at_sessions d') = map ss_hash (at_sessions d)"
    by (auto simp: assms(2,5,6) update_where_def)
  moreover have "list_all (\<lambda>q. ss_active q = (ss_revoked q = None)) (at_sessions d')"
    using assms(1,7) by (auto simp: sessions_sound_def assms(2) update_where_def list_all_iff)
  ultimately show ?thesis using assms(1,3,4) by (simp add: sessions_sound_def fresh_ids_later [of d])
qed

lemma sessions_sound_store:
  assumes "sessions_sound d" and "touch \<in> {\<lambda>q. q, \<lambda>q. q\<lparr>ss_used := now\<rparr>}" and "store_refresh_hash env i t touch d = Inr (r, d')"
  shows "sessions_sound d'"
proof -
  let ?h = "ae_hash env (at_seq d) t"
  have d': "at_sessions d' = update_by ss_id i (\<lambda>q. touch (q\<lparr>ss_hash := ?h\<rparr>)) (at_sessions d)" "at_ids d' = at_ids d"
    "at_seq d' = Suc (at_seq d)" and h: "hash_free i ?h d"
    using assms(3) by (auto simp: step_defs result_simps)
  have touch: "ss_id (touch q) = ss_id q" "ss_hash (touch q) = ss_hash q" "ss_active (touch q) = ss_active q" "ss_revoked (touch q) = ss_revoked q" for q
    using assms(2) by auto
  have "map ss_id (at_sessions d') = map ss_id (at_sessions d)" by (auto simp: d' touch update_by_def update_where_def)
  moreover have "distinct (map ss_hash (at_sessions d'))" unfolding d'
    by (rule distinct_update_by [where h = ?h]) (use assms(1) h in \<open>auto simp: sessions_sound_def touch hash_free_def list_all_iff\<close>)
  moreover have "list_all (\<lambda>q. ss_active q = (ss_revoked q = None)) (at_sessions d')"
    using assms(1) by (auto simp: d' sessions_sound_def list_all_iff set_update_by touch split: if_splits)
  ultimately show ?thesis using assms(1) by (simp add: sessions_sound_def fresh_ids_later [of d] d')
qed

interpretation sessions_kept: kept_by_steps env sessions_sound for env
proof unfold_locales
  fix d d' :: auth_tables and now i c l j
  assume "sessions_sound d" "create_session now i c l d = Inr (j, d')"
  then show "sessions_sound d'" by (rule sessions_sound_create)
next
  fix d d' :: auth_tables and touch now i t r
  assume "sessions_sound d" "touch \<in> {\<lambda>q. q, \<lambda>q. q\<lparr>ss_used := now\<rparr>}" "store_refresh_hash env i t touch d = Inr (r, d')"
  then show "sessions_sound d'" by (rule sessions_sound_store)
next
  fix d d' :: auth_tables and now p q r
  assume "sessions_sound d" "use_reset env now p q d = Inr (r, d')"
  then show "sessions_sound d'"
    by (intro sessions_sound_update [of d d' "\<lambda>s. ss_user s = pr_user q \<and> ss_active s" "\<lambda>s. s\<lparr>ss_active := False, ss_revoked := Some now\<rparr>"])
      (auto simp: step_defs result_simps)
next
  fix d :: auth_tables and P now
  assume "sessions_sound d"
  then show "sessions_sound (d\<lparr>at_sessions := update_where P (revoke now) (at_sessions d)\<rparr>)"
    by (rule sessions_sound_update [where P = P and f = "revoke now"]) (simp_all add: revoke_def)
qed (auto elim!: sessions_sound_cong simp: step_defs result_simps)

text \<open>A new reset link spends the open ones of the user before it is made.\<close>

lemma open_resets_spend:
  "filter (\<lambda>r. pr_user r = i \<and> pr_used r = None) (spend_resets now j rs) =
     (if i = j then [] else filter (\<lambda>r. pr_user r = i \<and> pr_used r = None) rs)"
  by (induction rs) (auto simp: spend_resets_def update_where_def)

lemma spend_resets_columns: "map pr_id (spend_resets now j rs) = map pr_id rs" "map pr_token (spend_resets now j rs) = map pr_token rs"
  by (auto simp: spend_resets_def update_where_def)

lemma resets_sound_open:
  assumes "resets_sound d" and "open_reset env now i d = Inr (r, d')"
  shows "resets_sound d'"
proof -
  obtain q where q: "at_resets d' = spend_resets now i (at_resets d) @ [q]" "pr_id q = next_id d" "pr_user q = i"
    and d': "at_ids d' = at_ids d" "at_seq d' = Suc (at_seq d)" and n: "lookup_by pr_token (pr_token q) (at_resets d) = None"
    using assms(2) by (auto simp: open_reset_def Let_def result_simps)
  from assms(1) have f: "fresh_ids d (map pr_id (at_resets d))" by (simp add: resets_sound_def)
  have "fresh_ids d' (map pr_id (at_resets d) @ [next_id d])" by (rule fresh_ids_snoc [OF f]) (simp_all add: d')
  moreover have "List.length (open_resets k d') \<le> 1" for k
    using assms(1) by (auto simp: open_resets_def q open_resets_spend resets_sound_def)
  ultimately show ?thesis using assms(1) n fresh_ids_next [OF f]
    by (simp add: resets_sound_def q spend_resets_columns lookup_by_None del: map_append) (simp add: spend_resets_columns q)
qed

lemma length_filter_update:
  "(\<And>x. \<not> P (f x)) \<Longrightarrow> List.length (filter P (update_where Q f rs)) \<le> List.length (filter P rs)"
  by (induction rs) (auto simp: update_where_def)

lemma resets_sound_use:
  assumes "resets_sound d" and "use_reset env now p q d = Inr (r, d')"
  shows "resets_sound d'"
proof -
  let ?rs = "update_where (\<lambda>x. pr_id x = pr_id q \<and> pr_used x = None \<and> now < pr_expires x) (\<lambda>x. x\<lparr>pr_used := Some now\<rparr>) (at_resets d)"
  have d': "at_resets d' = spend_resets now (pr_user q) ?rs" "at_ids d' = at_ids d" "at_seq d' = Suc (at_seq d)"
    using assms(2) by (auto simp: use_reset_def Let_def result_simps)
  have m: "map pr_id (at_resets d') = map pr_id (at_resets d)" "map pr_token (at_resets d') = map pr_token (at_resets d)"
    by (auto simp: d' spend_resets_columns) (auto simp: update_where_def)
  have "List.length (filter (\<lambda>x. pr_user x = k \<and> pr_used x = None) ?rs) \<le> List.length (open_resets k d)" for k
    unfolding open_resets_def by (rule length_filter_update) simp
  then have "List.length (open_resets k d') \<le> 1" for k
    using assms(1) order_trans by (fastforce simp: open_resets_def d' open_resets_spend resets_sound_def)
  with assms(1) m show ?thesis by (simp add: resets_sound_def fresh_ids_later [of d] d')
qed

interpretation resets_kept: kept_by_steps env resets_sound for env
proof unfold_locales
  fix d d' :: auth_tables and now i r
  assume "resets_sound d" "open_reset env now i d = Inr (r, d')"
  then show "resets_sound d'" by (rule resets_sound_open)
next
  fix d d' :: auth_tables and now p q r
  assume "resets_sound d" "use_reset env now p q d = Inr (r, d')"
  then show "resets_sound d'" by (rule resets_sound_use)
qed (auto elim!: resets_sound_cong simp: step_defs result_simps)


section \<open>Refresh\<close>

text \<open>A hash matches the text it was made of and no other.\<close>

definition hashing :: "auth_env \<Rightarrow> bool" where
  "hashing env \<longleftrightarrow> (\<forall>n t t'. ae_matches env (ae_hash env n t) t' \<longleftrightarrow> t' = t)"

text \<open>What is signed is read back for as long as tokens of the kind live.\<close>

definition signing_lives :: "auth_env \<Rightarrow> (token_kind \<Rightarrow> nat) \<Rightarrow> bool" where
  "signing_lives env life \<longleftrightarrow> (\<forall>c now t. now \<le> t \<longrightarrow> t < now + life (tk_kind c) \<longrightarrow>
     ae_read env (tk_kind c) t (ae_sign env (tk_kind c) now c) = Claims c)"

lemma read_generated:
  assumes "signing_lives env life" and "now \<le> t" and "t < now + life k"
  shows "ae_read env k t (generate_token env k now i e sid c) =
    Claims \<lparr>tk_kind = k, tk_sub = i, tk_email = e, tk_session = Some sid, tk_client = Some c\<rparr>"
proof -
  let ?c = "\<lparr>tk_kind = k, tk_sub = i, tk_email = e, tk_session = Some sid, tk_client = Some c\<rparr>"
  have "ae_read env (tk_kind ?c) t (ae_sign env (tk_kind ?c) now ?c) = Claims ?c"
    using assms unfolding signing_lives_def by (elim allE [of _ ?c] allE [of _ now] allE [of _ t]) simp
  then show ?thesis by (simp add: generate_token_def)
qed

lemma find_latest: "find P (latest_first qs) = Some q \<Longrightarrow> q \<in> set qs \<and> P q"
  using find_SomeD [of P "latest_first qs" q] by (simp add: latest_first_def)

lemma hd_latest:
  assumes "latest_first qs = q # rest"
  shows "q \<in> set qs"
proof -
  have "q \<in> set (latest_first qs)" unfolding assms by simp
  then show ?thesis by (simp add: latest_first_def)
qed

lemma refreshed_session_live:
  assumes "refreshed_session env now token tc client d = Some q"
  shows "q \<in> set (at_sessions d)" and "live_session now (checked_sub tc) client q"
proof -
  let ?qs = "latest_first (filter (live_session now (checked_sub tc) client) (at_sessions d))"
  let ?i = "case checked_session tc of None \<Rightarrow> None
     | Some i \<Rightarrow> find (\<lambda>q. ss_id q = i \<and> live_session now (checked_sub tc) client q) (at_sessions d)"
  have "q \<in> set (at_sessions d) \<and> live_session now (checked_sub tc) client q"
  proof (cases ?i)
    case (Some r)
    with assms have "?i = Some q" by (simp add: refreshed_session_def)
    then obtain i where "find (\<lambda>q. ss_id q = i \<and> live_session now (checked_sub tc) client q) (at_sessions d) = Some q"
      by (cases "checked_session tc") simp_all
    from find_SomeD [OF this] show ?thesis by blast
  next
    case none: None
    show ?thesis
    proof (cases "find (\<lambda>q. ae_matches env (ss_hash q) token) ?qs")
      case (Some r)
      with assms none have "find (\<lambda>q. ae_matches env (ss_hash q) token) ?qs = Some q" by (simp add: refreshed_session_def)
      from find_latest [OF this] show ?thesis by simp
    next
      case None
      with assms none obtain rest where "?qs = q # rest" by (cases ?qs) (simp_all add: refreshed_session_def)
      from hd_latest [OF this] show ?thesis by simp
    qed
  qed
  then show "q \<in> set (at_sessions d)" and "live_session now (checked_sub tc) client q" by blast+
qed

lemma refresh_cookie_set:
  "t \<noteq> [] \<Longrightarrow> refresh_cookie (Some c) (set_refresh_cookie c (Some t) jar) = Some t"
  "t \<noteq> [] \<Longrightarrow> refresh_cookie None (set_refresh_cookie UserClient (Some t) jar) = Some t"
  by (simp_all add: refresh_cookie_def set_refresh_cookie_def)

text \<open>What a refresh that succeeds has found and written.\<close>

lemma refresh_with_Inr:
  assumes "refresh_with env now expected token d = Inr ((a, token'), d')"
  obtains q where "q \<in> set (at_sessions d)"
    and "live_session now (checked_sub (ae_read env RefreshToken now token)) (case expected of None \<Rightarrow> UserClient | Some c \<Rightarrow> c) q"
    and "ae_matches env (ss_hash q) token"
    and "at_sessions d' = update_by ss_id (ss_id q) (\<lambda>q. q\<lparr>ss_hash := ae_hash env (at_seq d) token', ss_used := now\<rparr>) (at_sessions d)"
    and "at_users d' = at_users d" and "at_ids d' = at_ids d"
proof -
  from assms obtain q u where s: "refreshed_session env now token (ae_read env RefreshToken now token)
      (case expected of None \<Rightarrow> UserClient | Some c \<Rightarrow> c) d = Some q"
    and m: "ae_matches env (ss_hash q) token"
    and w: "store_refresh_hash env (ss_id q) token' (\<lambda>q. q\<lparr>ss_used := now\<rparr>) d = Inr ((), d')"
    by (auto simp: refresh_with_def result_simps Let_def)
  show thesis
    by (rule that [OF refreshed_session_live [OF s] m]) (use w in \<open>auto simp: store_refresh_hash_def result_simps Let_def\<close>)
qed


lemma refresh_Inr:
  assumes "refresh env now expected (s, jar) = ((s1, jar1), Inr a)"
  obtains t t' d' where "refresh_cookie expected jar = Some t" and "refresh_with env now expected t (au_db s) = Inr ((a, t'), d')"
    and "s1 = with_db d' s" and "refresh_cookie expected jar1 = (if t' = [] then None else Some t')"
  using assms
  by (auto simp: refresh_def db_step_def refresh_cookie_def set_refresh_cookie_def split: option.splits sum.splits prod.splits)

lemma refresh_Inl:
  assumes "\<And>t r. refresh_cookie expected jar = Some t \<Longrightarrow> refresh_with env now expected t (au_db s) \<noteq> Inr r"
  shows "\<exists>e. snd (refresh env now expected (s, jar)) = Inl e"
  using assms by (auto simp: refresh_def db_step_def split: option.split sum.split)

text \<open>A token that no live session of the client carries cannot be refreshed.\<close>

lemma refresh_without_session:
  assumes "\<And>q. q \<in> set (at_sessions d) \<Longrightarrow> ss_active q \<Longrightarrow> \<not> ae_matches env (ss_hash q) t"
  shows "refresh_with env now expected t d \<noteq> Inr r"
proof
  assume r: "refresh_with env now expected t d = Inr r"
  obtain a t' d' where "r = ((a, t'), d')" by (metis surj_pair)
  with r have "refresh_with env now expected t d = Inr ((a, t'), d')" by simp
  then obtain q where "q \<in> set (at_sessions d)" "ae_matches env (ss_hash q) t" "ss_active q"
    by (rule refresh_with_Inr) (simp add: live_session_def)
  with assms show False by blast
qed

section \<open>Properties\<close>

text \<open>C11: Every sequence of requests, successful or failing, from any browsers, keeps the accounts sound: no two
  users share an identifier, an address or a name, no two sessions a refresh hash, a session is
  active exactly when it is not revoked, and a user has at most one open reset link.\<close>

theorem auth_requests_keep_sound:
  assumes "users_sound (au_db s)" and "sessions_sound (au_db s)" and "resets_sound (au_db s)"
  shows "users_sound (au_db (fold (perform_auth env) es s)) \<and> sessions_sound (au_db (fold (perform_auth env) es s)) \<and>
     resets_sound (au_db (fold (perform_auth env) es s))"
  using users_kept.sequence_keeps [OF assms(1)] sessions_kept.sequence_keeps [OF assms(2)] resets_kept.sequence_keeps [OF assms(3)]
  by blast

text \<open>C19: A refresh succeeds only with the token that a live session of its application carries, and the session
  carries the new token afterwards. When the new token is another text and no token belongs to two
  sessions, the old one is refused at any later time in the state that the refresh leaves.\<close>

theorem refresh_rotates:
  assumes "hashing env" and "sessions_sound (au_db s)"
    and "refresh env now expected (s, jar) = ((s1, jar1), Inr a)" and "refresh_cookie expected jar1 \<noteq> refresh_cookie expected jar"
    and "\<And>q q' t. q \<in> set (at_sessions (au_db s)) \<Longrightarrow> q' \<in> set (at_sessions (au_db s)) \<Longrightarrow>
      ae_matches env (ss_hash q) t \<Longrightarrow> ae_matches env (ss_hash q') t \<Longrightarrow> q = q'"
  shows "(\<exists>q\<in>set (at_sessions (au_db s)). \<exists>t. refresh_cookie expected jar = Some t \<and> ae_matches env (ss_hash q) t \<and>
       live_session now None (case expected of None \<Rightarrow> UserClient | Some c \<Rightarrow> c) q) \<and>
     (\<exists>e. snd (refresh env later expected (s1, jar)) = Inl e)"
proof -
  from assms(3) obtain t t' d' where c: "refresh_cookie expected jar = Some t" and r: "refresh_with env now expected t (au_db s) = Inr ((a, t'), d')"
    and s1: "s1 = with_db d' s" and c1: "refresh_cookie expected jar1 = (if t' = [] then None else Some t')"
    by (rule refresh_Inr)
  from r obtain q where q: "q \<in> set (at_sessions (au_db s))"
    and live: "live_session now (checked_sub (ae_read env RefreshToken now t)) (case expected of None \<Rightarrow> UserClient | Some c \<Rightarrow> c) q"
    and m: "ae_matches env (ss_hash q) t"
    and d': "at_sessions d' = update_by ss_id (ss_id q)
      (\<lambda>q. q\<lparr>ss_hash := ae_hash env (at_seq (au_db s)) t', ss_used := now\<rparr>) (at_sessions (au_db s))"
    by (rule refresh_with_Inr)
  have "t \<noteq> []" using c by (auto simp: refresh_cookie_def split: option.splits if_splits)
  with c c1 assms(4) have t': "t' \<noteq> t" by auto
  have "\<not> ae_matches env (ss_hash x) t" if x: "x \<in> set (at_sessions d')" for x
  proof -
    from x obtain y where y: "y \<in> set (at_sessions (au_db s))"
      and xy: "x = (if ss_id y = ss_id q then y\<lparr>ss_hash := ae_hash env (at_seq (au_db s)) t', ss_used := now\<rparr> else y)"
      unfolding d' set_update_by by blast
    show ?thesis
    proof (cases "ss_id y = ss_id q")
      case True
      with xy t' assms(1) show ?thesis by (simp add: hashing_def)
    next
      case False
      with assms(5) [OF y q _ m] xy show ?thesis by auto
    qed
  qed
  then have "\<exists>e. snd (refresh env later expected (s1, jar)) = Inl e"
    by (intro refresh_Inl refresh_without_session) (auto simp: s1 c)
  moreover have "live_session now None (case expected of None \<Rightarrow> UserClient | Some c \<Rightarrow> c) q"
    using live by (simp add: live_session_def where_column_def)
  ultimately show ?thesis using q c m by blast
qed


section \<open>Witnesses\<close>

text \<open>
  A token service that can be computed: fields are packed with their length, the time of signing comes
  first.
\<close>

definition pack :: "string \<Rightarrow> string" where
  "pack s = replicate (List.length s) CHR ''1'' @ CHR ''0'' # s"

definition unpack :: "string \<Rightarrow> string \<times> string" where
  "unpack xs = (let n = List.length (takeWhile (\<lambda>c. c = CHR ''1'') xs) in (take n (drop (Suc n) xs), drop (Suc n + n) xs))"

lemma takeWhile_replicate_Cons: "P x \<Longrightarrow> \<not> P y \<Longrightarrow> takeWhile P (replicate n x @ y # r) = replicate n x"
  by (induction n) auto

lemma unpack_pack [simp]: "unpack (pack s @ r) = (s, r)"
  by (simp add: unpack_def pack_def takeWhile_replicate_Cons Let_def)

lemma unpack_pack_end [simp]: "unpack (pack s) = (s, [])"
  using unpack_pack [of s "[]"] by simp

definition option_text :: "string option \<Rightarrow> string" where
  "option_text x = (case x of None \<Rightarrow> [] | Some s \<Rightarrow> CHR ''x'' # s)"

definition text_option :: "string \<Rightarrow> string option" where
  "text_option s = (case s of [] \<Rightarrow> None | _ # r \<Rightarrow> Some r)"

lemma text_option_text [simp]: "text_option (option_text x) = x"
  by (cases x) (simp_all add: text_option_def option_text_def)

definition client_of_name :: "string \<Rightarrow> auth_client" where
  "client_of_name s = (if s = ''USER'' then UserClient else if s = ''ORGANIZATION_ADMIN'' then OrganizationClient else PlatformClient)"

lemma client_of_name [simp]: "client_of_name (client_name c) = c"
  by (cases c) (simp_all add: client_of_name_def client_name_def)

definition claims_text :: "claims \<Rightarrow> string" where
  "claims_text c = pack (case tk_kind c of AccessToken \<Rightarrow> ''a'' | RefreshToken \<Rightarrow> ''r'') @ pack (tk_sub c) @ pack (tk_email c) @
     pack (option_text (tk_session c)) @ pack (option_text (map_option client_name (tk_client c))) @ []"

definition text_claims :: "string \<Rightarrow> claims" where
  "text_claims s =
     (case unpack s of (k, s1) \<Rightarrow> case unpack s1 of (i, s2) \<Rightarrow> case unpack s2 of (e, s3) \<Rightarrow>
      case unpack s3 of (q, s4) \<Rightarrow> case unpack s4 of (c, _) \<Rightarrow>
      \<lparr>tk_kind = (if k = ''a'' then AccessToken else RefreshToken), tk_sub = i, tk_email = e, tk_session = text_option q,
       tk_client = map_option client_of_name (text_option c)\<rparr>)"

lemma text_claims_text: "text_claims (claims_text c) = c"
proof -
  have "map_option client_of_name (map_option client_name x) = x" for x by (cases x) simp_all
  then show ?thesis by (cases c; cases "tk_kind c") (simp_all add: claims_text_def text_claims_def)
qed

definition sample_sign :: "token_kind \<Rightarrow> nat \<Rightarrow> claims \<Rightarrow> string" where
  "sample_sign k now c = pack (replicate now CHR ''t'') @ claims_text c"

definition sample_read :: "token_kind \<Rightarrow> nat \<Rightarrow> string \<Rightarrow> token_check" where
  "sample_read k now s =
     (let c = text_claims (snd (unpack s))
      in if tk_kind c = k \<and> s = pack (fst (unpack s)) @ claims_text c then Claims c else InvalidToken)"

definition sample_auth_env :: auth_env where
  "sample_auth_env = \<lparr>ae_hash = (\<lambda>n t. CHR ''h'' # t), ae_matches = (\<lambda>h t. h = CHR ''h'' # t), ae_digest = (\<lambda>t. CHR ''d'' # t),
     ae_sign = sample_sign, ae_read = sample_read, ae_max_attempts = 2, ae_window = 15\<rparr>"

lemma sample_hashing: "hashing sample_auth_env"
  by (auto simp: hashing_def sample_auth_env_def)

lemma sample_signing: "signing_lives sample_auth_env life"
  by (simp add: signing_lives_def sample_auth_env_def sample_read_def sample_sign_def text_claims_text)

lemma sample_sign_time: "sample_sign k n c = sample_sign k' m c' \<Longrightarrow> n = m"
proof -
  assume "sample_sign k n c = sample_sign k' m c'"
  from arg_cong [OF this, of "\<lambda>s. List.length (fst (unpack s))"] show ?thesis by (simp add: sample_sign_def)
qed

definition sample_user :: "user_status \<Rightarrow> account_user" where
  "sample_user st = \<lparr>ax_id = ''u'', ax_email = ''e'', ax_username = ''n'', ax_password = ''hp'', ax_verified = True, ax_status = st, ax_last_login = None\<rparr>"

definition sample_session :: "ident \<Rightarrow> auth_client \<Rightarrow> string \<Rightarrow> login_session" where
  "sample_session i c h = \<lparr>ss_id = i, ss_user = ''u'', ss_hash = h, ss_expires = 1000, ss_active = True, ss_revoked = None, ss_client = c, ss_used = 0\<rparr>"

definition sample_auth :: "login_session list \<Rightarrow> password_reset list \<Rightarrow> auth_state" where
  "sample_auth qs rs = \<lparr>au_db = \<lparr>at_ids = sample_ids, at_random = sample_ids, at_seq = 0, at_users = [sample_user UserActive],
     at_profiles = [\<lparr>pf_user = ''u'', pf_status = Verified\<rparr>], at_sessions = qs, at_verifications = [], at_resets = rs,
     at_admins = [\<lparr>ad_user = ''u'', ad_status = AdminActive, ad_type = PLATFORM_ADMIN, ad_organization = None, ad_institution = None,
       ad_faculty = None, ad_department = None\<rparr>]\<rparr>, au_counters = Map.empty, au_profiles = Map.empty\<rparr>"

definition no_cookies :: cookie_jar where
  "no_cookies = \<lparr>cj_access = None, cj_refresh = (\<lambda>_. None)\<rparr>"

lemma sample_auth_fresh: "list_all (\<lambda>k. List.length k < 3) ks \<Longrightarrow> fresh_ids (au_db (sample_auth qs rs)) ks"
  using sample_ids_inj by (fastforce simp: fresh_ids_def sample_auth_def list_all_iff)

lemma sample_users_sound: "users_sound (au_db (sample_auth qs rs))"
  using sample_auth_fresh [of "[''u'']" qs rs] by (simp add: users_sound_def sample_auth_def sample_user_def)

lemma sample_sessions_sound:
  "list_all (\<lambda>q. List.length (ss_id q) < 3 \<and> ss_active q = (ss_revoked q = None)) qs \<Longrightarrow> distinct (map ss_id qs) \<Longrightarrow>
   distinct (map ss_hash qs) \<Longrightarrow> sessions_sound (au_db (sample_auth qs rs))"
  using sample_auth_fresh [of "map ss_id qs" qs rs] by (simp add: sessions_sound_def sample_auth_def list_all_iff)

definition sample_reset :: password_reset where
  "sample_reset = \<lparr>pr_id = ''r'', pr_user = ''u'', pr_token = ''dt'', pr_expires = 1000, pr_used = None\<rparr>"

lemma sample_resets_sound: "resets_sound (au_db (sample_auth qs [sample_reset]))"
  using sample_auth_fresh [of "[''r'']" qs "[sample_reset]"]
  by (simp add: resets_sound_def sample_auth_def sample_reset_def open_resets_def)

theorem auth_requests_keep_sound_witness:
  "users_sound (au_db (perform_auth sample_auth_env (LogoutAll 3, no_cookies) (perform_auth sample_auth_env (Login 2 ''ip'' ''e'' ''p'', no_cookies)
     (sample_auth [sample_session ''q'' UserClient ''h1''] [sample_reset]))))"
  using auth_requests_keep_sound [of "sample_auth [sample_session ''q'' UserClient ''h1''] [sample_reset]" sample_auth_env
      "[(Login 2 ''ip'' ''e'' ''p'', no_cookies), (LogoutAll 3, no_cookies)]"]
  by (simp add: sample_users_sound sample_resets_sound sample_sessions_sound sample_session_def)

text \<open>A session whose refresh token was signed at the time 0 and whose cookie is in the browser.\<close>

definition sample_token :: "token_kind \<Rightarrow> nat \<Rightarrow> string" where
  "sample_token k now = generate_token sample_auth_env k now ''u'' ''e'' ''q'' UserClient"

definition sample_jar :: "string \<Rightarrow> cookie_jar" where
  "sample_jar t = set_refresh_cookie UserClient (Some t) no_cookies"

definition sample_login :: auth_state where
  "sample_login = sample_auth [sample_session ''q'' UserClient (CHR ''h'' # sample_token RefreshToken 0)] [sample_reset]"

lemma sample_token_sign: "sample_token k now = sample_sign k now
   \<lparr>tk_kind = k, tk_sub = ''u'', tk_email = ''e'', tk_session = Some ''q'', tk_client = Some UserClient\<rparr>"
  by (simp add: sample_token_def generate_token_def sample_auth_env_def)

lemma sample_token_distinct: "n \<noteq> m \<Longrightarrow> sample_token k n \<noteq> sample_token k m"
  unfolding sample_token_sign using sample_sign_time by blast

lemma sample_token_not_Nil [simp]: "sample_token k n \<noteq> []"
  by (simp add: sample_token_sign sample_sign_def pack_def)

lemma sample_login_sound: "users_sound (au_db sample_login)" "sessions_sound (au_db sample_login)" "resets_sound (au_db sample_login)"
  by (simp_all add: sample_login_def sample_users_sound sample_resets_sound sample_sessions_sound sample_session_def)

lemma sample_jar_cookie: "t \<noteq> [] \<Longrightarrow> refresh_cookie None (sample_jar t) = Some t"
  by (simp add: sample_jar_def refresh_cookie_def set_refresh_cookie_def)

lemma sample_read_token: "ae_read sample_auth_env k t (sample_token k now) = Claims
   \<lparr>tk_kind = k, tk_sub = ''u'', tk_email = ''e'', tk_session = Some ''q'', tk_client = Some UserClient\<rparr>"
  by (simp add: sample_token_sign sample_auth_env_def sample_read_def sample_sign_def text_claims_text)

lemma sample_refresh:
  obtains s1 a where "refresh sample_auth_env 5 None (sample_login, sample_jar (sample_token RefreshToken 0)) =
     ((s1, set_refresh_cookie UserClient (Some (sample_token RefreshToken 5))
        ((sample_jar (sample_token RefreshToken 0))\<lparr>cj_access := Some a\<rparr>)), Inr a)"
proof -
  let ?q = "sample_session ''q'' UserClient (CHR ''h'' # sample_token RefreshToken 0)"
  let ?tc = "Claims \<lparr>tk_kind = RefreshToken, tk_sub = ''u'', tk_email = ''e'', tk_session = Some ''q'', tk_client = Some UserClient\<rparr>"
  let ?t = "sample_token RefreshToken 0" and ?d = "au_db sample_login"
  have d: "at_sessions ?d = [?q]" "at_users ?d = [sample_user UserActive]" by (simp_all add: sample_login_def sample_auth_def)
  have "refreshed_session sample_auth_env 5 ?t ?tc UserClient ?d = Some ?q"
    by (simp add: refreshed_session_def checked_session_def checked_sub_def live_session_def where_column_def d sample_session_def)
  moreover have "checked_client ?tc = Some UserClient" by (simp add: checked_client_def)
  moreover have "ae_matches sample_auth_env (ss_hash ?q) ?t" by (simp add: sample_auth_env_def sample_session_def)
  moreover have "get_user ?d (ss_user ?q) = Some (sample_user UserActive)" by (simp add: d sample_session_def sample_user_def lookup_by_Cons)
  moreover have "\<exists>d'. store_refresh_hash sample_auth_env (ss_id ?q) (sample_token RefreshToken 5) (\<lambda>q. q\<lparr>ss_used := 5\<rparr>) ?d = Inr ((), d')"
    by (simp add: store_refresh_hash_def hash_free_def d sample_session_def lookup_by_Cons Let_def result_simps)
  then obtain d' where "store_refresh_hash sample_auth_env (ss_id ?q) (sample_token RefreshToken 5) (\<lambda>q. q\<lparr>ss_used := 5\<rparr>) ?d = Inr ((), d')" ..
  moreover have "generate_token sample_auth_env k 5 (ss_user ?q) (ax_email (sample_user UserActive)) (ss_id ?q) UserClient = sample_token k 5" for k
    by (simp add: sample_token_def sample_session_def sample_user_def)
  ultimately have "refresh_with sample_auth_env 5 None ?t ?d = Inr ((sample_token AccessToken 5, sample_token RefreshToken 5), d')"
    by (simp add: refresh_with_def sample_read_token Let_def andThen_def require_def require_some_def)
  then show thesis using that
    by (auto simp: refresh_def sample_jar_cookie db_step_def)
qed

theorem refresh_rotates_witness:
  "\<exists>s1 jar1 a. refresh sample_auth_env 5 None (sample_login, sample_jar (sample_token RefreshToken 0)) = ((s1, jar1), Inr a) \<and>
     (\<exists>e. snd (refresh sample_auth_env 6 None (s1, sample_jar (sample_token RefreshToken 0))) = Inl e)"
proof -
  let ?jar = "sample_jar (sample_token RefreshToken 0)"
  obtain s1 a where r: "refresh sample_auth_env 5 None (sample_login, ?jar) =
     ((s1, set_refresh_cookie UserClient (Some (sample_token RefreshToken 5)) (?jar\<lparr>cj_access := Some a\<rparr>)), Inr a)"
    by (rule sample_refresh)
  have n: "refresh_cookie None (set_refresh_cookie UserClient (Some (sample_token RefreshToken 5)) (?jar\<lparr>cj_access := Some a\<rparr>))
      \<noteq> refresh_cookie None ?jar"
    using sample_token_distinct [of 5 0 RefreshToken]
    by (simp add: sample_jar_cookie) (simp add: refresh_cookie_def set_refresh_cookie_def)
  have "\<exists>e. snd (refresh sample_auth_env 6 None (s1, ?jar)) = Inl e"
    using refresh_rotates [OF sample_hashing sample_login_sound(2) r n, of 6]
    by (simp add: sample_login_def sample_auth_def)
  with r show ?thesis by blast
qed

end
