(* ===== verification/SessionProperties.thy ===== *)
theory SessionProperties
  imports AuthProperties
begin

text \<open>
  Password reset, logout and login: what they achieve, and the requests that end or block the sessions
  of others.
\<close>

section \<open>Reset and logout\<close>

lemma usable_resetD:
  assumes "usable_reset env now token d = Some r"
  shows "r \<in> set (at_resets d)" and "pr_token r = ae_digest env token" and "pr_used r = None" and "now < pr_expires r"
  using find_SomeD [OF assms [unfolded usable_reset_def]] by blast+

lemma use_resetD:
  assumes "use_reset env now p r d = Inr ((), d')"
  shows "at_resets d' = spend_resets now (pr_user r) (update_where (\<lambda>q. pr_id q = pr_id r \<and> pr_used q = None \<and> now < pr_expires q)
      (\<lambda>q. q\<lparr>pr_used := Some now\<rparr>) (at_resets d))"
    and "at_users d' = update_by ax_id (pr_user r) (\<lambda>u. u\<lparr>ax_password := ae_hash env (at_seq d) p\<rparr>) (at_users d)"
    and "at_sessions d' = update_where (\<lambda>q. ss_user q = pr_user r \<and> ss_active q)
      (\<lambda>q. q\<lparr>ss_active := False, ss_revoked := Some now\<rparr>) (at_sessions d)"
    and "at_profiles d' = at_profiles d" "at_verifications d' = at_verifications d" "at_admins d' = at_admins d"
  using assms by (auto simp: use_reset_def result_simps Let_def)

lemma filter_update_where_other: "(\<And>x. P x \<Longrightarrow> \<not> Q x \<and> \<not> Q (f x)) \<Longrightarrow> filter Q (update_where P f xs) = filter Q xs"
  by (induction xs) (auto simp: update_where_def)

text \<open>What a reset leaves of the rows of the user and of everybody else; of the links only those of the user are spent.\<close>

definition same_for_others :: "ident \<Rightarrow> auth_tables \<Rightarrow> auth_tables \<Rightarrow> bool" where
  "same_for_others i d d' \<longleftrightarrow>
     filter (\<lambda>u. ax_id u \<noteq> i) (at_users d') = filter (\<lambda>u. ax_id u \<noteq> i) (at_users d) \<and>
     filter (\<lambda>q. ss_user q \<noteq> i) (at_sessions d') = filter (\<lambda>q. ss_user q \<noteq> i) (at_sessions d) \<and>
     filter (\<lambda>q. pr_user q \<noteq> i) (at_resets d') = filter (\<lambda>q. pr_user q \<noteq> i) (at_resets d) \<and>
     at_profiles d' = at_profiles d \<and> at_verifications d' = at_verifications d \<and> at_admins d' = at_admins d"

lemma use_reset_others:
  assumes "use_reset env now p r d = Inr ((), d')" and "r \<in> set (at_resets d)" and "distinct (map pr_id (at_resets d))"
  shows "same_for_others (pr_user r) d d'"
proof -
  note W = use_resetD [OF assms(1)]
  have "filter (\<lambda>u. ax_id u \<noteq> pr_user r) (at_users d') = filter (\<lambda>u. ax_id u \<noteq> pr_user r) (at_users d)"
    unfolding W(2) update_by_def by (rule filter_update_where_other) simp
  moreover have "filter (\<lambda>q. ss_user q \<noteq> pr_user r) (at_sessions d') = filter (\<lambda>q. ss_user q \<noteq> pr_user r) (at_sessions d)"
    unfolding W(3) by (rule filter_update_where_other) simp
  moreover have "filter (\<lambda>q. pr_user q \<noteq> pr_user r) (at_resets d') = filter (\<lambda>q. pr_user q \<noteq> pr_user r) (at_resets d)"
  proof -
    have "update_where (\<lambda>q. pr_id q = pr_id r \<and> pr_used q = None \<and> now < pr_expires q) (\<lambda>q. q\<lparr>pr_used := Some now\<rparr>) (at_resets d) =
        update_where (\<lambda>q. pr_user q = pr_user r \<and> pr_id q = pr_id r \<and> pr_used q = None \<and> now < pr_expires q) (\<lambda>q. q\<lparr>pr_used := Some now\<rparr>) (at_resets d)"
      using row_by_key [OF assms(3) _ assms(2)] unfolding update_where_def by (intro map_cong refl if_cong) auto
    then show ?thesis unfolding W(1) spend_resets_def by (simp only:) (rule trans [OF filter_update_where_other filter_update_where_other], simp_all)
  qed
  ultimately show ?thesis using W(4-6) by (simp add: same_for_others_def)
qed

text \<open>A spent link is never usable again, whatever is requested.\<close>

definition spent_link :: "string \<Rightarrow> auth_tables \<Rightarrow> bool" where
  "spent_link t d \<longleftrightarrow> list_ex (\<lambda>r. pr_token r = t \<and> pr_used r \<noteq> None) (at_resets d)"

lemma spent_link_open: "spent_link t d \<Longrightarrow> open_reset env now i d = Inr (r, d') \<Longrightarrow> spent_link t d'"
  by (auto simp: spent_link_def open_reset_def Let_def result_simps spend_resets_def update_where_def list_ex_iff)

lemma spent_link_use: "spent_link t d \<Longrightarrow> use_reset env now p q d = Inr (r, d') \<Longrightarrow> spent_link t d'"
  by (auto simp: spent_link_def use_resetD(1) spend_resets_def update_where_def list_ex_iff)

interpretation spent_kept: kept_by_steps env "\<lambda>d. resets_sound d \<and> spent_link t d" for env t
proof unfold_locales
  fix d d' :: auth_tables and now i r
  assume "resets_sound d \<and> spent_link t d" "open_reset env now i d = Inr (r, d')"
  then show "resets_sound d' \<and> spent_link t d'" using resets_sound_open spent_link_open by blast
next
  fix d d' :: auth_tables and now p q r
  assume "resets_sound d \<and> spent_link t d" "use_reset env now p q d = Inr (r, d')"
  then show "resets_sound d' \<and> spent_link t d'" using resets_sound_use spent_link_use by blast
qed (auto elim!: resets_sound_cong simp: spent_link_def step_defs result_simps)

lemma spent_link_refused:
  assumes "resets_sound d" and "spent_link (ae_digest env token) d"
  shows "usable_reset env now token d = None"
proof -
  from assms(2) obtain x where x: "x \<in> set (at_resets d)" "pr_token x = ae_digest env token" "pr_used x \<noteq> None"
    by (auto simp: spent_link_def list_ex_iff)
  have "pr_used y \<noteq> None" if "y \<in> set (at_resets d)" "pr_token y = ae_digest env token" for y
    using row_by_key [of pr_token "at_resets d" x y] assms(1) x that by (simp add: resets_sound_def)
  then show ?thesis by (auto simp: usable_reset_def find_None_iff)
qed

lemma used_link_spent:
  assumes "use_reset env now p r d = Inr ((), d')" and "r \<in> set (at_resets d)" and "pr_used r = None" and "now < pr_expires r"
  shows "spent_link (pr_token r) d'"
proof -
  have "r\<lparr>pr_used := Some now\<rparr> \<in> set (at_resets d')"
    using assms(2-4) by (auto simp: use_resetD(1) [OF assms(1)] spend_resets_def update_where_def image_iff)
  then show ?thesis unfolding spent_link_def list_ex_iff by (rule bexI [rotated]) simp
qed

text \<open>C25: A password reset that succeeds used an open, unexpired link of an active user. The user then has the
  new password, no session and no open link. Nothing else in the tables changes: the accounts, sessions and
  links of everybody else stay row by row, as do the request counters and all profiles, verifications and
  administrators. And the link is refused at any later time, whatever is requested in between.\<close>

theorem resetPassword_takes_effect:
  assumes "resetPassword env now token p s = (s', Inr ())" and "resets_sound (au_db s)"
  shows "\<exists>r u. usable_reset env now token (au_db s) = Some r \<and> get_user (au_db s) (pr_user r) = Some u \<and> ax_status u = UserActive \<and>
     get_user (au_db s') (pr_user r) = Some (u\<lparr>ax_password := ae_hash env (at_seq (au_db s)) p\<rparr>) \<and>
     (\<forall>q\<in>set (at_sessions (au_db s')). ss_user q = pr_user r \<longrightarrow> \<not> ss_active q) \<and> open_resets (pr_user r) (au_db s') = [] \<and>
     (\<forall>i. i \<noteq> pr_user r \<longrightarrow> get_user (au_db s') i = get_user (au_db s) i) \<and>
     same_for_others (pr_user r) (au_db s) (au_db s') \<and> au_counters s' = au_counters s \<and>
     (\<forall>es later p'. resetPassword env later token p' (fold (perform_auth env) es s') = (fold (perform_auth env) es s', Inl invalid_reset))"
proof -
  from assms(1) obtain r where r: "usable_reset env now token (au_db s) = Some r"
    and st: "map_option ax_status (get_user (au_db s) (pr_user r)) = Some UserActive"
    and w: "use_reset env now p r (au_db s) = Inr ((), au_db s')" and c: "au_counters s' = au_counters s"
    by (auto simp: resetPassword_def result_simps split: option.splits if_splits)
  then obtain u where u: "get_user (au_db s) (pr_user r) = Some u" "ax_status u = UserActive" by auto
  note W = use_resetD [OF w] and R = usable_resetD [OF r]
  have "get_user (au_db s') i = (if i = pr_user r then Some (u\<lparr>ax_password := ae_hash env (at_seq (au_db s)) p\<rparr>) else get_user (au_db s) i)" for i
    by (simp add: W(2) lookup_by_update_by u(1))
  moreover have "\<not> ss_active q" if "q \<in> set (at_sessions (au_db s'))" "ss_user q = pr_user r" for q
    using that by (auto simp: W(3) update_where_def split: if_splits)
  moreover have "open_resets (pr_user r) (au_db s') = []" by (simp add: open_resets_def W(1) open_resets_spend)
  moreover have "same_for_others (pr_user r) (au_db s) (au_db s')"
    using use_reset_others [OF w R(1)] assms(2) by (simp add: resets_sound_def)
  moreover have "resetPassword env later token p' (fold (perform_auth env) es s') = (fold (perform_auth env) es s', Inl invalid_reset)" for es later p'
  proof -
    have "resets_sound (au_db s') \<and> spent_link (ae_digest env token) (au_db s')"
      using resets_sound_use [OF assms(2) w] used_link_spent [OF w R(1,3,4)] R(2) by simp
    from spent_kept.sequence_keeps [OF this, of env es] have "usable_reset env later token (au_db (fold (perform_auth env) es s')) = None"
      using spent_link_refused by blast
    then show ?thesis by (simp add: resetPassword_def)
  qed
  ultimately show ?thesis using r u c by auto
qed

theorem resetPassword_takes_effect_witness:
  "\<exists>s'. resetPassword sample_auth_env 5 ''t'' ''new'' sample_login = (s', Inr ()) \<and> open_resets ''u'' (au_db s') = [] \<and>
     same_for_others ''u'' (au_db sample_login) (au_db s') \<and>
     snd (resetPassword sample_auth_env 6 ''t'' ''other'' (perform_auth sample_auth_env (LogoutAll 5, no_cookies) s')) = Inl invalid_reset"
proof -
  have r: "usable_reset sample_auth_env 5 ''t'' (au_db sample_login) = Some sample_reset"
    by (simp add: usable_reset_def sample_login_def sample_auth_def sample_reset_def sample_auth_env_def)
  have u: "get_user (au_db sample_login) ''u'' = Some (sample_user UserActive)"
    by (simp add: sample_login_def sample_auth_def sample_user_def lookup_by_Cons)
  have "\<exists>s'. resetPassword sample_auth_env 5 ''t'' ''new'' sample_login = (s', Inr ())"
    using r u by (simp add: resetPassword_def sample_reset_def sample_user_def use_reset_def Let_def result_simps)
      (simp add: sample_login_def sample_auth_def sample_reset_def)
  then obtain s' where s': "resetPassword sample_auth_env 5 ''t'' ''new'' sample_login = (s', Inr ())" ..
  from resetPassword_takes_effect [OF s' sample_login_sound(3)] r have e: "open_resets ''u'' (au_db s') = []"
    "same_for_others ''u'' (au_db sample_login) (au_db s')"
    "\<forall>es later p'. resetPassword sample_auth_env later ''t'' p' (fold (perform_auth sample_auth_env) es s') = (fold (perform_auth sample_auth_env) es s', Inl invalid_reset)"
    by (auto simp: sample_reset_def)
  have "snd (resetPassword sample_auth_env 6 ''t'' ''other'' (perform_auth sample_auth_env (LogoutAll 5, no_cookies) s')) = Inl invalid_reset"
    using e(3) [rule_format, of 6 "''other''" "[(LogoutAll 5, no_cookies)]"] by simp
  with s' e(1,2) show ?thesis by blast
qed

text \<open>A refresh token of which only the claims cannot be read, expired or not signed by this service, still
  counts at logout from all devices: without its subject the query has no user, and every session
  of every user ends. Nobody can refresh any more.\<close>

lemma unreadable_token_ends_all_sessions:
  assumes "refresh_cookie None jar = Some token" and "ae_read env RefreshToken now token \<in> {InvalidToken, ExpiredToken}"
    and "sessions_sound (au_db s)"
  shows "\<exists>s'. logoutAll env now (s, jar) = ((s', clearAllCookies jar), Inr ()) \<and>
     (\<forall>q\<in>set (at_sessions (au_db s')). \<not> ss_active q) \<and> (\<forall>later ex jar'. \<exists>e. snd (refresh env later ex (s', jar')) = Inl e)"
proof -
  let ?tc = "ae_read env RefreshToken now token"
  let ?d = "(au_db s)\<lparr>at_sessions := update_where (open_session (checked_sub ?tc) None) (revoke now) (at_sessions (au_db s))\<rparr>"
  let ?s = "forget_checked ?tc (with_db ?d s)"
  have l: "logoutAll env now (s, jar) = ((?s, clearAllCookies jar), Inr ())" using assms(1,2) by (auto simp: logoutAll_def Let_def)
  have "open_session (checked_sub ?tc) None q \<longleftrightarrow> ss_active q" if "q \<in> set (at_sessions (au_db s))" for q
    using assms(2,3) that by (auto simp: open_session_def checked_sub_def where_column_def sessions_sound_def list_all_iff)
  then have off: "\<not> ss_active q" if "q \<in> set (at_sessions (au_db ?s))" for q
    using that by (auto simp: update_where_def revoke_def split: if_splits)
  then have "\<exists>e. snd (refresh env later ex (?s, jar')) = Inl e" for later ex jar'
    by (intro refresh_Inl refresh_without_session) blast
  with l off show ?thesis by blast
qed

lemma unreadable_token_ends_all_sessions_example:
  "\<exists>s'. logoutAll sample_auth_env 9 (sample_login, sample_jar ''junk'') = ((s', clearAllCookies (sample_jar ''junk'')), Inr ()) \<and>
     list_all (\<lambda>q. \<not> ss_active q) (at_sessions (au_db s')) \<and> ss_user (hd (at_sessions (au_db sample_login))) = ''u''"
proof -
  have c: "refresh_cookie None (sample_jar ''junk'') = Some ''junk''" by (simp add: sample_jar_cookie)
  have "ae_read sample_auth_env RefreshToken 9 ''junk'' = InvalidToken"
    by (simp add: sample_auth_env_def sample_read_def pack_def unpack_def Let_def)
  then have "ae_read sample_auth_env RefreshToken 9 ''junk'' \<in> {InvalidToken, ExpiredToken}" by simp
  from unreadable_token_ends_all_sessions [OF c this sample_login_sound(2)] show ?thesis
    by (auto simp: list_all_iff sample_login_def sample_auth_def sample_session_def)
qed

text \<open>With a readable token of an open session a logout ends that session and leaves every other as it is, and
  the session cannot be refreshed again.\<close>

lemma logout_ends_own_session:
  assumes "refresh_cookie expected jar = Some token" and "ae_read env RefreshToken now token = Claims c" and "tk_session c = Some (ss_id q)"
    and "q \<in> set (at_sessions (au_db s))" and "open_session (Some (tk_sub c)) expected q" and "sessions_sound (au_db s)"
    and "bearer \<in> {None, expected}"
  shows "\<exists>s'. logout env now expected bearer (s, jar) = ((s', clear_cookies expected jar), Inr ()) \<and>
     get_session (au_db s') (ss_id q) = Some (revoke now q) \<and>
     (\<forall>i. i \<noteq> ss_id q \<longrightarrow> get_session (au_db s') i = get_session (au_db s) i) \<and> refresh_cookie expected (clear_cookies expected jar) = None"
proof -
  let ?P = "\<lambda>x. ss_id x = ss_id q \<and> open_session (Some (tk_sub c)) expected x"
  have d: "distinct (map ss_id (at_sessions (au_db s)))" using assms(6) by (simp add: sessions_sound_def)
  have "find ?P (at_sessions (au_db s)) \<noteq> None" using assms(4,5) by (auto simp: find_None_iff)
  then obtain x where x: "find ?P (at_sessions (au_db s)) = Some x" by blast
  from find_SomeD [OF x] d assms(4) have xq: "x = q"
    by (metis lookup_by_distinct option.inject)
  let ?d = "(au_db s)\<lparr>at_sessions := update_by ss_id (ss_id q) (revoke now) (at_sessions (au_db s))\<rparr>"
  have l: "logout env now expected bearer (s, jar) = ((forget_checked (Claims c) (with_db ?d s), clear_cookies expected jar), Inr ())"
    using assms(1,2,3,7) x xq by (auto simp: logout_def Let_def logout_session_def checked_session_def checked_sub_def)
  have g: "get_session ?d i = (if i = ss_id q then Some (revoke now q) else get_session (au_db s) i)" for i
    using lookup_by_distinct [OF d assms(4)] by (simp add: lookup_by_update_by revoke_def)
  have "refresh_cookie expected (clear_cookies expected jar) = None"
    by (simp add: refresh_cookie_def clear_cookies_def clearAllCookies_def set_refresh_cookie_def split: option.split)
  with l g show ?thesis by auto
qed


section \<open>Login\<close>

text \<open>While a session carries the placeholder no session can be created, whoever asks.\<close>

lemma start_session_blocked:
  assumes "lookup_by ss_hash ''pending'' (at_sessions (au_db s)) \<noteq> None"
  shows "start_session env now u c l s = (s, Inl unique_violation)"
proof -
  obtain q where "lookup_by ss_hash ''pending'' (at_sessions (au_db s)) = Some q" using assms by blast
  then have "db_step (create_session now (ax_id u) c l) s = (s, Inl unique_violation)"
    by (simp add: create_session_def db_step_def Let_def)
  then show ?thesis by (simp add: start_session_def)
qed

lemma check_credentials_db:
  "au_db (fst (check_credentials env now k i p s)) = au_db s"
  by (simp add: check_credentials_def split: option.split)

lemma check_credentials_Inr:
  "check_credentials env now k i p s = (s', Inr u) \<longleftrightarrow>
     find_login i (au_db s) = Some u \<and> ax_status u = UserActive \<and> ae_matches env (ax_password u) p \<and> s' = s"
  by (cases "find_login i (au_db s)"; cases "ax_status u") (auto simp: check_credentials_def failed_attempt_def)

lemma login_blocked:
  assumes "lookup_by ss_hash ''pending'' (at_sessions (au_db s)) \<noteq> None"
  shows "(\<exists>e. snd (login env now ip i p (s, jar)) = Inl e) \<and> au_db (fst (fst (login env now ip i p (s, jar)))) = au_db s"
proof -
  obtain s1 r where c: "check_credentials env now (login_key ip) i p s = (s1, r)" by (cases "check_credentials env now (login_key ip) i p s")
  then have s1: "au_db s1 = au_db s" using check_credentials_db [of env now "login_key ip" i p s] by simp
  have b: "start_session env now u UserClient l (reset_attempts k s1) = (reset_attempts k s1, Inl unique_violation)" for u l k
    by (rule start_session_blocked) (simp add: s1 assms)
  show ?thesis by (cases r) (auto simp: login_def Let_def c s1 b)
qed

lemma adminLogin_blocked:
  assumes "lookup_by ss_hash ''pending'' (at_sessions (au_db s)) \<noteq> None"
  shows "(\<exists>e. snd (adminLogin env now ip cl i p (s, jar)) = Inl e) \<and> au_db (fst (fst (adminLogin env now ip cl i p (s, jar)))) = au_db s"
proof -
  obtain s1 r where c: "check_credentials env now (admin_key cl ip) i p s = (s1, r)" by (cases "check_credentials env now (admin_key cl ip) i p s")
  then have s1: "au_db s1 = au_db s" using check_credentials_db [of env now "admin_key cl ip" i p s] by simp
  have b: "start_session env now u cl l (reset_attempts k s1) = (reset_attempts k s1, Inl unique_violation)" for u l k
    by (rule start_session_blocked) (simp add: s1 assms)
  have f: "failed_attempt now k m s1 = (fst (failed_attempt now k m s1), Inl (Unauthorized m))" for k m
    by (simp add: failed_attempt_def)
  show ?thesis
    by (cases r) (auto simp: adminLogin_def Let_def c s1 b failed_attempt_def)
qed

datatype login_request =
    UserLogin nat string string string cookie_jar
  | AdminLoginAs auth_client nat string string string cookie_jar

fun try_login :: "auth_env \<Rightarrow> login_request \<Rightarrow> auth_state \<Rightarrow> auth_state \<times> current_user result" where
  "try_login env (UserLogin now ip i p jar) s = map_prod fst id (login env now ip i p (s, jar))"
| "try_login env (AdminLoginAs c now ip i p jar) s = map_prod fst id (adminLogin env now ip c i p (s, jar))"

lemma try_login_blocked:
  assumes "lookup_by ss_hash ''pending'' (at_sessions (au_db s)) \<noteq> None"
  shows "\<exists>s' e. try_login env q s = (s', Inl e) \<and> au_db s' = au_db s"
proof (cases q)
  case (UserLogin now ip i p jar)
  with login_blocked [OF assms, of env now ip i p jar] show ?thesis
    by (cases "login env now ip i p (s, jar)") auto
next
  case (AdminLoginAs c now ip i p jar)
  with adminLogin_blocked [OF assms, of env now ip c i p jar] show ?thesis
    by (cases "adminLogin env now ip c i p (s, jar)") auto
qed

text \<open>The placeholder of a session that is being created is a value of a unique column. When a login stops
  between the two writes of its session, or while another is between them, every later login of
  anybody, to the application or to a dashboard, fails whatever the password, and goes on failing.\<close>

lemma unfinished_login_blocks_everybody:
  assumes "db_step (create_session now i c l) s = (s1, Inr sid)"
  shows "\<exists>s2 e. try_login env q (fold (\<lambda>q s. fst (try_login env q s)) qs s1) = (s2, Inl e)"
proof -
  have p: "lookup_by ss_hash ''pending'' (at_sessions (au_db s1)) \<noteq> None"
    using assms by (auto simp: db_step_Inr create_session_def Let_def result_simps table_simps)
  have "au_db (fold (\<lambda>q s. fst (try_login env q s)) qs s1) = au_db s1" using p
  proof (induction qs arbitrary: s1)
    case Nil
    then show ?case by simp
  next
    case (Cons q qs)
    from try_login_blocked [OF Cons.prems] obtain s' e where "try_login env q s1 = (s', Inl e)" "au_db s' = au_db s1" by blast
    with Cons.IH [of s'] Cons.prems show ?case by simp
  qed
  with p have "lookup_by ss_hash ''pending'' (at_sessions (au_db (fold (\<lambda>q s. fst (try_login env q s)) qs s1))) \<noteq> None" by simp
  from try_login_blocked [OF this] show ?thesis by blast
qed

lemma unfinished_login_blocks_everybody_example:
  "\<exists>s1 sid s2 e. db_step (create_session 5 ''u'' UserClient 1000) sample_login = (s1, Inr sid) \<and>
     try_login sample_auth_env (UserLogin 7 ''ip'' ''e'' ''p'' no_cookies)
       (fst (try_login sample_auth_env (AdminLoginAs PlatformClient 6 ''ip'' ''e'' ''p'' no_cookies) s1)) = (s2, Inl e)"
proof -
  have "lookup_by ss_hash ''pending'' (at_sessions (au_db sample_login)) = None"
    by (simp add: sample_login_def sample_auth_def sample_session_def lookup_by_Cons lookup_by_Nil)
  then have "\<exists>s1 sid. db_step (create_session 5 ''u'' UserClient 1000) sample_login = (s1, Inr sid)"
    by (simp add: create_session_def db_step_def Let_def)
  then obtain s1 sid where s1: "db_step (create_session 5 ''u'' UserClient 1000) sample_login = (s1, Inr sid)" by blast
  from unfinished_login_blocks_everybody [OF this, of sample_auth_env "UserLogin 7 ''ip'' ''e'' ''p'' no_cookies"
      "[AdminLoginAs PlatformClient 6 ''ip'' ''e'' ''p'' no_cookies]"] s1
  show ?thesis by auto
qed

section \<open>Access\<close>

lemma authenticate_cong: "at_users d' = at_users d \<Longrightarrow> authenticate env now t d' = authenticate env now t d"
  by (cases "ae_read env AccessToken now t") (simp_all add: authenticate_def)

lemma authenticate_Inr:
  "authenticate env t token d = Inr (v, client) \<longleftrightarrow>
      (\<exists>c. ae_read env AccessToken t token = Claims c \<and> tk_kind c = AccessToken \<and> get_user d (tk_sub c) = Some v \<and> ax_status v = UserActive \<and>
         client = (case tk_client c of None \<Rightarrow> UserClient | Some x \<Rightarrow> x) \<and> (client = UserClient \<longrightarrow> ax_verified v))"
proof (cases "ae_read env AccessToken t token")
  case (Claims c)
  have "ax_status v = UserActive \<longleftrightarrow> ax_status v \<noteq> UserDeleted \<and> ax_status v \<noteq> UserInactive \<and> ax_status v \<noteq> UserSuspended"
    by (cases "ax_status v") simp_all
  then show ?thesis by (auto simp: authenticate_def Claims result_simps Let_def)
qed (simp_all add: authenticate_def)

text \<open>An access token is accepted exactly when its claims can be read, it is not a refresh token and its user
  exists, is active and, outside the dashboards, has verified the address. The session is not
  looked at: after a logout, a logout everywhere or a revocation the token goes on being accepted.\<close>

lemma access_ignores_sessions:
  assumes "q \<in> {Logout now ex b, LogoutAll now, Revoke now u i}"
  shows "(authenticate env t token d = Inr (v, client) \<longleftrightarrow>
      (\<exists>c. ae_read env AccessToken t token = Claims c \<and> tk_kind c = AccessToken \<and> get_user d (tk_sub c) = Some v \<and> ax_status v = UserActive \<and>
         client = (case tk_client c of None \<Rightarrow> UserClient | Some x \<Rightarrow> x) \<and> (client = UserClient \<longrightarrow> ax_verified v))) \<and>
    authenticate env t token (au_db (perform_auth env (q, jar) s)) = authenticate env t token (au_db s)"
proof -
  have "at_users (au_db (perform_auth env (q, jar) s)) = at_users (au_db s)"
    using assms by (auto simp: logout_def logoutAll_def revokeSession_def Let_def split: option.split)
  then show ?thesis by (intro conjI authenticate_Inr authenticate_cong)
qed

lemma access_ignores_sessions_example:
  "authenticate sample_auth_env 5 (sample_token AccessToken 0)
     (au_db (perform_auth sample_auth_env (LogoutAll 4, sample_jar (sample_token RefreshToken 0)) sample_login)) = Inr (sample_user UserActive, UserClient)"
proof -
  have "get_user (au_db sample_login) ''u'' = Some (sample_user UserActive)"
    by (simp add: sample_login_def sample_auth_def sample_user_def lookup_by_Cons)
  then have "authenticate sample_auth_env 5 (sample_token AccessToken 0) (au_db sample_login) = Inr (sample_user UserActive, UserClient)"
    by (simp add: authenticate_Inr sample_read_token) (simp add: sample_user_def)
  with access_ignores_sessions [of "LogoutAll 4" 4 None None "''u''" "''q''"] show ?thesis by simp
qed

section \<open>Lockout\<close>

definition wrong_credentials :: "auth_env \<Rightarrow> auth_tables \<Rightarrow> string \<Rightarrow> string \<Rightarrow> bool" where
  "wrong_credentials env d i p =
     (case find_login i d of None \<Rightarrow> True | Some u \<Rightarrow> ax_status u \<noteq> UserActive \<or> \<not> ae_matches env (ax_password u) p)"

abbreviation login_count :: "nat \<Rightarrow> string \<Rightarrow> auth_state \<Rightarrow> nat" where
  "login_count t ip s \<equiv> redis_count t (attempts_key (login_key ip)) (au_counters s)"

lemma login_wrong:
  assumes "wrong_credentials env (au_db s) i p" and "login_count now ip s < ae_max_attempts env"
  shows "login env now ip i p (s, jar) =
    ((s\<lparr>au_counters := bump_attempts now (login_key ip) 15 (au_counters s)\<rparr>, jar), Inl (Unauthorized (STR ''Invalid credentials'')))"
proof -
  have "check_credentials env now (login_key ip) i p s = failed_attempt now (login_key ip) (STR ''Invalid credentials'') s"
  proof (cases "find_login i (au_db s)")
    case (Some u)
    with assms(1) show ?thesis by (cases "ax_status u") (simp_all add: check_credentials_def wrong_credentials_def)
  qed (simp add: check_credentials_def)
  then show ?thesis using assms(2) by (simp add: login_def Let_def attempts_allowed failed_attempt_def)
qed

lemma login_locked:
  "ae_max_attempts env \<le> login_count now ip s \<Longrightarrow>
   login env now ip i p (s, jar) = ((s, jar), Inl (Unauthorized (STR ''Too many login attempts. Please try again later.'')))"
  by (simp add: login_def Let_def attempts_allowed)

type_synonym attempt = "nat \<times> string \<times> string \<times> cookie_jar"

definition attempt_login :: "auth_env \<Rightarrow> string \<Rightarrow> attempt \<Rightarrow> auth_state \<Rightarrow> auth_state" where
  "attempt_login env ip a s = (case a of (t, i, p, jar) \<Rightarrow> fst (fst (login env t ip i p (s, jar))))"

lemma attempts_counted:
  assumes "list_all (\<lambda>(t, i, p, jar). wrong_credentials env (au_db s) i p) atts"
    and "successively (\<lambda>a b. a \<le> b \<and> b < a + 15 * 60 * 1000) (map fst atts)"
    and "atts \<noteq> [] \<longrightarrow> login_count (fst (hd atts)) ip s + List.length atts \<le> ae_max_attempts env"
  shows "fold (attempt_login env ip) atts s =
    s\<lparr>au_counters := fold (\<lambda>t. bump_attempts t (login_key ip) 15) (map fst atts) (au_counters s)\<rparr>"
  using assms
proof (induction atts arbitrary: s)
  case Nil
  then show ?case by simp
next
  case (Cons a as)
  obtain t i p jar where a: "a = (t, i, p, jar)" by (cases a)
  let ?s = "s\<lparr>au_counters := bump_attempts t (login_key ip) 15 (au_counters s)\<rparr>"
  have 1: "attempt_login env ip a s = ?s"
    using Cons.prems login_wrong [of env s i p t ip jar] by (simp add: attempt_login_def a)
  have "fold (attempt_login env ip) as ?s =
      ?s\<lparr>au_counters := fold (\<lambda>t. bump_attempts t (login_key ip) 15) (map fst as) (au_counters ?s)\<rparr>"
  proof (rule Cons.IH)
    show "as \<noteq> [] \<longrightarrow> login_count (fst (hd as)) ip ?s + List.length as \<le> ae_max_attempts env"
      using Cons.prems by (cases as) (auto simp: a attempts.count_bump)
  qed (use Cons.prems in \<open>simp_all add: a successively_Cons split: if_splits\<close>, cases as, auto simp: successively_Cons)
  with 1 show ?case by (simp add: a)
qed

text \<open>C29: As many failed logins from one address as the limit, less than a quarter of an hour apart, lock it: until a
  quarter of an hour after the last of them every login from there is refused and changes nothing,
  with the right password too, and from then on logins are checked again. The accounts are untouched.\<close>

theorem login_lockout:
  assumes "list_all (\<lambda>(t, i, p, jar). wrong_credentials env (au_db s) i p) atts"
    and "successively (\<lambda>a b. a \<le> b \<and> b < a + 15 * 60 * 1000) (map fst atts)"
    and "atts \<noteq> []" and "List.length atts = ae_max_attempts env" and "login_count (fst (hd atts)) ip s = 0" and "fst (last atts) \<le> u"
  shows "au_db (fold (attempt_login env ip) atts s) = au_db s \<and>
    (u < fst (last atts) + 15 * 60 * 1000 \<longrightarrow>
       login env u ip i p (fold (attempt_login env ip) atts s, jar) =
         ((fold (attempt_login env ip) atts s, jar), Inl (Unauthorized (STR ''Too many login attempts. Please try again later.'')))) \<and>
    (fst (last atts) + 15 * 60 * 1000 \<le> u \<longrightarrow> login_count u ip (fold (attempt_login env ip) atts s) = 0)"
proof -
  let ?f = "\<lambda>t. bump_attempts t (login_key ip) 15" and ?s = "fold (attempt_login env ip) atts s"
  have s: "?s = s\<lparr>au_counters := fold ?f (map fst atts) (au_counters s)\<rparr>"
    by (rule attempts_counted) (use assms in simp_all)
  have "login_count u ip ?s = ae_max_attempts env" if u: "u < fst (last atts) + 15 * 60 * 1000"
  proof -
    have "successively (\<lambda>a b. a \<le> b \<and> b < a + 15 * 60 * 1000) (map fst atts @ [u])"
      using assms(2,3,6) u by (simp add: successively_append_iff last_map)
    from attempts.count_bumps [OF this] assms(3,4,5) show ?thesis by (simp add: s hd_map)
  qed
  moreover have "login_count u ip ?s = 0" if u: "fst (last atts) + 15 * 60 * 1000 \<le> u"
  proof -
    have "map fst atts = map fst (butlast atts) @ [fst (last atts)]" using assms(3) by (metis append_butlast_last_id list.simps(8,9) map_append)
    then have "fold ?f (map fst atts) (au_counters s) = ?f (fst (last atts)) (fold ?f (map fst (butlast atts)) (au_counters s))" by simp
    with u show ?thesis by (simp add: s attempts.count_bump)
  qed
  ultimately show ?thesis using login_locked [of env u ip ?s i p jar] by (simp add: s)
qed

theorem login_lockout_witness:
  "login sample_auth_env 9 ''ip'' ''e'' ''p''
     (fold (attempt_login sample_auth_env ''ip'') [(5, ''e'', ''x'', no_cookies), (7, ''e'', ''y'', no_cookies)] sample_login, no_cookies) =
   ((fold (attempt_login sample_auth_env ''ip'') [(5, ''e'', ''x'', no_cookies), (7, ''e'', ''y'', no_cookies)] sample_login, no_cookies),
    Inl (Unauthorized (STR ''Too many login attempts. Please try again later.'')))"
proof -
  let ?as = "[(5, ''e'', ''x'', no_cookies), (7, ''e'', ''y'', no_cookies)] :: attempt list"
  have w: "list_all (\<lambda>(t, i, p, jar). wrong_credentials sample_auth_env (au_db sample_login) i p) ?as"
    by (simp add: wrong_credentials_def find_login_def lower_def lower_char_def sample_login_def sample_auth_def sample_user_def sample_auth_env_def)
  have n: "login_count (fst (hd ?as)) ''ip'' sample_login = 0"
    by (simp add: redis_count_def redis_get_def sample_login_def sample_auth_def)
  have l: "List.length ?as = ae_max_attempts sample_auth_env" by (simp add: sample_auth_env_def)
  have "9 < fst (last ?as) + 15 * 60 * 1000" by simp
  with login_lockout [OF w _ _ l n, of 9 "''e''" "''p''" no_cookies] show ?thesis by simp
qed

section \<open>Limits that are never reached\<close>

text \<open>A condition on the counters that the three ways of writing them keep is kept by every request.\<close>

locale kept_by_counting =
  fixes J :: "nat redis \<Rightarrow> bool"
  assumes attempt: "J c \<Longrightarrow> J (bump_attempts now k w c)"
    and forgot: "J c \<Longrightarrow> J (bump_rate now (forgot_key ip e) w c)"
    and reset: "J c \<Longrightarrow> J (resetLoginAttempts k c)"
begin

lemma then_counts:
  "J (au_counters (fst r)) \<Longrightarrow> (\<And>s x. J (au_counters s) \<Longrightarrow> J (au_counters (fst (k x s)))) \<Longrightarrow> J (au_counters (fst (thenDo r k)))"
  by (rule thenDo_invariant [where I = "\<lambda>s. J (au_counters s)"])

lemma db_step_counts [simp]: "au_counters (fst (db_step f s)) = au_counters s"
  by (simp add: db_step_def split: sum.split)

lemma start_session_counts: "J (au_counters s) \<Longrightarrow> J (au_counters (fst (start_session env now u c l s)))"
  unfolding start_session_def Let_def by (intro then_counts) simp_all

lemma check_credentials_counts: "J (au_counters s) \<Longrightarrow> J (au_counters (fst (check_credentials env now k i p s)))"
  by (simp add: check_credentials_def attempt split: option.split)

lemma getCurrentUser_counts [simp]: "au_counters (fst (getCurrentUser now u s)) = au_counters s"
  by (simp add: getCurrentUser_def Let_def split: option.split)

lemma reset_attempts_counts: "J (au_counters s) \<Longrightarrow> J (au_counters (reset_attempts k s))"
  by (simp add: reset_attempts_def reset)

lemma login_counts: "J (au_counters s) \<Longrightarrow> J (au_counters (fst (fst (login env now ip i p (s, jar)))))"
proof -
  assume s: "J (au_counters s)"
  let ?r = "thenDo (check_credentials env now (login_key ip) i p s) (\<lambda>u s1.
    if \<not> ax_verified u then (s1, Inl (Unauthorized (STR ''Email verification required'')))
    else thenDo (start_session env now u UserClient (30 * 24 * 60 * 60 * 1000) (reset_attempts (login_key ip) s1)) (\<lambda>t s2. (s2, Inr (u, t))))"
  have "J (au_counters (fst ?r))"
    using s by (intro then_counts check_credentials_counts) (auto intro!: then_counts start_session_counts reset_attempts_counts)
  moreover obtain s2 r where r: "?r = (s2, r)" by (cases ?r)
  ultimately have s2: "J (au_counters s2)" by simp
  show ?thesis
  proof (cases r)
    case (Inl e)
    with r s s2 show ?thesis by (simp add: login_def Let_def)
  next
    case (Inr t)
    obtain u sid a b where t: "t = (u, sid, a, b)" by (cases t)
    obtain s3 x where g: "getCurrentUser now (ax_id u) (forget_profile (ax_id u) s2) = (s3, x)" by (metis surj_pair)
    have "J (au_counters s3)" using getCurrentUser_counts [of now "ax_id u" "forget_profile (ax_id u) s2"] by (simp add: g s2)
    with r s Inr t g show ?thesis by (simp add: login_def Let_def)
  qed
qed

lemma adminLogin_counts: "J (au_counters s) \<Longrightarrow> J (au_counters (fst (fst (adminLogin env now ip c i p (s, jar)))))"
proof -
  assume s: "J (au_counters s)"
  let ?r = "thenDo (check_credentials env now (admin_key c ip) i p s) (\<lambda>u s1.
    if client_roles c (active_roles (ax_id u) (au_db s1)) = []
    then failed_attempt now (admin_key c ip) (STR ''Access denied. You do not have admin privileges.'') s1
    else thenDo (start_session env now u c (24 * 60 * 60 * 1000) (reset_attempts (admin_key c ip) s1)) (\<lambda>t s2.
      (s2, Inr (u, client_roles c (active_roles (ax_id u) (au_db s1)), t))))"
  have "J (au_counters (fst ?r))"
    using s by (intro then_counts check_credentials_counts) (auto intro!: then_counts start_session_counts reset_attempts_counts attempt)
  moreover obtain s2 r where r: "?r = (s2, r)" by (cases ?r)
  ultimately have s2: "J (au_counters s2)" by simp
  show ?thesis
  proof (cases r)
    case (Inl e)
    with r s s2 show ?thesis by (simp add: adminLogin_def Let_def)
  next
    case (Inr t)
    obtain u roles sid a b where t: "t = (u, roles, sid, a, b)" by (cases t)
    with r s s2 Inr show ?thesis by (simp add: adminLogin_def Let_def)
  qed
qed

lemma perform_counts: "J (au_counters s) \<Longrightarrow> J (au_counters (perform_auth env e s))"
proof -
  assume s: "J (au_counters s)"
  obtain q jar where e: "e = (q, jar)" by (cases e)
  show ?thesis
  proof (cases q)
    case (Refresh now c)
    have "au_counters (fst (fst (refresh env now c (s, jar)))) = au_counters s"
      by (simp add: refresh_def db_step_def split: option.split sum.split prod.split)
    with s show ?thesis by (simp add: e Refresh)
  qed (simp_all add: e s login_counts adminLogin_counts forgot register_def verifyEmail_def resendVerificationEmail_def forgotPassword_def
      resetPassword_def logout_def logoutAll_def revokeSession_def Let_def then_counts split: option.split)
qed

lemma sequence_counts: "J (au_counters s) \<Longrightarrow> J (au_counters (fold (perform_auth env) es s))"
  by (induction es arbitrary: s) (simp_all add: perform_counts)

end

definition never_counted :: "string \<Rightarrow> nat redis \<Rightarrow> bool" where
  "never_counted k c \<longleftrightarrow> (\<forall>t. redis_count t (rate_key k) c = 0)"

lemma never_counted_kept: "(\<And>ip e. k \<noteq> forgot_key ip e) \<Longrightarrow> kept_by_counting (never_counted k)"
  by unfold_locales (simp_all add: never_counted_def counters_apart rates.count_bump count_reset)

interpretation register_count: kept_by_counting "never_counted (''register:'' @ ip)" for ip
  by (rule never_counted_kept) (simp add: forgot_key_def)

interpretation resend_count: kept_by_counting "never_counted (resend_key ip e)" for ip e
  by (rule never_counted_kept) (simp add: forgot_key_def resend_key_def)

text \<open>The limits on registrations and on verification mails are checked and never counted: after every sequence
  of requests, however many registrations and mails it holds, neither refuses.\<close>

lemma registration_never_limited:
  assumes "au_counters s = Map.empty"
  shows "snd (register env now ip x (fold (perform_auth env) es s)) \<noteq> Inl (BadRequest (STR ''Too many registration attempts. Please try again later.'')) \<and>
    snd (resendVerificationEmail now ip e sent (fold (perform_auth env) es s))
      \<noteq> Inl (BadRequest (STR ''Too many verification email requests. Please try again later.''))"
proof -
  let ?s = "fold (perform_auth env) es s"
  have k: "never_counted k (au_counters s)" for k by (simp add: never_counted_def redis_count_def redis_get_def assms)
  have "never_counted (''register:'' @ ip) (au_counters ?s)" by (rule register_count.sequence_counts [OF k])
  moreover have "never_counted (resend_key ip (lower (trimmed e))) (au_counters ?s)" by (rule resend_count.sequence_counts [OF k])
  ultimately show ?thesis
    by (auto simp: register_def resendVerificationEmail_def rate_allowed never_counted_def Let_def thenDo_def db_step_def
        create_account_def open_verification_def drop_verifications_def delete_verification_def unique_violation_def andThen_def require_def
        split: option.splits sum.splits prod.splits if_splits)
qed

lemma registration_never_limited_example:
  "snd (register sample_auth_env 9 ''ip'' \<lparr>rg_email = ''d'', rg_username = ''e'', rg_password = ''f''\<rparr> (fold (perform_auth sample_auth_env)
      (replicate 20 (Register 8 ''ip'' \<lparr>rg_email = ''a'', rg_username = ''b'', rg_password = ''c''\<rparr>, no_cookies)) sample_login))
     \<noteq> Inl (BadRequest (STR ''Too many registration attempts. Please try again later.''))"
proof -
  have "au_counters sample_login = Map.empty" by (simp add: sample_login_def sample_auth_def)
  from registration_never_limited [OF this] show ?thesis by blast
qed

section \<open>A session that has been started\<close>

definition started :: "auth_env \<Rightarrow> nat \<Rightarrow> account_user \<Rightarrow> auth_client \<Rightarrow> nat \<Rightarrow> auth_tables \<Rightarrow> login_session" where
  "started env now u c l d =
     \<lparr>ss_id = next_id d, ss_user = ax_id u,
      ss_hash = ae_hash env (Suc (at_seq d)) (generate_token env RefreshToken now (ax_id u) (ax_email u) (next_id d) c),
      ss_expires = now + l, ss_active = True, ss_revoked = None, ss_client = c, ss_used = now\<rparr>"

lemma start_session_eq:
  assumes "sessions_sound (au_db s)"
  shows "start_session env now u c l s =
    (let d = au_db s; q = started env now u c l d;
         pending = d\<lparr>at_sessions := at_sessions d @ [q\<lparr>ss_hash := ''pending''\<rparr>], at_seq := Suc (at_seq d)\<rparr>;
         stored = d\<lparr>at_sessions := at_sessions d @ [q], at_seq := Suc (Suc (at_seq d))\<rparr>
     in if lookup_by ss_hash ''pending'' (at_sessions d) \<noteq> None then (s, Inl unique_violation)
        else if \<not> list_all (\<lambda>r. ss_hash r \<noteq> ss_hash q) (at_sessions d) then (with_db pending s, Inl unique_violation)
        else if get_user d (ax_id u) = None then (with_db stored s, Inl missing_row)
        else (with_db (stored\<lparr>at_users := update_by ax_id (ax_id u) (\<lambda>u. u\<lparr>ax_last_login := Some now\<rparr>) (at_users d)\<rparr>) s,
              Inr (ss_id q, generate_token env AccessToken now (ax_id u) (ax_email u) (next_id d) c,
                   generate_token env RefreshToken now (ax_id u) (ax_email u) (next_id d) c)))"
proof -
  let ?d = "au_db s" and ?q = "started env now u c l (au_db s)"
  have f: "next_id ?d \<notin> ss_id ` set (at_sessions ?d)"
    using assms fresh_ids_next [of ?d "map ss_id (at_sessions ?d)"] by (simp add: sessions_sound_def)
  then have l: "get_session ?d (next_id ?d) = None" by (simp add: lookup_by_None)
  have "list_all (\<lambda>r. ss_id r = next_id ?d \<or> ss_hash r \<noteq> h) (at_sessions ?d) = list_all (\<lambda>r. ss_hash r \<noteq> h) (at_sessions ?d)" for h
  proof (rule list.pred_cong [OF refl])
    fix r
    assume "r \<in> set (at_sessions ?d)"
    then have "ss_id r \<in> ss_id ` set (at_sessions ?d)" by (rule imageI)
    then have "ss_id r \<noteq> next_id ?d" using f by metis
    then show "(ss_id r = next_id ?d \<or> ss_hash r \<noteq> h) = (ss_hash r \<noteq> h)" by simp
  qed
  then show ?thesis using l
    by (simp add: start_session_def create_session_def store_refresh_hash_def touch_login_def hash_free_def started_def db_step_def with_db_def
        Let_def table_simps update_by_absent require_def require_some_def)
qed

lemma start_session_Inr:
  assumes "start_session env now u c l s = (s', Inr (sid, a, r))" and "sessions_sound (au_db s)"
  shows "sid = next_id (au_db s)" and "a = generate_token env AccessToken now (ax_id u) (ax_email u) sid c"
    and "r = generate_token env RefreshToken now (ax_id u) (ax_email u) sid c"
    and "at_sessions (au_db s') = at_sessions (au_db s) @ [started env now u c l (au_db s)]"
    and "at_users (au_db s') = update_by ax_id (ax_id u) (\<lambda>u. u\<lparr>ax_last_login := Some now\<rparr>) (at_users (au_db s))"
    and "at_seq (au_db s') = Suc (Suc (at_seq (au_db s)))" and "at_ids (au_db s') = at_ids (au_db s)"
    and "au_counters s' = au_counters s" and "au_profiles s' = au_profiles s"
  using assms(1) unfolding start_session_eq [OF assms(2)]
  by (auto simp: Let_def started_def split: if_splits)

lemma find_login_get:
  assumes "find_login i d = Some u" and "users_sound d"
  shows "get_user d (ax_id u) = Some u"
  using find_SomeD [OF assms(1) [unfolded find_login_def]] assms(2) by (simp add: lookup_by_distinct users_sound_def)

lemma authenticate_generated:
  assumes "signing_lives env life" and "now \<le> t" and "t < now + life AccessToken"
    and "get_user d i = Some u" and "ax_status u = UserActive" and "c = UserClient \<longrightarrow> ax_verified u"
  shows "authenticate env t (generate_token env AccessToken now i e sid c) d = Inr (u, c)"
  unfolding authenticate_Inr read_generated [OF assms(1-3)] using assms(4-6) by simp

text \<open>What an admin login that succeeds leaves behind.\<close>

lemma adminLogin_Inr:
  assumes "adminLogin env now ip client i p (s, jar) = ((s', jar'), Inr c)"
  obtains u s1 sid a r where "find_login i (au_db s) = Some u" and "ax_status u = UserActive" and "ae_matches env (ax_password u) p"
    and "client_roles client (active_roles (ax_id u) (au_db s)) \<noteq> []"
    and "start_session env now u client (24 * 60 * 60 * 1000) (reset_attempts (admin_key client ip) s) = (s1, Inr (sid, a, r))"
    and "c = (describe_user u (client_roles client (active_roles (ax_id u) (au_db s))))
           \<lparr>cu_session := Some sid, cu_access := Some a, cu_client := Some client\<rparr>"
    and "s' = keep_profile now (ax_id u) c s1" and "jar' = set_refresh_cookie client (Some r) jar"
  using assms
  by (auto simp: adminLogin_def Let_def result_simps check_credentials_Inr failed_attempt_def split: if_splits sum.splits prod.splits)

text \<open>The serialized user that an admin login returns, with the access token of the dashboard in it, is kept as
  the profile of the user: for five minutes it is what every request for the current user is
  answered with, also from a session of the application, and the token opens the dashboard.\<close>

lemma admin_token_in_profile:
  assumes "adminLogin env now ip client i p (s, jar) = ((s', jar'), Inr c)" and "client \<noteq> UserClient"
    and "users_sound (au_db s)" and "sessions_sound (au_db s)" and "signing_lives env life"
    and "now \<le> t" and "t < now + 300 * 1000" and "t < now + life AccessToken"
  shows "getCurrentUser t (cu_id c) s' = (s', Inr c) \<and>
    (\<exists>token u. cu_access c = Some token \<and> authenticate env t token (au_db s') = Inr (u, client) \<and> ax_id u = cu_id c)"
proof -
  from assms(1) obtain u s1 sid a r where u: "find_login i (au_db s) = Some u" "ax_status u = UserActive"
    and st: "start_session env now u client (24 * 60 * 60 * 1000) (reset_attempts (admin_key client ip) s) = (s1, Inr (sid, a, r))"
    and c: "c = (describe_user u (client_roles client (active_roles (ax_id u) (au_db s))))
           \<lparr>cu_session := Some sid, cu_access := Some a, cu_client := Some client\<rparr>"
    and s': "s' = keep_profile now (ax_id u) c s1"
    by (rule adminLogin_Inr)
  have "sessions_sound (au_db (reset_attempts (admin_key client ip) s))" using assms(4) by simp
  note S = start_session_Inr [OF st this]
  have id: "cu_id c = ax_id u" by (simp add: c describe_user_def)
  have "getCurrentUser t (cu_id c) s' = (s', Inr c)"
    using assms(7) by (simp add: getCurrentUser_def s' id keep_profile_def get_cache_set)
  moreover have "get_user (au_db s') (ax_id u) = Some (u\<lparr>ax_last_login := Some now\<rparr>)"
    using find_login_get [OF u(1) assms(3)] by (simp add: s' S(5) lookup_by_update_by)
  then have "authenticate env t a (au_db s') = Inr (u\<lparr>ax_last_login := Some now\<rparr>, client)"
    unfolding S(2) by (rule authenticate_generated [OF assms(5,6,8)]) (simp_all add: u(2) assms(2))
  ultimately show ?thesis
    by (intro conjI exI [of _ a] exI [of _ "u\<lparr>ax_last_login := Some now\<rparr>"]) (simp_all add: c describe_user_def)
qed

lemma admin_token_in_profile_example:
  "\<exists>s' jar' c token. adminLogin sample_auth_env 5 ''ip'' PlatformClient ''e'' ''p'' (sample_login, no_cookies) = ((s', jar'), Inr c) \<and>
     getCurrentUser 200 (cu_id c) s' = (s', Inr c) \<and> cu_access c = Some token \<and>
     map_sum id snd (authenticate sample_auth_env 200 token (au_db s')) = Inr PlatformClient"
proof -
  let ?d = "au_db sample_login" and ?u = "sample_user UserActive" and ?s = "reset_attempts (admin_key PlatformClient ''ip'') sample_login"
  have d: "at_users ?d = [?u]" "at_sessions ?d = [sample_session ''q'' UserClient (CHR ''h'' # sample_token RefreshToken 0)]" "at_seq ?d = 0"
    "at_ids ?d = sample_ids" by (simp_all add: sample_login_def sample_auth_def)
  have f: "find_login ''e'' ?d = Some ?u" by (simp add: find_login_def d lower_def lower_char_def sample_user_def)
  have roles: "client_roles PlatformClient (active_roles (ax_id ?u) ?d) \<noteq> []"
    by (simp add: client_roles_def active_roles_def sample_login_def sample_auth_def sample_user_def)
  have g: "get_user ?d (ax_id ?u) = Some ?u" by (simp add: d lookup_by_Cons)
  have snd: "sessions_sound (au_db ?s)" by (simp add: sample_login_sound)
  have h: "CHR ''h'' # sample_token RefreshToken 0 \<noteq> ss_hash (started sample_auth_env 5 ?u PlatformClient l ?d)" for l
    using sample_sign_time unfolding sample_token_sign by (fastforce simp: started_def generate_token_def sample_auth_env_def)
  have "\<exists>s1 sid a r. start_session sample_auth_env 5 ?u PlatformClient (24 * 60 * 60 * 1000) ?s = (s1, Inr (sid, a, r))"
    unfolding start_session_eq [OF snd] using g h by (simp add: Let_def d sample_session_def lookup_by_Cons lookup_by_Nil)
  then obtain s1 sid a r where st: "start_session sample_auth_env 5 ?u PlatformClient (24 * 60 * 60 * 1000) ?s = (s1, Inr (sid, a, r))" by blast
  have m: "ax_status ?u = UserActive" "ae_matches sample_auth_env (ax_password ?u) ''p''" by (simp_all add: sample_user_def sample_auth_env_def)
  have c: "check_credentials sample_auth_env 5 (admin_key PlatformClient ''ip'') ''e'' ''p'' sample_login = (sample_login, Inr ?u)"
    unfolding check_credentials_Inr using f m by simp
  have "redis_count 5 k (au_counters sample_login) = 0" for k by (simp add: redis_count_def redis_get_def sample_login_def sample_auth_def)
  then have "\<exists>s' jar' c. adminLogin sample_auth_env 5 ''ip'' PlatformClient ''e'' ''p'' (sample_login, no_cookies) = ((s', jar'), Inr c)"
    using roles by (simp add: adminLogin_def Let_def attempts_allowed c st [simplified])
  then obtain s' jar' c where l: "adminLogin sample_auth_env 5 ''ip'' PlatformClient ''e'' ''p'' (sample_login, no_cookies) = ((s', jar'), Inr c)"
    by blast
  from admin_token_in_profile [OF l _ sample_login_sound(1,2) sample_signing [of "\<lambda>_. 1000"], of 200]
  obtain token u where "getCurrentUser 200 (cu_id c) s' = (s', Inr c)" "cu_access c = Some token"
    "authenticate sample_auth_env 200 token (au_db s') = Inr (u, PlatformClient)" by auto
  with l show ?thesis by simp
qed

section \<open>From registration to access\<close>

lemma register_works:
  assumes "lookup_by ax_email (lower (rg_email x)) (at_users (au_db s)) = None"
    and "lookup_by ax_username (lower (rg_username x)) (at_users (au_db s)) = None"
    and "redis_count now (rate_key (''register:'' @ ip)) (au_counters s) < 10"
    and "lookup_by ev_token (at_random (au_db s) (Suc (at_seq (au_db s)))) (at_verifications (au_db s)) = None"
  obtains d1 where "register env now ip x s = (forget_profile (next_id (au_db s)) (with_db d1 s), Inr (new_user env x (au_db s)))"
    and "at_users d1 = at_users (au_db s) @ [new_user env x (au_db s)]"
    and "at_profiles d1 = at_profiles (au_db s) @ [\<lparr>pf_user = next_id (au_db s), pf_status = Unverified\<rparr>]"
    and "at_verifications d1 = at_verifications (au_db s) @
      [\<lparr>ev_id = at_ids (au_db s) (Suc (at_seq (au_db s))), ev_user = next_id (au_db s), ev_email = lower (rg_email x),
        ev_token = at_random (au_db s) (Suc (at_seq (au_db s))), ev_expires = now + 24 * 60 * 60 * 1000, ev_verified = None\<rparr>]"
    and "at_sessions d1 = at_sessions (au_db s)" and "at_seq d1 = Suc (Suc (at_seq (au_db s)))" and "at_ids d1 = at_ids (au_db s)"
proof -
  let ?d = "au_db s" and ?u = "new_user env x (au_db s)"
  let ?v = "\<lparr>ev_id = at_ids (au_db s) (Suc (at_seq (au_db s))), ev_user = next_id (au_db s), ev_email = lower (rg_email x),
    ev_token = at_random (au_db s) (Suc (at_seq (au_db s))), ev_expires = now + 24 * 60 * 60 * 1000, ev_verified = None\<rparr>"
  let ?d1 = "?d\<lparr>at_users := at_users ?d @ [?u], at_profiles := at_profiles ?d @ [\<lparr>pf_user = next_id ?d, pf_status = Unverified\<rparr>],
    at_verifications := at_verifications ?d @ [?v], at_seq := Suc (Suc (at_seq ?d))\<rparr>"
  have "create_account env now x ?d = Inr (?u, ?d1)"
    using assms(1,2,4) by (simp add: create_account_def new_user_def open_verification_def Let_def)
  then have "register env now ip x s = (forget_profile (next_id ?d) (with_db ?d1 s), Inr ?u)"
    using assms(1-3) by (simp add: register_def rate_allowed db_step_def) (simp add: new_user_def)
  then show thesis by (rule that) simp_all
qed

lemma find_append: "find P (xs @ ys) = (case find P xs of None \<Rightarrow> find P ys | Some x \<Rightarrow> Some x)"
  by (induction xs) auto

lemma find_login_new:
  assumes "at_users d = us @ [u]" and "ax_email u = lower i" and "lookup_by ax_email (lower i) us = None" and "lookup_by ax_username (lower i) us = None"
  shows "find_login i d = Some u"
proof -
  have "find (\<lambda>u. ax_email u = lower i \<or> ax_username u = lower i) us = None"
    using assms(3,4) by (induction us) (auto simp: lookup_by_Cons split: if_splits)
  then show ?thesis by (simp add: find_login_def assms(1,2) find_append)
qed

text \<open>A login with the right password of a verified, active user.\<close>

lemma login_works:
  assumes "find_login i (au_db s) = Some u" and "ax_status u = UserActive" and "ae_matches env (ax_password u) p" and "ax_verified u"
    and "login_count now ip s < ae_max_attempts env" and "users_sound (au_db s)" and "sessions_sound (au_db s)"
    and "lookup_by ss_hash ''pending'' (at_sessions (au_db s)) = None"
    and "list_all (\<lambda>q. ss_hash q \<noteq> ss_hash (started env now u UserClient (30 * 24 * 60 * 60 * 1000) (au_db s))) (at_sessions (au_db s))"
  obtains s3 c where "login env now ip i p (s, jar) = ((s3, set_refresh_cookie UserClient
        (Some (generate_token env RefreshToken now (ax_id u) (ax_email u) (next_id (au_db s)) UserClient))
        (jar\<lparr>cj_access := cu_access c\<rparr>)), Inr c)"
    and "cu_access c = Some (generate_token env AccessToken now (ax_id u) (ax_email u) (next_id (au_db s)) UserClient)"
    and "get_user (au_db s3) (ax_id u) = Some (u\<lparr>ax_last_login := Some now\<rparr>)"
    and "at_sessions (au_db s3) = at_sessions (au_db s) @ [started env now u UserClient (30 * 24 * 60 * 60 * 1000) (au_db s)]"
proof -
  let ?l = "30 * 24 * 60 * 60 * 1000" and ?s = "reset_attempts (login_key ip) s"
  have g: "get_user (au_db s) (ax_id u) = Some u" by (rule find_login_get [OF assms(1,6)])
  have "sessions_sound (au_db ?s)" using assms(7) by simp
  note E = start_session_eq [OF this, of env now u UserClient ?l]
  have "\<exists>s2 sid a r. start_session env now u UserClient ?l ?s = (s2, Inr (sid, a, r))"
    unfolding E using assms(8,9) g by (simp add: Let_def)
  then obtain s2 sid a r where st: "start_session env now u UserClient ?l ?s = (s2, Inr (sid, a, r))" by blast
  note S = start_session_Inr [OF st \<open>sessions_sound (au_db ?s)\<close>]
  have g2: "get_user (au_db s2) (ax_id u) = Some (u\<lparr>ax_last_login := Some now\<rparr>)" by (simp add: S(5) lookup_by_update_by g)
  have "redis_get now (profile_key (ax_id u)) (au_profiles (forget_profile (ax_id u) s2)) = None"
    by (simp add: forget_profile_def get_redis_delete)
  then obtain s3 c where c: "getCurrentUser now (ax_id u) (forget_profile (ax_id u) s2) = (s3, Inr c)" and s3: "au_db s3 = au_db s2"
    by (simp add: getCurrentUser_def g2 Let_def)
  have cr: "check_credentials env now (login_key ip) i p s = (s, Inr u)" using assms(1-3) by (simp add: check_credentials_Inr)
  have L: "login env now ip i p (s, jar) = ((s3, set_refresh_cookie UserClient (Some r) (jar\<lparr>cj_access := Some a\<rparr>)),
      Inr (c\<lparr>cu_session := Some sid, cu_access := Some a\<rparr>))"
    using assms(4,5) by (simp add: login_def Let_def attempts_allowed cr st [simplified] c)
  show thesis
    by (rule that [of s3 "c\<lparr>cu_session := Some sid, cu_access := Some a\<rparr>"])
      (use L g2 S(4) in \<open>simp_all add: S(1-3) s3\<close>)
qed


text \<open>C26: A new user gets in, and only after verification: registration with a free address and name succeeds, a
  login before the verification is refused, the token of the verification mail works for a day, and
  then a login with the address and the password returns an access token that opens the application
  for as long as it lives.\<close>

theorem registered_user_gets_in:
  assumes "users_sound (au_db s)" and "sessions_sound (au_db s)" and "hashing env" and "signing_lives env life"
    and "lookup_by ax_email (lower (rg_email x)) (at_users (au_db s)) = None"
    and "lookup_by ax_username (lower (rg_username x)) (at_users (au_db s)) = None"
    and "lookup_by ax_username (lower (rg_email x)) (at_users (au_db s)) = None"
    and "redis_count now (rate_key (''register:'' @ ip)) (au_counters s) < 10"
    and "lookup_by ev_token (at_random (au_db s) (Suc (at_seq (au_db s)))) (at_verifications (au_db s)) = None"
    and "t1 \<le> now + 24 * 60 * 60 * 1000" and "login_count t2 ip2 s < ae_max_attempts env"
    and "lookup_by ss_hash ''pending'' (at_sessions (au_db s)) = None"
    and "list_all (\<lambda>q. \<forall>t. ss_hash q \<noteq> ae_hash env (at_seq (au_db s) + 3) t) (at_sessions (au_db s))"
  shows "\<exists>s1 u s2 s3 c jar' token. register env now ip x s = (s1, Inr u) \<and>
     login env t2 ip2 (rg_email x) (rg_password x) (s1, jar) = ((s1, jar), Inl (Unauthorized (STR ''Email verification required''))) \<and>
     verifyEmail t1 (at_random (au_db s) (Suc (at_seq (au_db s)))) s1 = (s2, Inr (lower (rg_email x))) \<and>
     login env t2 ip2 (rg_email x) (rg_password x) (s2, jar) = ((s3, jar'), Inr c) \<and> cu_access c = Some token \<and>
     (\<forall>t. t2 \<le> t \<longrightarrow> t < t2 + life AccessToken \<longrightarrow> (\<exists>v. authenticate env t token (au_db s3) = Inr (v, UserClient) \<and> ax_id v = ax_id u))"
proof -
  let ?d = "au_db s" and ?u = "new_user env x (au_db s)" and ?tok = "at_random (au_db s) (Suc (at_seq (au_db s)))"
  obtain d1 where reg: "register env now ip x s = (forget_profile (next_id ?d) (with_db d1 s), Inr ?u)"
    and d1: "at_users d1 = at_users ?d @ [?u]" "at_profiles d1 = at_profiles ?d @ [\<lparr>pf_user = next_id ?d, pf_status = Unverified\<rparr>]"
      "at_verifications d1 = at_verifications ?d @
        [\<lparr>ev_id = at_ids ?d (Suc (at_seq ?d)), ev_user = next_id ?d, ev_email = lower (rg_email x),
          ev_token = ?tok, ev_expires = now + 24 * 60 * 60 * 1000, ev_verified = None\<rparr>]"
      "at_sessions d1 = at_sessions ?d" "at_seq d1 = Suc (Suc (at_seq ?d))" "at_ids d1 = at_ids ?d"
    by (rule register_works [OF assms(5,6,8,9)])
  let ?s1 = "forget_profile (next_id ?d) (with_db d1 s)"
  have u: "ax_id ?u = next_id ?d" "ax_email ?u = lower (rg_email x)" "ax_status ?u = UserActive" "\<not> ax_verified ?u"
    "ae_matches env (ax_password ?u) (rg_password x)" using assms(3) by (simp_all add: new_user_def hashing_def)
  have fresh: "next_id ?d \<notin> set (map ax_id (at_users ?d))" by (rule fresh_ids_next) (use assms(1) in \<open>simp add: users_sound_def\<close>)
  then have g0: "lookup_by ax_id (next_id ?d) (at_users ?d) = None" by (simp add: lookup_by_None)
  have us1: "users_sound (au_db ?s1)" and ss1: "sessions_sound (au_db ?s1)"
    using users_kept.perform_keeps [OF assms(1), of env "(Register now ip x, jar)"]
      sessions_kept.perform_keeps [OF assms(2), of env "(Register now ip x, jar)"] by (simp_all add: reg)
  have f1: "find_login (rg_email x) (au_db ?s1) = Some ?u" by (rule find_login_new [where us = "at_users ?d"]) (simp_all add: d1 u(2) assms(5,7))
  have "check_credentials env t2 (login_key ip2) (rg_email x) (rg_password x) ?s1 = (?s1, Inr ?u)"
    unfolding check_credentials_Inr using f1 u(3,5) by simp
  then have early: "login env t2 ip2 (rg_email x) (rg_password x) (?s1, jar) = ((?s1, jar), Inl (Unauthorized (STR ''Email verification required'')))"
    using assms(11) u(4) by (simp add: login_def Let_def attempts_allowed)
  let ?v = "\<lparr>ev_id = at_ids ?d (Suc (at_seq ?d)), ev_user = next_id ?d, ev_email = lower (rg_email x),
          ev_token = ?tok, ev_expires = now + 24 * 60 * 60 * 1000, ev_verified = None\<rparr>"
  have lv: "lookup_by ev_token ?tok (at_verifications d1) = Some ?v" using assms(9) by (simp add: d1 table_simps)
  have "get_user d1 (next_id ?d) \<noteq> None" "lookup_by pf_user (next_id ?d) (at_profiles d1) \<noteq> None"
    using u(1) by (simp_all add: d1 table_simps split: option.split)
  then obtain d2 where mv: "mark_verified t1 ?v d1 = Inr ((), d2)" and d2: "at_users d2 = update_by ax_id (next_id ?d) (\<lambda>u. u\<lparr>ax_verified := True\<rparr>) (at_users d1)"
    "at_sessions d2 = at_sessions d1" "at_seq d2 = at_seq d1" "at_ids d2 = at_ids d1"
    by (simp add: mark_verified_def)
  let ?s2 = "forget_profile (next_id ?d) (with_db d2 ?s1)"
  have ver: "verifyEmail t1 ?tok ?s1 = (?s2, Inr (lower (rg_email x)))"
    using assms(10) mv by (simp add: verifyEmail_def lv db_step_def)
  let ?w = "?u\<lparr>ax_verified := True\<rparr>"
  have us2: "users_sound (au_db ?s2)" and ss2: "sessions_sound (au_db ?s2)"
    using users_kept.perform_keeps [OF us1, of env "(Verify t1 ?tok, jar)"]
      sessions_kept.perform_keeps [OF ss1, of env "(Verify t1 ?tok, jar)"] by (simp_all add: ver)
  have "at_users d2 = at_users ?d @ [?w]"
    by (simp add: d2(1) d1(1) table_simps update_by_absent [OF g0] u(1))
  then have f2: "find_login (rg_email x) (au_db ?s2) = Some ?w" by (intro find_login_new [where us = "at_users ?d"]) (simp_all add: u(2) assms(5,7))
  have h: "list_all (\<lambda>q. ss_hash q \<noteq> ss_hash (started env t2 ?w UserClient (30 * 24 * 60 * 60 * 1000) (au_db ?s2))) (at_sessions (au_db ?s2))"
    using assms(13) by (auto simp: list_all_iff started_def d2 d1 numeral_3_eq_3)
  obtain s3 c where lg: "login env t2 ip2 (rg_email x) (rg_password x) (?s2, jar) = ((s3, set_refresh_cookie UserClient
        (Some (generate_token env RefreshToken t2 (ax_id ?w) (ax_email ?w) (next_id (au_db ?s2)) UserClient)) (jar\<lparr>cj_access := cu_access c\<rparr>)), Inr c)"
    and c: "cu_access c = Some (generate_token env AccessToken t2 (ax_id ?w) (ax_email ?w) (next_id (au_db ?s2)) UserClient)"
    and g3: "get_user (au_db s3) (ax_id ?w) = Some (?w\<lparr>ax_last_login := Some t2\<rparr>)"
    by (rule login_works [OF f2 _ _ _ _ us2 ss2 _ h, where p = "rg_password x" and ip = ip2 and jar = jar])
      (use u assms(11,12) in \<open>simp_all add: d1 d2\<close>)
  have "authenticate env t (generate_token env AccessToken t2 (ax_id ?w) (ax_email ?w) (next_id (au_db ?s2)) UserClient) (au_db s3) =
      Inr (?w\<lparr>ax_last_login := Some t2\<rparr>, UserClient)" if "t2 \<le> t" "t < t2 + life AccessToken" for t
    by (rule authenticate_generated [OF assms(4) that g3]) (simp_all add: u(3))
  with reg early ver lg c show ?thesis by (intro exI conjI) (assumption | simp)+
qed

theorem registered_user_gets_in_witness:
  "\<exists>s1 u s2 s3 c jar' token v. register sample_auth_env 0 ''ip'' \<lparr>rg_email = ''A@x'', rg_username = ''b'', rg_password = ''c''\<rparr> (sample_auth [] [sample_reset]) = (s1, Inr u) \<and>
     verifyEmail 3 (sample_ids 1) s1 = (s2, Inr ''a@x'') \<and>
     login sample_auth_env 5 ''ip'' ''A@x'' ''c'' (s2, no_cookies) = ((s3, jar'), Inr c) \<and> cu_access c = Some token \<and>
     authenticate sample_auth_env 9 token (au_db s3) = Inr (v, UserClient) \<and> ax_id v = ax_id u"
proof -
  let ?x = "\<lparr>rg_email = ''A@x'', rg_username = ''b'', rg_password = ''c''\<rparr>"
  have d: "at_users (au_db (sample_auth [] [sample_reset])) = [sample_user UserActive]" "at_seq (au_db (sample_auth [] [sample_reset])) = 0"
    "at_verifications (au_db (sample_auth [] [sample_reset])) = []" "at_sessions (au_db (sample_auth [] [sample_reset])) = []"
    "at_random (au_db (sample_auth [] [sample_reset])) = sample_ids" "redis_count t k (au_counters (sample_auth [] [sample_reset])) = 0" for t k
    by (simp_all add: sample_auth_def redis_count_def redis_get_def)
  have e: "lower (rg_email ?x) = ''a@x''" "lower (rg_username ?x) = ''b''" by code_simp+
  have s: "sessions_sound (au_db (sample_auth [] [sample_reset]))" by (rule sample_sessions_sound) simp_all
  have m: "ae_max_attempts sample_auth_env = 2" by (simp add: sample_auth_env_def)
  from registered_user_gets_in [OF sample_users_sound s sample_hashing sample_signing [of "\<lambda>_. 1000"],
      where x = ?x and now = "0" and ip = "''ip''" and ?t1.0 = "3" and ?t2.0 = "5" and ?ip2.0 = "''ip''" and jar = no_cookies]
  obtain s1 u s2 s3 c jar' token where "register sample_auth_env 0 ''ip'' ?x (sample_auth [] [sample_reset]) = (s1, Inr u)"
    and "verifyEmail 3 (sample_ids 1) s1 = (s2, Inr ''a@x'')"
    and "login sample_auth_env 5 ''ip'' ''A@x'' ''c'' (s2, no_cookies) = ((s3, jar'), Inr c)" and "cu_access c = Some token"
    and A: "\<forall>t. 5 \<le> t \<longrightarrow> t < 5 + 1000 \<longrightarrow> (\<exists>v. authenticate sample_auth_env t token (au_db s3) = Inr (v, UserClient) \<and> ax_id v = ax_id u)"
    unfolding d e m by (auto simp: sample_user_def lookup_by_Cons lookup_by_Nil)
  moreover from A obtain v where "authenticate sample_auth_env 9 token (au_db s3) = Inr (v, UserClient)" "ax_id v = ax_id u"
    by (elim allE [of _ 9]) auto
  ultimately show ?thesis by (intro exI conjI)
qed

end
