(* ===== verification/Access.thy ===== *)
theory Access
  imports Prelude FinanceDb
begin

text \<open>
  Who may do what: \<open>checkPermission\<close> of \<open>src/v1/auth/permission.service.ts\<close> and the \<open>AdminGuard\<close> of
  \<open>src/common/guards/admin.guard.ts\<close>, over the tables they read.
\<close>

section \<open>Tables\<close>

record faculty_row =
  fc_id :: ident
  fc_institution :: ident

record department_row =
  dp_id :: ident
  dp_faculty :: ident

record org_row =
  or_id :: ident
  or_institution :: "ident option"
  or_faculty :: "ident option"
  or_department :: "ident option"
  or_session :: "ident option"
  or_active :: bool

record student_row =
  sd_id :: ident
  sd_institution :: ident
  sd_faculty :: ident
  sd_department :: ident

datatype membership_type = MemberType | StudentType | AdminMember | StaffType | AlumniType | HonoraryType

datatype membership_status = MsInvited | MsPending | MsActive | MsSuspended | MsLeft | MsRemoved

record member_row =
  mr_id :: ident
  mr_user :: ident
  mr_organization :: ident
  mr_type :: membership_type
  mr_status :: membership_status
  mr_session :: "ident option"

text \<open>A due, an event or an announcement; only a due has a session of its own.\<close>

record owned_row =
  ow_id :: ident
  ow_organization :: "ident option"
  ow_session :: "ident option"

record session_row =
  sn_id :: ident
  sn_institution :: ident
  sn_current :: bool
  sn_institution_scope :: bool

record admin_row =
  ar_id :: ident
  ar_user :: ident
  ar_type :: admin_type
  ar_institution :: "ident option"
  ar_faculty :: "ident option"
  ar_department :: "ident option"
  ar_organization :: "ident option"
  ar_session :: "ident option"
  ar_status :: admin_status

record admin_grant =
  ag_admin :: ident
  ag_key :: string
  ag_resource :: "ident option"

record permission_row =
  pe_id :: ident
  pe_key :: string

record role_row =
  rl_id :: ident
  rl_organization :: ident
  rl_name :: string
  rl_system :: bool

record role_permission =
  rp_role :: ident
  rp_permission :: ident

record member_role =
  me_id :: ident
  me_membership :: ident
  me_role :: ident

text \<open>
  The \<open>n\<close>-th row that is created has the \<open>n\<close>-th identifier. Of the members of committees only the roles
  they hold are kept.
\<close>

record access_db =
  xs_ids :: "nat \<Rightarrow> ident"
  xs_seq :: nat
  xs_users :: "ident list"
  xs_institutions :: "ident list"
  xs_faculties :: "faculty_row list"
  xs_departments :: "department_row list"
  xs_orgs :: "org_row list"
  xs_students :: "student_row list"
  xs_members :: "member_row list"
  xs_dues :: "owned_row list"
  xs_events :: "owned_row list"
  xs_announcements :: "owned_row list"
  xs_sessions :: "session_row list"
  xs_admins :: "admin_row list"
  xs_grants :: "admin_grant list"
  xs_permissions :: "permission_row list"
  xs_roles :: "role_row list"
  xs_role_permissions :: "role_permission list"
  xs_member_roles :: "member_role list"
  xs_executive_roles :: "ident list"

abbreviation get_org :: "access_db \<Rightarrow> ident \<Rightarrow> org_row option" where
  "get_org d i \<equiv> lookup_by or_id i (xs_orgs d)"

abbreviation get_admin :: "access_db \<Rightarrow> ident \<Rightarrow> admin_row option" where
  "get_admin d i \<equiv> lookup_by ar_id i (xs_admins d)"

definition active_admins :: "access_db \<Rightarrow> ident \<Rightarrow> admin_row list" where
  "active_admins d u = filter (\<lambda>a. ar_user a = u \<and> ar_status a = AdminActive) (xs_admins d)"

section \<open>Scopes\<close>

text \<open>The client refuses \<open>null\<close> in a condition on a column that is never null.\<close>

definition invalid_where :: http_error where
  "invalid_where = Internal (STR ''PrismaClientValidationError'')"

text \<open>The service looks for a student last, the guard does not.\<close>

definition isResourceInInstitution :: "bool \<Rightarrow> access_db \<Rightarrow> ident option \<Rightarrow> ident \<Rightarrow> bool result" where
  "isResourceInInstitution withStudents d institutionId r =
     (if institutionId = Some r then Inr True
      else case institutionId of
        None \<Rightarrow> Inl invalid_where
      | Some i \<Rightarrow> Inr (list_ex (\<lambda>f. fc_id f = r \<and> fc_institution f = i) (xs_faculties d)
          \<or> list_ex (\<lambda>p. dp_id p = r \<and> list_ex (\<lambda>f. fc_id f = dp_faculty p \<and> fc_institution f = i) (xs_faculties d)) (xs_departments d)
          \<or> list_ex (\<lambda>g. or_id g = r \<and> or_institution g = Some i) (xs_orgs d)
          \<or> withStudents \<and> list_ex (\<lambda>q. sd_id q = r \<and> sd_institution q = i) (xs_students d)))"

definition isResourceInFaculty :: "bool \<Rightarrow> access_db \<Rightarrow> ident option \<Rightarrow> ident \<Rightarrow> bool result" where
  "isResourceInFaculty withStudents d facultyId r =
     (if facultyId = Some r then Inr True
      else case facultyId of
        None \<Rightarrow> Inl invalid_where
      | Some i \<Rightarrow> Inr (list_ex (\<lambda>p. dp_id p = r \<and> dp_faculty p = i) (xs_departments d)
          \<or> list_ex (\<lambda>g. or_id g = r \<and> or_faculty g = Some i) (xs_orgs d)
          \<or> withStudents \<and> list_ex (\<lambda>q. sd_id q = r \<and> sd_faculty q = i) (xs_students d)))"

text \<open>The department of an organization may be null: without a department the first query has an answer.\<close>

definition isResourceInDepartment :: "bool \<Rightarrow> access_db \<Rightarrow> ident option \<Rightarrow> ident \<Rightarrow> bool result" where
  "isResourceInDepartment withStudents d departmentId r =
     (if departmentId = Some r then Inr True
      else if list_ex (\<lambda>g. or_id g = r \<and> or_department g = departmentId) (xs_orgs d) then Inr True
      else if \<not> withStudents then Inr False
      else case departmentId of
        None \<Rightarrow> Inl invalid_where
      | Some i \<Rightarrow> Inr (list_ex (\<lambda>q. sd_id q = r \<and> sd_department q = i) (xs_students d)))"

definition in_session :: "access_db \<Rightarrow> ident \<Rightarrow> ident \<Rightarrow> ident \<Rightarrow> owned_row \<Rightarrow> bool" where
  "in_session d g q r w \<longleftrightarrow> ow_id w = r \<and> ow_organization w = Some g \<and> list_ex (\<lambda>x. or_id x = g \<and> or_session x = Some q) (xs_orgs d)"

definition isResourceInOrganizationSession :: "access_db \<Rightarrow> admin_row \<Rightarrow> ident \<Rightarrow> bool" where
  "isResourceInOrganizationSession d a r =
     (case (nonempty (ar_organization a), nonempty (ar_session a)) of
        (Some g, Some q) \<Rightarrow>
          if g = r then list_ex (\<lambda>x. or_id x = r \<and> or_session x = Some q) (xs_orgs d)
          else list_ex (\<lambda>m. mr_id m = r \<and> mr_organization m = g \<and> mr_session m = Some q) (xs_members d)
            \<or> list_ex (\<lambda>w. ow_id w = r \<and> ow_organization w = Some g \<and> ow_session w = Some q) (xs_dues d)
            \<or> list_ex (in_session d g q r) (xs_events d) \<or> list_ex (in_session d g q r) (xs_announcements d)
      | _ \<Rightarrow> False)"

definition isResourceInAdminScope :: "bool \<Rightarrow> access_db \<Rightarrow> admin_row \<Rightarrow> ident \<Rightarrow> bool result" where
  "isResourceInAdminScope withStudents d a r =
     (case ar_type a of
        PLATFORM_ADMIN \<Rightarrow> Inr True
      | INSTITUTION_ADMIN \<Rightarrow> isResourceInInstitution withStudents d (ar_institution a) r
      | FACULTY_ADMIN \<Rightarrow> isResourceInFaculty withStudents d (ar_faculty a) r
      | DEPARTMENT_ADMIN \<Rightarrow> isResourceInDepartment withStudents d (ar_department a) r
      | ORGANIZATION_ADMIN \<Rightarrow> Inr (isResourceInOrganizationSession d a r)
      | CLUB_ADMIN \<Rightarrow> Inr (isResourceInOrganizationSession d a r))"

section \<open>Permissions\<close>

definition granted :: "access_db \<Rightarrow> string \<Rightarrow> ident option \<Rightarrow> admin_row \<Rightarrow> bool" where
  "granted d key res a = list_ex (\<lambda>p. ag_admin p = ar_id a \<and> ag_key p = key \<and>
     (case res of None \<Rightarrow> True | Some r \<Rightarrow> ag_resource p \<in> {None, Some r})) (xs_grants d)"

text \<open>A loop over assignments that stops at the first one that admits, and at an exception.\<close>

fun first_admitting :: "('a \<Rightarrow> bool result) \<Rightarrow> 'a list \<Rightarrow> 'a option result" where
  "first_admitting f [] = Inr None"
| "first_admitting f (a # as) = andThen (f a) (\<lambda>b. if b then Inr (Some a) else first_admitting f as)"

definition admits :: "bool \<Rightarrow> access_db \<Rightarrow> string \<Rightarrow> ident option \<Rightarrow> admin_row \<Rightarrow> bool result" where
  "admits withStudents d key res a =
     (if \<not> granted d key res a then Inr False
      else case res of None \<Rightarrow> Inr True | Some r \<Rightarrow> isResourceInAdminScope withStudents d a r)"

definition checkPermission :: "access_db \<Rightarrow> ident \<Rightarrow> string \<Rightarrow> string option \<Rightarrow> bool" where
  "checkPermission d u key resourceId =
     (let as = active_admins d u
      in if as = [] then False
         else if list_ex (\<lambda>a. ar_type a = PLATFORM_ADMIN) as then True
         else case first_admitting (admits True d key (nonempty resourceId)) as of
                Inr (Some _) \<Rightarrow> True
              | _ \<Rightarrow> False)"

section \<open>The guard\<close>

record guard_request =
  gq_user :: "ident option"
  gq_params :: "string \<Rightarrow> string option"
  gq_query :: "string \<Rightarrow> string option"
  gq_body :: "string \<Rightarrow> string option"

record handler_meta =
  hm_types :: "admin_type list"
  hm_permission :: "string option"
  hm_param :: "string option"

text \<open>A chain of \<open>||\<close>.\<close>

fun first_truthy :: "string option list \<Rightarrow> string option" where
  "first_truthy [] = None"
| "first_truthy (x # xs) = (case nonempty x of None \<Rightarrow> first_truthy xs | Some s \<Rightarrow> Some s)"

definition asked_organization :: "guard_request \<Rightarrow> ident option" where
  "asked_organization q = first_truthy [gq_params q ''organizationId'', gq_query q ''organizationId'', gq_body q ''organizationId'']"

definition asked_session :: "guard_request \<Rightarrow> ident option" where
  "asked_session q = first_truthy [gq_params q ''academicSessionId'', gq_query q ''academicSessionId'', gq_body q ''academicSessionId'',
     gq_params q ''sessionId'', gq_query q ''sessionId'', gq_body q ''sessionId'']"

definition asked_faculty :: "guard_request \<Rightarrow> ident option" where
  "asked_faculty q = first_truthy [gq_params q ''facultyId'', gq_query q ''facultyId'']"

definition asked_department :: "guard_request \<Rightarrow> ident option" where
  "asked_department q = first_truthy [gq_params q ''departmentId'', gq_query q ''departmentId'']"

definition asked_institution :: "guard_request \<Rightarrow> ident option" where
  "asked_institution q = first_truthy [gq_params q ''institutionId'', gq_query q ''institutionId'']"

definition or_next :: "'a option \<Rightarrow> 'a option \<Rightarrow> 'a option" where
  "or_next x y = (case x of None \<Rightarrow> y | Some v \<Rightarrow> Some v)"

definition of_organization :: "access_db \<Rightarrow> guard_request \<Rightarrow> admin_row list \<Rightarrow> admin_row option" where
  "of_organization d q as =
     (case asked_organization q of
        None \<Rightarrow> None
      | Some g \<Rightarrow>
          let own = filter (\<lambda>a. ar_organization a = Some g) as
          in case asked_session q of
               Some x \<Rightarrow> find (\<lambda>a. ar_session a = Some x) own
             | None \<Rightarrow> (case get_org d g of None \<Rightarrow> None | Some o' \<Rightarrow> find (\<lambda>a. ar_session a = or_session o') own))"

definition of_scope :: "(admin_row \<Rightarrow> ident option) \<Rightarrow> ident option \<Rightarrow> admin_row list \<Rightarrow> admin_row option" where
  "of_scope col asked as = (case asked of None \<Rightarrow> None | Some i \<Rightarrow> find (\<lambda>a. col a = Some i) as)"

definition of_wider :: "access_db \<Rightarrow> guard_request \<Rightarrow> admin_row list \<Rightarrow> admin_row option" where
  "of_wider d q as =
     (case asked_organization q of
        None \<Rightarrow> None
      | Some g \<Rightarrow>
          let within = (\<lambda>x y. x \<noteq> None \<and> (case get_org d g of None \<Rightarrow> False | Some o' \<Rightarrow> y o' = x))
          in find (\<lambda>a. ar_type a = PLATFORM_ADMIN \<or> within (nonempty (ar_institution a)) or_institution
                 \<or> within (nonempty (ar_faculty a)) or_faculty \<or> within (nonempty (ar_department a)) or_department) as)"

definition matching_admin :: "access_db \<Rightarrow> guard_request \<Rightarrow> admin_row list \<Rightarrow> admin_row option" where
  "matching_admin d q as =
     or_next (of_organization d q as) (or_next (of_scope ar_faculty (asked_faculty q) as)
       (or_next (of_scope ar_department (asked_department q) as) (or_next (of_scope ar_institution (asked_institution q) as)
         (or_next (of_wider d q as) (find (\<lambda>a. ar_type a = PLATFORM_ADMIN) as)))))"

definition names_scope :: "guard_request \<Rightarrow> bool" where
  "names_scope q \<longleftrightarrow> asked_organization q \<noteq> None \<or> asked_faculty q \<noteq> None \<or> asked_department q \<noteq> None \<or> asked_institution q \<noteq> None"

definition eligible_admins :: "guard_request \<Rightarrow> admin_row list \<Rightarrow> admin_row list" where
  "eligible_admins q as =
     (case asked_session q of
        None \<Rightarrow> as
      | Some x \<Rightarrow> filter (\<lambda>a. ar_type a \<notin> {ORGANIZATION_ADMIN, CLUB_ADMIN} \<or> ar_session a = Some x) as)"

definition checkPermissionForAdmin :: "access_db \<Rightarrow> string \<Rightarrow> ident option \<Rightarrow> admin_row \<Rightarrow> bool result" where
  "checkPermissionForAdmin d key res a = (if ar_type a = PLATFORM_ADMIN then Inr True else admits False d key res a)"

definition asked_resource :: "handler_meta \<Rightarrow> guard_request \<Rightarrow> ident option" where
  "asked_resource h q = (case nonempty (hm_param h) of None \<Rightarrow> None | Some p \<Rightarrow> nonempty (gq_params q p))"

definition admin_required :: http_error where
  "admin_required = Forbidden (STR ''Admin access required'')"

text \<open>Requests that name no scope can use the first assignment.\<close>

definition chosen_admin :: "access_db \<Rightarrow> guard_request \<Rightarrow> admin_row list \<Rightarrow> admin_row" where
  "chosen_admin d q as = (case matching_admin d q as of Some a \<Rightarrow> a | None \<Rightarrow> hd as)"

text \<open>With a resource every assignment may give the permission, without one only the chosen.\<close>

definition permitting_admin :: "access_db \<Rightarrow> handler_meta \<Rightarrow> guard_request \<Rightarrow> admin_row list \<Rightarrow> admin_row result" where
  "permitting_admin d h q as =
     (case nonempty (hm_permission h) of
        None \<Rightarrow> Inr (chosen_admin d q as)
      | Some key \<Rightarrow>
          let res = asked_resource h q
          in case first_admitting (checkPermissionForAdmin d key res) (if res \<noteq> None then eligible_admins q as else [chosen_admin d q as]) of
               Inl _ \<Rightarrow> Inl admin_required
             | Inr None \<Rightarrow> Inl (Forbidden (STR ''Missing required permission''))
             | Inr (Some a) \<Rightarrow> Inr a)"

text \<open>The assignment that is attached to the request; an exception that is not one of the guard's is a refusal.\<close>

definition canActivate :: "access_db \<Rightarrow> handler_meta \<Rightarrow> guard_request \<Rightarrow> admin_row result" where
  "canActivate d h q =
     andThen (require_some (gq_user q) (Unauthorized (STR ''Authentication required''))) (\<lambda>u.
     let as = active_admins d u in
     andThen (require (as \<noteq> []) admin_required) (\<lambda>_.
     andThen (require (matching_admin d q as \<noteq> None \<or> \<not> names_scope q)
       (Forbidden (STR ''This admin assignment does not include the requested scope or academic session''))) (\<lambda>_.
     andThen (require (hm_types h = [] \<or> list_ex (\<lambda>a. ar_type a \<in> set (hm_types h)) as) (Forbidden (STR ''Insufficient admin privileges''))) (\<lambda>_.
       permitting_admin d h q as))))"

end
