(* ===== verification/Rbac.thy ===== *)
theory Rbac
  imports Access
begin

text \<open>The operations of \<open>src/v1/rbac/rbac.service.ts\<close> that change assignments, permissions and roles.\<close>

definition foreign_key_violation :: http_error where
  "foreign_key_violation = Internal (STR ''P2003'')"

definition platform_admin :: "access_db \<Rightarrow> ident \<Rightarrow> bool" where
  "platform_admin d u = list_ex (\<lambda>a. ar_user a = u \<and> ar_status a = AdminActive \<and> ar_type a = PLATFORM_ADMIN) (xs_admins d)"

section \<open>Default permissions\<close>

definition default_permissions :: "admin_type \<Rightarrow> string list" where
  "default_permissions ty = (case ty of
     PLATFORM_ADMIN \<Rightarrow>
       [''users:create'', ''users:read'', ''users:update'', ''users:delete'', ''users:manage'', ''institution:create'',
        ''institution:read'', ''institution:update'', ''institution:delete'', ''institution:manage'', ''organization:create'',
        ''organization:read'', ''organization:update'', ''organization:delete'', ''organization:manage'', ''finance:read'',
        ''finance:create'', ''finance:update'', ''finance:delete'', ''finance:approve'', ''finance:export'', ''finance:due:create'',
        ''finance:due:assign'', ''finance:due:view'', ''finance:due:delete'', ''student:create'', ''student:read'', ''student:update'',
        ''student:delete'', ''student:verify'', ''student:promote'', ''academic:read'', ''academic:create'', ''academic:update'',
        ''academic:delete'', ''communication:create'', ''communication:read'', ''communication:update'', ''communication:delete'',
        ''admin:assign'', ''admin:revoke'', ''admin:view'', ''admin:manage'', ''analytics:read'', ''analytics:export'', ''system:read'',
        ''system:update'', ''system:manage'', ''system:maintenance'', ''system:feature_flag'']
   | INSTITUTION_ADMIN \<Rightarrow>
       [''users:read'', ''institution:read'', ''institution:update'', ''organization:read'', ''organization:create'',
        ''organization:update'', ''finance:read'', ''finance:due:create'', ''finance:due:assign'', ''finance:due:view'', ''student:read'',
        ''student:update'', ''academic:read'', ''communication:create'']
   | FACULTY_ADMIN \<Rightarrow>
       [''users:read'', ''student:read'', ''student:update'', ''academic:read'', ''organization:read'', ''communication:create'',
        ''finance:read'', ''finance:due:create'', ''finance:due:assign'', ''finance:due:view'']
   | DEPARTMENT_ADMIN \<Rightarrow>
       [''users:read'', ''student:read'', ''academic:read'', ''communication:create'', ''finance:read'', ''finance:due:create'',
        ''finance:due:assign'', ''finance:due:view'']
   | ORGANIZATION_ADMIN \<Rightarrow>
       [''users:read'', ''organization:read'', ''organization:update'', ''organization:manage'', ''finance:read'', ''finance:due:create'',
        ''finance:due:assign'', ''finance:due:view'', ''finance:due:delete'', ''communication:create'', ''student:read'']
   | CLUB_ADMIN \<Rightarrow>
       [''users:read'', ''organization:read'', ''organization:update'', ''communication:create'', ''finance:read'',
        ''finance:due:create'', ''finance:due:assign'', ''finance:due:view''])"

definition grant_all :: "ident \<Rightarrow> string list \<Rightarrow> access_db \<Rightarrow> access_db" where
  "grant_all i keys d = d\<lparr>xs_grants := xs_grants d @ map (\<lambda>k. \<lparr>ag_admin = i, ag_key = k, ag_resource = None\<rparr>) keys\<rparr>"

text \<open>A call with an array that is empty or missing.\<close>

definition given_keys :: "string list option \<Rightarrow> string list option" where
  "given_keys ks = (case ks of None \<Rightarrow> None | Some ks \<Rightarrow> if ks = [] then None else Some ks)"

section \<open>Permissions of an assignment\<close>

datatype grant_action = AddKeys | RemoveKeys | SetKeys | UnknownAction

definition in_first_order :: "'a list \<Rightarrow> 'a list" where
  "in_first_order xs = rev (remdups (rev xs))"

definition new_keys :: "grant_action \<Rightarrow> string list \<Rightarrow> string list \<Rightarrow> string list result" where
  "new_keys action existing keys =
     (case action of
        AddKeys \<Rightarrow> Inr (in_first_order (existing @ keys))
      | RemoveKeys \<Rightarrow> Inr (filter (\<lambda>k. k \<notin> set keys) existing)
      | SetKeys \<Rightarrow> Inr keys
      | UnknownAction \<Rightarrow> Inl (BadRequest (STR ''Invalid action'')))"

definition updateAdminPermissions :: "ident \<Rightarrow> string list \<Rightarrow> grant_action \<Rightarrow> ident \<Rightarrow> access_db \<Rightarrow> access_db \<times> unit result" where
  "updateAdminPermissions adminId keys action u d =
     (if get_admin d adminId = None then (d, Inl (NotFound (STR ''Admin not found'')))
      else if \<not> platform_admin d u then (d, Inl (Forbidden (STR ''Only platform admins can update admin permissions'')))
      else case new_keys action (map ag_key (filter (\<lambda>g. ag_admin g = adminId) (xs_grants d))) keys of
             Inl e \<Rightarrow> (d, Inl e)
           | Inr ks \<Rightarrow> (grant_all adminId ks (d\<lparr>xs_grants := filter (\<lambda>g. ag_admin g \<noteq> adminId) (xs_grants d)\<rparr>), Inr ()))"

section \<open>Assignments\<close>

text \<open>The columns of an assignment as a request gives them: \<open>None\<close> is \<open>undefined\<close>.\<close>

record admin_scope =
  as_institution :: "ident option"
  as_faculty :: "ident option"
  as_department :: "ident option"
  as_organization :: "ident option"
  as_session :: "ident option"

definition same_assignment :: "ident \<Rightarrow> admin_type \<Rightarrow> admin_scope \<Rightarrow> admin_row \<Rightarrow> bool" where
  "same_assignment u ty x a \<longleftrightarrow> ar_user a = u \<and> ar_type a = ty \<and> where_column (map_option Some (as_institution x)) (ar_institution a) \<and>
     where_column (map_option Some (as_faculty x)) (ar_faculty a) \<and> where_column (map_option Some (as_department x)) (ar_department a) \<and>
     where_column (map_option Some (as_organization x)) (ar_organization a) \<and> ar_session a = nonempty (as_session x)"

definition references_exist :: "access_db \<Rightarrow> admin_row \<Rightarrow> bool" where
  "references_exist d a \<longleftrightarrow> ar_user a \<in> set (xs_users d) \<and> (\<forall>i\<in>set_option (ar_institution a). i \<in> set (xs_institutions d)) \<and>
     (\<forall>i\<in>set_option (ar_faculty a). i \<in> fc_id ` set (xs_faculties d)) \<and> (\<forall>i\<in>set_option (ar_department a). i \<in> dp_id ` set (xs_departments d)) \<and>
     (\<forall>i\<in>set_option (ar_organization a). i \<in> or_id ` set (xs_orgs d)) \<and> (\<forall>i\<in>set_option (ar_session a). i \<in> sn_id ` set (xs_sessions d))"

definition new_admin :: "ident \<Rightarrow> admin_type \<Rightarrow> admin_scope \<Rightarrow> access_db \<Rightarrow> admin_row" where
  "new_admin u ty x d =
     \<lparr>ar_id = xs_ids d (xs_seq d), ar_user = u, ar_type = ty, ar_institution = as_institution x, ar_faculty = as_faculty x,
      ar_department = as_department x, ar_organization = as_organization x, ar_session = as_session x, ar_status = AdminActive\<rparr>"

definition create_admin :: "ident \<Rightarrow> admin_type \<Rightarrow> admin_scope \<Rightarrow> access_db \<Rightarrow> (admin_row \<times> access_db) result" where
  "create_admin u ty x d =
     (let a = new_admin u ty x d
      in andThen (require (references_exist d a) foreign_key_violation) (\<lambda>_.
         Inr (a, d\<lparr>xs_admins := xs_admins d @ [a], xs_seq := Suc (xs_seq d)\<rparr>)))"

definition need :: "bool \<Rightarrow> string option \<Rightarrow> String.literal \<Rightarrow> unit result" where
  "need needed x m = require (needed \<longrightarrow> nonempty x \<noteq> None) (BadRequest m)"

definition organization_kind :: "admin_type \<Rightarrow> bool" where
  "organization_kind ty \<longleftrightarrow> ty = ORGANIZATION_ADMIN \<or> ty = CLUB_ADMIN"

definition check_session :: "admin_type \<Rightarrow> admin_scope \<Rightarrow> access_db \<Rightarrow> unit result" where
  "check_session ty x d =
     (case nonempty (as_session x) of
        None \<Rightarrow> Inr ()
      | Some q \<Rightarrow>
          andThen (require_some (lookup_by sn_id q (xs_sessions d)) (NotFound (STR ''Academic session not found''))) (\<lambda>s.
          andThen (require (organization_kind ty \<longrightarrow> sn_current s \<and> sn_institution_scope s)
            (BadRequest (STR ''Organization admins must be assigned to the institution current academic session''))) (\<lambda>_.
          case nonempty (as_organization x) of
            None \<Rightarrow> Inr ()
          | Some g \<Rightarrow>
              andThen (require (case get_org d g of None \<Rightarrow> True | Some o' \<Rightarrow> or_institution o' = Some (sn_institution s))
                (BadRequest (STR ''Academic session must belong to the same institution as the organization''))) (\<lambda>_.
              require (organization_kind ty \<longrightarrow> (case get_org d g of None \<Rightarrow> False | Some o' \<Rightarrow> or_session o' = Some (sn_id s)))
                (BadRequest (STR ''The organization and admin assignment must belong to the same academic session''))))))"

definition assignAdminRole :: "ident \<Rightarrow> ident \<Rightarrow> admin_type \<Rightarrow> admin_scope \<Rightarrow> access_db \<Rightarrow> (admin_row \<times> access_db) result" where
  "assignAdminRole assigner u ty x d =
     andThen (require (u \<in> set (xs_users d)) (NotFound (STR ''User not found''))) (\<lambda>_.
     andThen (require (platform_admin d assigner) (Forbidden (STR ''Only platform admins can assign admin roles''))) (\<lambda>_.
     andThen (need (ty = INSTITUTION_ADMIN) (as_institution x) (STR ''Institution ID required for INSTITUTION_ADMIN'')) (\<lambda>_.
     andThen (need (ty = FACULTY_ADMIN) (as_faculty x) (STR ''Faculty ID required for FACULTY_ADMIN'')) (\<lambda>_.
     andThen (need (ty = DEPARTMENT_ADMIN) (as_department x) (STR ''Department ID required for DEPARTMENT_ADMIN'')) (\<lambda>_.
     andThen (need (organization_kind ty) (as_organization x) (STR ''Organization ID required for organization admin roles'')) (\<lambda>_.
     andThen (need (organization_kind ty) (as_session x) (STR ''Academic session ID is required for organization admin roles'')) (\<lambda>_.
     andThen (check_session ty x d) (\<lambda>_.
     andThen (require (\<not> list_ex (same_assignment u ty x) (xs_admins d)) (Conflict (STR ''User already has this admin role''))) (\<lambda>_.
     andThen (create_admin u ty x d) (\<lambda>(a, d').
       Inr (a, grant_all (ar_id a) (default_permissions ty) d')))))))))))"

definition assignAdminWithPermissions :: "ident \<Rightarrow> ident \<Rightarrow> admin_type \<Rightarrow> admin_scope \<Rightarrow> string list option \<Rightarrow> access_db \<Rightarrow> (admin_row \<times> access_db) result" where
  "assignAdminWithPermissions assigner u ty x keys d =
     andThen (require (u \<in> set (xs_users d)) (NotFound (STR ''User not found''))) (\<lambda>_.
     andThen (require (platform_admin d assigner) (Forbidden (STR ''Only platform admins can assign admin roles''))) (\<lambda>_.
     andThen (need (ty = INSTITUTION_ADMIN) (as_institution x) (STR ''Institution ID required for INSTITUTION_ADMIN'')) (\<lambda>_.
     andThen (need (ty = FACULTY_ADMIN) (as_faculty x) (STR ''Faculty ID required for FACULTY_ADMIN'')) (\<lambda>_.
     andThen (need (ty = DEPARTMENT_ADMIN) (as_department x) (STR ''Department ID required for DEPARTMENT_ADMIN'')) (\<lambda>_.
     andThen (need (ty = ORGANIZATION_ADMIN) (as_organization x) (STR ''Organization ID required for ORGANIZATION_ADMIN'')) (\<lambda>_.
     andThen (require (\<not> list_ex (same_assignment u ty x) (xs_admins d)) (Conflict (STR ''User already has this admin role''))) (\<lambda>_.
     andThen (create_admin u ty x d) (\<lambda>(a, d').
       Inr (a, grant_all (ar_id a) (case given_keys keys of Some ks \<Rightarrow> ks | None \<Rightarrow> default_permissions ty) d')))))))))"

definition join_as_admin :: "ident \<Rightarrow> org_row \<Rightarrow> access_db \<Rightarrow> access_db" where
  "join_as_admin u g d =
     (if list_ex (\<lambda>m. mr_organization m = or_id g \<and> mr_user m = u) (xs_members d)
      then d\<lparr>xs_members := update_where (\<lambda>m. mr_organization m = or_id g \<and> mr_user m = u)
        (\<lambda>m. m\<lparr>mr_type := AdminMember, mr_status := MsActive\<rparr>) (xs_members d)\<rparr>
      else d\<lparr>xs_members := xs_members d @ [\<lparr>mr_id = xs_ids d (xs_seq d), mr_user = u, mr_organization = or_id g, mr_type = AdminMember,
        mr_status = MsActive, mr_session = or_session g\<rparr>], xs_seq := Suc (xs_seq d)\<rparr>)"

definition organization_scope :: "org_row \<Rightarrow> admin_scope" where
  "organization_scope g = \<lparr>as_institution = or_institution g, as_faculty = or_faculty g, as_department = or_department g,
     as_organization = Some (or_id g), as_session = or_session g\<rparr>"

definition make_org_admin :: "ident \<Rightarrow> org_row \<Rightarrow> access_db \<Rightarrow> (admin_row \<times> access_db) result" where
  "make_org_admin u g d =
     (let d1 = join_as_admin u g d
      in case find (\<lambda>a. ar_user a = u \<and> ar_type a = ORGANIZATION_ADMIN \<and> ar_organization a = Some (or_id g) \<and> ar_session a = or_session g) (xs_admins d1) of
           Some a \<Rightarrow>
             if ar_status a = AdminActive then Inl (Conflict (STR ''User is already an organization admin''))
             else Inr (a\<lparr>ar_status := AdminActive\<rparr>,
               d1\<lparr>xs_admins := update_by ar_id (ar_id a) (\<lambda>a. a\<lparr>ar_status := AdminActive\<rparr>) (xs_admins d1)\<rparr>)
         | None \<Rightarrow> create_admin u ORGANIZATION_ADMIN (organization_scope g) d1)"

definition is_org_admin :: "access_db \<Rightarrow> ident \<Rightarrow> ident \<Rightarrow> bool" where
  "is_org_admin d u g = list_ex (\<lambda>a. ar_user a = u \<and> ar_organization a = Some g \<and> ar_type a = ORGANIZATION_ADMIN \<and> ar_status a = AdminActive) (xs_admins d)"

definition assignOrganizationAdmin :: "ident \<Rightarrow> ident \<Rightarrow> ident \<Rightarrow> access_db \<Rightarrow> (admin_row \<times> access_db) result" where
  "assignOrganizationAdmin assigner organizationId u d =
     andThen (require (is_org_admin d assigner organizationId)
       (Forbidden (STR ''Only an active admin of this organization can add administrators''))) (\<lambda>_.
     andThen (require (u \<in> set (xs_users d)) (NotFound (STR ''User not found''))) (\<lambda>_.
     andThen (require_some (get_org d organizationId) (NotFound (STR ''Organization not found''))) (\<lambda>g.
     andThen (require (or_active g) (BadRequest (STR ''Administrators can only be added after the organization is approved''))) (\<lambda>_.
     andThen (make_org_admin u g d) (\<lambda>(a, d').
       Inr (a, if list_ex (\<lambda>p. ag_admin p = ar_id a) (xs_grants d') then d'
               else grant_all (ar_id a) (default_permissions ORGANIZATION_ADMIN) d'))))))"

definition revokeAdminRole :: "ident \<Rightarrow> ident \<Rightarrow> access_db \<Rightarrow> (unit \<times> access_db) result" where
  "revokeAdminRole adminId u d =
     andThen (require_some (get_admin d adminId) (NotFound (STR ''Admin role not found''))) (\<lambda>_.
     andThen (require (platform_admin d u) (Forbidden (STR ''Only platform admins can revoke admin roles''))) (\<lambda>_.
       Inr ((), d\<lparr>xs_admins := update_by ar_id adminId (\<lambda>a. a\<lparr>ar_status := AdminRevoked\<rparr>) (xs_admins d)\<rparr>)))"

section \<open>Roles of an organization\<close>

definition manages_roles :: "access_db \<Rightarrow> ident \<Rightarrow> ident \<Rightarrow> bool" where
  "manages_roles d u g \<longleftrightarrow> platform_admin d u \<or>
     list_ex (\<lambda>m. mr_user m = u \<and> mr_organization m = g \<and> mr_type m \<in> {AdminMember, StaffType} \<and> mr_status m = MsActive) (xs_members d)"

definition role_named :: "access_db \<Rightarrow> ident \<Rightarrow> string \<Rightarrow> role_row option" where
  "role_named d g n = find (\<lambda>r. rl_organization r = g \<and> rl_name r = n) (xs_roles d)"

definition permissions_of :: "access_db \<Rightarrow> ident \<Rightarrow> string list \<Rightarrow> role_permission list" where
  "permissions_of d r keys = map (\<lambda>p. \<lparr>rp_role = r, rp_permission = pe_id p\<rparr>) (filter (\<lambda>p. pe_key p \<in> set keys) (xs_permissions d))"

definition add_role :: "ident \<Rightarrow> string \<Rightarrow> bool \<Rightarrow> access_db \<Rightarrow> role_row \<times> access_db" where
  "add_role g n sys d =
     (let r = \<lparr>rl_id = xs_ids d (xs_seq d), rl_organization = g, rl_name = n, rl_system = sys\<rparr>
      in (r, d\<lparr>xs_roles := xs_roles d @ [r], xs_seq := Suc (xs_seq d)\<rparr>))"

definition createRole :: "ident \<Rightarrow> ident \<Rightarrow> string \<Rightarrow> bool \<Rightarrow> string list option \<Rightarrow> access_db \<Rightarrow> (role_row \<times> access_db) result" where
  "createRole u g n sys keys d =
     andThen (require (get_org d g \<noteq> None) (NotFound (STR ''Organization not found''))) (\<lambda>_.
     andThen (require (manages_roles d u g) (Forbidden (STR ''You do not have permission to create roles''))) (\<lambda>_.
     andThen (require (role_named d g n = None) (Conflict (STR ''Role with this name already exists in this organization''))) (\<lambda>_.
       case add_role g n sys d of (r, d') \<Rightarrow>
         Inr (r, case given_keys keys of None \<Rightarrow> d'
           | Some ks \<Rightarrow> d'\<lparr>xs_role_permissions := xs_role_permissions d' @ permissions_of d' (rl_id r) ks\<rparr>))))"

abbreviation get_role :: "access_db \<Rightarrow> ident \<Rightarrow> role_row option" where
  "get_role d i \<equiv> lookup_by rl_id i (xs_roles d)"

definition updateRole :: "ident \<Rightarrow> ident \<Rightarrow> string option \<Rightarrow> string list option \<Rightarrow> access_db \<Rightarrow> (unit \<times> access_db) result" where
  "updateRole roleId u n keys d =
     andThen (require_some (get_role d roleId) (NotFound (STR ''Role not found''))) (\<lambda>r.
     andThen (require (manages_roles d u (rl_organization r)) (Forbidden (STR ''You do not have permission to update roles''))) (\<lambda>_.
     andThen (require (\<not> rl_system r) (Forbidden (STR ''Cannot update system roles''))) (\<lambda>_.
     andThen (require (\<forall>m\<in>set_option n. list_all (\<lambda>q. rl_id q = roleId \<or> rl_organization q \<noteq> rl_organization r \<or> rl_name q \<noteq> m) (xs_roles d))
       (Internal (STR ''P2002''))) (\<lambda>_.
       let d1 = d\<lparr>xs_roles := update_by rl_id roleId (\<lambda>q. case n of None \<Rightarrow> q | Some m \<Rightarrow> q\<lparr>rl_name := m\<rparr>) (xs_roles d)\<rparr>
       in Inr ((), case keys of None \<Rightarrow> d1
            | Some ks \<Rightarrow> d1\<lparr>xs_role_permissions := filter (\<lambda>p. rp_role p \<noteq> roleId) (xs_role_permissions d1) @ permissions_of d1 roleId ks\<rparr>)))))"

text \<open>Rows that refer to a role restrict its deletion.\<close>

definition role_in_use :: "access_db \<Rightarrow> ident \<Rightarrow> bool" where
  "role_in_use d i \<longleftrightarrow> list_ex (\<lambda>p. rp_role p = i) (xs_role_permissions d) \<or> list_ex (\<lambda>m. me_role m = i) (xs_member_roles d)
     \<or> i \<in> set (xs_executive_roles d)"

definition deleteRole :: "ident \<Rightarrow> ident \<Rightarrow> access_db \<Rightarrow> (role_row \<times> access_db) result" where
  "deleteRole roleId u d =
     andThen (require_some (get_role d roleId) (NotFound (STR ''Role not found''))) (\<lambda>r.
     andThen (require (manages_roles d u (rl_organization r)) (Forbidden (STR ''You do not have permission to delete roles''))) (\<lambda>_.
     andThen (require (\<not> rl_system r) (Forbidden (STR ''Cannot delete system roles''))) (\<lambda>_.
     andThen (require (\<not> role_in_use d roleId) foreign_key_violation) (\<lambda>_.
       Inr (r, d\<lparr>xs_roles := filter (\<lambda>q. rl_id q \<noteq> roleId) (xs_roles d)\<rparr>)))))"

definition cloneRole :: "ident \<Rightarrow> string \<Rightarrow> ident option \<Rightarrow> access_db \<Rightarrow> (role_row \<times> access_db) result" where
  "cloneRole roleId n organizationId d =
     andThen (require_some (get_role d roleId) (NotFound (STR ''Role not found''))) (\<lambda>r.
       let g = (case nonempty organizationId of Some g \<Rightarrow> g | None \<Rightarrow> rl_organization r)
       in andThen (require (role_named d g n = None) (Conflict (STR ''Role with this name already exists''))) (\<lambda>_.
          andThen (require (get_org d g \<noteq> None) foreign_key_violation) (\<lambda>_.
            case add_role g n False d of (q, d') \<Rightarrow>
              Inr (q, d'\<lparr>xs_role_permissions := xs_role_permissions d' @
                map (\<lambda>p. p\<lparr>rp_role := rl_id q\<rparr>) (filter (\<lambda>p. rp_role p = roleId) (xs_role_permissions d'))\<rparr>))))"

definition active_member :: "access_db \<Rightarrow> ident \<Rightarrow> ident \<Rightarrow> member_row option" where
  "active_member d u g = find (\<lambda>m. mr_user m = u \<and> mr_organization m = g \<and> mr_status m = MsActive) (xs_members d)"

definition assignRoleToUser :: "ident \<Rightarrow> ident \<Rightarrow> ident \<Rightarrow> ident \<Rightarrow> access_db \<Rightarrow> (member_role \<times> access_db) result" where
  "assignRoleToUser assigner u roleId g d =
     andThen (require (get_role d roleId \<noteq> None) (NotFound (STR ''Role not found''))) (\<lambda>_.
     andThen (require (u \<in> set (xs_users d)) (NotFound (STR ''User not found''))) (\<lambda>_.
     andThen (require_some (active_member d u g) (BadRequest (STR ''User is not a member of this organization''))) (\<lambda>m.
     andThen (require (manages_roles d assigner g) (Forbidden (STR ''You do not have permission to assign roles''))) (\<lambda>_.
     andThen (require (\<not> list_ex (\<lambda>x. me_membership x = mr_id m \<and> me_role x = roleId) (xs_member_roles d))
       (Conflict (STR ''User already has this role''))) (\<lambda>_.
       let x = \<lparr>me_id = xs_ids d (xs_seq d), me_membership = mr_id m, me_role = roleId\<rparr>
       in Inr (x, d\<lparr>xs_member_roles := xs_member_roles d @ [x], xs_seq := Suc (xs_seq d)\<rparr>))))))"

definition removeRoleFromUser :: "ident \<Rightarrow> ident \<Rightarrow> access_db \<Rightarrow> (unit \<times> access_db) result" where
  "removeRoleFromUser i u d =
     andThen (require_some (lookup_by me_id i (xs_member_roles d)) (NotFound (STR ''Role assignment not found''))) (\<lambda>x.
     andThen (require_some (lookup_by mr_id (me_membership x) (xs_members d)) foreign_key_violation) (\<lambda>m.
     andThen (require (manages_roles d u (mr_organization m)) (Forbidden (STR ''You do not have permission to remove roles''))) (\<lambda>_.
       Inr ((), d\<lparr>xs_member_roles := filter (\<lambda>y. me_id y \<noteq> i) (xs_member_roles d)\<rparr>))))"

definition bulkAssignRoles :: "ident \<Rightarrow> (ident \<times> ident \<times> ident) list \<Rightarrow> access_db \<Rightarrow> access_db" where
  "bulkAssignRoles assigner xs d =
     fold (\<lambda>(u, r, g) d. fst (transaction (assignRoleToUser assigner u r g) d)) xs d"

section \<open>Requests\<close>

datatype rbac_request =
    UpdatePermissions ident "string list" grant_action
  | AssignAdmin ident admin_type admin_scope
  | AssignWith ident admin_type admin_scope "string list option"
  | AssignOrgAdmin ident ident
  | RevokeAdmin ident
  | CreateRole ident string bool "string list option"
  | UpdateRole ident "string option" "string list option"
  | DeleteRole ident
  | CloneRole ident string "ident option"
  | AssignRole ident ident ident
  | BulkAssign "(ident \<times> ident \<times> ident) list"
  | RemoveRole ident

text \<open>A request of the user \<open>u\<close>.\<close>

fun perform_rbac :: "ident \<times> rbac_request \<Rightarrow> access_db \<Rightarrow> access_db" where
  "perform_rbac (u, UpdatePermissions i ks a) d = fst (updateAdminPermissions i ks a u d)"
| "perform_rbac (u, AssignAdmin v ty x) d = fst (transaction (assignAdminRole u v ty x) d)"
| "perform_rbac (u, AssignWith v ty x ks) d = fst (transaction (assignAdminWithPermissions u v ty x ks) d)"
| "perform_rbac (u, AssignOrgAdmin g v) d = fst (transaction (assignOrganizationAdmin u g v) d)"
| "perform_rbac (u, RevokeAdmin i) d = fst (transaction (revokeAdminRole i u) d)"
| "perform_rbac (u, CreateRole g n sys ks) d = fst (transaction (createRole u g n sys ks) d)"
| "perform_rbac (u, UpdateRole i n ks) d = fst (transaction (updateRole i u n ks) d)"
| "perform_rbac (u, DeleteRole i) d = fst (transaction (deleteRole i u) d)"
| "perform_rbac (u, CloneRole i n g) d = fst (transaction (cloneRole i n g) d)"
| "perform_rbac (u, AssignRole v r g) d = fst (transaction (assignRoleToUser u v r g) d)"
| "perform_rbac (u, BulkAssign xs) d = bulkAssignRoles u xs d"
| "perform_rbac (u, RemoveRole i) d = fst (transaction (removeRoleFromUser i u) d)"

end
