(* ===== verification/RbacProperties.thy ===== *)
theory RbacProperties
  imports Rbac Samples
begin

text \<open>
  Theorems on permissions: what the guard and the permission service admit, that assignments only come
  from those who may make them, and what revocation achieves.
\<close>

section \<open>What is admitted\<close>

lemma first_admitting_Some: "first_admitting f as = Inr (Some a) \<Longrightarrow> a \<in> set as \<and> f a = Inr True"
  by (induction as) (auto simp: result_simps split: if_splits)

lemma first_admitting_total:
  "list_all (\<lambda>a. \<exists>b. f a = Inr b) as \<Longrightarrow> \<exists>r. first_admitting f as = Inr r \<and> (r \<noteq> None \<longleftrightarrow> list_ex (\<lambda>a. f a = Inr True) as)"
  by (induction as) auto

lemma first_truthy_Some: "first_truthy xs = Some s \<Longrightarrow> s \<noteq> []"
  by (induction xs) (auto simp: nonempty_def split: option.splits if_splits)

text \<open>The guard's scopes are contained in the service's.\<close>

lemma guard_scope_contained:
  "isResourceInAdminScope False d a r = Inr True \<Longrightarrow> isResourceInAdminScope True d a r = Inr True"
  by (auto simp: isResourceInAdminScope_def isResourceInInstitution_def isResourceInFaculty_def isResourceInDepartment_def
      split: admin_type.splits option.splits if_splits)

definition has_authority :: "access_db \<Rightarrow> ident \<Rightarrow> string \<Rightarrow> ident option \<Rightarrow> admin_row \<Rightarrow> bool" where
  "has_authority d u key res a \<longleftrightarrow> a \<in> set (xs_admins d) \<and> ar_user a = u \<and> ar_status a = AdminActive \<and>
     (ar_type a = PLATFORM_ADMIN \<or> granted d key res a \<and> (\<forall>r\<in>set_option res. isResourceInAdminScope True d a r = Inr True))"

lemma active_admins_mem [simp]: "a \<in> set (active_admins d u) \<longleftrightarrow> a \<in> set (xs_admins d) \<and> ar_user a = u \<and> ar_status a = AdminActive"
  by (auto simp: active_admins_def)

lemma find_mem: "find P xs = Some x \<Longrightarrow> x \<in> set xs"
  by (drule find_SomeD) simp

lemma matching_admin_mem: "matching_admin d q as = Some a \<Longrightarrow> a \<in> set as"
  by (auto simp: matching_admin_def or_next_def of_organization_def of_scope_def of_wider_def Let_def dest!: find_mem split: option.splits)

lemma canActivate_Inr: "canActivate d h q = Inr a \<longleftrightarrow>
   (\<exists>u. gq_user q = Some u \<and> active_admins d u \<noteq> [] \<and> (matching_admin d q (active_admins d u) \<noteq> None \<or> \<not> names_scope q) \<and>
     (hm_types h = [] \<or> list_ex (\<lambda>a. ar_type a \<in> set (hm_types h)) (active_admins d u)) \<and> permitting_admin d h q (active_admins d u) = Inr a)"
  by (simp add: canActivate_def result_simps Let_def)

lemma permitting_admin_Inr:
  assumes "hm_permission h = Some key" and "key \<noteq> []"
  shows "permitting_admin d h q as = Inr a \<longleftrightarrow> first_admitting (checkPermissionForAdmin d key (asked_resource h q))
     (if asked_resource h q \<noteq> None then eligible_admins q as else [chosen_admin d q as]) = Inr (Some a)"
proof -
  have "nonempty (hm_permission h) = Some key" using assms by (simp add: nonempty_def)
  then show ?thesis by (simp add: permitting_admin_def Let_def split: sum.split option.split)
qed

lemma chosen_admin_mem: "as \<noteq> [] \<Longrightarrow> chosen_admin d q as \<in> set as"
  by (simp add: chosen_admin_def matching_admin_mem split: option.split)

text \<open>C8: A request for which a handler requires a permission passes the guard only with an active assignment of its
  user that has authority: of a platform administrator, or with the permission and, where the handler
  names a resource, with the resource in its scope.\<close>

theorem guard_needs_authority:
  assumes "canActivate d h q = Inr a" and "hm_permission h = Some key" and "key \<noteq> []"
  shows "\<exists>u. gq_user q = Some u \<and> has_authority d u key (asked_resource h q) a \<and>
    (hm_types h \<noteq> [] \<longrightarrow> list_ex (\<lambda>b. ar_type b \<in> set (hm_types h)) (active_admins d u))"
proof -
  let ?res = "asked_resource h q"
  from assms(1) obtain u where u: "gq_user q = Some u" "active_admins d u \<noteq> []"
    "hm_types h = [] \<or> list_ex (\<lambda>a. ar_type a \<in> set (hm_types h)) (active_admins d u)" and p: "permitting_admin d h q (active_admins d u) = Inr a"
    unfolding canActivate_Inr by blast
  let ?as = "if ?res \<noteq> None then eligible_admins q (active_admins d u) else [chosen_admin d q (active_admins d u)]"
  from first_admitting_Some [OF p [unfolded permitting_admin_Inr [OF assms(2,3)]]]
  have a: "a \<in> set ?as" and ad: "checkPermissionForAdmin d key ?res a = Inr True" by blast+
  have "set ?as \<subseteq> set (active_admins d u)" using chosen_admin_mem [OF u(2)] by (auto simp: eligible_admins_def split: option.split)
  with a have "a \<in> set (active_admins d u)" by blast
  moreover have "ar_type a = PLATFORM_ADMIN \<or> granted d key ?res a \<and> (\<forall>r\<in>set_option ?res. isResourceInAdminScope True d a r = Inr True)"
    using ad by (auto simp: checkPermissionForAdmin_def admits_def dest: guard_scope_contained split: if_splits option.splits)
  ultimately show ?thesis using u by (auto simp: has_authority_def)
qed

text \<open>An assignment that has the scope of its type.\<close>

definition scope_given :: "admin_row \<Rightarrow> bool" where
  "scope_given a \<longleftrightarrow> (case ar_type a of INSTITUTION_ADMIN \<Rightarrow> ar_institution a \<noteq> None | FACULTY_ADMIN \<Rightarrow> ar_faculty a \<noteq> None
     | DEPARTMENT_ADMIN \<Rightarrow> ar_department a \<noteq> None | _ \<Rightarrow> True)"

lemma scope_total: "scope_given a \<Longrightarrow> \<exists>b. isResourceInAdminScope s d a r = Inr b"
  by (auto simp: scope_given_def isResourceInAdminScope_def isResourceInInstitution_def isResourceInFaculty_def
      isResourceInDepartment_def split: admin_type.splits)

lemma admits_total: "scope_given a \<Longrightarrow> \<exists>b. admits s d key res a = Inr b"
  using scope_total by (auto simp: admits_def split: option.splits)

lemma scopes_agree:
  "r \<notin> sd_id ` set (xs_students d) \<Longrightarrow> scope_given a \<Longrightarrow> isResourceInAdminScope False d a r = isResourceInAdminScope True d a r"
  by (auto simp: scope_given_def isResourceInAdminScope_def isResourceInInstitution_def isResourceInFaculty_def
      isResourceInDepartment_def list_ex_iff image_iff split: admin_type.splits option.splits)

text \<open>C18: The two implementations agree: for a resource that is no student, and a request that names nothing else, a
  handler that requires a permission on it is open exactly to those to whom the permission service
  gives the permission, provided that their assignments have the scopes of their types.\<close>

theorem guard_agrees_with_service:
  assumes "h = \<lparr>hm_types = [], hm_permission = Some key, hm_param = Some p\<rparr>" and "key \<noteq> []" and "p \<noteq> []"
    and "gq_user q = Some u" and "gq_params q p = Some r" and "r \<noteq> []" and "\<not> names_scope q" and "asked_session q = None"
    and "r \<notin> sd_id ` set (xs_students d)" and "list_all scope_given (active_admins d u)"
  shows "(\<exists>a. canActivate d h q = Inr a) \<longleftrightarrow> checkPermission d u key (Some r)"
proof (cases "active_admins d u = []")
  case True
  then show ?thesis using assms(4) by (simp add: canActivate_def checkPermission_def)
next
  case False
  let ?as = "active_admins d u"
  have res: "asked_resource h q = Some r" using assms(1,3,5,6) by (simp add: asked_resource_def nonempty_def)
  have el: "eligible_admins q ?as = ?as" using assms(8) by (simp add: eligible_admins_def)
  have k: "hm_permission h = Some key" "hm_types h = []" using assms(1) by simp_all
  have g: "(\<exists>a. canActivate d h q = Inr a) \<longleftrightarrow> (\<exists>a. first_admitting (checkPermissionForAdmin d key (Some r)) ?as = Inr (Some a))"
    using False by (simp add: canActivate_Inr permitting_admin_Inr [OF k(1) assms(2)] assms(4,7) k(2) res el)
  have total: "list_all (\<lambda>a. \<exists>b. checkPermissionForAdmin d key (Some r) a = Inr b) ?as" "list_all (\<lambda>a. \<exists>b. admits True d key (Some r) a = Inr b) ?as"
    using assms(10) admits_total by (auto simp: list_all_iff checkPermissionForAdmin_def)
  have same: "checkPermissionForAdmin d key (Some r) a = Inr True \<longleftrightarrow> ar_type a = PLATFORM_ADMIN \<or> admits True d key (Some r) a = Inr True"
    if "a \<in> set ?as" for a
    using scopes_agree [OF assms(9), of a] assms(10) that by (auto simp: checkPermissionForAdmin_def admits_def list_all_iff)
  from first_admitting_total [OF total(1)] g
  have "(\<exists>a. canActivate d h q = Inr a) \<longleftrightarrow> (\<exists>a\<in>set ?as. ar_type a = PLATFORM_ADMIN \<or> admits True d key (Some r) a = Inr True)"
    using same by (auto simp: list_ex_iff)
  also have "\<dots> \<longleftrightarrow> checkPermission d u key (Some r)"
    using first_admitting_total [OF total(2)] False assms(6) by (auto simp: checkPermission_def Let_def nonempty_def list_ex_iff split: sum.split option.split)
  finally show ?thesis .
qed

section \<open>Where assignments come from\<close>

lemma access_simps [simp]:
  "xs_admins (grant_all i ks d) = xs_admins d" "xs_members (grant_all i ks d) = xs_members d" "xs_roles (grant_all i ks d) = xs_roles d"
  "xs_role_permissions (grant_all i ks d) = xs_role_permissions d" "xs_member_roles (grant_all i ks d) = xs_member_roles d"
  "xs_ids (grant_all i ks d) = xs_ids d" "xs_seq (grant_all i ks d) = xs_seq d" "xs_orgs (grant_all i ks d) = xs_orgs d"
  "xs_admins (join_as_admin u g d) = xs_admins d" "xs_grants (join_as_admin u g d) = xs_grants d" "xs_roles (join_as_admin u g d) = xs_roles d"
  "xs_role_permissions (join_as_admin u g d) = xs_role_permissions d" "xs_member_roles (join_as_admin u g d) = xs_member_roles d"
  "xs_ids (join_as_admin u g d) = xs_ids d"
  by (simp_all add: grant_all_def join_as_admin_def)

lemma transaction_Inr_or: "fst (transaction f d) = d \<or> (\<exists>x. f d = Inr (x, fst (transaction f d)))"
  by (rule transaction_atomic)

text \<open>What each operation does to the assignments.\<close>

lemma updateAdminPermissions_admins [simp]: "xs_admins (fst (updateAdminPermissions i ks a u d)) = xs_admins d"
  by (simp add: updateAdminPermissions_def split: sum.split)

lemma create_admin_admins:
  "create_admin u ty x d = Inr (a, d') \<Longrightarrow> a = new_admin u ty x d \<and> xs_admins d' = xs_admins d @ [a]"
  by (auto simp: create_admin_def Let_def result_simps)

lemma assignAdminRole_admins:
  "assignAdminRole w u ty x d = Inr (a, d') \<Longrightarrow> platform_admin d w \<and> a = new_admin u ty x d \<and> xs_admins d' = xs_admins d @ [a]"
  by (auto simp: assignAdminRole_def result_simps dest: create_admin_admins)

lemma assignAdminWithPermissions_admins:
  "assignAdminWithPermissions w u ty x ks d = Inr (a, d') \<Longrightarrow> platform_admin d w \<and> a = new_admin u ty x d \<and> xs_admins d' = xs_admins d @ [a]"
  by (auto simp: assignAdminWithPermissions_def result_simps dest: create_admin_admins)

definition org_admin_of :: "ident \<Rightarrow> ident \<Rightarrow> admin_row \<Rightarrow> bool" where
  "org_admin_of u g a \<longleftrightarrow> ar_user a = u \<and> ar_type a = ORGANIZATION_ADMIN \<and> ar_organization a = Some g"

lemma make_org_admin_admins:
  assumes "make_org_admin u g d = Inr (a, d')"
  shows "(\<exists>b. org_admin_of u (or_id g) b \<and> xs_admins d' = xs_admins d @ [b] \<and> ar_id b \<in> {xs_ids d (xs_seq d), xs_ids d (Suc (xs_seq d))}) \<or>
    (\<exists>b\<in>set (xs_admins d). org_admin_of u (or_id g) b \<and>
      xs_admins d' = update_by ar_id (ar_id b) (\<lambda>a. a\<lparr>ar_status := AdminActive\<rparr>) (xs_admins d))"
proof (cases "find (\<lambda>a. ar_user a = u \<and> ar_type a = ORGANIZATION_ADMIN \<and> ar_organization a = Some (or_id g) \<and> ar_session a = or_session g) (xs_admins d)")
  case None
  with assms have "create_admin u ORGANIZATION_ADMIN (organization_scope g) (join_as_admin u g d) = Inr (a, d')"
    by (simp add: make_org_admin_def Let_def)
  from create_admin_admins [OF this] have "a = new_admin u ORGANIZATION_ADMIN (organization_scope g) (join_as_admin u g d)"
    and x: "xs_admins d' = xs_admins d @ [a]" by simp_all
  then have "org_admin_of u (or_id g) a \<and> ar_id a \<in> {xs_ids d (xs_seq d), xs_ids d (Suc (xs_seq d))}"
    by (simp add: org_admin_of_def new_admin_def organization_scope_def join_as_admin_def)
  with x show ?thesis by blast
next
  case (Some b)
  with assms have "xs_admins d' = update_by ar_id (ar_id b) (\<lambda>a. a\<lparr>ar_status := AdminActive\<rparr>) (xs_admins d)"
    by (auto simp: make_org_admin_def Let_def split: if_splits)
  moreover have "b \<in> set (xs_admins d)" "org_admin_of u (or_id g) b" using find_SomeD [OF Some] by (auto simp: org_admin_of_def)
  ultimately show ?thesis by blast
qed

lemma assignOrganizationAdmin_admins:
  assumes "assignOrganizationAdmin w g u d = Inr (a, d')"
  shows "is_org_admin d w g" and
    "(\<exists>b. org_admin_of u g b \<and> xs_admins d' = xs_admins d @ [b] \<and> ar_id b \<in> {xs_ids d (xs_seq d), xs_ids d (Suc (xs_seq d))}) \<or>
     (\<exists>b\<in>set (xs_admins d). org_admin_of u g b \<and> xs_admins d' = update_by ar_id (ar_id b) (\<lambda>a. a\<lparr>ar_status := AdminActive\<rparr>) (xs_admins d))"
proof -
  from assms obtain o' d2 where o: "get_org d g = Some o'" "is_org_admin d w g" and m: "make_org_admin u o' d = Inr (a, d2)"
    and d': "xs_admins d' = xs_admins d2"
    by (auto simp: assignOrganizationAdmin_def result_simps split: if_splits)
  have "or_id o' = g" using o(1) by blast
  with make_org_admin_admins [OF m] d'
  show "(\<exists>b. org_admin_of u g b \<and> xs_admins d' = xs_admins d @ [b] \<and> ar_id b \<in> {xs_ids d (xs_seq d), xs_ids d (Suc (xs_seq d))}) \<or>
     (\<exists>b\<in>set (xs_admins d). org_admin_of u g b \<and> xs_admins d' = update_by ar_id (ar_id b) (\<lambda>a. a\<lparr>ar_status := AdminActive\<rparr>) (xs_admins d))"
    by simp
  show "is_org_admin d w g" by (rule o(2))
qed

lemma revokeAdminRole_admins:
  "revokeAdminRole i w d = Inr (x, d') \<Longrightarrow> platform_admin d w \<and>
     xs_admins d' = update_by ar_id i (\<lambda>a. a\<lparr>ar_status := AdminRevoked\<rparr>) (xs_admins d)"
  by (auto simp: revokeAdminRole_def result_simps)

lemma role_requests_admins [simp]:
  "createRole u g n sys ks d = Inr (r, d') \<Longrightarrow> xs_admins d' = xs_admins d"
  "updateRole i u m ks d = Inr (x, d') \<Longrightarrow> xs_admins d' = xs_admins d"
  "deleteRole i u d = Inr (r, d') \<Longrightarrow> xs_admins d' = xs_admins d"
  "cloneRole i n h d = Inr (r, d') \<Longrightarrow> xs_admins d' = xs_admins d"
  "assignRoleToUser u v i g d = Inr (mr, d') \<Longrightarrow> xs_admins d' = xs_admins d"
  "removeRoleFromUser i u d = Inr (x, d') \<Longrightarrow> xs_admins d' = xs_admins d"
  by (auto simp: createRole_def updateRole_def deleteRole_def cloneRole_def assignRoleToUser_def removeRoleFromUser_def add_role_def
      result_simps Let_def split: option.splits)

lemma transaction_cases:
  obtains "fst (transaction f d) = d" | x d' where "f d = Inr (x, d')" and "fst (transaction f d) = d'"
  using transaction_atomic [of f d] by blast

lemma transaction_leaves: "(\<And>x d'. f d = Inr (x, d') \<Longrightarrow> g d' = g d) \<Longrightarrow> g (fst (transaction f d)) = g d"
  using transaction_atomic [of f d] by auto

lemma role_transactions_admins [simp]:
  "xs_admins (fst (transaction (createRole u g n sys ks) d)) = xs_admins d"
  "xs_admins (fst (transaction (updateRole i u m ks) d)) = xs_admins d"
  "xs_admins (fst (transaction (deleteRole i u) d)) = xs_admins d"
  "xs_admins (fst (transaction (cloneRole i n h) d)) = xs_admins d"
  "xs_admins (fst (transaction (assignRoleToUser u v i g) d)) = xs_admins d"
  "xs_admins (fst (transaction (removeRoleFromUser i u) d)) = xs_admins d"
  by (rule transaction_leaves, erule role_requests_admins)+

lemma bulkAssignRoles_admins [simp]: "xs_admins (bulkAssignRoles u xs d) = xs_admins d"
proof (induction xs arbitrary: d)
  case (Cons x xs)
  obtain v r g where x: "x = (v, r, g)" by (cases x)
  have "xs_admins (fst (transaction (assignRoleToUser u v r g) d)) = xs_admins d"
    using transaction_atomic [of "assignRoleToUser u v r g" d] by auto
  with Cons show ?case by (simp add: bulkAssignRoles_def x)
qed (simp add: bulkAssignRoles_def)

section \<open>What every request keeps\<close>

definition unused_ids :: "access_db \<Rightarrow> ident list \<Rightarrow> bool" where
  "unused_ids d ks \<longleftrightarrow> inj (xs_ids d) \<and> (\<forall>n\<ge>xs_seq d. xs_ids d n \<notin> set ks)"

lemma unused_ids_next: "unused_ids d ks \<Longrightarrow> xs_seq d \<le> n \<Longrightarrow> xs_ids d n \<notin> set ks"
  by (simp add: unused_ids_def)

lemma unused_ids_later: "unused_ids d ks \<Longrightarrow> xs_ids d' = xs_ids d \<Longrightarrow> xs_seq d \<le> xs_seq d' \<Longrightarrow> set ks' \<subseteq> set ks \<Longrightarrow> unused_ids d' ks'"
  by (auto simp: unused_ids_def)

lemma unused_ids_snoc:
  "unused_ids d ks \<Longrightarrow> xs_ids d' = xs_ids d \<Longrightarrow> xs_seq d \<le> n \<Longrightarrow> n < xs_seq d' \<Longrightarrow> unused_ids d' (ks @ [xs_ids d n])"
  by (auto simp: unused_ids_def dest!: injD [of "xs_ids d"])

text \<open>Four parts, each of the tables it speaks of.\<close>

definition grantees :: "access_db \<Rightarrow> ident set" where
  "grantees d = ag_admin ` set (xs_grants d)"

definition admins_sound :: "access_db \<Rightarrow> bool" where
  "admins_sound d \<longleftrightarrow> unused_ids d (map ar_id (xs_admins d)) \<and> distinct (map ar_id (xs_admins d)) \<and>
     grantees d \<subseteq> ar_id ` set (xs_admins d)"

definition members_sound :: "access_db \<Rightarrow> bool" where
  "members_sound d \<longleftrightarrow> unused_ids d (map mr_id (xs_members d)) \<and> distinct (map mr_id (xs_members d)) \<and>
     distinct (map (\<lambda>m. (mr_organization m, mr_user m)) (xs_members d))"

definition roles_sound :: "access_db \<Rightarrow> bool" where
  "roles_sound d \<longleftrightarrow> unused_ids d (map rl_id (xs_roles d)) \<and> distinct (map rl_id (xs_roles d)) \<and>
     distinct (map (\<lambda>r. (rl_organization r, rl_name r)) (xs_roles d)) \<and>
     rp_role ` set (xs_role_permissions d) \<subseteq> rl_id ` set (xs_roles d)"

definition member_roles_sound :: "access_db \<Rightarrow> bool" where
  "member_roles_sound d \<longleftrightarrow> distinct (map (\<lambda>x. (me_membership x, me_role x)) (xs_member_roles d)) \<and>
     me_role ` set (xs_member_roles d) \<subseteq> rl_id ` set (xs_roles d) \<and>
     me_membership ` set (xs_member_roles d) \<subseteq> mr_id ` set (xs_members d)"

lemma admins_sound_snoc:
  assumes "admins_sound d" and "xs_ids d' = xs_ids d" and "ar_id a = xs_ids d n" and "xs_seq d \<le> n" and "n < xs_seq d'"
    and "xs_admins d' = xs_admins d @ [a]" and "grantees d' \<subseteq> insert (ar_id a) (grantees d)"
  shows "admins_sound d'"
proof -
  from assms(1) have f: "unused_ids d (map ar_id (xs_admins d))" "distinct (map ar_id (xs_admins d))" "grantees d \<subseteq> ar_id ` set (xs_admins d)"
    by (simp_all add: admins_sound_def)
  have m: "map ar_id (xs_admins d') = map ar_id (xs_admins d) @ [xs_ids d n]" by (simp add: assms)
  have "grantees d' \<subseteq> ar_id ` set (xs_admins d')" using f(3) assms(7) unfolding assms(6) by auto
  moreover have "distinct (map ar_id (xs_admins d'))" unfolding m using unused_ids_next [OF f(1) assms(4)] f(2) by simp
  moreover have "unused_ids d' (map ar_id (xs_admins d'))" unfolding m by (rule unused_ids_snoc [OF f(1) assms(2,4,5)])
  ultimately show ?thesis by (simp add: admins_sound_def)
qed

lemma admins_sound_update:
  assumes "admins_sound d" and "xs_ids d' = xs_ids d" and "xs_seq d \<le> xs_seq d'"
    and "map ar_id (xs_admins d') = map ar_id (xs_admins d)" and "grantees d' \<subseteq> ar_id ` set (xs_admins d)"
  shows "admins_sound d'"
proof -
  have "ar_id ` set (xs_admins d') = ar_id ` set (xs_admins d)" using arg_cong [OF assms(4), of set] by simp
  moreover have "unused_ids d' (map ar_id (xs_admins d))"
    by (rule unused_ids_later [OF _ assms(2,3), where ks = "map ar_id (xs_admins d)"]) (use assms(1) in \<open>simp_all add: admins_sound_def\<close>)
  ultimately show ?thesis using assms(1,5) unfolding admins_sound_def assms(4) by simp
qed

lemma grant_all_grantees: "grantees (grant_all i ks d) \<subseteq> insert i (grantees d)"
  by (auto simp: grant_all_def grantees_def)

lemma updateAdminPermissions_sound:
  assumes "admins_sound d"
  shows "admins_sound (fst (updateAdminPermissions i ks a u d))"
proof (cases "snd (updateAdminPermissions i ks a u d)")
  case (Inl e)
  then have "fst (updateAdminPermissions i ks a u d) = d" by (auto simp: updateAdminPermissions_def split: if_splits sum.splits)
  with assms show ?thesis by simp
next
  case (Inr r)
  let ?d = "d\<lparr>xs_grants := filter (\<lambda>g. ag_admin g \<noteq> i) (xs_grants d)\<rparr>"
  from Inr obtain k where k: "fst (updateAdminPermissions i ks a u d) = grant_all i k ?d" and "get_admin d i \<noteq> None"
    by (auto simp: updateAdminPermissions_def split: if_splits sum.splits)
  then have "i \<in> ar_id ` set (xs_admins d)" by (simp add: lookup_by_None)
  moreover have "grantees ?d \<subseteq> grantees d" by (auto simp: grantees_def)
  ultimately have "grantees (grant_all i k ?d) \<subseteq> ar_id ` set (xs_admins d)"
    using assms grant_all_grantees [of i k ?d] unfolding admins_sound_def by blast
  then show ?thesis unfolding k by (intro admins_sound_update [OF assms]) simp_all
qed

lemma create_admin_sound:
  assumes "create_admin u ty x d1 = Inr (a, d2)" and "admins_sound d" and "xs_admins d1 = xs_admins d" and "xs_grants d1 = xs_grants d"
    and "xs_ids d1 = xs_ids d" and "xs_seq d \<le> xs_seq d1"
  shows "admins_sound (grant_all (ar_id a) ks d2)" and "admins_sound d2"
proof -
  have d2: "xs_admins d2 = xs_admins d @ [a]" "ar_id a = xs_ids d (xs_seq d1)" "xs_ids d2 = xs_ids d" "xs_seq d2 = Suc (xs_seq d1)"
    "xs_grants d2 = xs_grants d" using assms by (auto simp: create_admin_def Let_def result_simps new_admin_def)
  have g: "grantees d2 = grantees d" by (simp add: grantees_def d2)
  show "admins_sound (grant_all (ar_id a) ks d2)" using grant_all_grantees [of "ar_id a" ks d2] unfolding g
    by (intro admins_sound_snoc [OF assms(2) _ d2(2) assms(6)]) (simp_all add: d2)
  show "admins_sound d2" by (rule admins_sound_snoc [OF assms(2) _ d2(2) assms(6)]) (auto simp: d2 g)
qed

lemma join_as_admin_seq: "xs_seq d \<le> xs_seq (join_as_admin u g d)"
  by (simp add: join_as_admin_def)

lemma assignOrganizationAdmin_sound:
  assumes "assignOrganizationAdmin w g u d = Inr (a, d')" and "admins_sound d"
  shows "admins_sound d'"
proof -
  from assms(1) obtain o' d2 where m: "make_org_admin u o' d = Inr (a, d2)"
    and d': "d' = (if list_ex (\<lambda>p. ag_admin p = ar_id a) (xs_grants d2) then d2 else grant_all (ar_id a) (default_permissions ORGANIZATION_ADMIN) d2)"
    by (auto simp: assignOrganizationAdmin_def result_simps)
  have "admins_sound d2 \<and> admins_sound (grant_all (ar_id a) ks d2)" for ks
  proof (cases "find (\<lambda>a. ar_user a = u \<and> ar_type a = ORGANIZATION_ADMIN \<and> ar_organization a = Some (or_id o') \<and> ar_session a = or_session o') (xs_admins d)")
    case None
    with m have "create_admin u ORGANIZATION_ADMIN (organization_scope o') (join_as_admin u o' d) = Inr (a, d2)" by (simp add: make_org_admin_def Let_def)
    from create_admin_sound [OF this assms(2)] show ?thesis by (simp add: join_as_admin_seq)
  next
    case (Some b)
    with m have d2: "d2 = (join_as_admin u o' d)\<lparr>xs_admins := update_by ar_id (ar_id b) (\<lambda>a. a\<lparr>ar_status := AdminActive\<rparr>) (xs_admins d)\<rparr>"
      and a: "ar_id a = ar_id b" by (auto simp: make_org_admin_def Let_def split: if_splits)
    have b: "ar_id b \<in> ar_id ` set (xs_admins d)" using find_SomeD [OF Some] by blast
    have g: "grantees d2 = grantees d" by (simp add: grantees_def d2)
    have s: "grantees d \<subseteq> ar_id ` set (xs_admins d)" using assms(2) by (simp add: admins_sound_def)
    have gs: "grantees (grant_all (ar_id a) ks d2) \<subseteq> ar_id ` set (xs_admins d)"
      using grant_all_grantees [of "ar_id a" ks d2] b s unfolding a g by blast
    have m: "map ar_id (xs_admins d2) = map ar_id (xs_admins d)" by (simp add: d2 table_simps)
    show ?thesis
      by (intro conjI admins_sound_update [OF assms(2)]) (use gs s in \<open>simp_all add: m g, simp_all add: d2 join_as_admin_seq\<close>)
  qed
  then show ?thesis by (simp add: d')
qed

text \<open>What the operations leave alone.\<close>

lemmas assignment_defs = assignAdminRole_def assignAdminWithPermissions_def create_admin_def revokeAdminRole_def

lemmas role_defs = createRole_def updateRole_def deleteRole_def cloneRole_def assignRoleToUser_def removeRoleFromUser_def add_role_def

lemma grant_all_rest [simp]:
  "xs_members (grant_all i ks d) = xs_members d" "xs_permissions (grant_all i ks d) = xs_permissions d"
  by (simp_all add: grant_all_def)

definition same_roles :: "access_db \<Rightarrow> access_db \<Rightarrow> bool" where
  "same_roles d d' \<longleftrightarrow> xs_roles d' = xs_roles d \<and> xs_role_permissions d' = xs_role_permissions d \<and> xs_member_roles d' = xs_member_roles d \<and>
     xs_ids d' = xs_ids d \<and> xs_seq d \<le> xs_seq d'"

definition same_members :: "access_db \<Rightarrow> access_db \<Rightarrow> bool" where
  "same_members d d' \<longleftrightarrow> xs_members d' = xs_members d \<and> xs_ids d' = xs_ids d \<and> xs_seq d \<le> xs_seq d'"

definition same_admins :: "access_db \<Rightarrow> access_db \<Rightarrow> bool" where
  "same_admins d d' \<longleftrightarrow> xs_admins d' = xs_admins d \<and> xs_grants d' = xs_grants d \<and> xs_ids d' = xs_ids d \<and> xs_seq d \<le> xs_seq d'"

lemma assignments_leave:
  "same_roles d (fst (updateAdminPermissions i ks act u d))" "same_members d (fst (updateAdminPermissions i ks act u d))"
  "assignAdminRole w u ty x d = Inr (a, d') \<Longrightarrow> same_roles d d' \<and> same_members d d'"
  "assignAdminWithPermissions w u ty x ko d = Inr (a, d') \<Longrightarrow> same_roles d d' \<and> same_members d d'"
  "revokeAdminRole i w d = Inr (z, d') \<Longrightarrow> same_roles d d' \<and> same_members d d'"
  by (auto simp: assignment_defs updateAdminPermissions_def same_roles_def same_members_def result_simps Let_def split: sum.split)

lemma make_org_admin_leaves:
  "make_org_admin u g d = Inr (a, d') \<Longrightarrow> same_roles d d' \<and> xs_members d' = xs_members (join_as_admin u g d) \<and> xs_ids d' = xs_ids d \<and>
     xs_seq (join_as_admin u g d) \<le> xs_seq d'"
  using join_as_admin_seq [of d u g]
  by (auto simp: make_org_admin_def create_admin_def same_roles_def result_simps Let_def split: option.splits if_splits)

definition same_rest :: "access_db \<Rightarrow> access_db \<Rightarrow> bool" where
  "same_rest d d' \<longleftrightarrow> same_admins d d' \<and> same_members d d'"

lemma add_role_rest [simp]: "same_rest d (snd (add_role g n sys d))"
  by (simp add: add_role_def same_rest_def same_admins_def same_members_def Let_def)

lemma same_rest_roles [simp]:
  "same_rest d (d'\<lparr>xs_roles := rs\<rparr>) = same_rest d d'" "same_rest d (d'\<lparr>xs_role_permissions := ps\<rparr>) = same_rest d d'"
  "same_rest d (d'\<lparr>xs_member_roles := ms\<rparr>) = same_rest d d'" "same_rest d d"
  "same_rest d (d\<lparr>xs_member_roles := ms, xs_seq := Suc (xs_seq d)\<rparr>)"
  by (simp_all add: same_rest_def same_admins_def same_members_def)

lemma roles_leave:
  "createRole u g n sys ko d = Inr (r, d') \<Longrightarrow> same_rest d d'"
  "updateRole i u m ko d = Inr (z, d') \<Longrightarrow> same_rest d d'"
  "deleteRole i u d = Inr (r, d') \<Longrightarrow> same_rest d d'"
  "cloneRole i n h d = Inr (r, d') \<Longrightarrow> same_rest d d'"
  "assignRoleToUser u v i g d = Inr (x, d') \<Longrightarrow> same_rest d d'"
  "removeRoleFromUser i u d = Inr (z, d') \<Longrightarrow> same_rest d d'"
proof -
  show "createRole u g n sys ko d = Inr (r, d') \<Longrightarrow> same_rest d d'"
    by (auto simp: createRole_def result_simps case_prod_beta split: option.splits)
  show "updateRole i u m ko d = Inr (z, d') \<Longrightarrow> same_rest d d'"
    by (auto simp: updateRole_def result_simps Let_def split: option.splits)
  show "deleteRole i u d = Inr (r, d') \<Longrightarrow> same_rest d d'" by (auto simp: deleteRole_def result_simps)
  show "cloneRole i n h d = Inr (r, d') \<Longrightarrow> same_rest d d'"
    by (auto simp: cloneRole_def result_simps Let_def case_prod_beta)
  show "assignRoleToUser u v i g d = Inr (x, d') \<Longrightarrow> same_rest d d'" by (auto simp: assignRoleToUser_def result_simps Let_def)
  show "removeRoleFromUser i u d = Inr (z, d') \<Longrightarrow> same_rest d d'" by (auto simp: removeRoleFromUser_def result_simps)
qed

lemma sound_cong:
  "same_admins d d' \<Longrightarrow> admins_sound d \<Longrightarrow> admins_sound d'"
  "same_members d d' \<Longrightarrow> members_sound d \<Longrightarrow> members_sound d'"
  "same_roles d d' \<Longrightarrow> roles_sound d \<Longrightarrow> roles_sound d'"
  "same_roles d d' \<Longrightarrow> xs_members d' = xs_members d \<Longrightarrow> member_roles_sound d \<Longrightarrow> member_roles_sound d'"
  by (auto simp: same_admins_def same_members_def same_roles_def admins_sound_def members_sound_def roles_sound_def member_roles_sound_def
      grantees_def unused_ids_def)

lemma join_as_admin_sound:
  assumes "members_sound d"
  shows "members_sound (join_as_admin u g d)"
proof (cases "list_ex (\<lambda>m. mr_organization m = or_id g \<and> mr_user m = u) (xs_members d)")
  case True
  let ?d = "join_as_admin u g d"
  have m: "map mr_id (xs_members ?d) = map mr_id (xs_members d)"
    "map (\<lambda>m. (mr_organization m, mr_user m)) (xs_members ?d) = map (\<lambda>m. (mr_organization m, mr_user m)) (xs_members d)"
    using True by (auto simp: join_as_admin_def update_where_def)
  have "xs_seq ?d = xs_seq d" using True by (simp add: join_as_admin_def)
  then show ?thesis using assms unused_ids_later [of d "map mr_id (xs_members d)" ?d] unfolding members_sound_def m by simp
next
  case False
  let ?d = "join_as_admin u g d"
  from assms have f: "unused_ids d (map mr_id (xs_members d))" by (simp add: members_sound_def)
  have e: "map mr_id (xs_members ?d) = map mr_id (xs_members d) @ [xs_ids d (xs_seq d)]"
    "map (\<lambda>m. (mr_organization m, mr_user m)) (xs_members ?d) = map (\<lambda>m. (mr_organization m, mr_user m)) (xs_members d) @ [(or_id g, u)]"
    "xs_seq ?d = Suc (xs_seq d)" using False by (simp_all add: join_as_admin_def)
  have "(or_id g, u) \<notin> set (map (\<lambda>m. (mr_organization m, mr_user m)) (xs_members d))" using False by (auto simp: list_ex_iff)
  moreover have "unused_ids ?d (map mr_id (xs_members d) @ [xs_ids d (xs_seq d)])" by (rule unused_ids_snoc [OF f]) (simp_all add: e)
  ultimately show ?thesis using assms unused_ids_next [OF f le_refl] unfolding members_sound_def e by simp
qed

text \<open>The identifiers of memberships only grow.\<close>

lemma join_as_admin_ids: "mr_id ` set (xs_members d) \<subseteq> mr_id ` set (xs_members (join_as_admin u g d))"
proof -
  have "mr_id ` set (update_where P (\<lambda>m. m\<lparr>mr_type := AdminMember, mr_status := MsActive\<rparr>) ms) = mr_id ` set ms" for P ms
    by (induction ms) (simp_all add: update_where_def)
  then show ?thesis by (simp add: join_as_admin_def) blast
qed

text \<open>Roles.\<close>

abbreviation role_names :: "access_db \<Rightarrow> (ident \<times> string) list" where
  "role_names d \<equiv> map (\<lambda>r. (rl_organization r, rl_name r)) (xs_roles d)"

lemma roles_sound_snoc:
  assumes "roles_sound d" and "xs_roles d' = xs_roles d @ [r]" and "rl_id r = xs_ids d (xs_seq d)" and "xs_ids d' = xs_ids d"
    and "xs_seq d' = Suc (xs_seq d)" and "role_named d (rl_organization r) (rl_name r) = None"
    and "rp_role ` set (xs_role_permissions d') \<subseteq> insert (rl_id r) (rp_role ` set (xs_role_permissions d))"
  shows "roles_sound d'"
proof -
  from assms(1) have f: "unused_ids d (map rl_id (xs_roles d))" and r: "distinct (map rl_id (xs_roles d))" "distinct (role_names d)"
    "rp_role ` set (xs_role_permissions d) \<subseteq> rl_id ` set (xs_roles d)" by (simp_all add: roles_sound_def)
  have m: "map rl_id (xs_roles d') = map rl_id (xs_roles d) @ [xs_ids d (xs_seq d)]" by (simp add: assms)
  have "unused_ids d' (map rl_id (xs_roles d'))" unfolding m by (rule unused_ids_snoc [OF f assms(4)]) (simp_all add: assms(5))
  moreover have "distinct (map rl_id (xs_roles d'))" unfolding m using unused_ids_next [OF f le_refl] r(1) by simp
  moreover have "distinct (role_names d')" using r(2) assms(6) by (auto simp: assms(2) role_named_def find_None_iff)
  moreover have "rp_role ` set (xs_role_permissions d') \<subseteq> rl_id ` set (xs_roles d')" using assms(7) r(3) by (auto simp: assms(2))
  ultimately show ?thesis by (simp add: roles_sound_def)
qed

lemma permissions_of_role: "rp_role ` set (permissions_of d i ks) \<subseteq> {i}"
  by (auto simp: permissions_of_def)

lemma createRole_sound:
  assumes "createRole u g n sys ko d = Inr (r, d')" and "roles_sound d"
  shows "roles_sound d'" and "rl_id ` set (xs_roles d) \<subseteq> rl_id ` set (xs_roles d')" and "xs_member_roles d' = xs_member_roles d"
proof -
  obtain r1 d1 where a: "add_role g n sys d = (r1, d1)" by (cases "add_role g n sys d")
  then have d1: "xs_roles d1 = xs_roles d @ [r1]" "rl_id r1 = xs_ids d (xs_seq d)" "rl_organization r1 = g" "rl_name r1 = n" "xs_ids d1 = xs_ids d"
    "xs_seq d1 = Suc (xs_seq d)" "xs_role_permissions d1 = xs_role_permissions d" "xs_member_roles d1 = xs_member_roles d"
    by (auto simp: add_role_def Let_def)
  from assms(1) a have n: "role_named d g n = None"
    and d': "d' = (case given_keys ko of None \<Rightarrow> d1 | Some ks \<Rightarrow> d1\<lparr>xs_role_permissions := xs_role_permissions d1 @ permissions_of d1 (rl_id r1) ks\<rparr>)"
    by (auto simp: createRole_def result_simps)
  show "roles_sound d'" using permissions_of_role [of d1 "rl_id r1"]
    by (intro roles_sound_snoc [OF assms(2), of _ r1]) (auto simp: d' d1 n split: option.splits)
  show "rl_id ` set (xs_roles d) \<subseteq> rl_id ` set (xs_roles d')" "xs_member_roles d' = xs_member_roles d"
    by (auto simp: d' d1 split: option.splits)
qed

lemma cloneRole_sound:
  assumes "cloneRole i n h d = Inr (r, d')" and "roles_sound d"
  shows "roles_sound d'" and "rl_id ` set (xs_roles d) \<subseteq> rl_id ` set (xs_roles d')" and "xs_member_roles d' = xs_member_roles d"
proof -
  define g where "g = (case nonempty h of Some g \<Rightarrow> g | None \<Rightarrow> (case get_role d i of None \<Rightarrow> [] | Some x \<Rightarrow> rl_organization x))"
  obtain r1 d1 where a: "add_role g n False d = (r1, d1)" by (cases "add_role g n False d")
  from assms(1) obtain x where x: "get_role d i = Some x" by (auto simp: cloneRole_def result_simps)
  then have g: "(case nonempty h of None \<Rightarrow> rl_organization x | Some g \<Rightarrow> g) = g" by (simp add: g_def split: option.split)
  from assms(1) have n: "role_named d g n = None"
    and d': "d' = d1\<lparr>xs_role_permissions := xs_role_permissions d1 @ map (\<lambda>p. p\<lparr>rp_role := rl_id r1\<rparr>) (filter (\<lambda>p. rp_role p = i) (xs_role_permissions d1))\<rparr>"
    by (auto simp: cloneRole_def x g a Let_def result_simps)
  from a have d1: "xs_roles d1 = xs_roles d @ [r1]" "rl_id r1 = xs_ids d (xs_seq d)" "rl_organization r1 = g" "rl_name r1 = n" "xs_ids d1 = xs_ids d"
    "xs_seq d1 = Suc (xs_seq d)" "xs_role_permissions d1 = xs_role_permissions d" "xs_member_roles d1 = xs_member_roles d"
    by (auto simp: add_role_def Let_def)
  show "roles_sound d'" by (rule roles_sound_snoc [OF assms(2), of _ r1]) (auto simp: d' d1 n)
  show "rl_id ` set (xs_roles d) \<subseteq> rl_id ` set (xs_roles d')" "xs_member_roles d' = xs_member_roles d"
    by (auto simp: d' d1)
qed

text \<open>Renaming a row of a table with a key of two columns.\<close>

lemma distinct_rename:
  assumes "distinct (map f xs)" and "\<And>x. x \<in> set xs \<Longrightarrow> f (g x) = f x \<or> (\<forall>y\<in>set xs. y \<noteq> x \<longrightarrow> f y \<noteq> f (g x) \<and> g y = y)"
    and "distinct xs"
  shows "distinct (map (f \<circ> g) xs)"
proof -
  have "inj_on (f \<circ> g) (set xs)"
  proof (rule inj_onI)
    fix x y
    assume x: "x \<in> set xs" and y: "y \<in> set xs" and e: "(f \<circ> g) x = (f \<circ> g) y"
    have i: "inj_on f (set xs)" using assms(1) by (simp add: distinct_map)
    show "x = y"
    proof (rule ccontr)
      assume n: "x \<noteq> y"
      from assms(2) [OF x] assms(2) [OF y] show False
      proof (elim disjE)
        assume "f (g x) = f x" "f (g y) = f y"
        with e i x y n show False by (auto simp: inj_on_def)
      qed (use e x y n in \<open>auto\<close>)
    qed
  qed
  with assms(3) show ?thesis by (simp add: distinct_map)
qed

lemma updateRole_sound:
  assumes "updateRole i u m ko d = Inr (z, d')" and "roles_sound d"
  shows "roles_sound d'" and "rl_id ` set (xs_roles d') = rl_id ` set (xs_roles d)" and "xs_member_roles d' = xs_member_roles d"
proof -
  let ?f = "\<lambda>q. case m of None \<Rightarrow> q | Some x \<Rightarrow> q\<lparr>rl_name := x\<rparr>"
  let ?d = "d\<lparr>xs_roles := update_by rl_id i ?f (xs_roles d)\<rparr>"
  from assms(1) obtain r where r: "get_role d i = Some r"
    and free: "\<forall>x\<in>set_option m. list_all (\<lambda>q. rl_id q = i \<or> rl_organization q \<noteq> rl_organization r \<or> rl_name q \<noteq> x) (xs_roles d)"
    and d': "d' = (case ko of None \<Rightarrow> ?d | Some ks \<Rightarrow> ?d\<lparr>xs_role_permissions := filter (\<lambda>p. rp_role p \<noteq> i) (xs_role_permissions ?d) @ permissions_of ?d i ks\<rparr>)"
    by (auto simp: updateRole_def result_simps Let_def)
  from assms(2) have s: "unused_ids d (map rl_id (xs_roles d))" "distinct (map rl_id (xs_roles d))" "distinct (role_names d)"
    "rp_role ` set (xs_role_permissions d) \<subseteq> rl_id ` set (xs_roles d)" by (simp_all add: roles_sound_def)
  have ids: "map rl_id (xs_roles d') = map rl_id (xs_roles d)" by (auto simp: d' table_simps split: option.splits)
  have set_ids: "rl_id ` set (xs_roles d') = rl_id ` set (xs_roles d)" using arg_cong [OF ids, of set] by (simp only: list.set_map)
  then show "rl_id ` set (xs_roles d') = rl_id ` set (xs_roles d)" .
  show "xs_member_roles d' = xs_member_roles d" by (auto simp: d' split: option.splits)
  have ir: "i \<in> rl_id ` set (xs_roles d)" using lookup_by_mem [OF r] lookup_by_key [OF r] by blast
  let ?g = "\<lambda>q. if rl_id q = i then ?f q else q" and ?k = "\<lambda>r. (rl_organization r, rl_name r)"
  have "distinct (map (?k \<circ> ?g) (xs_roles d))"
  proof (rule distinct_rename [OF s(3)])
    fix x
    assume x: "x \<in> set (xs_roles d)"
    show "?k (?g x) = ?k x \<or> (\<forall>y\<in>set (xs_roles d). y \<noteq> x \<longrightarrow> ?k y \<noteq> ?k (?g x) \<and> ?g y = y)"
    proof (cases "rl_id x = i")
      case True
      with lookup_by_distinct [OF s(2) x] r have xr: "x = r" by simp
      have "rl_id y \<noteq> i" if "y \<in> set (xs_roles d)" "y \<noteq> x" for y
        using lookup_by_distinct [OF s(2) that(1)] r that(2) xr by auto
      note other = this
      show ?thesis
      proof (cases m)
        case (Some nm)
        have "?k y \<noteq> ?k (?g x) \<and> ?g y = y" if y: "y \<in> set (xs_roles d)" "y \<noteq> x" for y
        proof -
          have "rl_organization y \<noteq> rl_organization r \<or> rl_name y \<noteq> nm"
            using free y(1) other [OF y] by (auto simp: Some list_all_iff)
          then show ?thesis using other [OF y] xr True by (simp add: Some)
        qed
        then show ?thesis by blast
      qed simp
    qed simp
  qed (use s(2) in \<open>simp add: distinct_map\<close>)
  then have names: "distinct (role_names d')" by (auto simp: d' update_by_def update_where_def o_def split: option.splits)
  have "rp_role ` set (xs_role_permissions d') \<subseteq> rl_id ` set (xs_roles d)"
  proof (cases ko)
    case None
    with s(4) show ?thesis by (simp add: d')
  next
    case (Some ks)
    have "rp_role ` set (filter (\<lambda>p. rp_role p \<noteq> i) (xs_role_permissions d)) \<subseteq> rl_id ` set (xs_roles d)" using s(4) by auto
    moreover have "rp_role ` set (permissions_of ?d i ks) \<subseteq> rl_id ` set (xs_roles d)" using permissions_of_role [of ?d i ks] ir by blast
    ultimately show ?thesis by (simp add: d' Some image_Un)
  qed
  moreover have "unused_ids d' (map rl_id (xs_roles d))"
    by (rule unused_ids_later [OF s(1)]) (auto simp: d' split: option.splits)
  ultimately show "roles_sound d'" using names s(2) by (simp add: roles_sound_def ids set_ids)
qed

lemma deleteRole_sound:
  assumes "deleteRole i u d = Inr (r, d')"
  shows "roles_sound d \<Longrightarrow> roles_sound d'" and "member_roles_sound d \<Longrightarrow> member_roles_sound d'"
proof -
  from assms have d': "d' = d\<lparr>xs_roles := filter (\<lambda>q. rl_id q \<noteq> i) (xs_roles d)\<rparr>"
    and p: "i \<notin> rp_role ` set (xs_role_permissions d)" and m: "i \<notin> me_role ` set (xs_member_roles d)"
    by (auto simp: deleteRole_def role_in_use_def list_ex_iff result_simps)
  have k: "rl_id ` set (xs_roles d') = rl_id ` set (xs_roles d) - {i}" by (auto simp: d')
  show "roles_sound d'" if s: "roles_sound d"
  proof -
    have "rp_role ` set (xs_role_permissions d') \<subseteq> rl_id ` set (xs_roles d')" unfolding k using s p by (auto simp: roles_sound_def d')
    moreover have "unused_ids d' (map rl_id (xs_roles d'))"
      by (rule unused_ids_later [of d "map rl_id (xs_roles d)"]) (use s in \<open>auto simp: roles_sound_def d'\<close>)
    ultimately show ?thesis using s by (simp add: roles_sound_def d' distinct_map_filter)
  qed
  show "member_roles_sound d'" if s: "member_roles_sound d"
  proof -
    have "me_role ` set (xs_member_roles d') \<subseteq> rl_id ` set (xs_roles d')" unfolding k using s m by (auto simp: member_roles_sound_def d')
    then show ?thesis using s by (simp add: member_roles_sound_def d')
  qed
qed

lemma assignRoleToUser_sound:
  assumes "assignRoleToUser u v i g d = Inr (x, d')"
  shows "member_roles_sound d \<Longrightarrow> member_roles_sound d'" and "xs_roles d' = xs_roles d" and "xs_role_permissions d' = xs_role_permissions d"
proof -
  from assms obtain m where m: "m \<in> set (xs_members d)" and r: "get_role d i \<noteq> None"
    and n: "\<not> list_ex (\<lambda>x. me_membership x = mr_id m \<and> me_role x = i) (xs_member_roles d)"
    and d': "d' = d\<lparr>xs_member_roles := xs_member_roles d @ [\<lparr>me_id = xs_ids d (xs_seq d), me_membership = mr_id m, me_role = i\<rparr>], xs_seq := Suc (xs_seq d)\<rparr>"
    by (auto simp: assignRoleToUser_def active_member_def result_simps Let_def dest: find_mem)
  from r have "i \<in> rl_id ` set (xs_roles d)" by (simp add: lookup_by_None)
  with m n show "member_roles_sound d \<Longrightarrow> member_roles_sound d'" by (auto simp: member_roles_sound_def d' list_ex_iff)
  show "xs_roles d' = xs_roles d" "xs_role_permissions d' = xs_role_permissions d" by (simp_all add: d')
qed

lemma removeRoleFromUser_sound:
  assumes "removeRoleFromUser i u d = Inr (z, d')"
  shows "member_roles_sound d \<Longrightarrow> member_roles_sound d'" and "xs_roles d' = xs_roles d" and "xs_role_permissions d' = xs_role_permissions d"
  using assms by (auto simp: removeRoleFromUser_def member_roles_sound_def result_simps distinct_map_filter image_subset_iff)

text \<open>A transaction keeps what its operation keeps when it succeeds.\<close>

definition all_sound :: "access_db \<Rightarrow> bool" where
  "all_sound d \<longleftrightarrow> admins_sound d \<and> members_sound d \<and> roles_sound d \<and> member_roles_sound d"

lemma all_sound_admins:
  "all_sound d \<Longrightarrow> admins_sound d' \<Longrightarrow> same_roles d d' \<and> same_members d d' \<Longrightarrow> all_sound d'"
  using sound_cong(2-4) [of d d'] by (simp add: all_sound_def same_members_def)

lemma all_sound_roles:
  "all_sound d \<Longrightarrow> roles_sound d' \<Longrightarrow> member_roles_sound d' \<Longrightarrow> same_rest d d' \<Longrightarrow> all_sound d'"
  using sound_cong(1,2) [of d d'] by (simp add: all_sound_def same_rest_def)

lemma member_roles_more:
  "member_roles_sound d \<Longrightarrow> rl_id ` set (xs_roles d) \<subseteq> rl_id ` set (xs_roles d') \<Longrightarrow> mr_id ` set (xs_members d) \<subseteq> mr_id ` set (xs_members d') \<Longrightarrow>
   xs_member_roles d' = xs_member_roles d \<Longrightarrow> member_roles_sound d'"
  unfolding member_roles_sound_def by (metis subset_trans)

lemma assignOrganizationAdmin_all:
  assumes "assignOrganizationAdmin w g u d = Inr (a, d')" and "all_sound d"
  shows "all_sound d'"
proof -
  from assms(1) obtain o' d2 where m: "make_org_admin u o' d = Inr (a, d2)"
    and d': "d' = (if list_ex (\<lambda>p. ag_admin p = ar_id a) (xs_grants d2) then d2 else grant_all (ar_id a) (default_permissions ORGANIZATION_ADMIN) d2)"
    by (auto simp: assignOrganizationAdmin_def result_simps)
  let ?j = "join_as_admin u o' d"
  note L = make_org_admin_leaves [OF m]
  have r: "same_roles d d'" using L by (simp add: d' same_roles_def)
  have ms: "same_members ?j d'" using L by (simp add: d' same_members_def)
  have x: "xs_members d' = xs_members ?j" using ms by (simp add: same_members_def)
  have "admins_sound d'" by (rule assignOrganizationAdmin_sound [OF assms(1)]) (use assms(2) in \<open>simp add: all_sound_def\<close>)
  moreover have "members_sound d'" using sound_cong(2) [OF ms] join_as_admin_sound assms(2) by (simp add: all_sound_def)
  moreover have "roles_sound d'" using sound_cong(3) [OF r] assms(2) by (simp add: all_sound_def)
  moreover have "member_roles_sound d'"
    by (rule member_roles_more [of d]) (use assms(2) r x join_as_admin_ids [of d u o'] in \<open>simp_all add: all_sound_def same_roles_def\<close>)
  ultimately show ?thesis by (simp add: all_sound_def)
qed

lemma create_admin_grant_sound:
  assumes "create_admin u ty x d = Inr (a, d2)" and "admins_sound d"
  shows "admins_sound (grant_all (ar_id a) ks d2)"
  by (rule create_admin_sound(1) [OF assms]) simp_all

lemma assignAdminRole_sound: "assignAdminRole w u ty x d = Inr (a, d') \<Longrightarrow> admins_sound d \<Longrightarrow> admins_sound d'"
  by (auto simp: assignAdminRole_def result_simps dest: create_admin_grant_sound)

lemma assignAdminWithPermissions_sound: "assignAdminWithPermissions w u ty x ks d = Inr (a, d') \<Longrightarrow> admins_sound d \<Longrightarrow> admins_sound d'"
  by (auto simp: assignAdminWithPermissions_def result_simps dest: create_admin_grant_sound)

lemma revokeAdminRole_sound:
  assumes "revokeAdminRole i w d = Inr (z, d')" and "admins_sound d"
  shows "admins_sound d'"
proof -
  from assms(1) have d': "d' = d\<lparr>xs_admins := update_by ar_id i (\<lambda>a. a\<lparr>ar_status := AdminRevoked\<rparr>) (xs_admins d)\<rparr>"
    by (auto simp: revokeAdminRole_def result_simps)
  show ?thesis by (rule admins_sound_update [OF assms(2)]) (use assms(2) in \<open>simp_all add: d' table_simps admins_sound_def grantees_def\<close>)
qed

lemma assignRoleToUser_all: "assignRoleToUser u v i g d = Inr (x, d') \<Longrightarrow> all_sound d \<Longrightarrow> all_sound d'"
proof -
  assume a: "assignRoleToUser u v i g d = Inr (x, d')" and s: "all_sound d"
  have "same_rest d d'" by (rule roles_leave(5) [OF a])
  moreover from this have "roles_sound d'" using s assignRoleToUser_sound(2,3) [OF a]
    by (simp add: all_sound_def roles_sound_def same_rest_def same_admins_def unused_ids_def)
  ultimately show "all_sound d'" using s assignRoleToUser_sound(1) [OF a] all_sound_roles [OF s] by (simp add: all_sound_def)
qed

text \<open>A request on roles that keeps the assignments of roles, and may add or rename roles.\<close>

lemma roles_all:
  assumes "all_sound d" and "same_rest d d'" and "roles_sound d'" and "rl_id ` set (xs_roles d) \<subseteq> rl_id ` set (xs_roles d')"
    and "xs_member_roles d' = xs_member_roles d"
  shows "all_sound d'"
  by (rule all_sound_roles [OF assms(1,3) member_roles_more assms(2)])
    (use assms in \<open>simp_all add: all_sound_def same_rest_def same_members_def\<close>)

lemma role_requests_all:
  assumes s: "all_sound d"
  shows "createRole u g n sys ko d = Inr (r, d') \<Longrightarrow> all_sound d'"
    and "updateRole i u m ko d = Inr (z, d') \<Longrightarrow> all_sound d'"
    and "deleteRole i u d = Inr (r, d') \<Longrightarrow> all_sound d'"
    and "cloneRole i n h d = Inr (r, d') \<Longrightarrow> all_sound d'"
    and "removeRoleFromUser i u d = Inr (z, d') \<Longrightarrow> all_sound d'"
proof -
  have r: "roles_sound d" "member_roles_sound d" using s by (simp_all add: all_sound_def)
  show "all_sound d'" if "createRole u g n sys ko d = Inr (r, d')"
    by (rule roles_all [OF s roles_leave(1) [OF that] createRole_sound [OF that r(1)]])
  show "all_sound d'" if "cloneRole i n h d = Inr (r, d')"
    by (rule roles_all [OF s roles_leave(4) [OF that] cloneRole_sound [OF that r(1)]])
  show "all_sound d'" if "updateRole i u m ko d = Inr (z, d')"
    using roles_all [OF s roles_leave(2) [OF that] updateRole_sound(1) [OF that r(1)]] updateRole_sound(2,3) [OF that r(1)] by simp
  show "all_sound d'" if "deleteRole i u d = Inr (r, d')"
    by (rule all_sound_roles [OF s deleteRole_sound(1) [OF that r(1)] deleteRole_sound(2) [OF that r(2)] roles_leave(3) [OF that]])
  show "all_sound d'" if x: "removeRoleFromUser i u d = Inr (z, d')"
  proof -
    have "same_rest d d'" by (rule roles_leave(6) [OF x])
    moreover from this have "roles_sound d'" using r(1) removeRoleFromUser_sound(2,3) [OF x]
      by (simp add: roles_sound_def same_rest_def same_admins_def unused_ids_def)
    ultimately show ?thesis using r(2) removeRoleFromUser_sound(1) [OF x] all_sound_roles [OF s] by simp
  qed
qed

lemma bulkAssignRoles_all: "all_sound d \<Longrightarrow> all_sound (bulkAssignRoles u xs d)"
proof (induction xs arbitrary: d)
  case (Cons x xs)
  obtain v r g where x: "x = (v, r, g)" by (cases x)
  have "all_sound (fst (transaction (assignRoleToUser u v r g) d))"
    by (rule transaction_invariant [of all_sound]) (use Cons.prems in \<open>auto dest: assignRoleToUser_all\<close>)
  with Cons.IH show ?case by (simp add: bulkAssignRoles_def x)
qed (simp add: bulkAssignRoles_def)

lemma assignments_all:
  assumes s: "all_sound d"
  shows "assignAdminRole w u ty x d = Inr (a, d') \<Longrightarrow> all_sound d'"
    and "assignAdminWithPermissions w u ty x ko d = Inr (a, d') \<Longrightarrow> all_sound d'"
    and "revokeAdminRole i w d = Inr (z, d') \<Longrightarrow> all_sound d'"
proof -
  have a: "admins_sound d" using s by (simp add: all_sound_def)
  show "all_sound d'" if "assignAdminRole w u ty x d = Inr (a, d')"
    by (rule all_sound_admins [OF s assignAdminRole_sound [OF that a] assignments_leave(3) [OF that]])
  show "all_sound d'" if "assignAdminWithPermissions w u ty x ko d = Inr (a, d')"
    by (rule all_sound_admins [OF s assignAdminWithPermissions_sound [OF that a] assignments_leave(4) [OF that]])
  show "all_sound d'" if "revokeAdminRole i w d = Inr (z, d')"
    by (rule all_sound_admins [OF s revokeAdminRole_sound [OF that a] assignments_leave(5) [OF that]])
qed

lemma request_sound: "all_sound d \<Longrightarrow> all_sound (perform_rbac (w, q) d)"
proof -
  assume s: "all_sound d"
  show ?thesis
  proof (cases q)
    case (UpdatePermissions i ks a)
    show ?thesis unfolding UpdatePermissions perform_rbac.simps
      by (rule all_sound_admins [OF s]) (use s in \<open>simp_all add: all_sound_def updateAdminPermissions_sound assignments_leave\<close>)
  next
    case (BulkAssign xs)
    then show ?thesis using bulkAssignRoles_all [OF s] by simp
  qed (simp_all, (rule transaction_invariant [of all_sound, OF s],
      erule assignments_all [OF s] role_requests_all [OF s] assignOrganizationAdmin_all [OF _ s] assignRoleToUser_all [OF _ s])+)
qed

interpretation rbac: kept_invariant perform_rbac all_sound
proof unfold_locales
  fix d e
  assume "all_sound d"
  then show "all_sound (perform_rbac e d)" by (cases e) (simp add: request_sound)
qed

text \<open>C22: Every sequence of requests on assignments, permissions and roles, successful or failing, keeps the tables
  sound: identifiers stay unique, a user has one membership of an organization, an organization one
  role of a name, and permissions of roles, roles of members and grants of assignments refer to rows
  that exist.\<close>

theorem rbac_requests_keep_sound:
  assumes "admins_sound d" and "members_sound d" and "roles_sound d" and "member_roles_sound d"
  shows "admins_sound (fold perform_rbac es d) \<and> members_sound (fold perform_rbac es d) \<and> roles_sound (fold perform_rbac es d) \<and>
    member_roles_sound (fold perform_rbac es d)"
  using rbac.sequence_keeps [of d es] assms by (simp add: all_sound_def)

section \<open>Who can make an administrator\<close>

text \<open>An active assignment that a request makes or gives back.\<close>

definition may_assign :: "access_db \<Rightarrow> ident \<Rightarrow> admin_row \<Rightarrow> bool" where
  "may_assign d w a \<longleftrightarrow> platform_admin d w \<or>
     ar_type a = ORGANIZATION_ADMIN \<and> (\<exists>g. ar_organization a = Some g \<and> is_org_admin d w g)"

lemma restored_admin:
  assumes "distinct (map ar_id as)" and "b \<in> set as" and "a \<in> set (update_by ar_id (ar_id b) (\<lambda>a. a\<lparr>ar_status := st\<rparr>) as)" and "a \<notin> set as"
  shows "a = b\<lparr>ar_status := st\<rparr>"
proof -
  from assms(3) [unfolded set_update_by] obtain c where c: "c \<in> set as" "a = (if ar_id c = ar_id b then c\<lparr>ar_status := st\<rparr> else c)"
    by (rule bexE)
  have "ar_id c = ar_id b"
  proof (rule ccontr)
    assume "ar_id c \<noteq> ar_id b"
    with c(2) have "a = c" by simp
    with c(1) assms(4) show False by simp
  qed
  then have "c = b" using lookup_by_distinct [OF assms(1) c(1)] lookup_by_distinct [OF assms(1,2)] by (metis option.inject)
  with c(2) show ?thesis by simp
qed

lemma request_admins:
  assumes "a \<in> set (xs_admins (perform_rbac (w, q) d))" and "ar_status a = AdminActive" and "a \<notin> set (xs_admins d)"
    and "distinct (map ar_id (xs_admins d))"
  shows "may_assign d w a"
proof (cases q)
  case (AssignAdmin v ty x)
  show ?thesis
  proof (rule transaction_cases [of "assignAdminRole w v ty x" d])
    assume "fst (transaction (assignAdminRole w v ty x) d) = d"
    with assms(1,3) AssignAdmin show ?thesis by simp
  next
    fix y d'
    assume "assignAdminRole w v ty x d = Inr (y, d')"
    from assignAdminRole_admins [OF this] show ?thesis by (simp add: may_assign_def)
  qed
next
  case (AssignWith v ty x ks)
  show ?thesis
  proof (rule transaction_cases [of "assignAdminWithPermissions w v ty x ks" d])
    assume "fst (transaction (assignAdminWithPermissions w v ty x ks) d) = d"
    with assms(1,3) AssignWith show ?thesis by simp
  next
    fix y d'
    assume "assignAdminWithPermissions w v ty x ks d = Inr (y, d')"
    from assignAdminWithPermissions_admins [OF this] show ?thesis by (simp add: may_assign_def)
  qed
next
  case (AssignOrgAdmin g v)
  with assms transaction_atomic [of "assignOrganizationAdmin w g v" d] obtain b where
    f: "assignOrganizationAdmin w g v d = Inr (b, perform_rbac (w, q) d)" by auto
  from assignOrganizationAdmin_admins(2) [OF f] have "org_admin_of v g a"
  proof (elim disjE exE bexE conjE)
    fix b
    assume "org_admin_of v g b" "xs_admins (perform_rbac (w, q) d) = xs_admins d @ [b]"
    with assms(1,3) show ?thesis by auto
  next
    fix b
    assume b: "b \<in> set (xs_admins d)" "org_admin_of v g b"
      and e: "xs_admins (perform_rbac (w, q) d) = update_by ar_id (ar_id b) (\<lambda>a. a\<lparr>ar_status := AdminActive\<rparr>) (xs_admins d)"
    from restored_admin [OF assms(4) b(1) assms(1) [unfolded e] assms(3)] b(2) show ?thesis by (simp add: org_admin_of_def)
  qed
  with assignOrganizationAdmin_admins(1) [OF f] show ?thesis by (simp add: may_assign_def org_admin_of_def)
next
  case (RevokeAdmin i)
  show ?thesis
  proof (rule transaction_cases [of "revokeAdminRole i w" d])
    assume "fst (transaction (revokeAdminRole i w) d) = d"
    with assms(1,3) RevokeAdmin show ?thesis by simp
  next
    fix y d'
    assume "revokeAdminRole i w d = Inr (y, d')"
    from revokeAdminRole_admins [OF this] show ?thesis by (simp add: may_assign_def)
  qed
qed (use assms in simp_all)

text \<open>C12: Every active assignment has an author: along every sequence of requests, an active assignment was there at
  the start, or a request of it was made by a platform administrator, or it is the assignment of an
  administrator of an organization and its author was one of the same organization. Without a platform
  administrator there never is one again.\<close>

theorem assignments_have_authors:
  assumes "all_sound d" and "a \<in> set (xs_admins (fold perform_rbac es d))" and "ar_status a = AdminActive"
  shows "(a \<in> set (xs_admins d) \<or> (\<exists>es1 w q es2. es = es1 @ (w, q) # es2 \<and> may_assign (fold perform_rbac es1 d) w a)) \<and>
    ((\<forall>u. \<not> platform_admin d u) \<longrightarrow> ar_type a \<noteq> PLATFORM_ADMIN)"
proof -
  have author: "a \<in> set (xs_admins d) \<or> (\<exists>es1 w q es2. es = es1 @ (w, q) # es2 \<and> may_assign (fold perform_rbac es1 d) w a)"
    if "a \<in> set (xs_admins (fold perform_rbac es d))" "ar_status a = AdminActive" for es a
    using that(1)
  proof (induction es rule: rev_induct)
    case Nil
    then show ?case by simp
  next
    case (snoc e es)
    obtain w q where e: "e = (w, q)" by (cases e)
    let ?d = "fold perform_rbac es d"
    show ?case
    proof (cases "a \<in> set (xs_admins ?d)")
      case True
      from snoc.IH [OF this] show ?thesis by (metis append.assoc append_Cons)
    next
      case False
      have "distinct (map ar_id (xs_admins ?d))" using rbac.sequence_keeps [OF assms(1), of es] by (simp add: all_sound_def admins_sound_def)
      with request_admins [of a w q ?d] False snoc.prems that(2) have "may_assign ?d w a" by (simp add: e)
      then show ?thesis unfolding e by blast
    qed
  qed
  have none: "\<not> platform_admin (fold perform_rbac es d) u" if n: "\<forall>u. \<not> platform_admin d u" for u es
  proof (induction es arbitrary: u rule: length_induct)
    case (1 es)
    show ?case
    proof
      assume "platform_admin (fold perform_rbac es d) u"
      then obtain b where b: "b \<in> set (xs_admins (fold perform_rbac es d))" "ar_status b = AdminActive" "ar_type b = PLATFORM_ADMIN"
        by (auto simp: platform_admin_def list_ex_iff)
      from author [OF b(1,2)] show False
      proof
        assume "b \<in> set (xs_admins d)"
        with b(2,3) n show False by (auto simp: platform_admin_def list_ex_iff)
      next
        assume "\<exists>es1 w q es2. es = es1 @ (w, q) # es2 \<and> may_assign (fold perform_rbac es1 d) w b"
        then obtain es1 w q es2 where "es = es1 @ (w, q) # es2" "platform_admin (fold perform_rbac es1 d) w"
          using b(3) by (auto simp: may_assign_def)
        with 1 show False by auto
      qed
    qed
  qed
  have "ar_type a \<noteq> PLATFORM_ADMIN" if "\<forall>u. \<not> platform_admin d u"
    using none [OF that, of es "ar_user a"] assms(2,3) by (auto simp: platform_admin_def list_ex_iff)
  with author [OF assms(2,3)] show ?thesis by blast
qed

section \<open>Revocation\<close>

lemma active_admins_revoked:
  assumes "distinct (map ar_id (xs_admins d))" and "revokeAdminRole i w d = Inr (z, d')"
  shows "active_admins d' u = filter (\<lambda>a. ar_id a \<noteq> i) (active_admins d u)"
proof -
  have "filter (\<lambda>a. ar_user a = u \<and> ar_status a = AdminActive) (update_by ar_id i (\<lambda>a. a\<lparr>ar_status := AdminRevoked\<rparr>) as) =
      filter (\<lambda>a. ar_id a \<noteq> i) (filter (\<lambda>a. ar_user a = u \<and> ar_status a = AdminActive) as)" for as
    by (induction as) (auto simp: update_by_def update_where_def)
  with revokeAdminRole_admins [OF assms(2)] show ?thesis by (simp add: active_admins_def)
qed

text \<open>C30: A revocation works at once: what it leaves the user are the other active assignments, whose permissions
  stay as they were, and a user without any passes neither the permission service nor the guard,
  whatever the request.\<close>

theorem revoked_admin_is_refused:
  assumes "all_sound d" and "get_admin d i = Some a" and "revokeAdminRole i w d = Inr (z, d')"
  shows "active_admins d' (ar_user a) = filter (\<lambda>b. ar_id b \<noteq> i) (active_admins d (ar_user a)) \<and>
    (\<forall>key res b. granted d' key res b \<longleftrightarrow> granted d key res b) \<and>
    (active_admins d (ar_user a) = [a] \<longrightarrow> (\<forall>key res. \<not> checkPermission d' (ar_user a) key res) \<and>
       (\<forall>h q. gq_user q = Some (ar_user a) \<longrightarrow> canActivate d' h q = Inl admin_required))"
proof -
  have d: "distinct (map ar_id (xs_admins d))" using assms(1) by (simp add: all_sound_def admins_sound_def)
  note E = active_admins_revoked [OF d assms(3), of "ar_user a"]
  have g: "xs_grants d' = xs_grants d" using assms(3) by (auto simp: revokeAdminRole_def result_simps)
  have "active_admins d' (ar_user a) = []" if "active_admins d (ar_user a) = [a]" using E that assms(2) by auto
  with E g show ?thesis by (auto simp: checkPermission_def canActivate_def granted_def require_def andThen_def require_some_def)
qed

section \<open>Which revoked assignments can be given again\<close>



















section \<open>Witnesses\<close>

text \<open>
  An institution with one organization in its current session, a platform administrator \<open>p\<close>, an
  administrator \<open>u\<close> of the organization, and a user \<open>v\<close> without any assignment.
\<close>

definition sample_platform :: admin_row where
  "sample_platform = \<lparr>ar_id = ''a'', ar_user = ''p'', ar_type = PLATFORM_ADMIN, ar_institution = None, ar_faculty = None, ar_department = None,
     ar_organization = None, ar_session = None, ar_status = AdminActive\<rparr>"

definition sample_org_admin :: admin_row where
  "sample_org_admin = \<lparr>ar_id = ''b'', ar_user = ''u'', ar_type = ORGANIZATION_ADMIN, ar_institution = Some ''i'', ar_faculty = None,
     ar_department = None, ar_organization = Some ''g'', ar_session = Some ''s'', ar_status = AdminActive\<rparr>"

definition sample_access :: access_db where
  "sample_access = \<lparr>xs_ids = sample_ids, xs_seq = 0, xs_users = [''p'', ''u'', ''v''], xs_institutions = [''i''], xs_faculties = [],
     xs_departments = [], xs_orgs = [\<lparr>or_id = ''g'', or_institution = Some ''i'', or_faculty = None, or_department = None,
       or_session = Some ''s'', or_active = True\<rparr>], xs_students = [], xs_members = [], xs_dues = [], xs_events = [], xs_announcements = [],
     xs_sessions = [\<lparr>sn_id = ''s'', sn_institution = ''i'', sn_current = True, sn_institution_scope = True\<rparr>],
     xs_admins = [sample_platform, sample_org_admin], xs_grants = [\<lparr>ag_admin = ''b'', ag_key = ''k'', ag_resource = None\<rparr>],
     xs_permissions = [], xs_roles = [], xs_role_permissions = [], xs_member_roles = [], xs_executive_roles = []\<rparr>"

lemmas sample_access_defs = sample_access_def sample_platform_def sample_org_admin_def

definition sample_guard_request :: guard_request where
  "sample_guard_request = \<lparr>gq_user = Some ''u'', gq_params = (\<lambda>x. if x = ''id'' then Some ''g'' else None), gq_query = (\<lambda>_. None), gq_body = (\<lambda>_. None)\<rparr>"

definition sample_handler :: handler_meta where
  "sample_handler = \<lparr>hm_types = [], hm_permission = Some ''k'', hm_param = Some ''id''\<rparr>"

lemma sample_access_sound: "all_sound sample_access"
proof -
  have "unused_ids sample_access ks" if "list_all (\<lambda>k. List.length k < 3) ks" for ks
    using that sample_ids_inj by (fastforce simp: unused_ids_def sample_access_def list_all_iff)
  from this [of "[''a'', ''b'']"] this [of "[]"] show ?thesis
    by (simp add: all_sound_def admins_sound_def members_sound_def roles_sound_def member_roles_sound_def grantees_def)
      (simp add: sample_access_defs)
qed

lemma sample_scopes [simp]: "\<not> names_scope sample_guard_request" "asked_session sample_guard_request = None"
  by (simp_all add: names_scope_def asked_organization_def asked_faculty_def asked_department_def asked_institution_def asked_session_def
      sample_guard_request_def nonempty_def)

lemma sample_may: "checkPermission sample_access ''u'' ''k'' (Some ''g'')"
  by code_simp

theorem guard_agrees_with_service_witness: "(\<exists>a. canActivate sample_access sample_handler sample_guard_request = Inr a) \<longleftrightarrow> checkPermission sample_access ''u'' ''k'' (Some ''g'')"
  by (rule guard_agrees_with_service [where p = "''id''"])
    (simp_all add: sample_handler_def, simp_all add: sample_guard_request_def sample_access_defs active_admins_def scope_given_def)

lemma sample_admitted: "canActivate sample_access sample_handler sample_guard_request = Inr sample_org_admin"
  by code_simp

theorem guard_needs_authority_witness:
  "\<exists>u. gq_user sample_guard_request = Some u \<and> has_authority sample_access u ''k'' (asked_resource sample_handler sample_guard_request) sample_org_admin"
proof -
  have "hm_permission sample_handler = Some ''k''" by (simp add: sample_handler_def)
  from guard_needs_authority [OF sample_admitted this] show ?thesis by auto
qed

theorem rbac_requests_keep_sound_witness:
  "admins_sound (perform_rbac (''p'', RevokeAdmin ''b'') (perform_rbac (''u'', AssignOrgAdmin ''g'' ''v'') sample_access))"
  using rbac_requests_keep_sound [of sample_access "[(''u'', AssignOrgAdmin ''g'' ''v''), (''p'', RevokeAdmin ''b'')]"] sample_access_sound
  by (simp add: all_sound_def)

text \<open>The second administrator of the organization, whom the first makes.\<close>

definition sample_second :: admin_row where
  "sample_second = sample_org_admin\<lparr>ar_id := sample_ids 1, ar_user := ''v''\<rparr>"

theorem assignments_have_authors_witness:
  "\<exists>es1 w q es2. [(''u'', AssignOrgAdmin ''g'' ''v'')] = es1 @ (w, q) # es2 \<and> may_assign (fold perform_rbac es1 sample_access) w sample_second"
proof -
  have "sample_second \<in> set (xs_admins (fold perform_rbac [(''u'', AssignOrgAdmin ''g'' ''v'')] sample_access))" by code_simp
  from assignments_have_authors [OF sample_access_sound this] show ?thesis
    by (auto simp: sample_second_def sample_access_defs)
qed

theorem revoked_admin_is_refused_witness:
  "\<exists>d'. revokeAdminRole ''b'' ''p'' sample_access = Inr ((), d') \<and> \<not> checkPermission d' ''u'' ''k'' (Some ''g'') \<and>
     canActivate d' sample_handler sample_guard_request = Inl admin_required"
proof -
  have g: "get_admin sample_access ''b'' = Some sample_org_admin" by code_simp
  have "platform_admin sample_access ''p''" by code_simp
  with g have "\<exists>d'. revokeAdminRole ''b'' ''p'' sample_access = Inr ((), d')" by (simp add: revokeAdminRole_def)
  then obtain d' where d': "revokeAdminRole ''b'' ''p'' sample_access = Inr ((), d')" ..
  have "ar_user sample_org_admin = ''u''" "active_admins sample_access ''u'' = [sample_org_admin]" "gq_user sample_guard_request = Some ''u''"
    by code_simp+
  with revoked_admin_is_refused [OF sample_access_sound g d'] d' show ?thesis by auto
qed




end
