(* ===== verification/Elections.thy ===== *)
theory Elections
  imports Rbac JsNumber
begin

text \<open>
  The operations of \<open>src/v1/governance/governance.service.ts\<close>: elections, candidates, ballots, results,
  committees and executive terms, and the cache of elections in front of the database. They are the methods
  of the service: what the pipe in front of the controller refuses is not modelled (it refuses every
  identifier the database makes, since the DTOs ask for a UUID and the keys are cuids).
\<close>

section \<open>Tables\<close>

datatype election_status = ElDraft | ElNomination | ElActive | ElCompleted | ElCancelled

datatype candidate_status = CaNominated | CaApproved | CaRejected | CaWithdrawn

datatype committee_status = CoActive | CoInactive | CoDissolved

datatype term_status = TeUpcoming | TeActive | TeCompleted

record election_row =
  el_id :: ident
  el_organization :: ident
  el_title :: string
  el_description :: "string option"
  el_start :: int
  el_end :: int
  el_status :: election_status

record position_row =
  po_id :: ident
  po_election :: ident
  po_title :: string
  po_description :: "string option"
  po_max_candidates :: int
  po_max_votes :: int
  po_order :: int

record candidate_row =
  ca_id :: ident
  ca_election :: ident
  ca_position :: ident
  ca_user :: ident
  ca_manifesto :: "string option"
  ca_photo :: "string option"
  ca_status :: candidate_status

record vote_row =
  vo_id :: ident
  vo_election :: ident
  vo_candidate :: ident
  vo_voter :: ident

record committee_row =
  co_id :: ident
  co_organization :: ident
  co_name :: string
  co_description :: "string option"
  co_purpose :: "string option"
  co_status :: committee_status

record term_row =
  te_id :: ident
  te_organization :: ident
  te_title :: string
  te_description :: "string option"
  te_start :: int
  te_end :: int
  te_status :: term_status

record executive_row =
  ex_id :: ident
  ex_term :: ident
  ex_user :: ident
  ex_role :: ident

text \<open>What \<open>getElectionById\<close> returns: a position with its candidates, a candidate with its votes.\<close>

record election_view =
  ew_election :: election_row
  ew_positions :: "(position_row \<times> (candidate_row \<times> vote_row list) list) list"
  ew_votes :: "vote_row list"

text \<open>
  Organizations, members, administrators, users and roles are those of \<open>access_db\<close>. \<open>gv_cache\<close> holds the
  entries \<open>election:<id>\<close> that have not expired.
\<close>

record governance_db =
  gv_ids :: "nat \<Rightarrow> ident"
  gv_seq :: nat
  gv_access :: access_db
  gv_elections :: "election_row list"
  gv_positions :: "position_row list"
  gv_candidates :: "candidate_row list"
  gv_votes :: "vote_row list"
  gv_committees :: "committee_row list"
  gv_terms :: "term_row list"
  gv_executives :: "executive_row list"
  gv_cache :: "ident \<Rightarrow> election_view option"

abbreviation get_election :: "governance_db \<Rightarrow> ident \<Rightarrow> election_row option" where
  "get_election d i \<equiv> lookup_by el_id i (gv_elections d)"

abbreviation get_position :: "governance_db \<Rightarrow> ident \<Rightarrow> position_row option" where
  "get_position d i \<equiv> lookup_by po_id i (gv_positions d)"

abbreviation get_candidate :: "governance_db \<Rightarrow> ident \<Rightarrow> candidate_row option" where
  "get_candidate d i \<equiv> lookup_by ca_id i (gv_candidates d)"

definition row_id :: "governance_db \<Rightarrow> ident" where
  "row_id d = gv_ids d (gv_seq d)"

text \<open>The client refuses a row whose required relation is missing.\<close>

definition missing_relation :: http_error where
  "missing_relation = Internal (STR ''Inconsistent query result'')"

text \<open>The \<open>Int\<close> columns have 32 bits.\<close>

definition out_of_range :: http_error where
  "out_of_range = Internal (STR ''Unable to fit integer value into an INT4'')"

definition fits_int4 :: "int \<Rightarrow> bool" where
  "fits_int4 n \<longleftrightarrow> - (2 ^ 31) \<le> n \<and> n < 2 ^ 31"

section \<open>Elections\<close>

text \<open>\<open>x || k\<close> on an optional number.\<close>

definition or_default :: "int option \<Rightarrow> int \<Rightarrow> int" where
  "or_default x k = (case x of None \<Rightarrow> k | Some n \<Rightarrow> if n = 0 then k else n)"

record position_dto =
  pd_title :: string
  pd_description :: "string option"
  pd_max_candidates :: "int option"
  pd_max_votes :: "int option"
  pd_order :: "int option"

record election_dto =
  xd_organization :: ident
  xd_title :: string
  xd_description :: "string option"
  xd_start :: int
  xd_end :: int
  xd_status :: "election_status option"
  xd_positions :: "position_dto list"

definition may_govern :: "String.literal \<Rightarrow> governance_db \<Rightarrow> ident \<Rightarrow> ident \<Rightarrow> unit result" where
  "may_govern m d u g = require (manages_roles (gv_access d) u g) (Forbidden m)"

definition new_position :: "ident \<Rightarrow> position_dto \<Rightarrow> governance_db \<Rightarrow> position_row" where
  "new_position e x d =
     \<lparr>po_id = row_id d, po_election = e, po_title = pd_title x, po_description = pd_description x,
      po_max_candidates = or_default (pd_max_candidates x) 3, po_max_votes = or_default (pd_max_votes x) 1,
      po_order = or_default (pd_order x) 0\<rparr>"

primrec add_positions :: "ident \<Rightarrow> position_dto list \<Rightarrow> governance_db \<Rightarrow> governance_db result" where
  "add_positions e [] d = Inr d"
| "add_positions e (x # xs) d =
     (let p = new_position e x d
      in andThen (require (fits_int4 (po_max_candidates p) \<and> fits_int4 (po_max_votes p) \<and> fits_int4 (po_order p)) out_of_range) (\<lambda>_.
         add_positions e xs (d\<lparr>gv_positions := gv_positions d @ [p], gv_seq := Suc (gv_seq d)\<rparr>)))"

definition new_election :: "election_dto \<Rightarrow> governance_db \<Rightarrow> election_row" where
  "new_election x d =
     \<lparr>el_id = row_id d, el_organization = xd_organization x, el_title = xd_title x, el_description = xd_description x,
      el_start = xd_start x, el_end = xd_end x, el_status = (case xd_status x of None \<Rightarrow> ElDraft | Some s \<Rightarrow> s)\<rparr>"

definition createElection :: "ident \<Rightarrow> election_dto \<Rightarrow> governance_db \<Rightarrow> (election_row \<times> governance_db) result" where
  "createElection u x d =
     andThen (require (get_org (gv_access d) (xd_organization x) \<noteq> None) (NotFound (STR ''Organization not found''))) (\<lambda>_.
     andThen (may_govern (STR ''You do not have permission to create elections'') d u (xd_organization x)) (\<lambda>_.
       let e = new_election x d
       in andThen (add_positions (el_id e) (xd_positions x) (d\<lparr>gv_elections := gv_elections d @ [e], gv_seq := Suc (gv_seq d)\<rparr>)) (\<lambda>d'.
          Inr (e, d'))))"

definition write_election :: "ident \<Rightarrow> (election_row \<Rightarrow> election_row) \<Rightarrow> governance_db \<Rightarrow> governance_db" where
  "write_election i f d = d\<lparr>gv_elections := update_by el_id i f (gv_elections d), gv_cache := (gv_cache d)(i := None)\<rparr>"

text \<open>A column that is \<open>undefined\<close> in \<open>data\<close> is not written.\<close>

record election_update =
  eu_title :: "string option"
  eu_description :: "string option"
  eu_start :: "int option"
  eu_end :: "int option"
  eu_status :: "election_status option"

definition apply_update :: "election_update \<Rightarrow> election_row \<Rightarrow> election_row" where
  "apply_update x e = e\<lparr>
     el_title := case_option (el_title e) id (eu_title x),
     el_description := (case eu_description x of None \<Rightarrow> el_description e | Some s \<Rightarrow> Some s),
     el_start := case_option (el_start e) id (eu_start x),
     el_end := case_option (el_end e) id (eu_end x),
     el_status := case_option (el_status e) id (eu_status x)\<rparr>"

definition updateElection :: "ident \<Rightarrow> ident \<Rightarrow> election_update \<Rightarrow> governance_db \<Rightarrow> (unit \<times> governance_db) result" where
  "updateElection i u x d =
     andThen (require_some (get_election d i) (NotFound (STR ''Election not found''))) (\<lambda>e.
     andThen (may_govern (STR ''You do not have permission to update this election'') d u (el_organization e)) (\<lambda>_.
     andThen (require (el_status e \<noteq> ElActive \<and> el_status e \<noteq> ElCompleted) (BadRequest (STR ''Cannot update an active or completed election''))) (\<lambda>_.
       Inr ((), write_election i (apply_update x) d))))"

definition startElection :: "ident \<Rightarrow> ident \<Rightarrow> int \<Rightarrow> governance_db \<Rightarrow> (unit \<times> governance_db) result" where
  "startElection i u now d =
     andThen (require_some (get_election d i) (NotFound (STR ''Election not found''))) (\<lambda>e.
     andThen (may_govern (STR ''You do not have permission to start this election'') d u (el_organization e)) (\<lambda>_.
     andThen (require (el_status e \<noteq> ElActive) (BadRequest (STR ''Election is already active''))) (\<lambda>_.
     andThen (require (el_status e \<noteq> ElCompleted) (BadRequest (STR ''Election is already completed''))) (\<lambda>_.
     andThen (require (list_ex (\<lambda>c. ca_election c = i) (gv_candidates d)) (BadRequest (STR ''Cannot start election with no candidates''))) (\<lambda>_.
       Inr ((), write_election i (\<lambda>e. e\<lparr>el_status := ElActive, el_start := now\<rparr>) d))))))"

definition endElection :: "ident \<Rightarrow> ident \<Rightarrow> int \<Rightarrow> governance_db \<Rightarrow> (unit \<times> governance_db) result" where
  "endElection i u now d =
     andThen (require_some (get_election d i) (NotFound (STR ''Election not found''))) (\<lambda>e.
     andThen (may_govern (STR ''You do not have permission to end this election'') d u (el_organization e)) (\<lambda>_.
     andThen (require (el_status e \<noteq> ElCompleted) (BadRequest (STR ''Election is already completed''))) (\<lambda>_.
       Inr ((), write_election i (\<lambda>e. e\<lparr>el_status := ElCompleted, el_end := now\<rparr>) d))))"

text \<open>The election as stored; the positions in their order.\<close>

definition view_election :: "governance_db \<Rightarrow> election_row \<Rightarrow> election_view" where
  "view_election d e =
     \<lparr>ew_election = e,
      ew_positions = map (\<lambda>p. (p, map (\<lambda>c. (c, filter (\<lambda>v. vo_candidate v = ca_id c) (gv_votes d)))
          (filter (\<lambda>c. ca_position c = po_id p) (gv_candidates d))))
        (sort_key po_order (filter (\<lambda>p. po_election p = el_id e) (gv_positions d))),
      ew_votes = filter (\<lambda>v. vo_election v = el_id e) (gv_votes d)\<rparr>"

definition getElectionById :: "ident \<Rightarrow> governance_db \<Rightarrow> (election_view \<times> governance_db) result" where
  "getElectionById i d =
     (case gv_cache d i of
        Some w \<Rightarrow> Inr (w, d)
      | None \<Rightarrow>
          andThen (require_some (get_election d i) (NotFound (STR ''Election not found''))) (\<lambda>e.
            Inr (view_election d e, d\<lparr>gv_cache := (gv_cache d)(i \<mapsto> view_election d e)\<rparr>)))"

section \<open>Candidates\<close>

record nomination =
  nm_position :: ident
  nm_user :: ident
  nm_manifesto :: "string option"
  nm_photo :: "string option"

definition new_candidate :: "ident \<Rightarrow> nomination \<Rightarrow> governance_db \<Rightarrow> candidate_row" where
  "new_candidate e x d =
     \<lparr>ca_id = row_id d, ca_election = e, ca_position = nm_position x, ca_user = nm_user x, ca_manifesto = nm_manifesto x,
      ca_photo = nm_photo x, ca_status = CaNominated\<rparr>"

text \<open>
  A nomination is modelled as it runs alone: then the unique index on election, position and user follows
  from the first search.
\<close>

definition nominateCandidate :: "nomination \<Rightarrow> governance_db \<Rightarrow> (candidate_row \<times> governance_db) result" where
  "nominateCandidate x d =
     andThen (require_some (get_position d (nm_position x)) (NotFound (STR ''Position not found''))) (\<lambda>p.
     andThen (require_some (get_election d (po_election p)) missing_relation) (\<lambda>e.
     andThen (require (el_status e = ElDraft \<or> el_status e = ElNomination) (BadRequest (STR ''Nominations are not open for this election''))) (\<lambda>_.
     andThen (require (\<not> list_ex (\<lambda>c. ca_position c = nm_position x \<and> ca_user c = nm_user x) (gv_candidates d))
       (Conflict (STR ''Candidate already nominated for this position''))) (\<lambda>_.
     andThen (require (int (length (filter (\<lambda>c. ca_position c = nm_position x) (gv_candidates d))) < po_max_candidates p)
       (BadRequest (STR ''Maximum number of candidates reached for this position''))) (\<lambda>_.
     andThen (require (active_member (gv_access d) (nm_user x) (el_organization e) \<noteq> None)
       (Forbidden (STR ''Candidate must be a member of the organization''))) (\<lambda>_.
     andThen (require (nm_user x \<in> set (xs_users (gv_access d))) foreign_key_violation) (\<lambda>_.
       let c = new_candidate (el_id e) x d
       in Inr (c, d\<lparr>gv_candidates := gv_candidates d @ [c], gv_seq := Suc (gv_seq d)\<rparr>))))))))"

definition approveCandidate :: "ident \<Rightarrow> ident \<Rightarrow> governance_db \<Rightarrow> (unit \<times> governance_db) result" where
  "approveCandidate i u d =
     andThen (require_some (get_candidate d i) (NotFound (STR ''Candidate not found''))) (\<lambda>c.
     andThen (require_some (get_election d (ca_election c)) missing_relation) (\<lambda>e.
     andThen (may_govern (STR ''You do not have permission to approve candidates'') d u (el_organization e)) (\<lambda>_.
       Inr ((), d\<lparr>gv_candidates := update_by ca_id i (\<lambda>c. c\<lparr>ca_status := CaApproved\<rparr>) (gv_candidates d)\<rparr>))))"

section \<open>Ballots\<close>

record ballot =
  bl_election :: ident
  bl_votes :: "(ident \<times> ident) list"

type_synonym slate = "(position_row \<times> candidate_row list) list"

definition slate_of :: "governance_db \<Rightarrow> ident \<Rightarrow> slate" where
  "slate_of d i = map (\<lambda>p. (p, filter (\<lambda>c. ca_position c = po_id p) (gv_candidates d))) (filter (\<lambda>p. po_election p = i) (gv_positions d))"

text \<open>
  Before the transaction the handler reads the election with its positions and candidates and checks who
  may vote; inside it works on the slate that it has read.
\<close>

definition check_ballot :: "ident \<Rightarrow> ballot \<Rightarrow> int \<Rightarrow> governance_db \<Rightarrow> slate result" where
  "check_ballot u x now d =
     andThen (require_some (get_election d (bl_election x)) (NotFound (STR ''Election not found''))) (\<lambda>e.
     andThen (require (el_status e = ElActive) (BadRequest (STR ''Election is not active''))) (\<lambda>_.
     andThen (require (\<not> el_end e < now) (BadRequest (STR ''Election has ended''))) (\<lambda>_.
     andThen (require (active_member (gv_access d) u (el_organization e) \<noteq> None)
       (Forbidden (STR ''You must be a member of the organization to vote''))) (\<lambda>_.
     andThen (require (\<not> list_ex (\<lambda>v. vo_election v = bl_election x \<and> vo_voter v = u) (gv_votes d))
       (Conflict (STR ''You have already voted in this election''))) (\<lambda>_.
       Inr (slate_of d (bl_election x)))))))"

definition votes_for_position :: "governance_db \<Rightarrow> ident \<Rightarrow> ident \<Rightarrow> ident \<Rightarrow> vote_row list" where
  "votes_for_position d i u p =
     filter (\<lambda>v. vo_election v = i \<and> vo_voter v = u \<and> list_ex (\<lambda>c. ca_id c = vo_candidate v \<and> ca_position c = p) (gv_candidates d)) (gv_votes d)"

text \<open>
  The three statements of one vote. What \<open>find\<close> looks up in the slate costs no statement. Elections and
  candidates are never deleted, so that of the references of a vote only the voter can be missing; the unique
  index of votes is on election, voter and candidate (and not on the position).
\<close>

definition search_vote :: "ident \<Rightarrow> ident \<Rightarrow> slate \<Rightarrow> ident \<times> ident \<Rightarrow> governance_db \<Rightarrow> position_row result" where
  "search_vote u i s x d =
     andThen (require_some (find (\<lambda>(p, cs). po_id p = fst x) s) (BadRequest (STR ''Position not found in this election''))) (\<lambda>(p, cs).
     andThen (require_some (lookup_by ca_id (snd x) cs) (BadRequest (STR ''Candidate not found for position''))) (\<lambda>c.
     andThen (require (votes_for_position d i u (fst x) = []) (Conflict (STR ''You have already voted for position''))) (\<lambda>_.
       Inr p)))"

definition count_votes :: "ident \<Rightarrow> ident \<Rightarrow> position_row \<Rightarrow> ident \<times> ident \<Rightarrow> governance_db \<Rightarrow> unit result" where
  "count_votes u i p x d =
     require (int (length (votes_for_position d i u (fst x))) < po_max_votes p)
       (BadRequest (STR ''You have reached the maximum votes for position''))"

definition vote_key :: "vote_row \<Rightarrow> ident \<times> ident \<times> ident" where
  "vote_key v = (vo_election v, vo_voter v, vo_candidate v)"

definition new_vote :: "ident \<Rightarrow> ident \<Rightarrow> ident \<Rightarrow> governance_db \<Rightarrow> vote_row" where
  "new_vote u i c d = \<lparr>vo_id = row_id d, vo_election = i, vo_candidate = c, vo_voter = u\<rparr>"

definition insert_vote :: "ident \<Rightarrow> ident \<Rightarrow> ident \<Rightarrow> governance_db \<Rightarrow> governance_db result" where
  "insert_vote u i c d =
     andThen (require (\<not> list_ex (\<lambda>v. vote_key v = (i, u, c)) (gv_votes d)) (Internal (STR ''P2002''))) (\<lambda>_.
     andThen (require (u \<in> set (xs_users (gv_access d))) foreign_key_violation) (\<lambda>_.
       Inr (d\<lparr>gv_votes := gv_votes d @ [new_vote u i c d], gv_seq := Suc (gv_seq d)\<rparr>)))"

text \<open>
  A transaction that nothing overlaps: its statements one after the other. How the statements of several
  transactions interleave is \<open>governance_step\<close> below.
\<close>

definition record_vote :: "ident \<Rightarrow> ident \<Rightarrow> slate \<Rightarrow> ident \<times> ident \<Rightarrow> governance_db \<Rightarrow> governance_db result" where
  "record_vote u i s x d =
     andThen (search_vote u i s x d) (\<lambda>p.
     andThen (count_votes u i p x d) (\<lambda>_.
       insert_vote u i (snd x) d))"

primrec record_votes :: "ident \<Rightarrow> ident \<Rightarrow> slate \<Rightarrow> (ident \<times> ident) list \<Rightarrow> governance_db \<Rightarrow> governance_db result" where
  "record_votes u i s [] d = Inr d"
| "record_votes u i s (x # xs) d = andThen (record_vote u i s x d) (record_votes u i s xs)"

definition store_ballot :: "ident \<Rightarrow> ballot \<Rightarrow> slate \<Rightarrow> governance_db \<Rightarrow> (nat \<times> governance_db) result" where
  "store_ballot u x s d = andThen (record_votes u (bl_election x) s (bl_votes x) d) (\<lambda>d'. Inr (length (bl_votes x), d'))"

definition castVote :: "ident \<Rightarrow> ballot \<Rightarrow> int \<Rightarrow> governance_db \<Rightarrow> (nat \<times> governance_db) result" where
  "castVote u x now d = andThen (check_ballot u x now d) (\<lambda>s. store_ballot u x s d)"

section \<open>Results\<close>

record candidate_result =
  cr_candidate :: ident
  cr_user :: ident
  cr_votes :: nat
  cr_percentage :: rat
  cr_manifesto :: "string option"
  cr_status :: candidate_status

record position_result =
  pr_position :: ident
  pr_title :: string
  pr_candidates :: "candidate_result list"
  pr_total :: nat

record election_results =
  rs_election :: election_row
  rs_voters :: nat
  rs_positions :: "position_result list"

definition votes_of :: "governance_db \<Rightarrow> candidate_row \<Rightarrow> nat" where
  "votes_of d c = length (filter (\<lambda>v. vo_candidate v = ca_id c) (gv_votes d))"

definition percentage :: "nat \<Rightarrow> nat \<Rightarrow> rat" where
  "percentage n t = (if 0 < t then dbl (dbl (of_nat n / of_nat t) * 100) else 0)"

definition position_results :: "governance_db \<Rightarrow> position_row \<times> candidate_row list \<Rightarrow> position_result" where
  "position_results d x =
     (case x of (p, cs) \<Rightarrow>
        let t = sum_list (map (votes_of d) cs)
        in \<lparr>pr_position = po_id p, pr_title = po_title p,
            pr_candidates = map (\<lambda>c. \<lparr>cr_candidate = ca_id c, cr_user = ca_user c, cr_votes = votes_of d c,
              cr_percentage = percentage (votes_of d c) t, cr_manifesto = ca_manifesto c, cr_status = ca_status c\<rparr>) cs,
            pr_total = t\<rparr>)"

definition getElectionResults :: "ident \<Rightarrow> governance_db \<Rightarrow> election_results result" where
  "getElectionResults i d =
     andThen (require_some (get_election d i) (NotFound (STR ''Election not found''))) (\<lambda>e.
       Inr \<lparr>rs_election = e, rs_voters = length (remdups (map vo_voter (filter (\<lambda>v. vo_election v = i) (gv_votes d)))),
         rs_positions = map (position_results d) (slate_of d i)\<rparr>)"

record election_stats =
  st_total :: nat
  st_active :: nat
  st_completed :: nat
  st_upcoming :: nat
  st_votes :: nat
  st_candidates :: nat
  st_turnout :: int

definition getElectionStats :: "ident option \<Rightarrow> int \<Rightarrow> governance_db \<Rightarrow> election_stats" where
  "getElectionStats g now d =
     (let es = filter (\<lambda>e. where_column (nonempty g) (el_organization e)) (gv_elections d);
          total = length es;
          votes = length (filter (\<lambda>v. vo_election v \<in> el_id ` set es) (gv_votes d))
      in \<lparr>st_total = total, st_active = length (filter (\<lambda>e. el_status e = ElActive) es),
          st_completed = length (filter (\<lambda>e. el_status e = ElCompleted) es),
          st_upcoming = length (filter (\<lambda>e. el_status e = ElDraft \<and> now < el_start e) es),
          st_votes = votes, st_candidates = length (filter (\<lambda>c. ca_election c \<in> el_id ` set es) (gv_candidates d)),
          st_turnout = (if 0 < total then js_round (dbl (dbl (of_nat votes / of_nat (total * 10)) * 100)) else 0)\<rparr>)"

section \<open>Committees and executive terms\<close>

record committee_dto =
  cm_organization :: ident
  cm_name :: string
  cm_description :: "string option"
  cm_purpose :: "string option"
  cm_status :: "committee_status option"

definition createCommittee :: "ident \<Rightarrow> committee_dto \<Rightarrow> governance_db \<Rightarrow> (committee_row \<times> governance_db) result" where
  "createCommittee u x d =
     andThen (require (get_org (gv_access d) (cm_organization x) \<noteq> None) (NotFound (STR ''Organization not found''))) (\<lambda>_.
     andThen (may_govern (STR ''You do not have permission to create committees'') d u (cm_organization x)) (\<lambda>_.
       let c = \<lparr>co_id = row_id d, co_organization = cm_organization x, co_name = cm_name x, co_description = cm_description x,
         co_purpose = cm_purpose x, co_status = (case cm_status x of None \<Rightarrow> CoActive | Some s \<Rightarrow> s)\<rparr>
       in Inr (c, d\<lparr>gv_committees := gv_committees d @ [c], gv_seq := Suc (gv_seq d)\<rparr>)))"

record term_dto =
  td_organization :: ident
  td_title :: string
  td_description :: "string option"
  td_start :: int
  td_end :: int
  td_status :: "term_status option"
  td_members :: "(ident \<times> ident) list"

text \<open>A member holds one office of a term, and keeps the role of the office from being deleted.\<close>

primrec add_executives :: "ident \<Rightarrow> (ident \<times> ident) list \<Rightarrow> governance_db \<Rightarrow> governance_db result" where
  "add_executives t [] d = Inr d"
| "add_executives t (x # xs) d =
     andThen (require (\<not> list_ex (\<lambda>y. ex_term y = t \<and> ex_user y = fst x) (gv_executives d)) (Internal (STR ''P2002''))) (\<lambda>_.
     andThen (require (fst x \<in> set (xs_users (gv_access d)) \<and> get_role (gv_access d) (snd x) \<noteq> None) foreign_key_violation) (\<lambda>_.
       add_executives t xs (d\<lparr>gv_executives := gv_executives d @ [\<lparr>ex_id = row_id d, ex_term = t, ex_user = fst x, ex_role = snd x\<rparr>],
         gv_access := (gv_access d)\<lparr>xs_executive_roles := xs_executive_roles (gv_access d) @ [snd x]\<rparr>, gv_seq := Suc (gv_seq d)\<rparr>)))"

definition new_term :: "term_dto \<Rightarrow> governance_db \<Rightarrow> term_row" where
  "new_term x d =
     \<lparr>te_id = row_id d, te_organization = td_organization x, te_title = td_title x, te_description = td_description x,
      te_start = td_start x, te_end = td_end x, te_status = (case td_status x of None \<Rightarrow> TeUpcoming | Some s \<Rightarrow> s)\<rparr>"

definition createExecutiveTerm :: "ident \<Rightarrow> term_dto \<Rightarrow> governance_db \<Rightarrow> (term_row \<times> governance_db) result" where
  "createExecutiveTerm u x d =
     andThen (require (get_org (gv_access d) (td_organization x) \<noteq> None) (NotFound (STR ''Organization not found''))) (\<lambda>_.
     andThen (may_govern (STR ''You do not have permission to create executive terms'') d u (td_organization x)) (\<lambda>_.
       let t = new_term x d
       in andThen (add_executives (te_id t) (td_members x) (d\<lparr>gv_terms := gv_terms d @ [t], gv_seq := Suc (gv_seq d)\<rparr>)) (\<lambda>d'.
          Inr (t, d'))))"

section \<open>Requests\<close>

datatype governance_request =
    CreateElection ident election_dto
  | UpdateElection ident ident election_update
  | StartElection ident ident int
  | EndElection ident ident int
  | Nominate nomination
  | ApproveCandidate ident ident
  | CastVote ident ballot int
  | ReadElection ident
  | CreateCommittee ident committee_dto
  | CreateTerm ident term_dto
  | CacheExpiry ident
  | OtherServices access_db

text \<open>
  A cached election may go at any time, and the other services may leave any members, administrators,
  organizations and users behind.
\<close>

fun perform_governance :: "governance_request \<Rightarrow> governance_db \<Rightarrow> governance_db" where
  "perform_governance (CreateElection u x) d = fst (transaction (createElection u x) d)"
| "perform_governance (UpdateElection i u x) d = fst (transaction (updateElection i u x) d)"
| "perform_governance (StartElection i u now) d = fst (transaction (startElection i u now) d)"
| "perform_governance (EndElection i u now) d = fst (transaction (endElection i u now) d)"
| "perform_governance (Nominate x) d = fst (transaction (nominateCandidate x) d)"
| "perform_governance (ApproveCandidate i u) d = fst (transaction (approveCandidate i u) d)"
| "perform_governance (CastVote u x now) d = fst (transaction (castVote u x now) d)"
| "perform_governance (ReadElection i) d = fst (transaction (getElectionById i) d)"
| "perform_governance (CreateCommittee u x) d = fst (transaction (createCommittee u x) d)"
| "perform_governance (CreateTerm u x) d = fst (transaction (createExecutiveTerm u x) d)"
| "perform_governance (CacheExpiry i) d = d\<lparr>gv_cache := (gv_cache d)(i := None)\<rparr>"
| "perform_governance (OtherServices a) d = d\<lparr>gv_access := a\<rparr>"

subsection \<open>Ballots that overlap\<close>

text \<open>
  A ballot that has passed the checks runs its transaction on the slate it has read, statement by statement.
  The transaction has the default isolation, \<open>READ COMMITTED\<close>, and takes no lock on the voter: every
  statement reads what is committed by then and the transaction's own rows, but no row of another open
  transaction.
\<close>

datatype ballot_stage = Searching | Counting position_row | Inserting

record ballot_run =
  br_voter :: ident
  br_election :: ident
  br_slate :: slate
  br_entries :: "(ident \<times> ident) list"
  br_stage :: ballot_stage
  br_rows :: "vote_row list"

definition begin_ballot :: "ident \<Rightarrow> ballot \<Rightarrow> slate \<Rightarrow> ballot_run" where
  "begin_ballot u x s = \<lparr>br_voter = u, br_election = bl_election x, br_slate = s, br_entries = bl_votes x, br_stage = Searching, br_rows = []\<rparr>"

definition sees :: "ballot_run \<Rightarrow> governance_db \<Rightarrow> governance_db" where
  "sees r d = d\<lparr>gv_votes := gv_votes d @ br_rows r\<rparr>"

definition holds_key :: "ident \<times> ident \<times> ident \<Rightarrow> ballot_run \<Rightarrow> bool" where
  "holds_key k r \<longleftrightarrow> list_ex (\<lambda>v. vote_key v = k) (br_rows r)"

fun is_ballot :: "governance_request \<Rightarrow> bool" where
  "is_ballot (CastVote u x now) = True"
| "is_ballot _ = False"

text \<open>
  Ballots overlap one another and all other requests; each of the other requests runs alone between two
  statements, and the reads of a ballot before its transaction are one step. An insertion waits while another open transaction holds a row with its key. A transaction may
  end without effect at any time, by an error of a statement or for a reason of its own (its time limit, a
  lost connection); the keys of rows that it had made are used up.
\<close>

inductive governance_step :: "governance_db \<times> ballot_run list \<Rightarrow> governance_db \<times> ballot_run list \<Rightarrow> bool" where
  Request: "\<not> is_ballot q \<Longrightarrow> governance_step (d, rs) (perform_governance q d, rs)"
| Checked: "check_ballot u x now d = Inr s \<Longrightarrow> governance_step (d, rs) (d, rs @ [begin_ballot u x s])"
| Searched: "br_stage r = Searching \<Longrightarrow> br_entries r = x # xs \<Longrightarrow>
    search_vote (br_voter r) (br_election r) (br_slate r) x (sees r d) = Inr p \<Longrightarrow>
    governance_step (d, as @ r # bs) (d, as @ r\<lparr>br_stage := Counting p\<rparr> # bs)"
| Counted: "br_stage r = Counting p \<Longrightarrow> br_entries r = x # xs \<Longrightarrow> count_votes (br_voter r) (br_election r) p x (sees r d) = Inr () \<Longrightarrow>
    governance_step (d, as @ r # bs) (d, as @ r\<lparr>br_stage := Inserting\<rparr> # bs)"
| Inserted: "br_stage r = Inserting \<Longrightarrow> br_entries r = x # xs \<Longrightarrow>
    \<not> list_ex (holds_key (br_election r, br_voter r, snd x)) (as @ bs) \<Longrightarrow>
    insert_vote (br_voter r) (br_election r) (snd x) (sees r d) = Inr e \<Longrightarrow>
    governance_step (d, as @ r # bs) (d\<lparr>gv_seq := gv_seq e\<rparr>, as @ r\<lparr>br_entries := xs, br_stage := Searching,
      br_rows := br_rows r @ [new_vote (br_voter r) (br_election r) (snd x) d]\<rparr> # bs)"
| Committed: "br_entries r = [] \<Longrightarrow> governance_step (d, as @ r # bs) (sees r d, as @ bs)"
| RolledBack: "governance_step (d, as @ r # bs) (d, as @ bs)"

abbreviation governance_reachable :: "governance_db \<times> ballot_run list \<Rightarrow> governance_db \<times> ballot_run list \<Rightarrow> bool" where
  "governance_reachable \<equiv> governance_step\<^sup>*\<^sup>*"

end
