(* ===== verification/ElectionProperties.thy ===== *)
theory ElectionProperties
  imports Elections RbacProperties
begin

text \<open>
  Theorems on elections: what every sequence of requests keeps, also when ballots overlap other requests,
  which ballots are accepted, that nobody votes twice, and what the results say.
\<close>

section \<open>What the requests write\<close>

text \<open>Changes that elections do not see.\<close>

definition inert :: "governance_db \<Rightarrow> governance_db \<Rightarrow> bool" where
  "inert d d' \<longleftrightarrow> gv_ids d' = gv_ids d \<and> gv_seq d \<le> gv_seq d' \<and> gv_elections d' = gv_elections d \<and> gv_positions d' = gv_positions d \<and>
     gv_candidates d' = gv_candidates d \<and> gv_votes d' = gv_votes d \<and> (\<forall>i w. gv_cache d' i = Some w \<longrightarrow> gv_cache d i = Some w)"

lemma inertD:
  assumes "inert d d'"
  shows "gv_ids d' = gv_ids d" "gv_seq d \<le> gv_seq d'" "gv_elections d' = gv_elections d" "gv_positions d' = gv_positions d"
    "gv_candidates d' = gv_candidates d" "gv_votes d' = gv_votes d" "gv_cache d' i = Some w \<Longrightarrow> gv_cache d i = Some w"
  using assms by (simp_all add: inert_def)

lemma inert_refl [simp]: "inert d d"
  by (simp add: inert_def)

lemma add_executives_inert: "add_executives t xs d = Inr d' \<Longrightarrow> inert d d'"
proof (induction xs arbitrary: d)
  case (Cons x xs)
  let ?d = "d\<lparr>gv_executives := gv_executives d @ [\<lparr>ex_id = row_id d, ex_term = t, ex_user = fst x, ex_role = snd x\<rparr>],
    gv_access := (gv_access d)\<lparr>xs_executive_roles := xs_executive_roles (gv_access d) @ [snd x]\<rparr>, gv_seq := Suc (gv_seq d)\<rparr>"
  from Cons.prems have "add_executives t xs ?d = Inr d'" by (auto simp: result_simps)
  from Cons.IH [OF this] show ?case by (simp add: inert_def)
qed simp

lemma createCommittee_inert: "createCommittee u x d = Inr (c, d') \<Longrightarrow> inert d d'"
  by (auto simp: createCommittee_def may_govern_def result_simps inert_def Let_def)

lemma createExecutiveTerm_inert:
  assumes "createExecutiveTerm u x d = Inr (t, d')"
  shows "inert d d'"
proof -
  from assms have "add_executives (te_id (new_term x d)) (td_members x) (d\<lparr>gv_terms := gv_terms d @ [new_term x d], gv_seq := Suc (gv_seq d)\<rparr>) = Inr d'"
    by (auto simp: createExecutiveTerm_def may_govern_def result_simps Let_def)
  from add_executives_inert [OF this] show ?thesis by (simp add: inert_def)
qed

lemma add_positions_adds:
  assumes "add_positions e xs d = Inr d'"
  shows "\<exists>ps. d' = d\<lparr>gv_positions := gv_positions d @ ps, gv_seq := gv_seq d + length ps\<rparr> \<and> (\<forall>p\<in>set ps. po_election p = e) \<and>
    map po_id ps = map (gv_ids d) [gv_seq d..<gv_seq d + length ps]"
  using assms
proof (induction xs arbitrary: d)
  case Nil
  then show ?case by (intro exI [of _ "[]"]) simp
next
  case (Cons x xs)
  let ?p = "new_position e x d"
  let ?d = "d\<lparr>gv_positions := gv_positions d @ [?p], gv_seq := Suc (gv_seq d)\<rparr>"
  from Cons.prems have "add_positions e xs ?d = Inr d'" by (auto simp: Let_def result_simps)
  from Cons.IH [OF this] obtain ps where ps: "d' = ?d\<lparr>gv_positions := gv_positions ?d @ ps, gv_seq := gv_seq ?d + length ps\<rparr>"
    "\<forall>p\<in>set ps. po_election p = e" "map po_id ps = map (gv_ids d) [Suc (gv_seq d)..<Suc (gv_seq d) + length ps]" by auto
  have "[gv_seq d..<gv_seq d + length (?p # ps)] = gv_seq d # [Suc (gv_seq d)..<Suc (gv_seq d) + length ps]"
    by (simp add: upt_rec)
  with ps show ?case by (intro exI [of _ "?p # ps"]) (simp add: new_position_def row_id_def)
qed

lemma createElection_adds:
  assumes "createElection u x d = Inr (e, d')"
  shows "\<exists>ps. d' = d\<lparr>gv_elections := gv_elections d @ [e], gv_positions := gv_positions d @ ps, gv_seq := Suc (gv_seq d) + length ps\<rparr> \<and>
    el_id e = gv_ids d (gv_seq d) \<and> (\<forall>p\<in>set ps. po_election p = el_id e) \<and>
    map po_id ps = map (gv_ids d) [Suc (gv_seq d)..<Suc (gv_seq d) + length ps]"
proof -
  let ?d = "d\<lparr>gv_elections := gv_elections d @ [e], gv_seq := Suc (gv_seq d)\<rparr>"
  from assms have "add_positions (el_id e) (xd_positions x) ?d = Inr d'" and e: "e = new_election x d"
    by (auto simp: createElection_def may_govern_def result_simps Let_def)
  from add_positions_adds [OF this(1)] e show ?thesis by (auto simp: new_election_def row_id_def)
qed

text \<open>The three operations that write an election.\<close>

lemma election_writes:
  "updateElection i u x d = Inr (z, d') \<Longrightarrow> \<exists>e. get_election d i = Some e \<and> el_status e \<noteq> ElActive \<and> el_status e \<noteq> ElCompleted \<and>
     d' = write_election i (apply_update x) d"
  "startElection i u now d = Inr (z, d') \<Longrightarrow> \<exists>e. get_election d i = Some e \<and> el_status e \<noteq> ElActive \<and> el_status e \<noteq> ElCompleted \<and>
     d' = write_election i (\<lambda>e. e\<lparr>el_status := ElActive, el_start := now\<rparr>) d"
  "endElection i u now d = Inr (z, d') \<Longrightarrow> \<exists>e. get_election d i = Some e \<and> el_status e \<noteq> ElCompleted \<and>
     d' = write_election i (\<lambda>e. e\<lparr>el_status := ElCompleted, el_end := now\<rparr>) d"
  by (auto simp: updateElection_def startElection_def endElection_def may_govern_def result_simps)

lemma apply_update_id [simp]: "el_id (apply_update x e) = el_id e"
  by (simp add: apply_update_def)

lemma nominateCandidate_adds:
  assumes "nominateCandidate x d = Inr (c, d')"
  shows "\<exists>p. get_position d (ca_position c) = Some p \<and> ca_election c = po_election p \<and> ca_id c = gv_ids d (gv_seq d) \<and>
    (\<exists>e. get_election d (po_election p) = Some e \<and> (el_status e = ElDraft \<or> el_status e = ElNomination)) \<and>
    (ca_position c, ca_user c) \<notin> (\<lambda>c. (ca_position c, ca_user c)) ` set (gv_candidates d) \<and>
    int (length (filter (\<lambda>k. ca_position k = ca_position c) (gv_candidates d))) < po_max_candidates p \<and>
    d' = d\<lparr>gv_candidates := gv_candidates d @ [c], gv_seq := Suc (gv_seq d)\<rparr>"
proof -
  obtain p where p: "get_position d (nm_position x) = Some p"
    using assms by (cases "get_position d (nm_position x)") (simp_all add: nominateCandidate_def)
  obtain e where e: "get_election d (po_election p) = Some e"
    using assms by (cases "get_election d (po_election p)") (simp_all add: nominateCandidate_def p)
  from assms have r: "el_status e = ElDraft \<or> el_status e = ElNomination"
    "\<not> list_ex (\<lambda>c. ca_position c = nm_position x \<and> ca_user c = nm_user x) (gv_candidates d)"
    "int (length (filter (\<lambda>c. ca_position c = nm_position x) (gv_candidates d))) < po_max_candidates p"
    and c: "c = new_candidate (el_id e) x d"
    by (simp_all add: nominateCandidate_def p e result_simps Let_def)
  from assms have d': "d' = d\<lparr>gv_candidates := gv_candidates d @ [c], gv_seq := Suc (gv_seq d)\<rparr>"
    by (simp add: nominateCandidate_def p e result_simps Let_def) (elim conjE, hypsubst, rule refl)
  have "el_id e = po_election p" using e by blast
  then have n: "ca_position c = nm_position x" "ca_user c = nm_user x" "ca_election c = po_election p" "ca_id c = gv_ids d (gv_seq d)"
    by (simp_all add: c new_candidate_def row_id_def)
  from r(2) have "(nm_position x, nm_user x) \<notin> (\<lambda>c. (ca_position c, ca_user c)) ` set (gv_candidates d)" by (auto simp: list_ex_iff)
  with p e r(1,3) n(3,4) d' show ?thesis unfolding n(1,2) by blast
qed

lemma approveCandidate_writes:
  "approveCandidate i u d = Inr (z, d') \<Longrightarrow>
    d' = d\<lparr>gv_candidates := update_by ca_id i (\<lambda>c. c\<lparr>ca_status := CaApproved\<rparr>) (gv_candidates d)\<rparr>"
  by (auto simp: approveCandidate_def may_govern_def result_simps)

lemma getElectionById_caches:
  assumes "getElectionById i d = Inr (w, d')"
  shows "d' = d \<or> (\<exists>e. get_election d i = Some e \<and> d' = d\<lparr>gv_cache := (gv_cache d)(i \<mapsto> view_election d e)\<rparr>)"
  using assms by (auto simp: getElectionById_def result_simps split: option.splits)

section \<open>What every request keeps\<close>

definition unused_rows :: "governance_db \<Rightarrow> ident list \<Rightarrow> bool" where
  "unused_rows d ks \<longleftrightarrow> inj (gv_ids d) \<and> (\<forall>n\<ge>gv_seq d. gv_ids d n \<notin> set ks)"

definition keys_sound :: "governance_db \<Rightarrow> bool" where
  "keys_sound d \<longleftrightarrow> unused_rows d (map el_id (gv_elections d)) \<and> unused_rows d (map po_id (gv_positions d)) \<and>
     unused_rows d (map ca_id (gv_candidates d)) \<and> distinct (map el_id (gv_elections d)) \<and> distinct (map po_id (gv_positions d)) \<and>
     distinct (map ca_id (gv_candidates d))"

text \<open>A position is one of an election, a candidate one for a position, and a vote one for a candidate, of the same election.\<close>

definition links_sound :: "governance_db \<Rightarrow> bool" where
  "links_sound d \<longleftrightarrow> (\<forall>p\<in>set (gv_positions d). po_election p \<in> el_id ` set (gv_elections d)) \<and>
     (\<forall>c\<in>set (gv_candidates d). \<exists>p\<in>set (gv_positions d). po_id p = ca_position c \<and> po_election p = ca_election c) \<and>
     (\<forall>v\<in>set (gv_votes d). \<exists>c\<in>set (gv_candidates d). ca_id c = vo_candidate v \<and> ca_election c = vo_election v)"

definition nominations_sound :: "governance_db \<Rightarrow> bool" where
  "nominations_sound d \<longleftrightarrow> distinct (map (\<lambda>c. (ca_position c, ca_user c)) (gv_candidates d)) \<and>
     (\<forall>p\<in>set (gv_positions d). int (length (filter (\<lambda>c. ca_position c = po_id p) (gv_candidates d))) \<le> max 0 (po_max_candidates p))"

definition position_of :: "governance_db \<Rightarrow> ident \<Rightarrow> ident option" where
  "position_of d k = map_option ca_position (get_candidate d k)"

text \<open>Nobody has two votes for a position.\<close>

definition votes_sound :: "governance_db \<Rightarrow> bool" where
  "votes_sound d \<longleftrightarrow> distinct (map (\<lambda>v. (vo_voter v, position_of d (vo_candidate v))) (gv_votes d))"

text \<open>A cached election is the stored one, with its positions.\<close>

definition cache_sound :: "governance_db \<Rightarrow> bool" where
  "cache_sound d \<longleftrightarrow> (\<forall>i w. gv_cache d i = Some w \<longrightarrow> get_election d i = Some (ew_election w) \<and>
     map fst (ew_positions w) = sort_key po_order (filter (\<lambda>p. po_election p = i) (gv_positions d)))"

text \<open>What also overlapping ballots keep, and what requests one after the other do.\<close>

definition rows_sound :: "governance_db \<Rightarrow> bool" where
  "rows_sound d \<longleftrightarrow> keys_sound d \<and> links_sound d \<and> nominations_sound d \<and> cache_sound d"

definition governance_sound :: "governance_db \<Rightarrow> bool" where
  "governance_sound d \<longleftrightarrow> rows_sound d \<and> votes_sound d"

lemma unused_rows_later: "unused_rows d ks \<Longrightarrow> gv_ids d' = gv_ids d \<Longrightarrow> gv_seq d \<le> gv_seq d' \<Longrightarrow> unused_rows d' ks"
  by (simp add: unused_rows_def)

lemma unused_rows_append:
  "unused_rows d ks \<Longrightarrow> gv_ids d' = gv_ids d \<Longrightarrow> gv_seq d \<le> m \<Longrightarrow> m \<le> n \<Longrightarrow> n \<le> gv_seq d' \<Longrightarrow> unused_rows d' (ks @ map (gv_ids d) [m..<n])"
  by (auto simp: unused_rows_def dest!: injD [of "gv_ids d"])

lemma unused_rows_next: "unused_rows d ks \<Longrightarrow> gv_seq d \<le> n \<Longrightarrow> gv_ids d n \<notin> set ks"
  by (simp add: unused_rows_def)

lemma sole_position:
  "keys_sound d \<Longrightarrow> p \<in> set (gv_positions d) \<Longrightarrow> q \<in> set (gv_positions d) \<Longrightarrow> po_id p = po_id q \<Longrightarrow> p = q"
  unfolding keys_sound_def by (elim conjE) (rule row_by_key)

lemma sole_candidate:
  "keys_sound d \<Longrightarrow> c \<in> set (gv_candidates d) \<Longrightarrow> k \<in> set (gv_candidates d) \<Longrightarrow> ca_id c = ca_id k \<Longrightarrow> c = k"
  unfolding keys_sound_def by (elim conjE) (rule row_by_key)

lemma rows_soundD:
  assumes "rows_sound d"
  shows "keys_sound d" "links_sound d" "nominations_sound d" "cache_sound d"
  using assms by (simp_all add: rows_sound_def)

lemma governance_soundD:
  assumes "governance_sound d"
  shows "keys_sound d" "links_sound d" "nominations_sound d" "votes_sound d" "cache_sound d" "rows_sound d"
  using assms by (simp_all add: governance_sound_def rows_sound_def)

lemma inert_keeps:
  assumes "rows_sound d" and "inert d d'"
  shows "rows_sound d'"
proof -
  note I = inertD [OF assms(2)] and S = rows_soundD [OF assms(1)]
  have "keys_sound d'" using S(1) by (simp add: keys_sound_def I(3-5) unused_rows_later [OF _ I(1,2)])
  moreover have "links_sound d'" using S(2) by (simp add: links_sound_def I(3-6))
  moreover have "nominations_sound d'" using S(3) by (simp add: nominations_sound_def I(3-6))
  moreover have "cache_sound d'" using S(4) I(7) unfolding cache_sound_def I(3,4) by blast
  ultimately show ?thesis by (simp add: rows_sound_def)
qed

lemma new_election_keeps:
  assumes "rows_sound d" and "createElection u x d = Inr (e, d')"
  shows "rows_sound d'"
proof -
  note S = rows_soundD [OF assms(1)]
  from createElection_adds [OF assms(2)] obtain ps where
    d': "d' = d\<lparr>gv_elections := gv_elections d @ [e], gv_positions := gv_positions d @ ps, gv_seq := Suc (gv_seq d) + length ps\<rparr>"
    and e: "el_id e = gv_ids d (gv_seq d)" and ps: "\<forall>p\<in>set ps. po_election p = el_id e"
      "map po_id ps = map (gv_ids d) [Suc (gv_seq d)..<Suc (gv_seq d) + length ps]" by blast
  from S(1) have u: "unused_rows d (map el_id (gv_elections d))" "unused_rows d (map po_id (gv_positions d))"
    "unused_rows d (map ca_id (gv_candidates d))" and inj: "inj (gv_ids d)" by (simp_all add: keys_sound_def unused_rows_def)
  have e': "el_id e \<notin> el_id ` set (gv_elections d)" using unused_rows_next [OF u(1)] e by simp
  have p': "po_id p \<notin> po_id ` set (gv_positions d)" if "p \<in> set ps" for p
  proof -
    from that have "po_id p \<in> set (map po_id ps)" by simp
    then obtain n where "n \<in> set [Suc (gv_seq d)..<Suc (gv_seq d) + length ps]" "po_id p = gv_ids d n" unfolding ps(2) set_map by blast
    then have "gv_seq d \<le> n" "po_id p = gv_ids d n" by (simp_all only: set_upt atLeastLessThan_iff Suc_leD)
    with unused_rows_next [OF u(2)] show ?thesis by simp
  qed
  have "distinct (map po_id ps)" unfolding ps(2) using inj by (simp add: distinct_map inj_on_def)
  moreover have "set (map po_id (gv_positions d)) \<inter> set (map po_id ps) = {}" unfolding set_map disjoint_iff using p' by (metis imageE)
  ultimately have dp: "distinct (map po_id (gv_positions d @ ps))" using S(1) by (simp add: keys_sound_def)
  have "unused_rows d' (map el_id (gv_elections d) @ map (gv_ids d) [gv_seq d..<Suc (gv_seq d)])"
    by (rule unused_rows_append [OF u(1)]) (simp_all add: d')
  moreover have "unused_rows d' (map po_id (gv_positions d) @ map (gv_ids d) [Suc (gv_seq d)..<Suc (gv_seq d) + length ps])"
    by (rule unused_rows_append [OF u(2)]) (simp_all add: d')
  moreover have "unused_rows d' (map ca_id (gv_candidates d))" by (rule unused_rows_later [OF u(3)]) (simp_all add: d')
  ultimately have "keys_sound d'" using S(1) e' dp by (simp add: keys_sound_def d' e ps(2))
  moreover have "links_sound d'" using S(2) ps(1) by (auto simp: links_sound_def d')
  moreover have "nominations_sound d'"
  proof -
    have "filter (\<lambda>c. ca_position c = po_id p) (gv_candidates d) = []" if "p \<in> set ps" for p
    proof -
      have "ca_position c \<noteq> po_id p" if "c \<in> set (gv_candidates d)" for c
      proof -
        from S(2) that obtain q where "q \<in> set (gv_positions d)" "po_id q = ca_position c" unfolding links_sound_def by blast
        with p' [OF \<open>p \<in> set ps\<close>] show ?thesis by (metis imageI)
      qed
      then show ?thesis by (simp add: filter_empty_conv)
    qed
    with S(3) show ?thesis by (auto simp: nominations_sound_def d')
  qed
  moreover have "cache_sound d'"
  proof -
    have "filter (\<lambda>p. po_election p = i) ps = []" if "get_election d i = Some z" for i z
    proof -
      from that have "i \<in> el_id ` set (gv_elections d)" by (metis lookup_by_key lookup_by_mem imageI)
      with e' ps(1) show ?thesis by (auto simp: filter_empty_conv)
    qed
    with S(4) show ?thesis unfolding cache_sound_def by (auto simp: d' lookup_by_append)
  qed
  ultimately show ?thesis by (simp add: rows_sound_def)
qed

lemma write_election_keeps:
  assumes "rows_sound d" and "\<And>e. el_id (f e) = el_id e"
  shows "rows_sound (write_election i f d)"
proof -
  note S = rows_soundD [OF assms(1)]
  note K = map_key_update_by [where key' = el_id and f = f, OF assms(2)]
  have k: "el_id ` set (update_by el_id i f (gv_elections d)) = el_id ` set (gv_elections d)"
    using K [of el_id i "gv_elections d"] by (metis list.set_map)
  have "keys_sound (write_election i f d)" using S(1) by (simp add: keys_sound_def write_election_def K unused_rows_def)
  moreover have "links_sound (write_election i f d)" using S(2) by (simp add: links_sound_def write_election_def k)
  moreover have "nominations_sound (write_election i f d)" using S(3) by (simp add: nominations_sound_def write_election_def)
  moreover have "cache_sound (write_election i f d)"
    using S(4) by (auto simp: cache_sound_def write_election_def lookup_by_update_by assms(2))
  ultimately show ?thesis by (simp add: rows_sound_def)
qed

lemma nomination_keeps:
  assumes "rows_sound d" and "nominateCandidate x d = Inr (c, d')"
  shows "rows_sound d'"
proof -
  note S = rows_soundD [OF assms(1)]
  from nominateCandidate_adds [OF assms(2)] obtain p where p: "get_position d (ca_position c) = Some p" "ca_election c = po_election p"
    "ca_id c = gv_ids d (gv_seq d)" "(ca_position c, ca_user c) \<notin> (\<lambda>c. (ca_position c, ca_user c)) ` set (gv_candidates d)"
    "int (length (filter (\<lambda>k. ca_position k = ca_position c) (gv_candidates d))) < po_max_candidates p"
    and d': "d' = d\<lparr>gv_candidates := gv_candidates d @ [c], gv_seq := Suc (gv_seq d)\<rparr>" by blast
  from S(1) have u: "unused_rows d (map el_id (gv_elections d))" "unused_rows d (map po_id (gv_positions d))"
    "unused_rows d (map ca_id (gv_candidates d))" by (simp_all add: keys_sound_def)
  have new: "ca_id c \<notin> ca_id ` set (gv_candidates d)" using unused_rows_next [OF u(3)] p(3) by simp
  have pm: "p \<in> set (gv_positions d)" "po_id p = ca_position c" using p(1) lookup_by_mem by (fastforce, blast)
  have "unused_rows d' (map ca_id (gv_candidates d) @ map (gv_ids d) [gv_seq d..<Suc (gv_seq d)])"
    by (rule unused_rows_append [OF u(3)]) (simp_all add: d')
  then have "keys_sound d'" using S(1) new by (simp add: keys_sound_def d' p(3) unused_rows_def)
  moreover have "links_sound d'" using S(2) pm p(2) by (auto simp: links_sound_def d')
  moreover have "nominations_sound d'"
  proof -
    have "q = p" if "q \<in> set (gv_positions d)" "po_id q = ca_position c" for q
      using sole_position [OF S(1) that(1) pm(1)] that(2) pm(2) by simp
    with S(3) p(4,5) show ?thesis by (auto simp: nominations_sound_def d')
  qed
  moreover have "cache_sound d'" using S(4) by (simp add: cache_sound_def d')
  ultimately show ?thesis by (simp add: rows_sound_def)
qed

lemma approval_keeps:
  assumes "rows_sound d"
  shows "rows_sound (d\<lparr>gv_candidates := update_by ca_id i (\<lambda>c. c\<lparr>ca_status := CaApproved\<rparr>) (gv_candidates d)\<rparr>)"
    (is "rows_sound ?d")
proof -
  note S = rows_soundD [OF assms]
  let ?cs = "update_by ca_id i (\<lambda>c. c\<lparr>ca_status := CaApproved\<rparr>) (gv_candidates d)"
  have K: "map g ?cs = map g (gv_candidates d)" if "\<And>c. g (c\<lparr>ca_status := CaApproved\<rparr>) = g c" for g :: "candidate_row \<Rightarrow> 'k"
    by (rule map_key_update_by) (rule that)
  have F: "length (filter (\<lambda>c. ca_position c = p) ?cs) = length (filter (\<lambda>c. ca_position c = p) (gv_candidates d))" for p
  proof -
    have "length (filter (\<lambda>k. k = p) (map ca_position ?cs)) = length (filter (\<lambda>k. k = p) (map ca_position (gv_candidates d)))"
      by (simp add: K)
    then show ?thesis by (simp add: filter_map comp_def)
  qed
  have "keys_sound ?d" using S(1) by (simp add: keys_sound_def unused_rows_def K)
  moreover have "links_sound ?d"
  proof -
    have "\<exists>k\<in>set ?cs. ca_id k = ca_id c \<and> ca_election k = ca_election c" if "c \<in> set (gv_candidates d)" for c
    proof -
      have "(ca_id c, ca_election c) \<in> set (map (\<lambda>c. (ca_id c, ca_election c)) ?cs)" using that by (subst K) auto
      then show ?thesis by auto
    qed
    moreover have "\<exists>k\<in>set (gv_candidates d). ca_position k = ca_position c \<and> ca_election k = ca_election c" if "c \<in> set ?cs" for c
      using that by (auto simp: set_update_by)
    ultimately show ?thesis using S(2) unfolding links_sound_def by simp metis
  qed
  moreover have "nominations_sound ?d" using S(3) by (simp add: nominations_sound_def F K)
  moreover have "cache_sound ?d" using S(4) by (simp add: cache_sound_def)
  ultimately show ?thesis by (simp add: rows_sound_def)
qed

lemma reading_keeps:
  assumes "rows_sound d" and "getElectionById i d = Inr (w, d')"
  shows "rows_sound d'"
  using getElectionById_caches [OF assms(2)]
proof (elim disjE exE conjE)
  fix e
  assume e: "get_election d i = Some e" and d': "d' = d\<lparr>gv_cache := (gv_cache d)(i \<mapsto> view_election d e)\<rparr>"
  note S = rows_soundD [OF assms(1)]
  have "el_id e = i" using e by blast
  then have "cache_sound d'" using S(4) e by (auto simp: cache_sound_def d' view_election_def comp_def)
  moreover have "keys_sound d'" "links_sound d'" "nominations_sound d'"
    using S(1-3) by (simp_all add: d' keys_sound_def links_sound_def nominations_sound_def unused_rows_def)
  ultimately show ?thesis by (simp add: rows_sound_def)
qed (use assms in simp)


section \<open>Recording a ballot\<close>

definition add_vote :: "ident \<Rightarrow> ident \<Rightarrow> ident \<Rightarrow> governance_db \<Rightarrow> governance_db" where
  "add_vote u i c d = d\<lparr>gv_votes := gv_votes d @ [\<lparr>vo_id = row_id d, vo_election = i, vo_candidate = c, vo_voter = u\<rparr>],
     gv_seq := Suc (gv_seq d)\<rparr>"

lemma insert_vote_Inr: "insert_vote u i c d = Inr d' \<longleftrightarrow>
    (i, u, c) \<notin> vote_key ` set (gv_votes d) \<and> u \<in> set (xs_users (gv_access d)) \<and> d' = add_vote u i c d"
  by (auto simp: insert_vote_def result_simps list_ex_iff add_vote_def new_vote_def image_iff)

text \<open>An entry of a ballot names a position of the slate in which one can vote, and one of its candidates.\<close>

definition names_candidate :: "slate \<Rightarrow> ident \<times> ident \<Rightarrow> bool" where
  "names_candidate s x \<longleftrightarrow> (\<exists>p cs. find (\<lambda>(p, cs). po_id p = fst x) s = Some (p, cs) \<and> lookup_by ca_id (snd x) cs \<noteq> None \<and> 0 < po_max_votes p)"

text \<open>The statements of a vote, and all of them.\<close>

lemma search_vote_Inr: "search_vote u i s x d = Inr p \<longleftrightarrow>
    (\<exists>cs. find (\<lambda>(p, cs). po_id p = fst x) s = Some (p, cs) \<and> lookup_by ca_id (snd x) cs \<noteq> None) \<and> votes_for_position d i u (fst x) = []"
  by (cases "find (\<lambda>(p, cs). po_id p = fst x) s") (auto simp: search_vote_def result_simps)

lemma count_votes_Inr: "count_votes u i p x d = Inr z \<longleftrightarrow> int (length (votes_for_position d i u (fst x))) < po_max_votes p"
  by (simp add: count_votes_def require_def)

lemma record_vote_statements: "record_vote u i s x d = Inr d' \<longleftrightarrow>
    names_candidate s x \<and> votes_for_position d i u (fst x) = [] \<and> (i, u, snd x) \<notin> vote_key ` set (gv_votes d) \<and>
    u \<in> set (xs_users (gv_access d)) \<and> d' = add_vote u i (snd x) d"
proof -
  have "record_vote u i s x d = Inr d' \<longleftrightarrow>
      (\<exists>p. search_vote u i s x d = Inr p \<and> count_votes u i p x d = Inr () \<and> insert_vote u i (snd x) d = Inr d')"
    by (auto simp: record_vote_def result_simps)
  then show ?thesis by (auto simp: search_vote_Inr count_votes_Inr insert_vote_Inr names_candidate_def)
qed

text \<open>The candidates of a slate are candidates of its positions, and those are of the election.\<close>

definition places :: "governance_db \<Rightarrow> (ident \<times> ident) set" where
  "places d = (\<lambda>c. (ca_id c, ca_position c)) ` set (gv_candidates d)"

definition slate_holds :: "governance_db \<Rightarrow> ident \<Rightarrow> slate \<Rightarrow> bool" where
  "slate_holds d i s \<longleftrightarrow> (\<forall>(p, cs)\<in>set s. p \<in> set (gv_positions d) \<and> po_election p = i \<and> (\<forall>c\<in>set cs. (ca_id c, po_id p) \<in> places d))"

lemma slate_of_holds: "slate_holds d i (slate_of d i)"
  by (auto simp: slate_holds_def slate_of_def places_def)

lemma named_place:
  assumes "slate_holds d i s" and "names_candidate s x"
  shows "(snd x, fst x) \<in> places d" "\<exists>p\<in>set (gv_positions d). po_id p = fst x \<and> po_election p = i \<and> 0 < po_max_votes p"
proof -
  from assms(2) obtain p cs c where f: "find (\<lambda>(p, cs). po_id p = fst x) s = Some (p, cs)" and l: "lookup_by ca_id (snd x) cs = Some c"
    and m: "0 < po_max_votes p" by (auto simp: names_candidate_def)
  from find_SomeD [OF f] have s: "(p, cs) \<in> set s" "po_id p = fst x" by simp_all
  moreover have "c \<in> set cs" "ca_id c = snd x" using l lookup_by_mem by (fastforce, blast)
  ultimately show "(snd x, fst x) \<in> places d" "\<exists>p\<in>set (gv_positions d). po_id p = fst x \<and> po_election p = i \<and> 0 < po_max_votes p"
    using assms(1) m by (fastforce simp: slate_holds_def)+
qed

lemma place_position: "keys_sound d \<Longrightarrow> (k, p) \<in> places d \<Longrightarrow> position_of d k = Some p"
  using lookup_by_distinct [of ca_id "gv_candidates d"] by (fastforce simp: keys_sound_def places_def position_of_def)

lemma position_place: "position_of d k = Some p \<Longrightarrow> (k, p) \<in> places d"
  by (auto simp: places_def position_of_def image_iff dest: lookup_by_mem)

lemma places_election:
  assumes "keys_sound d" and "links_sound d" and "(k, po_id p) \<in> places d" and "p \<in> set (gv_positions d)"
  shows "\<exists>c\<in>set (gv_candidates d). ca_id c = k \<and> ca_position c = po_id p \<and> ca_election c = po_election p"
proof -
  from assms(3) obtain c where c: "c \<in> set (gv_candidates d)" "ca_id c = k" "ca_position c = po_id p" by (auto simp: places_def)
  with assms(2) obtain q where q: "q \<in> set (gv_positions d)" "po_id q = po_id p" "po_election q = ca_election c"
    unfolding links_sound_def by metis
  from sole_position [OF assms(1) q(1) assms(4) q(2)] q(3) have "ca_election c = po_election p" by simp
  with c show ?thesis by (intro bexI [of _ c]) simp_all
qed

text \<open>The votes that a voter has for a position, as the database counts them.\<close>

lemma votes_for_position_places:
  "votes_for_position d i u p = filter (\<lambda>v. vo_election v = i \<and> vo_voter v = u \<and> (vo_candidate v, p) \<in> places d) (gv_votes d)"
proof -
  have "list_ex (\<lambda>c. ca_id c = k \<and> ca_position c = p) (gv_candidates d) \<longleftrightarrow> (k, p) \<in> places d" for k
    unfolding places_def list_ex_iff image_iff by (metis prod.inject)
  then show ?thesis by (simp add: votes_for_position_def)
qed

text \<open>In a transaction that runs alone the search leaves nothing for the unique index to refuse.\<close>

lemma record_vote_Inr:
  assumes "slate_holds d i s"
  shows "record_vote u i s x d = Inr d' \<longleftrightarrow>
    names_candidate s x \<and> votes_for_position d i u (fst x) = [] \<and> u \<in> set (xs_users (gv_access d)) \<and> d' = add_vote u i (snd x) d"
proof -
  have "(i, u, snd x) \<notin> vote_key ` set (gv_votes d)" if n: "names_candidate s x" and e: "votes_for_position d i u (fst x) = []"
  proof
    assume "(i, u, snd x) \<in> vote_key ` set (gv_votes d)"
    then obtain v where "v \<in> set (gv_votes d)" "vo_election v = i" "vo_voter v = u" "vo_candidate v = snd x" by (auto simp: vote_key_def)
    with named_place(1) [OF assms n] have "v \<in> set (votes_for_position d i u (fst x))" by (simp add: votes_for_position_places)
    with e show False by simp
  qed
  then show ?thesis unfolding record_vote_statements by blast
qed

lemma add_vote_simps [simp]:
  "gv_candidates (add_vote u i c d) = gv_candidates d" "gv_positions (add_vote u i c d) = gv_positions d"
  "gv_elections (add_vote u i c d) = gv_elections d" "gv_access (add_vote u i c d) = gv_access d" "gv_cache (add_vote u i c d) = gv_cache d"
  "gv_ids (add_vote u i c d) = gv_ids d" "gv_seq (add_vote u i c d) = Suc (gv_seq d)" "places (add_vote u i c d) = places d"
  "position_of (add_vote u i c d) k = position_of d k" "slate_holds (add_vote u i c d) j s = slate_holds d j s"
  by (simp_all add: add_vote_def places_def position_of_def slate_holds_def)

text \<open>A vote for a candidate of the election keeps the rows together.\<close>

definition placed :: "governance_db \<Rightarrow> ident \<Rightarrow> ident \<Rightarrow> bool" where
  "placed d i k \<longleftrightarrow> (\<exists>p\<in>set (gv_positions d). po_election p = i \<and> (k, po_id p) \<in> places d)"

lemma named_placed: "slate_holds d i s \<Longrightarrow> names_candidate s x \<Longrightarrow> placed d i (snd x)"
  using named_place [of d i s x] by (auto simp: placed_def)

lemma placed_votes_keep_rows:
  assumes "rows_sound d" and "\<forall>v\<in>set vs. placed d (vo_election v) (vo_candidate v)"
  shows "rows_sound (d\<lparr>gv_votes := gv_votes d @ vs, gv_seq := n + gv_seq d\<rparr>)" (is "rows_sound ?d")
proof -
  note S = rows_soundD [OF assms(1)]
  have "\<exists>c\<in>set (gv_candidates d). ca_id c = vo_candidate v \<and> ca_election c = vo_election v" if "v \<in> set vs" for v
  proof -
    from assms(2) that obtain p where "p \<in> set (gv_positions d)" "po_election p = vo_election v" "(vo_candidate v, po_id p) \<in> places d"
      by (auto simp: placed_def)
    with places_election [OF S(1,2)] show ?thesis by metis
  qed
  then have "links_sound ?d" using S(2) by (auto simp: links_sound_def)
  moreover have "keys_sound ?d" using S(1) by (auto simp: keys_sound_def unused_rows_def)
  moreover have "nominations_sound ?d" "cache_sound ?d" using S(3,4) by (simp_all add: nominations_sound_def cache_sound_def)
  ultimately show ?thesis by (simp add: rows_sound_def)
qed

lemma vote_keeps_rows:
  assumes "rows_sound d" and "slate_holds d i s" and "record_vote u i s x d = Inr d'"
  shows "rows_sound d'"
proof -
  from assms(2,3) have n: "names_candidate s x" and d': "d' = add_vote u i (snd x) d" by (simp_all add: record_vote_Inr)
  from placed_votes_keep_rows [OF assms(1), of "[\<lparr>vo_id = row_id d, vo_election = i, vo_candidate = snd x, vo_voter = u\<rparr>]" 1]
    named_placed [OF assms(2) n] show ?thesis by (simp add: d' add_vote_def)
qed

lemma vote_keeps:
  assumes "governance_sound d" and "slate_holds d i s" and "record_vote u i s x d = Inr d'"
  shows "governance_sound d'"
proof -
  note S = governance_soundD [OF assms(1)]
  from assms(2,3) have n: "names_candidate s x" "votes_for_position d i u (fst x) = []" and d': "d' = add_vote u i (snd x) d"
    by (simp_all add: record_vote_Inr)
  note P = named_place [OF assms(2) n(1)]
  from P(2) obtain p where p: "p \<in> set (gv_positions d)" "po_id p = fst x" "po_election p = i" by blast
  have "votes_sound d'"
  proof -
    have "(u, position_of d (snd x)) \<notin> (\<lambda>v. (vo_voter v, position_of d (vo_candidate v))) ` set (gv_votes d)"
    proof
      assume "(u, position_of d (snd x)) \<in> (\<lambda>v. (vo_voter v, position_of d (vo_candidate v))) ` set (gv_votes d)"
      then obtain v where e: "(u, position_of d (snd x)) = (vo_voter v, position_of d (vo_candidate v))" and v: "v \<in> set (gv_votes d)"
        by (rule imageE)
      then have pl: "(vo_candidate v, fst x) \<in> places d" using place_position [OF S(1) P(1)] position_place by simp
      from S(2) v obtain c where "c \<in> set (gv_candidates d)" "ca_id c = vo_candidate v" "ca_election c = vo_election v"
        unfolding links_sound_def by blast
      moreover from places_election [OF S(1,2) pl [folded p(2)] p(1)] obtain k where "k \<in> set (gv_candidates d)"
        "ca_id k = vo_candidate v" "ca_election k = i" using p(3) by blast
      ultimately have "vo_election v = i" using sole_candidate [OF S(1)] by metis
      with e pl v have "v \<in> set (votes_for_position d i u (fst x))" by (simp add: votes_for_position_places)
      with n(2) show False by simp
    qed
    moreover have "gv_votes d' = gv_votes d @ [\<lparr>vo_id = row_id d, vo_election = i, vo_candidate = snd x, vo_voter = u\<rparr>]"
      by (simp add: d' add_vote_def)
    moreover have "position_of d' k = position_of d k" for k by (simp add: d')
    ultimately show ?thesis using S(4) by (simp add: votes_sound_def)
  qed
  with vote_keeps_rows [OF S(6) assms(2,3)] show ?thesis by (simp add: governance_sound_def)
qed

lemma votes_keep:
  assumes "governance_sound d" and "slate_holds d i s" and "record_votes u i s xs d = Inr d'"
  shows "governance_sound d'"
  using assms
proof (induction xs arbitrary: d)
  case (Cons x xs)
  from Cons.prems(3) obtain d1 where d1: "record_vote u i s x d = Inr d1" "record_votes u i s xs d1 = Inr d'" by (auto simp: result_simps)
  from d1(1) Cons.prems(2) have "slate_holds d1 i s" by (auto simp: record_vote_Inr)
  with Cons.IH vote_keeps [OF Cons.prems(1,2) d1(1)] d1(2) show ?case by blast
qed simp

lemma check_ballot_slate: "check_ballot u x now d = Inr s \<Longrightarrow> s = slate_of d (bl_election x)"
  by (auto simp: check_ballot_def result_simps)

lemma castVote_keeps:
  assumes "governance_sound d" and "castVote u x now d = Inr (n, d')"
  shows "governance_sound d'"
proof -
  from assms(2) obtain s where s: "check_ballot u x now d = Inr s" "record_votes u (bl_election x) s (bl_votes x) d = Inr d'"
    by (auto simp: castVote_def store_ballot_def result_simps)
  have "slate_holds d (bl_election x) s" unfolding check_ballot_slate [OF s(1)] by (rule slate_of_holds)
  from votes_keep [OF assms(1) this s(2)] show ?thesis .
qed

section \<open>Rows that stay\<close>

text \<open>Positions, the places of candidates and votes are only ever added.\<close>

definition grows :: "governance_db \<Rightarrow> governance_db \<Rightarrow> bool" where
  "grows d d' \<longleftrightarrow> set (gv_positions d) \<subseteq> set (gv_positions d') \<and> places d \<subseteq> places d' \<and> prefix (gv_votes d) (gv_votes d')"

lemma grows_refl [simp]: "grows d d"
  by (simp add: grows_def)

lemma grows_trans: "grows d d1 \<Longrightarrow> grows d1 d' \<Longrightarrow> grows d d'"
  unfolding grows_def by (meson prefix_order.trans subset_trans)

lemma inert_grows: "inert d d' \<Longrightarrow> grows d d'"
  by (simp add: inert_def grows_def places_def)

lemma write_election_grows: "grows d (write_election i f d)"
  by (simp add: write_election_def grows_def places_def)

lemma record_votes_grows: "record_votes u i s xs d = Inr d' \<Longrightarrow> grows d d'"
proof (induction xs arbitrary: d)
  case (Cons x xs)
  from Cons.prems obtain d1 where "record_vote u i s x d = Inr d1" "record_votes u i s xs d1 = Inr d'" by (auto simp: result_simps)
  moreover from this(1) have "grows d d1" by (auto simp: record_vote_statements grows_def places_def add_vote_def)
  ultimately show ?case using Cons.IH grows_trans by blast
qed simp

lemma approval_places: "places (d\<lparr>gv_candidates := update_by ca_id i (\<lambda>c. c\<lparr>ca_status := CaApproved\<rparr>) (gv_candidates d)\<rparr>) = places d"
proof -
  have "map (\<lambda>c. (ca_id c, ca_position c)) (update_by ca_id i (\<lambda>c. c\<lparr>ca_status := CaApproved\<rparr>) (gv_candidates d)) =
      map (\<lambda>c. (ca_id c, ca_position c)) (gv_candidates d)"
    by (rule map_key_update_by) simp
  then show ?thesis unfolding places_def by (simp flip: set_map)
qed

lemma createElection_grows: "createElection u y d = Inr (e, d') \<Longrightarrow> grows d d'"
  by (drule createElection_adds) (auto simp: grows_def places_def)

lemma election_writes_grow:
  "updateElection i u z d = Inr (w, d') \<Longrightarrow> grows d d'"
  "startElection i u now d = Inr (w, d') \<Longrightarrow> grows d d'"
  "endElection i u now d = Inr (w, d') \<Longrightarrow> grows d d'"
  by (drule election_writes, auto simp: write_election_grows)+

lemma nominateCandidate_grows: "nominateCandidate x d = Inr (c, d') \<Longrightarrow> grows d d'"
  by (drule nominateCandidate_adds) (auto simp: grows_def places_def)

lemma approveCandidate_grows: "approveCandidate i u d = Inr (w, d') \<Longrightarrow> grows d d'"
  by (drule approveCandidate_writes) (simp add: grows_def approval_places)

lemma store_ballot_grows: "store_ballot u b s d = Inr (n, d') \<Longrightarrow> grows d d'"
  by (auto simp: store_ballot_def result_simps dest: record_votes_grows)

lemma castVote_grows: "castVote u b now d = Inr (n, d') \<Longrightarrow> grows d d'"
  by (auto simp: castVote_def result_simps dest: store_ballot_grows)

lemma getElectionById_grows: "getElectionById i d = Inr (v, d') \<Longrightarrow> grows d d'"
  by (drule getElectionById_caches) (auto simp: grows_def places_def)


lemma transaction_grows: "(\<And>x d'. f d = Inr (x, d') \<Longrightarrow> grows d d') \<Longrightarrow> grows d (fst (transaction f d))"
  by (rule transaction_cases [of f d]) simp_all

lemma request_grows: "grows d (perform_governance q d)"
proof (cases q)
  case (CacheExpiry i)
  then show ?thesis by (simp add: grows_def places_def)
next
  case (OtherServices a)
  then show ?thesis by (simp add: grows_def places_def)
qed (auto intro!: transaction_grows intro: createElection_grows election_writes_grow nominateCandidate_grows approveCandidate_grows
    castVote_grows getElectionById_grows inert_grows dest: createCommittee_inert createExecutiveTerm_inert)

lemma requests_grow: "grows d (fold perform_governance qs d)"
proof (induction qs arbitrary: d)
  case (Cons q qs)
  from grows_trans [OF request_grows Cons.IH] show ?case by simp
qed simp

text \<open>All requests but ballots keep the rows together and leave the votes alone.\<close>

lemma transaction_rows:
  "rows_sound d \<Longrightarrow> (\<And>x d'. f d = Inr (x, d') \<Longrightarrow> rows_sound d') \<Longrightarrow> rows_sound (fst (transaction f d))"
  by (rule transaction_invariant)

lemma written_keeps:
  assumes "rows_sound d"
  shows "updateElection i u x d = Inr (z, d') \<Longrightarrow> rows_sound d'"
    "startElection i u now d = Inr (z, d') \<Longrightarrow> rows_sound d'"
    "endElection i u now d = Inr (z, d') \<Longrightarrow> rows_sound d'"
  by (drule election_writes, elim exE conjE, simp add: write_election_keeps [OF assms])+

lemma request_keeps_rows:
  assumes "rows_sound d" and "\<not> is_ballot q"
  shows "rows_sound (perform_governance q d)"
proof (cases q)
  case (CreateElection u x)
  show ?thesis unfolding CreateElection perform_governance.simps by (rule transaction_rows [OF assms(1)]) (rule new_election_keeps [OF assms(1)])
next
  case (UpdateElection i u x)
  show ?thesis unfolding UpdateElection perform_governance.simps by (rule transaction_rows [OF assms(1)]) (rule written_keeps(1) [OF assms(1)])
next
  case (StartElection i u now)
  show ?thesis unfolding StartElection perform_governance.simps by (rule transaction_rows [OF assms(1)]) (rule written_keeps(2) [OF assms(1)])
next
  case (EndElection i u now)
  show ?thesis unfolding EndElection perform_governance.simps by (rule transaction_rows [OF assms(1)]) (rule written_keeps(3) [OF assms(1)])
next
  case (Nominate x)
  show ?thesis unfolding Nominate perform_governance.simps by (rule transaction_rows [OF assms(1)]) (rule nomination_keeps [OF assms(1)])
next
  case (ApproveCandidate i u)
  show ?thesis unfolding ApproveCandidate perform_governance.simps
    by (rule transaction_rows [OF assms(1)]) (drule approveCandidate_writes, simp add: approval_keeps [OF assms(1)])
next
  case (CastVote u x now)
  then show ?thesis using assms(2) by simp
next
  case (ReadElection i)
  show ?thesis unfolding ReadElection perform_governance.simps by (rule transaction_rows [OF assms(1)]) (rule reading_keeps [OF assms(1)])
next
  case (CreateCommittee u x)
  show ?thesis unfolding CreateCommittee perform_governance.simps
    by (rule transaction_rows [OF assms(1)]) (rule inert_keeps [OF assms(1)], rule createCommittee_inert)
next
  case (CreateTerm u x)
  show ?thesis unfolding CreateTerm perform_governance.simps
    by (rule transaction_rows [OF assms(1)]) (rule inert_keeps [OF assms(1)], rule createExecutiveTerm_inert)
next
  case (CacheExpiry i)
  show ?thesis by (rule inert_keeps [OF assms(1)]) (simp add: CacheExpiry inert_def)
next
  case (OtherServices a)
  show ?thesis by (rule inert_keeps [OF assms(1)]) (simp add: OtherServices inert_def)
qed

lemma operations_leave_votes:
  "createElection u y d = Inr (e, d') \<Longrightarrow> gv_votes d' = gv_votes d"
  "updateElection i u z d = Inr (w, d') \<Longrightarrow> gv_votes d' = gv_votes d"
  "startElection i u now d = Inr (w, d') \<Longrightarrow> gv_votes d' = gv_votes d"
  "endElection i u now d = Inr (w, d') \<Longrightarrow> gv_votes d' = gv_votes d"
  "nominateCandidate x d = Inr (c, d') \<Longrightarrow> gv_votes d' = gv_votes d"
  "approveCandidate i u d = Inr (w, d') \<Longrightarrow> gv_votes d' = gv_votes d"
  "getElectionById i d = Inr (v, d') \<Longrightarrow> gv_votes d' = gv_votes d"
  "inert d d' \<Longrightarrow> gv_votes d' = gv_votes d"
  by ((drule createElection_adds | drule election_writes | drule nominateCandidate_adds | drule approveCandidate_writes |
      drule getElectionById_caches | drule inertD), auto simp: write_election_def)+

lemma transaction_leaves_votes:
  "(\<And>x d'. f d = Inr (x, d') \<Longrightarrow> gv_votes d' = gv_votes d) \<Longrightarrow> gv_votes (fst (transaction f d)) = gv_votes d"
  by (rule transaction_leaves)

lemma request_leaves_votes: "\<not> is_ballot q \<Longrightarrow> gv_votes (perform_governance q d) = gv_votes d"
  by (cases q) (auto intro!: transaction_leaves_votes intro: operations_leave_votes
      dest: operations_leave_votes(8) [OF createCommittee_inert] operations_leave_votes(8) [OF createExecutiveTerm_inert])

lemma same_votes_sound:
  assumes "governance_sound d" and "keys_sound d'" and "grows d d'" and "gv_votes d' = gv_votes d"
  shows "votes_sound d'"
proof -
  note S = governance_soundD [OF assms(1)]
  have "position_of d' (vo_candidate v) = position_of d (vo_candidate v)" if "v \<in> set (gv_votes d)" for v
  proof -
    from S(2) that obtain c where "c \<in> set (gv_candidates d)" "ca_id c = vo_candidate v" unfolding links_sound_def by blast
    then have p: "(vo_candidate v, ca_position c) \<in> places d" by (metis (mono_tags, lifting) places_def imageI)
    then have "(vo_candidate v, ca_position c) \<in> places d'" using assms(3) by (auto simp: grows_def)
    from place_position [OF assms(2) this] place_position [OF S(1) p] show ?thesis by simp
  qed
  then have "map (\<lambda>v. (vo_voter v, position_of d' (vo_candidate v))) (gv_votes d') = map (\<lambda>v. (vo_voter v, position_of d (vo_candidate v))) (gv_votes d)"
    by (simp add: assms(4))
  then show ?thesis using S(4) by (simp only: votes_sound_def)
qed

lemma transaction_sound:
  "governance_sound d \<Longrightarrow> (\<And>x d'. f d = Inr (x, d') \<Longrightarrow> governance_sound d') \<Longrightarrow> governance_sound (fst (transaction f d))"
  by (rule transaction_invariant)

lemma request_keeps:
  assumes "governance_sound d"
  shows "governance_sound (perform_governance q d)"
proof (cases "is_ballot q")
  case True
  then obtain u x now where q: "q = CastVote u x now" by (cases q) simp_all
  show ?thesis unfolding q perform_governance.simps by (rule transaction_sound [OF assms]) (rule castVote_keeps [OF assms])
next
  case False
  from request_keeps_rows [OF governance_soundD(6) [OF assms] False] have "rows_sound (perform_governance q d)" .
  with same_votes_sound [OF assms rows_soundD(1) request_grows request_leaves_votes [OF False]] show ?thesis by (simp add: governance_sound_def)
qed

interpretation governance: kept_invariant perform_governance governance_sound
  by unfold_locales (rule request_keeps)

section \<open>Ballots that overlap\<close>

text \<open>What a transaction has read of the slate, looked up and written stays in place.\<close>

lemma slate_later:
  assumes "slate_holds d i s" and "grows d d'"
  shows "slate_holds d' i s"
proof -
  have g: "set (gv_positions d) \<subseteq> set (gv_positions d')" "places d \<subseteq> places d'" using assms(2) by (simp_all add: grows_def)
  have "p \<in> set (gv_positions d') \<and> po_election p = i \<and> (\<forall>c\<in>set cs. (ca_id c, po_id p) \<in> places d')" if "(p, cs) \<in> set s" for p cs
    using bspec [OF assms(1) [unfolded slate_holds_def] that] g by (simp add: subset_iff)
  then show ?thesis unfolding slate_holds_def by (intro ballI case_prodI2) blast
qed

lemma placed_later: "placed d i k \<Longrightarrow> grows d d' \<Longrightarrow> placed d' i k"
  unfolding placed_def grows_def by blast

definition run_sound :: "governance_db \<Rightarrow> ballot_run \<Rightarrow> bool" where
  "run_sound d r \<longleftrightarrow> slate_holds d (br_election r) (br_slate r) \<and> (\<forall>v\<in>set (br_rows r). placed d (vo_election v) (vo_candidate v)) \<and>
     (br_stage r \<noteq> Searching \<longrightarrow> (case br_entries r of [] \<Rightarrow> True | x # xs \<Rightarrow> placed d (br_election r) (snd x)))"

lemma run_later:
  assumes "run_sound d r" and "grows d d'"
  shows "run_sound d' r"
  using assms slate_later [OF _ assms(2)] placed_later [OF _ assms(2)] by (auto simp: run_sound_def split: list.splits)

definition open_rows :: "ballot_run list \<Rightarrow> vote_row list" where
  "open_rows rs = concat (map br_rows rs)"

lemma open_rows_simps [simp]:
  "open_rows [] = []" "open_rows (r # rs) = br_rows r @ open_rows rs" "open_rows (as @ bs) = open_rows as @ open_rows bs"
  by (simp_all add: open_rows_def)

lemma holds_key_open: "list_ex (holds_key k) rs \<longleftrightarrow> k \<in> vote_key ` set (open_rows rs)"
  by (induction rs) (auto simp: holds_key_def list_ex_iff)

text \<open>The keys of all rows, committed or not, are different.\<close>

definition runs_sound :: "governance_db \<Rightarrow> ballot_run list \<Rightarrow> bool" where
  "runs_sound d rs \<longleftrightarrow> rows_sound d \<and> (\<forall>r\<in>set rs. run_sound d r) \<and> distinct (map vote_key (gv_votes d @ open_rows rs))"

lemma runs_soundD:
  assumes "runs_sound d (as @ r # bs)"
  shows "rows_sound d" "run_sound d r" "\<And>r'. r' \<in> set (as @ bs) \<Longrightarrow> run_sound d r'"
    "distinct (map vote_key (gv_votes d @ open_rows as @ br_rows r @ open_rows bs))"
  using assms by (auto simp: runs_sound_def)

lemma runs_soundI:
  assumes "rows_sound d" and "run_sound d r" and "\<And>r'. r' \<in> set (as @ bs) \<Longrightarrow> run_sound d r'"
    and "distinct (map vote_key (gv_votes d @ open_rows as @ br_rows r @ open_rows bs))"
  shows "runs_sound d (as @ r # bs)"
  using assms by (auto simp: runs_sound_def)

lemma searched_placed:
  assumes "slate_holds d i s" and "search_vote u i s x e = Inr p"
  shows "placed d i (snd x)"
proof -
  from assms(2) obtain cs c where f: "find (\<lambda>(p, cs). po_id p = fst x) s = Some (p, cs)" and c: "lookup_by ca_id (snd x) cs = Some c"
    by (auto simp: search_vote_Inr)
  from find_SomeD [OF f] have "(p, cs) \<in> set s" by simp
  moreover have "c \<in> set cs" "ca_id c = snd x" using c lookup_by_mem by (fastforce, blast)
  ultimately show ?thesis using assms(1) by (fastforce simp: slate_holds_def placed_def)
qed

lemma rows_sound_seq: "rows_sound d \<Longrightarrow> gv_seq d \<le> n \<Longrightarrow> rows_sound (d\<lparr>gv_seq := n\<rparr>)"
  using inert_keeps [of d "d\<lparr>gv_seq := n\<rparr>"] by (simp add: inert_def)

lemma step_keeps_runs: "governance_step x y \<Longrightarrow> runs_sound (fst x) (snd x) \<Longrightarrow> runs_sound (fst y) (snd y)"
proof (induction rule: governance_step.induct)
  case (Request q d rs)
  then show ?case using run_later [OF _ request_grows]
    by (simp add: runs_sound_def request_keeps_rows request_leaves_votes)
next
  case (Checked u x now d s rs)
  then show ?case using check_ballot_slate [OF Checked.hyps]
    by (auto simp: runs_sound_def run_sound_def begin_ballot_def slate_of_holds)
next
  case (Searched r x xs d p as bs)
  note R = runs_soundD [OF Searched.prems [unfolded fst_conv snd_conv]]
  have "slate_holds d (br_election r) (br_slate r)" using R(2) by (simp add: run_sound_def)
  from searched_placed [OF this Searched.hyps(3)] R(2) Searched.hyps(2) have "run_sound d (r\<lparr>br_stage := Counting p\<rparr>)"
    by (simp add: run_sound_def)
  from runs_soundI [OF R(1) this R(3)] R(4) show ?case by simp
next
  case (Counted r p x xs d as bs)
  note R = runs_soundD [OF Counted.prems [unfolded fst_conv snd_conv]]
  have "run_sound d (r\<lparr>br_stage := Inserting\<rparr>)" using R(2) Counted.hyps(1,2) by (simp add: run_sound_def)
  from runs_soundI [OF R(1) this R(3)] R(4) show ?case by simp
next
  case (Inserted r x xs as bs d e)
  note R = runs_soundD [OF Inserted.prems [unfolded fst_conv snd_conv]]
  let ?v = "new_vote (br_voter r) (br_election r) (snd x) d"
  let ?r = "r\<lparr>br_entries := xs, br_stage := Searching, br_rows := br_rows r @ [?v]\<rparr>"
  let ?d = "d\<lparr>gv_seq := gv_seq e\<rparr>"
  from Inserted.hyps(4) have e: "(br_election r, br_voter r, snd x) \<notin> vote_key ` set (gv_votes d @ br_rows r)" "gv_seq e = Suc (gv_seq d)"
    by (simp_all add: insert_vote_Inr sees_def)
  from Inserted.hyps(3) have o: "(br_election r, br_voter r, snd x) \<notin> vote_key ` set (open_rows as @ open_rows bs)"
    by (simp add: holds_key_open image_Un)
  have g: "grows d ?d" by (simp add: grows_def places_def)
  have v: "vote_key ?v = (br_election r, br_voter r, snd x)" by (simp add: vote_key_def new_vote_def)
  have "run_sound d ?r" using R(2) Inserted.hyps(1,2) by (simp add: run_sound_def new_vote_def)
  from run_later [OF this g] have "run_sound ?d ?r" .
  moreover have "run_sound ?d r'" if "r' \<in> set (as @ bs)" for r' by (rule run_later [OF R(3) [OF that] g])
  moreover have "rows_sound ?d" using rows_sound_seq [OF R(1)] e(2) by simp
  moreover have "distinct (map vote_key (gv_votes ?d @ open_rows as @ br_rows ?r @ open_rows bs))"
    using R(4) e(1) o v by (auto simp: image_Un)
  ultimately show ?case unfolding fst_conv snd_conv by (intro runs_soundI)
next
  case (Committed r d as bs)
  note R = runs_soundD [OF Committed.prems [unfolded fst_conv snd_conv]]
  have "\<forall>v\<in>set (br_rows r). placed d (vo_election v) (vo_candidate v)" using R(2) by (simp add: run_sound_def)
  from placed_votes_keep_rows [OF R(1) this, of 0] have "rows_sound (sees r d)" by (simp add: sees_def)
  moreover have "grows d (sees r d)" by (simp add: grows_def sees_def places_def)
  then have "run_sound (sees r d) r'" if "r' \<in> set (as @ bs)" for r' using run_later R(3) [OF that] by blast
  moreover have "distinct (map vote_key (gv_votes (sees r d) @ open_rows (as @ bs)))" using R(4) by (auto simp: sees_def)
  ultimately show ?case by (simp add: runs_sound_def)
next
  case (RolledBack d as r bs)
  note R = runs_soundD [OF RolledBack.prems [unfolded fst_conv snd_conv]]
  from R(4) have "distinct (map vote_key (gv_votes d @ open_rows (as @ bs)))" by auto
  with R(1,3) show ?case by (simp add: runs_sound_def)
qed

text \<open>What overlapping ballots leave of the invariant: nobody has two votes for a candidate.\<close>

definition overlap_sound :: "governance_db \<Rightarrow> bool" where
  "overlap_sound d \<longleftrightarrow> rows_sound d \<and> distinct (map vote_key (gv_votes d))"

lemma governance_overlap_sound:
  assumes "governance_sound d"
  shows "overlap_sound d"
proof -
  have "map (\<lambda>v. (vo_voter v, position_of d (vo_candidate v))) (gv_votes d) =
      map (\<lambda>k. (fst (snd k), position_of d (snd (snd k)))) (map vote_key (gv_votes d))" by (simp add: vote_key_def)
  from governance_soundD(4) [OF assms, unfolded votes_sound_def this] have "distinct (map vote_key (gv_votes d))"
    by (rule conjunct1 [OF iffD1 [OF distinct_map]])
  with governance_soundD(6) [OF assms] show ?thesis by (simp add: overlap_sound_def)
qed

lemma reachable_overlap_sound:
  assumes "overlap_sound d" and "governance_reachable (d, []) (d', rs)"
  shows "overlap_sound d'"
proof -
  have "runs_sound (fst (d', rs)) (snd (d', rs))"
    using assms(2)
  proof (induction rule: rtranclp_induct)
    case base
    then show ?case using assms(1) by (simp add: runs_sound_def overlap_sound_def)
  next
    case (step y z)
    then show ?case by (blast intro: step_keeps_runs)
  qed
  then show ?thesis by (simp add: runs_sound_def overlap_sound_def)
qed

text \<open>C7: Whatever requests come one after the other, successful or failing, positions, candidates and votes belong
  together, a position has no more candidates than it admits and nobody twice, nobody has two votes for a
  position, and a cached election is the stored one. When ballots overlap, the statements of their
  transactions in any order with one another and with the other requests, each of which still runs alone,
  all of this stays but one: a voter has no two votes for a candidate, and may have two for a position.\<close>

theorem elections_keep_sound:
  assumes "governance_sound d"
  shows "governance_sound (fold perform_governance qs d) \<and> (governance_reachable (d, []) (d', rs) \<longrightarrow> overlap_sound d')"
  using governance.sequence_keeps [OF assms] reachable_overlap_sound [OF governance_overlap_sound [OF assms]] by blast

section \<open>One ballot\<close>

text \<open>C16: Nobody votes twice, as long as requests do not overlap: after a ballot with a vote was accepted, every later ballot
  of its voter for the election is refused and leaves no vote, whatever was requested in between.\<close>

theorem one_ballot_per_election:
  assumes "castVote u x now d = Inr (n, d1)" and "bl_votes x \<noteq> []" and "bl_election y = bl_election x"
  shows "\<exists>e. transaction (castVote u y t) (fold perform_governance qs d1) = (fold perform_governance qs d1, Inl e)"
proof -
  let ?d = "fold perform_governance qs d1"
  from assms(1) have "record_votes u (bl_election x) (slate_of d (bl_election x)) (bl_votes x) d = Inr d1"
    by (auto simp: castVote_def store_ballot_def result_simps dest: check_ballot_slate)
  moreover obtain z zs where "bl_votes x = z # zs" using assms(2) by (cases "bl_votes x") auto
  ultimately obtain d2 where "record_vote u (bl_election x) (slate_of d (bl_election x)) z d = Inr d2"
    and "record_votes u (bl_election x) (slate_of d (bl_election x)) zs d2 = Inr d1" by (auto simp: result_simps)
  from record_votes_grows [OF this(2)] have "set (gv_votes d2) \<subseteq> set (gv_votes d1)" by (simp add: grows_def set_mono_prefix)
  moreover have "\<lparr>vo_id = row_id d, vo_election = bl_election x, vo_candidate = snd z, vo_voter = u\<rparr> \<in> set (gv_votes d2)"
    using \<open>record_vote u (bl_election x) (slate_of d (bl_election x)) z d = Inr d2\<close> by (simp add: record_vote_statements add_vote_def)
  ultimately have "\<exists>v\<in>set (gv_votes d1). vo_election v = bl_election x \<and> vo_voter v = u" by (metis subsetD vote_row.select_convs(2,4))
  moreover have "set (gv_votes d1) \<subseteq> set (gv_votes ?d)" using requests_grow [of d1 qs] by (simp add: grows_def set_mono_prefix)
  ultimately have "list_ex (\<lambda>v. vo_election v = bl_election y \<and> vo_voter v = u) (gv_votes ?d)"
    using assms(3) by (auto simp: list_ex_iff)
  then have "check_ballot u y t ?d \<noteq> Inr s" for s by (auto simp: check_ballot_def result_simps)
  then obtain e where "check_ballot u y t ?d = Inl e" by (cases "check_ballot u y t ?d") auto
  then show ?thesis by (simp add: transaction_def castVote_def)
qed


section \<open>Which ballots are accepted\<close>

lemma lookup_by_filter:
  "distinct (map key t) \<Longrightarrow> lookup_by key k (filter P t) = (case lookup_by key k t of None \<Rightarrow> None | Some r \<Rightarrow> if P r then Some r else None)"
proof (induction t)
  case (Cons a t)
  have "lookup_by key k t = None" "lookup_by key k (filter P t) = None" if "key a = k"
    using Cons.prems that by (auto simp: lookup_by_None)
  with Cons show ?case by (cases "key a = k") (simp_all add: lookup_by_Cons)
qed (simp add: lookup_by_Nil)

lemma find_map_option: "find P (map f xs) = map_option f (find (\<lambda>x. P (f x)) xs)"
  by (induction xs) auto

definition ballot_entry_valid :: "governance_db \<Rightarrow> ident \<Rightarrow> ident \<times> ident \<Rightarrow> bool" where
  "ballot_entry_valid d i x \<longleftrightarrow> (\<exists>p c. get_position d (fst x) = Some p \<and> po_election p = i \<and> 0 < po_max_votes p \<and>
     get_candidate d (snd x) = Some c \<and> ca_position c = fst x)"

lemma names_candidate_slate_of:
  assumes "keys_sound d"
  shows "names_candidate (slate_of d i) x \<longleftrightarrow> ballot_entry_valid d i x"
proof -
  have f: "find (\<lambda>(p, cs). po_id p = fst x) (slate_of d i) =
      map_option (\<lambda>p. (p, filter (\<lambda>c. ca_position c = po_id p) (gv_candidates d))) (lookup_by po_id (fst x) (filter (\<lambda>p. po_election p = i) (gv_positions d)))"
    by (simp add: slate_of_def find_map_option lookup_by_def)
  have d: "distinct (map po_id (gv_positions d))" "distinct (map ca_id (gv_candidates d))" using assms by (simp_all add: keys_sound_def)
  show ?thesis
  proof (cases "get_position d (fst x)")
    case (Some p)
    have p: "po_id p = fst x" using Some by blast
    show ?thesis
      by (cases "get_candidate d (snd x)") (simp_all add: names_candidate_def ballot_entry_valid_def f lookup_by_filter [OF d(1)] lookup_by_filter [OF d(2)] Some p)
  qed (simp add: names_candidate_def ballot_entry_valid_def f lookup_by_filter [OF d(1)])
qed

definition add_votes :: "ident \<Rightarrow> ident \<Rightarrow> (ident \<times> ident) list \<Rightarrow> governance_db \<Rightarrow> governance_db" where
  "add_votes u i xs d = fold (\<lambda>x. add_vote u i (snd x)) xs d"

lemma votes_for_position_add_vote:
  assumes "keys_sound d" and "(c, q) \<in> places d"
  shows "votes_for_position (add_vote u i c d) i u p = [] \<longleftrightarrow> votes_for_position d i u p = [] \<and> p \<noteq> q"
proof -
  have "(c, p) \<in> places d \<longleftrightarrow> p = q" using place_position [OF assms(1)] assms(2) by (metis option.inject)
  then show ?thesis by (simp add: votes_for_position_places) (auto simp: add_vote_def)
qed

lemma keys_sound_add_vote [simp]: "keys_sound d \<Longrightarrow> keys_sound (add_vote u i c d)"
  by (auto simp: keys_sound_def unused_rows_def)

lemma record_votes_Inr:
  assumes "keys_sound d" and "slate_holds d i s"
  shows "record_votes u i s xs d = Inr d' \<longleftrightarrow> (\<forall>x\<in>set xs. names_candidate s x \<and> votes_for_position d i u (fst x) = []) \<and>
    distinct (map fst xs) \<and> (xs \<noteq> [] \<longrightarrow> u \<in> set (xs_users (gv_access d))) \<and> d' = add_votes u i xs d"
  using assms
proof (induction xs arbitrary: d)
  case Nil
  then show ?case by (auto simp: add_votes_def)
next
  case (Cons x xs)
  let ?d = "add_vote u i (snd x) d"
  show ?case
  proof (cases "names_candidate s x \<and> votes_for_position d i u (fst x) = [] \<and> u \<in> set (xs_users (gv_access d))")
    case True
    then have r: "record_vote u i s x d = Inr ?d" by (simp add: record_vote_Inr [OF Cons.prems(2)])
    have "votes_for_position ?d i u p = [] \<longleftrightarrow> votes_for_position d i u p = [] \<and> p \<noteq> fst x" for p
      by (rule votes_for_position_add_vote [OF Cons.prems(1) named_place(1) [OF Cons.prems(2) conjunct1 [OF True]]])
    with Cons.IH [of ?d] Cons.prems have "record_votes u i s xs ?d = Inr d' \<longleftrightarrow>
        (\<forall>y\<in>set xs. names_candidate s y \<and> votes_for_position d i u (fst y) = [] \<and> fst y \<noteq> fst x) \<and> distinct (map fst xs) \<and>
        (xs \<noteq> [] \<longrightarrow> u \<in> set (xs_users (gv_access d))) \<and> d' = add_votes u i xs ?d" by simp
    moreover have "record_votes u i s (x # xs) d = record_votes u i s xs ?d" "add_votes u i (x # xs) d = add_votes u i xs ?d"
      by (simp_all add: r add_votes_def)
    moreover have "(\<forall>y\<in>set xs. fst y \<noteq> fst x) \<longleftrightarrow> fst x \<notin> fst ` set xs" by (auto simp: image_iff)
    ultimately show ?thesis using True by (simp only: ball_conj_distrib list.set_map list.simps distinct.simps ball_simps) blast
  next
    case False
    then have "record_vote u i s x d \<noteq> Inr d1" for d1 by (auto simp: record_vote_Inr [OF Cons.prems(2)])
    then have "record_votes u i s (x # xs) d \<noteq> Inr d'" by (simp add: result_simps)
    with False show ?thesis by auto
  qed
qed

definition ballot_acceptable :: "governance_db \<Rightarrow> ident \<Rightarrow> ballot \<Rightarrow> int \<Rightarrow> bool" where
  "ballot_acceptable d u x now \<longleftrightarrow>
     (\<exists>e. get_election d (bl_election x) = Some e \<and> el_status e = ElActive \<and> now \<le> el_end e \<and> active_member (gv_access d) u (el_organization e) \<noteq> None) \<and>
     (\<forall>v\<in>set (gv_votes d). \<not> (vo_election v = bl_election x \<and> vo_voter v = u)) \<and> distinct (map fst (bl_votes x)) \<and>
     (\<forall>y\<in>set (bl_votes x). ballot_entry_valid d (bl_election x) y \<and> u \<in> set (xs_users (gv_access d)))"

lemma check_ballot_Inr: "check_ballot u x now d = Inr s \<longleftrightarrow> s = slate_of d (bl_election x) \<and>
   (\<exists>e. get_election d (bl_election x) = Some e \<and> el_status e = ElActive \<and> now \<le> el_end e \<and> active_member (gv_access d) u (el_organization e) \<noteq> None) \<and>
   (\<forall>v\<in>set (gv_votes d). \<not> (vo_election v = bl_election x \<and> vo_voter v = u))"
  by (cases "get_election d (bl_election x)") (auto simp: check_ballot_def result_simps list_ex_iff not_less)

lemma castVote_Inr:
  assumes "governance_sound d"
  shows "castVote u x now d = Inr (n, d') \<longleftrightarrow>
    ballot_acceptable d u x now \<and> n = length (bl_votes x) \<and> d' = add_votes u (bl_election x) (bl_votes x) d"
proof (cases "check_ballot u x now d")
  case (Inl e)
  then have "\<not> ballot_acceptable d u x now" using check_ballot_Inr [of u x now d "slate_of d (bl_election x)"] by (auto simp: ballot_acceptable_def)
  with Inl show ?thesis by (simp add: castVote_def)
next
  case (Inr s)
  note K = governance_soundD(1) [OF assms]
  from Inr have c: "s = slate_of d (bl_election x)" "\<forall>v\<in>set (gv_votes d). \<not> (vo_election v = bl_election x \<and> vo_voter v = u)"
    by (simp_all add: check_ballot_Inr)
  have "votes_for_position d (bl_election x) u p = []" for p using c(2) by (auto simp: votes_for_position_def filter_empty_conv)
  note R = record_votes_Inr [OF K slate_of_holds, of u "bl_election x" "bl_votes x", unfolded this names_candidate_slate_of [OF K]]
  have "castVote u x now d = Inr (n, d') \<longleftrightarrow> record_votes u (bl_election x) s (bl_votes x) d = Inr d' \<and> n = length (bl_votes x)"
    by (auto simp: castVote_def store_ballot_def Inr result_simps)
  moreover from Inr have "ballot_acceptable d u x now \<longleftrightarrow> distinct (map fst (bl_votes x)) \<and>
      (\<forall>y\<in>set (bl_votes x). ballot_entry_valid d (bl_election x) y \<and> u \<in> set (xs_users (gv_access d)))"
    unfolding check_ballot_Inr ballot_acceptable_def by blast
  ultimately show ?thesis unfolding c(1) R by (cases "bl_votes x") auto
qed


text \<open>C10: The handler is its specification: when the election is active and has not ended, the voter is an active member of
  the organization without a vote in the election, and the entries name candidates of different positions
  of the election that admit a vote (one, however many votes the position admits), exactly these votes are
  recorded and counted; in every other case it ends with an error and changes nothing.\<close>

theorem castVote_accepts_exactly:
  assumes "governance_sound d"
  shows "\<exists>e. transaction (castVote u x now) d =
    (if ballot_acceptable d u x now then (add_votes u (bl_election x) (bl_votes x) d, Inr (length (bl_votes x))) else (d, Inl e))"
proof (cases "castVote u x now d")
  case (Inl e)
  then have "\<not> ballot_acceptable d u x now" using castVote_Inr [OF assms, of u x now "length (bl_votes x)"] by auto
  with Inl show ?thesis by (simp add: transaction_def)
next
  case (Inr y)
  obtain n d' where y: "y = (n, d')" by (cases y)
  from Inr [unfolded y castVote_Inr [OF assms]] Inr y show ?thesis by (simp add: transaction_def)
qed

section \<open>Results\<close>

lemma sum_by_key:
  assumes "distinct (map key cs)"
  shows "sum_list (map (\<lambda>c. length (filter (\<lambda>v. f v = key c) vs)) cs) = length (filter (\<lambda>v. f v \<in> key ` set cs) vs)"
  using assms
proof (induction cs)
  case (Cons c cs)
  have "length (filter (\<lambda>v. f v = key c \<or> f v \<in> key ` set cs) vs) =
      length (filter (\<lambda>v. f v = key c) vs) + length (filter (\<lambda>v. f v \<in> key ` set cs) vs)" if "key c \<notin> key ` set cs"
    using that by (induction vs) auto
  with Cons show ?case by simp
qed simp

lemma position_votes:
  assumes "keys_sound d"
  shows "sum_list (map (votes_of d) (filter (\<lambda>c. ca_position c = p) (gv_candidates d))) =
    length (filter (\<lambda>v. position_of d (vo_candidate v) = Some p) (gv_votes d))"
proof -
  let ?cs = "filter (\<lambda>c. ca_position c = p) (gv_candidates d)"
  have "distinct (map ca_id ?cs)" using assms by (simp add: keys_sound_def distinct_map_filter)
  from sum_by_key [OF this, of vo_candidate "gv_votes d"]
  have "sum_list (map (votes_of d) ?cs) = length (filter (\<lambda>v. vo_candidate v \<in> ca_id ` set ?cs) (gv_votes d))" by (simp add: votes_of_def [abs_def])
  moreover have "k \<in> ca_id ` set ?cs \<longleftrightarrow> position_of d k = Some p" for k
  proof -
    have "k \<in> ca_id ` set ?cs \<longleftrightarrow> (k, p) \<in> places d" by (auto simp: places_def image_iff)
    then show ?thesis using place_position [OF assms] position_place by blast
  qed
  ultimately show ?thesis by simp
qed

lemma vote_position:
  assumes "governance_sound d" and "v \<in> set (gv_votes d)"
  shows "\<exists>p\<in>set (gv_positions d). position_of d (vo_candidate v) = Some (po_id p) \<and> po_election p = vo_election v"
proof -
  note S = governance_soundD [OF assms(1)]
  from S(2) assms(2) obtain c where c: "c \<in> set (gv_candidates d)" "ca_id c = vo_candidate v" "ca_election c = vo_election v"
    unfolding links_sound_def by blast
  from S(2) c(1) obtain p where p: "p \<in> set (gv_positions d)" "po_id p = ca_position c" "po_election p = ca_election c"
    unfolding links_sound_def by blast
  have "(vo_candidate v, po_id p) \<in> places d" unfolding places_def c(2) [symmetric] p(2) using c(1) by blast
  from place_position [OF S(1) this] p c(3) show ?thesis by (intro bexI [of _ p]) simp_all
qed

lemma votes_of_election:
  assumes "governance_sound d" and "v \<in> set (gv_votes d)"
  shows "vo_election v = i \<longleftrightarrow> position_of d (vo_candidate v) \<in> (\<lambda>p. Some (po_id p)) ` set (filter (\<lambda>p. po_election p = i) (gv_positions d))"
proof
  from vote_position [OF assms] obtain p where p: "p \<in> set (gv_positions d)" "position_of d (vo_candidate v) = Some (po_id p)"
    "po_election p = vo_election v" by blast
  { assume "vo_election v = i"
    with p show "position_of d (vo_candidate v) \<in> (\<lambda>p. Some (po_id p)) ` set (filter (\<lambda>p. po_election p = i) (gv_positions d))" by simp }
  assume "position_of d (vo_candidate v) \<in> (\<lambda>p. Some (po_id p)) ` set (filter (\<lambda>p. po_election p = i) (gv_positions d))"
  then obtain q where "q \<in> set (gv_positions d)" "po_election q = i" "po_id q = po_id p" using p(2) by auto
  with sole_position [OF governance_soundD(1) [OF assms(1)] _ p(1), of q] p(3) show "vo_election v = i" by simp
qed

lemma percentage_bounds:
  assumes "n \<le> t"
  shows "0 \<le> percentage n t" "percentage n t \<le> 100"
proof -
  have "dbl (of_nat n / of_nat t) \<le> 1" if "0 < t"
    using dbl_mono [of "of_nat n / of_nat t" 1] assms that dbl_of_int [of 1] by simp
  then have "dbl (dbl (of_nat n / of_nat t) * 100) \<le> 100" if "0 < t"
    using dbl_mono [of "dbl (of_nat n / of_nat t) * 100" 100] that dbl_of_int [of 100] dbl_nonneg [of "of_nat n / of_nat t"] by simp
  then show "0 \<le> percentage n t" "percentage n t \<le> 100" by (simp_all add: percentage_def dbl_nonneg)
qed

text \<open>C24: The results add up: the totals of the positions make the votes of the election, the voters are those who voted
  in it, the total of a position is the sum of its candidates' votes and at most the number of voters, and
  every percentage is one.\<close>

theorem results_add_up:
  assumes "governance_sound d" and "getElectionResults i d = Inr r"
  shows "sum_list (map pr_total (rs_positions r)) = length (filter (\<lambda>v. vo_election v = i) (gv_votes d)) \<and>
    rs_voters r = card (vo_voter ` {v \<in> set (gv_votes d). vo_election v = i}) \<and>
    (\<forall>p\<in>set (rs_positions r). pr_total p = sum_list (map cr_votes (pr_candidates p)) \<and> pr_total p \<le> rs_voters r \<and>
       (\<forall>c\<in>set (pr_candidates p). 0 \<le> cr_percentage c \<and> cr_percentage c \<le> 100))"
proof -
  note S = governance_soundD [OF assms(1)]
  let ?ps = "filter (\<lambda>p. po_election p = i) (gv_positions d)"
  let ?n = "\<lambda>p. length (filter (\<lambda>v. position_of d (vo_candidate v) = Some (po_id p)) (gv_votes d))"
  let ?r = "\<lambda>p. position_results d (p, filter (\<lambda>c. ca_position c = po_id p) (gv_candidates d))"
  from assms(2) have r: "rs_positions r = map ?r ?ps"
    "rs_voters r = length (remdups (map vo_voter (filter (\<lambda>v. vo_election v = i) (gv_votes d))))"
    by (auto simp: getElectionResults_def result_simps slate_of_def)
  have t: "pr_total (?r p) = ?n p" for p by (simp add: position_results_def Let_def position_votes [OF S(1)])
  have "distinct (map (\<lambda>p. Some (po_id p)) ?ps)"
    using S(1) distinct_map_filter [of po_id "gv_positions d"] by (simp add: keys_sound_def distinct_map inj_on_def)
  from sum_by_key [OF this, of "\<lambda>v. position_of d (vo_candidate v)" "gv_votes d"]
  have "sum_list (map pr_total (rs_positions r)) =
      length (filter (\<lambda>v. position_of d (vo_candidate v) \<in> (\<lambda>p. Some (po_id p)) ` set ?ps) (gv_votes d))"
    by (simp add: r(1) comp_def t)
  also have "filter (\<lambda>v. position_of d (vo_candidate v) \<in> (\<lambda>p. Some (po_id p)) ` set ?ps) (gv_votes d) =
      filter (\<lambda>v. vo_election v = i) (gv_votes d)"
    using votes_of_election [OF assms(1)] by (intro filter_cong) blast+
  finally have sum: "sum_list (map pr_total (rs_positions r)) = length (filter (\<lambda>v. vo_election v = i) (gv_votes d))" .
  have voters: "rs_voters r = card (vo_voter ` {v \<in> set (gv_votes d). vo_election v = i})"
    by (simp add: r(2) length_remdups_card_conv)
  have n: "?n p \<le> rs_voters r" if "p \<in> set ?ps" for p
  proof -
    let ?vs = "filter (\<lambda>v. position_of d (vo_candidate v) = Some (po_id p)) (gv_votes d)"
    have "distinct (map (\<lambda>v. (vo_voter v, position_of d (vo_candidate v))) ?vs)" using S(4) by (simp add: votes_sound_def distinct_map_filter)
    then have "distinct (map vo_voter ?vs)" by (auto simp: distinct_map inj_on_def)
    then have "?n p = card (vo_voter ` set ?vs)" by (metis distinct_card length_map list.set_map)
    also have "\<dots> \<le> rs_voters r" unfolding voters
      using that votes_of_election [OF assms(1), of _ i] by (intro card_mono image_mono) auto
    finally show ?thesis .
  qed
  have c: "pr_total (?r p) = sum_list (map cr_votes (pr_candidates (?r p))) \<and>
      (\<forall>c\<in>set (pr_candidates (?r p)). 0 \<le> cr_percentage c \<and> cr_percentage c \<le> 100)" for p
    by (auto simp: position_results_def Let_def comp_def member_le_sum_list intro!: percentage_bounds)
  from sum voters n c t show ?thesis unfolding r(1) by (simp add: t)
qed


section \<open>Completed elections\<close>

text \<open>What the results are computed from, and what they say but for texts.\<close>

definition ballot_box :: "ident \<Rightarrow> governance_db \<Rightarrow> election_row option \<times> (ident \<times> ident) list \<times> position_row list \<times> (ident \<times> ident \<times> ident) list" where
  "ballot_box i d = (get_election d i, map (\<lambda>v. (vo_voter v, vo_candidate v)) (filter (\<lambda>v. vo_election v = i) (gv_votes d)),
     filter (\<lambda>p. po_election p = i) (gv_positions d),
     map (\<lambda>c. (ca_id c, ca_position c, ca_user c)) (filter (\<lambda>c. ca_election c = i) (gv_candidates d)))"

definition tally :: "election_results \<Rightarrow> nat \<times> (ident \<times> nat \<times> (ident \<times> ident \<times> nat \<times> rat) list) list" where
  "tally r = (rs_voters r, map (\<lambda>p. (pr_position p, pr_total p,
     map (\<lambda>c. (cr_candidate c, cr_user c, cr_votes c, cr_percentage c)) (pr_candidates p))) (rs_positions r))"

definition count_box :: "election_row option \<times> (ident \<times> ident) list \<times> position_row list \<times> (ident \<times> ident \<times> ident) list \<Rightarrow>
    nat \<times> (ident \<times> nat \<times> (ident \<times> ident \<times> nat \<times> rat) list) list" where
  "count_box x = (case x of (e, vs, ps, cs) \<Rightarrow>
     (length (remdups (map fst vs)), map (\<lambda>p.
        let ks = filter (\<lambda>k. fst (snd k) = po_id p) cs;
            n = (\<lambda>k. length (filter (\<lambda>w. snd w = fst k) vs));
            t = sum_list (map n ks)
        in (po_id p, t, map (\<lambda>k. (fst k, snd (snd k), n k, percentage (n k) t)) ks)) ps))"

lemma candidates_of_position:
  assumes "governance_sound d" and "p \<in> set (gv_positions d)"
  shows "filter (\<lambda>c. ca_position c = po_id p) (gv_candidates d) =
    filter (\<lambda>c. ca_position c = po_id p) (filter (\<lambda>c. ca_election c = po_election p) (gv_candidates d))"
proof -
  note S = governance_soundD [OF assms(1)]
  have "ca_election c = po_election p" if c: "c \<in> set (gv_candidates d)" "ca_position c = po_id p" for c
  proof -
    from S(2) c(1) obtain q where q: "q \<in> set (gv_positions d)" "po_id q = ca_position c" "po_election q = ca_election c"
      unfolding links_sound_def by blast
    with sole_position [OF S(1) q(1) assms(2)] c(2) show ?thesis by simp
  qed
  then show ?thesis by (auto intro: filter_cong)
qed

lemma votes_of_candidate:
  assumes "governance_sound d" and "c \<in> set (gv_candidates d)"
  shows "votes_of d c = length (filter (\<lambda>v. vo_candidate v = ca_id c) (filter (\<lambda>v. vo_election v = ca_election c) (gv_votes d)))"
proof -
  note S = governance_soundD [OF assms(1)]
  have "vo_election v = ca_election c" if v: "v \<in> set (gv_votes d)" "vo_candidate v = ca_id c" for v
  proof -
    from S(2) v(1) obtain k where k: "k \<in> set (gv_candidates d)" "ca_id k = vo_candidate v" "ca_election k = vo_election v"
      unfolding links_sound_def by blast
    with sole_candidate [OF S(1) k(1) assms(2)] v(2) show ?thesis by simp
  qed
  then have "filter (\<lambda>v. vo_candidate v = ca_id c) (gv_votes d) =
      filter (\<lambda>v. vo_candidate v = ca_id c) (filter (\<lambda>v. vo_election v = ca_election c) (gv_votes d))" by (auto intro: filter_cong)
  then show ?thesis by (simp add: votes_of_def)
qed

lemma results_from_box:
  assumes "governance_sound d" and "getElectionResults i d = Inr r"
  shows "get_election d i = Some (rs_election r)" "tally r = count_box (ballot_box i d)"
proof -
  from assms(2) have r: "get_election d i = Some (rs_election r)" "rs_positions r = map (position_results d) (slate_of d i)"
    "rs_voters r = length (remdups (map vo_voter (filter (\<lambda>v. vo_election v = i) (gv_votes d))))"
    by (auto simp: getElectionResults_def result_simps)
  show "get_election d i = Some (rs_election r)" by (rule r(1))
  let ?cs = "filter (\<lambda>c. ca_election c = i) (gv_candidates d)"
  let ?vs = "filter (\<lambda>v. vo_election v = i) (gv_votes d)"
  let ?n = "\<lambda>c. length (filter (\<lambda>v. vo_candidate v = ca_id c) ?vs)"
  let ?ks = "\<lambda>p. filter (\<lambda>c. ca_position c = po_id p) ?cs"
  have p: "position_results d (p, filter (\<lambda>c. ca_position c = po_id p) (gv_candidates d)) =
      (let t = sum_list (map ?n (?ks p))
       in \<lparr>pr_position = po_id p, pr_title = po_title p,
           pr_candidates = map (\<lambda>c. \<lparr>cr_candidate = ca_id c, cr_user = ca_user c, cr_votes = ?n c,
             cr_percentage = percentage (?n c) t, cr_manifesto = ca_manifesto c, cr_status = ca_status c\<rparr>) (?ks p), pr_total = t\<rparr>)"
    if "p \<in> set (gv_positions d)" "po_election p = i" for p
  proof -
    have k: "filter (\<lambda>c. ca_position c = po_id p) (gv_candidates d) = ?ks p"
      using candidates_of_position [OF assms(1) that(1)] that(2) by simp
    have v: "votes_of d c = ?n c" if "c \<in> set (?ks p)" for c using votes_of_candidate [OF assms(1), of c] that by simp
    have "map (votes_of d) (?ks p) = map ?n (?ks p)" by (rule map_cong [OF refl]) (rule v)
    then have t: "sum_list (map (votes_of d) (?ks p)) = sum_list (map ?n (?ks p))" by (rule arg_cong)
    show ?thesis unfolding k position_results_def prod.case Let_def t
      by (intro position_result.equality) (simp_all add: v del: filter_filter set_filter)
  qed
  show "tally r = count_box (ballot_box i d)"
    by (simp add: tally_def count_box_def ballot_box_def r slate_of_def p Let_def filter_map comp_def)
qed

text \<open>Additions to other elections leave the box alone.\<close>

lemma votes_leave_box:
  "record_votes u j s xs d = Inr d' \<Longrightarrow> j \<noteq> i \<Longrightarrow> ballot_box i d' = ballot_box i d"
proof (induction xs arbitrary: d)
  case (Cons x xs)
  from Cons.prems(1) obtain d1 where "record_vote u j s x d = Inr d1" and r: "record_votes u j s xs d1 = Inr d'" by (auto simp: result_simps)
  then have "d1 = add_vote u j (snd x) d" by (simp add: record_vote_statements)
  then have "ballot_box i d1 = ballot_box i d" using Cons.prems(2) by (simp add: ballot_box_def add_vote_def)
  with Cons.IH [OF r Cons.prems(2)] show ?case by simp
qed simp

lemma approval_leaves_box:
  "ballot_box i (d\<lparr>gv_candidates := update_by ca_id k (\<lambda>c. c\<lparr>ca_status := CaApproved\<rparr>) (gv_candidates d)\<rparr>) = ballot_box i d"
proof -
  have "map (\<lambda>c. (ca_id c, ca_position c, ca_user c)) (filter (\<lambda>c. ca_election c = i) (update_by ca_id k (\<lambda>c. c\<lparr>ca_status := CaApproved\<rparr>) cs)) =
      map (\<lambda>c. (ca_id c, ca_position c, ca_user c)) (filter (\<lambda>c. ca_election c = i) cs)" for cs
    by (induction cs) (auto simp: update_by_def update_where_def)
  then show ?thesis by (simp add: ballot_box_def)
qed

lemma inert_leaves_box: "inert d d' \<Longrightarrow> ballot_box i d' = ballot_box i d"
  by (simp add: inert_def ballot_box_def)

lemma write_leaves_box: "j \<noteq> i \<Longrightarrow> (\<And>e. el_id (f e) = el_id e) \<Longrightarrow> ballot_box i (write_election j f d) = ballot_box i d"
  by (simp add: ballot_box_def write_election_def lookup_by_update_by)

definition completed :: "governance_db \<Rightarrow> ident \<Rightarrow> bool" where
  "completed d i \<longleftrightarrow> (\<exists>e. get_election d i = Some e \<and> el_status e = ElCompleted)"

lemma completed_unwritten:
  assumes "completed d i"
  shows "updateElection j u x d = Inr (z, d') \<Longrightarrow> ballot_box i d' = ballot_box i d"
    "startElection j u now d = Inr (z, d') \<Longrightarrow> ballot_box i d' = ballot_box i d"
    "endElection j u now d = Inr (z, d') \<Longrightarrow> ballot_box i d' = ballot_box i d"
proof -
  have j: "j \<noteq> i" if "get_election d j = Some e" "el_status e \<noteq> ElCompleted" for e using that assms by (auto simp: completed_def)
  show "updateElection j u x d = Inr (z, d') \<Longrightarrow> ballot_box i d' = ballot_box i d"
    "startElection j u now d = Inr (z, d') \<Longrightarrow> ballot_box i d' = ballot_box i d"
    "endElection j u now d = Inr (z, d') \<Longrightarrow> ballot_box i d' = ballot_box i d"
    by (drule election_writes, elim exE conjE, simp add: write_leaves_box j)+
qed

lemma completed_unnominated:
  assumes "completed d i" and "nominateCandidate x d = Inr (c, d')"
  shows "ballot_box i d' = ballot_box i d"
proof -
  from nominateCandidate_adds [OF assms(2)] obtain p :: position_row and e where p: "ca_election c = po_election p"
    "get_election d (po_election p) = Some e" "el_status e = ElDraft \<or> el_status e = ElNomination"
    and d': "d' = d\<lparr>gv_candidates := gv_candidates d @ [c], gv_seq := Suc (gv_seq d)\<rparr>"
    by blast
  have "ca_election c \<noteq> i" using p assms(1) by (auto simp: completed_def)
  then show ?thesis by (simp add: ballot_box_def d')
qed

lemma completed_no_votes:
  assumes "completed d i" and "castVote u x now d = Inr (n, d')"
  shows "ballot_box i d' = ballot_box i d"
proof -
  from assms(2) obtain s where s: "check_ballot u x now d = Inr s" "record_votes u (bl_election x) s (bl_votes x) d = Inr d'"
    by (auto simp: castVote_def store_ballot_def result_simps)
  have "bl_election x \<noteq> i" using s(1) assms(1) by (auto simp: check_ballot_Inr completed_def)
  from votes_leave_box [OF s(2) this] show ?thesis .
qed

lemma completed_no_positions:
  assumes "governance_sound d" and "completed d i" and "createElection u x d = Inr (e, d')"
  shows "ballot_box i d' = ballot_box i d"
proof -
  from createElection_adds [OF assms(3)] obtain ps where
    d': "d' = d\<lparr>gv_elections := gv_elections d @ [e], gv_positions := gv_positions d @ ps, gv_seq := Suc (gv_seq d) + length ps\<rparr>"
    and e: "el_id e = gv_ids d (gv_seq d)" and ps: "\<forall>p\<in>set ps. po_election p = el_id e" by blast
  from assms(2) obtain c where c: "get_election d i = Some c" by (auto simp: completed_def)
  then have "i \<in> set (map el_id (gv_elections d))" by (metis lookup_by_key lookup_by_mem image_eqI list.set_map)
  moreover have "el_id e \<notin> set (map el_id (gv_elections d))"
    using governance_soundD(1) [OF assms(1)] unused_rows_next [of d "map el_id (gv_elections d)" "gv_seq d"] by (simp add: e keys_sound_def)
  ultimately have "filter (\<lambda>p. po_election p = i) ps = []" using ps by (auto simp: filter_empty_conv)
  with c show ?thesis by (simp add: ballot_box_def d' lookup_by_append)
qed

lemma transaction_leaves_box:
  "(\<And>x d'. f d = Inr (x, d') \<Longrightarrow> ballot_box i d' = ballot_box i d) \<Longrightarrow> ballot_box i (fst (transaction f d)) = ballot_box i d"
  by (rule transaction_leaves)

lemma request_leaves_box:
  assumes "governance_sound d" and "completed d i"
  shows "ballot_box i (perform_governance q d) = ballot_box i d"
proof (cases q)
  case (ApproveCandidate j u)
  show ?thesis unfolding ApproveCandidate perform_governance.simps
    by (rule transaction_leaves_box) (drule approveCandidate_writes, simp add: approval_leaves_box)
next
  case (ReadElection j)
  show ?thesis unfolding ReadElection perform_governance.simps
    by (rule transaction_leaves_box) (drule getElectionById_caches, auto simp: ballot_box_def)
qed (simp_all only: perform_governance.simps, (rule transaction_leaves_box, erule completed_no_positions [OF assms]
    completed_unwritten [OF assms(2)] completed_unnominated [OF assms(2)] completed_no_votes [OF assms(2)]
    inert_leaves_box [OF createCommittee_inert] inert_leaves_box [OF createExecutiveTerm_inert])+, simp_all add: ballot_box_def)

text \<open>C23: A completed election is final: whatever is requested afterwards, its row stays, and its results have the same
  voters, positions, candidates, votes and percentages.\<close>

theorem completed_election_is_final:
  assumes "governance_sound d" and "getElectionResults i d = Inr r" and "el_status (rs_election r) = ElCompleted"
  shows "\<exists>r'. getElectionResults i (fold perform_governance qs d) = Inr r' \<and> rs_election r' = rs_election r \<and> tally r' = tally r"
proof -
  have c: "completed d i" using results_from_box(1) [OF assms(1,2)] assms(3) by (simp add: completed_def)
  have "governance_sound (fold perform_governance qs d) \<and> ballot_box i (fold perform_governance qs d) = ballot_box i d"
    using assms(1) c
  proof (induction qs arbitrary: d)
    case (Cons q qs)
    have b: "ballot_box i (perform_governance q d) = ballot_box i d" by (rule request_leaves_box [OF Cons.prems])
    then have "completed (perform_governance q d) i" using Cons.prems(2) by (simp add: ballot_box_def completed_def)
    from Cons.IH [OF request_keeps [OF Cons.prems(1)] this] b show ?case by simp
  qed simp
  then have D: "governance_sound (fold perform_governance qs d)" and b: "ballot_box i (fold perform_governance qs d) = ballot_box i d"
    by simp_all
  have g: "get_election (fold perform_governance qs d) i = Some (rs_election r)"
    using b results_from_box(1) [OF assms(1,2)] by (simp add: ballot_box_def)
  then obtain r' where r': "getElectionResults i (fold perform_governance qs d) = Inr r'" by (simp add: getElectionResults_def)
  from results_from_box [OF D r'] g b results_from_box(2) [OF assms(1,2)] r' show ?thesis by simp
qed


section \<open>Two ballots at once\<close>

lemma add_votes_simps [simp]:
  "gv_candidates (add_votes u i xs d) = gv_candidates d" "gv_positions (add_votes u i xs d) = gv_positions d"
  "gv_elections (add_votes u i xs d) = gv_elections d" "gv_access (add_votes u i xs d) = gv_access d" "places (add_votes u i xs d) = places d"
  "keys_sound d \<Longrightarrow> keys_sound (add_votes u i xs d)" "slate_holds (add_votes u i xs d) j s = slate_holds d j s"
  by (induction xs arbitrary: d) (simp_all add: add_votes_def)

lemma votes_for_position_add_votes:
  assumes "keys_sound d" and "\<forall>x\<in>set xs. (snd x, fst x) \<in> places d"
  shows "votes_for_position (add_votes u i xs d) i u p = [] \<longleftrightarrow> votes_for_position d i u p = [] \<and> p \<notin> fst ` set xs"
  using assms
proof (induction xs arbitrary: d)
  case Nil
  then show ?case by (simp add: add_votes_def)
next
  case (Cons x xs)
  let ?d = "add_vote u i (snd x) d"
  have "votes_for_position (add_votes u i xs ?d) i u p = [] \<longleftrightarrow> votes_for_position ?d i u p = [] \<and> p \<notin> fst ` set xs"
    using Cons.prems by (intro Cons.IH) simp_all
  moreover have "votes_for_position ?d i u p = [] \<longleftrightarrow> votes_for_position d i u p = [] \<and> p \<noteq> fst x"
    using Cons.prems by (intro votes_for_position_add_vote) simp_all
  moreover have "add_votes u i (x # xs) d = add_votes u i xs ?d" by (simp add: add_votes_def)
  ultimately show ?case by auto
qed

lemma count_add_votes:
  "length (filter (\<lambda>v. vo_election v = i \<and> vo_voter v = u) (gv_votes (add_votes u i xs d))) =
    length (filter (\<lambda>v. vo_election v = i \<and> vo_voter v = u) (gv_votes d)) + length xs"
  by (induction xs arbitrary: d) (simp_all add: add_votes_def add_vote_def)

text \<open>A transaction whose candidates no other open transaction holds runs through its statements as it would alone.\<close>

lemma statements_run:
  assumes "record_votes (br_voter r) (br_election r) (br_slate r) (br_entries r) (sees r d) = Inr e" and "br_stage r = Searching"
    and "\<forall>x\<in>set (br_entries r). (br_election r, br_voter r, snd x) \<notin> vote_key ` set (open_rows (as @ bs))"
  shows "\<exists>r' n. governance_reachable (d, as @ r # bs) (d\<lparr>gv_seq := n\<rparr>, as @ r' # bs) \<and> gv_seq d \<le> n \<and> br_entries r' = [] \<and>
    sees r' (d\<lparr>gv_seq := n\<rparr>) = e \<and> (\<forall>v\<in>set (br_rows r'). v \<in> set (br_rows r) \<or> vo_candidate v \<in> snd ` set (br_entries r))"
  using assms
proof (induction "br_entries r" arbitrary: r d)
  case Nil
  then have "sees r (d\<lparr>gv_seq := gv_seq d\<rparr>) = e" by simp
  with Nil(1) show ?case by (intro exI [of _ r] exI [of _ "gv_seq d"]) simp
next
  case (Cons x xs)
  let ?u = "br_voter r" and ?i = "br_election r" and ?s = "br_slate r"
  note E = Cons.hyps(2) [symmetric]
  from Cons.prems(1) obtain e1 where e1: "record_vote ?u ?i ?s x (sees r d) = Inr e1" and es: "record_votes ?u ?i ?s xs e1 = Inr e"
    by (auto simp: E result_simps)
  from e1 obtain p where p: "search_vote ?u ?i ?s x (sees r d) = Inr p" "count_votes ?u ?i p x (sees r d) = Inr ()"
    "insert_vote ?u ?i (snd x) (sees r d) = Inr e1" by (auto simp: record_vote_def result_simps)
  let ?r1 = "r\<lparr>br_stage := Counting p\<rparr>"
  let ?r2 = "?r1\<lparr>br_stage := Inserting\<rparr>"
  let ?v = "new_vote ?u ?i (snd x) d"
  let ?r3 = "?r2\<lparr>br_entries := xs, br_stage := Searching, br_rows := br_rows r @ [?v]\<rparr>"
  let ?d = "d\<lparr>gv_seq := Suc (gv_seq d)\<rparr>"
  have k: "gv_seq e1 = Suc (gv_seq d)" using p(3) by (simp add: insert_vote_Inr sees_def)
  have n: "\<not> list_ex (holds_key (?i, ?u, snd x)) (as @ bs)" using Cons.prems(3) by (simp add: E holds_key_open del: list_ex_append)
  have "governance_step (d, as @ r # bs) (d, as @ ?r1 # bs)" by (rule Searched [OF Cons.prems(2) E p(1)])
  moreover have "governance_step (d, as @ ?r1 # bs) (d, as @ ?r2 # bs)"
    by (rule Counted [of ?r1 p x xs]) (simp_all add: E p(2) sees_def [of ?r1] sees_def [of r, symmetric])
  moreover have "governance_step (d, as @ ?r2 # bs) (?d, as @ ?r3 # bs)"
    using Inserted [of ?r2 x xs as bs d e1] n p(3) by (simp add: E sees_def k)
  ultimately have first: "governance_reachable (d, as @ r # bs) (?d, as @ ?r3 # bs)"
    by (meson converse_rtranclp_into_rtranclp rtranclp.rtrancl_refl)
  have s: "sees ?r3 ?d = e1" using p(3) by (simp add: insert_vote_Inr sees_def add_vote_def new_vote_def row_id_def)
  have "\<exists>r' n. governance_reachable (?d, as @ ?r3 # bs) (?d\<lparr>gv_seq := n\<rparr>, as @ r' # bs) \<and> gv_seq ?d \<le> n \<and> br_entries r' = [] \<and>
      sees r' (?d\<lparr>gv_seq := n\<rparr>) = e \<and> (\<forall>v\<in>set (br_rows r'). v \<in> set (br_rows ?r3) \<or> vo_candidate v \<in> snd ` set (br_entries ?r3))"
  proof (rule Cons.hyps(1))
    show "record_votes (br_voter ?r3) (br_election ?r3) (br_slate ?r3) (br_entries ?r3) (sees ?r3 ?d) = Inr e" unfolding s using es by simp
    show "\<forall>x\<in>set (br_entries ?r3). (br_election ?r3, br_voter ?r3, snd x) \<notin> vote_key ` set (open_rows (as @ bs))"
      using Cons.prems(3) by (simp add: E)
  qed simp_all
  then obtain r' n where r': "governance_reachable (?d, as @ ?r3 # bs) (?d\<lparr>gv_seq := n\<rparr>, as @ r' # bs)" "br_entries r' = []"
    "gv_seq ?d \<le> n" "sees r' (?d\<lparr>gv_seq := n\<rparr>) = e" "\<forall>v\<in>set (br_rows r'). v \<in> set (br_rows ?r3) \<or> vo_candidate v \<in> snd ` set (br_entries ?r3)" by blast
  have "\<forall>v\<in>set (br_rows r'). v \<in> set (br_rows r) \<or> vo_candidate v \<in> snd ` set (br_entries r)"
    using r'(5) by (auto simp: E new_vote_def)
  moreover have "?d\<lparr>gv_seq := n\<rparr> = d\<lparr>gv_seq := n\<rparr>" by simp
  moreover have "gv_seq d \<le> n" using r'(3) by simp
  ultimately show ?case using rtranclp_trans [OF first r'(1)] r'(2,4) by (intro exI [of _ r'] exI [of _ n]) simp
qed

text \<open>The ballot of a request that runs alone is among what overlapping requests can do.\<close>

lemma ballot_alone:
  assumes "castVote u x now d = Inr (n, d')"
  shows "governance_reachable (d, []) (d', [])"
proof -
  from assms obtain s where s: "check_ballot u x now d = Inr s" "record_votes u (bl_election x) s (bl_votes x) d = Inr d'"
    by (auto simp: castVote_def store_ballot_def result_simps)
  let ?r = "begin_ballot u x s"
  have "governance_step (d, []) (d, [?r])" using Checked [OF s(1), of "[]"] by simp
  moreover obtain r n where "governance_reachable (d, [?r]) (d\<lparr>gv_seq := n\<rparr>, [r])" "br_entries r = []" "sees r (d\<lparr>gv_seq := n\<rparr>) = d'"
    using statements_run [of ?r d d' "[]" "[]"] s(2) by (auto simp: begin_ballot_def sees_def)
  moreover from this(2,3) have "governance_step (d\<lparr>gv_seq := n\<rparr>, [r]) (d', [])" using Committed [of r "d\<lparr>gv_seq := n\<rparr>" "[]" "[]"] by simp
  ultimately show ?thesis by (meson converse_rtranclp_into_rtranclp rtranclp.rtrancl_into_rtrancl)
qed

lemma accepted_ballot_runs:
  assumes "governance_sound d" and "ballot_acceptable d u x now" and "gv_seq d \<le> m"
  shows "record_votes u (bl_election x) (slate_of d (bl_election x)) (bl_votes x) (d\<lparr>gv_seq := m\<rparr>) =
    Inr (add_votes u (bl_election x) (bl_votes x) (d\<lparr>gv_seq := m\<rparr>))"
proof -
  let ?d = "d\<lparr>gv_seq := m\<rparr>"
  let ?i = "bl_election x"
  note K = governance_soundD(1) [OF assms(1)]
  have "keys_sound ?d" using rows_soundD(1) [OF rows_sound_seq [OF governance_soundD(6) [OF assms(1)] assms(3)]] .
  moreover have "slate_holds ?d ?i (slate_of d ?i)" using slate_of_holds [of d ?i] by (simp add: slate_holds_def places_def)
  moreover have "votes_for_position ?d ?i u p = []" for p using assms(2) by (auto simp: ballot_acceptable_def votes_for_position_def filter_empty_conv)
  moreover have "\<forall>y\<in>set (bl_votes x). names_candidate (slate_of d ?i) y"
    using assms(2) by (simp add: ballot_acceptable_def names_candidate_slate_of [OF K])
  moreover have "distinct (map fst (bl_votes x))" "bl_votes x \<noteq> [] \<longrightarrow> u \<in> set (xs_users (gv_access ?d))"
    using assms(2) by (cases "bl_votes x"; simp add: ballot_acceptable_def)+
  ultimately show ?thesis by (simp add: record_votes_Inr)
qed

text \<open>The votes of two ballots without a common vote have different keys.\<close>

lemma other_candidates:
  assumes "ballot_acceptable d u x now" and "ballot_acceptable d u y t" and "set (bl_votes x) \<inter> set (bl_votes y) = {}"
  shows "snd ` set (bl_votes x) \<inter> snd ` set (bl_votes y) = {}"
proof -
  have "a = b" if "a \<in> set (bl_votes x)" "b \<in> set (bl_votes y)" "snd a = snd b" for a b
  proof -
    have "ballot_entry_valid d (bl_election x) a" "ballot_entry_valid d (bl_election y) b" using assms(1,2) that by (auto simp: ballot_acceptable_def)
    with that(3) have "fst a = fst b" by (auto simp: ballot_entry_valid_def)
    with that(3) show ?thesis by (rule prod_eqI [rotated])
  qed
  with assms(3) show ?thesis by blast
qed

text \<open>Both transactions run before the first is committed; the election is ended before the second is.\<close>

lemma ballots_overlap:
  assumes "governance_sound d" and "ballot_acceptable d u x now" and "ballot_acceptable d u y t" and "bl_election y = bl_election x"
    and "set (bl_votes x) \<inter> set (bl_votes y) = {}"
  shows "\<exists>rs ss d1 d2. governance_reachable (d, []) (d1, [ss]) \<and> br_entries ss = [] \<and> gv_votes d1 = gv_votes d @ rs \<and>
    gv_votes d @ rs = gv_votes (add_votes u (bl_election x) (bl_votes x) d) \<and>
    gv_votes d @ br_rows ss = gv_votes (add_votes u (bl_election x) (bl_votes y) d2) \<and> gv_votes d2 = gv_votes d \<and>
    gv_elections d1 = gv_elections d \<and> gv_access d1 = gv_access d"
proof -
  let ?i = "bl_election x" and ?s = "slate_of d (bl_election x)"
  let ?x = "begin_ballot u x ?s" and ?y = "begin_ballot u y ?s"
  have c: "check_ballot u x now d = Inr ?s" "check_ballot u y t d = Inr ?s"
    using assms(2,3) unfolding check_ballot_Inr ballot_acceptable_def assms(4) by blast+
  have st: "governance_reachable (d, []) (d, [?x, ?y])"
    using Checked [OF c(1), of "[]"] Checked [OF c(2), of "[?x]"] by (simp add: converse_rtranclp_into_rtranclp)
  have b: "sees ?x d' = d'" "sees ?y d' = d'" for d' by (simp_all add: begin_ballot_def sees_def)
  have "record_votes u ?i ?s (bl_votes x) (sees ?x d) = Inr (add_votes u ?i (bl_votes x) d)"
    using accepted_ballot_runs [OF assms(1,2) order.refl] by (simp add: b)
  then obtain r m where r: "governance_reachable (d, [?x, ?y]) (d\<lparr>gv_seq := m\<rparr>, [r, ?y])" "br_entries r = []" "gv_seq d \<le> m"
    "sees r (d\<lparr>gv_seq := m\<rparr>) = add_votes u ?i (bl_votes x) d" "\<forall>v\<in>set (br_rows r). vo_candidate v \<in> snd ` set (bl_votes x)"
    using statements_run [of ?x d _ "[]" "[?y]"] by (auto simp: begin_ballot_def)
  let ?d = "d\<lparr>gv_seq := m\<rparr>"
  have "(?i, u, snd z) \<notin> vote_key ` set (open_rows ([r] @ []))" if z: "z \<in> set (bl_votes y)" for z
  proof
    assume "(?i, u, snd z) \<in> vote_key ` set (open_rows ([r] @ []))"
    then have "snd z \<in> vo_candidate ` set (br_rows r)" by (auto simp: vote_key_def)
    with r(5) have "snd z \<in> snd ` set (bl_votes x)" by (metis imageE)
    with other_candidates [OF assms(2,3,5)] z show False by (meson disjoint_iff imageI)
  qed
  moreover have "record_votes u ?i ?s (bl_votes y) (sees ?y ?d) = Inr (add_votes u ?i (bl_votes y) ?d)"
    using accepted_ballot_runs [OF assms(1,3) r(3)] by (simp add: b assms(4))
  ultimately obtain q n where q: "governance_reachable (?d, [r, ?y]) (?d\<lparr>gv_seq := n\<rparr>, [r, q])" "br_entries q = []"
    "sees q (?d\<lparr>gv_seq := n\<rparr>) = add_votes u ?i (bl_votes y) ?d"
    using statements_run [of ?y ?d _ "[r]" "[]"] assms(4) by (auto simp: begin_ballot_def)
  let ?e = "d\<lparr>gv_seq := n\<rparr>"
  have "governance_step (?e, [r, q]) (sees r ?e, [q])" using Committed [OF r(2), of ?e "[]" "[q]"] by simp
  with st r(1) q(1) have "governance_reachable (d, []) (sees r ?e, [q])"
    by (simp add: rtranclp_trans [OF st rtranclp_trans [OF r(1)]] rtranclp.rtrancl_into_rtrancl)
  moreover have "gv_votes d @ br_rows r = gv_votes (add_votes u ?i (bl_votes x) d)" using arg_cong [OF r(4), of gv_votes] by (simp add: sees_def)
  moreover have "gv_votes d @ br_rows q = gv_votes (add_votes u ?i (bl_votes y) ?d)" using arg_cong [OF q(3), of gv_votes] by (simp add: sees_def)
  ultimately show ?thesis using q(2)
    by (intro exI [of _ "br_rows r"] exI [of _ q] exI [of _ "sees r ?e"] exI [of _ ?d]) (simp add: sees_def)
qed

text \<open>C40: Requests that overlap break the rule: two ballots of one voter without a common vote, for different positions or
  for different candidates of one position, can both be counted, when each transaction makes its searches
  before the other is committed, the second even after the election has been ended and its results were
  final.\<close>

theorem overlapping_ballots_both_count:
  assumes "governance_sound d" and "castVote u x now d = Inr (n, d1)" and "castVote u y t d = Inr (m, d2)" and "bl_election y = bl_election x"
    and "set (bl_votes x) \<inter> set (bl_votes y) = {}" and "endElection (bl_election x) w end d = Inr (z, d3)"
  shows "\<exists>d'. governance_reachable (d, []) (d', []) \<and> completed d' (bl_election x) \<and>
    length (filter (\<lambda>v. vo_election v = bl_election x \<and> vo_voter v = u) (gv_votes d')) = n + m"
proof -
  let ?i = "bl_election x"
  let ?P = "\<lambda>v. vo_election v = ?i \<and> vo_voter v = u"
  let ?f = "\<lambda>e. e\<lparr>el_status := ElCompleted, el_end := end\<rparr>"
  from assms(2,3) have a: "ballot_acceptable d u x now" "ballot_acceptable d u y t" and n: "n = length (bl_votes x)" "m = length (bl_votes y)"
    by (simp_all add: castVote_Inr [OF assms(1)])
  from ballots_overlap [OF assms(1) a assms(4,5)] obtain rs ss e1 e2 where s: "governance_reachable (d, []) (e1, [ss])" "br_entries ss = []"
    "gv_votes e1 = gv_votes d @ rs" "gv_votes d @ rs = gv_votes (add_votes u ?i (bl_votes x) d)"
    "gv_votes d @ br_rows ss = gv_votes (add_votes u ?i (bl_votes y) e2)" "gv_votes e2 = gv_votes d"
    "gv_elections e1 = gv_elections d" "gv_access e1 = gv_access d" by blast
  let ?e = "write_election ?i ?f e1"
  have "endElection ?i w end e1 = Inr (z, ?e)" using assms(6) s(7,8) by (auto simp: endElection_def may_govern_def result_simps)
  then have "governance_step (e1, [ss]) (?e, [ss])" using Request [of "EndElection ?i w end" e1] by (simp add: transaction_def)
  moreover have "governance_step (?e, [ss]) (sees ss ?e, [])" using Committed [OF s(2), of ?e "[]" "[]"] by simp
  ultimately have "governance_reachable (d, []) (sees ss ?e, [])" using s(1) by (meson rtranclp.rtrancl_into_rtrancl)
  moreover have "completed (sees ss ?e) ?i"
  proof -
    from a(1) obtain e where "get_election d ?i = Some e" by (auto simp: ballot_acceptable_def)
    then show ?thesis by (simp add: completed_def sees_def write_election_def lookup_by_update_by s(7))
  qed
  moreover have "length (filter ?P (gv_votes (sees ss ?e))) = n + m"
  proof -
    have d: "filter ?P (gv_votes d) = []" using a(1) by (simp add: ballot_acceptable_def filter_empty_conv)
    have "length (filter ?P rs) = n"
      using count_add_votes [of ?i u "bl_votes x" d, folded s(4)] by (simp add: d n)
    moreover have "length (filter ?P (br_rows ss)) = m"
      using count_add_votes [of ?i u "bl_votes y" e2, folded s(5)] by (simp add: d n s(6))
    ultimately show ?thesis by (simp add: sees_def write_election_def s(3) d)
  qed
  ultimately show ?thesis by blast
qed

section \<open>Witnesses\<close>

text \<open>
  An active election with the positions \<open>q\<close>, which has two candidates, and \<open>r\<close>; \<open>u\<close> and \<open>v\<close> are members of
  the organization and the candidates, \<open>p\<close> is the platform administrator of \<open>sample_access\<close>.
\<close>

definition sample_member :: "ident \<Rightarrow> ident \<Rightarrow> member_row" where
  "sample_member i u = \<lparr>mr_id = i, mr_user = u, mr_organization = ''g'', mr_type = StudentType, mr_status = MsActive, mr_session = None\<rparr>"

definition sample_election :: election_row where
  "sample_election = \<lparr>el_id = ''e'', el_organization = ''g'', el_title = ''t'', el_description = None, el_start = 0, el_end = 10, el_status = ElActive\<rparr>"

definition sample_position :: "ident \<Rightarrow> int \<Rightarrow> position_row" where
  "sample_position i n = \<lparr>po_id = i, po_election = ''e'', po_title = i, po_description = None, po_max_candidates = 3, po_max_votes = n, po_order = 0\<rparr>"

definition sample_candidate :: "ident \<Rightarrow> ident \<Rightarrow> ident \<Rightarrow> candidate_row" where
  "sample_candidate i q u = \<lparr>ca_id = i, ca_election = ''e'', ca_position = q, ca_user = u, ca_manifesto = None, ca_photo = None, ca_status = CaNominated\<rparr>"

definition sample_governance :: governance_db where
  "sample_governance = \<lparr>gv_ids = sample_ids, gv_seq = 0, gv_access = sample_access\<lparr>xs_members := [sample_member ''m'' ''u'', sample_member ''n'' ''v'']\<rparr>,
     gv_elections = [sample_election], gv_positions = [sample_position ''q'' 2, sample_position ''r'' 1],
     gv_candidates = [sample_candidate ''c'' ''q'' ''u'', sample_candidate ''l'' ''q'' ''v'', sample_candidate ''k'' ''r'' ''v''], gv_votes = [], gv_committees = [], gv_terms = [],
     gv_executives = [], gv_cache = (\<lambda>_. None)\<rparr>"

lemmas sample_governance_defs = sample_governance_def sample_election_def sample_position_def sample_candidate_def sample_member_def

lemma sample_governance_sound: "governance_sound sample_governance"
proof -
  have "unused_rows sample_governance ks" if "list_all (\<lambda>k. List.length k < 3) ks" for ks
    using that sample_ids_inj by (fastforce simp: unused_rows_def sample_governance_def list_all_iff)
  from this [of "[''e'']"] this [of "[''q'', ''r'']"] this [of "[''c'', ''l'', ''k'']"] have "keys_sound sample_governance"
    by (simp add: keys_sound_def) (simp add: sample_governance_defs)
  then show ?thesis
    by (simp add: governance_sound_def rows_sound_def) (simp add: links_sound_def nominations_sound_def votes_sound_def cache_sound_def sample_governance_defs)
qed

lemma sample_acceptable:
  "ballot_acceptable sample_governance ''u'' \<lparr>bl_election = ''e'', bl_votes = [(''q'', ''c'')]\<rparr> 1"
  "ballot_acceptable sample_governance ''u'' \<lparr>bl_election = ''e'', bl_votes = [(''q'', ''l'')]\<rparr> 2"
  by (simp_all add: ballot_acceptable_def ballot_entry_valid_def sample_governance_defs sample_access_defs lookup_by_def active_member_def)

lemma sample_ballots:
  "castVote ''u'' \<lparr>bl_election = ''e'', bl_votes = [(''q'', ''c'')]\<rparr> 1 sample_governance = Inr (1, add_votes ''u'' ''e'' [(''q'', ''c'')] sample_governance)"
  "castVote ''u'' \<lparr>bl_election = ''e'', bl_votes = [(''q'', ''l'')]\<rparr> 2 sample_governance = Inr (1, add_votes ''u'' ''e'' [(''q'', ''l'')] sample_governance)"
  using sample_acceptable by (simp_all add: castVote_Inr [OF sample_governance_sound])

theorem castVote_accepts_exactly_witness:
  "\<exists>e. transaction (castVote ''u'' \<lparr>bl_election = ''e'', bl_votes = [(''q'', ''c'')]\<rparr> 11) sample_governance = (sample_governance, Inl e)"
proof -
  have "\<not> ballot_acceptable sample_governance ''u'' \<lparr>bl_election = ''e'', bl_votes = [(''q'', ''c'')]\<rparr> 11"
    by (simp add: ballot_acceptable_def sample_governance_defs lookup_by_def)
  with castVote_accepts_exactly [OF sample_governance_sound, of "''u''" "\<lparr>bl_election = ''e'', bl_votes = [(''q'', ''c'')]\<rparr>" 11] show ?thesis by simp
qed

theorem one_ballot_per_election_witness:
  "\<exists>e. snd (transaction (castVote ''u'' \<lparr>bl_election = ''e'', bl_votes = [(''r'', ''k'')]\<rparr> 2) (add_votes ''u'' ''e'' [(''q'', ''c'')] sample_governance)) = Inl e"
  using one_ballot_per_election [OF sample_ballots(1), of "\<lparr>bl_election = ''e'', bl_votes = [(''r'', ''k'')]\<rparr>" 2 "[]"] by auto

lemma sample_end: "endElection ''e'' ''p'' 5 sample_governance =
    Inr ((), write_election ''e'' (\<lambda>e. e\<lparr>el_status := ElCompleted, el_end := 5\<rparr>) sample_governance)"
proof -
  have "manages_roles (gv_access sample_governance) ''p'' ''g''" "get_election sample_governance ''e'' = Some sample_election" by code_simp+
  then show ?thesis by (simp add: endElection_def may_govern_def) (simp add: sample_election_def)
qed

theorem elections_keep_sound_witness:
  "governance_sound (fold perform_governance [CastVote ''u'' \<lparr>bl_election = ''e'', bl_votes = [(''q'', ''c'')]\<rparr> 1, EndElection ''e'' ''p'' 5] sample_governance) \<and>
   overlap_sound (add_votes ''u'' ''e'' [(''q'', ''c'')] sample_governance)"
  using elections_keep_sound [OF sample_governance_sound] ballot_alone [OF sample_ballots(1)] by blast

theorem overlapping_ballots_both_count_witness:
  "\<exists>d'. governance_reachable (sample_governance, []) (d', []) \<and> completed d' ''e'' \<and>
    length (filter (\<lambda>v. vo_election v = ''e'' \<and> vo_voter v = ''u'') (gv_votes d')) = 2"
  using overlapping_ballots_both_count [OF sample_governance_sound sample_ballots, of "''p''" 5] sample_end
  by (simp add: numeral_2_eq_2)

lemma sample_results: "\<exists>r. getElectionResults ''e'' (add_votes ''u'' ''e'' [(''q'', ''c'')] sample_governance) = Inr r"
  by (simp add: getElectionResults_def sample_governance_defs lookup_by_def)

theorem results_add_up_witness:
  "\<exists>r. getElectionResults ''e'' (add_votes ''u'' ''e'' [(''q'', ''c'')] sample_governance) = Inr r \<and> sum_list (map pr_total (rs_positions r)) = 1 \<and> rs_voters r = 1"
proof -
  let ?d = "add_votes ''u'' ''e'' [(''q'', ''c'')] sample_governance"
  obtain r where r: "getElectionResults ''e'' ?d = Inr r" using sample_results by blast
  have v: "gv_votes ?d = [\<lparr>vo_id = sample_ids 0, vo_election = ''e'', vo_candidate = ''c'', vo_voter = ''u''\<rparr>]"
    by (simp add: add_votes_def add_vote_def row_id_def sample_governance_def)
  then have "{w \<in> set (gv_votes ?d). vo_election w = ''e''} = set (gv_votes ?d)" by auto
  with results_add_up [OF castVote_keeps [OF sample_governance_sound sample_ballots(1)] r] v r show ?thesis by simp
qed

theorem completed_election_is_final_witness:
  "\<exists>r r'. el_status (rs_election r) = ElCompleted \<and> tally r' = tally r \<and>
    getElectionResults ''e'' (perform_governance (CastVote ''u'' \<lparr>bl_election = ''e'', bl_votes = [(''q'', ''c'')]\<rparr> 1)
      (perform_governance (EndElection ''e'' ''p'' 5) sample_governance)) = Inr r'"
proof -
  let ?d = "perform_governance (EndElection ''e'' ''p'' 5) sample_governance"
  let ?q = "CastVote ''u'' \<lparr>bl_election = ''e'', bl_votes = [(''q'', ''c'')]\<rparr> 1"
  have "?d = write_election ''e'' (\<lambda>e. e\<lparr>el_status := ElCompleted, el_end := 5\<rparr>) sample_governance" by (simp add: transaction_def sample_end)
  then have "get_election ?d ''e'' = Some (sample_election\<lparr>el_status := ElCompleted, el_end := 5\<rparr>)"
    by (simp add: write_election_def lookup_by_update_by) (simp add: sample_governance_defs lookup_by_def)
  then obtain r where r: "getElectionResults ''e'' ?d = Inr r" "el_status (rs_election r) = ElCompleted" by (simp add: getElectionResults_def)
  from completed_election_is_final [OF request_keeps [OF sample_governance_sound] r, of "[?q]"] obtain r' where
    "getElectionResults ''e'' (fold perform_governance [?q] ?d) = Inr r'" "tally r' = tally r" by blast
  then have "getElectionResults ''e'' (perform_governance ?q ?d) = Inr r'" "tally r' = tally r" by (simp_all only: fold.simps comp_apply id_apply)
  with r(2) show ?thesis by blast
qed

end
