(* ===== verification/Promotions.thy ===== *)
theory Promotions
  imports Access Json
begin

text \<open>
  The operations of \<open>src/v1/students/promotion.service.ts\<close>: the promotion of a whole institution into its
  next academic session, and the promotion of single students.
\<close>

section \<open>Names and dates of sessions\<close>

text \<open>\<open>\d{4}\<close> at the start, with what follows.\<close>

definition four_digits :: "string \<Rightarrow> (int \<times> string) option" where
  "four_digits s = (if length s < 4 \<or> \<not> list_all is_digit (take 4 s) then None else Some (read_digits (take 4 s), drop 4 s))"

definition read_years :: "string \<Rightarrow> (int \<times> int) option" where
  "read_years s =
     (case four_digits s of None \<Rightarrow> None
      | Some (a, r) \<Rightarrow> (case dropWhile is_space r of [] \<Rightarrow> None
          | c # r' \<Rightarrow> if c \<noteq> CHR ''/'' then None
              else case four_digits (dropWhile is_space r') of None \<Rightarrow> None
                | Some (b, q) \<Rightarrow> if q = [] then Some (a, b) else None))"

definition session_name :: "int \<Rightarrow> string" where
  "session_name y = show_nat (nat y) @ ''/'' @ show_nat (nat (y + 1))"

definition getNextSessionName :: "string \<Rightarrow> string result" where
  "getNextSessionName n =
     (case read_years (trimmed n) of
        None \<Rightarrow> Inl (BadRequest (STR ''Current session name must use the YYYY/YYYY format''))
      | Some (a, b) \<Rightarrow> if b \<noteq> a + 1 then Inl (BadRequest (STR ''Current session years must be consecutive'')) else Inr (session_name (a + 1)))"

text \<open>Days since 1970 as year, month and day of the Gregorian calendar, and back; a year begins in March.\<close>

definition civil_of_days :: "int \<Rightarrow> int \<times> int \<times> int" where
  "civil_of_days n =
     (let z = n + 719468;
          e = z mod 146097;
          y = (e - e div 1460 + e div 36524 - e div 146096) div 365;
          t = e - (365 * y + y div 4 - y div 100);
          k = (5 * t + 2) div 153;
          m = (if k < 10 then k + 3 else k - 9)
      in (y + 400 * (z div 146097) + (if m \<le> 2 then 1 else 0), m, t - (153 * k + 2) div 5 + 1))"

definition days_of_civil :: "int \<Rightarrow> int \<Rightarrow> int \<Rightarrow> int" where
  "days_of_civil y m d =
     (let y' = (if m \<le> 2 then y - 1 else y);
          c = y' mod 400;
          t = (153 * (if 2 < m then m - 3 else m + 9) + 2) div 5 + d - 1
      in 146097 * (y' div 400) + 365 * c + c div 4 - c div 100 + t - 719468)"

text \<open>\<open>setUTCFullYear\<close> keeps month, day and time; the 29th of February becomes the 1st of March where it does not exist.\<close>

definition addYears :: "int \<Rightarrow> int \<Rightarrow> int" where
  "addYears t n = (case civil_of_days (t div 86400000) of (y, m, d) \<Rightarrow> days_of_civil (y + n) m d * 86400000 + t mod 86400000)"

text \<open>\<open>s.replace(pat, rep)\<close> for texts: the first occurrence. No replacement here contains a dollar sign.\<close>

fun replace_first :: "string \<Rightarrow> string \<Rightarrow> string \<Rightarrow> string" where
  "replace_first pat rep [] = (if pat = [] then rep else [])"
| "replace_first pat rep (c # cs) =
     (if take (length pat) (c # cs) = pat then rep @ drop (length pat) (c # cs) else c # replace_first pat rep cs)"

section \<open>Tables\<close>

datatype session_status = AyUpcoming | AyActive | AyCompleted | AyArchived

datatype session_scope = AyInstitution | AyFaculty | AyDepartment | AyLevel

datatype academic_status = SpActive | SpGraduated | SpWithdrawn | SpProbation | SpSuspended

datatype group_type = GpInstitution | GpFaculty | GpDepartment | GpLevel | GpAssociation | GpClub | GpReligious | GpSports | GpSpecial

datatype group_scope = GsInstitution | GsFaculty | GsDepartment | GsLevel | GsCrossDepartment | GsCrossLevel | GsCustom

datatype group_status = GtDraft | GtPendingActivation | GtActive | GtInactive | GtSuspended | GtArchived

record level_row =
  lv_id :: ident
  lv_department :: ident
  lv_name :: string
  lv_order :: int
  lv_active :: bool

record year_row =
  ay_id :: ident
  ay_institution :: ident
  ay_name :: string
  ay_start :: int
  ay_end :: int
  ay_status :: session_status
  ay_scope :: session_scope
  ay_current :: bool

record pupil_row =
  sp_id :: ident
  sp_user :: ident
  sp_institution :: ident
  sp_department :: ident
  sp_level :: "ident option"
  sp_direct_entry :: bool
  sp_status :: academic_status

record promotion_row =
  pn_id :: ident
  pn_student :: ident
  pn_from :: ident
  pn_to :: ident
  pn_session :: ident
  pn_by :: ident
  pn_date :: int
  pn_notes :: "string option"

record record_row =
  rw_id :: ident
  rw_student :: ident
  rw_session :: ident
  rw_department :: ident
  rw_level :: ident
  rw_status :: academic_status

text \<open>Organizations and memberships with the columns that a promotion copies.\<close>

record group_row =
  gp_id :: ident
  gp_institution :: "ident option"
  gp_faculty :: "ident option"
  gp_department :: "ident option"
  gp_level :: "ident option"
  gp_parent :: "ident option"
  gp_name :: string
  gp_slug :: string
  gp_description :: "string option"
  gp_logo :: "string option"
  gp_type :: group_type
  gp_scope :: group_scope
  gp_status :: group_status
  gp_session :: "ident option"

record belonging_row =
  bm_id :: ident
  bm_group :: ident
  bm_user :: ident
  bm_type :: membership_type
  bm_status :: membership_status
  bm_primary :: bool
  bm_joined :: int
  bm_session :: "ident option"
  bm_left :: "int option"

record academic_db =
  am_ids :: "nat \<Rightarrow> ident"
  am_seq :: nat
  am_institutions :: "ident list"
  am_admins :: "admin_row list"
  am_levels :: "level_row list"
  am_years :: "year_row list"
  am_pupils :: "pupil_row list"
  am_promotions :: "promotion_row list"
  am_records :: "record_row list"
  am_groups :: "group_row list"
  am_belongings :: "belonging_row list"

abbreviation get_year :: "academic_db \<Rightarrow> ident \<Rightarrow> year_row option" where
  "get_year d i \<equiv> lookup_by ay_id i (am_years d)"

abbreviation get_level :: "academic_db \<Rightarrow> ident \<Rightarrow> level_row option" where
  "get_level d i \<equiv> lookup_by lv_id i (am_levels d)"

abbreviation get_pupil :: "academic_db \<Rightarrow> ident \<Rightarrow> pupil_row option" where
  "get_pupil d i \<equiv> lookup_by sp_id i (am_pupils d)"

definition new_key :: "academic_db \<Rightarrow> ident" where
  "new_key d = am_ids d (am_seq d)"

section \<open>The plan of an institution\<close>

text \<open>
  What is read before the transaction. The levels of a department come in their order; levels that share a
  position come as they were created.
\<close>

record promotion_plan =
  pl_institution :: ident
  pl_year :: year_row
  pl_name :: string
  pl_existing :: "year_row option"
  pl_pupils :: "pupil_row list"
  pl_groups :: "group_row list"
  pl_levels :: "ident \<Rightarrow> level_row list"

definition current_year :: "ident \<Rightarrow> year_row \<Rightarrow> bool" where
  "current_year i y \<longleftrightarrow> ay_institution y = i \<and> ay_scope y = AyInstitution \<and> ay_current y"

definition may_promote :: "academic_db \<Rightarrow> ident \<Rightarrow> ident \<Rightarrow> bool" where
  "may_promote d u i = list_ex (\<lambda>a. ar_user a = u \<and> ar_status a = AdminActive \<and>
     (ar_type a = PLATFORM_ADMIN \<or> ar_type a = INSTITUTION_ADMIN \<and> ar_institution a = Some i)) (am_admins d)"

definition department_levels :: "academic_db \<Rightarrow> ident \<Rightarrow> level_row list" where
  "department_levels d p = sort_key lv_order (filter (\<lambda>l. lv_department l = p \<and> lv_active l) (am_levels d))"

definition read_plan :: "ident \<Rightarrow> ident \<Rightarrow> ident \<Rightarrow> academic_db \<Rightarrow> promotion_plan result" where
  "read_plan i u yearId d =
     andThen (require (i \<in> set (am_institutions d)) (NotFound (STR ''Institution not found''))) (\<lambda>_.
     andThen (require (may_promote d u i) (Forbidden (STR ''Only a platform admin or this institution admin can run promotion''))) (\<lambda>_.
     andThen (require_some (find (\<lambda>y. ay_id y = yearId \<and> current_year i y) (am_years d))
       (BadRequest (STR ''The supplied session is not the institution current session. Refresh and try again.''))) (\<lambda>y.
     andThen (getNextSessionName (ay_name y)) (\<lambda>n.
       Inr \<lparr>pl_institution = i, pl_year = y, pl_name = n,
         pl_existing = find (\<lambda>z. ay_institution z = i \<and> ay_name z = n \<and> ay_scope z = AyInstitution) (am_years d),
         pl_pupils = filter (\<lambda>s. sp_institution s = i \<and> sp_status s = SpActive) (am_pupils d),
         pl_groups = filter (\<lambda>g. gp_institution g = Some i \<and> gp_session g = Some (ay_id y)) (am_groups d),
         pl_levels = department_levels d\<rparr>))))"

section \<open>Sessions\<close>

definition complete_year :: "year_row \<Rightarrow> year_row" where
  "complete_year y = y\<lparr>ay_current := False, ay_status := AyCompleted\<rparr>"

definition claim_year :: "promotion_plan \<Rightarrow> academic_db \<Rightarrow> academic_db result" where
  "claim_year p d =
     (let P = (\<lambda>y. ay_id y = ay_id (pl_year p) \<and> current_year (pl_institution p) y)
      in andThen (require (length (filter P (am_years d)) = 1)
           (BadRequest (STR ''This institution has already been promoted. Refresh before trying again.''))) (\<lambda>_.
         Inr (d\<lparr>am_years := update_where P complete_year (am_years d)\<rparr>)))"

definition open_year :: "promotion_plan \<Rightarrow> academic_db \<Rightarrow> (year_row \<times> academic_db) result" where
  "open_year p d =
     (case pl_existing p of
        Some e \<Rightarrow>
          andThen (require_some (get_year d (ay_id e)) (Internal (STR ''P2025''))) (\<lambda>y.
            let z = y\<lparr>ay_current := True, ay_status := AyActive\<rparr>
            in Inr (z, d\<lparr>am_years := update_by ay_id (ay_id e) (\<lambda>y. y\<lparr>ay_current := True, ay_status := AyActive\<rparr>) (am_years d)\<rparr>))
      | None \<Rightarrow>
          andThen (require (\<not> list_ex (\<lambda>y. ay_institution y = pl_institution p \<and> ay_name y = pl_name p) (am_years d)) (Internal (STR ''P2002''))) (\<lambda>_.
            let z = \<lparr>ay_id = new_key d, ay_institution = pl_institution p, ay_name = pl_name p, ay_start = addYears (ay_start (pl_year p)) 1,
              ay_end = addYears (ay_end (pl_year p)) 1, ay_status = AyActive, ay_scope = AyInstitution, ay_current = True\<rparr>
            in Inr (z, d\<lparr>am_years := am_years d @ [z], am_seq := Suc (am_seq d)\<rparr>)))"

definition close_years :: "ident \<Rightarrow> ident \<Rightarrow> academic_db \<Rightarrow> academic_db" where
  "close_years i k d = d\<lparr>am_years := update_where (\<lambda>y. current_year i y \<and> ay_id y \<noteq> k) complete_year (am_years d)\<rparr>"

section \<open>Organizations\<close>

definition next_slug :: "string \<Rightarrow> string \<Rightarrow> string \<Rightarrow> string" where
  "next_slug old new s = (if contains old s then replace_first old new s else s @ ''-'' @ new)"

definition dashed :: "string \<Rightarrow> string" where
  "dashed n = replace_first ''/'' ''-'' n"

definition next_group :: "promotion_plan \<Rightarrow> year_row \<Rightarrow> group_row \<Rightarrow> ident \<Rightarrow> group_row" where
  "next_group p z g k =
     g\<lparr>gp_id := k, gp_institution := Some (pl_institution p), gp_parent := None,
       gp_name := replace_first (ay_name (pl_year p)) (ay_name z) (gp_name g),
       gp_slug := next_slug (dashed (ay_name (pl_year p))) (dashed (ay_name z)) (gp_slug g),
       gp_description := map_option (replace_first (ay_name (pl_year p)) (ay_name z)) (gp_description g),
       gp_session := Some (ay_id z)\<rparr>"

text \<open>An organization with the slug in the new session is taken as it is.\<close>

definition copy_group :: "promotion_plan \<Rightarrow> year_row \<Rightarrow> group_row \<Rightarrow> academic_db \<Rightarrow> group_row \<times> academic_db" where
  "copy_group p z g d =
     (let h = next_group p z g (new_key d)
      in case find (\<lambda>x. gp_institution x = gp_institution h \<and> gp_slug x = gp_slug h \<and> gp_session x = gp_session h) (am_groups d) of
           Some x \<Rightarrow> (x, d)
         | None \<Rightarrow> (h, d\<lparr>am_groups := am_groups d @ [h], am_seq := Suc (am_seq d)\<rparr>))"

type_synonym new_groups = "(ident \<times> group_row) list"

primrec copy_groups :: "promotion_plan \<Rightarrow> year_row \<Rightarrow> group_row list \<Rightarrow> academic_db \<Rightarrow> new_groups \<times> academic_db" where
  "copy_groups p z [] d = ([], d)"
| "copy_groups p z (g # gs) d =
     (case copy_group p z g d of (h, d1) \<Rightarrow> case copy_groups p z gs d1 of (m, d2) \<Rightarrow> ((gp_id g, h) # m, d2))"

definition link_parent :: "new_groups \<Rightarrow> group_row \<Rightarrow> academic_db \<Rightarrow> academic_db" where
  "link_parent m g d =
     (case nonempty (gp_parent g) of
        None \<Rightarrow> d
      | Some q \<Rightarrow> (case (map_of m (gp_id g), map_of m q) of
            (Some h, Some r) \<Rightarrow> d\<lparr>am_groups := update_by gp_id (gp_id h) (\<lambda>x. x\<lparr>gp_parent := Some (gp_id r)\<rparr>) (am_groups d)\<rparr>
          | _ \<Rightarrow> d))"

section \<open>Students\<close>

text \<open>\<open>None\<close>: the level is none of the department; \<open>Some None\<close>: it is the last one.\<close>

definition level_after :: "level_row list \<Rightarrow> ident \<Rightarrow> level_row option option" where
  "level_after ls k =
     (case dropWhile (\<lambda>l. lv_id l \<noteq> k) ls of [] \<Rightarrow> None | _ # r \<Rightarrow> Some (case r of [] \<Rightarrow> None | l # _ \<Rightarrow> Some l))"

datatype standing = Skipped | Graduates | MovesTo ident level_row

definition standing_of :: "(ident \<Rightarrow> level_row list) \<Rightarrow> pupil_row \<Rightarrow> standing" where
  "standing_of ls s =
     (case nonempty (sp_level s) of
        None \<Rightarrow> Skipped
      | Some k \<Rightarrow> (case level_after (ls (sp_department s)) k of None \<Rightarrow> Skipped | Some None \<Rightarrow> Graduates | Some (Some l) \<Rightarrow> MovesTo k l))"

definition write_record :: "ident \<Rightarrow> ident \<Rightarrow> ident \<Rightarrow> ident \<Rightarrow> academic_db \<Rightarrow> academic_db" where
  "write_record s y p l d =
     (if list_ex (\<lambda>r. rw_student r = s \<and> rw_session r = y) (am_records d)
      then d\<lparr>am_records := update_where (\<lambda>r. rw_student r = s \<and> rw_session r = y)
        (\<lambda>r. r\<lparr>rw_department := p, rw_level := l, rw_status := SpActive\<rparr>) (am_records d)\<rparr>
      else d\<lparr>am_records := am_records d @ [\<lparr>rw_id = new_key d, rw_student = s, rw_session = y, rw_department = p, rw_level = l,
        rw_status = SpActive\<rparr>], am_seq := Suc (am_seq d)\<rparr>)"

definition in_year :: "academic_db \<Rightarrow> (group_row \<Rightarrow> bool) \<Rightarrow> ident \<Rightarrow> belonging_row \<Rightarrow> bool" where
  "in_year d P u b \<longleftrightarrow> bm_user b = u \<and> bm_status b = MsActive \<and> list_ex (\<lambda>g. gp_id g = bm_group b \<and> P g) (am_groups d)"

definition next_home :: "new_groups \<Rightarrow> academic_db \<Rightarrow> pupil_row \<Rightarrow> level_row \<Rightarrow> belonging_row \<Rightarrow> group_row option" where
  "next_home m d s l b =
     (if list_ex (\<lambda>g. gp_id g = bm_group b \<and> gp_type g = GpLevel) (am_groups d)
      then find (\<lambda>g. gp_type g = GpLevel \<and> gp_level g = Some (lv_id l) \<and> gp_department g = Some (sp_department s)) (map snd m)
      else map_of m (bm_group b))"

definition join_group :: "ident \<Rightarrow> int \<Rightarrow> belonging_row \<Rightarrow> ident \<Rightarrow> academic_db \<Rightarrow> academic_db" where
  "join_group y now b g d =
     (if list_ex (\<lambda>x. bm_group x = g \<and> bm_user x = bm_user b) (am_belongings d)
      then d\<lparr>am_belongings := update_where (\<lambda>x. bm_group x = g \<and> bm_user x = bm_user b)
        (\<lambda>x. x\<lparr>bm_status := MsActive, bm_left := None, bm_session := Some y\<rparr>) (am_belongings d)\<rparr>
      else d\<lparr>am_belongings := am_belongings d @ [\<lparr>bm_id = new_key d, bm_group = g, bm_user = bm_user b, bm_type = bm_type b,
        bm_status = MsActive, bm_primary = bm_primary b, bm_joined = now, bm_session = Some y, bm_left = None\<rparr>], am_seq := Suc (am_seq d)\<rparr>)"

definition move_belongings :: "promotion_plan \<Rightarrow> year_row \<Rightarrow> new_groups \<Rightarrow> int \<Rightarrow> pupil_row \<Rightarrow> level_row \<Rightarrow> academic_db \<Rightarrow> academic_db" where
  "move_belongings p z m now s l d =
     (let previous = filter (in_year d (\<lambda>g. gp_session g = Some (ay_id (pl_year p))) (sp_user s)) (am_belongings d);
          d1 = d\<lparr>am_belongings := update_where (in_year d (\<lambda>g. gp_institution g = Some (pl_institution p) \<and> gp_session g = Some (ay_id (pl_year p))) (sp_user s))
            (\<lambda>b. b\<lparr>bm_status := MsLeft, bm_left := Some now\<rparr>) (am_belongings d)\<rparr>
      in fold (\<lambda>b d. case next_home m d s l b of None \<Rightarrow> d | Some g \<Rightarrow> join_group (ay_id z) now b (gp_id g) d) previous d1)"

definition add_promotion :: "ident \<Rightarrow> ident \<Rightarrow> ident \<Rightarrow> ident \<Rightarrow> ident \<Rightarrow> int \<Rightarrow> string option \<Rightarrow> academic_db \<Rightarrow> academic_db" where
  "add_promotion s k l y u now notes d =
     d\<lparr>am_promotions := am_promotions d @ [\<lparr>pn_id = new_key d, pn_student = s, pn_from = k, pn_to = l, pn_session = y, pn_by = u,
       pn_date = now, pn_notes = notes\<rparr>], am_seq := Suc (am_seq d),
       am_pupils := update_by sp_id s (\<lambda>x. x\<lparr>sp_level := Some l, sp_direct_entry := False\<rparr>) (am_pupils d)\<rparr>"

text \<open>Students are never deleted, so that the rows that were read are there to be written.\<close>

definition promote_pupil :: "promotion_plan \<Rightarrow> year_row \<Rightarrow> new_groups \<Rightarrow> ident \<Rightarrow> string \<Rightarrow> int \<Rightarrow> pupil_row \<Rightarrow> academic_db \<Rightarrow> academic_db" where
  "promote_pupil p z m u notes now s d =
     (case standing_of (pl_levels p) s of
        Skipped \<Rightarrow> d
      | Graduates \<Rightarrow> d\<lparr>am_pupils := update_by sp_id (sp_id s) (\<lambda>x. x\<lparr>sp_status := SpGraduated\<rparr>) (am_pupils d)\<rparr>
      | MovesTo k l \<Rightarrow>
          move_belongings p z m now s l (write_record (sp_id s) (ay_id z) (sp_department s) (lv_id l)
            (add_promotion (sp_id s) k (lv_id l) (ay_id z) u now (Some notes) d)))"

section \<open>The promotion of an institution\<close>

record promotion_summary =
  su_year :: year_row
  su_generated :: bool
  su_eligible :: nat
  su_promoted :: nat
  su_graduated :: nat
  su_skipped :: nat

text \<open>The loop over the students counts what it does with each.\<close>

record promotion_counts =
  pc_promoted :: nat
  pc_graduated :: nat
  pc_skipped :: nat

definition count_pupil :: "standing \<Rightarrow> promotion_counts \<Rightarrow> promotion_counts" where
  "count_pupil x n =
     (case x of
        Skipped \<Rightarrow> n\<lparr>pc_skipped := pc_skipped n + 1\<rparr>
      | Graduates \<Rightarrow> n\<lparr>pc_graduated := pc_graduated n + 1\<rparr>
      | MovesTo k l \<Rightarrow> n\<lparr>pc_promoted := pc_promoted n + 1\<rparr>)"

fun promote_pupils :: "promotion_plan \<Rightarrow> year_row \<Rightarrow> new_groups \<Rightarrow> ident \<Rightarrow> string \<Rightarrow> int \<Rightarrow> pupil_row list \<Rightarrow>
    promotion_counts \<times> academic_db \<Rightarrow> promotion_counts \<times> academic_db" where
  "promote_pupils p z m u notes now [] x = x"
| "promote_pupils p z m u notes now (s # ss) (n, d) =
     promote_pupils p z m u notes now ss (count_pupil (standing_of (pl_levels p) s) n, promote_pupil p z m u notes now s d)"

definition run_plan :: "promotion_plan \<Rightarrow> ident \<Rightarrow> string option \<Rightarrow> int \<Rightarrow> academic_db \<Rightarrow> (promotion_summary \<times> academic_db) result" where
  "run_plan p u notes now d =
     andThen (claim_year p d) (\<lambda>d1.
     andThen (open_year p d1) (\<lambda>(z, d2).
       case copy_groups p z (pl_groups p) (close_years (pl_institution p) (ay_id z) d2) of
         (m, d3) \<Rightarrow>
           let d4 = fold (link_parent m) (pl_groups p) d3;
               text = (case nonempty notes of Some t \<Rightarrow> t | None \<Rightarrow> ''Institution promotion to '' @ ay_name z)
           in case promote_pupils p z m u text now (pl_pupils p) (\<lparr>pc_promoted = 0, pc_graduated = 0, pc_skipped = 0\<rparr>, d4) of
                (n, d5) \<Rightarrow>
                  Inr (\<lparr>su_year = z, su_generated = (pl_existing p = None), su_eligible = length (pl_pupils p),
                      su_promoted = pc_promoted n, su_graduated = pc_graduated n, su_skipped = pc_skipped n\<rparr>, d5)))"

definition promoteInstitution :: "ident \<Rightarrow> ident \<Rightarrow> ident \<Rightarrow> string option \<Rightarrow> int \<Rightarrow> academic_db \<Rightarrow> (promotion_summary \<times> academic_db) result" where
  "promoteInstitution i u yearId notes now d = andThen (read_plan i u yearId d) (\<lambda>p. run_plan p u notes now d)"

section \<open>Single students\<close>

record promote_dto =
  pm_from :: ident
  pm_to :: ident
  pm_session :: ident
  pm_date :: "int option"
  pm_notes :: "string option"

definition check_levels :: "ident \<Rightarrow> ident \<Rightarrow> ident \<Rightarrow> academic_db \<Rightarrow> unit result" where
  "check_levels a b y d =
     andThen (require_some (get_level d a) (NotFound (STR ''From level not found''))) (\<lambda>l.
     andThen (require_some (get_level d b) (NotFound (STR ''To level not found''))) (\<lambda>k.
     andThen (require (get_year d y \<noteq> None) (NotFound (STR ''Academic session not found''))) (\<lambda>_.
       require (lv_department l = lv_department k) (BadRequest (STR ''Levels must belong to the same department'')))))"

definition promoted_already :: "academic_db \<Rightarrow> ident \<Rightarrow> ident \<Rightarrow> ident \<Rightarrow> ident \<Rightarrow> bool" where
  "promoted_already d s a b y = list_ex (\<lambda>x. pn_student x = s \<and> pn_session x = y \<and> pn_from x = a \<and> pn_to x = b) (am_promotions d)"

definition promoteStudent :: "ident \<Rightarrow> ident \<Rightarrow> promote_dto \<Rightarrow> int \<Rightarrow> academic_db \<Rightarrow> (unit \<times> academic_db) result" where
  "promoteStudent s u x now d =
     andThen (require_some (get_pupil d s) (NotFound (STR ''Student not found''))) (\<lambda>q.
     andThen (check_levels (pm_from x) (pm_to x) (pm_session x) d) (\<lambda>_.
     andThen (require (sp_level q \<noteq> Some (pm_to x)) (BadRequest (STR ''Student is already at this level''))) (\<lambda>_.
     andThen (require (sp_level q = Some (pm_from x)) (BadRequest (STR ''Student is not currently in the specified from level''))) (\<lambda>_.
     andThen (require (\<not> promoted_already d s (pm_from x) (pm_to x) (pm_session x))
       (BadRequest (STR ''Student already has a promotion record for this session''))) (\<lambda>_.
       Inr ((), add_promotion s (pm_from x) (pm_to x) (pm_session x) u (case pm_date x of Some t \<Rightarrow> t | None \<Rightarrow> now) (pm_notes x) d))))))"

record bulk_dto =
  bk_from :: ident
  bk_to :: ident
  bk_session :: ident
  bk_department :: "ident option"
  bk_students :: "ident list option"
  bk_all :: bool
  bk_notes :: "string option"

definition bulk_students :: "bulk_dto \<Rightarrow> academic_db \<Rightarrow> ident list" where
  "bulk_students x d =
     (let given = (case bk_students x of None \<Rightarrow> [] | Some ks \<Rightarrow> ks)
      in if bk_all x \<or> given = []
         then map sp_id (filter (\<lambda>q. sp_level q = Some (bk_from x) \<and> where_column (nonempty (bk_department x)) (sp_department q)) (am_pupils d))
         else given)"

text \<open>A student that does not exist is reported; the others go on.\<close>

definition bulk_one :: "ident \<Rightarrow> bulk_dto \<Rightarrow> int \<Rightarrow> ident \<Rightarrow> academic_db \<Rightarrow> (ident \<times> academic_db) result" where
  "bulk_one u x now s d =
     andThen (require (get_pupil d s \<noteq> None) (Internal (STR ''P2003''))) (\<lambda>_.
       Inr (new_key d, add_promotion s (bk_from x) (bk_to x) (bk_session x) u now
         (Some (case nonempty (bk_notes x) of Some t \<Rightarrow> t | None \<Rightarrow> ''Bulk promotion'')) d))"

primrec bulk_each :: "ident \<Rightarrow> bulk_dto \<Rightarrow> int \<Rightarrow> ident list \<Rightarrow> academic_db \<Rightarrow> (ident \<times> ident result) list \<times> academic_db" where
  "bulk_each u x now [] d = ([], d)"
| "bulk_each u x now (s # ss) d =
     (case transaction (bulk_one u x now s) d of (d1, r) \<Rightarrow> case bulk_each u x now ss d1 of (rs, d2) \<Rightarrow> ((s, r) # rs, d2))"

definition bulkPromoteStudents :: "ident \<Rightarrow> bulk_dto \<Rightarrow> int \<Rightarrow> academic_db \<Rightarrow> ((ident \<times> ident result) list \<times> academic_db) result" where
  "bulkPromoteStudents u x now d =
     andThen (check_levels (bk_from x) (bk_to x) (bk_session x) d) (\<lambda>_.
       let ss = bulk_students x d;
           todo = filter (\<lambda>s. \<not> promoted_already d s (bk_from x) (bk_to x) (bk_session x)) ss
       in andThen (require (ss \<noteq> []) (BadRequest (STR ''No students found to promote''))) (\<lambda>_.
          andThen (require (todo \<noteq> []) (BadRequest (STR ''All selected students already have promotion records for this session''))) (\<lambda>_.
            Inr (bulk_each u x now todo d))))"

section \<open>Requests that overlap\<close>

datatype academic_request =
    RunPromotion ident ident ident "string option" int
  | PromoteOne ident ident promote_dto int
  | PromoteMany ident bulk_dto int

fun perform_academic :: "academic_request \<Rightarrow> academic_db \<Rightarrow> academic_db" where
  "perform_academic (RunPromotion i u y notes now) d = fst (transaction (promoteInstitution i u y notes now) d)"
| "perform_academic (PromoteOne s u x now) d = fst (transaction (promoteStudent s u x now) d)"
| "perform_academic (PromoteMany u x now) d = fst (transaction (bulkPromoteStudents u x now) d)"

text \<open>A plan that was read waits for its transaction while other requests come.\<close>

inductive academic_step :: "academic_db \<times> promotion_plan list \<Rightarrow> academic_db \<times> promotion_plan list \<Rightarrow> bool" where
  Asked: "academic_step (d, ps) (perform_academic q d, ps)"
| Planned: "read_plan i u y d = Inr p \<Longrightarrow> academic_step (d, ps) (d, ps @ [p])"
| Executed: "p \<in> set ps \<Longrightarrow> academic_step (d, ps) (fst (transaction (run_plan p u notes now) d), remove1 p ps)"

abbreviation academic_reachable :: "academic_db \<times> promotion_plan list \<Rightarrow> academic_db \<times> promotion_plan list \<Rightarrow> bool" where
  "academic_reachable \<equiv> academic_step\<^sup>*\<^sup>*"

end
