(* ===== verification/PromotionProperties.thy ===== *)
theory PromotionProperties
  imports Promotions RbacProperties
begin

text \<open>
  Theorems on promotions: what the promotion of an institution does to its students and sessions, and that
  a session is promoted once.
\<close>

section \<open>Students\<close>

text \<open>Row by row: the updates of a loop over distinct rows are one pass over the table.\<close>

lemma fold_update_by:
  assumes "distinct (map key ss)" and "\<And>s r. key (f s r) = key r"
  shows "fold (\<lambda>s. update_by key (key s) (f s)) ss t = map (\<lambda>r. case lookup_by key (key r) ss of None \<Rightarrow> r | Some s \<Rightarrow> f s r) t"
  using assms(1)
proof (induction ss arbitrary: t)
  case Nil
  then show ?case by (simp add: lookup_by_Nil)
next
  case (Cons s ss)
  have "lookup_by key (key s) ss = None" using Cons.prems by (simp add: lookup_by_None)
  with Cons show ?case by (simp add: update_by_def update_where_def comp_def assms(2) lookup_by_Cons cong: map_cong)
qed

definition take_standing :: "standing \<Rightarrow> pupil_row \<Rightarrow> pupil_row" where
  "take_standing x s =
     (case x of Skipped \<Rightarrow> s | Graduates \<Rightarrow> s\<lparr>sp_status := SpGraduated\<rparr> | MovesTo k l \<Rightarrow> s\<lparr>sp_level := Some (lv_id l), sp_direct_entry := False\<rparr>)"

lemma take_standing_id [simp]: "sp_id (take_standing x s) = sp_id s"
  by (simp add: take_standing_def split: standing.split)

lemma join_group_leaves [simp]:
  "am_pupils (join_group y now b g d) = am_pupils d" "am_years (join_group y now b g d) = am_years d" "am_groups (join_group y now b g d) = am_groups d"
  by (simp_all add: join_group_def)

lemma moving_leaves [simp]:
  "am_pupils (move_belongings p z m now s l d) = am_pupils d" "am_years (move_belongings p z m now s l d) = am_years d"
proof -
  have "am_pupils (fold (\<lambda>b d. case next_home m d s l b of None \<Rightarrow> d | Some g \<Rightarrow> join_group (ay_id z) now b (gp_id g) d) bs d) = am_pupils d \<and>
      am_years (fold (\<lambda>b d. case next_home m d s l b of None \<Rightarrow> d | Some g \<Rightarrow> join_group (ay_id z) now b (gp_id g) d) bs d) = am_years d" for bs d
    by (induction bs arbitrary: d) (simp_all split: option.split)
  then show "am_pupils (move_belongings p z m now s l d) = am_pupils d" "am_years (move_belongings p z m now s l d) = am_years d"
    by (simp_all add: move_belongings_def Let_def)
qed

lemma write_record_leaves [simp]:
  "am_pupils (write_record s y p l d) = am_pupils d" "am_years (write_record s y p l d) = am_years d"
  by (simp_all add: write_record_def)

lemma add_promotion_years [simp]: "am_years (add_promotion s k l y u now notes d) = am_years d"
  by (simp add: add_promotion_def)

lemma take_standing_simps:
  "take_standing Skipped = (\<lambda>s. s)" "take_standing Graduates = (\<lambda>s. s\<lparr>sp_status := SpGraduated\<rparr>)"
  "take_standing (MovesTo k l) = (\<lambda>s. s\<lparr>sp_level := Some (lv_id l), sp_direct_entry := False\<rparr>)"
  by (simp_all add: take_standing_def [abs_def])

lemma update_by_same: "update_by key k (\<lambda>r. r) t = t"
  by (simp add: update_by_def update_where_def)

lemma promote_pupil_pupils:
  "am_pupils (promote_pupil p z m u notes now s d) = update_by sp_id (sp_id s) (take_standing (standing_of (pl_levels p) s)) (am_pupils d)"
  by (cases "standing_of (pl_levels p) s") (simp_all add: promote_pupil_def take_standing_simps update_by_same add_promotion_def)

lemma promote_pupil_years: "am_years (promote_pupil p z m u notes now s d) = am_years d"
  by (cases "standing_of (pl_levels p) s") (simp_all add: promote_pupil_def)

lemmas promote_pupil_effect = promote_pupil_pupils promote_pupil_years

lemma promote_pupils_effect:
  "am_pupils (fold (promote_pupil p z m u notes now) ss d) =
     fold (\<lambda>s. update_by sp_id (sp_id s) (take_standing (standing_of (pl_levels p) s))) ss (am_pupils d) \<and>
   am_years (fold (promote_pupil p z m u notes now) ss d) = am_years d"
  by (induction ss arbitrary: d) (simp_all add: promote_pupil_effect)

lemma copy_groups_leaves:
  "copy_groups p z gs d = (m, d') \<Longrightarrow> am_pupils d' = am_pupils d \<and> am_years d' = am_years d"
proof (induction gs arbitrary: d m d')
  case (Cons g gs)
  obtain h d1 where c: "copy_group p z g d = (h, d1)" by (cases "copy_group p z g d")
  obtain n d2 where r: "copy_groups p z gs d1 = (n, d2)" by (cases "copy_groups p z gs d1")
  from c have "am_pupils d1 = am_pupils d \<and> am_years d1 = am_years d" by (auto simp: copy_group_def Let_def split: option.splits)
  with Cons.IH [OF r] Cons.prems show ?case by (simp add: c r)
qed simp

lemma link_parents_leave [simp]:
  "am_pupils (fold (link_parent m) gs d) = am_pupils d \<and> am_years (fold (link_parent m) gs d) = am_years d"
  by (induction gs arbitrary: d) (simp_all add: link_parent_def split: option.split)

lemma claim_year_Inr:
  "claim_year p d = Inr d1 \<longleftrightarrow> length (filter (\<lambda>y. ay_id y = ay_id (pl_year p) \<and> current_year (pl_institution p) y) (am_years d)) = 1 \<and>
     d1 = d\<lparr>am_years := update_where (\<lambda>y. ay_id y = ay_id (pl_year p) \<and> current_year (pl_institution p) y) complete_year (am_years d)\<rparr>"
  by (auto simp: claim_year_def Let_def result_simps)

lemma open_year_pupils: "open_year p d = Inr (z, d') \<Longrightarrow> am_pupils d' = am_pupils d"
  by (auto simp: open_year_def Let_def result_simps split: option.splits)

text \<open>Identifiers only move on.\<close>

definition moves_on :: "academic_db \<Rightarrow> academic_db \<Rightarrow> bool" where
  "moves_on d d' \<longleftrightarrow> am_ids d' = am_ids d \<and> am_seq d \<le> am_seq d'"

lemma moves_on_refl [simp]: "moves_on d d"
  by (simp add: moves_on_def)

lemma moves_on_trans: "moves_on d d1 \<Longrightarrow> moves_on d1 d' \<Longrightarrow> moves_on d d'"
  by (simp add: moves_on_def)

lemma fold_moves_on: "(\<And>x d. moves_on d (f x d)) \<Longrightarrow> moves_on d (fold f xs d)"
proof (induction xs arbitrary: d)
  case (Cons x xs)
  from moves_on_trans [OF Cons.prems Cons.IH [OF Cons.prems]] show ?case by simp
qed simp

lemma single_moves:
  "moves_on d (join_group y now b g d)" "moves_on d (write_record s k q l d)" "moves_on d (add_promotion s a c k u now notes d)"
  "moves_on d (link_parent m h d)"
  by (simp_all add: moves_on_def join_group_def write_record_def add_promotion_def link_parent_def split: option.split)

lemma belongings_move: "moves_on d (move_belongings p z m now s l d)"
proof -
  let ?d = "d\<lparr>am_belongings := update_where (in_year d (\<lambda>g. gp_institution g = Some (pl_institution p) \<and> gp_session g = Some (ay_id (pl_year p))) (sp_user s))
    (\<lambda>b. b\<lparr>bm_status := MsLeft, bm_left := Some now\<rparr>) (am_belongings d)\<rparr>"
  have "moves_on d ?d" by (simp add: moves_on_def)
  moreover have "moves_on ?d (move_belongings p z m now s l d)"
    unfolding move_belongings_def Let_def by (rule fold_moves_on) (simp add: single_moves split: option.split)
  ultimately show ?thesis by (rule moves_on_trans)
qed

lemma promote_pupil_moves: "moves_on d (promote_pupil p z m u notes now s d)"
proof (cases "standing_of (pl_levels p) s")
  case (MovesTo k l)
  then show ?thesis
    by (simp add: promote_pupil_def moves_on_trans [OF single_moves(3) moves_on_trans [OF single_moves(2) belongings_move]])
qed (simp_all add: promote_pupil_def moves_on_def)

lemma copy_groups_move: "copy_groups p z gs d = (m, d') \<Longrightarrow> moves_on d d'"
proof (induction gs arbitrary: d m d')
  case (Cons g gs)
  obtain h d1 where c: "copy_group p z g d = (h, d1)" by (cases "copy_group p z g d")
  obtain n d2 where r: "copy_groups p z gs d1 = (n, d2)" by (cases "copy_groups p z gs d1")
  from c have "moves_on d d1" by (auto simp: copy_group_def Let_def moves_on_def split: option.splits)
  from moves_on_trans [OF this Cons.IH [OF r]] Cons.prems show ?case by (simp add: c r)
qed simp

text \<open>The loop over the students writes what each step writes, and its counters end at the numbers of students.\<close>

definition moves :: "standing \<Rightarrow> bool" where
  "moves x = (case x of MovesTo k l \<Rightarrow> True | _ \<Rightarrow> False)"

definition count_standing :: "promotion_plan \<Rightarrow> (standing \<Rightarrow> bool) \<Rightarrow> nat" where
  "count_standing p P = length (filter (\<lambda>s. P (standing_of (pl_levels p) s)) (pl_pupils p))"

lemma promote_pupils_fold:
  "promote_pupils p z m u msg now ss (n, d) =
     (\<lparr>pc_promoted = pc_promoted n + length (filter (\<lambda>s. moves (standing_of (pl_levels p) s)) ss),
       pc_graduated = pc_graduated n + length (filter (\<lambda>s. standing_of (pl_levels p) s = Graduates) ss),
       pc_skipped = pc_skipped n + length (filter (\<lambda>s. standing_of (pl_levels p) s = Skipped) ss)\<rparr>,
      fold (promote_pupil p z m u msg now) ss d)"
  by (induction ss arbitrary: n d) (auto simp: count_pupil_def moves_def split: standing.split)

text \<open>The parts of a run.\<close>

lemma run_plan_parts:
  assumes "run_plan p u notes now d = Inr (r, d')"
  obtains d1 d2 where "claim_year p d = Inr d1" and "open_year p d1 = Inr (su_year r, d2)"
    and "am_years d' = am_years (close_years (pl_institution p) (ay_id (su_year r)) d2)"
    and "am_pupils d' = fold (\<lambda>s. update_by sp_id (sp_id s) (take_standing (standing_of (pl_levels p) s))) (pl_pupils p) (am_pupils d)"
    and "su_eligible r = length (pl_pupils p)" and "su_promoted r = count_standing p moves"
    and "su_graduated r = count_standing p (\<lambda>x. x = Graduates)" and "su_skipped r = count_standing p (\<lambda>x. x = Skipped)"
    and "moves_on d2 d'"
proof -
  from assms obtain d1 z d2 where c: "claim_year p d = Inr d1" and o: "open_year p d1 = Inr (z, d2)"
    by (auto simp: run_plan_def result_simps)
  obtain m d3 where g: "copy_groups p z (pl_groups p) (close_years (pl_institution p) (ay_id z) d2) = (m, d3)"
    by (cases "copy_groups p z (pl_groups p) (close_years (pl_institution p) (ay_id z) d2)")
  have p: "am_pupils d3 = am_pupils d"
    using copy_groups_leaves [OF g] open_year_pupils [OF o] c by (auto simp: close_years_def claim_year_Inr)
  from assms have r: "su_year r = z" "su_eligible r = length (pl_pupils p)" "su_promoted r = count_standing p moves"
    "su_graduated r = count_standing p (\<lambda>x. x = Graduates)" "su_skipped r = count_standing p (\<lambda>x. x = Skipped)"
    and d': "\<exists>msg. d' = fold (promote_pupil p z m u msg now) (pl_pupils p) (fold (link_parent m) (pl_groups p) d3)"
    by (auto simp: run_plan_def c o g Let_def promote_pupils_fold count_standing_def)
  from d' obtain msg where "d' = fold (promote_pupil p z m u msg now) (pl_pupils p) (fold (link_parent m) (pl_groups p) d3)" by blast
  moreover have "moves_on (close_years (pl_institution p) (ay_id z) d2) \<dots>"
    by (rule moves_on_trans [OF copy_groups_move [OF g] moves_on_trans [OF fold_moves_on fold_moves_on]]) (simp_all add: single_moves promote_pupil_moves)
  ultimately have "moves_on d2 d'" by (simp add: moves_on_def close_years_def)
  with \<open>d' = _\<close> promote_pupils_effect [of p z m u msg now "pl_pupils p" "fold (link_parent m) (pl_groups p) d3"] p copy_groups_leaves [OF g]
  have "am_years d' = am_years (close_years (pl_institution p) (ay_id z) d2)"
    "am_pupils d' = fold (\<lambda>s. update_by sp_id (sp_id s) (take_standing (standing_of (pl_levels p) s))) (pl_pupils p) (am_pupils d)" "moves_on d2 d'" by simp_all
  with c o r that show ?thesis by simp
qed

definition advance :: "(ident \<Rightarrow> level_row list) \<Rightarrow> ident \<Rightarrow> pupil_row \<Rightarrow> pupil_row" where
  "advance ls i s = (if sp_institution s = i \<and> sp_status s = SpActive then take_standing (standing_of ls s) s else s)"

definition academic_sound :: "academic_db \<Rightarrow> bool" where
  "academic_sound d \<longleftrightarrow> distinct (map sp_id (am_pupils d)) \<and> distinct (map ay_id (am_years d)) \<and> inj (am_ids d) \<and>
     (\<forall>n\<ge>am_seq d. am_ids d n \<notin> ay_id ` set (am_years d))"

lemma read_plan_Inr:
  assumes "read_plan i u y d = Inr p"
  shows "pl_institution p = i" "pl_year p \<in> set (am_years d)" "ay_id (pl_year p) = y" "current_year i (pl_year p)"
    "getNextSessionName (ay_name (pl_year p)) = Inr (pl_name p)"
    "pl_existing p = Some e \<Longrightarrow> e \<in> set (am_years d) \<and> ay_institution e = i \<and> ay_name e = pl_name p \<and> ay_scope e = AyInstitution"
    "pl_pupils p = filter (\<lambda>s. sp_institution s = i \<and> sp_status s = SpActive) (am_pupils d)" "pl_levels p = department_levels d"
  using assms by (auto simp: read_plan_def result_simps dest!: find_SomeD)

lemma advanced_pupils:
  assumes "distinct (map sp_id (am_pupils d))" and "read_plan i u y d = Inr p"
  shows "fold (\<lambda>s. update_by sp_id (sp_id s) (take_standing (standing_of (pl_levels p) s))) (pl_pupils p) (am_pupils d) =
    map (advance (department_levels d) i) (am_pupils d)"
proof -
  note P = read_plan_Inr(7,8) [OF assms(2)]
  let ?P = "\<lambda>s. sp_institution s = i \<and> sp_status s = SpActive"
  have "distinct (map sp_id (pl_pupils p))" using assms(1) by (simp add: P distinct_map_filter)
  note F = fold_update_by [OF this, of "\<lambda>s. take_standing (standing_of (pl_levels p) s)" "am_pupils d", OF take_standing_id, unfolded P]
  have "fold (\<lambda>s. update_by sp_id (sp_id s) (take_standing (standing_of (pl_levels p) s))) (pl_pupils p) (am_pupils d) =
      map (\<lambda>r. case lookup_by sp_id (sp_id r) (filter ?P (am_pupils d)) of None \<Rightarrow> r | Some s \<Rightarrow> take_standing (standing_of (department_levels d) s) r) (am_pupils d)"
    unfolding P by (rule F)
  also have "\<dots> = map (advance (department_levels d) i) (am_pupils d)"
  proof (rule map_cong [OF refl])
    fix r
    assume r: "r \<in> set (am_pupils d)"
    show "(case lookup_by sp_id (sp_id r) (filter ?P (am_pupils d)) of None \<Rightarrow> r | Some s \<Rightarrow> take_standing (standing_of (department_levels d) s) r) =
        advance (department_levels d) i r"
    proof (cases "?P r")
      case True
      have "distinct (map sp_id (filter ?P (am_pupils d)))" using assms(1) by (simp add: distinct_map_filter)
      from lookup_by_distinct [OF this, of r] r True show ?thesis by (simp add: advance_def)
    next
      case False
      have "lookup_by sp_id (sp_id r) (filter ?P (am_pupils d)) = None"
        unfolding lookup_by_None using False r row_by_key [OF assms(1)] by auto
      moreover have "advance (department_levels d) i r = r" unfolding advance_def using False by (rule if_not_P)
      ultimately show ?thesis by simp
    qed
  qed
  finally show ?thesis .
qed


section \<open>Sessions\<close>

lemma complete_year_simps [simp]:
  "ay_id (complete_year y) = ay_id y" "ay_institution (complete_year y) = ay_institution y" "ay_name (complete_year y) = ay_name y"
  "ay_scope (complete_year y) = ay_scope y" "\<not> ay_current (complete_year y)" "\<not> current_year i (complete_year y)"
  by (simp_all add: complete_year_def current_year_def)

text \<open>The names of sessions: rows are added, and keep identifier, institution, name and scope.\<close>

definition year_keys :: "academic_db \<Rightarrow> (ident \<times> ident \<times> string \<times> session_scope) set" where
  "year_keys d = (\<lambda>y. (ay_id y, ay_institution y, ay_name y, ay_scope y)) ` set (am_years d)"

lemma update_keeps_year_keys:
  assumes "\<And>y. ay_id (f y) = ay_id y" "\<And>y. ay_institution (f y) = ay_institution y" "\<And>y. ay_name (f y) = ay_name y" "\<And>y. ay_scope (f y) = ay_scope y"
  shows "(\<lambda>y. (ay_id y, ay_institution y, ay_name y, ay_scope y)) ` set (update_where P f ys) = (\<lambda>y. (ay_id y, ay_institution y, ay_name y, ay_scope y)) ` set ys"
  by (induction ys) (auto simp: update_where_def assms)

lemma map_id_update_where: "(\<And>y. ay_id (f y) = ay_id y) \<Longrightarrow> map ay_id (update_where P f ys) = map ay_id ys"
  by (simp add: update_where_def)

lemma claim_year_keeps:
  assumes "claim_year p d = Inr d1"
  shows "year_keys d1 = year_keys d" "map ay_id (am_years d1) = map ay_id (am_years d)" "am_ids d1 = am_ids d" "am_seq d1 = am_seq d"
  using assms by (simp_all add: claim_year_Inr year_keys_def update_keeps_year_keys map_id_update_where)

lemma close_years_keeps [simp]:
  "year_keys (close_years i k d) = year_keys d" "map ay_id (am_years (close_years i k d)) = map ay_id (am_years d)"
  by (simp_all add: close_years_def year_keys_def update_keeps_year_keys map_id_update_where)

text \<open>The session that is opened, a row that is there already or a new one, is one of the institution with the next name.\<close>

lemma open_year_opens:
  assumes "open_year p d = Inr (z, d2)" and "distinct (map ay_id (am_years d))" and "new_key d \<notin> ay_id ` set (am_years d)"
    and "\<And>e. pl_existing p = Some e \<Longrightarrow> (ay_id e, pl_institution p, pl_name p, AyInstitution) \<in> year_keys d"
  shows "current_year (pl_institution p) z" "ay_name z = pl_name p" "z \<in> set (am_years d2)" "distinct (map ay_id (am_years d2))"
    "\<And>y. y \<in> set (am_years d2) \<Longrightarrow> y \<in> set (am_years d) \<or> y = z"
    "year_keys d2 = insert (ay_id z, pl_institution p, pl_name p, AyInstitution) (year_keys d)"
proof -
  have "current_year (pl_institution p) z \<and> ay_name z = pl_name p \<and> z \<in> set (am_years d2) \<and> distinct (map ay_id (am_years d2)) \<and>
    (\<forall>y\<in>set (am_years d2). y \<in> set (am_years d) \<or> y = z) \<and> year_keys d2 = insert (ay_id z, pl_institution p, pl_name p, AyInstitution) (year_keys d)"
  proof (cases "pl_existing p")
    case None
    with assms(1) have z: "ay_id z = new_key d" "current_year (pl_institution p) z" "ay_name z = pl_name p"
      "ay_institution z = pl_institution p" "ay_scope z = AyInstitution" and y: "am_years d2 = am_years d @ [z]"
      by (auto simp: open_year_def Let_def result_simps current_year_def)
    have "distinct (map ay_id (am_years d2))" unfolding y using assms(2,3) z(1) by simp
    with z y show ?thesis by (simp add: year_keys_def)
  next
    case (Some e)
    let ?f = "\<lambda>y. y\<lparr>ay_current := True, ay_status := AyActive\<rparr>"
    from assms(4) [OF Some] obtain y where y: "y \<in> set (am_years d)" "ay_id y = ay_id e" "ay_institution y = pl_institution p"
      "ay_name y = pl_name p" "ay_scope y = AyInstitution" by (auto simp: year_keys_def)
    have g: "get_year d (ay_id e) = Some y" using lookup_by_distinct [OF assms(2) y(1)] y(2) by simp
    with assms(1) Some have z: "z = ?f y" and a: "am_years d2 = update_by ay_id (ay_id e) ?f (am_years d)"
      by (auto simp: open_year_def Let_def)
    have "x = y" if "x \<in> set (am_years d)" "ay_id x = ay_id e" for x using row_by_key [OF assms(2) that(1) y(1)] that(2) y(2) by simp
    then have m: "\<forall>x\<in>set (am_years d2). x \<in> set (am_years d) \<or> x = z" by (auto simp: a z set_update_by)
    have zm: "z \<in> set (am_years d2)" unfolding a set_update_by z using y(1,2) by (intro bexI [of _ y]) simp_all
    have k: "year_keys d2 = year_keys d" by (simp add: year_keys_def a update_by_def update_keeps_year_keys)
    have "(ay_id z, pl_institution p, pl_name p, AyInstitution) \<in> year_keys d" unfolding year_keys_def using y by (intro image_eqI [of _ _ y]) (simp_all add: z)
    then have "year_keys d2 = insert (ay_id z, pl_institution p, pl_name p, AyInstitution) (year_keys d)" using k by blast
    moreover have "distinct (map ay_id (am_years d2))" using assms(2) by (simp add: a update_by_def map_id_update_where)
    moreover have "current_year (pl_institution p) z" "ay_name z = pl_name p" using y by (simp_all add: z current_year_def)
    ultimately show ?thesis using m zm by blast
  qed
  then show "current_year (pl_institution p) z" "ay_name z = pl_name p" "z \<in> set (am_years d2)" "distinct (map ay_id (am_years d2))"
    "\<And>y. y \<in> set (am_years d2) \<Longrightarrow> y \<in> set (am_years d) \<or> y = z"
    "year_keys d2 = insert (ay_id z, pl_institution p, pl_name p, AyInstitution) (year_keys d)" by blast+
qed

text \<open>What a run does to the sessions, of a plan whose next session is still there.\<close>

definition plan_holds :: "academic_db \<Rightarrow> promotion_plan \<Rightarrow> bool" where
  "plan_holds d p \<longleftrightarrow> (ay_id (pl_year p), pl_institution p, ay_name (pl_year p), AyInstitution) \<in> year_keys d \<and>
     getNextSessionName (ay_name (pl_year p)) = Inr (pl_name p) \<and>
     (\<forall>e. pl_existing p = Some e \<longrightarrow> (ay_id e, pl_institution p, pl_name p, AyInstitution) \<in> year_keys d)"

lemma read_plan_holds: "read_plan i u y d = Inr p \<Longrightarrow> plan_holds d p"
  using read_plan_Inr [of i u y d p] by (auto simp: plan_holds_def year_keys_def current_year_def image_iff)

lemma run_plan_years:
  assumes "run_plan p u notes now d = Inr (r, d')" and "academic_sound d" and "plan_holds d p"
  shows "filter (current_year (pl_institution p)) (am_years d') = [su_year r]" "ay_name (su_year r) = pl_name p"
    "\<exists>y\<in>set (am_years d). ay_id y = ay_id (pl_year p) \<and> current_year (pl_institution p) y"
    "\<And>j y. j \<noteq> pl_institution p \<Longrightarrow> y \<in> set (am_years d') \<Longrightarrow> current_year j y \<Longrightarrow> y \<in> set (am_years d)"
    "year_keys d' = insert (ay_id (su_year r), pl_institution p, pl_name p, AyInstitution) (year_keys d)" "distinct (map ay_id (am_years d'))"
proof -
  let ?i = "pl_institution p" and ?z = "su_year r"
  from run_plan_parts [OF assms(1)] obtain d1 d2 where c: "claim_year p d = Inr d1" and o: "open_year p d1 = Inr (?z, d2)"
    and d': "am_years d' = am_years (close_years ?i (ay_id ?z) d2)" by metis
  note K = claim_year_keeps [OF c]
  from c have l: "length (filter (\<lambda>y. ay_id y = ay_id (pl_year p) \<and> current_year ?i y) (am_years d)) = 1"
    and d1: "am_years d1 = update_where (\<lambda>y. ay_id y = ay_id (pl_year p) \<and> current_year ?i y) complete_year (am_years d)"
    by (simp_all add: claim_year_Inr)
  from l have "filter (\<lambda>y. ay_id y = ay_id (pl_year p) \<and> current_year ?i y) (am_years d) \<noteq> []" by auto
  then show "\<exists>y\<in>set (am_years d). ay_id y = ay_id (pl_year p) \<and> current_year ?i y" by (simp add: filter_empty_conv)
  have i: "distinct (map ay_id (am_years d1))" "new_key d1 \<notin> ay_id ` set (am_years d1)"
  proof -
    have "new_key d1 \<notin> set (map ay_id (am_years d))" using assms(2) by (simp add: academic_sound_def new_key_def K(3,4))
    then show "new_key d1 \<notin> ay_id ` set (am_years d1)" unfolding K(2) [symmetric] by simp
    show "distinct (map ay_id (am_years d1))" using assms(2) by (simp add: K(2) academic_sound_def)
  qed
  have e: "(ay_id e, ?i, pl_name p, AyInstitution) \<in> year_keys d1" if "pl_existing p = Some e" for e
    using assms(3) that unfolding plan_holds_def K(1) by blast
  note O = open_year_opens [OF o i e]
  show "ay_name ?z = pl_name p" by (rule O(2))
  show dd: "distinct (map ay_id (am_years d'))" unfolding d' by (simp add: O(4))
  have "year_keys d' = year_keys (close_years ?i (ay_id ?z) d2)" by (simp only: year_keys_def d')
  then show "year_keys d' = insert (ay_id ?z, ?i, pl_name p, AyInstitution) (year_keys d)" by (simp add: O(6) K(1))
  have zm: "?z \<in> set (am_years d')" using O(3) by (auto simp: d' close_years_def update_where_def image_iff intro: bexI [of _ ?z])
  have cur: "y = ?z" if y: "y \<in> set (am_years d')" "current_year ?i y" for y
  proof -
    have "ay_id y = ay_id ?z" using y by (auto simp: d' close_years_def update_where_def split: if_splits)
    from row_by_key [OF dd y(1) zm this] show ?thesis .
  qed
  have "filter (current_year ?i) (am_years d') = [?z]"
  proof -
    let ?l = "filter (current_year ?i) (am_years d')"
    have "?z \<in> set ?l" using zm O(1) by simp
    moreover have "x = ?z" if "x \<in> set ?l" for x using that by (intro cur) simp_all
    ultimately have s: "set ?l = {?z}" by blast
    have "distinct ?l" using dd by (simp add: distinct_map)
    from distinct_card [OF this] have "length ?l = Suc 0" unfolding s by simp
    then obtain x where x: "?l = [x]" unfolding length_Suc_conv by blast
    from s have "x = ?z" unfolding x by simp
    with x show ?thesis by simp
  qed
  then show "filter (current_year ?i) (am_years d') = [?z]" .
  show "y \<in> set (am_years d)" if y: "j \<noteq> ?i" "y \<in> set (am_years d')" "current_year j y" for j y
  proof -
    from y(2,3) have y2: "y \<in> set (am_years d2)" by (auto simp: d' close_years_def update_where_def split: if_splits)
    have "y \<noteq> ?z" using O(1) y(1,3) by (auto simp: current_year_def)
    with O(5) [OF _ y2] have "y \<in> set (am_years d1)" by simp
    with y(3) show ?thesis by (auto simp: d1 update_where_def split: if_splits)
  qed
qed

lemma count_partition:
  "length ss = length (filter (\<lambda>s. moves (f s)) ss) + length (filter (\<lambda>s. f s = Graduates) ss) + length (filter (\<lambda>s. f s = Skipped) ss)"
proof (induction ss)
  case (Cons s ss)
  then show ?case by (cases "f s") (simp_all add: moves_def)
qed simp

text \<open>A standing says where the level of the student is among those of the department.\<close>

definition standing_right :: "level_row list \<Rightarrow> pupil_row \<Rightarrow> standing \<Rightarrow> bool" where
  "standing_right ls s x \<longleftrightarrow>
     (case x of
        Skipped \<Rightarrow> \<forall>k. nonempty (sp_level s) = Some k \<longrightarrow> k \<notin> lv_id ` set ls
      | Graduates \<Rightarrow> \<exists>pre a. ls = pre @ [a] \<and> sp_level s = Some (lv_id a)
      | MovesTo k l \<Rightarrow> \<exists>pre a post. ls = pre @ a # l # post \<and> lv_id a = k \<and> sp_level s = Some k)"

lemma dropWhile_split: "dropWhile P xs = a # r \<Longrightarrow> \<exists>pre. xs = pre @ a # r \<and> \<not> P a"
  by (metis takeWhile_dropWhile_id hd_dropWhile list.sel(1) list.distinct(1))

lemma standing_of_right: "standing_right (ls (sp_department s)) s (standing_of ls s)"
proof (cases "nonempty (sp_level s)")
  case None
  then show ?thesis by (simp add: standing_of_def standing_right_def)
next
  case (Some k)
  then have k: "sp_level s = Some k" by (auto simp: nonempty_def split: option.splits if_splits)
  let ?ls = "ls (sp_department s)"
  show ?thesis
  proof (cases "dropWhile (\<lambda>l. lv_id l \<noteq> k) ?ls")
    case Nil
    then have "k \<notin> lv_id ` set ?ls" by (auto simp: dropWhile_eq_Nil_conv)
    moreover have "standing_of ls s = Skipped" unfolding standing_of_def level_after_def Some option.case Nil list.case by (rule refl)
    ultimately show ?thesis using Some by (simp add: standing_right_def)
  next
    case (Cons a r)
    from dropWhile_split [OF this] obtain pre where pre: "?ls = pre @ a # r" "lv_id a = k" by auto
    show ?thesis
    proof (cases r)
      case Nil
      with Cons Some have "standing_of ls s = Graduates" by (simp add: standing_of_def level_after_def)
      with pre Nil k show ?thesis by (simp add: standing_right_def)
    next
      case r: (Cons l post)
      with Cons Some have "standing_of ls s = MovesTo k l" by (simp add: standing_of_def level_after_def)
      with pre r k show ?thesis by (auto simp: standing_right_def)
    qed
  qed
qed

text \<open>C13: The promotion of an institution moves exactly its active students, each to the level after the own in the
  department, the last level graduating, everybody else staying; the session that was current is followed
  by the one with the next name, which is the only current one of the institution, and the figures add up.\<close>

theorem promotion_advances_institution:
  assumes "academic_sound d" and "promoteInstitution i u y notes now d = Inr (r, d')"
  shows "am_pupils d' = map (advance (department_levels d) i) (am_pupils d) \<and>
    (\<forall>s\<in>set (am_pupils d). standing_right (department_levels d (sp_department s)) s (standing_of (department_levels d) s)) \<and>
    filter (current_year i) (am_years d') = [su_year r] \<and>
    (\<exists>c\<in>set (am_years d). ay_id c = y \<and> current_year i c \<and> getNextSessionName (ay_name c) = Inr (ay_name (su_year r))) \<and>
    su_eligible r = su_promoted r + su_graduated r + su_skipped r"
proof -
  from assms(2) obtain p where p: "read_plan i u y d = Inr p" and r: "run_plan p u notes now d = Inr (r, d')"
    by (auto simp: promoteInstitution_def result_simps)
  note P = read_plan_Inr [OF p] and Y = run_plan_years [OF r assms(1) read_plan_holds [OF p]]
  from run_plan_parts [OF r] have a: "am_pupils d' = fold (\<lambda>s. update_by sp_id (sp_id s) (take_standing (standing_of (pl_levels p) s))) (pl_pupils p) (am_pupils d)"
    and n: "su_eligible r = length (pl_pupils p)" "su_promoted r = count_standing p moves"
    "su_graduated r = count_standing p (\<lambda>x. x = Graduates)" "su_skipped r = count_standing p (\<lambda>x. x = Skipped)" by metis+
  have "distinct (map sp_id (am_pupils d))" using assms(1) by (simp add: academic_sound_def)
  from advanced_pupils [OF this p] a have "am_pupils d' = map (advance (department_levels d) i) (am_pupils d)" by simp
  moreover have "filter (current_year i) (am_years d') = [su_year r]" using Y(1) by (simp add: P(1))
  moreover have "\<exists>c\<in>set (am_years d). ay_id c = y \<and> current_year i c \<and> getNextSessionName (ay_name c) = Inr (ay_name (su_year r))"
    using P(2-5) Y(2) by (intro bexI [of _ "pl_year p"]) simp_all
  moreover have "su_eligible r = su_promoted r + su_graduated r + su_skipped r"
    unfolding n count_standing_def by (rule count_partition)
  ultimately show ?thesis using standing_of_right by blast
qed


section \<open>A session is promoted once\<close>

text \<open>Reading back a name that was printed.\<close>

lemma read_digits_nonneg: "list_all is_digit s \<Longrightarrow> 0 \<le> read_digits s"
  by (induction s rule: rev_induct) (auto simp: read_digits_snoc digit_value_def is_digit_def, simp add: read_digits_def)

lemma four_digits_nonneg: "four_digits s = Some (a, r) \<Longrightarrow> 0 \<le> a"
  by (auto simp: four_digits_def read_digits_nonneg split: if_splits)

lemma read_years_four: "read_years s = Some (a, b) \<Longrightarrow> \<exists>r. four_digits s = Some (a, r)"
  by (auto simp: read_years_def split: option.splits list.splits if_splits)

lemma read_years_nonneg: "read_years s = Some (a, b) \<Longrightarrow> 0 \<le> a"
  using read_years_four four_digits_nonneg by blast

lemma slash_no_digit: "\<not> is_digit CHR ''/''" "\<not> is_space CHR ''/''"
  by (simp_all add: is_digit_def is_space_def)

lemma digit_no_space: "is_digit c \<Longrightarrow> \<not> is_space c"
  by (rule digit_not_sign)

lemma read_printed_years:
  assumes "read_years (show_nat n @ CHR ''/'' # t) = Some (b, c)"
  shows "b = int n"
proof -
  let ?s = "show_nat n"
  have dig: "list_all is_digit ?s" by (rule show_nat_digits)
  from read_years_four [OF assms] obtain r where f: "four_digits (?s @ CHR ''/'' # t) = Some (b, r)" ..
  then have all: "list_all is_digit (take 4 (?s @ CHR ''/'' # t))" and b: "b = read_digits (take 4 (?s @ CHR ''/'' # t))"
    and r: "r = drop 4 (?s @ CHR ''/'' # t)" by (auto simp: four_digits_def split: if_splits)
  have ge: "4 \<le> length ?s"
  proof (rule ccontr)
    assume "\<not> 4 \<le> length ?s"
    then obtain k where "4 - length ?s = Suc k" by (cases "4 - length ?s") auto
    with all slash_no_digit show False by simp
  qed
  have "length ?s = 4"
  proof (rule ccontr)
    assume "length ?s \<noteq> 4"
    with ge obtain x xs where x: "drop 4 ?s = x # xs" by (cases "drop 4 ?s") auto
    then have "x \<in> set ?s" by (metis in_set_dropD list.set_intros(1))
    then have "is_digit x" using dig by (simp add: list_all_iff)
    then have "\<not> is_space x" "x \<noteq> CHR ''/''" using digit_no_space slash_no_digit by auto
    moreover have "r = x # xs @ CHR ''/'' # t" using x ge by (simp add: r)
    ultimately show False using assms f by (simp add: read_years_def)
  qed
  then show ?thesis by (simp add: b)
qed

lemma show_nat_ends:
  "\<exists>x xs. show_nat n = x # xs \<and> \<not> is_space x" "\<exists>x xs. rev (show_nat n) = x # xs \<and> \<not> is_space x"
proof -
  have d: "\<forall>x\<in>set (show_nat n). \<not> is_space x" using show_nat_digits [of n] digit_no_space by (auto simp: list_all_iff)
  then show "\<exists>x xs. show_nat n = x # xs \<and> \<not> is_space x" by (cases "show_nat n") simp_all
  have "\<forall>x\<in>set (rev (show_nat n)). \<not> is_space x" using d by simp
  then show "\<exists>x xs. rev (show_nat n) = x # xs \<and> \<not> is_space x" by (cases "rev (show_nat n)") simp_all
qed

lemma trimmed_session_name: "trimmed (session_name y) = session_name y"
proof -
  obtain x xs where x: "show_nat (nat y) = x # xs" "\<not> is_space x" using show_nat_ends(1) by blast
  obtain z zs where z: "rev (show_nat (nat (y + 1))) = z # zs" "\<not> is_space z" using show_nat_ends(2) by blast
  have "dropWhile is_space (session_name y) = session_name y" by (simp add: session_name_def x)
  moreover have "dropWhile is_space (rev (session_name y)) = rev (session_name y)" by (simp add: session_name_def z)
  ultimately show ?thesis by (simp add: trimmed_def)
qed

lemma read_session_name: "0 \<le> y \<Longrightarrow> read_years (trimmed (session_name y)) = Some (b, c) \<Longrightarrow> b = y"
  by (simp add: trimmed_session_name) (simp add: session_name_def, drule read_printed_years, simp)

lemma getNextSessionName_Inr:
  "getNextSessionName n = Inr m \<longleftrightarrow> (\<exists>a. read_years (trimmed n) = Some (a, a + 1) \<and> m = session_name (a + 1))"
  by (auto simp: getNextSessionName_def split: option.splits)

text \<open>A session whose year has passed: the current sessions of its institution are of later years.\<close>

definition later_year :: "int \<Rightarrow> year_row \<Rightarrow> bool" where
  "later_year a z \<longleftrightarrow> (\<forall>b c. read_years (trimmed (ay_name z)) = Some (b, c) \<longrightarrow> a < b)"

definition passed :: "ident \<Rightarrow> ident \<Rightarrow> int \<Rightarrow> academic_db \<Rightarrow> bool" where
  "passed i y a d \<longleftrightarrow> (\<forall>z\<in>set (am_years d). current_year i z \<longrightarrow> later_year a z) \<and>
     (\<exists>n c. (y, i, n, AyInstitution) \<in> year_keys d \<and> read_years (trimmed n) = Some (a, c))"

lemma year_key_row:
  assumes "distinct (map ay_id (am_years d))" and "z \<in> set (am_years d)" and "(ay_id z, i, n, sc) \<in> year_keys d"
  shows "ay_institution z = i" "ay_name z = n" "ay_scope z = sc"
proof -
  from assms(3) obtain x where x: "x \<in> set (am_years d)" "ay_id x = ay_id z" "ay_institution x = i" "ay_name x = n" "ay_scope x = sc"
    by (auto simp: year_keys_def)
  from row_by_key [OF assms(1) x(1) assms(2) x(2)] x(3-5) show "ay_institution z = i" "ay_name z = n" "ay_scope z = sc" by simp_all
qed

lemma passed_not_current:
  assumes "passed i y a d" and "academic_sound d" and "z \<in> set (am_years d)" and "ay_id z = y"
  shows "\<not> current_year i z"
proof
  assume "current_year i z"
  with assms(1,3) have l: "later_year a z" by (simp add: passed_def)
  from assms(1) obtain n c where n: "(y, i, n, AyInstitution) \<in> year_keys d" "read_years (trimmed n) = Some (a, c)" by (auto simp: passed_def)
  have "ay_name z = n" using year_key_row(2) [of d z i n] assms(2-4) n(1) by (simp add: academic_sound_def)
  with l n(2) show False by (auto simp: later_year_def)
qed

lemma open_year_fresh:
  assumes "open_year p d = Inr (z, d2)" and "inj (am_ids d)" and "\<forall>n\<ge>am_seq d. am_ids d n \<notin> ay_id ` set (am_years d)"
  shows "\<forall>n\<ge>am_seq d2. am_ids d2 n \<notin> ay_id ` set (am_years d2)" "moves_on d d2"
proof -
  have "(\<forall>n\<ge>am_seq d2. am_ids d2 n \<notin> ay_id ` set (am_years d2)) \<and> moves_on d d2"
  proof (cases "pl_existing p")
    case None
    with assms(1) have z: "ay_id z = am_ids d (am_seq d)" and y: "am_years d2 = am_years d @ [z]" "am_seq d2 = Suc (am_seq d)" "am_ids d2 = am_ids d"
      by (auto simp: open_year_def Let_def result_simps new_key_def)
    have "am_ids d n \<noteq> am_ids d (am_seq d)" if "Suc (am_seq d) \<le> n" for n using that injD [OF assms(2), of n "am_seq d"] by auto
    with assms(3) y z show ?thesis by (simp add: moves_on_def)
  next
    case (Some e)
    let ?f = "\<lambda>y. y\<lparr>ay_current := True, ay_status := AyActive\<rparr>"
    from assms(1) Some have y: "am_years d2 = update_by ay_id (ay_id e) ?f (am_years d)" "am_seq d2 = am_seq d" "am_ids d2 = am_ids d"
      by (auto simp: open_year_def Let_def result_simps)
    have "map ay_id (am_years d2) = map ay_id (am_years d)" by (simp add: y(1) map_key_update_by)
    then have "ay_id ` set (am_years d2) = ay_id ` set (am_years d)" by (metis list.set_map)
    with assms(3) y(2,3) show ?thesis by (simp add: moves_on_def)
  qed
  then show "\<forall>n\<ge>am_seq d2. am_ids d2 n \<notin> ay_id ` set (am_years d2)" "moves_on d d2" by blast+
qed

lemma run_plan_sound:
  assumes "run_plan p u notes now d = Inr (r, d')" and "academic_sound d" and "plan_holds d p"
  shows "academic_sound d'"
proof (rule run_plan_parts [OF assms(1)])
  fix d1 d2
  assume c: "claim_year p d = Inr d1" and o: "open_year p d1 = Inr (su_year r, d2)"
    and y: "am_years d' = am_years (close_years (pl_institution p) (ay_id (su_year r)) d2)"
    and q: "am_pupils d' = fold (\<lambda>s. update_by sp_id (sp_id s) (take_standing (standing_of (pl_levels p) s))) (pl_pupils p) (am_pupils d)"
    and m: "moves_on d2 d'"
  note K = claim_year_keeps [OF c]
  have "ay_id ` set (am_years d1) = ay_id ` set (am_years d)" using K(2) by (metis list.set_map)
  then have f: "inj (am_ids d1)" "\<forall>n\<ge>am_seq d1. am_ids d1 n \<notin> ay_id ` set (am_years d1)" using assms(2) by (simp_all add: academic_sound_def K(3,4))
  note O = open_year_fresh [OF o f]
  have "map ay_id (am_years d') = map ay_id (am_years d2)" by (simp add: y)
  then have "ay_id ` set (am_years d') = ay_id ` set (am_years d2)" by (metis list.set_map)
  moreover have "am_ids d' = am_ids d1" "am_ids d' = am_ids d2" "am_seq d2 \<le> am_seq d'" using m O(2) by (simp_all add: moves_on_def)
  ultimately have "inj (am_ids d')" "\<forall>n\<ge>am_seq d'. am_ids d' n \<notin> ay_id ` set (am_years d')" using f(1) O(1) by auto
  moreover have "map sp_id (fold (\<lambda>s. update_by sp_id (sp_id s) (take_standing (standing_of (pl_levels p) s))) ss t) = map sp_id t" for ss t
    by (induction ss arbitrary: t) (simp_all add: map_key_update_by)
  then have "distinct (map sp_id (am_pupils d'))" using assms(2) by (simp add: q academic_sound_def)
  moreover have "distinct (map ay_id (am_years d'))" by (rule run_plan_years(6) [OF assms])
  ultimately show ?thesis by (simp add: academic_sound_def)
qed

lemma run_plan_passed:
  assumes "run_plan p u notes now d = Inr (r, d')" and "academic_sound d" and "plan_holds d p" and "passed i y a d"
  shows "passed i y a d'"
proof -
  note Y = run_plan_years [OF assms(1-3)]
  have "later_year a z" if z: "z \<in> set (am_years d')" "current_year i z" for z
  proof (cases "i = pl_institution p")
    case False
    from Y(4) [OF this z] assms(4) z(2) show ?thesis by (simp add: passed_def)
  next
    case True
    have "z \<in> set (filter (current_year i) (am_years d'))" using z by simp
    then have zz: "z = su_year r" using Y(1) True by simp
    from Y(3) obtain x where x: "x \<in> set (am_years d)" "ay_id x = ay_id (pl_year p)" "current_year i x" using True by blast
    have "ay_name x = ay_name (pl_year p)"
    proof (rule year_key_row(2))
      show "distinct (map ay_id (am_years d))" "x \<in> set (am_years d)" using assms(2) x(1) by (simp_all add: academic_sound_def)
      show "(ay_id x, pl_institution p, ay_name (pl_year p), AyInstitution) \<in> year_keys d" using assms(3) x(2) by (simp add: plan_holds_def)
    qed
    then have "getNextSessionName (ay_name x) = Inr (pl_name p)" using assms(3) by (simp add: plan_holds_def)
    then obtain b where b: "read_years (trimmed (ay_name x)) = Some (b, b + 1)" "pl_name p = session_name (b + 1)"
      unfolding getNextSessionName_Inr by blast
    have "a < b" using assms(4) x(1,3) b(1) by (auto simp: passed_def later_year_def)
    moreover have "0 \<le> b" by (rule read_years_nonneg [OF b(1)])
    moreover have "ay_name z = session_name (b + 1)" using Y(2) zz b(2) by simp
    ultimately show ?thesis unfolding later_year_def using read_session_name [of "b + 1"] by fastforce
  qed
  moreover have "\<exists>n c. (y, i, n, AyInstitution) \<in> year_keys d' \<and> read_years (trimmed n) = Some (a, c)"
    using assms(4) unfolding passed_def Y(5) by blast
  ultimately show ?thesis by (simp add: passed_def)
qed


text \<open>Promotions of single students do not touch sessions.\<close>

lemma add_promotion_effect:
  "map sp_id (am_pupils (add_promotion s k l y u now notes d)) = map sp_id (am_pupils d)"
  by (simp add: add_promotion_def map_key_update_by)

definition leaves_years :: "academic_db \<Rightarrow> academic_db \<Rightarrow> bool" where
  "leaves_years d d' \<longleftrightarrow> am_years d' = am_years d \<and> map sp_id (am_pupils d') = map sp_id (am_pupils d) \<and> moves_on d d'"

lemma add_promotion_leaves: "leaves_years d (add_promotion s k l y u now notes d)"
  by (simp add: leaves_years_def add_promotion_effect single_moves)

lemma leaves_years_refl [simp]: "leaves_years d d"
  by (simp add: leaves_years_def)

lemma bulk_each_leaves: "bulk_each u x now ss d = (rs, d') \<Longrightarrow> leaves_years d d'"
proof (induction ss arbitrary: d rs d')
  case (Cons s ss)
  obtain d1 r where t: "transaction (bulk_one u x now s) d = (d1, r)" by (cases "transaction (bulk_one u x now s) d")
  obtain qs d2 where b: "bulk_each u x now ss d1 = (qs, d2)" by (cases "bulk_each u x now ss d1")
  have "leaves_years d d1"
  proof (rule transaction_cases [of "bulk_one u x now s" d])
    assume "fst (transaction (bulk_one u x now s) d) = d"
    with t show ?thesis by simp
  next
    fix k d3
    assume "bulk_one u x now s d = Inr (k, d3)" "fst (transaction (bulk_one u x now s) d) = d3"
    with t show ?thesis by (auto simp: bulk_one_def result_simps add_promotion_leaves)
  qed
  with Cons.IH [OF b] Cons.prems t b show ?case by (auto simp: leaves_years_def moves_on_def)
qed simp

lemma single_requests_leave:
  "promoteStudent s u x now d = Inr (z, d') \<Longrightarrow> leaves_years d d'"
  "bulkPromoteStudents u w now d = Inr (rs, d') \<Longrightarrow> leaves_years d d'"
  by (auto simp: promoteStudent_def bulkPromoteStudents_def result_simps Let_def add_promotion_leaves dest: bulk_each_leaves)

definition promoted_state :: "ident \<Rightarrow> ident \<Rightarrow> int \<Rightarrow> academic_db \<times> promotion_plan list \<Rightarrow> bool" where
  "promoted_state i y a x \<longleftrightarrow> academic_sound (fst x) \<and> passed i y a (fst x) \<and> list_all (plan_holds (fst x)) (snd x)"

lemma plan_later: "plan_holds d p \<Longrightarrow> year_keys d \<subseteq> year_keys d' \<Longrightarrow> plan_holds d' p"
  by (auto simp: plan_holds_def)

lemma promoted_later:
  assumes "promoted_state i y a (d, ps)" and "academic_sound d'" and "passed i y a d'" and "year_keys d \<subseteq> year_keys d'" and "set qs \<subseteq> set ps"
  shows "promoted_state i y a (d', qs)"
  using assms plan_later [OF _ assms(4)] by (auto simp: promoted_state_def list_all_iff)

lemma leaving_keeps_promoted:
  assumes "promoted_state i y a (d, ps)" and "leaves_years d d'"
  shows "promoted_state i y a (d', ps)"
proof (rule promoted_later [OF assms(1)])
  from assms(2) have l: "am_years d' = am_years d" "map sp_id (am_pupils d') = map sp_id (am_pupils d)" "moves_on d d'"
    by (simp_all add: leaves_years_def)
  show "academic_sound d'" using assms(1) l by (simp add: promoted_state_def academic_sound_def moves_on_def)
  show "passed i y a d'" "year_keys d \<subseteq> year_keys d'" using assms(1) l(1) by (simp_all add: promoted_state_def passed_def year_keys_def)
qed simp

lemma running_keeps_promoted:
  assumes "promoted_state i y a (d, ps)" and "plan_holds d p" and "set qs \<subseteq> set ps"
  shows "promoted_state i y a (fst (transaction (run_plan p u notes now) d), qs)"
proof (rule transaction_cases [of "run_plan p u notes now" d])
  assume "fst (transaction (run_plan p u notes now) d) = d"
  with promoted_later [OF assms(1) _ _ _ assms(3), of d] assms(1) show ?thesis by (simp add: promoted_state_def)
next
  fix r d'
  assume r: "run_plan p u notes now d = Inr (r, d')" and t: "fst (transaction (run_plan p u notes now) d) = d'"
  from assms(1) have d: "academic_sound d" "passed i y a d" by (simp_all add: promoted_state_def)
  have "year_keys d \<subseteq> year_keys d'" unfolding run_plan_years(5) [OF r d(1) assms(2)] by blast
  from promoted_later [OF assms(1) run_plan_sound [OF r d(1) assms(2)] run_plan_passed [OF r d(1) assms(2) d(2)] this assms(3)] t
  show ?thesis by simp
qed

lemma academic_step_keeps: "academic_step x x' \<Longrightarrow> promoted_state i y a x \<Longrightarrow> promoted_state i y a x'"
proof (induction rule: academic_step.induct)
  case (Asked d ps q)
  show ?case
  proof (cases q)
    case (RunPromotion j u k m now)
    show ?thesis
    proof (cases "read_plan j u k d")
      case (Inl e)
      then have "perform_academic q d = d" by (simp add: RunPromotion transaction_def promoteInstitution_def)
      with Asked show ?thesis by simp
    next
      case (Inr p)
      then have "perform_academic q d = fst (transaction (run_plan p u m now) d)" by (simp add: RunPromotion transaction_def promoteInstitution_def)
      with running_keeps_promoted [OF Asked read_plan_holds [OF Inr] subset_refl] show ?thesis by simp
    qed
  next
    case (PromoteOne s u x now)
    show ?thesis unfolding PromoteOne perform_academic.simps
      by (rule transaction_cases [of "promoteStudent s u x now" d])
        (use Asked leaving_keeps_promoted [OF Asked single_requests_leave(1)] in simp_all)
  next
    case (PromoteMany u x now)
    show ?thesis unfolding PromoteMany perform_academic.simps
      by (rule transaction_cases [of "bulkPromoteStudents u x now" d])
        (use Asked leaving_keeps_promoted [OF Asked single_requests_leave(2)] in simp_all)
  qed
next
  case (Planned j u k d p ps)
  from read_plan_holds [OF Planned.hyps] Planned.prems show ?case by (simp add: promoted_state_def)
next
  case (Executed p ps d u m now)
  then have "plan_holds d p" by (simp add: promoted_state_def list_all_iff)
  from running_keeps_promoted [OF Executed.prems this set_remove1_subset] show ?case .
qed

text \<open>C17: A session is promoted once: after the promotion of an institution out of a session, every further one out of
  the same session ends with an error, whatever promotions come in between, and so do those that were
  prepared before and wait for their transaction.\<close>

theorem session_promoted_once:
  assumes "academic_sound d" and "list_all (plan_holds d) ps" and "promoteInstitution i u y notes now d = Inr (r, d1)"
    and "academic_reachable (d1, ps) (d2, qs)"
  shows "(\<exists>e. promoteInstitution i w y notes' t d2 = Inl e) \<and>
    (\<forall>p\<in>set qs. pl_institution p = i \<and> ay_id (pl_year p) = y \<longrightarrow> (\<exists>e. run_plan p w notes' t d2 = Inl e))"
proof -
  from assms(3) obtain p where p: "read_plan i u y d = Inr p" and r: "run_plan p u notes now d = Inr (r, d1)"
    by (auto simp: promoteInstitution_def result_simps)
  note P = read_plan_Inr [OF p] and H = read_plan_holds [OF p]
  note Y = run_plan_years [OF r assms(1) H]
  from P(5) obtain a where a: "read_years (trimmed (ay_name (pl_year p))) = Some (a, a + 1)" "pl_name p = session_name (a + 1)"
    unfolding getNextSessionName_Inr by blast
  have e: "filter (current_year i) (am_years d1) = [su_year r]" using Y(1) P(1) by simp
  have "later_year a z" if "z \<in> set (am_years d1)" "current_year i z" for z
  proof -
    have "z \<in> set (filter (current_year i) (am_years d1))" using that by simp
    then have "z = su_year r" unfolding e by simp
    then have "ay_name z = session_name (a + 1)" using Y(2) a(2) by simp
    with read_session_name [of "a + 1"] read_years_nonneg [OF a(1)] show ?thesis by (fastforce simp: later_year_def)
  qed
  moreover have "(y, i, ay_name (pl_year p), AyInstitution) \<in> year_keys d1" using H P(1,3) unfolding plan_holds_def Y(5) by simp
  ultimately have "passed i y a d1" unfolding passed_def using a(1) by blast
  moreover have "academic_sound d1" by (rule run_plan_sound [OF r assms(1) H])
  moreover have "year_keys d \<subseteq> year_keys d1" unfolding Y(5) by blast
  then have "list_all (plan_holds d1) ps" using assms(2) plan_later by (auto simp: list_all_iff)
  ultimately have "promoted_state i y a (d1, ps)" by (simp add: promoted_state_def)
  with assms(4) have "promoted_state i y a (d2, qs)"
  proof (induction rule: rtranclp_induct)
    case (step x x')
    from academic_step_keeps [OF step.hyps(2) step.IH [OF step.prems]] show ?case .
  qed simp
  then have S: "academic_sound d2" "passed i y a d2" "list_all (plan_holds d2) qs" by (simp_all add: promoted_state_def)
  have "promoteInstitution i w y notes' t d2 \<noteq> Inr x" for x
  proof
    assume "promoteInstitution i w y notes' t d2 = Inr x"
    then obtain q where q: "read_plan i w y d2 = Inr q" by (auto simp: promoteInstitution_def result_simps)
    from passed_not_current [OF S(2,1) read_plan_Inr(2,3) [OF q]] read_plan_Inr(4) [OF q] show False by simp
  qed
  moreover have "run_plan q w notes' t d2 \<noteq> Inr x" if q: "q \<in> set qs" "pl_institution q = i" "ay_id (pl_year q) = y" for q x
  proof
    assume "run_plan q w notes' t d2 = Inr x"
    then have "run_plan q w notes' t d2 = Inr (fst x, snd x)" by simp
    from run_plan_years(3) [OF this S(1)] S(3) q obtain z where "z \<in> set (am_years d2)" "ay_id z = y" "current_year i z"
      by (auto simp: list_all_iff)
    with passed_not_current [OF S(2,1)] show False by blast
  qed
  ultimately show ?thesis by (metis sum.exhaust)
qed

section \<open>Witnesses\<close>

text \<open>
  An institution with two levels in its department, one student in each, and one organization of the current
  session; \<open>p\<close> is the platform administrator of \<open>sample_access\<close>.
\<close>

definition sample_year :: year_row where
  "sample_year = \<lparr>ay_id = ''s'', ay_institution = ''i'', ay_name = ''2023/2024'', ay_start = 1693526400000, ay_end = 1709164800000,
     ay_status = AyActive, ay_scope = AyInstitution, ay_current = True\<rparr>"

definition sample_level :: "ident \<Rightarrow> int \<Rightarrow> level_row" where
  "sample_level k n = \<lparr>lv_id = k, lv_department = ''p'', lv_name = k, lv_order = n, lv_active = True\<rparr>"

definition sample_pupil :: "ident \<Rightarrow> ident \<Rightarrow> pupil_row" where
  "sample_pupil k l = \<lparr>sp_id = k, sp_user = k, sp_institution = ''i'', sp_department = ''p'', sp_level = Some l, sp_direct_entry = True,
     sp_status = SpActive\<rparr>"

definition sample_group :: group_row where
  "sample_group = \<lparr>gp_id = ''g'', gp_institution = Some ''i'', gp_faculty = None, gp_department = None, gp_level = None, gp_parent = None,
     gp_name = ''Chess 2023/2024'', gp_slug = ''chess'', gp_description = None, gp_logo = None, gp_type = GpClub, gp_scope = GsCustom,
     gp_status = GtActive, gp_session = Some ''s''\<rparr>"

definition sample_academic :: academic_db where
  "sample_academic = \<lparr>am_ids = sample_ids, am_seq = 0, am_institutions = [''i''], am_admins = [sample_platform],
     am_levels = [sample_level ''b'' 2, sample_level ''a'' 1], am_years = [sample_year],
     am_pupils = [sample_pupil ''x'' ''a'', sample_pupil ''y'' ''b''], am_promotions = [], am_records = [], am_groups = [sample_group],
     am_belongings = []\<rparr>"

lemma sample_academic_sound: "academic_sound sample_academic"
proof -
  have "sample_ids n \<noteq> ''s''" for n by simp
  with sample_ids_inj show ?thesis by (simp add: academic_sound_def sample_academic_def sample_pupil_def sample_year_def)
qed


lemma sample_promotion:
  "\<exists>r d'. promoteInstitution ''i'' ''p'' ''s'' None 0 sample_academic = Inr (r, d')"
proof -
  have "(case promoteInstitution ''i'' ''p'' ''s'' None 0 sample_academic of Inl e \<Rightarrow> False | Inr x \<Rightarrow> True)" by code_simp
  then show ?thesis by (auto split: sum.splits)
qed

lemma leap_day: "addYears 1709164800000 1 = 1740787200000"
  by code_simp

theorem promotion_advances_institution_witness:
  "\<exists>r d'. promoteInstitution ''i'' ''p'' ''s'' None 0 sample_academic = Inr (r, d') \<and>
    am_pupils d' = [(sample_pupil ''x'' ''b'')\<lparr>sp_direct_entry := False\<rparr>, (sample_pupil ''y'' ''b'')\<lparr>sp_status := SpGraduated\<rparr>]"
proof -
  obtain r d' where p: "promoteInstitution ''i'' ''p'' ''s'' None 0 sample_academic = Inr (r, d')" using sample_promotion by blast
  have "map (advance (department_levels sample_academic) ''i'') (am_pupils sample_academic) =
      [(sample_pupil ''x'' ''b'')\<lparr>sp_direct_entry := False\<rparr>, (sample_pupil ''y'' ''b'')\<lparr>sp_status := SpGraduated\<rparr>]" by code_simp
  with conjunct1 [OF promotion_advances_institution [OF sample_academic_sound p]] p show ?thesis by auto
qed

theorem session_promoted_once_witness:
  "\<exists>r d' e. promoteInstitution ''i'' ''p'' ''s'' None 0 sample_academic = Inr (r, d') \<and> promoteInstitution ''i'' ''p'' ''s'' None 1 d' = Inl e"
proof -
  obtain r d' where p: "promoteInstitution ''i'' ''p'' ''s'' None 0 sample_academic = Inr (r, d')" using sample_promotion by blast
  from session_promoted_once [OF sample_academic_sound _ p rtranclp.rtrancl_refl, of "[]" "''p''" None 1] p show ?thesis by auto
qed

end
