(* ===== verification/Spec2Isabelle.thy ===== *)
theory Spec2Isabelle
  imports Prelude JsNumber FinanceDb Samples Ledger LedgerProperties Wallets BankAccounts BachsClient
    Books Withdrawals WithdrawalWebhooks WithdrawalBooks WithdrawalHolds WithdrawalStatus
    WithdrawalProperties WithdrawalReports WithdrawalLimits Dues DueProperties Json Collections
    CollectionBooks CollectionProperties BachsSignature CollectionWebhooks Payments PaymentProperties
    WalletMovements RedisStore WalletCache Idempotency RateLimits Accounts Authentication
    AuthProperties SessionProperties Access Rbac RbacProperties Elections ElectionProperties
    Promotions PromotionProperties
begin

text \<open>
  The money core, the accounts, the permissions, the elections and the promotions of heightt-backend, a
  NestJS service over a Prisma database (\<open>src/v1/finance\<close>, \<open>src/v1/bachs\<close>, \<open>src/v1/auth\<close>, \<open>src/v1/rbac\<close>,
  \<open>src/v1/governance\<close>, \<open>src/v1/students\<close>, \<open>src/redis\<close>). All paths are relative to the repository's \<open>src/\<close>.

  \<^bold>\<open>The program.\<close> Users, organizations and the platform own wallets. Organizations charge dues,
  which students pay through the provider's checkouts. Every wallet is mirrored by
  a ledger account; journal entries move money between ledger accounts, the account with code
  1100 standing for the bank. A withdrawal reserves its amount and fee on the wallet, is settled
  (posted and debited), submitted to the payment provider, and completed, failed or compensated
  by the provider's reports.

  \<^bold>\<open>Theories.\<close>
  \<^item> \<open>Prelude\<close>: HTTP errors, results, transactions, tables with their reads and writes.
  \<^item> \<open>JsNumber\<close>: double arithmetic and \<open>Math.round\<close>, on which the charges rest.
  \<^item> \<open>FinanceDb\<close>: the tables of \<open>prisma/schema.prisma\<close> that the services use, the database, and
    its invariants: unique keys, links between wallets and accounts, the mirror, the system
    accounts, reservations. \<open>Samples\<close>: a concrete database.
  \<^item> \<open>Ledger\<close>, \<open>LedgerProperties\<close>: \<open>ledger.service.ts\<close>.
  \<^item> \<open>Wallets\<close>: \<open>wallet.service.ts\<close>. \<open>BankAccounts\<close>: \<open>bank-account.service.ts\<close>.
  \<^item> \<open>BachsClient\<close>: the conversion of amounts in \<open>bachs/bachs.client.ts\<close>.
  \<^item> \<open>Withdrawals\<close>: the withdrawal half of \<open>finance.service.ts\<close>.
  \<^item> \<open>WithdrawalWebhooks\<close>: \<open>withdrawal-webhook.service.ts\<close>.
  \<^item> \<open>Books\<close>: the algebra of movements of money, and the invariant \<open>ledger_ok\<close>.
    \<open>WithdrawalBooks\<close>, \<open>WithdrawalHolds\<close>, \<open>WithdrawalStatus\<close>: the three invariants of the
    withdrawal lifecycle. \<open>WithdrawalProperties\<close>, \<open>WithdrawalReports\<close>, \<open>WithdrawalLimits\<close>: the
    theorems on withdrawals, on the provider's reports about them, and on the largest withdrawal.
  \<^item> \<open>Dues\<close>, \<open>DueProperties\<close>: the dues half of \<open>finance.service.ts\<close>.
  \<^item> \<open>Json\<close>: JavaScript values as webhook handlers read them.
  \<^item> \<open>Collections\<close>: \<open>bachs/bachs.service.ts\<close>, payments collected through the provider.
    \<open>CollectionBooks\<close>: what a collection does to the books. \<open>CollectionProperties\<close>: its theorems.
  \<^item> \<open>BachsSignature\<close>: the webhook signature of \<open>bachs/bachs.client.ts\<close>.
  \<^item> \<open>CollectionWebhooks\<close>: \<open>bachs/bachs-webhook.controller.ts\<close>, and the theorems on deliveries.
  \<^item> \<open>Payments\<close>: credits, debits, savings goals, and the internal and the manual payment of
    \<open>finance.service.ts\<close>. \<open>WalletMovements\<close>: the theorems on the first three.
    \<open>PaymentProperties\<close>: why the two payments never complete.
  \<^item> \<open>RedisStore\<close>: the store and the tagged cache of \<open>src/redis\<close>. \<open>WalletCache\<close>: the cache of
    \<open>wallet.service.ts\<close> in front of the database, with the operations that go through it.
  \<^item> \<open>Idempotency\<close>: \<open>redis/idempotency.service.ts\<close> and the keys of \<open>finance.service.ts\<close>, as a
    transition system of interleaved requests.
  \<^item> \<open>RateLimits\<close>: \<open>redis/rate-limit.service.ts\<close>. \<open>Accounts\<close>: users, sessions, tokens and cookies
    (\<open>auth/token.service.ts\<close>, \<open>auth/cookie.service.ts\<close>). \<open>Authentication\<close>: the handlers of
    \<open>auth/auth.service.ts\<close> and the check of \<open>strategies/jwt.startegy.ts\<close>. \<open>AuthProperties\<close>,
    \<open>SessionProperties\<close>: what every sequence of requests keeps, and the theorems on tokens, resets,
    logins and logouts.
  \<^item> \<open>Access\<close>: the decisions of \<open>auth/permission.service.ts\<close> and \<open>common/guards/admin.guard.ts\<close>.
    \<open>Rbac\<close>: the operations of \<open>rbac/rbac.service.ts\<close>. \<open>RbacProperties\<close>: their theorems.
  \<^item> \<open>Elections\<close>: \<open>governance/governance.service.ts\<close>, with the transactions of ballots that overlap as a
    step relation, statement by statement. \<open>ElectionProperties\<close>: its theorems.
  \<^item> \<open>Promotions\<close>: \<open>students/promotion.service.ts\<close>, with what is read before the transaction as a plan
    that may wait. \<open>PromotionProperties\<close>: its theorems.

  \<^bold>\<open>State and effects.\<close> A handler is a function from the database to the database it leaves and a
  result, \<open>Inl\<close> an exception and \<open>Inr\<close> the value. Code inside \<open>prisma.$transaction\<close> returns a
  result with the new state, and \<open>transaction\<close> rolls a failing one back; writes outside a
  transaction stay when a later step throws. The time is an argument in milliseconds,
  identifiers come from a generator in the database that is assumed injective only where a
  theorem says so (\<open>fresh_for\<close>, in \<open>keys_ok\<close>). Amounts are integers of kobo: they stay below
  \<open>2 ^ 53\<close>, where JavaScript's numbers are exact; the fees, products with a rate, are computed
  in double arithmetic (\<open>JsNumber\<close>). A unique index that is violated is the error P2002, a
  missing row P2025; writes to rows that a handler has read and nothing deletes (\<open>adjust_account\<close>,
  \<open>mark_entry_reversed\<close>) leave it out. Rows locked with \<open>FOR UPDATE\<close> need no counterpart: operations are
  sequences of whole steps. Theorems on sequences of operations speak of requests one after the other; what
  overlapping requests can do beyond that is modelled where a theorem speaks of it: for idempotency keys,
  credits and debits, the wallet cache, plans of promotions and, statement by statement under
  READ COMMITTED, the transactions of ballots (\<open>governance_step\<close>).

  \<^bold>\<open>What is shown.\<close> The ledger: entries are balanced and have exactly the effect of their
  lines, a reversal undoes an entry, the reconciliation report is exact. The withdrawal
  lifecycle, for every sequence of operations and whatever the provider answers: the books stay
  balanced and mirrored, statuses move only forward, reservations are exact and covered, a
  pending withdrawal can be settled, compensation restores every balance. Payout accounts keep
  one default. Dues are assigned and paid once, and what a student is shown as payable can be paid.
  Collections: for every sequence of requests and webhook deliveries, with any content, the money in
  the wallets grows by exactly what the payments record, no reference and no charge is paid twice,
  completion is idempotent, and in production only authentic webhooks are processed. Credits, debits and
  savings lose no money as long as they run one after the other, and then the service with the wallet
  cache refines the one on the database. A used idempotency key is never valid again, and while no
  request outlives its lock only one at a time is processed. Accounts: every sequence of requests keeps
  keys unique, sessions consistent and one open reset link; refresh tokens rotate, a password reset ends
  the sessions, failed logins lock an address, a registered user gets in. Permissions: the guard admits only authority,
  and agrees with the permission service; assignments come only from those who may make them, and a
  revocation works at once. Elections, for requests one after the other: a ballot is accepted exactly when its
  specification says so, nobody has two votes for a position, nor two ballots, results add up, and a completed election
  is final; when ballots overlap, nobody has two votes for a candidate, and the rest of the invariant stays.
  The promotion of an institution moves every active student to the next level, and happens once for a session.
  Some theorems
  show what goes wrong: a reversal leaves the reconciliation with a difference, and so does every
  collection; wallets whose identifiers share eight characters cannot both be opened; an update
  that fails loses the default account; a pending payment that is used again credits its old
  amount; the internal and the manual payment never complete; credits that overlap lose one of the
  amounts, and debits spend reserved money; a wallet read while a credit commits stays in the cache;
  two requests with one idempotency key can both be processed; an unreadable token logs everybody out, a
  login that stops half way blocks all others, limits on registrations are never reached, access tokens
  outlive their sessions; overlapping ballots of one voter are all counted, also for one position; a revoked role can be
  given again only to an administrator of an organization, and only by another one; reports of the provider that come late, out of order or without an identifier hit
  reservations, balances and payments they should not.

  \<^bold>\<open>Bounds and termination.\<close> The only loop that is not structural, the binary search of
  \<open>calculateMaximumWithdrawal\<close>, terminates by the width of its interval; no fuel is used. The
  theorem on the deployed charges holds up to \<open>2 ^ 50\<close> kobo.

  \<^bold>\<open>Parameters.\<close> The payment provider (\<open>provider\<close>, \<open>getPayout\<close>) and the cryptography of the
  webhook signatures (\<open>signing\<close>, \<open>signature_env\<close>) are arguments of the definitions, and nothing is
  assumed of them but, where a theorem says so, the length of a digest. The checkout half of the provider, the
  URL parser and the configuration are \<open>checkout_env\<close>. How a posting ends that runs beside an open
  transaction is the argument \<open>client\<close> of the payments, with the locale \<open>second_connection\<close> as its
  contract. Password hashing, digests and the signing of tokens are \<open>auth_env\<close>; theorems assume of them
  only that a hash matches exactly the text it was made of (\<open>hashing\<close>, an ideal of \<open>argon2.verify\<close>) and that a signed token is read back while it lives
  (\<open>signing_lives\<close>).

  \<^bold>\<open>Not modelled.\<close> The validation of the DTOs in front of the controllers; the one-time passwords of
  \<open>src/redis\<close>, which no handler uses; guest payments and receipts; listings and reports that only read; notifications, e-mail, audit rows and sockets; the scopes of administrators
  in the serialized user (addresses are lowered as ASCII);
  the registration of students, organizations, activities, approvals and the other academic administration. Theories other than
  \<open>WalletCache\<close> read wallets from the database. The unique columns for the provider's identifiers of a
  withdrawal (\<open>providerPayoutId\<close>, \<open>webhookId\<close>) are not enforced by the model.
\<close>

end
